(* ===== verification/Go_Prelude.thy ===== *)
theory Go_Prelude
  imports Main "HOL-Library.Sublist" "HOL-Library.AList"
begin

text \<open>
  Prelude of the development: the parts of Go and of its standard library that the gateway's
  sources use everywhere, and the generic lemmas on them.

  A Go \<^verbatim>\<open>string\<close> is a sequence of bytes, so it is the type \<^typ>\<open>string\<close> (a list of 8-bit
  characters) and \<open>len\<close> is \<^const>\<open>length\<close>. The functions of package \<^verbatim>\<open>strings\<close> are defined
  on bytes. An index that Go reports as -1 is \<^const>\<open>None\<close>. Case mapping, case folding and
  trimming follow Go on ASCII bytes; a byte from 0x80 on is left as it is, so those functions
  agree with Go's on ASCII strings.

  A \<^verbatim>\<open>time.Time\<close> is the number of nanoseconds since Go's zero time, so the zero time is 0
  and \<open>IsZero\<close> is equality with it; a \<^verbatim>\<open>time.Duration\<close> is a number of nanoseconds
  and \<open>Sub\<close> saturates at the ends of the 64-bit range as Go's does. A pointer that may be
  nil is an \<open>option\<close>. A Go map is an association list with distinct keys whose order stands
  for an iteration order; no statement depends on that order.
\<close>

named_theorems go_string \<open>evaluation and reasoning rules for the modelled strings package\<close>
named_theorems go_map \<open>rules for Go maps as association lists\<close>
named_theorems go_time \<open>definitions of the time operations\<close>

section \<open>Package strings\<close>

definition HasPrefix :: "string \<Rightarrow> string \<Rightarrow> bool" where
  "HasPrefix s p \<longleftrightarrow> take (length p) s = p"

definition HasSuffix :: "string \<Rightarrow> string \<Rightarrow> bool" where
  "HasSuffix s p \<longleftrightarrow> length p \<le> length s \<and> drop (length s - length p) s = p"

definition TrimPrefix :: "string \<Rightarrow> string \<Rightarrow> string" where
  "TrimPrefix s p = (if HasPrefix s p then drop (length p) s else s)"

definition TrimSuffix :: "string \<Rightarrow> string \<Rightarrow> string" where
  "TrimSuffix s p = (if HasSuffix s p then take (length s - length p) s else s)"

fun Index :: "string \<Rightarrow> string \<Rightarrow> nat option" where
  "Index [] sub = (if sub = [] then Some 0 else None)"
| "Index (c # s) sub = (if HasPrefix (c # s) sub then Some 0 else map_option Suc (Index s sub))"

fun IndexByte :: "string \<Rightarrow> char \<Rightarrow> nat option" where
  "IndexByte [] b = None"
| "IndexByte (c # s) b = (if c = b then Some 0 else map_option Suc (IndexByte s b))"

fun LastIndexByte :: "string \<Rightarrow> char \<Rightarrow> nat option" where
  "LastIndexByte [] b = None"
| "LastIndexByte (c # s) b =
     (case LastIndexByte s b of
        Some i \<Rightarrow> Some (Suc i)
      | None \<Rightarrow> if c = b then Some 0 else None)"

definition Contains :: "string \<Rightarrow> string \<Rightarrow> bool" where
  "Contains s sub \<longleftrightarrow> Index s sub \<noteq> None"

text \<open>\<^verbatim>\<open>strings.Split\<close> with a separator of one byte; the result is never empty.\<close>

fun SplitByte :: "char \<Rightarrow> string \<Rightarrow> string list" where
  "SplitByte b [] = [[]]"
| "SplitByte b (c # s) =
     (if c = b then [] # SplitByte b s
      else (case SplitByte b s of
              [] \<Rightarrow> [[c]]
            | p # ps \<Rightarrow> (c # p) # ps))"

definition CountByte :: "string \<Rightarrow> char \<Rightarrow> nat" where
  "CountByte s b = length (filter (\<lambda>c. c = b) s)"

text \<open>\<^verbatim>\<open>strings.Cut\<close> at a byte: what is before its first occurrence and what is after.\<close>

definition CutByte :: "string \<Rightarrow> char \<Rightarrow> string \<times> string" where
  "CutByte s b =
     (case IndexByte s b of
        None \<Rightarrow> (s, [])
      | Some i \<Rightarrow> (take i s, drop (Suc i) s))"

definition ascii_space :: "char \<Rightarrow> bool" where
  "ascii_space c \<longleftrightarrow> of_char c \<in> {9::nat, 10, 11, 12, 13, 32}"

definition TrimSpace :: "string \<Rightarrow> string" where
  "TrimSpace s = rev (dropWhile ascii_space (rev (dropWhile ascii_space s)))"

text \<open>\<^verbatim>\<open>strings.TrimRight\<close> and \<^verbatim>\<open>strings.TrimLeft\<close> with a cutset of one byte.\<close>

definition TrimRightByte :: "string \<Rightarrow> char \<Rightarrow> string" where
  "TrimRightByte s b = rev (dropWhile (\<lambda>c. c = b) (rev s))"

definition TrimLeftByte :: "string \<Rightarrow> char \<Rightarrow> string" where
  "TrimLeftByte s b = dropWhile (\<lambda>c. c = b) s"

definition is_upper :: "char \<Rightarrow> bool" where
  "is_upper c \<longleftrightarrow> 65 \<le> (of_char c :: nat) \<and> (of_char c :: nat) \<le> 90"

definition is_lower :: "char \<Rightarrow> bool" where
  "is_lower c \<longleftrightarrow> 97 \<le> (of_char c :: nat) \<and> (of_char c :: nat) \<le> 122"

definition is_digit :: "char \<Rightarrow> bool" where
  "is_digit c \<longleftrightarrow> 48 \<le> (of_char c :: nat) \<and> (of_char c :: nat) \<le> 57"

definition is_letter :: "char \<Rightarrow> bool" where
  "is_letter c \<longleftrightarrow> is_upper c \<or> is_lower c"

definition is_alnum :: "char \<Rightarrow> bool" where
  "is_alnum c \<longleftrightarrow> is_letter c \<or> is_digit c"

definition to_lower :: "char \<Rightarrow> char" where
  "to_lower c = (if is_upper c then char_of ((of_char c :: nat) + 32) else c)"

definition to_upper :: "char \<Rightarrow> char" where
  "to_upper c = (if is_lower c then char_of ((of_char c :: nat) - 32) else c)"

definition ToLower :: "string \<Rightarrow> string" where
  "ToLower s = map to_lower s"

definition ToUpper :: "string \<Rightarrow> string" where
  "ToUpper s = map to_upper s"

definition EqualFold :: "string \<Rightarrow> string \<Rightarrow> bool" where
  "EqualFold a b \<longleftrightarrow> ToLower a = ToLower b"

definition ascii :: "string \<Rightarrow> bool" where
  "ascii s \<longleftrightarrow> list_all (\<lambda>c. (of_char c :: nat) < 128) s"

text \<open>The character classes on the bits of a byte, least bit first: the equations the evaluation uses.\<close>

lemma is_upper_bits [code]:
  "is_upper (Char b0 b1 b2 b3 b4 b5 b6 b7) \<longleftrightarrow>
     \<not> b7 \<and> b6 \<and> \<not> b5 \<and> (b4 \<or> b3 \<or> b2 \<or> b1 \<or> b0) \<and> \<not> (b4 \<and> b3 \<and> (b2 \<or> b1 \<and> b0))"
  by (cases b0; cases b1; cases b2; cases b3; cases b4; cases b5; cases b6; cases b7)
     (simp_all add: is_upper_def of_char_Char)

lemma is_lower_bits [code]:
  "is_lower (Char b0 b1 b2 b3 b4 b5 b6 b7) \<longleftrightarrow>
     \<not> b7 \<and> b6 \<and> b5 \<and> (b4 \<or> b3 \<or> b2 \<or> b1 \<or> b0) \<and> \<not> (b4 \<and> b3 \<and> (b2 \<or> b1 \<and> b0))"
  by (cases b0; cases b1; cases b2; cases b3; cases b4; cases b5; cases b6; cases b7)
     (simp_all add: is_lower_def of_char_Char)

lemma is_digit_bits [code]:
  "is_digit (Char b0 b1 b2 b3 b4 b5 b6 b7) \<longleftrightarrow>
     \<not> b7 \<and> \<not> b6 \<and> b5 \<and> b4 \<and> \<not> (b3 \<and> (b2 \<or> b1))"
  by (cases b0; cases b1; cases b2; cases b3; cases b4; cases b5; cases b6; cases b7)
     (simp_all add: is_digit_def of_char_Char)

lemma ascii_space_bits [code]:
  "ascii_space (Char b0 b1 b2 b3 b4 b5 b6 b7) \<longleftrightarrow>
     \<not> b7 \<and> \<not> b6 \<and> \<not> b4 \<and>
     (if b5 then \<not> b3 \<and> \<not> b2 \<and> \<not> b1 \<and> \<not> b0 else b3 \<and> (if b2 then \<not> b1 else b1 \<or> b0))"
  by (cases b0; cases b1; cases b2; cases b3; cases b4; cases b5; cases b6; cases b7)
     (simp_all add: ascii_space_def of_char_Char)

lemma to_lower_bits [code]:
  "to_lower (Char b0 b1 b2 b3 b4 b5 b6 b7) =
     (if is_upper (Char b0 b1 b2 b3 b4 b5 b6 b7) then Char b0 b1 b2 b3 b4 True b6 b7
      else Char b0 b1 b2 b3 b4 b5 b6 b7)"
  by (cases b0; cases b1; cases b2; cases b3; cases b4; cases b5; cases b6; cases b7)
     (simp_all add: to_lower_def is_upper_bits of_char_Char char_of_def bit_0)

lemma to_upper_bits [code]:
  "to_upper (Char b0 b1 b2 b3 b4 b5 b6 b7) =
     (if is_lower (Char b0 b1 b2 b3 b4 b5 b6 b7) then Char b0 b1 b2 b3 b4 False b6 b7
      else Char b0 b1 b2 b3 b4 b5 b6 b7)"
  by (cases b0; cases b1; cases b2; cases b3; cases b4; cases b5; cases b6; cases b7)
     (simp_all add: to_upper_def is_lower_bits of_char_Char char_of_def bit_0)

lemma HasPrefix_iff [go_string]: "HasPrefix s p \<longleftrightarrow> prefix p s"
  by (metis HasPrefix_def append_eq_conv_conj prefix_def)

lemma HasSuffix_iff [go_string]: "HasSuffix s p \<longleftrightarrow> suffix p s"
proof
  assume "HasSuffix s p"
  then have "s = take (length s - length p) s @ p"
    unfolding HasSuffix_def by (metis append_take_drop_id)
  then show "suffix p s" by (metis suffixI)
next
  assume "suffix p s"
  then show "HasSuffix s p"
    by (auto simp: HasSuffix_def suffix_def)
qed

lemma HasPrefix_Nil [simp]: "HasPrefix s []"
  by (simp add: HasPrefix_def)

lemma HasSuffix_Nil [simp]: "HasSuffix s []"
  by (simp add: HasSuffix_def)

lemma HasPrefix_Cons_Cons [simp]: "HasPrefix (c # s) (d # p) \<longleftrightarrow> c = d \<and> HasPrefix s p"
  by (auto simp: HasPrefix_def)

lemma HasPrefix_empty [simp]: "HasPrefix [] p \<longleftrightarrow> p = []"
  by (auto simp: HasPrefix_def)

subsection \<open>The first occurrence of a substring\<close>

lemma Index_eq_Some_iff:
  "Index s sub = Some i \<longleftrightarrow>
     i \<le> length s \<and> prefix sub (drop i s) \<and> (\<forall>j<i. \<not> prefix sub (drop j s))"
proof (induction s arbitrary: i)
  case Nil
  then show ?case by auto
next
  case (Cons c s)
  show ?case
  proof (cases i)
    case 0
    then show ?thesis by (auto simp: HasPrefix_iff)
  next
    case (Suc k)
    then show ?thesis
      by (simp add: Cons.IH HasPrefix_iff All_less_Suc2 split: if_splits)
  qed
qed

lemma Index_Some_bound: "Index s sub = Some i \<Longrightarrow> i + length sub \<le> length s"
  using prefix_length_le by (fastforce simp: Index_eq_Some_iff)

lemma Index_Some_split: "Index s sub = Some i \<Longrightarrow> s = take i s @ sub @ drop (i + length sub) s"
  by (metis Index_eq_Some_iff add.commute append_eq_conv_conj append_take_drop_id drop_drop prefix_def)

lemma Index_None_iff: "Index s sub = None \<longleftrightarrow> \<not> sublist sub s"
proof (induction s)
  case Nil
  then show ?case by simp
next
  case (Cons c s)
  then show ?case
    by (auto simp: HasPrefix_iff sublist_Cons_right)
qed

lemma Contains_iff [go_string]: "Contains s sub \<longleftrightarrow> sublist sub s"
  using Index_None_iff by (auto simp: Contains_def)

subsection \<open>The first and the last occurrence of a byte\<close>

lemma IndexByte_eq_Some_iff:
  "IndexByte s b = Some i \<longleftrightarrow> i < length s \<and> s ! i = b \<and> b \<notin> set (take i s)"
proof (induction s arbitrary: i)
  case Nil
  then show ?case by simp
next
  case (Cons c s)
  then show ?case by (cases i) auto
qed

lemma IndexByte_None_iff: "IndexByte s b = None \<longleftrightarrow> b \<notin> set s"
  by (induction s) auto

lemma IndexByte_append:
  "IndexByte (s @ t) b =
     (case IndexByte s b of Some i \<Rightarrow> Some i | None \<Rightarrow> map_option (\<lambda>i. length s + i) (IndexByte t b))"
  by (cases "IndexByte t b"; induction s) (auto split: option.splits)

lemma IndexByte_skip [simp]: "b \<notin> set s \<Longrightarrow> IndexByte (s @ b # t) b = Some (length s)"
  using IndexByte_None_iff [of s b] by (simp add: IndexByte_append)

lemma LastIndexByte_None_iff: "LastIndexByte s b = None \<longleftrightarrow> b \<notin> set s"
  by (induction s) (auto split: option.splits)

lemma LastIndexByte_eq_Some_iff:
  "LastIndexByte s b = Some i \<longleftrightarrow> i < length s \<and> s ! i = b \<and> b \<notin> set (drop (Suc i) s)"
proof (induction s arbitrary: i)
  case Nil
  then show ?case by simp
next
  case (Cons c s)
  show ?case
  proof (cases i)
    case 0
    then show ?thesis
      using LastIndexByte_None_iff [of s b] by (auto split: option.splits)
  next
    case (Suc k)
    then show ?thesis using Cons.IH [of k] by (auto split: option.splits)
  qed
qed

lemma LastIndexByte_last [simp]: "b \<notin> set t \<Longrightarrow> LastIndexByte (s @ b # t) b = Some (length s)"
  by (simp add: LastIndexByte_eq_Some_iff)

lemma IndexByte_split:
  "IndexByte s b = Some i \<Longrightarrow> s = take i s @ b # drop (Suc i) s"
  by (metis IndexByte_eq_Some_iff id_take_nth_drop)

lemma LastIndexByte_split:
  "LastIndexByte s b = Some i \<Longrightarrow> s = take i s @ b # drop (Suc i) s"
  by (metis LastIndexByte_eq_Some_iff id_take_nth_drop)

subsection \<open>Splitting at a byte\<close>

text \<open>\<open>JoinByte\<close> is \<^verbatim>\<open>strings.Join\<close> with a separator of one byte.\<close>

fun JoinByte :: "char \<Rightarrow> string list \<Rightarrow> string" where
  "JoinByte b [] = []"
| "JoinByte b [p] = p"
| "JoinByte b (p # q # ps) = p @ b # JoinByte b (q # ps)"

lemma SplitByte_neq_Nil [simp]: "SplitByte b s \<noteq> []"
  by (induction s) (auto split: list.splits)

lemma JoinByte_Cons_Cons [simp]: "JoinByte b ((c # p) # ps) = c # JoinByte b (p # ps)"
  by (cases ps) auto

lemma JoinByte_Nil_Cons [simp]: "ps \<noteq> [] \<Longrightarrow> JoinByte b ([] # ps) = b # JoinByte b ps"
  by (cases ps) auto

lemma JoinByte_SplitByte: "JoinByte b (SplitByte b s) = s"
  by (induction s) (auto split: list.splits)

lemma SplitByte_no_sep: "p \<in> set (SplitByte b s) \<Longrightarrow> b \<notin> set p"
  by (induction s arbitrary: p) (auto split: list.splits if_splits)

lemma SplitByte_single: "b \<notin> set s \<Longrightarrow> SplitByte b s = [s]"
  by (induction s) auto

lemma SplitByte_append: "b \<notin> set p \<Longrightarrow> SplitByte b (p @ b # s) = p # SplitByte b s"
  by (induction p) auto

lemma SplitByte_JoinByte:
  "ps \<noteq> [] \<Longrightarrow> \<forall>p\<in>set ps. b \<notin> set p \<Longrightarrow> SplitByte b (JoinByte b ps) = ps"
  by (induction b ps rule: JoinByte.induct) (auto simp: SplitByte_single SplitByte_append)

lemma length_SplitByte: "length (SplitByte b s) = Suc (CountByte s b)"
proof (induction s)
  case Nil
  then show ?case by (simp add: CountByte_def)
next
  case (Cons c s)
  then show ?case
    by (cases "SplitByte b s") (auto simp: CountByte_def)
qed

lemma length_JoinByte_le: "p \<in> set ps \<Longrightarrow> length p \<le> length (JoinByte b ps)"
  by (induction b ps rule: JoinByte.induct) auto

lemma SplitByte_length_le: "p \<in> set (SplitByte b s) \<Longrightarrow> length p \<le> length s"
  using length_JoinByte_le [of p "SplitByte b s" b] by (simp add: JoinByte_SplitByte)

section \<open>Integers\<close>

text \<open>The wrap-around of a 64-bit signed integer.\<close>

definition i64 :: "int \<Rightarrow> int" where
  "i64 x = (x + 2 ^ 63) mod 2 ^ 64 - 2 ^ 63"

section \<open>Package time\<close>

type_synonym time = int
type_synonym duration = int

definition IsZero :: "time \<Rightarrow> bool" where
  [go_time]: "IsZero t \<longleftrightarrow> t = 0"

text \<open>\<open>Time.Unix\<close>: whole seconds since 1970; the zero time is 62135596800 seconds before it.\<close>

definition time_Unix :: "time \<Rightarrow> int" where
  "time_Unix t = t div 1000000000 - 62135596800"

definition time_Sub :: "time \<Rightarrow> time \<Rightarrow> duration" where
  [go_time]: "time_Sub t u = max (- (2 ^ 63)) (min (2 ^ 63 - 1) (t - u))"

abbreviation Second :: duration where
  "Second \<equiv> 1000000000"

abbreviation Minute :: duration where
  "Minute \<equiv> 60000000000"

lemma time_Sub_le_iff: "0 \<le> d \<Longrightarrow> d < 2 ^ 63 - 1 \<Longrightarrow> time_Sub t u \<le> d \<longleftrightarrow> t - u \<le> d"
  by (auto simp: time_Sub_def)

lemma time_Sub_less_iff: "0 < d \<Longrightarrow> d < 2 ^ 63 \<Longrightarrow> time_Sub t u < d \<longleftrightarrow> t - u < d"
  by (auto simp: time_Sub_def)

section \<open>Maps\<close>

text \<open>
  A Go map is an association list with distinct keys. Writing a key keeps its place or adds it
  at the end, as \<^const>\<open>AList.update\<close> does; \<^verbatim>\<open>delete\<close> is \<^const>\<open>AList.delete\<close>.
\<close>

type_synonym ('k, 'v) gomap = "('k \<times> 'v) list"

definition map_ok :: "('k, 'v) gomap \<Rightarrow> bool" where
  "map_ok m \<longleftrightarrow> distinct (map fst m)"

lemma map_ok_Nil [simp, intro]: "map_ok []"
  by (simp add: map_ok_def)

lemma map_ok_update [simp, intro]: "map_ok m \<Longrightarrow> map_ok (AList.update k v m)"
  by (simp add: map_ok_def distinct_update)

lemma map_ok_delete [simp, intro]: "map_ok m \<Longrightarrow> map_ok (AList.delete k m)"
  by (simp add: map_ok_def distinct_delete)

lemma map_ok_in_iff: "map_ok m \<Longrightarrow> (k, v) \<in> set m \<longleftrightarrow> map_of m k = Some v"
  by (simp add: map_ok_def)

lemma map_of_update [go_map, simp]: "map_of (AList.update k v m) = (map_of m)(k \<mapsto> v)"
  by (rule update_conv')

lemma map_of_delete [go_map, simp]: "map_of (AList.delete k m) = (map_of m)(k := None)"
  by (rule delete_conv')

text \<open>Rewriting every value of a map in place, as a loop over the map with pointer values does.\<close>

definition map_vals :: "('v \<Rightarrow> 'v) \<Rightarrow> ('k, 'v) gomap \<Rightarrow> ('k, 'v) gomap" where
  "map_vals f m = map (\<lambda>(k, v). (k, f v)) m"

lemma map_ok_map_vals [simp]: "map_ok (map_vals f m) = map_ok m"
  by (simp add: map_ok_def map_vals_def comp_def case_prod_beta)

lemma map_of_map_vals [go_map, simp]: "map_of (map_vals f m) k = map_option f (map_of m k)"
  by (induction m) (auto simp: map_vals_def)

section \<open>Loops that return at the first hit\<close>

lemma find_SomeD: "find P xs = Some x \<Longrightarrow> x \<in> set xs \<and> P x"
  by (induction xs) (auto split: if_splits)

lemma find_cong_on: "(\<And>x. x \<in> set xs \<Longrightarrow> P x = Q x) \<Longrightarrow> find P xs = find Q xs"
  by (induction xs) auto

lemma find_filter: "find P (filter Q xs) = find (\<lambda>x. Q x \<and> P x) xs"
  by (induction xs) auto

section \<open>Results and errors\<close>

text \<open>A Go call that returns a value or an error is a sum: \<^const>\<open>Inl\<close> the error, \<^const>\<open>Inr\<close> the value.\<close>

definition is_ok :: "'e + 'a \<Rightarrow> bool" where
  "is_ok r \<longleftrightarrow> (case r of Inl _ \<Rightarrow> False | Inr _ \<Rightarrow> True)"

lemma is_ok_simps [simp]: "is_ok (Inr x)" "\<not> is_ok (Inl e)"
  by (simp_all add: is_ok_def)

end
