(* ===== verification/Go_URL.thy ===== *)
theory Go_URL
  imports Go_Prelude
begin

text \<open>
  The parts of Go's standard library that decide what a resource's URL means:
  \<^verbatim>\<open>net/url\<close> (\<open>Parse\<close>, \<open>Hostname\<close>, \<open>Port\<close>, \<open>EscapedPath\<close>), \<^verbatim>\<open>path.Clean\<close> on rooted
  paths, and the address syntax of \<^verbatim>\<open>net.ParseIP\<close> and \<^verbatim>\<open>net/netip\<close>. They follow
  the library of Go 1.26, the version the gateway's \<^verbatim>\<open>go.mod\<close> names. A parse error is
  \<^const>\<open>None\<close>; only the fields of \<^verbatim>\<open>url.URL\<close> that the gateway reads are kept.
\<close>

section \<open>Percent encoding\<close>

datatype encoding = EncPath | EncHost | EncZone | EncUserPassword | EncFragment

definition ishex :: "char \<Rightarrow> bool" where
  "ishex c \<longleftrightarrow> is_digit c
     \<or> (97 \<le> (of_char c :: nat) \<and> (of_char c :: nat) \<le> 102)
     \<or> (65 \<le> (of_char c :: nat) \<and> (of_char c :: nat) \<le> 70)"

definition unhex :: "char \<Rightarrow> nat" where
  "unhex c =
     (if is_digit c then of_char c - 48
      else if 97 \<le> (of_char c :: nat) then of_char c - 87
      else of_char c - 55)"

definition upperhex :: "nat \<Rightarrow> char" where
  "upperhex n = (if n < 10 then char_of (n + 48) else char_of (n + 55))"

text \<open>Host, zone and path modes of \<^verbatim>\<open>shouldEscape\<close>; the other two modes only decode.\<close>

definition shouldEscape :: "char \<Rightarrow> encoding \<Rightarrow> bool" where
  "shouldEscape c mode \<longleftrightarrow>
     (if is_alnum c then False
      else if (mode = EncHost \<or> mode = EncZone) \<and>
        c \<in> set (''!$&'' @ [CHR 0x27] @ ''()*+,;=:[]<>'' @ [CHR 0x22]) then False
      else if c \<in> set ''-_.~'' then False
      else if c \<in> set ''$&+,/:;=?@'' then mode = EncPath \<longrightarrow> c = CHR ''?''
      else True)"

definition escape_ok :: "encoding \<Rightarrow> char \<Rightarrow> char \<Rightarrow> bool" where
  "escape_ok mode a b \<longleftrightarrow>
     \<not> (mode = EncHost \<and> unhex a < 8 \<and> [a, b] \<noteq> ''25'') \<and>
     \<not> (mode = EncZone \<and> [a, b] \<noteq> ''25'' \<and> 16 * unhex a + unhex b \<noteq> 32 \<and>
        shouldEscape (char_of (16 * unhex a + unhex b)) EncHost)"

fun unescape :: "encoding \<Rightarrow> string \<Rightarrow> string option" where
  "unescape mode [] = Some []"
| "unescape mode (c # s) =
     (if c = CHR ''%'' then
        (case s of
           a # b # rest \<Rightarrow>
             if ishex a \<and> ishex b \<and> escape_ok mode a b
             then map_option ((#) (char_of (16 * unhex a + unhex b))) (unescape mode rest)
             else None
         | _ \<Rightarrow> None)
      else if (mode = EncHost \<or> mode = EncZone) \<and> (of_char c :: nat) < 128 \<and> shouldEscape c mode
      then None
      else map_option ((#) c) (unescape mode s))"

definition escape_byte :: "char \<Rightarrow> string" where
  "escape_byte c =
     (if shouldEscape c EncPath
      then [CHR ''%'', upperhex (of_char c div 16), upperhex (of_char c mod 16)]
      else [c])"

definition escape_path :: "string \<Rightarrow> string" where
  "escape_path s = concat (map escape_byte s)"

definition validEncoded_path :: "string \<Rightarrow> bool" where
  "validEncoded_path s \<longleftrightarrow>
     list_all (\<lambda>c. c \<in> set (''!$&'' @ [CHR 0x27] @ ''()*+,;=:@[]%'') \<or> \<not> shouldEscape c EncPath) s"

section \<open>Addresses\<close>

text \<open>\<^verbatim>\<open>netip.parseIPv4Fields\<close>: four decimal fields, each at most 255, no leading zero.\<close>

definition ipv4_field :: "string \<Rightarrow> bool" where
  "ipv4_field f \<longleftrightarrow> f \<noteq> [] \<and> list_all is_digit f \<and> (hd f = CHR ''0'' \<longrightarrow> length f = 1) \<and>
     length f \<le> 3 \<and> foldl (\<lambda>v c. 10 * v + (of_char c - 48)) 0 f \<le> (255 :: nat)"

definition valid_ipv4 :: "string \<Rightarrow> bool" where
  "valid_ipv4 s \<longleftrightarrow>
     (let fs = SplitByte (CHR ''.'') s in length fs = 4 \<and> list_all ipv4_field fs)"

definition ipv6_final :: "nat \<Rightarrow> bool \<Rightarrow> bool" where
  "ipv6_final i ell \<longleftrightarrow> (if i < 16 then ell else \<not> ell)"

text \<open>The loop of \<^verbatim>\<open>netip.parseIPv6\<close>: \<open>i\<close> bytes are filled, \<open>ell\<close> says an ellipsis was seen.\<close>

function ipv6_loop :: "nat \<Rightarrow> bool \<Rightarrow> string \<Rightarrow> bool" where
  "ipv6_loop i ell s =
     (if 16 \<le> i then s = [] \<and> ipv6_final i ell
      else let d = takeWhile ishex s; r = dropWhile ishex s in
        if d = [] \<or> 4 < length d then False
        else (case r of
           [] \<Rightarrow> ipv6_final (i + 2) ell
         | c # r' \<Rightarrow>
             if c = CHR ''.'' then
               (if \<not> ell \<and> i \<noteq> 12 then False
                else if 16 < i + 4 then False
                else valid_ipv4 s \<and> ipv6_final (i + 4) ell)
             else if c \<noteq> CHR '':'' then False
             else (case r' of
                [] \<Rightarrow> False
              | c' # r'' \<Rightarrow>
                  if c' = CHR '':'' then
                    (if ell then False
                     else if r'' = [] then ipv6_final (i + 2) True
                     else ipv6_loop (i + 2) True r'')
                  else ipv6_loop (i + 2) ell r')))"
  by pat_completeness auto
termination
  by (relation "measure (\<lambda>(i, ell, s). 16 - i)") auto

declare ipv6_loop.simps [simp del]

definition valid_ipv6 :: "string \<Rightarrow> bool" where
  "valid_ipv6 s \<longleftrightarrow>
     (if HasPrefix s ''::'' then
        (if length s = 2 then True else ipv6_loop 0 True (drop 2 s))
      else ipv6_loop 0 False s)"

text \<open>\<^verbatim>\<open>netip.ParseAddr\<close> looks for the first dot, colon or percent sign to choose the syntax.\<close>

datatype addr_kind = Addr4 | Addr6 | Addr6Zone

definition netip_ParseAddr :: "string \<Rightarrow> addr_kind option" where
  "netip_ParseAddr s =
     (case dropWhile (\<lambda>c. c \<notin> {CHR ''.'', CHR '':'', CHR ''%''}) s of
        [] \<Rightarrow> None
      | c # _ \<Rightarrow>
          if c = CHR ''.'' then (if valid_ipv4 s then Some Addr4 else None)
          else if c = CHR '':'' then
            (case IndexByte s (CHR ''%'') of
               None \<Rightarrow> if valid_ipv6 s then Some Addr6 else None
             | Some i \<Rightarrow> if drop (Suc i) s \<noteq> [] \<and> valid_ipv6 (take i s) then Some Addr6Zone else None)
          else None)"

definition net_ParseIP_ok :: "string \<Rightarrow> bool" where
  "net_ParseIP_ok s \<longleftrightarrow> (case netip_ParseAddr s of Some Addr4 \<Rightarrow> True | Some Addr6 \<Rightarrow> True | _ \<Rightarrow> False)"

section \<open>url.Parse\<close>

record url =
  Scheme :: string
  User :: bool
  Host :: string
  Path :: string
  RawPath :: string
  RawQuery :: string
  Fragment :: string

definition stringContainsCTLByte :: "string \<Rightarrow> bool" where
  "stringContainsCTLByte s \<longleftrightarrow> list_ex (\<lambda>c. (of_char c :: nat) < 32 \<or> (of_char c :: nat) = 127) s"

definition scheme_byte :: "char \<Rightarrow> bool" where
  "scheme_byte c \<longleftrightarrow> is_alnum c \<or> c \<in> set ''+-.''"

text \<open>
  \<^verbatim>\<open>getScheme\<close> scans letters, digits and \<^verbatim>\<open>+-.\<close> up to a colon; a string that does not start
  with a letter, or meets another byte first, has no scheme, and a leading colon is an error.
\<close>

definition getScheme :: "string \<Rightarrow> (string \<times> string) option" where
  "getScheme s =
     (let p = takeWhile scheme_byte s; r = dropWhile scheme_byte s in
      if p \<noteq> [] \<and> \<not> is_letter (hd p) then Some ([], s)
      else (case r of
              [] \<Rightarrow> Some ([], s)
            | c # t \<Rightarrow>
                if c = CHR '':'' then (if p = [] then None else Some (p, t))
                else Some ([], s)))"

definition validOptionalPort :: "string \<Rightarrow> bool" where
  "validOptionalPort p \<longleftrightarrow>
     (case p of [] \<Rightarrow> True | c # ds \<Rightarrow> c = CHR '':'' \<and> list_all is_digit ds)"

text \<open>
  A host without brackets has one colon at most, before its port; only the PostgreSQL schemes
  may list several hosts and are read from the last colon.
\<close>

definition parseHost :: "string \<Rightarrow> string \<Rightarrow> string option" where
  "parseHost scheme host =
     (case LastIndexByte host (CHR ''['') of
        Some ob \<Rightarrow>
          if 0 < ob then None
          else (case LastIndexByte host (CHR '']'') of
             None \<Rightarrow> None
           | Some cb \<Rightarrow>
               let colonPort = drop (Suc cb) host; hostname = drop 1 (take cb host) in
               if \<not> validOptionalPort colonPort then None
               else (case unescape EncHost colonPort of
                  None \<Rightarrow> None
                | Some ucp \<Rightarrow>
                    (case (case Index hostname ''%25'' of
                             Some z \<Rightarrow>
                               (case (unescape EncHost (take z hostname), unescape EncZone (drop z hostname)) of
                                  (Some h1, Some h2) \<Rightarrow> Some (h1 @ h2)
                                | _ \<Rightarrow> None)
                           | None \<Rightarrow> unescape EncHost hostname) of
                       None \<Rightarrow> None
                     | Some uh \<Rightarrow>
                         if netip_ParseAddr uh \<in> {Some Addr6, Some Addr6Zone}
                         then Some (''['' @ uh @ '']'' @ ucp)
                         else None)))
      | None \<Rightarrow>
          (case (if scheme \<in> {''postgresql'', ''postgres''} then LastIndexByte host (CHR '':'')
                 else IndexByte host (CHR '':'')) of
             Some i \<Rightarrow>
               if validOptionalPort (drop i host) then unescape EncHost host else None
           | None \<Rightarrow> unescape EncHost host))"

definition validUserinfo :: "string \<Rightarrow> bool" where
  "validUserinfo s \<longleftrightarrow>
     list_all (\<lambda>c. is_alnum c \<or> c \<in> set (''-._:~!$&'' @ [CHR 0x27] @ ''()*+,;=%@'')) s"

definition userinfo_decodes :: "string \<Rightarrow> bool" where
  "userinfo_decodes s \<longleftrightarrow>
     (case IndexByte s (CHR '':'') of
        None \<Rightarrow> unescape EncUserPassword s \<noteq> None
      | Some i \<Rightarrow> unescape EncUserPassword (take i s) \<noteq> None \<and>
          unescape EncUserPassword (drop (Suc i) s) \<noteq> None)"

definition parseAuthority :: "string \<Rightarrow> string \<Rightarrow> (bool \<times> string) option" where
  "parseAuthority scheme authority =
     (case LastIndexByte authority (CHR ''@'') of
        None \<Rightarrow> map_option (Pair False) (parseHost scheme authority)
      | Some i \<Rightarrow>
          (case parseHost scheme (drop (Suc i) authority) of
             None \<Rightarrow> None
           | Some h \<Rightarrow>
               if validUserinfo (take i authority) \<and> userinfo_decodes (take i authority)
               then Some (True, h) else None))"

definition setPath :: "url \<Rightarrow> string \<Rightarrow> url option" where
  "setPath u p =
     (case unescape EncPath p of
        None \<Rightarrow> None
      | Some path \<Rightarrow>
          Some (u\<lparr>Path := path, RawPath := (if p = escape_path path then [] else p)\<rparr>))"

definition empty_url :: url where
  "empty_url = \<lparr>Scheme = [], User = False, Host = [], Path = [], RawPath = [], RawQuery = [],
     Fragment = []\<rparr>"

text \<open>The query is cut at the first question mark; a lone trailing one is dropped (ForceQuery).\<close>

definition cutQuery :: "string \<Rightarrow> string \<times> string" where
  "cutQuery rest =
     (if HasSuffix rest ''?'' \<and> CountByte rest (CHR ''?'') = 1
      then (take (length rest - 1) rest, [])
      else CutByte rest (CHR ''?''))"

definition url_parse :: "string \<Rightarrow> url option" where
  "url_parse raw =
     (if stringContainsCTLByte raw then None
      else if raw = ''*'' then Some (empty_url\<lparr>Path := ''*''\<rparr>)
      else (case getScheme raw of
         None \<Rightarrow> None
       | Some (sch, rest0) \<Rightarrow>
           let scheme = ToLower sch; (rest, query) = cutQuery rest0;
               u = empty_url\<lparr>Scheme := scheme, RawQuery := query\<rparr> in
           if \<not> HasPrefix rest ''/'' \<and> scheme \<noteq> [] then Some u
           else if \<not> HasPrefix rest ''/'' \<and> CHR '':'' \<in> set (fst (CutByte rest (CHR ''/''))) then None
           else if (scheme \<noteq> [] \<or> \<not> HasPrefix rest ''///'') \<and> HasPrefix rest ''//'' then
             (let a0 = drop 2 rest;
                  (authority, rest') = (case IndexByte a0 (CHR ''/'') of
                     Some i \<Rightarrow> (take i a0, drop i a0) | None \<Rightarrow> (a0, [])) in
              case parseAuthority scheme authority of
                None \<Rightarrow> None
              | Some (usr, h) \<Rightarrow> setPath (u\<lparr>User := usr, Host := h\<rparr>) rest')
           else setPath u rest))"

definition url_Parse :: "string \<Rightarrow> url option" where
  "url_Parse rawURL =
     (let (u, frag) = CutByte rawURL (CHR ''#'') in
      case url_parse u of
        None \<Rightarrow> None
      | Some v \<Rightarrow>
          if frag = [] then Some v
          else map_option (\<lambda>f. v\<lparr>Fragment := f\<rparr>) (unescape EncFragment frag))"

definition splitHostPort :: "string \<Rightarrow> string \<times> string" where
  "splitHostPort hostPort =
     (let (h, p) = (case LastIndexByte hostPort (CHR '':'') of
            Some colon \<Rightarrow>
              if validOptionalPort (drop colon hostPort)
              then (take colon hostPort, drop (Suc colon) hostPort) else (hostPort, [])
          | None \<Rightarrow> (hostPort, [])) in
      if HasPrefix h ''['' \<and> HasSuffix h '']'' then (drop 1 (take (length h - 1) h), p) else (h, p))"

definition Hostname :: "url \<Rightarrow> string" where
  "Hostname u = fst (splitHostPort (Host u))"

definition Port :: "url \<Rightarrow> string" where
  "Port u = snd (splitHostPort (Host u))"

definition EscapedPath :: "url \<Rightarrow> string" where
  "EscapedPath u =
     (if RawPath u \<noteq> [] \<and> validEncoded_path (RawPath u) \<and> unescape EncPath (RawPath u) = Some (Path u)
      then RawPath u
      else if Path u = ''*'' then ''*''
      else escape_path (Path u))"

section \<open>path.Clean\<close>

text \<open>
  \<^verbatim>\<open>path.Clean\<close> on a path that starts with a slash, the only way the gateway calls it: empty
  and \<^verbatim>\<open>.\<close> elements vanish, \<^verbatim>\<open>..\<close> removes the element before it or, at the root, itself.
\<close>

definition clean_step :: "string list \<Rightarrow> string \<Rightarrow> string list" where
  "clean_step acc seg =
     (if seg = [] \<or> seg = ''.'' then acc
      else if seg = ''..'' then butlast acc
      else acc @ [seg])"

definition path_Clean :: "string \<Rightarrow> string" where
  "path_Clean p = CHR ''/'' # JoinByte (CHR ''/'') (foldl clean_step [] (SplitByte (CHR ''/'') p))"

end
