(* ===== verification/Go_Float.thy ===== *)
theory Go_Float
  imports Complex_Main Go_Prelude
begin

text \<open>
  Go's \<^verbatim>\<open>float64\<close>. A value is the rational number it denotes, and an operation is the exact
  operation followed by rounding to the nearest number with a 53-bit significand, ties to even,
  as IEEE 754 prescribes. The gateway's scores, ratios and thresholds stay far from overflow
  and from the subnormal range, so neither they nor infinities and NaN are represented.
\<close>

type_synonym float64 = rat

function ilog2 :: "int \<Rightarrow> int" where
  "ilog2 n = (if n < 2 then 0 else 1 + ilog2 (n div 2))"
  by pat_completeness auto
termination
  by (relation "measure nat") auto

declare ilog2.simps [simp del]

definition pow2 :: "int \<Rightarrow> rat" where
  "pow2 k = (if 0 \<le> k then 2 ^ nat k else 1 / 2 ^ nat (- k))"

text \<open>The exponent of a positive rational: the greatest \<open>k\<close> with \<open>pow2 k \<le> x\<close>.\<close>

definition exponent2 :: "rat \<Rightarrow> int" where
  "exponent2 x =
     (let (a, b) = quotient_of x; k = ilog2 a - ilog2 b in
      if pow2 k \<le> x then k else k - 1)"

definition round_half_even :: "rat \<Rightarrow> int" where
  "round_half_even m =
     (let f = \<lfloor>m\<rfloor>; d = m - of_int f in
      if d < 1 / 2 then f else if 1 / 2 < d then f + 1 else if even f then f else f + 1)"

definition fl :: "rat \<Rightarrow> float64" where
  "fl x =
     (if x = 0 then 0
      else let e = exponent2 \<bar>x\<bar> - 52
           in sgn x * of_int (round_half_even (\<bar>x\<bar> / pow2 e)) * pow2 e)"

definition fadd :: "float64 \<Rightarrow> float64 \<Rightarrow> float64" where
  "fadd x y = fl (x + y)"

definition fsub :: "float64 \<Rightarrow> float64 \<Rightarrow> float64" where
  "fsub x y = fl (x - y)"

definition fmul :: "float64 \<Rightarrow> float64 \<Rightarrow> float64" where
  "fmul x y = fl (x * y)"

definition fdiv :: "float64 \<Rightarrow> float64 \<Rightarrow> float64" where
  "fdiv x y = fl (x / y)"

lemma pow2_pos [simp]: "0 < pow2 k"
  by (simp add: pow2_def)

lemma round_half_even_nonneg: "0 \<le> m \<Longrightarrow> 0 \<le> round_half_even m"
  by (simp add: round_half_even_def Let_def)

lemma fl_0 [simp]: "fl 0 = 0"
  by (simp add: fl_def)

lemma fl_nonneg: "0 \<le> x \<Longrightarrow> 0 \<le> fl x"
  by (auto simp: fl_def Let_def intro!: mult_nonneg_nonneg round_half_even_nonneg
      divide_nonneg_pos less_imp_le [OF pow2_pos])

lemma fl_nonpos: "x \<le> 0 \<Longrightarrow> fl x \<le> 0"
  using fl_nonneg [of "- x"] by (simp add: fl_def Let_def sgn_minus split: if_splits)

section \<open>JSON values\<close>

text \<open>A value as \<^verbatim>\<open>encoding/json\<close> reads it. An object keeps its keys in order and with repetitions, which
  the policy parser looks at.\<close>

datatype json =
    JNull
  | JBool bool
  | JNum rat
  | JString string
  | JArray "json list"
  | JObject "(string \<times> json) list"

end
