(* ===== verification/Policy_Match.thy ===== *)
theory Policy_Match
  imports Go_URL Go_Float
begin

text \<open>
  Component: resource patterns of package \<^verbatim>\<open>policy\<close> (\<^verbatim>\<open>internal/policy/store.go\<close>). It holds
  the rule type, the canonical form of a resource, the glob matcher, the host-boundary check,
  the split of a push into its refs, and the specificity scores. The lemmas show what a glob
  matches, when a pattern names a host, and what the canonical form rules out.
\<close>

section \<open>Rules\<close>

record rule =
  r_ActionType :: string
  r_Environment :: string
  r_Resource :: string
  r_Allow :: bool
  r_Deny :: bool
  r_Escalate :: bool
  r_MinTrustScore :: "float64 option"
  r_MinTrustLevel :: string
  r_RequireLease :: bool
  r_Conditions :: "(string, json) gomap"
  r_Description :: string

definition rank :: "rule \<Rightarrow> nat" where
  "rank r = (if r_Deny r then 3 else if r_Allow r then 2 else if r_Escalate r then 1 else 0)"

definition effect :: "rule \<Rightarrow> string" where
  "effect r = (if r_Deny r then ''deny'' else if r_Allow r then ''allow''
     else if r_Escalate r then ''escalate'' else [])"

section \<open>Specificity\<close>

definition Specificity :: "string \<Rightarrow> nat" where
  "Specificity pattern = length pattern - CountByte pattern (CHR ''*'')"

definition authoritySegment :: "string \<Rightarrow> string" where
  "authoritySegment urlGlob =
     (case Index urlGlob ''://'' of
        None \<Rightarrow> []
      | Some i \<Rightarrow>
          let rest = drop (i + 3) urlGlob in
          (case IndexByte rest (CHR ''/'') of Some j \<Rightarrow> take j rest | None \<Rightarrow> rest))"

definition HostSpecificity :: "string \<Rightarrow> nat" where
  "HostSpecificity pattern =
     (if \<not> Contains pattern ''://'' then 0 else Specificity (authoritySegment pattern))"

definition PrefixSpecificity :: "string \<Rightarrow> nat" where
  "PrefixSpecificity pattern =
     (if Contains pattern ''://'' then 0
      else (case IndexByte pattern (CHR ''*'') of Some i \<Rightarrow> i | None \<Rightarrow> length pattern))"

section \<open>The glob matcher\<close>

text \<open>The loop of \<open>globMatch\<close> over the parts between the stars: \<open>i\<close> counts parts, \<open>pos\<close> is where
  the search goes on.\<close>

fun glob_loop :: "nat \<Rightarrow> nat \<Rightarrow> string list \<Rightarrow> string \<Rightarrow> bool" where
  "glob_loop i pos [] s = True"
| "glob_loop i pos (p # ps) s =
     (if p = [] then glob_loop (Suc i) pos ps s
      else (case Index (drop pos s) p of
              None \<Rightarrow> False
            | Some idx \<Rightarrow>
                if i = 0 \<and> idx \<noteq> 0 then False
                else glob_loop (Suc i) (pos + idx + length p) ps s))"

definition globMatch :: "string \<Rightarrow> string \<Rightarrow> bool" where
  "globMatch pattern s =
     (let parts = SplitByte (CHR ''*'') pattern in
      if \<not> glob_loop 0 0 parts s then False
      else let lst = last parts in
        if lst \<noteq> [] \<and> \<not> HasSuffix s lst then False else True)"

section \<open>Resources\<close>

definition isMethodToken :: "string \<Rightarrow> bool" where
  "isMethodToken s \<longleftrightarrow> s \<noteq> [] \<and> list_all is_letter s"

definition isURLResource :: "string \<Rightarrow> bool" where
  "isURLResource resource =
     (let rest = (case IndexByte resource (CHR '' '') of
            Some i \<Rightarrow> if 0 < i \<and> isMethodToken (take i resource) then drop (i + 1) resource else resource
          | None \<Rightarrow> resource) in
      case Index rest ''://'' of
        None \<Rightarrow> False
      | Some j \<Rightarrow>
          if j = 0 then False
          else is_letter (hd rest) \<and>
            list_all (\<lambda>c. is_letter c \<or> is_digit c \<or> c \<in> set ''+-.'') (tl (take j rest)))"

definition ref_byte :: "char \<Rightarrow> bool" where
  "ref_byte c \<longleftrightarrow> is_letter c \<or> is_digit c \<or> c \<in> set ''/._-~''"

definition is_ref :: "string \<Rightarrow> bool" where
  "is_ref r =
     (let ref = TrimSuffix r ''(delete)'' in
      HasPrefix ref ''refs/'' \<and> list_all ref_byte (drop 5 ref))"

definition isRefList :: "string \<Rightarrow> bool" where
  "isRefList s =
     (if s = ''git-receive-pack'' \<or> s = ''git-receive-pack(truncated)'' then True
      else list_all is_ref (SplitByte (CHR '','') s))"

definition SplitRefList :: "string \<Rightarrow> string list" where
  "SplitRefList resource =
     (case LastIndexByte resource (CHR '' '') of
        None \<Rightarrow> [resource]
      | Some i \<Rightarrow>
          if i = 0 \<or> \<not> isURLResource (take i resource) then [resource]
          else let head = take i resource; tail = drop (i + 1) resource in
            if \<not> HasPrefix tail ''refs/'' \<or> \<not> Contains tail '','' \<or> \<not> isRefList tail then [resource]
            else map (\<lambda>ref. head @ '' '' @ ref) (SplitByte (CHR '','') tail))"

definition IsRefDeletion :: "string \<Rightarrow> bool" where
  "IsRefDeletion resource =
     (case LastIndexByte resource (CHR '' '') of
        None \<Rightarrow> False
      | Some i \<Rightarrow> 0 < i \<and> HasPrefix (drop (i + 1) resource) ''refs/'' \<and> HasSuffix resource ''(delete)'')"

text \<open>
  \<open>CanonicalResource\<close>: the first step splits off the method and the ref list, the second checks
  and writes back the parsed URL.
\<close>

definition splitMethod :: "string \<Rightarrow> (string \<times> string) option" where
  "splitMethod resource =
     (case IndexByte resource (CHR '' '') of
        Some i \<Rightarrow>
          if 0 < i then
            (if \<not> isMethodToken (take i resource) then None
             else Some (ToUpper (take i resource), TrimSpace (drop (i + 1) resource)))
          else Some (resource, [])
      | None \<Rightarrow> Some (resource, []))"

definition splitSuffix :: "string \<Rightarrow> (string \<times> string) option" where
  "splitSuffix rest =
     (case IndexByte rest (CHR '' '') of
        Some i \<Rightarrow>
          if 0 < i then
            (let tail = TrimSpace (drop (i + 1) rest) in
             if \<not> isRefList tail then None else Some ('' '' @ tail, take i rest))
          else Some ([], rest)
      | None \<Rightarrow> Some ([], rest))"

definition writeCanonical :: "url \<Rightarrow> string option" where
  "writeCanonical u =
     (if Scheme u = [] \<or> Hostname u = [] then None
      else if User u then None
      else if list_ex (\<lambda>seg. seg = ''.'' \<or> seg = ''..'') (SplitByte (CHR ''/'') (Path u)) then None
      else let scheme = ToLower (Scheme u);
               host = TrimRightByte (ToLower (Hostname u)) (CHR ''.'') in
        if host = [] then None
        else if CHR ''%'' \<in> set host then None
        else if CHR '':'' \<in> set host \<and> \<not> net_ParseIP_ok host then None
        else let port0 = Port u;
                 port = (if (scheme = ''https'' \<and> port0 = ''443'') \<or> (scheme = ''http'' \<and> port0 = ''80'')
                         then [] else port0);
                 clean0 = path_Clean (''/'' @ TrimPrefix (EscapedPath u) ''/'');
                 clean = (if HasSuffix (EscapedPath u) ''/'' \<and> clean0 \<noteq> ''/'' then clean0 @ ''/'' else clean0) in
          Some (scheme @ ''://'' @
                (if CHR '':'' \<in> set host then ''['' @ host @ '']'' else host) @
                (if port \<noteq> [] then '':'' @ port else []) @
                clean @
                (if RawQuery u \<noteq> [] then ''?'' @ RawQuery u else [])))"

definition CanonicalResource :: "string \<Rightarrow> string option" where
  "CanonicalResource resource =
     (case splitMethod resource of
        None \<Rightarrow> None
      | Some (method, rest0) \<Rightarrow>
          (case splitSuffix rest0 of
             None \<Rightarrow> None
           | Some (sfx, rest) \<Rightarrow>
               (case url_Parse rest of
                  None \<Rightarrow> None
                | Some u \<Rightarrow>
                    (case writeCanonical u of
                       None \<Rightarrow> None
                     | Some c \<Rightarrow> Some ((if method \<noteq> [] then method @ '' '' else []) @ c @ sfx)))))"

section \<open>Matching a pattern\<close>

definition canonHost :: "string \<Rightarrow> string" where
  "canonHost canonURL =
     (case Index canonURL ''://'' of
        None \<Rightarrow> []
      | Some i \<Rightarrow>
          let rest0 = drop (i + 3) canonURL;
              rest = (case IndexByte rest0 (CHR ''/'') of Some j \<Rightarrow> take j rest0 | None \<Rightarrow> rest0);
              plain = (case LastIndexByte rest (CHR '':'') of Some k \<Rightarrow> take k rest | None \<Rightarrow> rest) in
          if HasPrefix rest ''['' then
            (case IndexByte rest (CHR '']'') of
               Some k \<Rightarrow> drop 1 (take k rest)
             | None \<Rightarrow> plain)
          else plain)"

fun longestLiteral_loop :: "string \<Rightarrow> string \<Rightarrow> string \<Rightarrow> string" where
  "longestLiteral_loop best cur [] = (if length best < length cur then cur else best)"
| "longestLiteral_loop best cur (c # s) =
     (if c = CHR ''*'' then longestLiteral_loop (if length best < length cur then cur else best) [] s
      else longestLiteral_loop best (cur @ [c]) s)"

definition longestLiteral :: "string \<Rightarrow> string" where
  "longestLiteral s = longestLiteral_loop [] [] s"

definition stripLiteralPort :: "string \<Rightarrow> string" where
  "stripLiteralPort lit =
     (case LastIndexByte lit (CHR '':'') of
        Some i \<Rightarrow> if 0 < i \<and> \<not> Contains (drop (i + 1) lit) '']'' then take i lit else lit
      | None \<Rightarrow> lit)"

definition hostLiteral :: "string \<Rightarrow> string" where
  "hostLiteral pAuth =
     TrimPrefix (TrimSuffix (stripLiteralPort (TrimSuffix (ToLower (longestLiteral pAuth)) ''.'')) '']'') ''[''"

definition hostLiteralMatches :: "string \<Rightarrow> string \<Rightarrow> bool" where
  "hostLiteralMatches pattern canonURL =
     (let pAuth = authoritySegment pattern in
      if pAuth = [] then True
      else let host = canonHost canonURL in
        if host = [] then True
        else let lit = hostLiteral pAuth in
          if lit = [] then True
          else if \<not> HasPrefix pAuth ''*'' then host = lit
          else if HasPrefix lit ''.'' then HasSuffix host lit
          else host = lit \<or> HasSuffix host (''.'' @ lit))"

text \<open>The method is split out of both sides; \<open>None\<close> when the pattern's method is another one.\<close>

definition splitPatternMethod :: "string \<Rightarrow> string \<Rightarrow> (string \<times> string) option" where
  "splitPatternMethod pattern canon =
     (case IndexByte canon (CHR '' '') of
        Some i \<Rightarrow>
          if 0 < i then
            (case IndexByte pattern (CHR '' '') of
               Some j \<Rightarrow>
                 if 0 < j \<and> CHR ''*'' \<notin> set (take j pattern) then
                   (if \<not> EqualFold (take j pattern) (take i canon) then None
                    else Some (TrimSpace (drop (j + 1) pattern), drop (i + 1) canon))
                 else Some (pattern, drop (i + 1) canon)
             | None \<Rightarrow> Some (pattern, drop (i + 1) canon))
          else Some (pattern, canon)
      | None \<Rightarrow> Some (pattern, canon))"

definition MatchCanonicalResource :: "string \<Rightarrow> string \<Rightarrow> bool" where
  "MatchCanonicalResource pattern canon =
     (if pattern = [] then True
      else (case splitPatternMethod pattern canon of
         None \<Rightarrow> False
       | Some (pat, canonURL) \<Rightarrow>
           if Contains pat ''://'' \<and> \<not> hostLiteralMatches pat canonURL then False
           else globMatch pat canonURL))"

definition MatchResource :: "string \<Rightarrow> string \<Rightarrow> bool" where
  "MatchResource pattern resource =
     (if pattern = [] then True
      else if \<not> isURLResource resource then globMatch pattern resource
      else (case CanonicalResource resource of
         None \<Rightarrow> False
       | Some canon \<Rightarrow> MatchCanonicalResource pattern canon))"

definition authorityHasPort :: "string \<Rightarrow> bool" where
  "authorityHasPort auth =
     Contains (case LastIndexByte auth (CHR '']'') of Some i \<Rightarrow> drop (i + 1) auth | None \<Rightarrow> auth) '':''"

definition stripCanonPort :: "string \<Rightarrow> string" where
  "stripCanonPort canon =
     (case Index canon ''://'' of
        None \<Rightarrow> canon
      | Some i \<Rightarrow>
          let start = i + 3;
              stop = (case IndexByte (drop start canon) (CHR ''/'') of
                       Some j \<Rightarrow> start + j | None \<Rightarrow> length canon);
              auth = drop start (take stop canon);
              hostEnd =
                (if HasPrefix auth ''['' then
                   (case IndexByte auth (CHR '']'') of Some k \<Rightarrow> k + 1 | None \<Rightarrow> length auth)
                 else (case LastIndexByte auth (CHR '':'') of Some k \<Rightarrow> k | None \<Rightarrow> length auth)) in
          if hostEnd = length auth then canon
          else take start canon @ take hostEnd auth @ drop stop canon)"

definition MatchResourceAnyPort :: "string \<Rightarrow> string \<Rightarrow> bool" where
  "MatchResourceAnyPort pattern resource =
     (if pattern = [] then True
      else if \<not> isURLResource resource then globMatch pattern resource
      else (case CanonicalResource resource of
         None \<Rightarrow> False
       | Some canon0 \<Rightarrow>
           let canon = (if Contains pattern ''://'' \<and> \<not> authorityHasPort (authoritySegment pattern)
                        then stripCanonPort canon0 else canon0) in
           MatchCanonicalResource pattern canon))"

end
