(* ===== verification/Policy_Glob.thy ===== *)
theory Policy_Glob
  imports Policy_Match
begin

text \<open>
  What the glob matcher of \<^verbatim>\<open>internal/policy/store.go\<close> accepts. \<open>glob_sem\<close> is the meaning the
  policy specification gives a pattern: a star matches any run of characters, every other
  character matches itself. The matcher searches the parts between the stars greedily; the
  lemmas show that the greedy search decides \<open>glob_sem\<close> for every pattern with a star, and what
  it decides for a pattern without one.
\<close>

section \<open>The meaning of a pattern\<close>

fun glob_sem :: "string \<Rightarrow> string \<Rightarrow> bool" where
  "glob_sem [] s = (s = [])"
| "glob_sem (c # p) s =
     (if c = CHR ''*''
      then glob_sem p s \<or> (case s of [] \<Rightarrow> False | _ # t \<Rightarrow> glob_sem (c # p) t)
      else (case s of [] \<Rightarrow> False | d # t \<Rightarrow> c = d \<and> glob_sem p t))"

text \<open>The same by parts: the first part is a prefix, then each part follows after a gap.\<close>

fun match_parts :: "string list \<Rightarrow> string \<Rightarrow> bool" where
  "match_parts [] s = (s = [])"
| "match_parts [p] s = (s = p)"
| "match_parts (p # q # ps) s = (\<exists>u v. s = p @ u @ v \<and> match_parts (q # ps) v)"

definition star_match :: "string list \<Rightarrow> string \<Rightarrow> bool" where
  "star_match ps s \<longleftrightarrow> (\<exists>u v. s = u @ v \<and> match_parts ps v)"

text \<open>The greedy search from the second part on.\<close>

fun greedy :: "string list \<Rightarrow> string \<Rightarrow> string option" where
  "greedy [] s = Some s"
| "greedy (p # ps) s =
     (case Index s p of None \<Rightarrow> None | Some i \<Rightarrow> greedy ps (drop (i + length p) s))"

section \<open>Parts\<close>

declare glob_sem.simps(2) [simp del]

lemma glob_sem_lit: "c \<noteq> CHR ''*'' \<Longrightarrow> glob_sem (c # p) s \<longleftrightarrow> (\<exists>t. s = c # t \<and> glob_sem p t)"
  by (cases s) (auto simp: glob_sem.simps(2))

lemma glob_sem_star: "glob_sem (CHR ''*'' # p) s \<longleftrightarrow> (\<exists>u v. s = u @ v \<and> glob_sem p v)"
proof (induction s)
  case Nil
  then show ?case by (simp add: glob_sem.simps(2))
next
  case (Cons a s)
  have "glob_sem (CHR ''*'' # p) (a # s) \<longleftrightarrow> glob_sem p (a # s) \<or> glob_sem (CHR ''*'' # p) s"
    by (simp add: glob_sem.simps(2))
  then show ?case by (auto simp: Cons.IH Cons_eq_append_conv)
qed

lemma glob_sem_prefix:
  "CHR ''*'' \<notin> set p \<Longrightarrow> glob_sem (p @ q) s \<longleftrightarrow> (\<exists>t. s = p @ t \<and> glob_sem q t)"
  by (induction p arbitrary: s) (auto simp: glob_sem_lit)

lemma glob_sem_parts:
  "ps \<noteq> [] \<Longrightarrow> \<forall>p\<in>set ps. CHR ''*'' \<notin> set p \<Longrightarrow>
   glob_sem (JoinByte (CHR ''*'') ps) s = match_parts ps s"
proof (induction ps s rule: match_parts.induct)
  case (1 s)
  then show ?case by simp
next
  case (2 p s)
  then show ?case using glob_sem_prefix [of p "[]" s] by auto
next
  case (3 p q ps s)
  then show ?case
    by (auto simp: glob_sem_prefix glob_sem_star)
qed

lemma star_match_single: "star_match [p] s \<longleftrightarrow> suffix p s"
  by (auto simp: star_match_def suffix_def)

lemma star_match_Cons:
  "star_match (p # q # ps) s \<longleftrightarrow> (\<exists>u v. s = u @ p @ v \<and> star_match (q # ps) v)"
  by (auto simp: star_match_def)

lemma star_match_suffix: "star_match ps v \<Longrightarrow> suffix v s \<Longrightarrow> star_match ps s"
  by (auto simp: star_match_def suffix_def) (metis append_assoc)

section \<open>The greedy search\<close>

lemma greedy_last_length: "ps \<noteq> [] \<Longrightarrow> greedy ps s \<noteq> None \<Longrightarrow> length (last ps) \<le> length s"
proof (induction ps arbitrary: s)
  case Nil
  then show ?case by simp
next
  case (Cons p ps)
  from Cons.prems(2) obtain i where i: "Index s p = Some i"
    and g: "greedy ps (drop (i + length p) s) \<noteq> None"
    by (auto split: option.splits)
  show ?case
  proof (cases "ps = []")
    case True
    with Index_Some_bound [OF i] show ?thesis by simp
  next
    case False
    with Cons.IH [OF False g] show ?thesis by simp
  qed
qed

lemma suffix_shorter: "suffix a s \<Longrightarrow> suffix b s \<Longrightarrow> length a \<le> length b \<Longrightarrow> suffix a b"
  using suffix_length_suffix by blast

text \<open>Taking the first occurrence loses nothing: what follows any other occurrence is a suffix
  of what follows the first.\<close>

lemma star_match_first:
  "star_match (p # q # ps) s \<longleftrightarrow>
     (\<exists>i. Index s p = Some i \<and> star_match (q # ps) (drop (i + length p) s))"
proof
  assume "star_match (p # q # ps) s"
  then obtain u v where s: "s = u @ p @ v" and v: "star_match (q # ps) v"
    by (auto simp: star_match_Cons)
  have "Index s p \<noteq> None"
    unfolding Index_None_iff s by (metis append_assoc sublist_appendI)
  then obtain i where i: "Index s p = Some i" by blast
  have "i \<le> length u"
  proof (rule ccontr)
    assume "\<not> i \<le> length u"
    then have "\<not> prefix p (drop (length u) s)"
      using i by (simp add: Index_eq_Some_iff)
    then show False by (simp add: s)
  qed
  then have "suffix (drop (length u + length p) s) (drop (i + length p) s)"
    by (metis add.commute add_le_mono1 drop_drop le_add_diff_inverse suffix_drop)
  then have "suffix v (drop (i + length p) s)" by (simp add: s)
  with v i show "\<exists>i. Index s p = Some i \<and> star_match (q # ps) (drop (i + length p) s)"
    by (blast intro: star_match_suffix)
next
  assume "\<exists>i. Index s p = Some i \<and> star_match (q # ps) (drop (i + length p) s)"
  then obtain i where "Index s p = Some i" "star_match (q # ps) (drop (i + length p) s)" by blast
  then show "star_match (p # q # ps) s"
    using Index_Some_split star_match_Cons by blast
qed

lemma suffix_drop_iff: "length a + k \<le> length s \<Longrightarrow> suffix a s \<longleftrightarrow> suffix a (drop k s)"
  using suffix_drop [of k s] suffix_shorter [of a s "drop k s"] suffix_order.trans [of a "drop k s" s]
  by auto

lemma greedy_last_suffix:
  assumes "ps \<noteq> []" "greedy ps (drop k s) \<noteq> None" "k \<le> length s"
  shows "suffix (last ps) s \<longleftrightarrow> suffix (last ps) (drop k s)"
  using greedy_last_length [OF assms(1,2)] assms(3) by (intro suffix_drop_iff) simp

lemma star_match_greedy:
  "ps \<noteq> [] \<Longrightarrow> star_match ps s \<longleftrightarrow> greedy ps s \<noteq> None \<and> suffix (last ps) s"
proof (induction ps arbitrary: s)
  case Nil
  then show ?case by simp
next
  case (Cons p ps)
  show ?case
  proof (cases ps)
    case Nil
    then show ?thesis
      using Index_None_iff [of s p] suffix_imp_sublist [of p s]
      by (auto simp: star_match_single split: option.splits)
  next
    case (Cons q qs)
    then have ne: "ps \<noteq> []" by simp
    have first: "star_match (p # ps) s \<longleftrightarrow>
        (\<exists>i. Index s p = Some i \<and> star_match ps (drop (i + length p) s))"
      unfolding Cons by (rule star_match_first)
    show ?thesis
    proof (cases "Index s p")
      case None
      then show ?thesis by (simp add: first)
    next
      case (Some i)
      with Cons.IH [OF ne] greedy_last_suffix [OF ne, of "i + length p" s] Index_Some_bound [OF Some]
      show ?thesis by (auto simp: first ne)
    qed
  qed
qed

lemma glob_loop_greedy:
  "pos \<le> length s \<Longrightarrow> glob_loop (Suc i) pos ps s \<longleftrightarrow> greedy ps (drop pos s) \<noteq> None"
proof (induction ps arbitrary: i pos)
  case Nil
  then show ?case by simp
next
  case (Cons p ps)
  show ?case
  proof (cases "p = []")
    case True
    then have "Index (drop pos s) p = Some 0" by (simp add: Index_eq_Some_iff)
    with True Cons show ?thesis by simp
  next
    case False
    show ?thesis
    proof (cases "Index (drop pos s) p")
      case None
      with False show ?thesis by simp
    next
      case (Some k)
      then have "pos + k + length p \<le> length s"
        using Index_Some_bound [OF Some] Cons.prems by simp
      with False Some Cons.IH show ?thesis
        by (simp add: add.commute add.left_commute)
    qed
  qed
qed

section \<open>The matcher\<close>

lemma globMatch_parts:
  assumes "SplitByte (CHR ''*'') pattern = p # q # ps"
  shows "globMatch pattern s \<longleftrightarrow> match_parts (p # q # ps) s"
proof -
  let ?rest = "q # ps"
  have loop: "glob_loop 0 0 (p # ?rest) s \<longleftrightarrow>
      prefix p s \<and> greedy ?rest (drop (length p) s) \<noteq> None"
  proof (cases "p = []")
    case True
    then have "glob_loop 0 0 (p # ?rest) s = glob_loop (Suc 0) 0 ?rest s"
      using glob_loop.simps(2) [of 0 0 p ?rest s] by argo
    with True show ?thesis using glob_loop_greedy [of 0 s 0 ?rest] by simp
  next
    case False
    have "glob_loop 0 0 (p # ?rest) s \<longleftrightarrow> Index s p = Some 0 \<and> glob_loop (Suc 0) (length p) ?rest s"
      unfolding glob_loop.simps(2) [of 0 0 p ?rest s]
      using False by (auto simp del: glob_loop.simps(2) split: option.splits)
    then show ?thesis
      using glob_loop_greedy [of "length p" s 0 ?rest] prefix_length_le [of p s]
      by (auto simp: Index_eq_Some_iff simp del: glob_loop.simps(2) greedy.simps(2))
  qed
  have tail: "match_parts (p # ?rest) s \<longleftrightarrow> prefix p s \<and> star_match ?rest (drop (length p) s)"
    by (force simp: star_match_def prefix_def)
  have "globMatch pattern s \<longleftrightarrow> glob_loop 0 0 (p # ?rest) s \<and> suffix (last ?rest) s"
    by (simp del: glob_loop.simps(2) add: globMatch_def assms Let_def HasSuffix_iff)
  then have "globMatch pattern s \<longleftrightarrow> prefix p s \<and> greedy ?rest (drop (length p) s) \<noteq> None \<and>
      suffix (last ?rest) (drop (length p) s)"
    using loop greedy_last_suffix [of ?rest "length p" s] prefix_length_le [of p s] by blast
  then show ?thesis
    using tail star_match_greedy [of ?rest "drop (length p) s"] by blast
qed

lemma SplitByte_two:
  assumes "b \<in> set s"
  obtains p q ps where "SplitByte b s = p # q # ps"
proof -
  have "CountByte s b \<noteq> 0" using assms by (auto simp: CountByte_def filter_empty_conv)
  then have "2 \<le> length (SplitByte b s)" by (simp add: length_SplitByte)
  then show thesis using that by (auto simp: numeral_2_eq_2 Suc_le_length_iff)
qed

lemma globMatch_star:
  assumes "CHR ''*'' \<in> set pattern"
  shows "globMatch pattern s = glob_sem pattern s"
proof -
  obtain p q ps where parts: "SplitByte (CHR ''*'') pattern = p # q # ps"
    using SplitByte_two [OF assms] .
  have "glob_sem (JoinByte (CHR ''*'') (p # q # ps)) s = match_parts (p # q # ps) s"
    using SplitByte_no_sep [of _ "CHR ''*''" pattern] by (intro glob_sem_parts) (auto simp: parts)
  then show ?thesis
    using globMatch_parts [OF parts] JoinByte_SplitByte [of "CHR ''*''" pattern] by (simp add: parts)
qed

lemma globMatch_no_star:
  assumes "CHR ''*'' \<notin> set pattern"
  shows "globMatch pattern s \<longleftrightarrow> prefix pattern s \<and> suffix pattern s"
  using SplitByte_single [OF assms] Index_None_iff [of s pattern] prefix_imp_sublist [of pattern s]
  by (auto simp: globMatch_def Let_def HasSuffix_iff Index_eq_Some_iff split: option.splits)

lemma glob_sem_no_star:
  "CHR ''*'' \<notin> set pattern \<Longrightarrow> glob_sem pattern s \<longleftrightarrow> s = pattern"
  using glob_sem_prefix [of pattern "[]" s] by auto

lemma glob_sem_imp_globMatch: "glob_sem pattern s \<Longrightarrow> globMatch pattern s"
  by (cases "CHR ''*'' \<in> set pattern")
     (auto simp: globMatch_star globMatch_no_star glob_sem_no_star)

section \<open>Properties\<close>

text \<open>C6: for a pattern with a star the greedy matcher decides exactly the documented meaning: a star
  matches any run of characters and every other character matches itself.\<close>

theorem globMatch_correct:
  assumes "CHR ''*'' \<in> set pattern"
  shows "globMatch pattern s \<longleftrightarrow> glob_sem pattern s"
  by (rule globMatch_star [OF assms])

theorem globMatch_correct_witness:
  "globMatch ''GET https://*.example.com/a*z'' ''GET https://x.example.com/abcz'' \<longleftrightarrow>
   glob_sem ''GET https://*.example.com/a*z'' ''GET https://x.example.com/abcz''"
  using globMatch_correct [of "''GET https://*.example.com/a*z''" "''GET https://x.example.com/abcz''"]
  by simp

text \<open>for a pattern without a star the matcher accepts every string that starts and ends with the
  pattern, of which the pattern itself is only one.\<close>

theorem globMatch_literal_pattern:
  assumes "CHR ''*'' \<notin> set pattern"
  shows "globMatch pattern s \<longleftrightarrow> prefix pattern s \<and> suffix pattern s"
  by (rule globMatch_no_star [OF assms])

theorem globMatch_literal_pattern_witness:
  "globMatch ''abab'' ''ababab'' \<longleftrightarrow> prefix ''abab'' ''ababab'' \<and> suffix ''abab'' ''ababab''"
  using globMatch_literal_pattern [of "''abab''" "''ababab''"] by simp

text \<open>through this, an allow for one exact URL also matches another URL of that host that repeats
  the literal at its end.\<close>

theorem literal_pattern_overmatch:
  "MatchResource ''POST https://h.io/a'' ''POST https://h.io/a/del?u=https://h.io/a'' \<and>
   \<not> glob_sem ''POST https://h.io/a'' ''POST https://h.io/a/del?u=https://h.io/a''"
proof
  show "MatchResource ''POST https://h.io/a'' ''POST https://h.io/a/del?u=https://h.io/a''"
    by code_simp
  show "\<not> glob_sem ''POST https://h.io/a'' ''POST https://h.io/a/del?u=https://h.io/a''"
    by (simp add: glob_sem_no_star)
qed

end
