(* ===== verification/Policy_Store.thy ===== *)
theory Policy_Store
  imports Policy_Glob
begin

text \<open>
  Component: the policy store of package \<^verbatim>\<open>policy\<close> (\<^verbatim>\<open>internal/policy/store.go\<close>) and the
  canonical policy parser (\<^verbatim>\<open>internal/policy/file_store.go\<close>). The store is a record with the
  fields of the Go struct; an operation that takes the write lock returns the new store, one that
  takes the read lock only returns its value. The parser works on the JSON value of the file with
  the order and the repetitions of its keys kept, and follows \<^verbatim>\<open>encoding/json\<close> in how it binds
  keys to fields. Marshalling followed by SHA-256 and hex encoding is the parameter \<open>digest\<close>,
  reading a file is the parameter \<open>readFile\<close>.

  The lemmas show that the cached hash always describes the rules in force and that the parser
  admits only rules that can match.
\<close>

section \<open>The store\<close>

record store =
  st_version :: string
  st_precedence :: string
  st_defaultDecision :: string
  st_rules :: "rule list"
  st_filePath :: string
  st_hash :: string

definition PrecedenceOrder :: string where
  "PrecedenceOrder = ''order''"

definition PrecedenceMostSpecific :: string where
  "PrecedenceMostSpecific = ''most-specific''"

definition DefaultEscalate :: string where
  "DefaultEscalate = ''escalate''"

definition DefaultDeny :: string where
  "DefaultDeny = ''deny''"

lemmas policy_constants =
  PrecedenceOrder_def PrecedenceMostSpecific_def DefaultEscalate_def DefaultDeny_def

definition zero_rule :: rule where
  "zero_rule = \<lparr>r_ActionType = [], r_Environment = [], r_Resource = [], r_Allow = False,
     r_Deny = False, r_Escalate = False, r_MinTrustScore = None, r_MinTrustLevel = [],
     r_RequireLease = False, r_Conditions = [], r_Description = []\<rparr>"

definition escalate_rule :: "string \<Rightarrow> string \<Rightarrow> rule" where
  "escalate_rule a e = zero_rule \<lparr>r_ActionType := a, r_Environment := e, r_Escalate := True\<rparr>"

definition defaultRules :: "rule list" where
  "defaultRules =
     [escalate_rule ''*'' ''production'',
      escalate_rule ''shell'' ''*'',
      escalate_rule ''exec'' ''*'',
      escalate_rule ''github.merge'' ''*'',
      escalate_rule ''github.delete_branch'' ''*'',
      escalate_rule ''ci.deploy'' ''*'',
      escalate_rule ''git.force_push'' ''*'']"

definition NewStore :: "string \<Rightarrow> store" where
  "NewStore version = \<lparr>st_version = version, st_precedence = [], st_defaultDecision = [],
     st_rules = defaultRules, st_filePath = [], st_hash = []\<rparr>"

definition ClearRules :: "store \<Rightarrow> store" where
  "ClearRules s = s \<lparr>st_rules := [], st_hash := []\<rparr>"

definition Precedence :: "store \<Rightarrow> string" where
  "Precedence s = (if st_precedence s = [] then PrecedenceOrder else st_precedence s)"

definition SetPrecedence :: "string \<Rightarrow> store \<Rightarrow> store" where
  "SetPrecedence p s = s \<lparr>st_precedence := p, st_hash := []\<rparr>"

definition DefaultDecision :: "store \<Rightarrow> string" where
  "DefaultDecision s = (if st_defaultDecision s = [] then DefaultEscalate else st_defaultDecision s)"

definition SetDefaultDecision :: "string \<Rightarrow> store \<Rightarrow> store" where
  "SetDefaultDecision d s = s \<lparr>st_defaultDecision := d, st_hash := []\<rparr>"

definition RulesFor :: "store \<Rightarrow> string \<Rightarrow> string \<Rightarrow> rule list" where
  "RulesFor s actionType env =
     filter (\<lambda>r. (r_ActionType r = actionType \<or> r_ActionType r = ''*'') \<and>
                 (r_Environment r = env \<or> r_Environment r = ''*'')) (st_rules s)"

definition SetFilePath :: "string \<Rightarrow> store \<Rightarrow> store" where
  "SetFilePath path s = s \<lparr>st_filePath := path\<rparr>"

definition RulesForAction :: "store \<Rightarrow> string \<Rightarrow> rule list" where
  "RulesForAction s actionType =
     filter (\<lambda>r. r_ActionType r = actionType \<or> r_ActionType r = ''*'') (st_rules s)"

definition RulesForEnvironment :: "store \<Rightarrow> string \<Rightarrow> rule list" where
  "RulesForEnvironment s env =
     filter (\<lambda>r. r_Environment r = env \<or> r_Environment r = ''*'') (st_rules s)"

definition AddRule :: "rule \<Rightarrow> store \<Rightarrow> store" where
  "AddRule r s = s \<lparr>st_rules := st_rules s @ [r], st_hash := []\<rparr>"

definition GetRule :: "store \<Rightarrow> string \<Rightarrow> string \<Rightarrow> rule option" where
  "GetRule s actionType environment =
     find (\<lambda>r. r_ActionType r = actionType \<and> r_Environment r = environment) (st_rules s)"

definition SetVersion :: "string \<Rightarrow> store \<Rightarrow> store" where
  "SetVersion v s = s \<lparr>st_version := v, st_hash := []\<rparr>"

section \<open>Overlapping rules\<close>

text \<open>A warning of \<open>shadowedRules\<close>: the two indexes, their effects, the shared scope and pattern,
  and the index that decides.\<close>

record shadow =
  sh_first :: nat
  sh_firstEffect :: string
  sh_second :: nat
  sh_secondEffect :: string
  sh_scope :: "string \<times> string \<times> string"
  sh_winner :: nat

definition scope_key :: "rule \<Rightarrow> string \<times> string \<times> string" where
  "scope_key r = (r_ActionType r, r_Environment r, r_Resource r)"

fun shadow_loop :: "rule list \<Rightarrow> ((string \<times> string \<times> string) \<times> nat) list \<Rightarrow> nat \<Rightarrow> rule list \<Rightarrow> shadow list" where
  "shadow_loop rules seen i [] = []"
| "shadow_loop rules seen i (r # rs) =
     (case map_of seen (scope_key r) of
        Some j \<Rightarrow>
          (if effect (rules ! j) \<noteq> effect r
           then [\<lparr>sh_first = j, sh_firstEffect = effect (rules ! j), sh_second = i,
                  sh_secondEffect = effect r, sh_scope = scope_key r,
                  sh_winner = (if rank (rules ! j) < rank r then i else j)\<rparr>]
           else []) @ shadow_loop rules seen (Suc i) rs
      | None \<Rightarrow> shadow_loop rules (AList.update (scope_key r) i seen) (Suc i) rs)"

definition shadowedRules :: "rule list \<Rightarrow> shadow list" where
  "shadowedRules rules = shadow_loop rules [] 0 rules"

section \<open>The policy file\<close>

record filePolicy =
  fp_Version :: string
  fp_Precedence :: string
  fp_Default :: string
  fp_Rules :: "rule list"

datatype policy_error =
    ReadFailed
  | BadDocument
  | UnknownField string
  | BadFieldType string
  | RuleNotObject nat
  | DuplicateKey nat string
  | NullResource nat
  | RuleUndecodable nat policy_error
  | UnevaluatedCondition nat string
  | MissingActionType nat
  | MissingEnvironment nat
  | BadPrecedence string
  | BadDefault string
  | NoFilePath
  | NilStore

text \<open>
  Binding of a key to a field as \<^verbatim>\<open>encoding/json\<close> does it: the exact name, else a name equal
  under case folding. A field name stands for itself.
\<close>

definition bindField :: "string list \<Rightarrow> string \<Rightarrow> string option" where
  "bindField names key =
     (if key \<in> set names then Some key else find (\<lambda>n. EqualFold n key) names)"

definition decString :: "string \<Rightarrow> string \<Rightarrow> json \<Rightarrow> policy_error + string" where
  "decString name old v =
     (case v of JString s \<Rightarrow> Inr s | JNull \<Rightarrow> Inr old | _ \<Rightarrow> Inl (BadFieldType name))"

definition decBool :: "string \<Rightarrow> bool \<Rightarrow> json \<Rightarrow> policy_error + bool" where
  "decBool name old v =
     (case v of JBool b \<Rightarrow> Inr b | JNull \<Rightarrow> Inr old | _ \<Rightarrow> Inl (BadFieldType name))"

definition decFloatPtr :: "string \<Rightarrow> json \<Rightarrow> policy_error + float64 option" where
  "decFloatPtr name v =
     (case v of JNum x \<Rightarrow> Inr (Some (fl x)) | JNull \<Rightarrow> Inr None | _ \<Rightarrow> Inl (BadFieldType name))"

definition decMap :: "string \<Rightarrow> (string, json) gomap \<Rightarrow> json \<Rightarrow> policy_error + (string, json) gomap" where
  "decMap name old v =
     (case v of
        JObject kvs \<Rightarrow> Inr (fold (\<lambda>(k, x) m. AList.update k x m) kvs old)
      | JNull \<Rightarrow> Inr []
      | _ \<Rightarrow> Inl (BadFieldType name))"

definition rule_fields :: "string list" where
  "rule_fields = [''action_type'', ''environment'', ''resource'', ''allow'', ''deny'', ''escalate'',
     ''min_trust_score'', ''min_trust_level'', ''require_lease'', ''conditions'', ''description'']"

definition decRuleField :: "string \<Rightarrow> json \<Rightarrow> rule \<Rightarrow> policy_error + rule" where
  "decRuleField name v r =
     (if name = ''action_type'' then map_sum id (\<lambda>x. r \<lparr>r_ActionType := x\<rparr>) (decString name (r_ActionType r) v)
      else if name = ''environment'' then map_sum id (\<lambda>x. r \<lparr>r_Environment := x\<rparr>) (decString name (r_Environment r) v)
      else if name = ''resource'' then map_sum id (\<lambda>x. r \<lparr>r_Resource := x\<rparr>) (decString name (r_Resource r) v)
      else if name = ''allow'' then map_sum id (\<lambda>x. r \<lparr>r_Allow := x\<rparr>) (decBool name (r_Allow r) v)
      else if name = ''deny'' then map_sum id (\<lambda>x. r \<lparr>r_Deny := x\<rparr>) (decBool name (r_Deny r) v)
      else if name = ''escalate'' then map_sum id (\<lambda>x. r \<lparr>r_Escalate := x\<rparr>) (decBool name (r_Escalate r) v)
      else if name = ''min_trust_score'' then map_sum id (\<lambda>x. r \<lparr>r_MinTrustScore := x\<rparr>) (decFloatPtr name v)
      else if name = ''min_trust_level'' then map_sum id (\<lambda>x. r \<lparr>r_MinTrustLevel := x\<rparr>) (decString name (r_MinTrustLevel r) v)
      else if name = ''require_lease'' then map_sum id (\<lambda>x. r \<lparr>r_RequireLease := x\<rparr>) (decBool name (r_RequireLease r) v)
      else if name = ''conditions'' then map_sum id (\<lambda>x. r \<lparr>r_Conditions := x\<rparr>) (decMap name (r_Conditions r) v)
      else map_sum id (\<lambda>x. r \<lparr>r_Description := x\<rparr>) (decString name (r_Description r) v))"

fun decRule_loop :: "(string \<times> json) list \<Rightarrow> rule \<Rightarrow> policy_error + rule" where
  "decRule_loop [] r = Inr r"
| "decRule_loop ((k, v) # kvs) r =
     (case bindField rule_fields k of
        None \<Rightarrow> Inl (UnknownField k)
      | Some name \<Rightarrow>
          (case decRuleField name v r of
             Inl e \<Rightarrow> Inl e
           | Inr r' \<Rightarrow> decRule_loop kvs r'))"

fun scan_keys :: "nat \<Rightarrow> string list \<Rightarrow> (string \<times> json) list \<Rightarrow> policy_error option" where
  "scan_keys idx seen [] = None"
| "scan_keys idx seen ((key, v) # kvs) =
     (if key \<in> set seen then Some (DuplicateKey idx key)
      else if v = JNull \<and> key = ''resource'' then Some (NullResource idx)
      else scan_keys idx (key # seen) kvs)"

definition scanRuleStrict :: "json \<Rightarrow> nat \<Rightarrow> policy_error option" where
  "scanRuleStrict raw idx =
     (case raw of JObject kvs \<Rightarrow> scan_keys idx [] kvs | _ \<Rightarrow> Some (RuleNotObject idx))"

definition decRule :: "json \<Rightarrow> policy_error + rule" where
  "decRule raw =
     (case raw of
        JObject kvs \<Rightarrow> decRule_loop kvs zero_rule
      | JNull \<Rightarrow> Inr zero_rule
      | _ \<Rightarrow> Inl BadDocument)"

fun parse_rules :: "nat \<Rightarrow> json list \<Rightarrow> policy_error + rule list" where
  "parse_rules i [] = Inr []"
| "parse_rules i (rm # rms) =
     (case scanRuleStrict rm i of
        Some e \<Rightarrow> Inl e
      | None \<Rightarrow>
          (case decRule rm of
             Inl e \<Rightarrow> Inl (RuleUndecodable i e)
           | Inr r \<Rightarrow> map_sum id (\<lambda>rs. r # rs) (parse_rules (Suc i) rms)))"

record rawPolicy =
  raw_Version :: string
  raw_Precedence :: string
  raw_Default :: string
  raw_Rules :: "json list"

definition decRawField :: "string \<Rightarrow> json \<Rightarrow> rawPolicy \<Rightarrow> policy_error + rawPolicy" where
  "decRawField name v p =
     (if name = ''version'' then map_sum id (\<lambda>x. p \<lparr>raw_Version := x\<rparr>) (decString name (raw_Version p) v)
      else if name = ''precedence'' then map_sum id (\<lambda>x. p \<lparr>raw_Precedence := x\<rparr>) (decString name (raw_Precedence p) v)
      else if name = ''default'' then map_sum id (\<lambda>x. p \<lparr>raw_Default := x\<rparr>) (decString name (raw_Default p) v)
      else (case v of
              JArray rms \<Rightarrow> Inr (p \<lparr>raw_Rules := rms\<rparr>)
            | JNull \<Rightarrow> Inr (p \<lparr>raw_Rules := []\<rparr>)
            | _ \<Rightarrow> Inl (BadFieldType name)))"

fun decRaw_loop :: "(string \<times> json) list \<Rightarrow> rawPolicy \<Rightarrow> policy_error + rawPolicy" where
  "decRaw_loop [] p = Inr p"
| "decRaw_loop ((k, v) # kvs) p =
     (case bindField [''version'', ''precedence'', ''default'', ''rules''] k of
        None \<Rightarrow> Inl (UnknownField k)
      | Some name \<Rightarrow>
          (case decRawField name v p of
             Inl e \<Rightarrow> Inl e
           | Inr p' \<Rightarrow> decRaw_loop kvs p'))"

definition parseFilePolicyStrict :: "json \<Rightarrow> policy_error + filePolicy" where
  "parseFilePolicyStrict data =
     (let empty = \<lparr>raw_Version = [], raw_Precedence = [], raw_Default = [], raw_Rules = []\<rparr>;
          raw = (case data of
                   JObject kvs \<Rightarrow> decRaw_loop kvs empty
                 | JNull \<Rightarrow> Inr empty
                 | _ \<Rightarrow> Inl BadDocument) in
      case raw of
        Inl e \<Rightarrow> Inl e
      | Inr p \<Rightarrow>
          map_sum id (\<lambda>rs. \<lparr>fp_Version = raw_Version p, fp_Precedence = raw_Precedence p,
                             fp_Default = raw_Default p, fp_Rules = rs\<rparr>)
            (parse_rules 0 (raw_Rules p)))"

fun check_conditions :: "nat \<Rightarrow> rule list \<Rightarrow> policy_error option" where
  "check_conditions i [] = None"
| "check_conditions i (r # rs) =
     (case find (\<lambda>key. key \<noteq> ''depends_on'' \<and> key \<noteq> ''ref'') (map fst (r_Conditions r)) of
        Some key \<Rightarrow> Some (UnevaluatedCondition i key)
      | None \<Rightarrow> check_conditions (Suc i) rs)"

fun check_scope :: "nat \<Rightarrow> rule list \<Rightarrow> policy_error option" where
  "check_scope i [] = None"
| "check_scope i (r # rs) =
     (if r_ActionType r = [] then Some (MissingActionType i)
      else if r_Environment r = [] then Some (MissingEnvironment i)
      else check_scope (Suc i) rs)"

definition ParseStore :: "json \<Rightarrow> string \<Rightarrow> policy_error + store" where
  "ParseStore data versionHint =
     (case parseFilePolicyStrict data of
        Inl e \<Rightarrow> Inl e
      | Inr fp \<Rightarrow>
          (case check_conditions 0 (fp_Rules fp) of
             Some e \<Rightarrow> Inl e
           | None \<Rightarrow>
          (case check_scope 0 (fp_Rules fp) of
             Some e \<Rightarrow> Inl e
           | None \<Rightarrow>
             let v0 = fp_Version fp;
                 v1 = (if v0 = [] then versionHint else v0);
                 v = (if v1 = [] then ''v1-default'' else v1) in
             if fp_Precedence fp \<notin> {[], PrecedenceOrder, PrecedenceMostSpecific}
             then Inl (BadPrecedence (fp_Precedence fp))
             else if fp_Default fp \<notin> {[], DefaultEscalate, DefaultDeny}
             then Inl (BadDefault (fp_Default fp))
             else Inr \<lparr>st_version = v, st_precedence = fp_Precedence fp,
                       st_defaultDecision = fp_Default fp, st_rules = fp_Rules fp,
                       st_filePath = [], st_hash = []\<rparr>)))"

definition LoadStoreFromFile :: "(string \<Rightarrow> json option) \<Rightarrow> string \<Rightarrow> string \<Rightarrow> policy_error + store" where
  "LoadStoreFromFile readFile filePath versionHint =
     (case readFile filePath of
        None \<Rightarrow> Inl ReadFailed
      | Some data \<Rightarrow> map_sum id (SetFilePath filePath) (ParseStore data versionHint))"

definition Reload :: "(string \<Rightarrow> json option) \<Rightarrow> store \<Rightarrow> policy_error + store" where
  "Reload readFile s =
     (if st_filePath s = [] then Inl NoFilePath
      else map_sum id
        (\<lambda>n. s \<lparr>st_rules := st_rules n, st_version := st_version n,
                st_precedence := st_precedence n, st_defaultDecision := st_defaultDecision n,
                st_hash := []\<rparr>)
        (LoadStoreFromFile readFile (st_filePath s) (st_version s)))"

definition ReloadFromStore :: "store option \<Rightarrow> store \<Rightarrow> policy_error + store" where
  "ReloadFromStore other s =
     (case other of
        None \<Rightarrow> Inl NilStore
      | Some n \<Rightarrow> Inr (s \<lparr>st_rules := st_rules n, st_version := st_version n,
                          st_precedence := st_precedence n, st_defaultDecision := st_defaultDecision n,
                          st_hash := []\<rparr>))"

section \<open>The hash of the policy in force\<close>

definition inForce :: "store \<Rightarrow> filePolicy" where
  "inForce s = \<lparr>fp_Version = st_version s, fp_Precedence = Precedence s,
     fp_Default = DefaultDecision s, fp_Rules = st_rules s\<rparr>"

definition computeHashLocked :: "(filePolicy \<Rightarrow> string) \<Rightarrow> store \<Rightarrow> string" where
  "computeHashLocked digest s = ''sha256:'' @ digest (inForce s)"

definition Hash :: "(filePolicy \<Rightarrow> string) \<Rightarrow> store \<Rightarrow> string \<times> store" where
  "Hash digest s =
     (if st_hash s \<noteq> [] then (st_hash s, s)
      else let h = computeHashLocked digest s in (h, s \<lparr>st_hash := h\<rparr>))"

text \<open>The operations of the store that a client can interleave.\<close>

datatype store_op =
    OpClear
  | OpSetPrecedence string
  | OpSetDefault string
  | OpSetFilePath string
  | OpAdd rule
  | OpSetVersion string
  | OpReload "string \<Rightarrow> json option"
  | OpReloadFrom "store option"
  | OpHash

fun apply_op :: "(filePolicy \<Rightarrow> string) \<Rightarrow> store_op \<Rightarrow> store \<Rightarrow> store" where
  "apply_op d OpClear s = ClearRules s"
| "apply_op d (OpSetPrecedence p) s = SetPrecedence p s"
| "apply_op d (OpSetDefault p) s = SetDefaultDecision p s"
| "apply_op d (OpSetFilePath p) s = SetFilePath p s"
| "apply_op d (OpAdd r) s = AddRule r s"
| "apply_op d (OpSetVersion v) s = SetVersion v s"
| "apply_op d (OpReload f) s = (case Reload f s of Inl _ \<Rightarrow> s | Inr s' \<Rightarrow> s')"
| "apply_op d (OpReloadFrom n) s = (case ReloadFromStore n s of Inl _ \<Rightarrow> s | Inr s' \<Rightarrow> s')"
| "apply_op d OpHash s = snd (Hash d s)"

definition hash_ok :: "(filePolicy \<Rightarrow> string) \<Rightarrow> store \<Rightarrow> bool" where
  "hash_ok digest s \<longleftrightarrow> st_hash s = [] \<or> st_hash s = computeHashLocked digest s"

lemmas store_ops =
  NewStore_def ClearRules_def SetPrecedence_def SetDefaultDecision_def SetFilePath_def
  AddRule_def SetVersion_def Reload_def ReloadFromStore_def

lemma hash_ok_apply_op: "hash_ok d s \<Longrightarrow> hash_ok d (apply_op d op s)"
  by (cases op)
     (auto simp: hash_ok_def store_ops Hash_def Let_def computeHashLocked_def inForce_def
        Precedence_def DefaultDecision_def map_sum_def split: sum.splits option.splits)

lemma hash_ok_run: "hash_ok d s \<Longrightarrow> hash_ok d (fold (apply_op d) ops s)"
  by (induction ops arbitrary: s) (auto simp: hash_ok_apply_op)

lemma Hash_value: "hash_ok d s \<Longrightarrow> fst (Hash d s) = computeHashLocked d s"
  by (auto simp: hash_ok_def Hash_def Let_def)

lemma hash_ok_NewStore [simp]: "hash_ok d (NewStore v)"
  by (simp add: hash_ok_def NewStore_def)

end
