(* ===== verification/Policy_Parser.thy ===== *)
theory Policy_Parser
  imports Policy_Store
begin

text \<open>
  Properties of the policy store and of the canonical parser: the cached hash, what a parsed policy
  guarantees of every rule, how strict the parser is with keys, and where its case-sensitive scan
  and the case-insensitive binding of \<^verbatim>\<open>encoding/json\<close> come apart.
\<close>

section \<open>What the checks of ParseStore establish\<close>

definition rule_loadable :: "rule \<Rightarrow> bool" where
  "rule_loadable r \<longleftrightarrow> r_ActionType r \<noteq> [] \<and> r_Environment r \<noteq> [] \<and>
     set (map fst (r_Conditions r)) \<subseteq> {''depends_on'', ''ref''}"

lemma check_conditions_None:
  "check_conditions i rs = None \<longleftrightarrow> (\<forall>r\<in>set rs. set (map fst (r_Conditions r)) \<subseteq> {''depends_on'', ''ref''})"
proof (induction rs arbitrary: i)
  case Nil
  then show ?case by simp
next
  case (Cons r rs)
  have "find (\<lambda>key. key \<noteq> ''depends_on'' \<and> key \<noteq> ''ref'') (map fst (r_Conditions r)) = None \<longleftrightarrow>
      set (map fst (r_Conditions r)) \<subseteq> {''depends_on'', ''ref''}"
    by (auto simp: find_None_iff)
  then show ?case by (auto simp: Cons.IH split: option.splits)
qed

lemma check_scope_None:
  "check_scope i rs = None \<longleftrightarrow> (\<forall>r\<in>set rs. r_ActionType r \<noteq> [] \<and> r_Environment r \<noteq> [])"
  by (induction rs arbitrary: i) auto

lemma ParseStore_InrD:
  assumes "ParseStore data hint = Inr s"
  obtains fp where "parseFilePolicyStrict data = Inr fp" "st_rules s = fp_Rules fp"
    "\<forall>r\<in>set (fp_Rules fp). rule_loadable r" "st_version s \<noteq> []" "st_hash s = []"
    "Precedence s \<in> {PrecedenceOrder, PrecedenceMostSpecific}"
    "DefaultDecision s \<in> {DefaultEscalate, DefaultDeny}"
proof -
  obtain fp where fp: "parseFilePolicyStrict data = Inr fp"
    and cc: "check_conditions 0 (fp_Rules fp) = None" and cs: "check_scope 0 (fp_Rules fp) = None"
    using assms by (auto simp: ParseStore_def split: sum.splits option.splits)
  have prec: "fp_Precedence fp \<in> {[], PrecedenceOrder, PrecedenceMostSpecific}"
    and def: "fp_Default fp \<in> {[], DefaultEscalate, DefaultDeny}"
    using assms fp cc cs by (simp_all add: ParseStore_def Let_def split: if_split_asm)
  define v where "v = (if fp_Version fp \<noteq> [] then fp_Version fp else if hint \<noteq> [] then hint else ''v1-default'')"
  have v: "v \<noteq> []" "s = \<lparr>st_version = v, st_precedence = fp_Precedence fp,
      st_defaultDecision = fp_Default fp, st_rules = fp_Rules fp, st_filePath = [], st_hash = []\<rparr>"
    using assms fp cc cs prec def by (simp_all add: ParseStore_def Let_def v_def split: if_split_asm)
  have "Precedence s \<in> {PrecedenceOrder, PrecedenceMostSpecific}" "DefaultDecision s \<in> {DefaultEscalate, DefaultDeny}"
    using prec def by (auto simp: v(2) Precedence_def DefaultDecision_def policy_constants)
  then show thesis
    using that fp cc cs v by (simp add: check_conditions_None check_scope_None rule_loadable_def)
qed

section \<open>Keys of a rule\<close>

lemma scan_keys_None:
  "scan_keys idx seen kvs = None \<longleftrightarrow>
     distinct (map fst kvs) \<and> set (map fst kvs) \<inter> set seen = {} \<and> (''resource'', JNull) \<notin> set kvs"
  by (induction idx seen kvs rule: scan_keys.induct) (auto split: if_splits)

lemma bindField_exact: "k \<in> set names \<Longrightarrow> bindField names k = Some k"
  by (simp add: bindField_def)

lemma bindField_Some: "bindField names k = Some n \<Longrightarrow> n \<in> set names \<and> EqualFold n k"
  by (auto simp: bindField_def EqualFold_def find_Some_iff split: if_splits)

lemma decRule_keys_known:
  "decRule_loop kvs r = Inr r' \<Longrightarrow> \<forall>(k, v)\<in>set kvs. \<exists>n\<in>set rule_fields. EqualFold n k"
  by (induction kvs r rule: decRule_loop.induct)
     (auto split: option.splits sum.splits dest: bindField_Some)

text \<open>A field other than the resource leaves the resource as it is.\<close>

lemma decRuleField_resource:
  assumes "decRuleField name v r = Inr r'" "name \<noteq> ''resource''"
  shows "r_Resource r' = r_Resource r"
  using assms
  by (auto simp: decRuleField_def map_sum_def split: if_splits sum.splits)

lemma decRuleField_resource_set:
  "decRuleField ''resource'' v r = Inr r' \<Longrightarrow> v \<noteq> JNull \<Longrightarrow> v = JString (r_Resource r')"
  by (auto simp: decRuleField_def decString_def map_sum_def split: json.splits sum.splits)

lemma decRule_loop_no_resource:
  "decRule_loop kvs r = Inr r' \<Longrightarrow> \<forall>(k, v)\<in>set kvs. \<not> EqualFold ''resource'' k \<Longrightarrow>
   r_Resource r' = r_Resource r"
proof (induction kvs r rule: decRule_loop.induct)
  case (1 r)
  then show ?case by simp
next
  case (2 k v kvs r)
  from "2.prems"(1) obtain n r1 where n: "bindField rule_fields k = Some n"
    and r1: "decRuleField n v r = Inr r1" and rest: "decRule_loop kvs r1 = Inr r'"
    by (auto split: option.splits sum.splits)
  have "n \<noteq> ''resource''" using bindField_Some [OF n] "2.prems"(2) by auto
  with decRuleField_resource [OF r1] "2.IH" [OF n r1 rest] "2.prems"(2) show ?case by simp
qed

text \<open>With one key that binds to the resource, the rule has the resource the file gives it.\<close>

lemma decRule_loop_resource:
  assumes "decRule_loop (kvs1 @ (k, v) # kvs2) r = Inr r'" "EqualFold ''resource'' k" "v \<noteq> JNull"
    "bindField rule_fields k = Some ''resource''"
    "\<forall>(k', v')\<in>set kvs2. \<not> EqualFold ''resource'' k'"
  shows "v = JString (r_Resource r')"
  using assms(1)
proof (induction kvs1 arbitrary: r)
  case Nil
  then obtain r1 where "decRuleField ''resource'' v r = Inr r1" "decRule_loop kvs2 r1 = Inr r'"
    using assms(4) by (auto split: sum.splits)
  with decRule_loop_no_resource [OF _ assms(5)] decRuleField_resource_set assms(3) show ?case by metis
next
  case (Cons kv kvs1)
  then show ?case by (cases kv) (auto split: option.splits sum.splits)
qed

lemma parse_rules_InrD:
  "parse_rules i rms = Inr rs \<Longrightarrow>
   list_all2 (\<lambda>rm r. (\<exists>kvs j. rm = JObject kvs \<and> scan_keys j [] kvs = None \<and> decRule_loop kvs zero_rule = Inr r)) rms rs"
proof (induction i rms arbitrary: rs rule: parse_rules.induct)
  case (1 i)
  then show ?case by simp
next
  case (2 i rm rms)
  from "2.prems" obtain r rs' where scan: "scanRuleStrict rm i = None" and dec: "decRule rm = Inr r"
    and rest: "parse_rules (Suc i) rms = Inr rs'" and rs: "rs = r # rs'"
    by (auto simp: map_sum_def split: option.splits sum.splits)
  from scan obtain kvs where "rm = JObject kvs" "scan_keys i [] kvs = None"
    by (auto simp: scanRuleStrict_def split: json.splits)
  with dec "2.IH" [OF scan dec rest] rs show ?case by (auto simp: decRule_def)
qed

lemma parse_rules_no_resource:
  assumes "parse_rules i rms = Inr rs" "r \<in> set rs"
  obtains kvs where "JObject kvs \<in> set rms" "distinct (map fst kvs)" "(''resource'', JNull) \<notin> set kvs"
    "decRule_loop kvs zero_rule = Inr r"
  using parse_rules_InrD [OF assms(1)] assms(2)
  by (auto simp: list_all2_conv_all_nth in_set_conv_nth scan_keys_None) (metis nth_mem)

lemma bindField_resource:
  assumes "EqualFold ''resource'' k"
  shows "bindField rule_fields k = Some ''resource''"
proof -
  have low: "map (\<lambda>n. (n, ToLower n)) rule_fields = map (\<lambda>n. (n, n)) rule_fields"
    by code_simp
  then have fix_low: "ToLower n = n" if "n \<in> set rule_fields" for n
    using that by (auto simp: map_eq_conv)
  have res: "''resource'' \<in> set rule_fields" by code_simp
  have k: "ToLower k = ''resource''" using assms fix_low [OF res] by (simp add: EqualFold_def)
  have "n = ''resource''" if "n \<in> set rule_fields" "EqualFold n k" for n
    using that fix_low k by (auto simp: EqualFold_def)
  moreover have "k = ''resource''" if "k \<in> set rule_fields" using fix_low [OF that] k by simp
  moreover have "bindField rule_fields k \<noteq> None"
    using res assms find_None_iff [of "\<lambda>n. EqualFold n k" rule_fields]
    by (simp add: bindField_def del: not_None_eq) blast
  ultimately show ?thesis using bindField_Some by fastforce
qed

lemma no_key_no_fold:
  "k \<notin> fst ` set xs \<Longrightarrow> \<forall>(k', v)\<in>set xs. P k' \<longrightarrow> k' = k \<Longrightarrow> \<forall>(k', v)\<in>set xs. \<not> P k'"
  by (induction xs) auto

lemma decRule_loop_written:
  assumes dec: "decRule_loop kvs zero_rule = Inr r" and dist: "distinct (map fst kvs)"
    and null: "(''resource'', JNull) \<notin> set kvs"
    and exact: "\<forall>(k, v)\<in>set kvs. EqualFold ''resource'' k \<longrightarrow> k = ''resource''"
  shows "map_of kvs ''resource'' = None \<and> r_Resource r = [] \<or>
    map_of kvs ''resource'' = Some (JString (r_Resource r))"
proof (cases "map_of kvs ''resource''")
  case None
  then have "\<forall>(k, v)\<in>set kvs. k \<noteq> ''resource''"
    by (auto dest: weak_map_of_SomeI)
  then have "\<forall>(k, v)\<in>set kvs. \<not> EqualFold ''resource'' k"
    using exact by blast
  with decRule_loop_no_resource [OF dec] None show ?thesis by (simp add: zero_rule_def)
next
  case (Some v)
  then obtain k1 k2 where kvs: "kvs = k1 @ (''resource'', v) # k2"
    using map_of_SomeD split_list by metis
  have "\<forall>(k', v')\<in>set k2. \<not> EqualFold ''resource'' k'"
  proof -
    have "''resource'' \<notin> fst ` set k2" using dist unfolding kvs by simp
    moreover have "\<forall>(k, v)\<in>set k2. EqualFold ''resource'' k \<longrightarrow> k = ''resource''"
      using exact unfolding kvs by simp
    ultimately show ?thesis by (rule no_key_no_fold)
  qed
  moreover have "v \<noteq> JNull" using null kvs by auto
  ultimately have "v = JString (r_Resource r)"
    using decRule_loop_resource [OF dec [unfolded kvs]] bindField_resource EqualFold_def by simp
  with Some show ?thesis by simp
qed

section \<open>Properties\<close>

text \<open>whatever sequence of operations a store has gone through, \<open>Hash\<close> returns the digest of the
  policy in force at that moment, so the cached value is never stale.\<close>

theorem hash_of_policy_in_force:
  "fst (Hash digest (fold (apply_op digest) ops (NewStore v))) =
     ''sha256:'' @ digest (inForce (fold (apply_op digest) ops (NewStore v)))"
  using hash_ok_run [OF hash_ok_NewStore] Hash_value computeHashLocked_def by metis

text \<open>every rule of a policy that the canonical parser accepts has an action type and an
  environment, carries no condition the gateway would not evaluate, and the policy has a version
  and a known precedence and default.\<close>

theorem parsed_policy_loadable:
  assumes "ParseStore data hint = Inr s"
  shows "(\<forall>r\<in>set (st_rules s). rule_loadable r) \<and> st_version s \<noteq> [] \<and>
    Precedence s \<in> {PrecedenceOrder, PrecedenceMostSpecific} \<and>
    DefaultDecision s \<in> {DefaultEscalate, DefaultDeny}"
  using ParseStore_InrD [OF assms] by metis

definition sample_doc :: json where
  "sample_doc = JObject [(''version'', JString ''v7''), (''precedence'', JString ''most-specific''),
     (''rules'', JArray
        [JObject [(''action_type'', JString ''http.request''), (''environment'', JString ''*''),
                  (''resource'', JString ''POST https://api.example.com/*''), (''allow'', JBool True)]])]"

theorem parsed_policy_loadable_witness:
  "\<exists>s. ParseStore sample_doc [] = Inr s \<and> length (st_rules s) = 1 \<and>
     (\<forall>r\<in>set (st_rules s). rule_loadable r) \<and> st_version s = ''v7''"
proof -
  have ok: "\<not> (case ParseStore sample_doc [] of Inl _ \<Rightarrow> True | Inr s \<Rightarrow> length (st_rules s) \<noteq> 1 \<or> st_version s \<noteq> ''v7'')"
    by code_simp
  then obtain s where s: "ParseStore sample_doc [] = Inr s" "length (st_rules s) = 1" "st_version s = ''v7''"
    by (auto split: sum.splits)
  with parsed_policy_loadable [OF s(1)] show ?thesis by blast
qed

text \<open>a rule object whose keys are spelled as documented loads with exactly the resource pattern it
  writes; it matches every resource only when it has no \<^verbatim>\<open>resource\<close> key (or an empty one), never
  through a repeated key or a null.\<close>

theorem parsed_resource_as_written:
  assumes "parse_rules i rms = Inr rs" "r \<in> set rs"
    and "\<forall>kvs. JObject kvs \<in> set rms \<longrightarrow>
      (\<forall>(k, v)\<in>set kvs. EqualFold ''resource'' k \<longrightarrow> k = ''resource'')"
  shows "\<exists>kvs. JObject kvs \<in> set rms \<and> distinct (map fst kvs) \<and>
    (map_of kvs ''resource'' = None \<and> r_Resource r = [] \<or>
     map_of kvs ''resource'' = Some (JString (r_Resource r)))"
proof -
  obtain kvs where kvs: "JObject kvs \<in> set rms" "distinct (map fst kvs)"
      "(''resource'', JNull) \<notin> set kvs" "decRule_loop kvs zero_rule = Inr r"
    using parse_rules_no_resource [OF assms(1,2)] .
  with decRule_loop_written [OF kvs(4,2,3)] assms(3) show ?thesis by blast
qed

definition sample_rules :: "json list" where
  "sample_rules = [JObject [(''action_type'', JString ''shell''), (''environment'', JString ''*''),
     (''resource'', JString ''ls *''), (''allow'', JBool True)]]"

theorem parsed_resource_as_written_witness:
  "\<exists>r. parse_rules 0 sample_rules = Inr [r] \<and> r_Resource r = ''ls *''"
proof -
  have "\<not> (case parse_rules 0 sample_rules of Inl _ \<Rightarrow> True | Inr rs \<Rightarrow> length rs \<noteq> 1)"
    by code_simp
  then obtain r where r: "parse_rules 0 sample_rules = Inr [r]"
    by (auto simp: length_Suc_conv split: sum.splits)
  have exact: "\<forall>kvs. JObject kvs \<in> set sample_rules \<longrightarrow>
      (\<forall>(k, v)\<in>set kvs. EqualFold ''resource'' k \<longrightarrow> k = ''resource'')"
  proof -
    have "\<not> EqualFold ''resource'' ''action_type''" "\<not> EqualFold ''resource'' ''environment''"
      "\<not> EqualFold ''resource'' ''allow''"
      by code_simp+
    then show ?thesis by (simp add: sample_rules_def)
  qed
  have "r_Resource r = ''ls *''"
    using parsed_resource_as_written [OF r _ exact, of r]
    by (auto simp: sample_rules_def)
  with r show ?thesis by blast
qed

text \<open>the scan for repeated keys compares bytes while the decoder folds case, so a rule that
  writes \<^verbatim>\<open>resource\<close> and then \<^verbatim>\<open>RESOURCE\<close> loads, with the second value: a scoped allow becomes
  an allow of every resource.\<close>

definition widened_rules :: "json list" where
  "widened_rules = [JObject [(''action_type'', JString ''http.request''), (''environment'', JString ''*''),
     (''resource'', JString ''GET https://api.example.com/*''), (''RESOURCE'', JString []),
     (''allow'', JBool True)]]"

theorem duplicate_key_by_case_widens:
  "\<exists>r. parse_rules 0 widened_rules = Inr [r] \<and> r_Allow r \<and> r_Resource r = []"
proof -
  have "\<not> (case parse_rules 0 widened_rules of Inl _ \<Rightarrow> True
      | Inr rs \<Rightarrow> length rs \<noteq> 1 \<or> \<not> r_Allow (hd rs) \<or> r_Resource (hd rs) \<noteq> [])"
    by code_simp
  then show ?thesis
    by (auto simp: length_Suc_conv split: sum.splits)
qed

end
