(* ===== verification/Models.thy ===== *)
theory Models
  imports Go_Float
begin

text \<open>
  Component: the request and decision types of package \<^verbatim>\<open>models\<close>
  (\<^verbatim>\<open>internal/models/action_request.go\<close>, \<^verbatim>\<open>internal/models/decision_response.go\<close>), with the
  fields the gateway's logic reads. A pointer field is an option, a byte slice is a string, an
  unsigned 64-bit epoch is a natural number. The empty \<^verbatim>\<open>Decision\<close> that the evaluator starts
  from is \<^const>\<open>None\<close> of the option over the three decisions.
\<close>

section \<open>Requests\<close>

record AgentIdentity =
  ai_Issuer :: string
  ai_SubjectID :: string
  ai_Owner :: string
  ai_Lifecycle :: string
  ai_VerifyKey :: string

record CapabilityLease =
  cl_LeaseID :: string
  cl_Issuer :: string
  cl_Subject :: string
  cl_AllowedActions :: "string list"
  cl_ResourceScope :: string
  cl_Expiry :: time
  cl_DelegationDepth :: int
  cl_IssuedAt :: time
  cl_Audience :: string
  cl_RevocationHandle :: string
  cl_Signature :: string
  cl_VerifyKey :: string

record Authority =
  au_Issuer :: string
  au_SubjectID :: string
  au_Actions :: "string list"
  au_ResourceScope :: string
  au_Audience :: string
  au_ExpiresAt :: time
  au_Nonce :: string
  au_DelegatedAt :: time
  au_Signature :: string

record DelegationChain =
  dc_Authorities :: "Authority list"
  dc_ChainHash :: string
  dc_Depth :: int

record ActionRequest =
  rq_ActionType :: string
  rq_Resource :: string
  rq_AgentIdentity :: "AgentIdentity option"
  rq_CapabilityLease :: "CapabilityLease option"
  rq_DelegationChain :: "DelegationChain option"
  rq_Environment :: string
  rq_Metadata :: string
  rq_Nonce :: string
  rq_IssuedAt :: time
  rq_MinEpoch :: nat

definition Validate :: "ActionRequest \<Rightarrow> string list" where
  "Validate r =
     (if rq_ActionType r = [] then [''action_type is required''] else []) @
     (if rq_Resource r = [] then [''resource is required''] else []) @
     (if rq_Environment r = [] then [''environment is required''] else []) @
     (if rq_Nonce r = [] then [''nonce is required''] else []) @
     (if IsZero (rq_IssuedAt r) then [''issued_at is required''] else [])"

lemma Validate_ok_iff:
  "Validate r = [] \<longleftrightarrow> rq_ActionType r \<noteq> [] \<and> rq_Resource r \<noteq> [] \<and> rq_Environment r \<noteq> [] \<and>
     rq_Nonce r \<noteq> [] \<and> rq_IssuedAt r \<noteq> 0"
  by (simp add: Validate_def IsZero_def)

section \<open>Decisions\<close>

datatype Decision = DecisionAllow | DecisionDeny | DecisionEscalate

type_synonym ReasonCode = string

abbreviation "EnvironmentProduction \<equiv> ''production''"

abbreviation "ReasonPolicyAllow \<equiv> ''policy_allow''"
abbreviation "ReasonPolicyDeny \<equiv> ''policy_deny''"
abbreviation "ReasonPolicyEscalate \<equiv> ''policy_escalate''"
abbreviation "ReasonTrustEscalate \<equiv> ''trust_escalate''"
abbreviation "ReasonEscalate \<equiv> ''escalate''"
abbreviation "ReasonCapabilityExpiry \<equiv> ''capability_expired''"
abbreviation "ReasonCapabilityNotAllowed \<equiv> ''capability_not_allowed''"
abbreviation "ReasonCapabilityScope \<equiv> ''capability_scope_mismatch''"
abbreviation "ReasonCapabilityRevoked \<equiv> ''capability_revoked''"
abbreviation "ReasonActionNotAllowed \<equiv> ''action_not_allowed''"
abbreviation "ReasonIdentityInvalid \<equiv> ''identity_invalid''"
abbreviation "ReasonProductionDenied \<equiv> ''production_denied''"
abbreviation "ReasonTrustLow \<equiv> ''trust_low''"
abbreviation "ReasonAnomalyDetected \<equiv> ''anomaly_detected''"
abbreviation "ReasonContainmentActive \<equiv> ''containment_active''"
abbreviation "ReasonLeaseRequired \<equiv> ''lease_required''"
abbreviation "ReasonDelegationScope \<equiv> ''delegation_scope_mismatch''"
abbreviation "ReasonRevocationUnavailable \<equiv> ''revocation_unavailable''"
abbreviation "ReasonRevocationEpoch \<equiv> ''revocation_epoch_stale''"

datatype TrustLevel = TrustLevelHigh | TrustLevelMedium | TrustLevelLow | TrustLevelNone

fun trust_level_name :: "TrustLevel \<Rightarrow> string" where
  "trust_level_name TrustLevelHigh = ''high''"
| "trust_level_name TrustLevelMedium = ''medium''"
| "trust_level_name TrustLevelLow = ''low''"
| "trust_level_name TrustLevelNone = ''none''"

record AnomalySignal =
  as_Code :: string
  as_Pattern :: string
  as_Severity :: string

record TrustContext =
  tc_Score :: float64
  tc_Level :: TrustLevel
  tc_AnomalySignals :: "AnomalySignal list"
  tc_ShieldActive :: bool
  tc_Restricted :: bool
  tc_RiskCount :: int

record ReceiptStub =
  rs_ActionDigest :: string
  rs_ActionType :: string
  rs_Resource :: string
  rs_PolicyVersion :: string
  rs_PolicyHash :: string
  rs_TrustContextScore :: float64
  rs_TrustEpoch :: nat

record DecisionResponse =
  dr_Decision :: Decision
  dr_ReasonCodes :: "ReasonCode list"
  dr_TrustScore :: float64
  dr_TrustLevel :: "TrustLevel option"
  dr_RequiresApproval :: bool
  dr_ReceiptStub :: "ReceiptStub option"
  dr_TrustContext :: "TrustContext option"
  dr_EvaluationSummary :: string
  dr_MatchedRule :: string

end
