(* ===== verification/Policy_Rules.thy ===== *)
theory Policy_Rules
  imports Policy_Store Models
begin

text \<open>
  Component: rule resolution of package \<^verbatim>\<open>evaluator\<close> (\<^verbatim>\<open>internal/evaluator/evaluator.go\<close> from
  \<open>RuleOutcome\<close> on, and \<^verbatim>\<open>internal/evaluator/baseline.go\<close>): which rules of a store match a
  request, how overlapping matches resolve under the two precedences, the per-ref evaluation of a
  push, and the layering of an organisation's baseline over the project's policy. The evaluator's
  receiver is used here only for its baseline, which is an argument.
\<close>

section \<open>Outcomes and matching\<close>

record RuleOutcome =
  ro_Allowed :: bool
  ro_Denied :: bool
  ro_Escalate :: bool
  ro_Reason :: ReasonCode
  ro_LeaseRequired :: bool
  ro_Rule :: string

definition zero_outcome :: RuleOutcome where
  "zero_outcome = \<lparr>ro_Allowed = False, ro_Denied = False, ro_Escalate = False, ro_Reason = [],
     ro_LeaseRequired = False, ro_Rule = []\<rparr>"

definition ruleLabel :: "rule \<Rightarrow> string" where
  "ruleLabel r =
     (if r_Description r \<noteq> [] then r_Description r
      else if r_Resource r \<noteq> [] then r_Resource r
      else r_ActionType r @ '' / '' @ r_Environment r)"

definition names_refs_not_deletion :: "rule \<Rightarrow> bool" where
  "names_refs_not_deletion r \<longleftrightarrow>
     Contains (r_Resource r) '' refs/'' \<and> \<not> Contains (r_Resource r) ''(delete)''"

definition ruleMatches :: "rule \<Rightarrow> string \<Rightarrow> bool" where
  "ruleMatches r resource =
     (if r_Deny r \<or> r_Escalate r then
        (if MatchResourceAnyPort (r_Resource r) resource then True
         else names_refs_not_deletion r \<and> IsRefDeletion resource \<and>
           MatchResourceAnyPort (r_Resource r) (TrimSuffix resource ''(delete)''))
      else if r_Allow r \<and> names_refs_not_deletion r \<and> IsRefDeletion resource then False
      else MatchResource (r_Resource r) resource)"

definition denyOutcome :: "ActionRequest \<Rightarrow> rule \<Rightarrow> RuleOutcome" where
  "denyOutcome req r = zero_outcome
     \<lparr>ro_Denied := True,
      ro_Reason := (if rq_Environment req = EnvironmentProduction then ReasonProductionDenied else ReasonPolicyDeny),
      ro_Rule := ruleLabel r\<rparr>"

definition allowOutcome :: "rule \<Rightarrow> RuleOutcome" where
  "allowOutcome r = zero_outcome
     \<lparr>ro_Allowed := True, ro_Reason := ReasonPolicyAllow, ro_LeaseRequired := r_RequireLease r,
      ro_Rule := ruleLabel r\<rparr>"

definition escalateOutcome :: "rule \<Rightarrow> RuleOutcome" where
  "escalateOutcome r = zero_outcome
     \<lparr>ro_Escalate := True, ro_Reason := ReasonPolicyEscalate, ro_Rule := ruleLabel r\<rparr>"

definition defaultEscalateOutcome :: RuleOutcome where
  "defaultEscalateOutcome = zero_outcome \<lparr>ro_Escalate := True, ro_Reason := ReasonEscalate\<rparr>"

section \<open>Precedence by order\<close>

definition envAdmits :: "rule \<Rightarrow> ActionRequest \<Rightarrow> bool" where
  "envAdmits r req \<longleftrightarrow> r_Environment r = ''*'' \<or> r_Environment r = rq_Environment req"

definition actionAdmits :: "rule \<Rightarrow> ActionRequest \<Rightarrow> bool" where
  "actionAdmits r req \<longleftrightarrow> r_ActionType r = ''*'' \<or> r_ActionType r = rq_ActionType req"

text \<open>The six loops of \<open>evaluateRules\<close>, each returning at its first hit.\<close>

definition evaluateRules :: "rule list \<Rightarrow> rule list \<Rightarrow> ActionRequest \<Rightarrow> RuleOutcome" where
  "evaluateRules actionRules envRules req =
     (let res = (\<lambda>r. ruleMatches r (rq_Resource req)) in
      case find (\<lambda>r. res r \<and> r_Deny r \<and> envAdmits r req) actionRules of Some r \<Rightarrow> denyOutcome req r | None \<Rightarrow>
      case find (\<lambda>r. res r \<and> r_Deny r \<and> actionAdmits r req) envRules of Some r \<Rightarrow> denyOutcome req r | None \<Rightarrow>
      case find (\<lambda>r. res r \<and> r_Allow r \<and> envAdmits r req) actionRules of Some r \<Rightarrow> allowOutcome r | None \<Rightarrow>
      case find (\<lambda>r. res r \<and> r_Allow r \<and> r_Environment r \<noteq> ''*'' \<and> actionAdmits r req) envRules of
        Some r \<Rightarrow> allowOutcome r | None \<Rightarrow>
      case find (\<lambda>r. res r \<and> r_Escalate r \<and> envAdmits r req) actionRules of Some r \<Rightarrow> escalateOutcome r | None \<Rightarrow>
      case find (\<lambda>r. res r \<and> r_Escalate r \<and> r_Environment r \<noteq> ''*'' \<and> actionAdmits r req) envRules of
        Some r \<Rightarrow> escalateOutcome r | None \<Rightarrow> defaultEscalateOutcome)"

section \<open>Precedence by specificity\<close>

definition b2i :: "bool \<Rightarrow> nat" where
  "b2i b = (if b then 1 else 0)"

fun greater :: "nat \<times> nat \<times> nat \<Rightarrow> nat \<times> nat \<times> nat \<Rightarrow> bool" where
  "greater (a0, a1, a2) (b0, b1, b2) =
     (if a0 \<noteq> b0 then b0 < a0 else if a1 \<noteq> b1 then b1 < a1 else b2 < a2)"

definition spec_key :: "rule \<Rightarrow> nat \<times> nat \<times> nat" where
  "spec_key r = (Specificity (r_Resource r), b2i (r_ActionType r \<noteq> ''*''), b2i (r_Environment r \<noteq> ''*''))"

text \<open>The closure \<open>best\<close> over the eligible rules, a later rule replacing an earlier one only when its
  key is greater.\<close>

fun best_loop :: "rule option \<Rightarrow> rule list \<Rightarrow> rule option" where
  "best_loop b [] = b"
| "best_loop b (r # rs) =
     best_loop (case b of None \<Rightarrow> Some r | Some q \<Rightarrow> if greater (spec_key r) (spec_key q) then Some r else b) rs"

definition best :: "rule list \<Rightarrow> rule option" where
  "best rs = best_loop None rs"

definition max_of :: "nat list \<Rightarrow> nat" where
  "max_of ns = foldl max 0 ns"

definition matching :: "store \<Rightarrow> ActionRequest \<Rightarrow> rule list" where
  "matching st req =
     filter (\<lambda>r. ruleMatches r (rq_Resource req)) (RulesFor st (rq_ActionType req) (rq_Environment req))"

definition denies :: "rule list \<Rightarrow> rule list" where
  "denies rs = filter r_Deny rs"

definition allows :: "rule list \<Rightarrow> rule list" where
  "allows rs = filter (\<lambda>r. \<not> r_Deny r \<and> r_Allow r) rs"

definition escalates :: "rule list \<Rightarrow> rule list" where
  "escalates rs = filter (\<lambda>r. \<not> r_Deny r \<and> \<not> r_Allow r \<and> r_Escalate r) rs"

definition eligible :: "rule list \<Rightarrow> rule \<Rightarrow> bool" where
  "eligible ds r =
     (let maxDenyHost = max_of (map (\<lambda>d. HostSpecificity (r_Resource d)) ds);
          maxDenyPrefix = max_of (map (\<lambda>d. PrefixSpecificity (r_Resource d)) ds) in
      if ds = [] then True
      else if HostSpecificity (r_Resource r) < maxDenyHost then False
      else Contains (r_Resource r) ''://'' \<or> maxDenyPrefix \<le> PrefixSpecificity (r_Resource r))"

text \<open>The three tests at the end of \<open>evaluateMostSpecific\<close>, on the best rule of each effect.\<close>

definition decideSpecific ::
  "store \<Rightarrow> ActionRequest \<Rightarrow> rule option \<Rightarrow> rule option \<Rightarrow> rule option \<Rightarrow> RuleOutcome" where
  "decideSpecific st req bestDeny bestAllow bestEscalate =
     (if (case bestDeny of None \<Rightarrow> False
          | Some d \<Rightarrow> (case bestAllow of None \<Rightarrow> True | Some a \<Rightarrow> \<not> greater (spec_key a) (spec_key d)))
      then denyOutcome req (the bestDeny)
      else if (case bestEscalate of None \<Rightarrow> False
          | Some q \<Rightarrow> (case bestAllow of None \<Rightarrow> True | Some a \<Rightarrow> greater (spec_key q) (spec_key a)))
      then escalateOutcome (the bestEscalate)
      else (case bestAllow of
              Some a \<Rightarrow> allowOutcome a
            | None \<Rightarrow>
                if DefaultDecision st = DefaultDeny
                then zero_outcome \<lparr>ro_Denied := True, ro_Reason := ReasonPolicyDeny, ro_Rule := ''default: deny''\<rparr>
                else defaultEscalateOutcome))"

definition evaluateMostSpecific :: "store \<Rightarrow> ActionRequest \<Rightarrow> RuleOutcome" where
  "evaluateMostSpecific st req =
     (let rs = matching st req;
          ds = denies rs in
      decideSpecific st req (best ds) (best (filter (eligible ds) (allows rs))) (best (escalates rs)))"

section \<open>One resource, several refs, two layers\<close>

definition evaluateOneResource :: "store \<Rightarrow> rule list \<Rightarrow> rule list \<Rightarrow> ActionRequest \<Rightarrow> RuleOutcome" where
  "evaluateOneResource st actionRules envRules req =
     (if Precedence st = PrecedenceMostSpecific then evaluateMostSpecific st req
      else evaluateRules actionRules envRules req)"

definition strictness :: "RuleOutcome \<Rightarrow> nat" where
  "strictness o' = (if ro_Denied o' then 3 else if ro_Escalate o' then 2
     else if ro_LeaseRequired o' then 1 else 0)"

fun worst_loop :: "RuleOutcome \<Rightarrow> RuleOutcome list \<Rightarrow> RuleOutcome" where
  "worst_loop worst [] = worst"
| "worst_loop worst (o' # os) = worst_loop (if strictness worst < strictness o' then o' else worst) os"

definition evaluateWithStore :: "store \<Rightarrow> rule list \<Rightarrow> rule list \<Rightarrow> ActionRequest \<Rightarrow> RuleOutcome" where
  "evaluateWithStore st actionRules envRules req =
     (let parts = SplitRefList (rq_Resource req) in
      if length parts = 1 then evaluateOneResource st actionRules envRules req
      else (case map (\<lambda>p. evaluateOneResource st actionRules envRules (req \<lparr>rq_Resource := p\<rparr>)) parts of
              [] \<Rightarrow> zero_outcome
            | o' # os \<Rightarrow> worst_loop o' os))"

definition evaluateRulesWithStore :: "store \<Rightarrow> ActionRequest \<Rightarrow> RuleOutcome" where
  "evaluateRulesWithStore st req =
     evaluateWithStore st (RulesForAction st (rq_ActionType req))
       (RulesForEnvironment st (rq_Environment req)) req"

definition baseline_Label :: string where
  "baseline_Label = ''org baseline: ''"

definition layeredWith :: "store option \<Rightarrow> store \<Rightarrow> rule list \<Rightarrow> rule list \<Rightarrow> ActionRequest \<Rightarrow> RuleOutcome" where
  "layeredWith base st actionRules envRules req =
     (let p = evaluateWithStore st actionRules envRules req in
      case base of
        None \<Rightarrow> p
      | Some bs \<Rightarrow>
          let b0 = evaluateRulesWithStore bs req in
          if ro_Rule b0 = [] then p
          else let b = b0 \<lparr>ro_Rule := baseline_Label @ ro_Rule b0\<rparr> in
            if ro_Denied b then b
            else if ro_Escalate b then (if ro_Denied p then p else b)
            else if ro_Rule p \<noteq> [] then p
            else b)"

definition layeredRules :: "store option \<Rightarrow> store \<Rightarrow> ActionRequest \<Rightarrow> RuleOutcome" where
  "layeredRules base st req =
     layeredWith base st (RulesForAction st (rq_ActionType req))
       (RulesForEnvironment st (rq_Environment req)) req"

end
