(* ===== verification/Policy_Precedence.thy ===== *)
theory Policy_Precedence
  imports Policy_Rules
begin

text \<open>
  Properties of rule resolution: what the six loops of the order precedence compute, what decides
  under the most-specific precedence, how the refs of one push combine, and what the layering of a
  baseline guarantees.
\<close>

named_theorems outcome_simps \<open>fields of the outcomes a rule produces\<close>

lemma outcome_fields [outcome_simps, simp]:
  "ro_Denied (denyOutcome req r)" "\<not> ro_Allowed (denyOutcome req r)" "\<not> ro_Escalate (denyOutcome req r)"
  "ro_Allowed (allowOutcome r)" "\<not> ro_Denied (allowOutcome r)" "\<not> ro_Escalate (allowOutcome r)"
  "ro_Escalate (escalateOutcome r)" "\<not> ro_Denied (escalateOutcome r)" "\<not> ro_Allowed (escalateOutcome r)"
  "ro_Escalate defaultEscalateOutcome" "\<not> ro_Denied defaultEscalateOutcome"
  "\<not> ro_Allowed defaultEscalateOutcome" "ro_Rule defaultEscalateOutcome = []"
  "ro_Rule (denyOutcome req r) = ruleLabel r" "ro_Rule (allowOutcome r) = ruleLabel r"
  "ro_Rule (escalateOutcome r) = ruleLabel r" "ro_LeaseRequired (allowOutcome r) = r_RequireLease r"
  by (simp_all add: denyOutcome_def allowOutcome_def escalateOutcome_def defaultEscalateOutcome_def
      zero_outcome_def)

lemma ruleLabel_nonempty [simp]: "ruleLabel r \<noteq> []"
  by (simp add: ruleLabel_def)

lemma zero_outcome_fields [simp]:
  "\<not> ro_Denied zero_outcome" "\<not> ro_Allowed zero_outcome" "\<not> ro_Escalate zero_outcome"
  "ro_Rule zero_outcome = []"
  by (simp_all add: zero_outcome_def)

section \<open>Order precedence\<close>

text \<open>The reference: the first deny of the matching rules, else the first allow, else the first
  escalate, else the default escalate.\<close>

definition order_spec :: "rule list \<Rightarrow> ActionRequest \<Rightarrow> RuleOutcome" where
  "order_spec rs req =
     (case find r_Deny rs of Some r \<Rightarrow> denyOutcome req r | None \<Rightarrow>
      case find r_Allow rs of Some r \<Rightarrow> allowOutcome r | None \<Rightarrow>
      case find r_Escalate rs of Some r \<Rightarrow> escalateOutcome r | None \<Rightarrow> defaultEscalateOutcome)"

lemma action_loop:
  "find (\<lambda>r. ruleMatches r (rq_Resource req) \<and> P r \<and> envAdmits r req) (RulesForAction st (rq_ActionType req))
     = find P (matching st req)"
  unfolding RulesForAction_def matching_def RulesFor_def find_filter filter_filter
  by (rule find_cong_on) (auto simp: envAdmits_def)

text \<open>A rule the environment loop would take is one the action loop has taken before it.\<close>

lemma env_loop_dead:
  assumes "find P (matching st req) = None"
  shows "find (\<lambda>r. ruleMatches r (rq_Resource req) \<and> P r \<and> Q r \<and> actionAdmits r req)
     (RulesForEnvironment st (rq_Environment req)) = None"
  using assms
  by (auto simp: find_None_iff matching_def RulesFor_def RulesForEnvironment_def actionAdmits_def)

lemma env_loop_dead_deny:
  assumes "find P (matching st req) = None"
  shows "find (\<lambda>r. ruleMatches r (rq_Resource req) \<and> P r \<and> actionAdmits r req)
     (RulesForEnvironment st (rq_Environment req)) = None"
  using env_loop_dead [OF assms, of "\<lambda>_. True"] by simp

lemma evaluateRules_order_spec:
  "evaluateRules (RulesForAction st (rq_ActionType req)) (RulesForEnvironment st (rq_Environment req)) req
     = order_spec (matching st req) req"
  unfolding evaluateRules_def order_spec_def Let_def action_loop
  by (auto simp: env_loop_dead env_loop_dead_deny split: option.splits)

lemma order_spec_denied: "ro_Denied (order_spec rs req) \<longleftrightarrow> (\<exists>r\<in>set rs. r_Deny r)"
  by (auto simp: order_spec_def find_None_iff dest: find_SomeD split: option.splits)

lemma order_spec_allowed:
  "ro_Allowed (order_spec rs req) \<longleftrightarrow> (\<forall>r\<in>set rs. \<not> r_Deny r) \<and> (\<exists>r\<in>set rs. r_Allow r)"
  by (auto simp: order_spec_def find_None_iff dest: find_SomeD split: option.splits)

lemma order_spec_escalate:
  "ro_Escalate (order_spec rs req) \<longleftrightarrow> (\<forall>r\<in>set rs. \<not> r_Deny r \<and> \<not> r_Allow r)"
  by (auto simp: order_spec_def find_None_iff dest: find_SomeD split: option.splits)

section \<open>Most-specific precedence\<close>

lemma not_greater_trans: "\<not> greater a b \<Longrightarrow> \<not> greater b c \<Longrightarrow> \<not> greater a c"
  by (cases a; cases b; cases c) (auto split: if_splits)

lemma greater_mono: "greater a b \<Longrightarrow> \<not> greater c b \<Longrightarrow> greater a c"
  by (cases a; cases b; cases c) (auto split: if_splits)

lemma greater_irrefl [simp]: "\<not> greater a a"
  by (cases a) auto

lemma greater_asym: "greater a b \<Longrightarrow> \<not> greater b a"
  by (cases a; cases b) (auto split: if_splits)

lemma best_loop_max:
  assumes "best_loop b rs = Some m"
  shows "(m \<in> set rs \<or> b = Some m) \<and> (\<forall>r\<in>set rs. \<not> greater (spec_key r) (spec_key m)) \<and>
    (\<forall>q. b = Some q \<longrightarrow> \<not> greater (spec_key q) (spec_key m))"
  using assms
proof (induction rs arbitrary: b)
  case Nil
  then show ?case by simp
next
  case (Cons r rs)
  show ?case
  proof (cases b)
    case None
    with Cons.IH [of "Some r"] Cons.prems show ?thesis by auto
  next
    case (Some q)
    show ?thesis
    proof (cases "greater (spec_key r) (spec_key q)")
      case True
      with Cons.IH [of "Some r"] Cons.prems Some greater_asym [OF True] not_greater_trans show ?thesis
        by auto
    next
      case False
      with Cons.IH [of "Some q"] Cons.prems Some not_greater_trans show ?thesis by auto
    qed
  qed
qed

lemma best_loop_None: "best_loop b rs = None \<longleftrightarrow> b = None \<and> rs = []"
  by (induction rs arbitrary: b) (auto split: option.splits)

lemma best_None_iff [simp]: "best rs = None \<longleftrightarrow> rs = []"
  by (simp add: best_def best_loop_None)

lemma best_Nil [simp]: "best [] = None"
  by simp

lemma best_SomeD:
  "best rs = Some m \<Longrightarrow> m \<in> set rs \<and> (\<forall>r\<in>set rs. \<not> greater (spec_key r) (spec_key m))"
  using best_loop_max [of None rs m] by (simp add: best_def)

lemma best_exists: "rs \<noteq> [] \<Longrightarrow> \<exists>m. best rs = Some m"
  using best_None_iff by blast

text \<open>Being more specific than every rule of a list is being more specific than its best.\<close>

lemma greater_than_all:
  assumes "best rs = Some m"
  shows "(\<forall>r\<in>set rs. greater k (spec_key r)) \<longleftrightarrow> greater k (spec_key m)"
  using best_SomeD [OF assms] greater_mono by blast

lemma max_of_le_iff: "max_of ns \<le> c \<longleftrightarrow> (\<forall>n\<in>set ns. n \<le> c)"
proof -
  have "foldl max a ns \<le> c \<longleftrightarrow> a \<le> c \<and> (\<forall>n\<in>set ns. n \<le> c)" for a
    by (induction ns arbitrary: a) auto
  then show ?thesis by (simp add: max_of_def)
qed

lemma eligible_iff:
  "eligible ds r \<longleftrightarrow>
     (\<forall>d\<in>set ds. HostSpecificity (r_Resource d) \<le> HostSpecificity (r_Resource r)) \<and>
     (ds = [] \<or> Contains (r_Resource r) ''://'' \<or>
      (\<forall>d\<in>set ds. PrefixSpecificity (r_Resource d) \<le> PrefixSpecificity (r_Resource r)))"
  by (cases "ds = []") (simp_all add: eligible_def Let_def max_of_le_iff not_le [symmetric] conj_commute)

definition more_specific :: "rule \<Rightarrow> rule \<Rightarrow> bool" where
  "more_specific a b \<longleftrightarrow> greater (spec_key a) (spec_key b)"

text \<open>The allow rules that may override the matching denies.\<close>

definition overriding :: "rule list \<Rightarrow> rule list" where
  "overriding rs = filter (eligible (denies rs)) (allows rs)"

lemma evaluateMostSpecific_decide:
  "evaluateMostSpecific st req =
     decideSpecific st req (best (denies (matching st req))) (best (overriding (matching st req)))
       (best (escalates (matching st req)))"
  by (simp add: evaluateMostSpecific_def Let_def overriding_def)

lemma mostSpecific_denied_iff:
  fixes st req
  defines "rs \<equiv> matching st req"
  shows "ro_Denied (evaluateMostSpecific st req) \<longleftrightarrow>
     (if denies rs = [] then overriding rs = [] \<and> escalates rs = [] \<and> DefaultDecision st = DefaultDeny
      else \<not> (\<exists>a\<in>set (overriding rs). \<forall>d\<in>set (denies rs). more_specific a d))"
proof (cases "best (denies rs)")
  case None
  then show ?thesis
    by (cases "best (overriding rs)"; cases "best (escalates rs)")
       (auto simp: evaluateMostSpecific_decide rs_def [symmetric] decideSpecific_def
          simp flip: best_None_iff)
next
  case (Some d)
  have ne: "denies rs \<noteq> []" using Some by (auto simp flip: best_None_iff)
  have beats: "(\<exists>a\<in>set (overriding rs). \<forall>d\<in>set (denies rs). more_specific a d) \<longleftrightarrow>
      (\<exists>a\<in>set (overriding rs). more_specific a d)"
    using greater_than_all [OF Some] by (simp add: more_specific_def)
  show ?thesis
  proof (cases "best (overriding rs)")
    case None
    then have "overriding rs = []" by simp
    with None Some ne show ?thesis
      by (simp add: evaluateMostSpecific_decide rs_def [symmetric] decideSpecific_def)
  next
    case a: (Some a)
    have "(\<exists>a\<in>set (overriding rs). more_specific a d) \<longleftrightarrow> more_specific a d"
      using best_SomeD [OF a] not_greater_trans unfolding more_specific_def by blast
    with Some ne a beats show ?thesis
      by (simp add: evaluateMostSpecific_decide rs_def [symmetric] decideSpecific_def more_specific_def
          split: option.splits)
  qed
qed

lemma mostSpecific_allowed_iff:
  fixes st req
  defines "rs \<equiv> matching st req"
  shows "ro_Allowed (evaluateMostSpecific st req) \<longleftrightarrow>
     (\<exists>a\<in>set (overriding rs). (\<forall>d\<in>set (denies rs). more_specific a d) \<and>
        (\<forall>q\<in>set (escalates rs). \<not> more_specific q a))"
proof (cases "best (overriding rs)")
  case None
  then have "overriding rs = []" by simp
  with None show ?thesis
    by (simp add: evaluateMostSpecific_decide rs_def [symmetric] decideSpecific_def split: option.splits)
next
  case (Some a)
  note a = best_SomeD [OF Some]
  have "(\<exists>a\<in>set (overriding rs). (\<forall>d\<in>set (denies rs). more_specific a d) \<and>
        (\<forall>q\<in>set (escalates rs). \<not> more_specific q a)) \<longleftrightarrow>
     (\<forall>d\<in>set (denies rs). more_specific a d) \<and> (\<forall>q\<in>set (escalates rs). \<not> more_specific q a)"
    using a greater_mono not_greater_trans unfolding more_specific_def by (meson greater_asym)
  moreover have "(\<forall>d\<in>set (denies rs). more_specific a d) \<longleftrightarrow>
      (case best (denies rs) of None \<Rightarrow> True | Some d \<Rightarrow> more_specific a d)"
    using greater_than_all [of "denies rs"] by (auto simp: more_specific_def split: option.splits)
  moreover have "(\<forall>q\<in>set (escalates rs). \<not> more_specific q a) \<longleftrightarrow>
      (case best (escalates rs) of None \<Rightarrow> True | Some q \<Rightarrow> \<not> more_specific q a)"
  proof (cases "best (escalates rs)")
    case None
    then show ?thesis by simp
  next
    case q: (Some q)
    show ?thesis
      using best_SomeD [OF q] not_greater_trans unfolding more_specific_def q option.case by blast
  qed
  ultimately show ?thesis
    using Some
    by (cases "best (denies rs)"; cases "best (escalates rs)")
       (simp_all add: evaluateMostSpecific_decide rs_def [symmetric] decideSpecific_def more_specific_def)
qed

lemma mostSpecific_trichotomy:
  "ro_Escalate (evaluateMostSpecific st req) \<longleftrightarrow>
     \<not> ro_Denied (evaluateMostSpecific st req) \<and> \<not> ro_Allowed (evaluateMostSpecific st req)"
  by (simp add: evaluateMostSpecific_decide decideSpecific_def split: option.splits)

text \<open>Escalate rules do not soften a deny that a rule made: dropping all of them keeps it, and so
  does adding any.\<close>

definition without_escalates :: "store \<Rightarrow> store" where
  "without_escalates st = st \<lparr>st_rules := filter (\<lambda>r. r_Deny r \<or> r_Allow r) (st_rules st)\<rparr>"

lemma matching_without_escalates:
  "matching (without_escalates st) req = filter (\<lambda>r. r_Deny r \<or> r_Allow r) (matching st req)"
  by (auto simp: matching_def RulesFor_def without_escalates_def intro: filter_cong)

lemma denies_without: "denies (filter (\<lambda>r. r_Deny r \<or> r_Allow r) rs) = denies rs"
  by (auto simp: denies_def intro: filter_cong)

lemma allows_without: "allows (filter (\<lambda>r. r_Deny r \<or> r_Allow r) rs) = allows rs"
  by (auto simp: allows_def intro: filter_cong)

lemma mostSpecific_deny_without_escalates:
  assumes "denies (matching st req) \<noteq> []"
  shows "ro_Denied (evaluateMostSpecific (without_escalates st) req) =
    ro_Denied (evaluateMostSpecific st req)"
  using assms
  by (simp add: mostSpecific_denied_iff matching_without_escalates denies_without overriding_def allows_without)

section \<open>Several refs\<close>

lemma worst_loop_in: "worst_loop w os \<in> set (w # os)"
  by (induction os arbitrary: w) (auto split: if_splits)

lemma worst_loop_ge: "o' \<in> set (w # os) \<Longrightarrow> strictness o' \<le> strictness (worst_loop w os)"
proof -
  have base: "strictness w \<le> strictness (worst_loop w os)" for w os
    by (induction os arbitrary: w) (auto intro: order_trans less_imp_le)
  have "\<forall>q\<in>set os. strictness q \<le> strictness (worst_loop w os)" for w os
  proof (induction os arbitrary: w)
    case Nil
    then show ?case by simp
  next
    case (Cons q os)
    then show ?case
      using base [of q os] base [of w os] by auto
  qed
  then show "o' \<in> set (w # os) \<Longrightarrow> strictness o' \<le> strictness (worst_loop w os)"
    using base by auto
qed

definition per_ref :: "store \<Rightarrow> ActionRequest \<Rightarrow> RuleOutcome list" where
  "per_ref st req =
     map (\<lambda>p. evaluateOneResource st (RulesForAction st (rq_ActionType req))
            (RulesForEnvironment st (rq_Environment req)) (req \<lparr>rq_Resource := p\<rparr>))
       (SplitRefList (rq_Resource req))"

lemma SplitRefList_neq_Nil [simp]: "SplitRefList r \<noteq> []"
  by (auto simp: SplitRefList_def Let_def split: option.splits)

lemma SplitRefList_single: "length (SplitRefList r) = 1 \<Longrightarrow> SplitRefList r = [r]"
proof -
  have "2 \<le> length (SplitByte (CHR '','') t)" if "Contains t '',''" for t
  proof -
    have "CHR '','' \<in> set t" using that by (auto simp: Contains_iff sublist_def)
    then show ?thesis by (auto simp: length_SplitByte CountByte_def filter_empty_conv Suc_le_eq)
  qed
  then show "length (SplitRefList r) = 1 \<Longrightarrow> SplitRefList r = [r]"
    by (fastforce simp: SplitRefList_def Let_def split: option.splits if_splits)
qed

lemma evaluateRulesWithStore_worst:
  "evaluateRulesWithStore st req \<in> set (per_ref st req) \<and>
   (\<forall>o'\<in>set (per_ref st req). strictness o' \<le> strictness (evaluateRulesWithStore st req))"
proof (cases "length (SplitRefList (rq_Resource req)) = 1")
  case True
  then show ?thesis
    using SplitRefList_single [OF True]
    by (simp add: evaluateRulesWithStore_def evaluateWithStore_def per_ref_def)
next
  case False
  have "per_ref st req \<noteq> []" by (simp add: per_ref_def)
  then obtain w os where per: "per_ref st req = w # os" by (cases "per_ref st req") auto
  have "evaluateRulesWithStore st req = worst_loop w os"
    using False per by (auto simp: evaluateRulesWithStore_def evaluateWithStore_def per_ref_def Let_def)
  then show ?thesis using worst_loop_in [of w os] worst_loop_ge [of _ w os] by (simp add: per)
qed

text \<open>Every outcome of one resource is exactly one of denied, escalated, allowed.\<close>

definition outcome_ok :: "RuleOutcome \<Rightarrow> bool" where
  "outcome_ok o' \<longleftrightarrow>
     (ro_Denied o' \<or> ro_Escalate o' \<or> ro_Allowed o') \<and>
     \<not> (ro_Denied o' \<and> ro_Escalate o') \<and> \<not> (ro_Denied o' \<and> ro_Allowed o') \<and>
     \<not> (ro_Escalate o' \<and> ro_Allowed o') \<and> (ro_Denied o' \<or> ro_Allowed o' \<longrightarrow> ro_Rule o' \<noteq> [])"

lemma outcome_ok_basic [simp]:
  "outcome_ok (denyOutcome req r)" "outcome_ok (allowOutcome r)" "outcome_ok (escalateOutcome r)"
  "outcome_ok defaultEscalateOutcome"
  by (simp_all add: outcome_ok_def)

lemma outcome_ok_one: "outcome_ok (evaluateOneResource st ars ers req)"
proof -
  have "outcome_ok (decideSpecific st req bd ba be)" for bd ba be
    by (auto simp: decideSpecific_def outcome_ok_def zero_outcome_def split: option.splits)
  moreover have "outcome_ok (evaluateRules ars ers req)"
    unfolding evaluateRules_def Let_def by (simp split: option.splits)
  ultimately show ?thesis
    by (simp add: evaluateOneResource_def evaluateMostSpecific_def Let_def)
qed

lemma outcome_ok_store: "outcome_ok (evaluateWithStore st ars ers req)"
proof (cases "length (SplitRefList (rq_Resource req)) = 1")
  case True
  then show ?thesis by (simp add: evaluateWithStore_def outcome_ok_one)
next
  case False
  obtain p ps where "SplitRefList (rq_Resource req) = p # ps"
    using SplitRefList_neq_Nil by (meson neq_Nil_conv)
  then have "\<exists>w os. evaluateWithStore st ars ers req = worst_loop w os \<and> (\<forall>o'\<in>set (w # os). outcome_ok o')"
    using False by (auto simp: evaluateWithStore_def Let_def outcome_ok_one intro!: exI)
  then show ?thesis using worst_loop_in by metis
qed

section \<open>The baseline\<close>

lemma layered_deny_kept:
  assumes "ro_Denied (evaluateRulesWithStore bs req)"
  shows "ro_Denied (layeredWith (Some bs) st ars ers req)"
  using assms outcome_ok_store [of bs _ _ req]
  by (auto simp: layeredWith_def Let_def outcome_ok_def evaluateRulesWithStore_def)

lemma layered_escalate_kept:
  assumes "ro_Escalate (evaluateRulesWithStore bs req)" "ro_Rule (evaluateRulesWithStore bs req) \<noteq> []"
  shows "\<not> ro_Allowed (layeredWith (Some bs) st ars ers req)"
  using assms outcome_ok_store [of bs _ _ req] outcome_ok_store [of st ars ers req]
  by (auto simp: layeredWith_def Let_def outcome_ok_def evaluateRulesWithStore_def)

lemma layered_project_deny:
  assumes "ro_Denied (evaluateWithStore st ars ers req)"
  shows "ro_Denied (layeredWith base st ars ers req)"
  using assms outcome_ok_store [of st ars ers req]
  by (auto simp: layeredWith_def Let_def outcome_ok_def split: option.splits)

lemma layered_allow_source:
  assumes "ro_Allowed (layeredWith (Some bs) st ars ers req)"
  shows "ro_Allowed (evaluateWithStore st ars ers req) \<or>
    (ro_Allowed (evaluateRulesWithStore bs req) \<and> ro_Rule (evaluateWithStore st ars ers req) = [])"
  using assms outcome_ok_store [of bs _ _ req]
  by (auto simp: layeredWith_def Let_def outcome_ok_def evaluateRulesWithStore_def split: if_splits)

lemma layered_denied_not_allowed:
  assumes "ro_Denied (layeredWith base st ars ers req)"
  shows "\<not> ro_Allowed (layeredWith base st ars ers req)"
  using assms outcome_ok_store [of _ _ _ req]
  by (auto simp: layeredWith_def Let_def outcome_ok_def evaluateRulesWithStore_def split: option.splits if_splits)

lemma worst_of_refs:
  assumes "o' \<in> set (per_ref st req)"
  shows "ro_Denied o' \<Longrightarrow> ro_Denied (evaluateRulesWithStore st req)"
    and "ro_Escalate o' \<Longrightarrow> ro_Denied (evaluateRulesWithStore st req) \<or> ro_Escalate (evaluateRulesWithStore st req)"
  using evaluateRulesWithStore_worst [of st req] assms
  by (fastforce simp: strictness_def split: if_splits)+

text \<open>A request that no rule of a store decides: every matching rule is without an effect.\<close>

definition no_rule_decides :: "store \<Rightarrow> ActionRequest \<Rightarrow> bool" where
  "no_rule_decides st req \<longleftrightarrow> (\<forall>r\<in>set (matching st req). \<not> r_Deny r \<and> \<not> r_Allow r \<and> \<not> r_Escalate r)"

lemma unnamed_answer:
  assumes "ro_Rule (evaluateOneResource st (RulesForAction st (rq_ActionType req))
      (RulesForEnvironment st (rq_Environment req)) req) = []"
  shows "no_rule_decides st req"
proof (cases "Precedence st = PrecedenceMostSpecific")
  case True
  with assms have "best (denies (matching st req)) = None" "best (overriding (matching st req)) = None"
    "best (escalates (matching st req)) = None"
    by (auto simp: evaluateOneResource_def evaluateMostSpecific_decide decideSpecific_def
        split: option.splits if_splits)
  then have "denies (matching st req) = []" "allows (matching st req) = []" "escalates (matching st req) = []"
    by (auto simp: overriding_def eligible_def filter_empty_conv)
  then show ?thesis
    by (auto simp: no_rule_decides_def denies_def allows_def escalates_def filter_empty_conv)
next
  case False
  with assms show ?thesis
    by (auto simp: evaluateOneResource_def evaluateRules_order_spec order_spec_def no_rule_decides_def
        find_None_iff split: option.splits)
qed

lemma unnamed_answer_ref:
  assumes "ro_Rule (evaluateRulesWithStore st req) = []"
  shows "\<exists>r\<in>set (SplitRefList (rq_Resource req)). no_rule_decides st (req \<lparr>rq_Resource := r\<rparr>)"
proof -
  have "evaluateRulesWithStore st req \<in> set (per_ref st req)"
    using evaluateRulesWithStore_worst by blast
  with assms obtain r where "r \<in> set (SplitRefList (rq_Resource req))"
    "ro_Rule (evaluateOneResource st (RulesForAction st (rq_ActionType req))
       (RulesForEnvironment st (rq_Environment req)) (req \<lparr>rq_Resource := r\<rparr>)) = []"
    by (auto simp: per_ref_def)
  then show ?thesis
    using unnamed_answer [of st "req \<lparr>rq_Resource := r\<rparr>"] by auto
qed

section \<open>Properties\<close>

text \<open>under order precedence the six loops of \<open>evaluateRules\<close> compute the first matching deny, else
  the first matching allow, else the first matching escalate, else the default escalate; the
  loops over the environment rules never decide.\<close>

theorem evaluateRules_first_match:
  "evaluateRules (RulesForAction st (rq_ActionType req)) (RulesForEnvironment st (rq_Environment req)) req
     = order_spec (matching st req) req"
  by (rule evaluateRules_order_spec)

text \<open>C4: under most-specific precedence a request is allowed exactly when some matching allow rule
  passes four tests: it is strictly more specific than every matching deny; it names the host at
  least as precisely as every matching deny; its literal prefix is at least as long as that of every
  matching deny, unless its own pattern contains \<^verbatim>\<open>://\<close>; and no matching escalate rule is more
  specific than it. The third test is waived by the pattern of the rule and not by the resource:
  \<open>waiver_by_pattern\<close> below has the consequence for a resource that is no URL.\<close>

theorem most_specific_allow_iff:
  "ro_Allowed (evaluateMostSpecific st req) \<longleftrightarrow>
     (\<exists>a\<in>set (matching st req). r_Allow a \<and> \<not> r_Deny a \<and>
        (\<forall>d\<in>set (matching st req). r_Deny d \<longrightarrow>
           more_specific a d \<and> HostSpecificity (r_Resource d) \<le> HostSpecificity (r_Resource a)) \<and>
        (Contains (r_Resource a) ''://'' \<or>
           (\<forall>d\<in>set (matching st req). r_Deny d \<longrightarrow>
              PrefixSpecificity (r_Resource d) \<le> PrefixSpecificity (r_Resource a))) \<and>
        (\<forall>q\<in>set (matching st req). r_Escalate q \<and> \<not> r_Deny q \<and> \<not> r_Allow q \<longrightarrow> \<not> more_specific q a))"
  unfolding mostSpecific_allowed_iff overriding_def
  by (auto simp: eligible_iff denies_def allows_def escalates_def filter_empty_conv)

definition rule_for :: "string \<Rightarrow> rule" where
  "rule_for pattern = zero_rule \<lparr>r_ActionType := ''*'', r_Environment := ''*'', r_Resource := pattern\<rparr>"

definition deny_for :: "string \<Rightarrow> rule" where
  "deny_for pattern = rule_for pattern \<lparr>r_Deny := True\<rparr>"

definition allow_for :: "string \<Rightarrow> rule" where
  "allow_for pattern = rule_for pattern \<lparr>r_Allow := True\<rparr>"

definition escalate_for :: "string \<Rightarrow> rule" where
  "escalate_for pattern = rule_for pattern \<lparr>r_Escalate := True\<rparr>"

definition store_of :: "string \<Rightarrow> rule list \<Rightarrow> store" where
  "store_of prec rs = \<lparr>st_version = ''v1'', st_precedence = prec, st_defaultDecision = [], st_rules = rs,
     st_filePath = [], st_hash = []\<rparr>"

definition request_for :: "string \<Rightarrow> ActionRequest" where
  "request_for resource = \<lparr>rq_ActionType = ''http.request'', rq_Resource = resource,
     rq_AgentIdentity = None, rq_CapabilityLease = None, rq_DelegationChain = None,
     rq_Environment = ''dev'', rq_Metadata = [], rq_Nonce = ''n1'', rq_IssuedAt = 1, rq_MinEpoch = 0\<rparr>"

definition specific_store :: store where
  "specific_store = store_of ''most-specific''
     [deny_for ''POST *'', allow_for ''POST https://a.io/x'', escalate_for ''POST https://*'']"

theorem most_specific_allow_iff_witness:
  "ro_Allowed (evaluateMostSpecific specific_store (request_for ''POST https://a.io/x'')) \<and>
   (\<exists>a\<in>set (matching specific_store (request_for ''POST https://a.io/x'')). r_Allow a)"
proof -
  have "ro_Allowed (evaluateMostSpecific specific_store (request_for ''POST https://a.io/x''))"
    by code_simp
  with most_specific_allow_iff [of specific_store "request_for ''POST https://a.io/x''"]
  show ?thesis by blast
qed

text \<open>the prefix test is waived for every allow whose pattern contains \<^verbatim>\<open>://\<close>, also when the resource
  is a command: an allow of any command line that mentions one URL overrides the deny of the program,
  while the same allow without \<^verbatim>\<open>://\<close> does not.\<close>

theorem waiver_by_pattern:
  "ro_Allowed (evaluateMostSpecific
     (store_of ''most-specific'' [deny_for ''shell:curl*'', allow_for ''*http://e.io*''])
     (request_for ''shell:curl http://e.io'')) \<and>
   ro_Denied (evaluateMostSpecific
     (store_of ''most-specific'' [deny_for ''shell:curl*'', allow_for ''*http:e.io/xyz*''])
     (request_for ''shell:curl http:e.io/xyz''))"
proof (intro conjI)
  show "ro_Allowed (evaluateMostSpecific
     (store_of ''most-specific'' [deny_for ''shell:curl*'', allow_for ''*http://e.io*''])
     (request_for ''shell:curl http://e.io''))"
    by code_simp
  show "ro_Denied (evaluateMostSpecific
     (store_of ''most-specific'' [deny_for ''shell:curl*'', allow_for ''*http:e.io/xyz*''])
     (request_for ''shell:curl http:e.io/xyz''))"
    by code_simp
qed

text \<open>under most-specific precedence escalate rules never turn the answer of a matching deny: with
  all of them removed from the policy the request is denied exactly when it was.\<close>

theorem escalate_never_softens_deny:
  assumes "\<exists>d\<in>set (matching st req). r_Deny d"
  shows "ro_Denied (evaluateMostSpecific (without_escalates st) req) =
    ro_Denied (evaluateMostSpecific st req)"
  using assms by (intro mostSpecific_deny_without_escalates) (auto simp: denies_def filter_empty_conv)

definition deny_escalate_store :: store where
  "deny_escalate_store = store_of ''most-specific'' [deny_for ''POST *'', escalate_for ''POST https://a.io/x'']"

theorem escalate_never_softens_deny_witness:
  "ro_Denied (evaluateMostSpecific deny_escalate_store (request_for ''POST https://a.io/x''))"
proof -
  let ?r = "request_for ''POST https://a.io/x''"
  have d: "list_ex r_Deny (matching deny_escalate_store ?r)"
    and w: "ro_Denied (evaluateMostSpecific (without_escalates deny_escalate_store) ?r)"
    by code_simp+
  have "\<exists>d\<in>set (matching deny_escalate_store ?r). r_Deny d"
    using d by (simp add: list_ex_iff)
  then show ?thesis using escalate_never_softens_deny w by blast
qed

text \<open>a deny and an escalate that both match do not always give a deny: an allow between them in
  specificity disables the deny and the escalate then beats the allow.\<close>

theorem escalate_beats_deny_through_allow:
  "ro_Escalate (evaluateMostSpecific
     (store_of ''most-specific'' [deny_for ''POST *'', allow_for ''POST https://a.io/*'', escalate_for ''POST https://a.io/x''])
     (request_for ''POST https://a.io/x''))"
  by code_simp

text \<open>a push of several refs gets the answer of one of its refs and no ref alone has a stricter
  one: an allow for one ref never carries another ref along.\<close>

theorem push_gets_strictest_ref:
  "evaluateRulesWithStore st req \<in> set (per_ref st req) \<and>
   (\<forall>o'\<in>set (per_ref st req). strictness o' \<le> strictness (evaluateRulesWithStore st req))"
  by (rule evaluateRulesWithStore_worst)

definition push_req :: ActionRequest where
  "push_req = request_for ''POST https://g.io/r refs/dev,refs/main''"

definition push_store :: store where
  "push_store = store_of ''order'' [deny_for ''POST https://g.io/* refs/main'', allow_for ''POST https://g.io/*'']"

theorem push_gets_strictest_ref_witness:
  "length (per_ref push_store push_req) = 2 \<and> ro_Denied (evaluateRulesWithStore push_store push_req)"
proof -
  have two: "length (per_ref push_store push_req) = 2"
    and last: "strictness (per_ref push_store push_req ! 1) = 3"
    by code_simp+
  have "per_ref push_store push_req ! 1 \<in> set (per_ref push_store push_req)"
    using two by simp
  then have "3 \<le> strictness (evaluateRulesWithStore push_store push_req)"
    using push_gets_strictest_ref [of push_store push_req] last by metis
  with two show ?thesis by (simp add: strictness_def split: if_splits)
qed



definition escalate_main :: store where
  "escalate_main = store_of [] [escalate_for ''POST https://g.io/* refs/main'']"

text \<open>the layering loses a baseline escalate on a push whose first ref no baseline rule covers: the
  strictest per-ref answer is then the anonymous default, which the layering reads as no opinion, and
  the project's allow stands although a baseline rule escalates the second ref.\<close>

theorem baseline_escalate_lost_on_push:
  "ro_Allowed (layeredRules (Some escalate_main) (store_of [] [allow_for ''POST https://g.io/*'']) push_req) \<and>
   ro_Rule (per_ref escalate_main push_req ! 1) \<noteq> [] \<and> ro_Escalate (per_ref escalate_main push_req ! 1)"
proof (intro conjI)
  show "ro_Allowed (layeredRules (Some escalate_main) (store_of [] [allow_for ''POST https://g.io/*'']) push_req)"
    by code_simp
  show "ro_Rule (per_ref escalate_main push_req ! 1) \<noteq> []"
    by code_simp
  show "ro_Escalate (per_ref escalate_main push_req ! 1)"
    by code_simp
qed

text \<open>under order precedence the default of the policy file is not consulted: a request no rule
  matches escalates also when the file says deny.\<close>

theorem order_ignores_default:
  assumes "Precedence st \<noteq> PrecedenceMostSpecific" "matching st req = []"
  shows "evaluateOneResource st (RulesForAction st (rq_ActionType req))
      (RulesForEnvironment st (rq_Environment req)) req = defaultEscalateOutcome"
  using assms by (simp add: evaluateOneResource_def evaluateRules_order_spec order_spec_def)

theorem order_ignores_default_witness:
  "DefaultDecision (SetDefaultDecision ''deny'' (store_of [] [])) = DefaultDeny \<and>
   evaluateOneResource (SetDefaultDecision ''deny'' (store_of [] [])) [] [] (request_for ''x'') = defaultEscalateOutcome"
proof -
  let ?s = "SetDefaultDecision ''deny'' (store_of [] [])"
  have "RulesForAction ?s (rq_ActionType (request_for ''x'')) = []"
    "RulesForEnvironment ?s (rq_Environment (request_for ''x'')) = []"
    "Precedence ?s \<noteq> PrecedenceMostSpecific" "matching ?s (request_for ''x'') = []"
    by (simp_all add: RulesForAction_def RulesForEnvironment_def matching_def RulesFor_def store_of_def
        SetDefaultDecision_def Precedence_def policy_constants)
  then show ?thesis using order_ignores_default [of ?s "request_for ''x''"]
    by (simp add: DefaultDecision_def SetDefaultDecision_def store_of_def policy_constants)
qed

end
