(* ===== verification/Go_Bytes.thy ===== *)
theory Go_Bytes
  imports Go_Prelude "HOL-Library.Char_ord" "HOL-Library.List_Lexorder" "HOL-Library.Product_Lexorder"
begin

text \<open>
  Length-prefixed encodings. Several digests of the gateway hash a sequence of strings, each
  preceded by its length as a big-endian 32-bit number (\<^verbatim>\<open>binary.BigEndian.PutUint32\<close>). The
  encoding determines the sequence as long as each string is shorter than \<open>2 ^ 32\<close> bytes, the
  range in which the conversion to \<^verbatim>\<open>uint32\<close> keeps the length.
\<close>

definition byte_of :: "nat \<Rightarrow> char" where
  "byte_of n = char_of (n mod 256)"

definition PutUint32 :: "nat \<Rightarrow> string" where
  "PutUint32 n =
     (let a = n div 256; b = a div 256; c = b div 256 in [byte_of c, byte_of b, byte_of a, byte_of n])"

definition lp_field :: "string \<Rightarrow> string" where
  "lp_field s = PutUint32 (length s) @ s"

definition lp_fields :: "string list \<Rightarrow> string" where
  "lp_fields ss = concat (map lp_field ss)"

definition short :: "string \<Rightarrow> bool" where
  "short s \<longleftrightarrow> length s < 4294967296"

lemma length_PutUint32 [simp]: "length (PutUint32 n) = 4"
  by (simp add: PutUint32_def Let_def)

lemma byte_of_eq_iff: "byte_of a = byte_of b \<longleftrightarrow> a mod 256 = b mod 256"
  by (simp add: byte_of_def)

lemma PutUint32_mod:
  assumes "PutUint32 a = PutUint32 b"
  shows "a mod 4294967296 = b mod 4294967296"
proof -
  have split: "n mod 4294967296 =
      256 * (256 * (256 * (n div 256 div 256 div 256 mod 256) + n div 256 div 256 mod 256) + n div 256 mod 256) + n mod 256"
    for n :: nat
    using mod_mult2_eq [of n 256 16777216] mod_mult2_eq [of "n div 256" 256 65536]
      mod_mult2_eq [of "n div 256 div 256" 256 256] by simp
  have "a div 256 div 256 div 256 mod 256 = b div 256 div 256 div 256 mod 256"
    "a div 256 div 256 mod 256 = b div 256 div 256 mod 256"
    "a div 256 mod 256 = b div 256 mod 256" "a mod 256 = b mod 256"
    using assms by (simp_all only: PutUint32_def Let_def byte_of_eq_iff list.inject simp_thms)
  then show ?thesis by (simp only: split)
qed

lemma PutUint32_inj: "a < 4294967296 \<Longrightarrow> b < 4294967296 \<Longrightarrow> PutUint32 a = PutUint32 b \<Longrightarrow> a = b"
  using PutUint32_mod by fastforce

lemma lp_field_append_inj:
  assumes "short s" "short t" "lp_field s @ u = lp_field t @ v"
  shows "s = t \<and> u = v"
proof -
  have "PutUint32 (length s) = PutUint32 (length t)" "s @ u = t @ v"
    using assms(3) by (auto simp: lp_field_def append_eq_append_conv)
  with PutUint32_inj assms(1,2) show ?thesis by (auto simp: short_def)
qed

lemma lp_fields_inj:
  assumes "list_all short ss" "list_all short ts" "lp_fields ss = lp_fields ts"
  shows "ss = ts"
  using assms
proof (induction ss arbitrary: ts)
  case Nil
  then show ?case by (cases ts) (auto simp: lp_fields_def lp_field_def PutUint32_def Let_def)
next
  case (Cons s ss)
  then obtain t ts' where ts: "ts = t # ts'"
    by (cases ts) (auto simp: lp_fields_def lp_field_def PutUint32_def Let_def)
  have "lp_field s @ lp_fields ss = lp_field t @ lp_fields ts'"
    using Cons.prems(3) by (simp add: lp_fields_def ts)
  with lp_field_append_inj Cons.prems(1,2) have "s = t" "lp_fields ss = lp_fields ts'"
    by (auto simp: ts)
  with Cons.IH Cons.prems(1,2) show ?case by (simp add: ts)
qed

text \<open>The entries of a Go map in the order of its sorted keys (\<^verbatim>\<open>sort.Strings\<close> is the bytewise order).\<close>

definition sorted_entries :: "(string, string) gomap \<Rightarrow> (string \<times> string) list" where
  "sorted_entries m = map (\<lambda>k. (k, the (map_of m k))) (sort (map fst m))"

lemma sorted_entries_map_of: "map_of (sorted_entries m) = map_of m"
proof
  fix k
  have "map_of (map (\<lambda>k. (k, f k)) ks) k = (if k \<in> set ks then Some (f k) else None)" for f :: "string \<Rightarrow> string" and ks
    by (induction ks) auto
  moreover have "k \<in> fst ` set m \<longleftrightarrow> map_of m k \<noteq> None"
    by (simp add: map_of_eq_None_iff)
  ultimately show "map_of (sorted_entries m) k = map_of m k"
    by (auto simp: sorted_entries_def)
qed

end
