(* ===== verification/Journal_Fold.thy ===== *)
theory Journal_Fold
  imports Go_Prelude
begin

text \<open>
  What a store's fold over its signed journal establishes. The stores of approvals, continuations and
  executions each replay their journal record by record: a first
  record has to be a genesis, and a later one has to keep the immutable core and follow the
  transition table. \<open>record_journal\<close> states this contract of one fold step, whose state has the records and
  a second part that a record does not change; its lemmas give, for every identifier, the history the
  journal tells.
\<close>

fun fold_records :: "('r \<Rightarrow> 'st \<Rightarrow> 'e + 'st) \<Rightarrow> 'r list \<Rightarrow> 'st \<Rightarrow> 'e + 'st" where
  "fold_records step [] st = Inr st"
| "fold_records step (r # rs) st = (case step r st of Inl e \<Rightarrow> Inl e | Inr st' \<Rightarrow> fold_records step rs st')"

definition history :: "('r \<Rightarrow> string) \<Rightarrow> string \<Rightarrow> 'r list \<Rightarrow> 'r list" where
  "history ident i rs = filter (\<lambda>r. ident r = i) rs"

lemma fold_records_snoc:
  "fold_records step (rs @ [r]) st = (case fold_records step rs st of Inl e \<Rightarrow> Inl e | Inr st' \<Rightarrow> step r st')"
  by (induction rs arbitrary: st) (auto split: sum.splits)

locale record_journal =
  fixes ident :: "'r \<Rightarrow> string"
    and core_eq :: "'r \<Rightarrow> 'r \<Rightarrow> bool"
    and genesis :: "'t \<Rightarrow> 'r \<Rightarrow> bool"
    and legal :: "'r \<Rightarrow> 'r \<Rightarrow> bool"
    and step :: "'r \<Rightarrow> (string, 'r) gomap \<times> 't \<Rightarrow> 'e + (string, 'r) gomap \<times> 't"
  assumes core_refl: "core_eq r r"
    and core_trans: "core_eq a b \<Longrightarrow> core_eq b c \<Longrightarrow> core_eq a c"
    and step_ok: "step r (items, tombs) = Inr (items', tombs') \<Longrightarrow>
      tombs' = tombs \<and> map_of items' = (map_of items)(ident r \<mapsto> r) \<and>
      (case map_of items (ident r) of None \<Rightarrow> genesis tombs r | Some p \<Rightarrow> core_eq p r \<and> legal p r)"
begin

lemma history_from:
  "fold_records step rs (items, tombs) = Inr (items', tombs') \<Longrightarrow>
   (case map_of items i of
      None \<Rightarrow> history ident i rs = [] \<or> genesis tombs (hd (history ident i rs)) \<and> successively legal (history ident i rs) \<and>
        (\<forall>r\<in>set (history ident i rs). core_eq (hd (history ident i rs)) r)
    | Some p \<Rightarrow> successively legal (p # history ident i rs) \<and> (\<forall>r\<in>set (history ident i rs). core_eq p r)) \<and>
   map_of items' i = (if history ident i rs = [] then map_of items i else Some (last (history ident i rs)))"
proof (induction rs arbitrary: items tombs)
  case Nil
  then show ?case by (auto simp: history_def core_refl split: option.splits)
next
  case (Cons r rs)
  from Cons.prems obtain items1 tombs1 where s: "step r (items, tombs) = Inr (items1, tombs1)"
    and rest: "fold_records step rs (items1, tombs1) = Inr (items', tombs')"
    by (auto split: sum.splits)
  note ok = step_ok [OF s] and ih = Cons.IH [OF rest]
  show ?case
  proof (cases "ident r = i")
    case False
    then have "history ident i (r # rs) = history ident i rs" by (simp add: history_def)
    then show ?thesis using ih ok False by (cases "map_of items i") simp_all
  next
    case True
    then have hist: "history ident i (r # rs) = r # history ident i rs" by (simp add: history_def)
    have r: "map_of items1 i = Some r" using ok True by simp
    show ?thesis
    proof (cases "map_of items i")
      case None
      with ih ok r hist True show ?thesis by (auto simp: core_refl)
    next
      case (Some p)
      then have "core_eq p r" "legal p r" using ok True by auto
      with ih r hist Some core_trans show ?thesis by (auto simp: core_refl)
    qed
  qed
qed

text \<open>The history of an identifier in a journal that folds from the empty store.\<close>

lemma history_chain:
  assumes "fold_records step rs ([], tombs0) = Inr (items, tombs)" "history ident i rs \<noteq> []"
  shows "genesis tombs0 (hd (history ident i rs))" "successively legal (history ident i rs)"
    "\<forall>r\<in>set (history ident i rs). core_eq (hd (history ident i rs)) r" "map_of items i = Some (last (history ident i rs))"
  using history_from [OF assms(1), of i] assms(2) by auto

text \<open>A state test that no legal transition leaves is settled for the rest of a history.\<close>

lemma settled:
  assumes "successively legal hist" "\<And>a b. legal a b \<Longrightarrow> P a \<Longrightarrow> P b" "i \<le> j" "j < length hist" "P (hist ! i)"
  shows "P (hist ! j)"
  using assms(3-5)
proof (induction j)
  case 0
  then show ?case by simp
next
  case (Suc j)
  show ?case
  proof (cases "i = Suc j")
    case True
    with Suc.prems show ?thesis by simp
  next
    case False
    then have "P (hist ! j)" using Suc by simp
    moreover have "legal (hist ! j) (hist ! Suc j)"
      using assms(1) Suc.prems(2) by (simp add: successively_conv_nth)
    ultimately show ?thesis using assms(2) by blast
  qed
qed

end

end
