(* ===== verification/Approval_Store.thy ===== *)
theory Approval_Store
  imports Models Go_Bytes Journal_Fold
begin

text \<open>
  Component: approvals and their stores (\<^verbatim>\<open>internal/approval/models.go\<close>, \<^verbatim>\<open>store.go\<close>,
  \<^verbatim>\<open>file_store.go\<close>, \<^verbatim>\<open>fold.go\<close>). The clock is the argument \<open>now\<close>. A store operation returns its
  result and the new store. The file-backed store has, beside the map in memory, what is on disk:
  the records of the signed journal, or in legacy mode the file of all approvals; the outcome of
  the write is an argument, so every failure path of the code is a branch here. JSON encoding of a
  record is taken as faithful, so a journal record carries the approval itself.
\<close>

section \<open>Approvals\<close>

datatype Status = StatusPending | StatusApproved | StatusDenied | StatusExpired

record ApprovalRequest =
  ap_ApprovalID :: string
  ap_DecisionID :: string
  ap_ActionType :: string
  ap_Resource :: string
  ap_Environment :: string
  ap_Status :: Status
  ap_CreatedAt :: time
  ap_ResolvedAt :: "time option"
  ap_ResumedAt :: "time option"
  ap_ResolvedBy :: string
  ap_AgentID :: string
  ap_Reason :: string
  ap_TrustScore :: float64
  ap_TrustLevel :: string
  ap_AnomalyCodes :: "string list"
  ap_ShieldActive :: bool
  ap_Restricted :: bool
  ap_Context :: "(string, string) gomap"
  ap_RequestHash :: string
  ap_PolicyVersion :: string
  ap_LeaseID :: string
  ap_DelegationKeys :: "string list"
  ap_Issuers :: "string list"

definition Approve_req :: "time \<Rightarrow> string \<Rightarrow> ApprovalRequest \<Rightarrow> ApprovalRequest" where
  "Approve_req now resolvedBy a =
     a \<lparr>ap_Status := StatusApproved, ap_ResolvedBy := resolvedBy, ap_ResolvedAt := Some now\<rparr>"

definition Deny_req :: "time \<Rightarrow> string \<Rightarrow> string \<Rightarrow> ApprovalRequest \<Rightarrow> ApprovalRequest" where
  "Deny_req now resolvedBy reason a =
     a \<lparr>ap_Status := StatusDenied, ap_ResolvedBy := resolvedBy, ap_Reason := reason, ap_ResolvedAt := Some now\<rparr>"

definition MarkResumed :: "time \<Rightarrow> ApprovalRequest \<Rightarrow> ApprovalRequest" where
  "MarkResumed now a = a \<lparr>ap_ResumedAt := Some now\<rparr>"

definition CanResume :: "ApprovalRequest \<Rightarrow> bool" where
  "CanResume a \<longleftrightarrow> ap_Status a = StatusApproved \<and> ap_ResumedAt a = None"

definition IsPending :: "ApprovalRequest \<Rightarrow> bool" where
  "IsPending a \<longleftrightarrow> ap_Status a = StatusPending"

definition IsResolved :: "ApprovalRequest \<Rightarrow> bool" where
  "IsResolved a \<longleftrightarrow> ap_Status a = StatusApproved \<or> ap_Status a = StatusDenied"

record CreateRequest =
  cr_DecisionID :: string
  cr_ActionType :: string
  cr_Resource :: string
  cr_Environment :: string
  cr_AgentID :: string
  cr_TrustScore :: float64
  cr_TrustLevel :: string
  cr_AnomalyCodes :: "string list"
  cr_ShieldActive :: bool
  cr_Restricted :: bool
  cr_Context :: "(string, string) gomap"
  cr_RequestHash :: string
  cr_PolicyVersion :: string
  cr_LeaseID :: string
  cr_DelegationKeys :: "string list"
  cr_Issuers :: "string list"

definition ToApproval :: "time \<Rightarrow> string \<Rightarrow> CreateRequest \<Rightarrow> ApprovalRequest" where
  "ToApproval now approvalID c =
     \<lparr>ap_ApprovalID = approvalID, ap_DecisionID = cr_DecisionID c, ap_ActionType = cr_ActionType c,
      ap_Resource = cr_Resource c, ap_Environment = cr_Environment c, ap_Status = StatusPending,
      ap_CreatedAt = now, ap_ResolvedAt = None, ap_ResumedAt = None, ap_ResolvedBy = [],
      ap_AgentID = cr_AgentID c, ap_Reason = [], ap_TrustScore = cr_TrustScore c,
      ap_TrustLevel = cr_TrustLevel c, ap_AnomalyCodes = cr_AnomalyCodes c,
      ap_ShieldActive = cr_ShieldActive c, ap_Restricted = cr_Restricted c,
      ap_Context = cr_Context c, ap_RequestHash = cr_RequestHash c,
      ap_PolicyVersion = cr_PolicyVersion c, ap_LeaseID = cr_LeaseID c,
      ap_DelegationKeys = cr_DelegationKeys c, ap_Issuers = cr_Issuers c\<rparr>"

datatype approval_error =
    ApprovalIDRequired
  | AlreadyExists string
  | NotFound string
  | NotPending Status
  | InvalidDecision Status
  | NotApproved Status
  | AlreadyResumed
  | ErrApprovalExpired
  | ErrTooManyPending
  | ErrApprovalUsed
  | DecisionIDRequired
  | ActionTypeRequired
  | Tombstoned string
  | WriteError

section \<open>The store in memory\<close>

type_synonym approvals = "(string, ApprovalRequest) gomap"

text \<open>\<open>ResolveIf\<close> on the record alone: the pending check, the extra check, the decision.\<close>

definition resolve_one ::
  "time \<Rightarrow> Status \<Rightarrow> string \<Rightarrow> string \<Rightarrow> (ApprovalRequest \<Rightarrow> approval_error option) \<Rightarrow> ApprovalRequest
     \<Rightarrow> approval_error + ApprovalRequest" where
  "resolve_one now decision resolvedBy reason check req =
     (if \<not> IsPending req then Inl (NotPending (ap_Status req))
      else (case check req of
              Some e \<Rightarrow> Inl e
            | None \<Rightarrow>
                (case decision of
                   StatusApproved \<Rightarrow> Inr (Approve_req now resolvedBy req)
                 | StatusDenied \<Rightarrow> Inr (Deny_req now resolvedBy reason req)
                 | _ \<Rightarrow> Inl (InvalidDecision decision))))"

definition resume_one :: "time \<Rightarrow> ApprovalRequest \<Rightarrow> approval_error + ApprovalRequest" where
  "resume_one now req =
     (if \<not> CanResume req then
        (if ap_Status req \<noteq> StatusApproved then Inl (NotApproved (ap_Status req)) else Inl AlreadyResumed)
      else Inr (MarkResumed now req))"

definition mem_Create :: "ApprovalRequest \<Rightarrow> approvals \<Rightarrow> approval_error option \<times> approvals" where
  "mem_Create req items =
     (if ap_ApprovalID req = [] then (Some ApprovalIDRequired, items)
      else if map_of items (ap_ApprovalID req) \<noteq> None then (Some (AlreadyExists (ap_ApprovalID req)), items)
      else (None, AList.update (ap_ApprovalID req) req items))"

definition mem_Get :: "string \<Rightarrow> approvals \<Rightarrow> approval_error + ApprovalRequest" where
  "mem_Get aid items = (case map_of items aid of None \<Rightarrow> Inl (NotFound aid) | Some req \<Rightarrow> Inr req)"

definition mem_Update :: "ApprovalRequest \<Rightarrow> approvals \<Rightarrow> approval_error option \<times> approvals" where
  "mem_Update req items =
     (if map_of items (ap_ApprovalID req) = None then (Some (NotFound (ap_ApprovalID req)), items)
      else (None, AList.update (ap_ApprovalID req) req items))"

definition mem_ResolveIf ::
  "time \<Rightarrow> string \<Rightarrow> Status \<Rightarrow> string \<Rightarrow> string \<Rightarrow> (ApprovalRequest \<Rightarrow> approval_error option)
     \<Rightarrow> approvals \<Rightarrow> (approval_error + ApprovalRequest) \<times> approvals" where
  "mem_ResolveIf now aid decision resolvedBy reason check items =
     (case map_of items aid of
        None \<Rightarrow> (Inl (NotFound aid), items)
      | Some req \<Rightarrow>
          (case resolve_one now decision resolvedBy reason check req of
             Inl e \<Rightarrow> (Inl e, items)
           | Inr req' \<Rightarrow> (Inr req', AList.update aid req' items)))"

definition mem_ConsumeResume :: "time \<Rightarrow> string \<Rightarrow> approvals \<Rightarrow> (approval_error + ApprovalRequest) \<times> approvals" where
  "mem_ConsumeResume now aid items =
     (case map_of items aid of
        None \<Rightarrow> (Inl (NotFound aid), items)
      | Some req \<Rightarrow>
          (case resume_one now req of
             Inl e \<Rightarrow> (Inl e, items)
           | Inr req' \<Rightarrow> (Inr req', AList.update aid req' items)))"

definition mem_ListAll :: "approvals \<Rightarrow> ApprovalRequest list" where
  "mem_ListAll items = map snd items"

definition mem_ListByStatus :: "Status \<Rightarrow> approvals \<Rightarrow> ApprovalRequest list" where
  "mem_ListByStatus status items = filter (\<lambda>req. ap_Status req = status) (map snd items)"

definition mem_ListByDecision :: "string \<Rightarrow> approvals \<Rightarrow> ApprovalRequest list" where
  "mem_ListByDecision decisionID items = filter (\<lambda>req. ap_DecisionID req = decisionID) (map snd items)"

section \<open>The file-backed store\<close>

datatype approval_event =
    EvApproval string ApprovalRequest
  | EvTombstone string
  | EvCompact
  | EvMigration
  | EvUnknown string

datatype write_outcome = WriteOk | WriteFailed | SinkFailed

record fstore =
  fs_journal :: bool
  fs_items :: approvals
  fs_tombstones :: "string list"
  fs_log :: "approval_event list"
  fs_disk :: approvals

definition appendLocked :: "write_outcome \<Rightarrow> approval_event \<Rightarrow> fstore \<Rightarrow> approval_error option \<times> fstore" where
  "appendLocked w ev s =
     (case w of
        WriteOk \<Rightarrow> (None, s \<lparr>fs_log := fs_log s @ [ev]\<rparr>)
      | SinkFailed \<Rightarrow> (Some WriteError, s \<lparr>fs_log := fs_log s @ [ev]\<rparr>)
      | WriteFailed \<Rightarrow> (Some WriteError, s))"

definition persistAll :: "write_outcome \<Rightarrow> fstore \<Rightarrow> approval_error option \<times> fstore" where
  "persistAll w s = (if w = WriteOk then (None, s \<lparr>fs_disk := fs_items s\<rparr>) else (Some WriteError, s))"

definition put_item :: "string \<Rightarrow> ApprovalRequest \<Rightarrow> fstore \<Rightarrow> fstore" where
  "put_item aid req s = s \<lparr>fs_items := AList.update aid req (fs_items s)\<rparr>"

definition file_Create :: "write_outcome \<Rightarrow> ApprovalRequest \<Rightarrow> fstore \<Rightarrow> approval_error option \<times> fstore" where
  "file_Create w req s =
     (let aid = ap_ApprovalID req in
      if aid = [] then (Some ApprovalIDRequired, s)
      else if map_of (fs_items s) aid \<noteq> None then (Some (AlreadyExists aid), s)
      else if fs_journal s then
        (if aid \<in> set (fs_tombstones s) then (Some (Tombstoned aid), s)
         else (case appendLocked w (EvApproval aid req) s of
                 (Some e, s') \<Rightarrow> (Some e, s')
               | (None, s') \<Rightarrow> (None, put_item aid req s')))
      else persistAll w (put_item aid req s))"

definition file_Get :: "string \<Rightarrow> fstore \<Rightarrow> approval_error + ApprovalRequest" where
  "file_Get aid s = mem_Get aid (fs_items s)"

definition file_Update :: "write_outcome \<Rightarrow> ApprovalRequest \<Rightarrow> fstore \<Rightarrow> approval_error option \<times> fstore" where
  "file_Update w req s =
     (let aid = ap_ApprovalID req in
      if map_of (fs_items s) aid = None then (Some (NotFound aid), s)
      else if fs_journal s then
        (case appendLocked w (EvApproval aid req) s of
           (Some e, s') \<Rightarrow> (Some e, s')
         | (None, s') \<Rightarrow> (None, put_item aid req s'))
      else persistAll w (put_item aid req s))"

text \<open>The record in memory is changed first, then written; a failed write is reported and the change
  in memory stays.\<close>

definition file_ResolveIf ::
  "write_outcome \<Rightarrow> time \<Rightarrow> string \<Rightarrow> Status \<Rightarrow> string \<Rightarrow> string \<Rightarrow> (ApprovalRequest \<Rightarrow> approval_error option)
     \<Rightarrow> fstore \<Rightarrow> (approval_error + ApprovalRequest) \<times> fstore" where
  "file_ResolveIf w now aid decision resolvedBy reason check s =
     (case map_of (fs_items s) aid of
        None \<Rightarrow> (Inl (NotFound aid), s)
      | Some req \<Rightarrow>
          (case resolve_one now decision resolvedBy reason check req of
             Inl e \<Rightarrow> (Inl e, s)
           | Inr req' \<Rightarrow>
               (let s1 = put_item aid req' s in
                case (if fs_journal s then appendLocked w (EvApproval (ap_ApprovalID req') req') s1
                      else persistAll w s1) of
                  (Some e, s2) \<Rightarrow> (Inl e, s2)
                | (None, s2) \<Rightarrow> (Inr req', s2))))"

definition file_ConsumeResume :: "write_outcome \<Rightarrow> time \<Rightarrow> string \<Rightarrow> fstore \<Rightarrow> (approval_error + ApprovalRequest) \<times> fstore" where
  "file_ConsumeResume w now aid s =
     (case map_of (fs_items s) aid of
        None \<Rightarrow> (Inl (NotFound aid), s)
      | Some req \<Rightarrow>
          (case resume_one now req of
             Inl e \<Rightarrow> (Inl e, s)
           | Inr req' \<Rightarrow>
               (let s1 = put_item aid req' s in
                (Inr req',
                 snd (if fs_journal s then appendLocked w (EvApproval (ap_ApprovalID req') req') s1
                      else persistAll w s1)))))"

definition file_Delete :: "write_outcome \<Rightarrow> string \<Rightarrow> fstore \<Rightarrow> approval_error option \<times> fstore" where
  "file_Delete w aid s =
     (if map_of (fs_items s) aid = None then (Some (NotFound aid), s)
      else if fs_journal s then
        (case appendLocked w (EvTombstone aid) s of
           (Some e, s') \<Rightarrow> (Some e, s')
         | (None, s') \<Rightarrow> (None, s' \<lparr>fs_tombstones := aid # fs_tombstones s',
                                   fs_items := AList.delete aid (fs_items s')\<rparr>))
      else persistAll w (s \<lparr>fs_items := AList.delete aid (fs_items s)\<rparr>))"

definition file_Stats :: "fstore \<Rightarrow> nat \<times> nat" where
  "file_Stats s =
     (length (filter (\<lambda>req. ap_Status req = StatusPending) (map snd (fs_items s))), length (fs_items s))"

section \<open>The fold over the journal\<close>

definition sameCore :: "ApprovalRequest \<Rightarrow> ApprovalRequest \<Rightarrow> bool" where
  "sameCore a b \<longleftrightarrow>
     ap_DecisionID a = ap_DecisionID b \<and> ap_ActionType a = ap_ActionType b \<and>
     ap_Resource a = ap_Resource b \<and> ap_Environment a = ap_Environment b \<and>
     ap_CreatedAt a = ap_CreatedAt b \<and> ap_AgentID a = ap_AgentID b \<and>
     ap_RequestHash a = ap_RequestHash b \<and> ap_PolicyVersion a = ap_PolicyVersion b \<and>
     ap_LeaseID a = ap_LeaseID b \<and> ap_DelegationKeys a = ap_DelegationKeys b \<and>
     ap_Issuers a = ap_Issuers b"

datatype fold_error =
    RecordIDMismatch
  | RecordIDLess
  | GenesisOverTombstone string
  | NonPendingGenesis string
  | CoreMutated string
  | IllegalTransition Status Status
  | UnknownType string

definition approval_transition :: "ApprovalRequest \<Rightarrow> ApprovalRequest \<Rightarrow> bool" where
  "approval_transition prev a \<longleftrightarrow>
     ap_Status prev = StatusPending \<and> (ap_Status a = StatusApproved \<or> ap_Status a = StatusDenied) \<or>
     ap_Status prev = StatusApproved \<and> ap_Status a = StatusApproved \<and>
       ap_ResumedAt prev = None \<and> ap_ResumedAt a \<noteq> None \<or>
     ap_Status prev = ap_Status a \<and> ap_ResumedAt prev = None \<and> ap_ResumedAt a = None \<and>
       ap_ResolvedBy prev = ap_ResolvedBy a \<and> ap_Reason prev = ap_Reason a"

type_synonym fold_state = "approvals \<times> string list"

fun foldApproval :: "ApprovalRequest \<Rightarrow> fold_state \<Rightarrow> fold_error + fold_state" where
  "foldApproval a (items, tombs) =
     (let aid = ap_ApprovalID a in
      if aid = [] then Inl RecordIDLess
      else if aid \<in> set tombs then Inl (GenesisOverTombstone aid)
      else (case map_of items aid of
              None \<Rightarrow>
                if ap_Status a \<noteq> StatusPending then Inl (NonPendingGenesis aid)
                else Inr (AList.update aid a items, tombs)
            | Some prev \<Rightarrow>
                if \<not> sameCore prev a then Inl (CoreMutated aid)
                else if \<not> approval_transition prev a then Inl (IllegalTransition (ap_Status prev) (ap_Status a))
                else Inr (AList.update aid a items, tombs)))"

fun foldEvent :: "approval_event \<Rightarrow> fold_state \<Rightarrow> fold_error + fold_state" where
  "foldEvent (EvApproval rid a) st =
     (if rid \<noteq> ap_ApprovalID a then Inl RecordIDMismatch else foldApproval a st)"
| "foldEvent (EvTombstone rid) (items, tombs) = Inr (AList.delete rid items, rid # tombs)"
| "foldEvent EvCompact st = Inr st"
| "foldEvent EvMigration st = Inr st"
| "foldEvent (EvUnknown t) st = Inl (UnknownType t)"

text \<open>Opening a journal folds its records in order and refuses at the first that does not fold.\<close>

definition fold_journal :: "approval_event list \<Rightarrow> fold_state \<Rightarrow> fold_error + fold_state" where
  "fold_journal = fold_records foldEvent"

section \<open>Opening the store\<close>

text \<open>\<open>load\<close> puts the approvals of the legacy file into the map one by one. The file that was never
  written holds none.\<close>

definition load :: "approvals \<Rightarrow> approvals" where
  "load disk = fold (\<lambda>(_, req). AList.update (ap_ApprovalID req) req) disk []"

definition NewFileBackedStore :: "fstore \<Rightarrow> fold_error + fstore" where
  "NewFileBackedStore s =
     (if fs_journal s then
        (case fold_journal (fs_log s) ([], []) of
           Inl e \<Rightarrow> Inl e
         | Inr (items, tombs) \<Rightarrow> Inr (s \<lparr>fs_items := items, fs_tombstones := tombs\<rparr>))
      else Inr (s \<lparr>fs_items := load (fs_disk s), fs_tombstones := []\<rparr>))"

end
