(* ===== verification/Approval_Service.thy ===== *)
theory Approval_Service
  imports Approval_Store
begin

text \<open>
  Component: the approval service (\<^verbatim>\<open>internal/approval/service.go\<close>). The Go service holds a value of
  the interface type \<^verbatim>\<open>Store\<close>; here its operations are a record of functions over a store state,
  which each service operation takes as an argument, and the laws a store promises are the locale
  \<open>approval_store\<close>. The service lemmas are proved once in the locale and hold for the store in
  memory and for the file-backed store by interpretation. The clock is the argument \<open>now\<close>, a fresh
  approval id is the argument \<open>fresh\<close>, and \<open>sha\<close> is SHA-256 followed by hex encoding. Log output is
  left out.
\<close>

section \<open>The store interface\<close>

record 's approval_ops =
  op_Create :: "ApprovalRequest \<Rightarrow> 's \<Rightarrow> approval_error option \<times> 's"
  op_Get :: "string \<Rightarrow> 's \<Rightarrow> approval_error + ApprovalRequest"
  op_Resolve :: "time \<Rightarrow> string \<Rightarrow> Status \<Rightarrow> string \<Rightarrow> string \<Rightarrow> 's \<Rightarrow> (approval_error + ApprovalRequest) \<times> 's"
  op_ResolveIf :: "(time \<Rightarrow> string \<Rightarrow> Status \<Rightarrow> string \<Rightarrow> string \<Rightarrow> (ApprovalRequest \<Rightarrow> approval_error option)
     \<Rightarrow> 's \<Rightarrow> (approval_error + ApprovalRequest) \<times> 's) option"
  op_ConsumeResume :: "time \<Rightarrow> string \<Rightarrow> 's \<Rightarrow> (approval_error + ApprovalRequest) \<times> 's"
  op_ListAll :: "'s \<Rightarrow> ApprovalRequest list"
  op_ListByStatus :: "Status \<Rightarrow> 's \<Rightarrow> ApprovalRequest list"
  op_ListByDecision :: "string \<Rightarrow> 's \<Rightarrow> ApprovalRequest list"

definition mem_ops :: "approvals approval_ops" where
  "mem_ops = \<lparr>op_Create = mem_Create, op_Get = mem_Get,
     op_Resolve = (\<lambda>now aid d by' reason. mem_ResolveIf now aid d by' reason (\<lambda>_. None)),
     op_ResolveIf = Some mem_ResolveIf, op_ConsumeResume = mem_ConsumeResume,
     op_ListAll = mem_ListAll, op_ListByStatus = mem_ListByStatus, op_ListByDecision = mem_ListByDecision\<rparr>"

definition file_ops :: "write_outcome \<Rightarrow> fstore approval_ops" where
  "file_ops w = \<lparr>op_Create = file_Create w, op_Get = file_Get,
     op_Resolve = (\<lambda>now aid d by' reason. file_ResolveIf w now aid d by' reason (\<lambda>_. None)),
     op_ResolveIf = Some (file_ResolveIf w), op_ConsumeResume = file_ConsumeResume w,
     op_ListAll = (\<lambda>s. mem_ListAll (fs_items s)), op_ListByStatus = (\<lambda>st s. mem_ListByStatus st (fs_items s)),
     op_ListByDecision = (\<lambda>d s. mem_ListByDecision d (fs_items s))\<rparr>"

section \<open>The service\<close>

record service =
  sv_pendingTTL :: duration
  sv_maxPendingPerAgent :: int

definition DefaultPendingTTL :: duration where
  "DefaultPendingTTL = 10 * Minute"

definition DefaultMaxPendingPerAgent :: int where
  "DefaultMaxPendingPerAgent = 64"

definition PrincipalPendingFactor :: int where
  "PrincipalPendingFactor = 4"

definition NewService :: service where
  "NewService = \<lparr>sv_pendingTTL = DefaultPendingTTL, sv_maxPendingPerAgent = DefaultMaxPendingPerAgent\<rparr>"

definition expired :: "service \<Rightarrow> time \<Rightarrow> ApprovalRequest \<Rightarrow> bool" where
  "expired cfg now a \<longleftrightarrow>
     ap_Status a = StatusPending \<and> 0 < sv_pendingTTL cfg \<and> sv_pendingTTL cfg < time_Sub now (ap_CreatedAt a)"

definition view :: "service \<Rightarrow> time \<Rightarrow> ApprovalRequest \<Rightarrow> ApprovalRequest" where
  "view cfg now a = (if expired cfg now a then a \<lparr>ap_Status := StatusExpired\<rparr> else a)"

definition CreateApproval ::
  "'s approval_ops \<Rightarrow> time \<Rightarrow> string \<Rightarrow> CreateRequest \<Rightarrow> 's \<Rightarrow> (approval_error + ApprovalRequest) \<times> 's" where
  "CreateApproval ops now fresh req s =
     (if cr_DecisionID req = [] then (Inl DecisionIDRequired, s)
      else if cr_ActionType req = [] then (Inl ActionTypeRequired, s)
      else let approval = ToApproval now (''apr_'' @ fresh) req in
        case op_Create ops approval s of
          (Some e, s') \<Rightarrow> (Inl e, s')
        | (None, s') \<Rightarrow> (Inr approval, s'))"

definition dedupe_fields :: "string \<Rightarrow> string \<Rightarrow> string \<Rightarrow> string \<Rightarrow> (string, string) gomap \<Rightarrow> string list" where
  "dedupe_fields agent action env resource ctx =
     [agent, action, env, resource] @ concat (map (\<lambda>(k, v). [k, v]) (sorted_entries ctx))"

definition dedupeKey ::
  "(string \<Rightarrow> string) \<Rightarrow> string \<Rightarrow> string \<Rightarrow> string \<Rightarrow> string \<Rightarrow> (string, string) gomap \<Rightarrow> string" where
  "dedupeKey sha agent action env resource ctx = sha (lp_fields (dedupe_fields agent action env resource ctx))"

definition request_key :: "(string \<Rightarrow> string) \<Rightarrow> CreateRequest \<Rightarrow> string" where
  "request_key sha req =
     dedupeKey sha (cr_AgentID req) (cr_ActionType req) (cr_Environment req) (cr_Resource req) (cr_Context req)"

definition approval_key :: "(string \<Rightarrow> string) \<Rightarrow> ApprovalRequest \<Rightarrow> string" where
  "approval_key sha a =
     dedupeKey sha (ap_AgentID a) (ap_ActionType a) (ap_Environment a) (ap_Resource a) (ap_Context a)"

definition agentName :: "(string, string) gomap \<Rightarrow> string" where
  "agentName ctx = (case map_of ctx ''agent'' of None \<Rightarrow> [] | Some v \<Rightarrow> v)"

definition sortOldestFirst :: "ApprovalRequest list \<Rightarrow> ApprovalRequest list" where
  "sortOldestFirst xs = sort_key (\<lambda>a. (ap_CreatedAt a, ap_ApprovalID a)) xs"

definition svc_ListByStatus :: "service \<Rightarrow> 's approval_ops \<Rightarrow> time \<Rightarrow> Status \<Rightarrow> 's \<Rightarrow> ApprovalRequest list" where
  "svc_ListByStatus cfg ops now status s =
     (let stored = (if status = StatusExpired then StatusPending else status);
          listed = map (view cfg now) (op_ListByStatus ops stored s) in
      if stored \<noteq> StatusPending then listed
      else sortOldestFirst (filter (\<lambda>a. ap_Status a = status) listed))"

definition ListPending :: "service \<Rightarrow> 's approval_ops \<Rightarrow> time \<Rightarrow> 's \<Rightarrow> ApprovalRequest list" where
  "ListPending cfg ops now s = svc_ListByStatus cfg ops now StatusPending s"

definition approvedFor ::
  "service \<Rightarrow> (string \<Rightarrow> string) \<Rightarrow> 's approval_ops \<Rightarrow> time \<Rightarrow> CreateRequest \<Rightarrow> string \<Rightarrow> 's \<Rightarrow> ApprovalRequest option" where
  "approvedFor cfg sha ops now req key s =
     (let window = (if sv_pendingTTL cfg \<le> 0 then DefaultPendingTTL else sv_pendingTTL cfg) in
      find (\<lambda>a.
          \<not> (ap_AgentID a \<noteq> cr_AgentID req \<or> \<not> CanResume a \<or>
             (case ap_ResolvedAt a of None \<Rightarrow> True | Some t \<Rightarrow> window < time_Sub now t)) \<and>
          \<not> (ap_RequestHash a \<noteq> [] \<and> cr_RequestHash req \<noteq> [] \<and> ap_RequestHash a \<noteq> cr_RequestHash req) \<and>
          approval_key sha a = key)
        (op_ListByStatus ops StatusApproved s))"

text \<open>The loop of \<open>Open\<close> over the pending approvals: the identical one, or the counts of those of the
  named agent and of the whole principal.\<close>

fun open_scan ::
  "(string \<Rightarrow> string) \<Rightarrow> CreateRequest \<Rightarrow> nat \<Rightarrow> nat \<Rightarrow> ApprovalRequest list \<Rightarrow> ApprovalRequest + nat \<times> nat" where
  "open_scan sha req waiting principalWaiting [] = Inr (waiting, principalWaiting)"
| "open_scan sha req waiting principalWaiting (p # ps) =
     (if ap_AgentID p \<noteq> cr_AgentID req then open_scan sha req waiting principalWaiting ps
      else if approval_key sha p = request_key sha req then Inl p
      else open_scan sha req
        (if agentName (ap_Context p) = agentName (cr_Context req) then Suc waiting else waiting)
        (Suc principalWaiting) ps)"

definition Open ::
  "service \<Rightarrow> (string \<Rightarrow> string) \<Rightarrow> 's approval_ops \<Rightarrow> time \<Rightarrow> string \<Rightarrow> CreateRequest \<Rightarrow> 's
     \<Rightarrow> (approval_error + ApprovalRequest \<times> bool) \<times> 's" where
  "Open cfg sha ops now fresh req s =
     (case open_scan sha req 0 0 (ListPending cfg ops now s) of
        Inl p \<Rightarrow> (Inr (p, True), s)
      | Inr (waiting, principalWaiting) \<Rightarrow>
          (case approvedFor cfg sha ops now req (request_key sha req) s of
             Some a \<Rightarrow> (Inr (a, True), s)
           | None \<Rightarrow>
               let mx = sv_maxPendingPerAgent cfg in
               if 0 < mx \<and> (mx \<le> int waiting \<or> mx * PrincipalPendingFactor \<le> int principalWaiting)
               then (Inl ErrTooManyPending, s)
               else (case CreateApproval ops now fresh req s of
                       (Inl e, s') \<Rightarrow> (Inl e, s')
                     | (Inr a, s') \<Rightarrow> (Inr (a, False), s'))))"

definition GetApproval :: "service \<Rightarrow> 's approval_ops \<Rightarrow> time \<Rightarrow> string \<Rightarrow> 's \<Rightarrow> approval_error + ApprovalRequest" where
  "GetApproval cfg ops now aid s = map_sum id (view cfg now) (op_Get ops aid s)"

text \<open>\<open>Claim\<close> returns the approval if there is one to return, whether it was claimed, and the error.\<close>

definition Claim ::
  "service \<Rightarrow> 's approval_ops \<Rightarrow> time \<Rightarrow> string \<Rightarrow> 's
     \<Rightarrow> (ApprovalRequest option \<times> bool \<times> approval_error option) \<times> 's" where
  "Claim cfg ops now aid s =
     (case GetApproval cfg ops now aid s of
        Inl e \<Rightarrow> ((None, False, Some e), s)
      | Inr a \<Rightarrow>
          if ap_Status a \<noteq> StatusApproved then ((Some a, False, None), s)
          else (case op_ConsumeResume ops now aid s of
                  (Inl e, s') \<Rightarrow>
                    (case op_Get ops aid s' of
                       Inr cur \<Rightarrow>
                         if ap_Status cur = StatusApproved \<and> ap_ResumedAt cur \<noteq> None
                         then ((Some cur, False, Some ErrApprovalUsed), s')
                         else ((None, False, Some e), s')
                     | Inl _ \<Rightarrow> ((None, False, Some e), s'))
                | (Inr got, s') \<Rightarrow> ((Some got, True, None), s')))"

definition notExpired :: "service \<Rightarrow> time \<Rightarrow> ApprovalRequest \<Rightarrow> approval_error option" where
  "notExpired cfg now a = (if expired cfg now a then Some ErrApprovalExpired else None)"

definition svc_Approve ::
  "service \<Rightarrow> 's approval_ops \<Rightarrow> time \<Rightarrow> string \<Rightarrow> string \<Rightarrow> 's \<Rightarrow> (approval_error + ApprovalRequest) \<times> 's" where
  "svc_Approve cfg ops now aid resolvedBy s =
     (case op_ResolveIf ops of
        Some resolveIf \<Rightarrow> resolveIf now aid StatusApproved resolvedBy [] (notExpired cfg now) s
      | None \<Rightarrow>
          (case op_Get ops aid s of
             Inl e \<Rightarrow> (Inl e, s)
           | Inr cur \<Rightarrow>
               (case notExpired cfg now cur of
                  Some e \<Rightarrow> (Inl e, s)
                | None \<Rightarrow> op_Resolve ops now aid StatusApproved resolvedBy [] s)))"

definition svc_Deny ::
  "'s approval_ops \<Rightarrow> time \<Rightarrow> string \<Rightarrow> string \<Rightarrow> string \<Rightarrow> 's \<Rightarrow> (approval_error + ApprovalRequest) \<times> 's" where
  "svc_Deny ops now aid resolvedBy reason s = op_Resolve ops now aid StatusDenied resolvedBy reason s"

record ResumeResult =
  rr_ApprovalID :: string
  rr_DecisionID :: string
  rr_ActionType :: string
  rr_Resource :: string

definition ResumeAction ::
  "'s approval_ops \<Rightarrow> time \<Rightarrow> string \<Rightarrow> 's \<Rightarrow> (approval_error + ResumeResult) \<times> 's" where
  "ResumeAction ops now aid s =
     (case op_ConsumeResume ops now aid s of
        (Inl e, s') \<Rightarrow> (Inl e, s')
      | (Inr a, s') \<Rightarrow>
          (Inr \<lparr>rr_ApprovalID = aid, rr_DecisionID = ap_DecisionID a, rr_ActionType = ap_ActionType a,
                rr_Resource = ap_Resource a\<rparr>, s'))"

section \<open>Sequences of requests to the service\<close>

datatype svc_req =
    ReqOpen string CreateRequest
  | ReqApprove string string
  | ReqDeny string string string
  | ReqClaim string
  | ReqResume string

datatype svc_out = Opened string bool | Approved string | Denied string | Consumed string | NoEffect

text \<open>One request at a time \<open>now\<close>, and what the caller learns of it.\<close>

fun svc_exec ::
  "service \<Rightarrow> (string \<Rightarrow> string) \<Rightarrow> 's approval_ops \<Rightarrow> time \<times> svc_req \<Rightarrow> 's \<Rightarrow> svc_out \<times> 's" where
  "svc_exec cfg sha ops (now, ReqOpen fresh req) s =
     (case Open cfg sha ops now fresh req s of
        (Inl e, s') \<Rightarrow> (NoEffect, s')
      | (Inr (a, reused), s') \<Rightarrow> (Opened (ap_ApprovalID a) reused, s'))"
| "svc_exec cfg sha ops (now, ReqApprove aid by') s =
     (case svc_Approve cfg ops now aid by' s of
        (Inl e, s') \<Rightarrow> (NoEffect, s') | (Inr a, s') \<Rightarrow> (Approved aid, s'))"
| "svc_exec cfg sha ops (now, ReqDeny aid by' reason) s =
     (case svc_Deny ops now aid by' reason s of
        (Inl e, s') \<Rightarrow> (NoEffect, s') | (Inr a, s') \<Rightarrow> (Denied aid, s'))"
| "svc_exec cfg sha ops (now, ReqClaim aid) s =
     (case Claim cfg ops now aid s of
        ((a, claimed, err), s') \<Rightarrow> ((if claimed then Consumed aid else NoEffect), s'))"
| "svc_exec cfg sha ops (now, ReqResume aid) s =
     (case ResumeAction ops now aid s of
        (Inl e, s') \<Rightarrow> (NoEffect, s') | (Inr r, s') \<Rightarrow> (Consumed aid, s'))"

fun svc_run ::
  "service \<Rightarrow> (string \<Rightarrow> string) \<Rightarrow> 's approval_ops \<Rightarrow> (time \<times> svc_req) list \<Rightarrow> 's \<Rightarrow> svc_out list \<times> 's" where
  "svc_run cfg sha ops [] s = ([], s)"
| "svc_run cfg sha ops (r # rs) s =
     (let (o', s1) = svc_exec cfg sha ops r s; (os, s2) = svc_run cfg sha ops rs s1 in (o' # os, s2))"

end
