(* ===== verification/Approval_Laws.thy ===== *)
theory Approval_Laws
  imports Approval_Service
begin

text \<open>
  The contract of an approval store as the locale \<open>approval_store\<close>, the service lemmas proved in it,
  and its interpretations on the store in memory and on the file-backed store whose writes succeed.
  \<open>approval_step\<close> is the abstract life of one approval; every request to the service is one such step
  for every approval id.
\<close>

section \<open>The life of one approval\<close>

inductive approval_step ::
  "service \<Rightarrow> time \<Rightarrow> svc_out \<Rightarrow> string \<Rightarrow> ApprovalRequest option \<Rightarrow> ApprovalRequest option \<Rightarrow> bool" where
  keep: "out \<notin> {Opened aid False, Approved aid, Denied aid, Consumed aid} \<Longrightarrow>
    approval_step cfg now out aid x x"
| opened: "IsPending a \<Longrightarrow> ap_ResumedAt a = None \<Longrightarrow> ap_CreatedAt a = now \<Longrightarrow>
    approval_step cfg now (Opened aid False) aid None (Some a)"
| approve: "IsPending a \<Longrightarrow> \<not> expired cfg now a \<Longrightarrow>
    approval_step cfg now (Approved aid) aid (Some a) (Some (Approve_req now by' a))"
| deny: "IsPending a \<Longrightarrow>
    approval_step cfg now (Denied aid) aid (Some a) (Some (Deny_req now by' reason a))"
| consume: "CanResume a \<Longrightarrow>
    approval_step cfg now (Consumed aid) aid (Some a) (Some (MarkResumed now a))"

inductive_cases approval_step_Some: "approval_step cfg now out aid (Some a) y"
inductive_cases approval_step_None: "approval_step cfg now out aid None y"

lemmas request_updates = Approve_req_def Deny_req_def MarkResumed_def
lemmas request_tests = CanResume_def IsPending_def IsResolved_def

lemma resolve_one_approve:
  "resolve_one now StatusApproved by' reason chk a = Inr a' \<longleftrightarrow>
     IsPending a \<and> chk a = None \<and> a' = Approve_req now by' a"
  by (auto simp: resolve_one_def split: option.splits)

lemma resolve_one_deny:
  "resolve_one now StatusDenied by' reason chk a = Inr a' \<longleftrightarrow>
     IsPending a \<and> chk a = None \<and> a' = Deny_req now by' reason a"
  by (auto simp: resolve_one_def split: option.splits)

lemma resume_one_ok: "resume_one now a = Inr a' \<longleftrightarrow> CanResume a \<and> a' = MarkResumed now a"
  by (auto simp: resume_one_def)

lemma ToApproval_fresh [simp]:
  "IsPending (ToApproval now aid req)" "ap_ResumedAt (ToApproval now aid req) = None"
  "ap_CreatedAt (ToApproval now aid req) = now" "ap_ApprovalID (ToApproval now aid req) = aid"
  by (simp_all add: ToApproval_def IsPending_def)

lemma notExpired_None: "notExpired cfg now a = None \<longleftrightarrow> \<not> expired cfg now a"
  by (simp add: notExpired_def)

section \<open>The contract of a store\<close>

locale approval_store =
  fixes ops :: "'s approval_ops"
    and look :: "'s \<Rightarrow> string \<Rightarrow> ApprovalRequest option"
    and inv :: "'s \<Rightarrow> bool"
  assumes get_law: "inv s \<Longrightarrow>
      op_Get ops aid s = (case look s aid of None \<Rightarrow> Inl (NotFound aid) | Some a \<Rightarrow> Inr a)"
    and look_id: "inv s \<Longrightarrow> look s aid = Some a \<Longrightarrow> ap_ApprovalID a = aid"
    and create_ok: "inv s \<Longrightarrow> op_Create ops a s = (None, s') \<Longrightarrow>
      inv s' \<and> look s (ap_ApprovalID a) = None \<and> look s' = (look s)(ap_ApprovalID a \<mapsto> a)"
    and create_err: "inv s \<Longrightarrow> op_Create ops a s = (Some e, s') \<Longrightarrow> inv s' \<and> look s' = look s"
    and resolve_ok: "inv s \<Longrightarrow> op_ResolveIf ops = Some f \<Longrightarrow> f now aid d by' reason chk s = (Inr a', s') \<Longrightarrow>
      inv s' \<and> (\<exists>a. look s aid = Some a \<and> resolve_one now d by' reason chk a = Inr a') \<and>
      look s' = (look s)(aid \<mapsto> a')"
    and resolve_err: "inv s \<Longrightarrow> op_ResolveIf ops = Some f \<Longrightarrow> f now aid d by' reason chk s = (Inl e, s') \<Longrightarrow>
      inv s' \<and> look s' = look s"
    and plain_ok: "inv s \<Longrightarrow> op_Resolve ops now aid d by' reason s = (Inr a', s') \<Longrightarrow>
      inv s' \<and> (\<exists>a. look s aid = Some a \<and> resolve_one now d by' reason (\<lambda>_. None) a = Inr a') \<and>
      look s' = (look s)(aid \<mapsto> a')"
    and plain_err: "inv s \<Longrightarrow> op_Resolve ops now aid d by' reason s = (Inl e, s') \<Longrightarrow>
      inv s' \<and> look s' = look s"
    and consume_ok: "inv s \<Longrightarrow> op_ConsumeResume ops now aid s = (Inr a', s') \<Longrightarrow>
      inv s' \<and> (\<exists>a. look s aid = Some a \<and> resume_one now a = Inr a') \<and> look s' = (look s)(aid \<mapsto> a')"
    and consume_err: "inv s \<Longrightarrow> op_ConsumeResume ops now aid s = (Inl e, s') \<Longrightarrow>
      inv s' \<and> look s' = look s"
    and list_law: "inv s \<Longrightarrow>
      a \<in> set (op_ListByStatus ops st s) \<longleftrightarrow> ap_Status a = st \<and> (\<exists>aid. look s aid = Some a)"
begin

lemma step_unchanged:
  "look s' = look s \<Longrightarrow> \<forall>aid. out \<notin> {Opened aid False, Approved aid, Denied aid, Consumed aid} \<Longrightarrow>
   \<forall>aid. approval_step cfg now out aid (look s aid) (look s' aid)"
  by (auto intro: keep)

lemma create_step:
  assumes "inv s" "CreateApproval ops now fresh req s = (r, s')"
  shows "inv s' \<and> (case r of
      Inl e \<Rightarrow> look s' = look s
    | Inr a \<Rightarrow> IsPending a \<and> ap_ResumedAt a = None \<and> ap_CreatedAt a = now \<and>
        look s (ap_ApprovalID a) = None \<and> look s' = (look s)(ap_ApprovalID a \<mapsto> a))"
  using assms create_ok [OF assms(1), of "ToApproval now (''apr_'' @ fresh) req"]
    create_err [OF assms(1), of "ToApproval now (''apr_'' @ fresh) req"]
  by (auto simp: CreateApproval_def Let_def split: if_splits prod.splits option.splits)

lemma open_step:
  assumes "inv s" "Open cfg sha ops now fresh req s = (r, s')"
  shows "inv s' \<and> (case r of
      Inl e \<Rightarrow> look s' = look s
    | Inr (a, reused) \<Rightarrow>
        if reused then look s' = look s
        else IsPending a \<and> ap_ResumedAt a = None \<and> ap_CreatedAt a = now \<and>
          look s (ap_ApprovalID a) = None \<and> look s' = (look s)(ap_ApprovalID a \<mapsto> a))"
proof (cases "CreateApproval ops now fresh req s")
  case (Pair r0 s0)
  from create_step [OF assms(1) Pair] assms Pair show ?thesis
    by (auto simp: Open_def Let_def split: sum.splits prod.splits option.splits if_splits)
qed

lemma approve_step:
  assumes "inv s" "svc_Approve cfg ops now aid by' s = (r, s')"
  shows "inv s' \<and> (case r of
      Inl e \<Rightarrow> look s' = look s
    | Inr a' \<Rightarrow> \<exists>a. look s aid = Some a \<and> IsPending a \<and> \<not> expired cfg now a \<and>
        look s' = (look s)(aid \<mapsto> Approve_req now by' a))"
proof (cases "op_ResolveIf ops")
  case None
  have "inv s' \<and> look s' = look s" if "r = Inl e" for e
    using that assms None plain_err [OF assms(1)]
    by (auto simp: svc_Approve_def split: sum.splits option.splits)
  moreover have "inv s' \<and> (\<exists>a. look s aid = Some a \<and> IsPending a \<and> \<not> expired cfg now a \<and>
      look s' = (look s)(aid \<mapsto> Approve_req now by' a))" if "r = Inr a'" for a'
    using that assms None plain_ok [OF assms(1)] get_law [OF assms(1), of aid]
    by (fastforce simp: svc_Approve_def resolve_one_approve notExpired_None split: sum.splits option.splits)
  ultimately show ?thesis by (cases r) auto
next
  case (Some f)
  have f: "f now aid StatusApproved by' [] (notExpired cfg now) s = (r, s')"
    using assms(2) Some by (simp add: svc_Approve_def)
  show ?thesis
  proof (cases r)
    case (Inl e)
    with resolve_err [OF assms(1) Some] f show ?thesis by auto
  next
    case (Inr a')
    with resolve_ok [OF assms(1) Some] f show ?thesis
      by (fastforce simp: resolve_one_approve notExpired_None)
  qed
qed

lemma deny_step:
  assumes "inv s" "svc_Deny ops now aid by' reason s = (r, s')"
  shows "inv s' \<and> (case r of
      Inl e \<Rightarrow> look s' = look s
    | Inr a' \<Rightarrow> \<exists>a. look s aid = Some a \<and> IsPending a \<and> look s' = (look s)(aid \<mapsto> Deny_req now by' reason a))"
  using assms plain_ok [OF assms(1)] plain_err [OF assms(1)]
  by (cases r) (fastforce simp: svc_Deny_def resolve_one_deny)+

lemma consume_step:
  assumes "inv s" "op_ConsumeResume ops now aid s = (r, s')"
  shows "inv s' \<and> (case r of
      Inl e \<Rightarrow> look s' = look s
    | Inr a' \<Rightarrow> \<exists>a. look s aid = Some a \<and> CanResume a \<and> look s' = (look s)(aid \<mapsto> MarkResumed now a))"
  using assms consume_ok [OF assms(1)] consume_err [OF assms(1)]
  by (cases r) (fastforce simp: resume_one_ok)+

lemma claim_step:
  assumes "inv s" "Claim cfg ops now aid s = ((a0, claimed, err), s')"
  shows "inv s' \<and> (if claimed
    then \<exists>a. look s aid = Some a \<and> CanResume a \<and> look s' = (look s)(aid \<mapsto> MarkResumed now a)
    else look s' = look s)"
proof (cases "op_ConsumeResume ops now aid s")
  case (Pair r s1)
  from consume_step [OF assms(1) Pair] assms Pair show ?thesis
    by (auto simp: Claim_def split: sum.splits prod.splits if_splits)
qed

text \<open>Every request is a step of the life of every approval.\<close>

lemma exec_step:
  assumes "inv s" "svc_exec cfg sha ops (now, rq) s = (out, s')"
  shows "inv s' \<and> (\<forall>aid. approval_step cfg now out aid (look s aid) (look s' aid))"
proof (cases rq)
  case (ReqOpen fresh req)
  obtain r s1 where "Open cfg sha ops now fresh req s = (r, s1)" by force
  note step = open_step [OF assms(1) this] and run = this
  show ?thesis
  proof (cases "\<exists>a. r = Inr (a, False)")
    case True
    with step run assms(2) show ?thesis by (auto simp: ReqOpen intro: keep opened)
  next
    case False
    with step run assms(2) have "inv s' \<and> look s' = look s" "\<forall>aid. out \<noteq> Opened aid False"
      "\<forall>aid. out \<notin> {Approved aid, Denied aid, Consumed aid}"
      by (auto simp: ReqOpen split: sum.splits if_splits)
    then show ?thesis using step_unchanged by auto
  qed
next
  case (ReqApprove aid by')
  obtain r s1 where "svc_Approve cfg ops now aid by' s = (r, s1)" by force
  with approve_step [OF assms(1) this] assms(2) show ?thesis
    by (auto simp: ReqApprove intro: approval_step.intros split: sum.splits)
next
  case (ReqDeny aid by' reason)
  obtain r s1 where "svc_Deny ops now aid by' reason s = (r, s1)" by force
  with deny_step [OF assms(1) this] assms(2) show ?thesis
    by (auto simp: ReqDeny intro: approval_step.intros split: sum.splits)
next
  case (ReqClaim aid)
  obtain a0 claimed err s1 where "Claim cfg ops now aid s = ((a0, claimed, err), s1)"
    by (metis prod.exhaust)
  with claim_step [OF assms(1) this] assms(2) show ?thesis
    by (auto simp: ReqClaim intro: approval_step.intros split: if_splits)
next
  case (ReqResume aid)
  obtain r s1 where "op_ConsumeResume ops now aid s = (r, s1)" by force
  with consume_step [OF assms(1) this] assms(2) show ?thesis
    by (auto simp: ReqResume ResumeAction_def intro: approval_step.intros split: sum.splits)
qed

lemma run_inv:
  "inv s \<Longrightarrow> inv (snd (svc_run cfg sha ops rs s))"
proof (induction rs arbitrary: s)
  case Nil
  then show ?case by simp
next
  case (Cons r rs)
  obtain now rq where r: "r = (now, rq)" by (cases r)
  obtain out s1 where e: "svc_exec cfg sha ops (now, rq) s = (out, s1)" by force
  from Cons.IH [of s1] exec_step [OF Cons.prems e] show ?case
    by (auto simp: r e split: prod.splits)
qed

text \<open>A run decreases a measure of what can still happen to an approval: \<open>pot\<close> bounds how often an
  output of the kind \<open>hit\<close> occurs.\<close>

lemma run_count_le:
  assumes drop: "\<And>now out x y. approval_step cfg now out aid x y \<Longrightarrow> (if hit out then Suc (pot y) \<le> pot x else pot y \<le> (pot x :: nat))"
    and "inv s"
  shows "length (filter hit (fst (svc_run cfg sha ops rs s))) \<le> pot (look s aid)"
  using assms(2)
proof (induction rs arbitrary: s)
  case Nil
  then show ?case by simp
next
  case (Cons r rs)
  obtain now rq where r: "r = (now, rq)" by (cases r)
  obtain out s1 where e: "svc_exec cfg sha ops (now, rq) s = (out, s1)" by force
  from exec_step [OF Cons.prems e] have s1: "inv s1"
    and st: "approval_step cfg now out aid (look s aid) (look s1 aid)" by auto
  from Cons.IH [OF s1] drop [OF st] show ?case
    by (auto simp: r e split: prod.splits if_splits)
qed

lemma run_consumed_once:
  assumes "inv s"
  shows "length (filter (\<lambda>x. x = Consumed aid) (fst (svc_run cfg sha ops rs s))) \<le> 1"
proof -
  let ?pot = "\<lambda>x. case x of None \<Rightarrow> 1 | Some a \<Rightarrow> if ap_ResumedAt a = None then 1 else (0::nat)"
  have "length (filter (\<lambda>x. x = Consumed aid) (fst (svc_run cfg sha ops rs s))) \<le> ?pot (look s aid)"
    by (rule run_count_le [OF _ assms])
       (auto elim!: approval_step.cases simp: request_updates request_tests split: option.splits)
  also have "\<dots> \<le> 1" by (simp split: option.splits)
  finally show ?thesis .
qed

lemma run_resolved_once:
  assumes "inv s"
  shows "length (filter (\<lambda>x. x = Approved aid \<or> x = Denied aid) (fst (svc_run cfg sha ops rs s))) \<le> 1"
proof -
  let ?pot = "\<lambda>x. case x of None \<Rightarrow> 1 | Some a \<Rightarrow> if IsPending a then 1 else (0::nat)"
  have "length (filter (\<lambda>x. x = Approved aid \<or> x = Denied aid) (fst (svc_run cfg sha ops rs s))) \<le> ?pot (look s aid)"
    by (rule run_count_le [OF _ assms])
       (auto elim!: approval_step.cases simp: request_updates request_tests split: option.splits)
  also have "\<dots> \<le> 1" by (simp split: option.splits)
  finally show ?thesis .
qed

text \<open>What is consumed was approved before.\<close>

lemma run_consumed_after_approved:
  assumes "inv s" "\<And>a. look s aid = Some a \<Longrightarrow> ap_Status a \<noteq> StatusApproved"
    "Consumed aid \<in> set (fst (svc_run cfg sha ops rs s))"
  shows "Approved aid \<in> set (takeWhile (\<lambda>x. x \<noteq> Consumed aid) (fst (svc_run cfg sha ops rs s)))"
  using assms
proof (induction rs arbitrary: s)
  case Nil
  then show ?case by simp
next
  case (Cons r rs)
  obtain now rq where r: "r = (now, rq)" by (cases r)
  obtain out s1 where e: "svc_exec cfg sha ops (now, rq) s = (out, s1)" by force
  from exec_step [OF Cons.prems(1) e] have s1: "inv s1"
    and st: "approval_step cfg now out aid (look s aid) (look s1 aid)" by auto
  have out: "out \<noteq> Consumed aid"
    using st Cons.prems(2) by (auto elim!: approval_step.cases simp: CanResume_def)
  show ?case
  proof (cases "out = Approved aid")
    case True
    then show ?thesis by (simp add: r e split: prod.splits)
  next
    case False
    have "\<And>a. look s1 aid = Some a \<Longrightarrow> ap_Status a \<noteq> StatusApproved"
      using st Cons.prems(2) False out
      by (auto elim!: approval_step.cases simp: request_updates request_tests)
    with Cons.IH [OF s1] Cons.prems(3) out show ?thesis by (auto simp: r e split: prod.splits)
  qed
qed

end

section \<open>The two stores satisfy the contract\<close>

definition items_ok :: "approvals \<Rightarrow> bool" where
  "items_ok items \<longleftrightarrow> map_ok items \<and> (\<forall>(k, a)\<in>set items. ap_ApprovalID a = k)"

lemma items_ok_Nil [simp]: "items_ok []"
  by (simp add: items_ok_def)

lemma items_ok_look: "items_ok items \<Longrightarrow> map_of items aid = Some a \<Longrightarrow> ap_ApprovalID a = aid"
  by (auto simp: items_ok_def dest!: map_of_SomeD)

lemma items_ok_iff:
  "items_ok items \<longleftrightarrow> map_ok items \<and> (\<forall>aid a. map_of items aid = Some a \<longrightarrow> ap_ApprovalID a = aid)"
  by (auto simp: items_ok_def map_ok_in_iff dest!: map_of_SomeD)

lemma items_ok_update: "items_ok items \<Longrightarrow> ap_ApprovalID a = aid \<Longrightarrow> items_ok (AList.update aid a items)"
  by (auto simp: items_ok_iff)

lemma items_ok_delete: "items_ok items \<Longrightarrow> items_ok (AList.delete aid items)"
  by (auto simp: items_ok_iff)

lemma resolve_one_id: "resolve_one now d by' reason chk a = Inr a' \<Longrightarrow> ap_ApprovalID a' = ap_ApprovalID a"
  by (auto simp: resolve_one_def request_updates split: if_splits option.splits Status.splits)

lemma resume_one_id: "resume_one now a = Inr a' \<Longrightarrow> ap_ApprovalID a' = ap_ApprovalID a"
  by (auto simp: resume_one_def request_updates split: if_splits)

lemma items_ok_resolve:
  "items_ok items \<Longrightarrow> map_of items aid = Some a \<Longrightarrow> resolve_one now d by' reason chk a = Inr a' \<Longrightarrow>
   items_ok (AList.update aid a' items)"
  using items_ok_look resolve_one_id by (intro items_ok_update) fastforce+

lemma items_ok_resume:
  "items_ok items \<Longrightarrow> map_of items aid = Some a \<Longrightarrow> resume_one now a = Inr a' \<Longrightarrow>
   items_ok (AList.update aid a' items)"
  using items_ok_look resume_one_id by (intro items_ok_update) fastforce+

lemma items_ok_list: "items_ok items \<Longrightarrow> a \<in> set (map snd items) \<longleftrightarrow> (\<exists>aid. map_of items aid = Some a)"
  by (force simp: items_ok_iff simp flip: map_ok_in_iff)

interpretation memory: approval_store mem_ops map_of items_ok
proof (unfold_locales, goal_cases)
  case (1 s aid)
  then show ?case by (simp add: mem_ops_def mem_Get_def)
next
  case (2 s aid a)
  then show ?case by (rule items_ok_look)
next
  case (3 s a s')
  then show ?case by (auto simp: mem_ops_def mem_Create_def items_ok_update split: if_splits)
next
  case (4 s a e s')
  then show ?case by (auto simp: mem_ops_def mem_Create_def split: if_splits)
next
  case (5 s f now aid d by' reason chk a' s')
  then show ?case
    by (auto simp: mem_ops_def mem_ResolveIf_def intro: items_ok_resolve
        split: option.splits sum.splits)
next
  case (6 s f now aid d by' reason chk e s')
  then show ?case by (auto simp: mem_ops_def mem_ResolveIf_def split: option.splits sum.splits)
next
  case (7 s now aid d by' reason a' s')
  then show ?case
    by (auto simp: mem_ops_def mem_ResolveIf_def intro: items_ok_resolve
        split: option.splits sum.splits)
next
  case (8 s now aid d by' reason e s')
  then show ?case by (auto simp: mem_ops_def mem_ResolveIf_def split: option.splits sum.splits)
next
  case (9 s now aid a' s')
  then show ?case
    by (auto simp: mem_ops_def mem_ConsumeResume_def intro: items_ok_resume
        split: option.splits sum.splits)
next
  case (10 s now aid e s')
  then show ?case by (auto simp: mem_ops_def mem_ConsumeResume_def split: option.splits sum.splits)
next
  case (11 s a st)
  then show ?case using items_ok_list [of s a] by (auto simp: mem_ops_def mem_ListByStatus_def)
qed

lemmas file_writes = appendLocked_def persistAll_def put_item_def

interpretation journal: approval_store "file_ops WriteOk" "\<lambda>s. map_of (fs_items s)" "\<lambda>s. items_ok (fs_items s)"
proof (unfold_locales, goal_cases)
  case (1 s aid)
  then show ?case by (simp add: file_ops_def file_Get_def mem_Get_def)
next
  case (2 s aid a)
  then show ?case by (rule items_ok_look)
next
  case (3 s a s')
  then show ?case
    by (auto simp: file_ops_def file_Create_def Let_def file_writes items_ok_update split: if_splits)
next
  case (4 s a e s')
  then show ?case by (auto simp: file_ops_def file_Create_def Let_def file_writes split: if_splits)
next
  case (5 s f now aid d by' reason chk a' s')
  then show ?case
    using items_ok_resolve [of "fs_items s" aid _ now d by' reason chk a']
    by (auto simp: file_ops_def file_ResolveIf_def Let_def file_writes split: option.splits sum.splits if_splits)
next
  case (6 s f now aid d by' reason chk e s')
  then show ?case
    by (auto simp: file_ops_def file_ResolveIf_def Let_def file_writes split: option.splits sum.splits if_splits)
next
  case (7 s now aid d by' reason a' s')
  then show ?case
    by (auto simp: file_ops_def file_ResolveIf_def Let_def file_writes intro: items_ok_resolve split: option.splits sum.splits if_splits)
next
  case (8 s now aid d by' reason e s')
  then show ?case
    by (auto simp: file_ops_def file_ResolveIf_def Let_def file_writes split: option.splits sum.splits if_splits)
next
  case (9 s now aid a' s')
  then show ?case
    by (auto simp: file_ops_def file_ConsumeResume_def Let_def file_writes intro: items_ok_resume split: option.splits sum.splits if_splits)
next
  case (10 s now aid e s')
  then show ?case
    by (auto simp: file_ops_def file_ConsumeResume_def Let_def split: option.splits sum.splits)
next
  case (11 s a st)
  then show ?case using items_ok_list [of "fs_items s" a] by (auto simp: file_ops_def mem_ListByStatus_def)
qed

end
