(* ===== verification/Approval_Properties.thy ===== *)
theory Approval_Properties
  imports Approval_Laws "HOL-Library.Multiset"
begin

text \<open>
  Properties of approvals: single resolution and single use over every sequence of requests and restarts, the cap
  and the reuse of \<open>Open\<close>, recovery of the file-backed store from its journal, what a journal that
  folds says of each approval, and what a failed write leaves behind.
\<close>

section \<open>The fold\<close>

lemma sameCore_refl [simp]: "sameCore a a"
  by (simp add: sameCore_def)

lemma sameCore_trans: "sameCore a b \<Longrightarrow> sameCore b c \<Longrightarrow> sameCore a c"
  by (simp add: sameCore_def)

lemma foldApproval_ok:
  assumes "foldApproval a (items, tombs) = Inr (items', tombs')"
  shows "tombs' = tombs \<and>
    map_of items' = (map_of items)(ap_ApprovalID a \<mapsto> a) \<and>
    (case map_of items (ap_ApprovalID a) of
       None \<Rightarrow> IsPending a | Some p \<Rightarrow> sameCore p a \<and> approval_transition p a)"
  using assms
  by (auto simp: Let_def IsPending_def split: if_splits option.splits)

interpretation approval_journal:
  record_journal ap_ApprovalID sameCore "\<lambda>_. IsPending" approval_transition foldApproval
proof (unfold_locales, goal_cases)
  case (1 r)
  then show ?case by simp
next
  case (2 a b c)
  then show ?case by (rule sameCore_trans)
next
  case (3 r items tombs items' tombs')
  then show ?case by (rule foldApproval_ok)
qed

section \<open>Recovery from the journal\<close>

datatype journal_op =
    JCreate time string CreateRequest
  | JResolve time string Status string string
  | JConsume time string
  | JDelete string

fun journal_apply :: "journal_op \<Rightarrow> fstore \<Rightarrow> fstore" where
  "journal_apply (JCreate now aid c) s = snd (file_Create WriteOk (ToApproval now aid c) s)"
| "journal_apply (JResolve now aid d by' reason) s = snd (file_ResolveIf WriteOk now aid d by' reason (\<lambda>_. None) s)"
| "journal_apply (JConsume now aid) s = snd (file_ConsumeResume WriteOk now aid s)"
| "journal_apply (JDelete aid) s = snd (file_Delete WriteOk aid s)"

definition empty_store :: "bool \<Rightarrow> fstore" where
  "empty_store journal = \<lparr>fs_journal = journal, fs_items = [], fs_tombstones = [], fs_log = [], fs_disk = []\<rparr>"

definition empty_journal :: fstore where
  "empty_journal = empty_store True"

definition journal_ok :: "fstore \<Rightarrow> bool" where
  "journal_ok s \<longleftrightarrow> fs_journal s \<and> items_ok (fs_items s) \<and>
     (\<forall>aid\<in>dom (map_of (fs_items s)). aid \<noteq> [] \<and> aid \<notin> set (fs_tombstones s)) \<and>
     fold_journal (fs_log s) ([], []) = Inr (fs_items s, fs_tombstones s)"

lemma journal_okD: "journal_ok s \<Longrightarrow> fs_journal s" "journal_ok s \<Longrightarrow> items_ok (fs_items s)"
  by (simp_all add: journal_ok_def)

lemma fold_journal_snoc:
  "fold_journal (evs @ [ev]) st = (case fold_journal evs st of Inl e \<Rightarrow> Inl e | Inr st' \<Rightarrow> foldEvent ev st')"
  by (simp add: fold_journal_def fold_records_snoc)

lemma resolve_one_folds:
  assumes "resolve_one now d by' reason chk a = Inr a'"
  shows "sameCore a a' \<and> approval_transition a a'"
  using assms
  by (auto simp: resolve_one_def request_updates sameCore_def approval_transition_def IsPending_def
      split: if_splits option.splits Status.splits)

lemma resume_one_folds:
  assumes "resume_one now a = Inr a'"
  shows "sameCore a a' \<and> approval_transition a a'"
  using assms by (auto simp: resume_one_ok request_updates sameCore_def approval_transition_def CanResume_def)

text \<open>Writing a legal successor of a stored approval keeps memory and journal in step.\<close>

lemma journal_ok_write:
  assumes ok: "journal_ok s" and a: "map_of (fs_items s) aid = Some a"
    and a': "sameCore a a'" "approval_transition a a'" "ap_ApprovalID a' = aid"
  shows "journal_ok (s \<lparr>fs_items := AList.update aid a' (fs_items s),
    fs_log := fs_log s @ [EvApproval (ap_ApprovalID a') a']\<rparr>)"
  using assms by (auto simp: journal_ok_def fold_journal_snoc Let_def items_ok_update)

lemma journal_ok_create:
  "journal_ok s \<Longrightarrow> IsPending a \<Longrightarrow> journal_ok (snd (file_Create WriteOk a s))"
  by (auto simp: file_Create_def Let_def file_writes journal_ok_def fold_journal_snoc items_ok_update
      IsPending_def [symmetric])

lemma journal_ok_apply: "journal_ok s \<Longrightarrow> journal_ok (journal_apply op s)"
proof (induction op s rule: journal_apply.induct)
  case (1 now aid c s)
  then show ?case by (simp add: journal_ok_create)
next
  case (2 now aid d by' reason s)
  show ?case
  proof (cases "map_of (fs_items s) aid")
    case None
    with 2 show ?thesis by (simp add: file_ResolveIf_def)
  next
    case (Some a)
    show ?thesis
    proof (cases "resolve_one now d by' reason (\<lambda>_. None) a")
      case (Inl e)
      with 2 Some show ?thesis by (simp add: file_ResolveIf_def)
    next
      case (Inr a')
      have "ap_ApprovalID a' = aid"
        using resolve_one_id [OF Inr] items_ok_look [OF journal_okD(2) [OF 2] Some] by simp
      with journal_ok_write [OF 2 Some] resolve_one_folds [OF Inr] Inr Some journal_okD [OF 2] show ?thesis
        by (simp add: file_ResolveIf_def Let_def file_writes)
    qed
  qed
next
  case (3 now aid s)
  show ?case
  proof (cases "map_of (fs_items s) aid")
    case None
    with 3 show ?thesis by (simp add: file_ConsumeResume_def)
  next
    case (Some a)
    show ?thesis
    proof (cases "resume_one now a")
      case (Inl e)
      with 3 Some show ?thesis by (simp add: file_ConsumeResume_def)
    next
      case (Inr a')
      have "ap_ApprovalID a' = aid"
        using resume_one_id [OF Inr] items_ok_look [OF journal_okD(2) [OF 3] Some] by simp
      with journal_ok_write [OF 3 Some] resume_one_folds [OF Inr] Inr Some journal_okD [OF 3] show ?thesis
        by (simp add: file_ConsumeResume_def Let_def file_writes)
    qed
  qed
next
  case (4 aid s)
  then show ?case
    by (auto simp: file_Delete_def file_writes journal_ok_def fold_journal_snoc items_ok_delete
        split: if_splits)
qed

lemma journal_ok_run: "journal_ok s \<Longrightarrow> journal_ok (fold journal_apply ops s)"
  by (induction ops arbitrary: s) (auto simp: journal_ok_apply)

section \<open>Restarts\<close>

lemma update_absent: "map_of al k = None \<Longrightarrow> AList.update k v al = al @ [(k, v)]"
  by (induction al) (auto split: if_splits)

text \<open>A store whose writes have all succeeded is what its file gives back at the next start.\<close>

definition on_disk :: "fstore \<Rightarrow> bool" where
  "on_disk s \<longleftrightarrow> (if fs_journal s then journal_ok s
     else items_ok (fs_items s) \<and> fs_disk s = fs_items s \<and> fs_tombstones s = [])"

lemma on_disk_items: "on_disk s \<Longrightarrow> items_ok (fs_items s)"
  by (auto simp: on_disk_def journal_ok_def split: if_splits)

lemma load_items:
  assumes "items_ok disk"
  shows "load disk = disk"
proof -
  have "fold (\<lambda>(_, req). AList.update (ap_ApprovalID req) req) xs acc = acc @ xs"
    if "items_ok xs" "\<forall>k\<in>fst ` set xs. map_of acc k = None" for xs acc
    using that
  proof (induction xs arbitrary: acc)
    case Nil
    then show ?case by simp
  next
    case (Cons x xs)
    obtain k req where x: "x = (k, req)" by (cases x)
    have "k \<notin> fst ` set xs" "ap_ApprovalID req = k" "items_ok xs"
      using Cons.prems(1) by (auto simp: items_ok_def map_ok_def x)
    moreover have "AList.update k req acc = acc @ [(k, req)]"
      using Cons.prems(2) by (simp add: x update_absent)
    moreover have "\<forall>j\<in>fst ` set xs. map_of (acc @ [(k, req)]) j = None"
      using Cons.prems(2) \<open>k \<notin> fst ` set xs\<close> by (auto simp: map_add_def)
    ultimately show ?case using Cons.IH [of "acc @ [(k, req)]"] by (simp add: x)
  qed
  from this [OF assms, of "[]"] show ?thesis by (simp add: load_def)
qed

lemma on_disk_reopens:
  assumes "on_disk s"
  shows "NewFileBackedStore s = Inr s"
  using assms load_items [of "fs_items s"]
  by (auto simp: on_disk_def journal_ok_def NewFileBackedStore_def split: if_splits)

lemma on_disk_create:
  assumes "on_disk s" "IsPending a"
  shows "on_disk (snd (file_Create WriteOk a s))"
proof (cases "fs_journal s")
  case True
  then have "journal_ok (snd (file_Create WriteOk a s))"
    using assms by (intro journal_ok_create) (simp_all add: on_disk_def)
  then show ?thesis by (simp add: on_disk_def journal_okD)
next
  case False
  with assms show ?thesis by (simp add: on_disk_def file_Create_def Let_def file_writes items_ok_update)
qed

lemma on_disk_write:
  assumes "on_disk s" "map_of (fs_items s) aid = Some a"
    "sameCore a a'" "approval_transition a a'" "ap_ApprovalID a' = aid"
  shows "on_disk (snd (if fs_journal s then appendLocked WriteOk (EvApproval (ap_ApprovalID a') a') (put_item aid a' s)
      else persistAll WriteOk (put_item aid a' s)))"
  using assms journal_ok_write [of s aid a a']
  by (auto simp: on_disk_def file_writes items_ok_update)

lemma on_disk_resolve:
  assumes "on_disk s"
  shows "on_disk (snd (file_ResolveIf WriteOk now aid d by' reason chk s))"
proof (cases "map_of (fs_items s) aid")
  case None
  with assms show ?thesis by (simp add: file_ResolveIf_def)
next
  case (Some a)
  show ?thesis
  proof (cases "resolve_one now d by' reason chk a")
    case (Inl e)
    with assms Some show ?thesis by (simp add: file_ResolveIf_def)
  next
    case (Inr a')
    have "ap_ApprovalID a' = aid"
      using resolve_one_id [OF Inr] items_ok_look [OF on_disk_items [OF assms] Some] by simp
    with on_disk_write [OF assms Some, of a'] resolve_one_folds [OF Inr] Inr Some show ?thesis
      by (cases "fs_journal s") (simp_all add: file_ResolveIf_def Let_def file_writes)
  qed
qed

lemma on_disk_consume:
  assumes "on_disk s"
  shows "on_disk (snd (file_ConsumeResume WriteOk now aid s))"
proof (cases "map_of (fs_items s) aid")
  case None
  with assms show ?thesis by (simp add: file_ConsumeResume_def)
next
  case (Some a)
  show ?thesis
  proof (cases "resume_one now a")
    case (Inl e)
    with assms Some show ?thesis by (simp add: file_ConsumeResume_def)
  next
    case (Inr a')
    have "ap_ApprovalID a' = aid"
      using resume_one_id [OF Inr] items_ok_look [OF on_disk_items [OF assms] Some] by simp
    with on_disk_write [OF assms Some] resume_one_folds [OF Inr] Inr Some show ?thesis
      by (simp add: file_ConsumeResume_def Let_def)
  qed
qed

lemmas service_ops = svc_Approve_def svc_Deny_def Claim_def ResumeAction_def CreateApproval_def Open_def

lemma on_disk_exec:
  assumes "on_disk s"
  shows "on_disk (snd (svc_exec cfg sha (file_ops WriteOk) (now, rq) s))"
proof (cases rq)
  case (ReqOpen fresh req)
  then show ?thesis
    using assms on_disk_create [OF assms, of "ToApproval now (''apr_'' @ fresh) req"]
    by (auto simp: service_ops file_ops_def Let_def split: sum.splits prod.splits option.splits if_splits)
next
  case (ReqApprove aid by')
  then show ?thesis
    using on_disk_resolve [OF assms, of now aid StatusApproved by' "[]" "notExpired cfg now"]
    by (auto simp: service_ops file_ops_def split: sum.splits prod.splits)
next
  case (ReqDeny aid by' reason)
  then show ?thesis
    using on_disk_resolve [OF assms, of now aid StatusDenied by' reason "\<lambda>_. None"]
    by (auto simp: service_ops file_ops_def split: sum.splits prod.splits)
next
  case (ReqClaim aid)
  then show ?thesis
    using assms on_disk_consume [OF assms, of now aid]
    by (auto simp: service_ops file_ops_def split: sum.splits prod.splits if_splits)
next
  case (ReqResume aid)
  then show ?thesis
    using on_disk_consume [OF assms, of now aid]
    by (auto simp: service_ops file_ops_def split: sum.splits prod.splits)
qed

text \<open>A life of the gateway over its file: requests, each with the outcome of its write, and restarts.
  A store that does not open ends it.\<close>

datatype gw_event = GwServe write_outcome time svc_req | GwRestart

fun gw_run :: "service \<Rightarrow> (string \<Rightarrow> string) \<Rightarrow> gw_event list \<Rightarrow> fstore \<Rightarrow> svc_out list" where
  "gw_run cfg sha [] s = []"
| "gw_run cfg sha (GwServe w now rq # es) s =
     (let (out, s1) = svc_exec cfg sha (file_ops w) (now, rq) s in out # gw_run cfg sha es s1)"
| "gw_run cfg sha (GwRestart # es) s =
     (case NewFileBackedStore s of Inl e \<Rightarrow> [] | Inr s1 \<Rightarrow> gw_run cfg sha es s1)"

fun written :: "gw_event \<Rightarrow> bool" where
  "written (GwServe w now rq) \<longleftrightarrow> w = WriteOk"
| "written GwRestart \<longleftrightarrow> True"

fun served :: "gw_event list \<Rightarrow> (time \<times> svc_req) list" where
  "served [] = []"
| "served (GwServe w now rq # es) = (now, rq) # served es"
| "served (GwRestart # es) = served es"

text \<open>With every write successful a restart changes nothing.\<close>

lemma gw_run_written:
  "on_disk s \<Longrightarrow> list_all written es \<Longrightarrow>
   gw_run cfg sha es s = fst (svc_run cfg sha (file_ops WriteOk) (served es) s)"
proof (induction es arbitrary: s rule: served.induct)
  case 1
  then show ?case by simp
next
  case (2 w now rq es)
  then show ?case
    using on_disk_exec [OF 2(2), of cfg sha now rq]
    by (auto simp: case_prod_beta Let_def)
next
  case (3 es)
  then show ?case by (simp add: on_disk_reopens)
qed

text \<open>A failed write: the caller sees no effect, and the approvals in memory are as before or as after
  the successful call.\<close>

lemma create_any_write:
  assumes "CreateApproval (file_ops w) now fresh req s = (r, s')"
    and "CreateApproval (file_ops WriteOk) now fresh req s = (r1, s1)"
  shows "(r = r1 \<and> fs_items s' = fs_items s1) \<or>
    ((\<exists>e. r = Inl e) \<and> (fs_items s' = fs_items s \<or> fs_items s' = fs_items s1))"
proof -
  let ?a = "ToApproval now (''apr_'' @ fresh) req"
  obtain x t x1 t1 where f: "file_Create w ?a s = (x, t)" "file_Create WriteOk ?a s = (x1, t1)" by force
  then have "x = x1 \<and> fs_items t = fs_items t1 \<or>
      x \<noteq> None \<and> (fs_items t = fs_items s \<or> fs_items t = fs_items t1)"
    by (cases w) (auto simp: file_Create_def Let_def file_writes split: if_splits)
  with f assms show ?thesis
    by (cases x; cases x1) (auto simp: CreateApproval_def file_ops_def Let_def split: if_splits)
qed

lemma exec_any_write:
  assumes "svc_exec cfg sha (file_ops w) (now, rq) s = (out, s')"
    and "svc_exec cfg sha (file_ops WriteOk) (now, rq) s = (out1, s1)"
  shows "(out = out1 \<and> fs_items s' = fs_items s1) \<or>
    (out = NoEffect \<and> (fs_items s' = fs_items s \<or> fs_items s' = fs_items s1))"
proof (cases rq)
  case (ReqOpen fresh req)
  have same: "ListPending cfg (file_ops w) now s = ListPending cfg (file_ops WriteOk) now s"
    "approvedFor cfg sha (file_ops w) now req k s = approvedFor cfg sha (file_ops WriteOk) now req k s" for k
    by (simp_all add: ListPending_def svc_ListByStatus_def approvedFor_def file_ops_def)
  obtain r s2 where c: "CreateApproval (file_ops w) now fresh req s = (r, s2)" by force
  obtain r1 s3 where c1: "CreateApproval (file_ops WriteOk) now fresh req s = (r1, s3)" by force
  from create_any_write [OF c c1] assms show ?thesis
    unfolding ReqOpen svc_exec.simps Open_def same c c1 Let_def
    by (cases r; cases r1) (auto split: sum.splits option.splits if_splits)
next
  case (ReqApprove aid by')
  with assms show ?thesis
    by (cases w) (auto simp: service_ops file_ops_def file_ResolveIf_def Let_def file_writes
        split: sum.splits option.splits if_splits)
next
  case (ReqDeny aid by' reason)
  with assms show ?thesis
    by (cases w) (auto simp: service_ops file_ops_def file_ResolveIf_def Let_def file_writes
        split: sum.splits option.splits if_splits)
next
  case (ReqClaim aid)
  with assms show ?thesis
    by (cases w) (auto simp: service_ops GetApproval_def file_ops_def file_ConsumeResume_def file_Get_def Let_def file_writes
        split: sum.splits option.splits if_splits)
next
  case (ReqResume aid)
  with assms show ?thesis
    by (cases w) (auto simp: service_ops file_ops_def file_ConsumeResume_def Let_def file_writes
        split: sum.splits option.splits if_splits)
qed

text \<open>Without a restart the approvals in memory decide, whatever the writes did.\<close>

lemma gw_run_count_le:
  assumes drop: "\<And>now out x y. approval_step cfg now out aid x y \<Longrightarrow>
      (if hit out then Suc (pot y) \<le> pot x else pot y \<le> (pot x :: nat))"
    and "\<not> hit NoEffect" "items_ok (fs_items s)" "GwRestart \<notin> set es"
  shows "length (filter hit (gw_run cfg sha es s)) \<le> pot (map_of (fs_items s) aid)"
  using assms(3,4)
proof (induction es arbitrary: s)
  case (Cons e es)
  then obtain w now rq where e: "e = GwServe w now rq" by (cases e) auto
  obtain out s' where run: "svc_exec cfg sha (file_ops w) (now, rq) s = (out, s')" by force
  obtain out1 s1 where ok: "svc_exec cfg sha (file_ops WriteOk) (now, rq) s = (out1, s1)" by force
  note any = exec_any_write [OF run ok]
  have "items_ok (fs_items s')" using any journal.exec_step [OF Cons.prems(1) ok] Cons.prems(1) by metis
  then have IH: "length (filter hit (gw_run cfg sha es s')) \<le> pot (map_of (fs_items s') aid)"
    using Cons.IH Cons.prems(2) by simp
  have st: "approval_step cfg now out1 aid (map_of (fs_items s) aid) (map_of (fs_items s1) aid)"
    using journal.exec_step [OF Cons.prems(1) ok] by blast
  have "if hit out then Suc (pot (map_of (fs_items s') aid)) \<le> pot (map_of (fs_items s) aid)
      else pot (map_of (fs_items s') aid) \<le> pot (map_of (fs_items s) aid)"
    using any drop [OF st] assms(2) by (auto split: if_splits)
  with IH show ?case by (auto simp: e run split: if_splits)
qed simp

lemma gw_run_consumed_once:
  assumes "items_ok (fs_items s)" "GwRestart \<notin> set es"
  shows "length (filter (\<lambda>x. x = Consumed aid) (gw_run cfg sha es s)) \<le> 1"
proof -
  let ?pot = "\<lambda>x. case x of None \<Rightarrow> 1 | Some a \<Rightarrow> if ap_ResumedAt a = None then 1 else (0::nat)"
  have "length (filter (\<lambda>x. x = Consumed aid) (gw_run cfg sha es s)) \<le> ?pot (map_of (fs_items s) aid)"
    by (rule gw_run_count_le [OF _ _ assms])
       (auto elim!: approval_step.cases simp: request_updates request_tests split: option.splits)
  also have "\<dots> \<le> 1" by (simp split: option.splits)
  finally show ?thesis .
qed

section \<open>Opening an approval\<close>

definition waiting_of :: "service \<Rightarrow> time \<Rightarrow> string \<Rightarrow> approvals \<Rightarrow> ApprovalRequest list" where
  "waiting_of cfg now agent items =
     filter (\<lambda>a. IsPending a \<and> \<not> expired cfg now a \<and> ap_AgentID a = agent) (map snd items)"

definition waiting_named :: "service \<Rightarrow> time \<Rightarrow> string \<Rightarrow> string \<Rightarrow> approvals \<Rightarrow> ApprovalRequest list" where
  "waiting_named cfg now agent name items =
     filter (\<lambda>a. agentName (ap_Context a) = name) (waiting_of cfg now agent items)"

lemma ListPending_mset:
  "mset (ListPending cfg mem_ops now items) =
     mset (filter (\<lambda>a. IsPending a \<and> \<not> expired cfg now a) (map snd items))"
proof -
  have "filter (\<lambda>a. ap_Status a = StatusPending) (map (view cfg now) (filter (\<lambda>a. ap_Status a = StatusPending) xs)) =
      filter (\<lambda>a. IsPending a \<and> \<not> expired cfg now a) xs" for xs
    by (induction xs) (auto simp: view_def IsPending_def)
  then show ?thesis
    by (simp add: ListPending_def svc_ListByStatus_def sortOldestFirst_def mem_ops_def mem_ListByStatus_def)
qed

lemma length_filter_mset: "mset xs = mset ys \<Longrightarrow> length (filter P xs) = length (filter P ys)"
  by (metis mset_filter size_mset)

lemma open_scan_Inr:
  "open_scan sha req w p ps = Inr (w', p') \<Longrightarrow>
   w' = w + length (filter (\<lambda>a. ap_AgentID a = cr_AgentID req \<and> agentName (ap_Context a) = agentName (cr_Context req)) ps) \<and>
   p' = p + length (filter (\<lambda>a. ap_AgentID a = cr_AgentID req) ps)"
  by (induction ps arbitrary: w p) (fastforce split: if_splits)+

lemma open_scan_Inl:
  "open_scan sha req w p ps = Inl a \<Longrightarrow>
   a \<in> set ps \<and> ap_AgentID a = cr_AgentID req \<and> approval_key sha a = request_key sha req"
  by (induction ps arbitrary: w p) (auto split: if_splits)

lemma CreateApproval_mem:
  "CreateApproval mem_ops now fresh req items = (Inr a, items') \<Longrightarrow>
   a = ToApproval now (''apr_'' @ fresh) req \<and> items' = items @ [(ap_ApprovalID a, a)]"
  by (auto simp: CreateApproval_def Let_def mem_ops_def mem_Create_def update_absent split: if_splits)

lemma Open_created:
  assumes "Open cfg sha mem_ops now fresh req items = (Inr (a, False), items')" "0 < sv_maxPendingPerAgent cfg"
  shows "a = ToApproval now (''apr_'' @ fresh) req \<and> items' = items @ [(ap_ApprovalID a, a)] \<and>
    int (length (waiting_named cfg now (cr_AgentID req) (agentName (cr_Context req)) items)) < sv_maxPendingPerAgent cfg \<and>
    int (length (waiting_of cfg now (cr_AgentID req) items)) < sv_maxPendingPerAgent cfg * PrincipalPendingFactor"
proof -
  from assms obtain w p where scan: "open_scan sha req 0 0 (ListPending cfg mem_ops now items) = Inr (w, p)"
    and cap: "int w < sv_maxPendingPerAgent cfg" "int p < sv_maxPendingPerAgent cfg * PrincipalPendingFactor"
    and create: "CreateApproval mem_ops now fresh req items = (Inr a, items')"
    by (auto simp: Open_def Let_def split: sum.splits prod.splits option.splits if_splits)
  have "length (waiting_named cfg now (cr_AgentID req) (agentName (cr_Context req)) items) = w"
    "length (waiting_of cfg now (cr_AgentID req) items) = p"
    using open_scan_Inr [OF scan] length_filter_mset [OF ListPending_mset [of cfg now items]]
    by (simp_all add: waiting_named_def waiting_of_def conj_commute conj_left_commute)
  with cap CreateApproval_mem [OF create] show ?thesis by simp
qed

lemma Open_reused:
  assumes "Open cfg sha mem_ops now fresh req items = (Inr (a, True), items')"
  shows "items' = items \<and> a \<in> set (map snd items) \<and> ap_AgentID a = cr_AgentID req \<and>
    approval_key sha a = request_key sha req \<and> (IsPending a \<and> \<not> expired cfg now a \<or> CanResume a)"
proof (cases "open_scan sha req 0 0 (ListPending cfg mem_ops now items)")
  case (Inl q)
  with assms have "items' = items" "a = q" by (simp_all add: Open_def)
  moreover have "q \<in># mset (filter (\<lambda>a. IsPending a \<and> \<not> expired cfg now a) (map snd items))"
    using open_scan_Inl [OF Inl] unfolding ListPending_mset [symmetric] by simp
  ultimately show ?thesis using open_scan_Inl [OF Inl] by auto
next
  case (Inr wp)
  with assms have "approvedFor cfg sha mem_ops now req (request_key sha req) items = Some a" "items' = items"
    by (auto simp: Open_def Let_def split: prod.splits option.splits if_splits sum.splits)
  moreover from this have "a \<in> set (mem_ListByStatus StatusApproved items)" "ap_AgentID a = cr_AgentID req"
      "approval_key sha a = request_key sha req" "CanResume a"
    by (auto simp: approvedFor_def Let_def mem_ops_def dest: find_SomeD)
  ultimately show ?thesis by (auto simp: mem_ListByStatus_def)
qed

section \<open>The identity of a request\<close>

lemma concat_pairs_inj:
  "concat (map (\<lambda>(k, v). [k, v]) xs) = concat (map (\<lambda>(k, v). [k, v]) ys) \<Longrightarrow> xs = ys"
proof (induction xs arbitrary: ys)
  case Nil
  then show ?case by (cases ys) auto
next
  case (Cons x xs)
  then show ?case by (cases ys) (auto simp: case_prod_beta prod_eq_iff)
qed

lemma dedupe_fields_inj:
  assumes "dedupe_fields a1 t1 e1 r1 c1 = dedupe_fields a2 t2 e2 r2 c2"
  shows "a1 = a2 \<and> t1 = t2 \<and> e1 = e2 \<and> r1 = r2 \<and> map_of c1 = map_of c2"
proof -
  have "sorted_entries c1 = sorted_entries c2"
    using assms by (auto simp: dedupe_fields_def intro: concat_pairs_inj)
  then have "map_of c1 = map_of c2" by (metis sorted_entries_map_of)
  with assms show ?thesis by (simp add: dedupe_fields_def)
qed

section \<open>Properties\<close>

definition sample_create :: CreateRequest where
  "sample_create = \<lparr>cr_DecisionID = ''d1'', cr_ActionType = ''shell'', cr_Resource = ''ls'',
     cr_Environment = ''dev'', cr_AgentID = ''ag'', cr_TrustScore = 0, cr_TrustLevel = [],
     cr_AnomalyCodes = [], cr_ShieldActive = False, cr_Restricted = False, cr_Context = [],
     cr_RequestHash = ''h'', cr_PolicyVersion = ''v1'', cr_LeaseID = [], cr_DelegationKeys = [], cr_Issuers = []\<rparr>"

definition sample_run :: "(time \<times> svc_req) list" where
  "sample_run = [(1, ReqOpen ''x'' sample_create), (2, ReqApprove ''apr_x'' ''ann''),
     (3, ReqClaim ''apr_x''), (4, ReqClaim ''apr_x''), (5, ReqResume ''apr_x''), (6, ReqDeny ''apr_x'' ''bob'' [])]"

definition single_use :: "string \<Rightarrow> svc_out list \<Rightarrow> bool" where
  "single_use aid outs \<longleftrightarrow> length (filter (\<lambda>x. x = Consumed aid) outs) \<le> 1 \<and>
    length (filter (\<lambda>x. x = Approved aid \<or> x = Denied aid) outs) \<le> 1 \<and>
    (Consumed aid \<in> set outs \<longrightarrow> Approved aid \<in> set (takeWhile (\<lambda>x. x \<noteq> Consumed aid) outs))"

text \<open>C7: an approval is used at most once, by a claim or by a resume. With the store in memory, over
  every sequence of requests, it is resolved at most once, used at most once, and used only after it
  was approved. With the file-backed store, journal or legacy file, the same holds over every sequence
  of requests and restarts whose writes all succeed; and with writes failing at will it is still used
  at most once as long as the gateway is not restarted. A failed write followed by a restart is outside:
  \<open>unwritten_resume_claimed_again\<close> below.\<close>

theorem approval_single_use:
  "single_use aid (fst (svc_run cfg sha mem_ops rs [])) \<and>
   (list_all written es \<longrightarrow> single_use aid (gw_run cfg sha es (empty_store journal))) \<and>
   (GwRestart \<notin> set es \<longrightarrow>
      length (filter (\<lambda>x. x = Consumed aid) (gw_run cfg sha es (empty_store journal))) \<le> 1)"
proof (intro conjI impI)
  show "single_use aid (fst (svc_run cfg sha mem_ops rs []))"
    unfolding single_use_def
    using memory.run_consumed_once [OF items_ok_Nil, of aid cfg sha rs]
      memory.run_resolved_once [OF items_ok_Nil, of aid cfg sha rs]
      memory.run_consumed_after_approved [OF items_ok_Nil, of aid cfg sha rs]
    by auto
next
  let ?s = "empty_store journal"
  assume "list_all written es"
  moreover have "on_disk ?s" by (simp add: on_disk_def journal_ok_def empty_store_def fold_journal_def)
  ultimately have run: "gw_run cfg sha es ?s = fst (svc_run cfg sha (file_ops WriteOk) (served es) ?s)"
    by (intro gw_run_written)
  have "items_ok (fs_items ?s)" "\<And>a. map_of (fs_items ?s) aid \<noteq> Some a" by (simp_all add: empty_store_def)
  then show "single_use aid (gw_run cfg sha es ?s)"
    unfolding single_use_def run
    using journal.run_consumed_once [of ?s aid cfg sha "served es"]
      journal.run_resolved_once [of ?s aid cfg sha "served es"]
      journal.run_consumed_after_approved [of ?s aid cfg sha "served es"]
    by auto
next
  assume "GwRestart \<notin> set es"
  then show "length (filter (\<lambda>x. x = Consumed aid) (gw_run cfg sha es (empty_store journal))) \<le> 1"
    by (intro gw_run_consumed_once) (simp_all add: empty_store_def)
qed

definition sample_life :: "write_outcome \<Rightarrow> gw_event list" where
  "sample_life w = [GwServe WriteOk 1 (ReqOpen ''x'' sample_create), GwServe WriteOk 2 (ReqApprove ''apr_x'' ''ann''),
     GwServe w 3 (ReqClaim ''apr_x''), GwRestart, GwServe WriteOk 4 (ReqClaim ''apr_x'')]"

theorem approval_single_use_witness:
  "fst (svc_run NewService (\<lambda>x. x) mem_ops sample_run []) =
     [Opened ''apr_x'' False, Approved ''apr_x'', Consumed ''apr_x'', NoEffect, NoEffect, NoEffect] \<and>
   Consumed ''apr_x'' \<in> set (gw_run NewService (\<lambda>x. x) (sample_life WriteOk) (empty_store True)) \<and>
   single_use ''apr_x'' (gw_run NewService (\<lambda>x. x) (sample_life WriteOk) (empty_store True))"
proof -
  have "fst (svc_run NewService (\<lambda>x. x) mem_ops sample_run []) =
     [Opened ''apr_x'' False, Approved ''apr_x'', Consumed ''apr_x'', NoEffect, NoEffect, NoEffect]"
    by code_simp
  moreover have "gw_run NewService (\<lambda>x. x) (sample_life WriteOk) (empty_store True) =
     [Opened ''apr_x'' False, Approved ''apr_x'', Consumed ''apr_x'', NoEffect]"
    by code_simp
  moreover have "list_all written (sample_life WriteOk)" by (simp add: sample_life_def)
  ultimately show ?thesis
    using approval_single_use [of "''apr_x''" NewService "\<lambda>x. x" "[]" "sample_life WriteOk" True] by simp
qed

text \<open>a claim whose write fails is reported as a success and is lost by a restart: the same approval is
  then claimed a second time, with the journal and with the legacy file.\<close>

theorem unwritten_resume_claimed_again:
  "gw_run NewService (\<lambda>x. x) (sample_life WriteFailed) (empty_store True) =
     [Opened ''apr_x'' False, Approved ''apr_x'', Consumed ''apr_x'', Consumed ''apr_x''] \<and>
   gw_run NewService (\<lambda>x. x) (sample_life WriteFailed) (empty_store False) =
     [Opened ''apr_x'' False, Approved ''apr_x'', Consumed ''apr_x'', Consumed ''apr_x'']"
proof (intro conjI)
  show "gw_run NewService (\<lambda>x. x) (sample_life WriteFailed) (empty_store True) =
     [Opened ''apr_x'' False, Approved ''apr_x'', Consumed ''apr_x'', Consumed ''apr_x'']"
    by code_simp
  show "gw_run NewService (\<lambda>x. x) (sample_life WriteFailed) (empty_store False) =
     [Opened ''apr_x'' False, Approved ''apr_x'', Consumed ''apr_x'', Consumed ''apr_x'']"
    by code_simp
qed

text \<open>approving succeeds only for a stored approval that is pending and not older than the pending
  time limit, and changes that approval alone.\<close>

theorem approve_only_fresh_pending:
  assumes "items_ok items" "svc_Approve cfg mem_ops now aid by' items = (Inr a', items')"
  shows "\<exists>a. map_of items aid = Some a \<and> IsPending a \<and>
    \<not> (0 < sv_pendingTTL cfg \<and> sv_pendingTTL cfg < time_Sub now (ap_CreatedAt a)) \<and>
    map_of items' = (map_of items)(aid \<mapsto> Approve_req now by' a)"
  using memory.approve_step [OF assms] by (auto simp: expired_def IsPending_def)

definition sample_items :: approvals where
  "sample_items = [(''apr_x'', ToApproval 1 ''apr_x'' sample_create)]"

theorem approve_only_fresh_pending_witness:
  "\<exists>a' items'. svc_Approve NewService mem_ops 2 ''apr_x'' ''ann'' sample_items = (Inr a', items') \<and>
     (\<exists>a. map_of sample_items ''apr_x'' = Some a \<and> IsPending a)"
proof -
  have "items_ok sample_items"
    by (simp add: sample_items_def items_ok_def map_ok_def)
  moreover obtain a' items' where "svc_Approve NewService mem_ops 2 ''apr_x'' ''ann'' sample_items = (Inr a', items')"
  proof -
    have "is_ok (fst (svc_Approve NewService mem_ops 2 ''apr_x'' ''ann'' sample_items))" by code_simp
    then show thesis using that
      by (cases "svc_Approve NewService mem_ops 2 ''apr_x'' ''ann'' sample_items") (auto simp: is_ok_def split: sum.splits)
  qed
  ultimately show ?thesis using approve_only_fresh_pending by blast
qed

text \<open>an approval that \<open>Open\<close> creates leaves the named agent with at most the configured number of
  live pending approvals, and the whole principal with at most four times that number.\<close>

theorem open_respects_cap:
  assumes "Open cfg sha mem_ops now fresh req items = (Inr (a, False), items')" "0 < sv_maxPendingPerAgent cfg"
  shows "int (length (waiting_named cfg now (cr_AgentID req) (agentName (cr_Context req)) items')) \<le> sv_maxPendingPerAgent cfg \<and>
    int (length (waiting_of cfg now (cr_AgentID req) items')) \<le> sv_maxPendingPerAgent cfg * PrincipalPendingFactor"
proof -
  have "length (waiting_named cfg now ag nm (items @ [x])) \<le> Suc (length (waiting_named cfg now ag nm items))"
    "length (waiting_of cfg now ag (items @ [x])) \<le> Suc (length (waiting_of cfg now ag items))" for ag nm x
    by (simp_all add: waiting_named_def waiting_of_def)
  note grow = this
  have items': "items' = items @ [(ap_ApprovalID a, a)]" using Open_created [OF assms] by simp
  show ?thesis
    using Open_created [OF assms] grow(1) [of "cr_AgentID req" "agentName (cr_Context req)" "(ap_ApprovalID a, a)"]
      grow(2) [of "cr_AgentID req" "(ap_ApprovalID a, a)"]
    unfolding items' by linarith
qed

theorem open_respects_cap_witness:
  "\<exists>a items'. Open \<lparr>sv_pendingTTL = 0, sv_maxPendingPerAgent = 1\<rparr> (\<lambda>x. x) mem_ops 1 ''x'' sample_create [] = (Inr (a, False), items') \<and>
     length (waiting_of \<lparr>sv_pendingTTL = 0, sv_maxPendingPerAgent = 1\<rparr> 1 ''ag'' items') \<le> 4"
proof -
  let ?c = "\<lparr>sv_pendingTTL = 0, sv_maxPendingPerAgent = 1\<rparr> :: service"
  let ?o = "Open ?c (\<lambda>x. x) mem_ops 1 ''x'' sample_create []"
  have "case fst ?o of Inl _ \<Rightarrow> False | Inr (a, reused) \<Rightarrow> \<not> reused" by code_simp
  then obtain a items' where o: "?o = (Inr (a, False), items')"
    by (cases ?o) (auto split: sum.splits)
  have "int (length (waiting_of ?c 1 ''ag'' items')) \<le> 4"
    using open_respects_cap [OF o] by (simp add: PrincipalPendingFactor_def sample_create_def)
  with o show ?thesis by auto
qed

text \<open>an approval that \<open>Open\<close> hands back instead of asking again belongs to the same agent, is still
  waiting or approved and unused, and is for the same action, environment, resource and context,
  unless two different field sequences have the same SHA-256.\<close>

theorem open_reuses_same_request:
  assumes "Open cfg sha mem_ops now fresh req items = (Inr (a, True), items')"
    and "list_all short (dedupe_fields (ap_AgentID a) (ap_ActionType a) (ap_Environment a) (ap_Resource a) (ap_Context a))"
    and "list_all short (dedupe_fields (cr_AgentID req) (cr_ActionType req) (cr_Environment req) (cr_Resource req) (cr_Context req))"
  shows "items' = items \<and> a \<in> set (map snd items) \<and> ap_AgentID a = cr_AgentID req \<and>
    (IsPending a \<and> \<not> expired cfg now a \<or> CanResume a) \<and>
    (ap_ActionType a = cr_ActionType req \<and> ap_Environment a = cr_Environment req \<and>
     ap_Resource a = cr_Resource req \<and> map_of (ap_Context a) = map_of (cr_Context req) \<or>
     (\<exists>x y. x \<noteq> y \<and> sha x = sha y))"
proof -
  note reused = Open_reused [OF assms(1)]
  let ?fa = "dedupe_fields (ap_AgentID a) (ap_ActionType a) (ap_Environment a) (ap_Resource a) (ap_Context a)"
  let ?fr = "dedupe_fields (cr_AgentID req) (cr_ActionType req) (cr_Environment req) (cr_Resource req) (cr_Context req)"
  have "sha (lp_fields ?fa) = sha (lp_fields ?fr)"
    using reused unfolding approval_key_def request_key_def dedupeKey_def by blast
  then have "?fa = ?fr \<or> (\<exists>x y. x \<noteq> y \<and> sha x = sha y)"
    using lp_fields_inj [OF assms(2,3)] by blast
  with reused dedupe_fields_inj show ?thesis by blast
qed

theorem open_reuses_same_request_witness:
  "\<exists>a. Open NewService (\<lambda>x. x) mem_ops 2 ''y'' sample_create sample_items = (Inr (a, True), sample_items) \<and>
     ap_Resource a = cr_Resource sample_create"
proof -
  let ?o = "Open NewService (\<lambda>x. x) mem_ops 2 ''y'' sample_create sample_items"
  have "case fst ?o of Inl _ \<Rightarrow> False | Inr (a, reused) \<Rightarrow> reused" by code_simp
  then obtain a items' where o: "?o = (Inr (a, True), items')"
    by (cases ?o) (auto split: sum.splits)
  have a: "a = ToApproval 1 ''apr_x'' sample_create"
    using Open_reused [OF o] by (simp add: sample_items_def)
  have "list_all short (dedupe_fields (ap_AgentID a) (ap_ActionType a) (ap_Environment a) (ap_Resource a) (ap_Context a))"
    "list_all short (dedupe_fields (cr_AgentID sample_create) (cr_ActionType sample_create)
       (cr_Environment sample_create) (cr_Resource sample_create) (cr_Context sample_create))"
    by (simp_all add: a ToApproval_def sample_create_def dedupe_fields_def sorted_entries_def short_def)
  from open_reuses_same_request [OF o this] o a show ?thesis
    by (auto simp: ToApproval_def)
qed

text \<open>C8: after every sequence of operations with successful writes, folding the journal from the start
  gives back exactly the approvals and the tombstones in memory, so reopening the store loses and
  invents nothing.\<close>

theorem journal_recovers_store:
  "fold_journal (fs_log (fold journal_apply ops empty_journal)) ([], []) =
     Inr (fs_items (fold journal_apply ops empty_journal), fs_tombstones (fold journal_apply ops empty_journal))"
proof -
  have "journal_ok empty_journal" by (simp add: journal_ok_def empty_journal_def empty_store_def fold_journal_def)
  with journal_ok_run show ?thesis by (simp add: journal_ok_def)
qed

text \<open>in a journal of approvals that folds, the first record of an approval is pending, its
  authority-bearing fields are the same in all of its records, and once a record shows it denied
  every later one does.\<close>

theorem journal_history_sound:
  assumes "fold_records foldApproval rs ([], []) = Inr (items, tombs)"
    and "hist = history ap_ApprovalID aid rs" "i \<le> j" "j < length hist"
  shows "IsPending (hist ! 0) \<and> sameCore (hist ! 0) (hist ! j) \<and>
    (ap_Status (hist ! i) = StatusDenied \<longrightarrow> ap_Status (hist ! j) = StatusDenied) \<and>
    (ap_Status (hist ! i) = StatusApproved \<longrightarrow> ap_Status (hist ! j) = StatusApproved)"
proof -
  have ne: "hist \<noteq> []" using assms(4) by auto
  then have hd: "hd hist = hist ! 0" by (rule hd_conv_nth)
  note chain = approval_journal.history_chain [OF assms(1), of aid, folded assms(2), OF ne]
  have "ap_Status (hist ! j) = StatusDenied" if "ap_Status (hist ! i) = StatusDenied"
    by (rule approval_journal.settled [OF chain(2) _ assms(3,4), where P = "\<lambda>a. ap_Status a = StatusDenied"])
       (use that in \<open>auto simp: approval_transition_def\<close>)
  moreover have "ap_Status (hist ! j) = StatusApproved" if "ap_Status (hist ! i) = StatusApproved"
    by (rule approval_journal.settled [OF chain(2) _ assms(3,4), where P = "\<lambda>a. ap_Status a = StatusApproved"])
       (use that in \<open>auto simp: approval_transition_def\<close>)
  ultimately show ?thesis using chain assms(4) hd by (metis nth_mem)
qed

definition sample_history :: "ApprovalRequest list" where
  "sample_history = [ToApproval 1 ''apr_x'' sample_create, Deny_req 2 ''bob'' ''no'' (ToApproval 1 ''apr_x'' sample_create)]"

theorem journal_history_sound_witness:
  "\<exists>items tombs. fold_records foldApproval sample_history ([], []) = Inr (items, tombs) \<and>
     sameCore (sample_history ! 0) (sample_history ! 1)"
proof -
  have "is_ok (fold_records foldApproval sample_history ([], []))" by code_simp
  then obtain items tombs where f: "fold_records foldApproval sample_history ([], []) = Inr (items, tombs)"
    by (auto simp: is_ok_def split: sum.splits)
  have h: "sample_history = history ap_ApprovalID ''apr_x'' sample_history"
    by (simp add: history_def sample_history_def Deny_req_def)
  have "1 < length sample_history" by (simp add: sample_history_def)
  from journal_history_sound [OF f h, of 1 1, OF _ this] f show ?thesis by auto
qed

text \<open>when the write of an approval fails, the file-backed store reports the error but keeps the
  approval approved in memory, where a claim then succeeds, while the journal still shows it pending.\<close>

theorem failed_approve_takes_effect:
  assumes "map_of (fs_items s) aid = Some a" "IsPending a" "ap_ResumedAt a = None"
  shows "\<exists>s'. file_ResolveIf WriteFailed now aid StatusApproved by' [] (\<lambda>_. None) s = (Inl WriteError, s') \<and>
    fs_log s' = fs_log s \<and> fs_disk s' = fs_disk s \<and>
    is_ok (fst (file_ConsumeResume w now aid s'))"
  using assms
  by (auto simp: file_ResolveIf_def resolve_one_def Let_def file_writes file_ConsumeResume_def resume_one_def
      request_updates request_tests)

theorem failed_approve_takes_effect_witness:
  "\<exists>s'. file_ResolveIf WriteFailed 2 ''apr_x'' StatusApproved ''ann'' [] (\<lambda>_. None)
       (journal_apply (JCreate 1 ''apr_x'' sample_create) empty_journal) = (Inl WriteError, s') \<and>
     is_ok (fst (file_ConsumeResume WriteOk 2 ''apr_x'' s'))"
proof -
  let ?s = "journal_apply (JCreate 1 ''apr_x'' sample_create) empty_journal"
  have "map_of (fs_items ?s) ''apr_x'' = Some (ToApproval 1 ''apr_x'' sample_create)"
    by (simp add: file_Create_def Let_def empty_journal_def empty_store_def file_writes)
  from failed_approve_takes_effect [OF this, of 2 "''ann''" WriteOk] show ?thesis by auto
qed

end
