(* ===== verification/Continuation_Store.thy ===== *)
theory Continuation_Store
  imports Models Journal_Fold
begin

text \<open>
  Component: continuations and the store in memory (\<^verbatim>\<open>internal/continuation/store.go\<close>). A
  continuation is a queued authorization; its states and the guards of each transition are those of
  the source. An operation that the source performs under the store's lock is one function from
  the stored map to its result and the new map; the clock is the argument \<open>now\<close>.
\<close>

section \<open>Continuations\<close>

datatype State =
    StateEscalated
  | StateApproved
  | StateQueued
  | StateExecuting
  | StateDenied
  | StateResumed
  | StateExpired
  | StateExecuted
  | StateCancelled

record Continuation =
  ct_ContinuationID :: string
  ct_DecisionID :: string
  ct_ApprovalID :: string
  ct_AgentID :: string
  ct_ActionType :: string
  ct_Resource :: string
  ct_Environment :: string
  ct_State :: State
  ct_CreatedAt :: time
  ct_ApprovedAt :: "time option"
  ct_QueuedAt :: "time option"
  ct_ResumedAt :: "time option"
  ct_ExecutingAt :: "time option"
  ct_ExpiresAt :: "time option"
  ct_ExpiredAt :: "time option"
  ct_CancelledAt :: "time option"
  ct_ResolvedBy :: string
  ct_DenyReason :: string
  ct_TrustScore :: float64
  ct_TrustLevel :: string
  ct_AnomalyCodes :: "string list"
  ct_ShieldActive :: bool
  ct_Restricted :: bool
  ct_PolicyVersion :: string
  ct_CapabilityRef :: string
  ct_LeaseID :: string
  ct_DelegationKeys :: "string list"
  ct_Issuers :: "string list"
  ct_AuthorityExpiresAt :: "time option"
  ct_Metadata :: "(string, json) gomap"
  ct_RetryCount :: int
  ct_MaxRetries :: int
  ct_LastSkippedAt :: "time option"
  ct_LastExecutionSucceeded :: bool
  ct_OutcomeUnknown :: bool

definition zero_continuation :: Continuation where
  "zero_continuation = \<lparr>ct_ContinuationID = [], ct_DecisionID = [], ct_ApprovalID = [], ct_AgentID = [],
     ct_ActionType = [], ct_Resource = [], ct_Environment = [], ct_State = StateEscalated,
     ct_CreatedAt = 0, ct_ApprovedAt = None, ct_QueuedAt = None, ct_ResumedAt = None,
     ct_ExecutingAt = None, ct_ExpiresAt = None, ct_ExpiredAt = None, ct_CancelledAt = None,
     ct_ResolvedBy = [], ct_DenyReason = [], ct_TrustScore = 0, ct_TrustLevel = [],
     ct_AnomalyCodes = [], ct_ShieldActive = False, ct_Restricted = False, ct_PolicyVersion = [],
     ct_CapabilityRef = [], ct_LeaseID = [], ct_DelegationKeys = [], ct_Issuers = [],
     ct_AuthorityExpiresAt = None, ct_Metadata = [], ct_RetryCount = 0, ct_MaxRetries = 0,
     ct_LastSkippedAt = None, ct_LastExecutionSucceeded = False, ct_OutcomeUnknown = False\<rparr>"

definition cnt_CanResume :: "Continuation \<Rightarrow> bool" where
  "cnt_CanResume c \<longleftrightarrow> ct_State c = StateApproved"

definition isTerminalState :: "State \<Rightarrow> bool" where
  "isTerminalState st \<longleftrightarrow> st = StateDenied \<or> st = StateExpired \<or> st = StateExecuted \<or> st = StateCancelled"

definition IsTerminal :: "Continuation \<Rightarrow> bool" where
  "IsTerminal c \<longleftrightarrow> isTerminalState (ct_State c)"

definition NewContinuation :: "time \<Rightarrow> string \<Rightarrow> string \<Rightarrow> string \<Rightarrow> string \<Rightarrow> Continuation" where
  "NewContinuation now fresh decisionID actionType resource =
     zero_continuation \<lparr>ct_ContinuationID := ''cnt_'' @ fresh, ct_DecisionID := decisionID,
       ct_ActionType := actionType, ct_Resource := resource, ct_State := StateEscalated,
       ct_CreatedAt := now, ct_MaxRetries := 3, ct_RetryCount := 0\<rparr>"

definition WithMaxRetries :: "int \<Rightarrow> Continuation \<Rightarrow> Continuation" where
  "WithMaxRetries mx c = c \<lparr>ct_MaxRetries := mx\<rparr>"

definition WithAgentID :: "string \<Rightarrow> Continuation \<Rightarrow> Continuation" where
  "WithAgentID agentID c = c \<lparr>ct_AgentID := agentID\<rparr>"

definition WithEnvironment :: "string \<Rightarrow> Continuation \<Rightarrow> Continuation" where
  "WithEnvironment env c = c \<lparr>ct_Environment := env\<rparr>"

definition WithTrustContext :: "float64 \<Rightarrow> string \<Rightarrow> string list \<Rightarrow> bool \<Rightarrow> bool \<Rightarrow> Continuation \<Rightarrow> Continuation" where
  "WithTrustContext score level anomalies shieldActive restricted c =
     c \<lparr>ct_TrustScore := score, ct_TrustLevel := level, ct_AnomalyCodes := anomalies,
        ct_ShieldActive := shieldActive, ct_Restricted := restricted\<rparr>"

definition WithPolicyVersion :: "string \<Rightarrow> Continuation \<Rightarrow> Continuation" where
  "WithPolicyVersion pv c = c \<lparr>ct_PolicyVersion := pv\<rparr>"

definition WithCapabilityRef :: "string \<Rightarrow> Continuation \<Rightarrow> Continuation" where
  "WithCapabilityRef ref c = c \<lparr>ct_CapabilityRef := ref\<rparr>"

definition WithAuthorityIDs :: "string \<Rightarrow> string list \<Rightarrow> string list \<Rightarrow> Continuation \<Rightarrow> Continuation" where
  "WithAuthorityIDs leaseID delegationKeys issuers c =
     c \<lparr>ct_LeaseID := leaseID, ct_DelegationKeys := delegationKeys,
        ct_CapabilityRef := (if leaseID \<noteq> [] \<and> ct_CapabilityRef c = [] then leaseID else ct_CapabilityRef c),
        ct_Issuers := issuers\<rparr>"

definition WithAuthorityExpiry :: "time option \<Rightarrow> Continuation \<Rightarrow> Continuation" where
  "WithAuthorityExpiry expiry c = c \<lparr>ct_AuthorityExpiresAt := expiry\<rparr>"

definition WithApprovalID :: "string \<Rightarrow> Continuation \<Rightarrow> Continuation" where
  "WithApprovalID approvalID c = c \<lparr>ct_ApprovalID := approvalID\<rparr>"

definition WithExpiration :: "int \<Rightarrow> Continuation \<Rightarrow> Continuation" where
  "WithExpiration minutes c =
     (if 0 < minutes then c \<lparr>ct_ExpiresAt := Some (ct_CreatedAt c + minutes * Minute)\<rparr> else c)"

definition WithMetadata :: "string \<Rightarrow> json \<Rightarrow> Continuation \<Rightarrow> Continuation" where
  "WithMetadata key value c = c \<lparr>ct_Metadata := AList.update key value (ct_Metadata c)\<rparr>"

section \<open>Transitions of one continuation\<close>

definition MarkApproved :: "time \<Rightarrow> string \<Rightarrow> Continuation \<Rightarrow> Continuation" where
  "MarkApproved now resolvedBy c =
     (if IsTerminal c then c
      else c \<lparr>ct_State := StateApproved, ct_ResolvedBy := resolvedBy, ct_ApprovedAt := Some now\<rparr>)"

definition MarkQueued :: "time \<Rightarrow> Continuation \<Rightarrow> Continuation" where
  "MarkQueued now c =
     (if ct_State c = StateApproved then c \<lparr>ct_State := StateQueued, ct_QueuedAt := Some now\<rparr> else c)"

definition MarkDenied :: "string \<Rightarrow> string \<Rightarrow> Continuation \<Rightarrow> Continuation" where
  "MarkDenied resolvedBy reason c =
     (if IsTerminal c then c
      else c \<lparr>ct_State := StateDenied, ct_ResolvedBy := resolvedBy, ct_DenyReason := reason\<rparr>)"

definition cnt_MarkResumed :: "time \<Rightarrow> Continuation \<Rightarrow> Continuation" where
  "cnt_MarkResumed now c =
     (if IsTerminal c then c else c \<lparr>ct_State := StateResumed, ct_ResumedAt := Some now\<rparr>)"

definition retryEligible :: "Continuation \<Rightarrow> bool" where
  "retryEligible c =
     (case ct_State c of
        StateResumed \<Rightarrow> \<not> ct_MaxRetries c \<le> 0 \<and> ct_RetryCount c < ct_MaxRetries c
      | StateExecuted \<Rightarrow>
          \<not> (ct_LastExecutionSucceeded c \<or> ct_OutcomeUnknown c) \<and>
          \<not> ct_MaxRetries c \<le> 0 \<and> ct_RetryCount c < ct_MaxRetries c
      | _ \<Rightarrow> False)"

definition Retry :: "time \<Rightarrow> Continuation \<Rightarrow> bool \<times> Continuation" where
  "Retry now c =
     (if \<not> retryEligible c then (False, c)
      else (True, c \<lparr>ct_State := StateResumed, ct_RetryCount := ct_RetryCount c + 1, ct_ResumedAt := Some now\<rparr>))"

definition MarkExecuted :: "Continuation \<Rightarrow> Continuation" where
  "MarkExecuted c =
     (if ct_State c \<noteq> StateResumed \<and> ct_State c \<noteq> StateExecuting then c
      else c \<lparr>ct_State := StateExecuted, ct_LastExecutionSucceeded := True\<rparr>)"

definition MarkExecutionFailed :: "Continuation \<Rightarrow> Continuation" where
  "MarkExecutionFailed c =
     (if ct_State c \<noteq> StateExecuting then c
      else c \<lparr>ct_State := StateExecuted, ct_LastExecutionSucceeded := False\<rparr>)"

definition markOutcomeUnknown :: "Continuation \<Rightarrow> Continuation" where
  "markOutcomeUnknown c =
     c \<lparr>ct_State := StateExecuted, ct_LastExecutionSucceeded := False, ct_OutcomeUnknown := True\<rparr>"

definition MarkRequeue :: "time \<Rightarrow> Continuation \<Rightarrow> Continuation" where
  "MarkRequeue now c =
     (if ct_State c = StateExecuting then c \<lparr>ct_State := StateQueued, ct_QueuedAt := Some now\<rparr> else c)"

definition CanCancel :: "Continuation \<Rightarrow> bool" where
  "CanCancel c \<longleftrightarrow> ct_State c = StateQueued \<or> ct_State c = StateResumed"

definition MarkCancelled :: "time \<Rightarrow> Continuation \<Rightarrow> Continuation" where
  "MarkCancelled now c =
     (if ct_State c = StateQueued \<or> ct_State c = StateResumed
      then c \<lparr>ct_State := StateCancelled, ct_CancelledAt := Some now\<rparr> else c)"

definition CanEnqueue :: "Continuation \<Rightarrow> bool" where
  "CanEnqueue c \<longleftrightarrow> ct_State c = StateApproved"

definition MarkExpired :: "time \<Rightarrow> Continuation \<Rightarrow> Continuation" where
  "MarkExpired now c =
     (if \<not> IsTerminal c then c \<lparr>ct_State := StateExpired, ct_ExpiredAt := Some now\<rparr> else c)"

definition IsExpired :: "time \<Rightarrow> Continuation \<Rightarrow> bool" where
  "IsExpired now c = (case ct_ExpiresAt c of None \<Rightarrow> False | Some t \<Rightarrow> t < now)"

definition ShouldExpire :: "time \<Rightarrow> Continuation \<Rightarrow> bool" where
  "ShouldExpire now c =
     (if ct_State c \<noteq> StateEscalated \<and> ct_State c \<noteq> StateApproved then False
      else (case ct_ExpiresAt c of None \<Rightarrow> False | Some t \<Rightarrow> t < now))"

definition IsExecutable :: "time \<Rightarrow> Continuation \<Rightarrow> bool" where
  "IsExecutable now c =
     (if ct_State c \<noteq> StateApproved \<and> ct_State c \<noteq> StateQueued then False
      else if ct_State c = StateExecuted \<or> ct_State c = StateCancelled \<or> ct_State c = StateExecuting then False
      else (case ct_ExpiresAt c of None \<Rightarrow> True | Some t \<Rightarrow> \<not> t < now))"

definition CanExecute :: "Continuation \<Rightarrow> bool" where
  "CanExecute c =
     (if ct_State c = StateExecuting then False
      else if ct_State c \<noteq> StateQueued \<and> ct_State c \<noteq> StateResumed \<and> ct_State c \<noteq> StateApproved then False
      else True)"

record RetryInfo =
  ri_CanRetry :: bool
  ri_RetryLimitReached :: bool
  ri_RetriesRemaining :: int
  ri_Status :: string

definition cnt_RetryInfo :: "Continuation \<Rightarrow> RetryInfo" where
  "cnt_RetryInfo c =
     (let remaining = (if 0 < ct_MaxRetries c then max 0 (ct_MaxRetries c - ct_RetryCount c) else 0);
          info = (\<lambda>status reached. \<lparr>ri_CanRetry = retryEligible c, ri_RetryLimitReached = reached,
                     ri_RetriesRemaining = remaining, ri_Status = status\<rparr>) in
      if ct_State c = StateDenied \<or> ct_State c = StateExpired \<or> ct_State c = StateCancelled then info ''terminal'' False
      else if ct_State c = StateExecuting then info ''in_progress'' False
      else if ct_State c = StateExecuted \<or> ct_State c = StateResumed then
        (if ct_State c = StateExecuted \<and> ct_LastExecutionSucceeded c then info ''not_retryable'' False
         else if ct_State c = StateExecuted \<and> ct_OutcomeUnknown c then info ''outcome_unknown'' False
         else if ct_MaxRetries c \<le> 0 then info ''disabled'' False
         else if ct_MaxRetries c \<le> ct_RetryCount c then info ''exhausted'' True
         else info ''retryable'' False)
      else if ct_State c = StateApproved \<or> ct_State c = StateQueued then info ''not_needed'' False
      else if ct_State c = StateEscalated then info ''pending_approval'' False
      else info ''unknown'' False)"

section \<open>The store in memory\<close>

type_synonym conts = "(string, Continuation) gomap"

definition markExecuting :: "time \<Rightarrow> Continuation \<Rightarrow> Continuation" where
  "markExecuting now c = c \<lparr>ct_State := StateExecuting, ct_ExecutingAt := Some now\<rparr>"

definition isClaimable :: "time \<Rightarrow> Continuation \<Rightarrow> bool" where
  "isClaimable now c =
     (if ct_State c \<noteq> StateApproved \<and> ct_State c \<noteq> StateQueued \<and> ct_State c \<noteq> StateResumed then False
      else (case ct_ExpiresAt c of None \<Rightarrow> True | Some t \<Rightarrow> \<not> t < now))"

definition cnt_Create :: "Continuation \<Rightarrow> conts \<Rightarrow> bool \<times> conts" where
  "cnt_Create c m =
     (if map_of m (ct_ContinuationID c) \<noteq> None then (False, m)
      else (True, AList.update (ct_ContinuationID c) c m))"

definition cnt_Get :: "string \<Rightarrow> conts \<Rightarrow> Continuation option" where
  "cnt_Get cid m = map_of m cid"

definition cnt_Update :: "Continuation \<Rightarrow> conts \<Rightarrow> bool \<times> conts" where
  "cnt_Update c m =
     (if map_of m (ct_ContinuationID c) = None then (False, m)
      else (True, AList.update (ct_ContinuationID c) c m))"

definition cnt_ListByState :: "State \<Rightarrow> conts \<Rightarrow> Continuation list" where
  "cnt_ListByState st m = filter (\<lambda>c. ct_State c = st) (map snd m)"

definition cnt_ListByDecision :: "string \<Rightarrow> conts \<Rightarrow> Continuation list" where
  "cnt_ListByDecision d m = filter (\<lambda>c. ct_DecisionID c = d) (map snd m)"

definition cnt_ListByAgent :: "string \<Rightarrow> conts \<Rightarrow> Continuation list" where
  "cnt_ListByAgent a m = filter (\<lambda>c. ct_AgentID c = a) (map snd m)"

definition cnt_ListByApprovalID :: "string \<Rightarrow> conts \<Rightarrow> Continuation list" where
  "cnt_ListByApprovalID a m = filter (\<lambda>c. ct_ApprovalID c = a) (map snd m)"

definition cnt_ListNonTerminal :: "conts \<Rightarrow> Continuation list" where
  "cnt_ListNonTerminal m = filter (\<lambda>c. \<not> IsTerminal c) (map snd m)"

text \<open>The shape shared by the operations on one id: a guard on the live record, then its transition.\<close>

definition guarded :: "(Continuation \<Rightarrow> bool) \<Rightarrow> (Continuation \<Rightarrow> Continuation) \<Rightarrow> string \<Rightarrow> conts \<Rightarrow> Continuation option \<times> conts" where
  "guarded guard f cid m =
     (case map_of m cid of
        None \<Rightarrow> (None, m)
      | Some c \<Rightarrow> if guard c then (Some (f c), AList.update cid (f c) m) else (None, m))"

definition ClaimForExecution :: "time \<Rightarrow> string \<Rightarrow> conts \<Rightarrow> Continuation option \<times> conts" where
  "ClaimForExecution now = guarded (isClaimable now) (markExecuting now)"

definition ClaimForRetry :: "time \<Rightarrow> string \<Rightarrow> conts \<Rightarrow> Continuation option \<times> conts" where
  "ClaimForRetry now = guarded (\<lambda>c. ct_State c = StateResumed \<and> \<not> IsExpired now c) (markExecuting now)"

definition RetryForExecution :: "time \<Rightarrow> string \<Rightarrow> conts \<Rightarrow> Continuation option \<times> conts" where
  "RetryForExecution now =
     guarded retryEligible
       (\<lambda>c. c \<lparr>ct_State := StateResumed, ct_RetryCount := ct_RetryCount c + 1, ct_ResumedAt := Some now\<rparr>)"

definition CancelForOperation :: "time \<Rightarrow> string \<Rightarrow> conts \<Rightarrow> Continuation option \<times> conts" where
  "CancelForOperation now = guarded CanCancel (MarkCancelled now)"

definition RecoverFromExecuting :: "string \<Rightarrow> conts \<Rightarrow> Continuation option \<times> conts" where
  "RecoverFromExecuting = guarded (\<lambda>c. ct_State c = StateExecuting) markOutcomeUnknown"

definition ListExecutingIDs :: "conts \<Rightarrow> string list" where
  "ListExecutingIDs m = map fst (filter (\<lambda>(cid, c). ct_State c = StateExecuting) m)"

definition ExpireIfDue :: "time \<Rightarrow> string \<Rightarrow> conts \<Rightarrow> Continuation option \<times> conts" where
  "ExpireIfDue now = guarded (ShouldExpire now) (MarkExpired now)"

definition EnqueueForExecution :: "time \<Rightarrow> string \<Rightarrow> conts \<Rightarrow> Continuation option \<times> conts" where
  "EnqueueForExecution now = guarded CanEnqueue (MarkQueued now)"

definition apply_decision :: "time \<Rightarrow> string \<Rightarrow> bool \<Rightarrow> string \<Rightarrow> string \<Rightarrow> Continuation \<Rightarrow> Continuation" where
  "apply_decision now approvalID approved resolvedBy reason c =
     (if ct_ApprovalID c \<noteq> approvalID \<or> IsTerminal c then c
      else if ct_State c = StateExecuting then c
      else if approved then MarkQueued now (MarkApproved now resolvedBy c)
      else MarkDenied resolvedBy reason c)"

definition ApplyApprovalDecision ::
  "time \<Rightarrow> string \<Rightarrow> bool \<Rightarrow> string \<Rightarrow> string \<Rightarrow> conts \<Rightarrow> Continuation list \<times> conts" where
  "ApplyApprovalDecision now approvalID approved resolvedBy reason m =
     (let f = apply_decision now approvalID approved resolvedBy reason in
      (map f (filter (\<lambda>c. ct_State (f c) \<noteq> ct_State c) (map snd m)), map_vals f m))"

definition resume_bound :: "time \<Rightarrow> string \<Rightarrow> Continuation \<Rightarrow> Continuation" where
  "resume_bound now approvalID c =
     (if ct_ApprovalID c \<noteq> approvalID \<or> \<not> cnt_CanResume c then c else cnt_MarkResumed now c)"

definition ResumeForApproval :: "time \<Rightarrow> string \<Rightarrow> conts \<Rightarrow> Continuation list \<times> conts" where
  "ResumeForApproval now approvalID m =
     (map (resume_bound now approvalID) (filter (\<lambda>c. ct_ApprovalID c = approvalID \<and> cnt_CanResume c) (map snd m)),
      map_vals (resume_bound now approvalID) m)"

end
