(* ===== verification/Continuation_Journal.thy ===== *)
theory Continuation_Journal
  imports Continuation_Store Approval_Store
begin

text \<open>
  Component: the signed journal of continuations (\<^verbatim>\<open>internal/continuation/fold.go\<close>) and the
  file-backed store in journal mode (\<^verbatim>\<open>internal/continuation/file_store.go\<close>): the transition table, the
  fold over the records, the operations with the outcome of their write as an argument, the retention
  sweep and the compaction. The unsigned legacy format is not modelled.
\<close>

section \<open>The fold\<close>

definition cnt_sameCore :: "Continuation \<Rightarrow> Continuation \<Rightarrow> bool" where
  "cnt_sameCore a b \<longleftrightarrow>
     ct_DecisionID a = ct_DecisionID b \<and> ct_ApprovalID a = ct_ApprovalID b \<and>
     ct_AgentID a = ct_AgentID b \<and> ct_ActionType a = ct_ActionType b \<and>
     ct_Resource a = ct_Resource b \<and> ct_Environment a = ct_Environment b \<and>
     ct_CreatedAt a = ct_CreatedAt b \<and> ct_PolicyVersion a = ct_PolicyVersion b \<and>
     ct_CapabilityRef a = ct_CapabilityRef b \<and> ct_LeaseID a = ct_LeaseID b \<and>
     ct_AuthorityExpiresAt a = ct_AuthorityExpiresAt b \<and> ct_ExpiresAt a = ct_ExpiresAt b \<and>
     ct_DelegationKeys a = ct_DelegationKeys b \<and> ct_Issuers a = ct_Issuers b \<and>
     ct_MaxRetries a = ct_MaxRetries b"

datatype cnt_fold_error =
    ExecutedOutcomeFlip
  | TerminalResurrection State State
  | BackToEscalated
  | CntIllegalTransition State State
  | CntRecordIDMismatch
  | CntRecordIDLess
  | TerminalGenesis string
  | CntCoreMutated string
  | NonTerminalTombstone string
  | TombstoneOverLive string
  | CntUnknownType string

definition checkTransition :: "Continuation \<Rightarrow> Continuation \<Rightarrow> cnt_fold_error option" where
  "checkTransition prev next =
     (let illegal = Some (CntIllegalTransition (ct_State prev) (ct_State next)) in
      if ct_State prev = ct_State next then
        (if ct_State next = StateExecuted \<and>
            (ct_LastExecutionSucceeded prev \<noteq> ct_LastExecutionSucceeded next \<or>
             ct_OutcomeUnknown prev \<noteq> ct_OutcomeUnknown next)
         then Some ExecutedOutcomeFlip else None)
      else if IsTerminal prev then
        (if ct_State prev = StateExecuted \<and> ct_State next = StateResumed \<and>
            \<not> ct_LastExecutionSucceeded prev \<and> \<not> ct_OutcomeUnknown prev
         then None else Some (TerminalResurrection (ct_State prev) (ct_State next)))
      else (case ct_State next of
              StateApproved \<Rightarrow> None
            | StateDenied \<Rightarrow> None
            | StateResumed \<Rightarrow> None
            | StateExpired \<Rightarrow> None
            | StateQueued \<Rightarrow>
                if ct_State prev = StateApproved \<or> ct_State prev = StateExecuting then None
                else if (ct_State prev = StateEscalated \<or> ct_State prev = StateResumed) \<and>
                   ct_ApprovedAt next \<noteq> None \<and> ct_ResolvedBy next \<noteq> [] then None
                else illegal
            | StateExecuting \<Rightarrow>
                if ct_State prev = StateApproved \<or> ct_State prev = StateQueued \<or> ct_State prev = StateResumed
                then None else illegal
            | StateExecuted \<Rightarrow>
                if ct_State prev = StateExecuting \<or> ct_State prev = StateResumed then None else illegal
            | StateCancelled \<Rightarrow>
                if ct_State prev = StateQueued \<or> ct_State prev = StateResumed then None else illegal
            | StateEscalated \<Rightarrow> Some BackToEscalated))"

type_synonym cnt_fold_state = "conts \<times> string list"

fun foldContinuation :: "Continuation \<Rightarrow> cnt_fold_state \<Rightarrow> cnt_fold_error + cnt_fold_state" where
  "foldContinuation c (m, tombs) =
     (let cid = ct_ContinuationID c in
      if cid = [] then Inl CntRecordIDLess
      else (case map_of m cid of
              None \<Rightarrow>
                if IsTerminal c then Inl (TerminalGenesis cid)
                else Inr (AList.update cid c m, tombs)
            | Some prev \<Rightarrow>
                if \<not> cnt_sameCore prev c then Inl (CntCoreMutated cid)
                else (case checkTransition prev c of
                        Some e \<Rightarrow> Inl e
                      | None \<Rightarrow> Inr (AList.update cid c m, tombs))))"

definition skeleton :: "string \<Rightarrow> State \<Rightarrow> Continuation" where
  "skeleton cid st = zero_continuation \<lparr>ct_ContinuationID := cid, ct_State := st\<rparr>"

fun foldTombstone :: "string \<Rightarrow> State \<Rightarrow> cnt_fold_state \<Rightarrow> cnt_fold_error + cnt_fold_state" where
  "foldTombstone cid st (m, tombs) =
     (if \<not> isTerminalState st then Inl (NonTerminalTombstone cid)
      else (case map_of m cid of
              Some prev \<Rightarrow>
                if \<not> IsTerminal prev then Inl (TombstoneOverLive cid)
                else Inr (AList.update cid (skeleton cid st) m, List.insert cid tombs)
            | None \<Rightarrow> Inr (AList.update cid (skeleton cid st) m, List.insert cid tombs)))"

fun compact_one :: "string \<Rightarrow> cnt_fold_state \<Rightarrow> cnt_fold_state" where
  "compact_one cid (m, tombs) =
     (case map_of m cid of
        None \<Rightarrow> (m, tombs)
      | Some c \<Rightarrow>
          if IsTerminal c then (AList.update cid (skeleton cid (ct_State c)) m, List.insert cid tombs)
          else (AList.delete cid m, removeAll cid tombs))"

definition foldCompact :: "string list \<Rightarrow> cnt_fold_state \<Rightarrow> cnt_fold_state" where
  "foldCompact removed st = fold compact_one removed st"

datatype cnt_event =
    CEvContinuation string Continuation
  | CEvTombstone string State
  | CEvCompact "string list"
  | CEvMigration
  | CEvUnknown string

fun cnt_foldEvent :: "cnt_event \<Rightarrow> cnt_fold_state \<Rightarrow> cnt_fold_error + cnt_fold_state" where
  "cnt_foldEvent (CEvContinuation rid c) st =
     (if rid \<noteq> ct_ContinuationID c then Inl CntRecordIDMismatch else foldContinuation c st)"
| "cnt_foldEvent (CEvTombstone rid s) st = foldTombstone rid s st"
| "cnt_foldEvent (CEvCompact removed) st = Inr (foldCompact removed st)"
| "cnt_foldEvent CEvMigration st = Inr st"
| "cnt_foldEvent (CEvUnknown t) st = Inl (CntUnknownType t)"

section \<open>The file-backed store in journal mode\<close>

record cfstore =
  cf_conts :: conts
  cf_tombs :: "string list"
  cf_log :: "cnt_event list"
  cf_retentionDays :: int
  cf_maxRecords :: nat
  cf_staleIDs :: "string list"

definition cf_append :: "write_outcome \<Rightarrow> cnt_event \<Rightarrow> cfstore \<Rightarrow> bool \<times> cfstore" where
  "cf_append w ev s =
     (case w of
        WriteOk \<Rightarrow> (True, s \<lparr>cf_log := cf_log s @ [ev]\<rparr>)
      | SinkFailed \<Rightarrow> (False, s \<lparr>cf_log := cf_log s @ [ev]\<rparr>)
      | WriteFailed \<Rightarrow> (False, s))"

definition persistLocked :: "write_outcome \<Rightarrow> Continuation \<Rightarrow> cfstore \<Rightarrow> bool \<times> cfstore" where
  "persistLocked w c s = cf_append w (CEvContinuation (ct_ContinuationID c) c) s"

definition cf_put :: "string \<Rightarrow> Continuation \<Rightarrow> cfstore \<Rightarrow> cfstore" where
  "cf_put cid c s = s \<lparr>cf_conts := AList.update cid c (cf_conts s)\<rparr>"

text \<open>\<open>transitionLocked\<close>: the change is kept in memory only when its write succeeded.\<close>

definition transitionLocked :: "write_outcome \<Rightarrow> string \<Rightarrow> Continuation \<Rightarrow> cfstore \<Rightarrow> bool \<times> cfstore" where
  "transitionLocked w cid c' s =
     (case persistLocked w c' s of
        (True, s') \<Rightarrow> (True, cf_put cid c' s')
      | (False, s') \<Rightarrow> (False, s'))"

definition cf_guarded ::
  "write_outcome \<Rightarrow> (Continuation \<Rightarrow> bool) \<Rightarrow> (Continuation \<Rightarrow> Continuation) \<Rightarrow> string \<Rightarrow> cfstore \<Rightarrow> Continuation option \<times> cfstore" where
  "cf_guarded w guard f cid s =
     (case map_of (cf_conts s) cid of
        None \<Rightarrow> (None, s)
      | Some c \<Rightarrow>
          if guard c then
            (case transitionLocked w cid (f c) s of
               (True, s') \<Rightarrow> (Some (f c), s')
             | (False, s') \<Rightarrow> (None, s'))
          else (None, s))"

text \<open>Expiry and enqueueing ignore the outcome of their write.\<close>

definition cf_unguarded ::
  "write_outcome \<Rightarrow> (Continuation \<Rightarrow> bool) \<Rightarrow> (Continuation \<Rightarrow> Continuation) \<Rightarrow> string \<Rightarrow> cfstore \<Rightarrow> Continuation option \<times> cfstore" where
  "cf_unguarded w guard f cid s =
     (case map_of (cf_conts s) cid of
        None \<Rightarrow> (None, s)
      | Some c \<Rightarrow>
          if guard c then (Some (f c), snd (persistLocked w (f c) (cf_put cid (f c) s)))
          else (None, s))"

definition cf_Create :: "write_outcome \<Rightarrow> Continuation \<Rightarrow> cfstore \<Rightarrow> bool \<times> cfstore" where
  "cf_Create w c s =
     (if map_of (cf_conts s) (ct_ContinuationID c) \<noteq> None then (False, s)
      else transitionLocked w (ct_ContinuationID c) c s)"

definition cf_Update :: "write_outcome \<Rightarrow> Continuation \<Rightarrow> cfstore \<Rightarrow> bool \<times> cfstore" where
  "cf_Update w c s =
     (if map_of (cf_conts s) (ct_ContinuationID c) = None then (False, s)
      else transitionLocked w (ct_ContinuationID c) c s)"

definition cf_ClaimForExecution :: "write_outcome \<Rightarrow> time \<Rightarrow> string \<Rightarrow> cfstore \<Rightarrow> Continuation option \<times> cfstore" where
  "cf_ClaimForExecution w now = cf_guarded w (isClaimable now) (markExecuting now)"

definition cf_ClaimForRetry :: "write_outcome \<Rightarrow> time \<Rightarrow> string \<Rightarrow> cfstore \<Rightarrow> Continuation option \<times> cfstore" where
  "cf_ClaimForRetry w now = cf_guarded w (\<lambda>c. ct_State c = StateResumed \<and> \<not> IsExpired now c) (markExecuting now)"

definition cf_RecoverFromExecuting :: "write_outcome \<Rightarrow> string \<Rightarrow> cfstore \<Rightarrow> Continuation option \<times> cfstore" where
  "cf_RecoverFromExecuting w = cf_guarded w (\<lambda>c. ct_State c = StateExecuting) markOutcomeUnknown"

definition cf_RetryForExecution :: "write_outcome \<Rightarrow> time \<Rightarrow> string \<Rightarrow> cfstore \<Rightarrow> Continuation option \<times> cfstore" where
  "cf_RetryForExecution w now =
     cf_guarded w retryEligible
       (\<lambda>c. c \<lparr>ct_State := StateResumed, ct_RetryCount := ct_RetryCount c + 1, ct_ResumedAt := Some now\<rparr>)"

definition cf_CancelForOperation :: "write_outcome \<Rightarrow> time \<Rightarrow> string \<Rightarrow> cfstore \<Rightarrow> Continuation option \<times> cfstore" where
  "cf_CancelForOperation w now = cf_guarded w CanCancel (MarkCancelled now)"

definition cf_ExpireIfDue :: "write_outcome \<Rightarrow> time \<Rightarrow> string \<Rightarrow> cfstore \<Rightarrow> Continuation option \<times> cfstore" where
  "cf_ExpireIfDue w now = cf_unguarded w (ShouldExpire now) (MarkExpired now)"

definition cf_EnqueueForExecution :: "write_outcome \<Rightarrow> time \<Rightarrow> string \<Rightarrow> cfstore \<Rightarrow> Continuation option \<times> cfstore" where
  "cf_EnqueueForExecution w now = cf_unguarded w CanEnqueue (MarkQueued now)"

text \<open>A loop over the map that rewrites and persists the records it changes.\<close>

fun cf_each :: "write_outcome \<Rightarrow> (Continuation \<Rightarrow> Continuation) \<Rightarrow> (Continuation \<Rightarrow> bool) \<Rightarrow> string list \<Rightarrow> cfstore \<Rightarrow> cfstore" where
  "cf_each w f persists [] s = s"
| "cf_each w f persists (cid # cids) s =
     (case map_of (cf_conts s) cid of
        None \<Rightarrow> cf_each w f persists cids s
      | Some c \<Rightarrow>
          let s1 = cf_put cid (f c) s in
          cf_each w f persists cids (if persists c then snd (persistLocked w (f c) s1) else s1))"

definition cf_ApplyApprovalDecision ::
  "write_outcome \<Rightarrow> time \<Rightarrow> string \<Rightarrow> bool \<Rightarrow> string \<Rightarrow> string \<Rightarrow> cfstore \<Rightarrow> cfstore" where
  "cf_ApplyApprovalDecision w now approvalID approved resolvedBy reason s =
     (let f = apply_decision now approvalID approved resolvedBy reason in
      cf_each w f (\<lambda>c. ct_State (f c) \<noteq> ct_State c) (map fst (cf_conts s)) s)"

definition cf_ResumeForApproval :: "write_outcome \<Rightarrow> time \<Rightarrow> string \<Rightarrow> cfstore \<Rightarrow> cfstore" where
  "cf_ResumeForApproval w now approvalID s =
     cf_each w (resume_bound now approvalID) (\<lambda>c. ct_ApprovalID c = approvalID \<and> cnt_CanResume c)
       (map fst (cf_conts s)) s"

definition sweepTerminal :: "State \<Rightarrow> bool" where
  "sweepTerminal st \<longleftrightarrow> st = StateExecuted \<or> st = StateDenied \<or> st = StateExpired"

definition sweepRemovals :: "time \<Rightarrow> cfstore \<Rightarrow> string list" where
  "sweepRemovals now s =
     (let ageCutoff = now - cf_retentionDays s * (86400 * Second);
          cs = map snd (cf_conts s);
          aged = map ct_ContinuationID
            (filter (\<lambda>c. sweepTerminal (ct_State c) \<and> \<not> IsZero (ct_CreatedAt c) \<and> ct_CreatedAt c < ageCutoff) cs) in
      if cf_maxRecords s < length cs - length aged \<and> length aged < length cs then
        (let ageSorted = sort_key ct_CreatedAt
               (filter (\<lambda>c. \<not> IsZero (ct_CreatedAt c) \<and> ct_ContinuationID c \<notin> set aged) cs) in
         aged @ map ct_ContinuationID (take (length ageSorted - cf_maxRecords s) ageSorted))
      else aged)"

definition Sweep :: "write_outcome \<Rightarrow> time \<Rightarrow> cfstore \<Rightarrow> nat \<times> cfstore" where
  "Sweep w now s =
     (let toRemove = sweepRemovals now s in
      if toRemove = [] then (0, s)
      else let s1 = snd (cf_append w (CEvCompact toRemove) s);
               (m, tombs) = foldCompact toRemove (cf_conts s1, cf_tombs s1) in
        (length toRemove,
         s1 \<lparr>cf_conts := m, cf_tombs := tombs, cf_staleIDs := cf_staleIDs s1 @ toRemove\<rparr>))"

text \<open>\<open>compactSigned\<close> replaces the journal: a compact marker, a tombstone for every pruned id, and
  every other record whole.\<close>

definition compactSigned :: "cfstore \<Rightarrow> cfstore" where
  "compactSigned s =
     s \<lparr>cf_log := CEvCompact [] #
          map (\<lambda>cid. CEvTombstone cid (ct_State (the (map_of (cf_conts s) cid)))) (cf_tombs s) @
          map (\<lambda>c. CEvContinuation (ct_ContinuationID c) c)
            (filter (\<lambda>c. ct_ContinuationID c \<notin> set (cf_tombs s)) (map snd (cf_conts s))),
        cf_staleIDs := []\<rparr>"

definition cnt_open :: "cnt_event list \<Rightarrow> cnt_fold_error + cnt_fold_state" where
  "cnt_open evs = fold_records cnt_foldEvent evs ([], [])"

end
