(* ===== verification/Continuation_Laws.thy ===== *)
theory Continuation_Laws
  imports Continuation_Journal
begin

text \<open>
  The store operations against the transition table: every guarded operation writes a record that the
  fold accepts, the fold of a journal is an instance of \<open>record_journal\<close>, and a store whose writes
  succeed is recovered from its journal up to the fields that no decision reads.
\<close>

definition cnt_legal :: "Continuation \<Rightarrow> Continuation \<Rightarrow> bool" where
  "cnt_legal c c' \<longleftrightarrow> cnt_sameCore c c' \<and> checkTransition c c' = None"

lemmas cnt_marks =
  MarkApproved_def MarkQueued_def MarkDenied_def cnt_MarkResumed_def MarkExecuted_def
  MarkExecutionFailed_def markOutcomeUnknown_def MarkRequeue_def MarkCancelled_def MarkExpired_def
  markExecuting_def

lemmas cnt_tests =
  IsTerminal_def isTerminalState_def cnt_CanResume_def CanCancel_def CanEnqueue_def isClaimable_def
  ShouldExpire_def

lemma cnt_sameCore_refl [simp]: "cnt_sameCore c c"
  by (simp add: cnt_sameCore_def)

lemma cnt_sameCore_trans: "cnt_sameCore a b \<Longrightarrow> cnt_sameCore b c \<Longrightarrow> cnt_sameCore a c"
  by (simp add: cnt_sameCore_def)

lemma cnt_sameCore_sym: "cnt_sameCore a b \<Longrightarrow> cnt_sameCore b a"
  by (simp add: cnt_sameCore_def)

section \<open>Operations write legal records\<close>

lemma legal_claim: "isClaimable now c \<Longrightarrow> cnt_legal c (markExecuting now c)"
  by (auto simp: cnt_legal_def cnt_sameCore_def checkTransition_def cnt_marks cnt_tests split: if_splits)

lemma legal_retry:
  "retryEligible c \<Longrightarrow>
   cnt_legal c (c \<lparr>ct_State := StateResumed, ct_RetryCount := ct_RetryCount c + 1, ct_ResumedAt := Some now\<rparr>)"
  by (auto simp: cnt_legal_def cnt_sameCore_def checkTransition_def retryEligible_def cnt_tests split: State.splits)

lemma legal_cancel: "CanCancel c \<Longrightarrow> cnt_legal c (MarkCancelled now c)"
  by (auto simp: cnt_legal_def cnt_sameCore_def checkTransition_def cnt_marks cnt_tests)

lemma legal_recover: "ct_State c = StateExecuting \<Longrightarrow> cnt_legal c (markOutcomeUnknown c)"
  by (auto simp: cnt_legal_def cnt_sameCore_def checkTransition_def cnt_marks cnt_tests)

lemma legal_expire: "ShouldExpire now c \<Longrightarrow> cnt_legal c (MarkExpired now c)"
  by (auto simp: cnt_legal_def cnt_sameCore_def checkTransition_def cnt_marks cnt_tests split: if_splits)

lemma legal_enqueue: "CanEnqueue c \<Longrightarrow> cnt_legal c (MarkQueued now c)"
  by (auto simp: cnt_legal_def cnt_sameCore_def checkTransition_def cnt_marks cnt_tests)

lemma legal_decision:
  "resolvedBy \<noteq> [] \<or> \<not> approved \<Longrightarrow> cnt_legal c (apply_decision now aid approved resolvedBy reason c)"
  by (cases "ct_State c")
     (auto simp: cnt_legal_def cnt_sameCore_def checkTransition_def apply_decision_def cnt_marks cnt_tests)

lemma legal_resume: "cnt_legal c (resume_bound now aid c)"
  by (auto simp: cnt_legal_def cnt_sameCore_def checkTransition_def resume_bound_def cnt_marks cnt_tests)

lemma legal_executed: "ct_State c = StateExecuting \<Longrightarrow> cnt_legal c (MarkExecuted c)"
  by (auto simp: cnt_legal_def cnt_sameCore_def checkTransition_def cnt_marks cnt_tests)

lemma legal_failed: "ct_State c = StateExecuting \<Longrightarrow> cnt_legal c (MarkExecutionFailed c)"
  by (auto simp: cnt_legal_def cnt_sameCore_def checkTransition_def cnt_marks cnt_tests)

lemma legal_requeue: "cnt_legal c (MarkRequeue now c)"
  by (auto simp: cnt_legal_def cnt_sameCore_def checkTransition_def cnt_marks cnt_tests)

lemma legal_denied: "cnt_legal c (MarkDenied by' reason c)"
  by (auto simp: cnt_legal_def cnt_sameCore_def checkTransition_def cnt_marks cnt_tests)

lemmas legal_ops = legal_claim legal_retry legal_cancel legal_recover legal_expire legal_enqueue
  legal_decision legal_resume legal_executed legal_failed legal_requeue legal_denied

section \<open>The fold as a record journal\<close>

definition cnt_genesis :: "Continuation \<Rightarrow> bool" where
  "cnt_genesis c \<longleftrightarrow> ct_ContinuationID c \<noteq> [] \<and> \<not> IsTerminal c"

definition cnt_transition_ok :: "Continuation \<Rightarrow> Continuation \<Rightarrow> bool" where
  "cnt_transition_ok c c' \<longleftrightarrow> checkTransition c c' = None"

interpretation continuation_journal:
  record_journal ct_ContinuationID cnt_sameCore "\<lambda>_. cnt_genesis" cnt_transition_ok foldContinuation
proof (unfold_locales, goal_cases)
  case (1 r)
  then show ?case by simp
next
  case (2 a b c)
  then show ?case by (rule cnt_sameCore_trans)
next
  case (3 r items tombs items' tombs')
  then show ?case
    by (auto simp: Let_def cnt_genesis_def cnt_transition_ok_def split: if_splits option.splits)
qed

text \<open>What no legal transition leaves.\<close>

definition settled_outcome :: "bool \<Rightarrow> bool \<Rightarrow> Continuation \<Rightarrow> bool" where
  "settled_outcome succeeded unknown c \<longleftrightarrow> ct_State c = StateExecuted \<and>
     ct_LastExecutionSucceeded c = succeeded \<and> ct_OutcomeUnknown c = unknown"

lemma settled_outcome_kept:
  "cnt_transition_ok c c' \<Longrightarrow> succeeded \<or> unknown \<Longrightarrow> settled_outcome succeeded unknown c \<Longrightarrow> settled_outcome succeeded unknown c'"
  by (auto simp: cnt_transition_ok_def checkTransition_def settled_outcome_def cnt_tests Let_def split: if_splits)

lemma terminal_kept:
  "cnt_transition_ok c c' \<Longrightarrow> ct_State c = st \<Longrightarrow> st \<in> {StateDenied, StateExpired, StateCancelled} \<Longrightarrow> ct_State c' = st"
  by (auto simp: cnt_transition_ok_def checkTransition_def cnt_tests Let_def split: if_splits)

section \<open>Recovery from the journal\<close>

text \<open>Two versions of a record that no guard, gate or transition check tells apart.\<close>

definition cnt_equiv :: "Continuation \<Rightarrow> Continuation \<Rightarrow> bool" where
  "cnt_equiv a b \<longleftrightarrow> cnt_sameCore a b \<and> ct_ContinuationID a = ct_ContinuationID b \<and> ct_State a = ct_State b \<and>
     ct_LastExecutionSucceeded a = ct_LastExecutionSucceeded b \<and> ct_OutcomeUnknown a = ct_OutcomeUnknown b \<and>
     ct_RetryCount a = ct_RetryCount b"

lemma cnt_equiv_refl [simp]: "cnt_equiv c c"
  by (simp add: cnt_equiv_def)

lemma cnt_equiv_trans: "cnt_equiv a b \<Longrightarrow> cnt_equiv b c \<Longrightarrow> cnt_equiv a c"
  by (auto simp: cnt_equiv_def intro: cnt_sameCore_trans)

lemma checkTransition_equiv:
  assumes "cnt_equiv a b"
  shows "checkTransition a c = checkTransition b c"
proof -
  have "ct_State a = ct_State b" "ct_LastExecutionSucceeded a = ct_LastExecutionSucceeded b"
    "ct_OutcomeUnknown a = ct_OutcomeUnknown b" "ct_RetryCount a = ct_RetryCount b" "IsTerminal a = IsTerminal b"
    using assms by (simp_all add: cnt_equiv_def IsTerminal_def)
  then show ?thesis unfolding checkTransition_def by (simp only:)
qed

lemma cnt_equiv_terminal: "cnt_equiv a b \<Longrightarrow> IsTerminal a = IsTerminal b"
  by (simp add: cnt_equiv_def IsTerminal_def)

definition conts_ok :: "conts \<Rightarrow> bool" where
  "conts_ok m \<longleftrightarrow> map_ok m \<and> (\<forall>cid c. map_of m cid = Some c \<longrightarrow> ct_ContinuationID c = cid \<and> cid \<noteq> [])"

definition same_conts :: "conts \<Rightarrow> conts \<Rightarrow> bool" where
  "same_conts m m' \<longleftrightarrow> (\<forall>cid. rel_option cnt_equiv (map_of m cid) (map_of m' cid))"

definition journal_equiv :: "cfstore \<Rightarrow> bool" where
  "journal_equiv s \<longleftrightarrow> conts_ok (cf_conts s) \<and>
     (\<exists>m. cnt_open (cf_log s) = Inr (m, cf_tombs s) \<and> same_conts m (cf_conts s))"

lemma cnt_open_snoc:
  "cnt_open (evs @ [ev]) = (case cnt_open evs of Inl e \<Rightarrow> Inl e | Inr st \<Rightarrow> cnt_foldEvent ev st)"
  by (simp add: cnt_open_def fold_records_snoc)

lemma same_conts_update:
  "same_conts m m' \<Longrightarrow> cnt_equiv c c' \<Longrightarrow> same_conts (AList.update cid c m) (AList.update cid c' m')"
  by (simp add: same_conts_def)

lemma same_conts_lookup:
  "same_conts m m' \<Longrightarrow> map_of m' cid = Some c' \<Longrightarrow> \<exists>c. map_of m cid = Some c \<and> cnt_equiv c c'"
  by (auto simp: same_conts_def option_rel_Some2 dest!: spec [of _ cid])

lemma same_conts_lookup_None: "same_conts m m' \<Longrightarrow> map_of m' cid = None \<Longrightarrow> map_of m cid = None"
  by (metis option.rel_distinct(2) option.exhaust same_conts_def)

lemma conts_ok_update: "conts_ok m \<Longrightarrow> ct_ContinuationID c = cid \<Longrightarrow> cid \<noteq> [] \<Longrightarrow> conts_ok (AList.update cid c m)"
  by (auto simp: conts_ok_def)

text \<open>A legal write keeps memory and journal in step, and so does a change in memory alone that no
  check sees.\<close>

lemma journal_equiv_write:
  assumes ok: "journal_equiv s" and c: "map_of (cf_conts s) cid = Some c"
    and legal: "cnt_legal c c'" and cid: "ct_ContinuationID c' = cid"
  shows "journal_equiv (s \<lparr>cf_log := cf_log s @ [CEvContinuation cid c'], cf_conts := AList.update cid c' (cf_conts s)\<rparr>)"
proof -
  from ok obtain m where m: "cnt_open (cf_log s) = Inr (m, cf_tombs s)" "same_conts m (cf_conts s)"
    and ok': "conts_ok (cf_conts s)" by (auto simp: journal_equiv_def)
  obtain p where p: "map_of m cid = Some p" "cnt_equiv p c" using same_conts_lookup [OF m(2) c] by blast
  have ne: "cid \<noteq> []" using ok' c by (auto simp: conts_ok_def)
  have "cnt_sameCore p c'" "checkTransition p c' = None"
    using legal p(2) checkTransition_equiv [OF p(2), of c'] cnt_sameCore_trans [of p c c']
    by (auto simp: cnt_legal_def cnt_equiv_def)
  then have "cnt_open (cf_log s @ [CEvContinuation cid c']) = Inr (AList.update cid c' m, cf_tombs s)"
    using m p cid ne by (simp add: cnt_open_snoc Let_def)
  with ok' cid ne same_conts_update [OF m(2)] show ?thesis
    by (auto simp: journal_equiv_def conts_ok_update)
qed

lemma journal_equiv_memory:
  assumes ok: "journal_equiv s" and c: "map_of (cf_conts s) cid = Some c" and eq: "cnt_equiv c c'"
  shows "journal_equiv (s \<lparr>cf_conts := AList.update cid c' (cf_conts s)\<rparr>)"
proof -
  from ok obtain m where m: "cnt_open (cf_log s) = Inr (m, cf_tombs s)" "same_conts m (cf_conts s)"
    and ok': "conts_ok (cf_conts s)" by (auto simp: journal_equiv_def)
  have cid: "ct_ContinuationID c' = cid" "cid \<noteq> []" using ok' c eq by (auto simp: conts_ok_def cnt_equiv_def)
  obtain p where p: "map_of m cid = Some p" "cnt_equiv p c" using same_conts_lookup [OF m(2) c] by blast
  have "same_conts m (AList.update cid c' (cf_conts s))"
    using m(2) p cnt_equiv_trans [OF p(2) eq] by (auto simp: same_conts_def)
  with m(1) ok' cid show ?thesis by (auto simp: journal_equiv_def conts_ok_update)
qed

lemma journal_equiv_create:
  assumes ok: "journal_equiv s" and none: "map_of (cf_conts s) (ct_ContinuationID c) = None"
    and gen: "cnt_genesis c"
  shows "journal_equiv (s \<lparr>cf_log := cf_log s @ [CEvContinuation (ct_ContinuationID c) c],
    cf_conts := AList.update (ct_ContinuationID c) c (cf_conts s)\<rparr>)"
proof -
  from ok obtain m where m: "cnt_open (cf_log s) = Inr (m, cf_tombs s)" "same_conts m (cf_conts s)"
    and ok': "conts_ok (cf_conts s)" by (auto simp: journal_equiv_def)
  have "cnt_open (cf_log s @ [CEvContinuation (ct_ContinuationID c) c]) =
      Inr (AList.update (ct_ContinuationID c) c m, cf_tombs s)"
    using m same_conts_lookup_None [OF m(2) none] gen by (simp add: cnt_open_snoc Let_def cnt_genesis_def)
  with ok' gen same_conts_update [OF m(2)] show ?thesis
    by (auto simp: journal_equiv_def conts_ok_update cnt_genesis_def)
qed

subsection \<open>Compaction events\<close>

lemma compact_one_equiv:
  assumes "same_conts m m'" "compact_one cid (m, tombs) = (m1, tombs1)" "compact_one cid (m', tombs) = (m1', tombs1')"
  shows "same_conts m1 m1' \<and> tombs1 = tombs1'"
proof (cases "map_of m' cid")
  case None
  with assms same_conts_lookup_None [OF assms(1) None] show ?thesis by simp
next
  case (Some c')
  then obtain c where c: "map_of m cid = Some c" "cnt_equiv c c'" using same_conts_lookup [OF assms(1)] by blast
  with Some assms cnt_equiv_terminal [OF c(2)] show ?thesis
    by (auto simp: same_conts_def cnt_equiv_def split: if_splits)
qed

lemma foldCompact_equiv:
  "same_conts m m' \<Longrightarrow> foldCompact cids (m, tombs) = (m1, tombs1) \<Longrightarrow> foldCompact cids (m', tombs) = (m1', tombs1') \<Longrightarrow>
   same_conts m1 m1' \<and> tombs1 = tombs1'"
proof (induction cids arbitrary: m m' tombs)
  case Nil
  then show ?case by (simp add: foldCompact_def)
next
  case (Cons cid cids)
  obtain a t where a: "compact_one cid (m, tombs) = (a, t)" by force
  obtain b u where b: "compact_one cid (m', tombs) = (b, u)" by force
  from compact_one_equiv [OF Cons.prems(1) a b] Cons.IH [of a b t] Cons.prems(2,3) a b show ?case
    by (simp add: foldCompact_def)
qed

lemma compact_one_ok: "conts_ok m \<Longrightarrow> compact_one cid (m, tombs) = (m1, tombs1) \<Longrightarrow> conts_ok m1"
  unfolding conts_ok_def by (fastforce simp: skeleton_def split: option.splits if_splits)

lemma foldCompact_ok: "conts_ok m \<Longrightarrow> foldCompact cids (m, tombs) = (m1, tombs1) \<Longrightarrow> conts_ok m1"
proof (induction cids arbitrary: m tombs)
  case Nil
  then show ?case by (simp add: foldCompact_def)
next
  case (Cons cid cids)
  obtain a t where a: "compact_one cid (m, tombs) = (a, t)" by force
  from compact_one_ok [OF Cons.prems(1) a] Cons.IH [of a t] Cons.prems(2) a show ?case
    by (simp add: foldCompact_def)
qed

lemma journal_equiv_sweep: "journal_equiv s \<Longrightarrow> journal_equiv (snd (Sweep WriteOk now s))"
proof -
  assume "journal_equiv s"
  then obtain m where m: "cnt_open (cf_log s) = Inr (m, cf_tombs s)" "same_conts m (cf_conts s)"
    and ok: "conts_ok (cf_conts s)" by (auto simp: journal_equiv_def)
  let ?r = "sweepRemovals now s"
  obtain a t where a: "foldCompact ?r (m, cf_tombs s) = (a, t)" by force
  obtain b u where b: "foldCompact ?r (cf_conts s, cf_tombs s) = (b, u)" by force
  from foldCompact_equiv [OF m(2) a b] foldCompact_ok [OF ok b] m ok a b show ?thesis
    by (auto simp: Sweep_def Let_def cf_append_def journal_equiv_def cnt_open_snoc)
qed

end
