(* ===== verification/Go_Regexp.thy ===== *)
theory Go_Regexp
  imports Go_Prelude
begin

text \<open>
  The part of packages \<^verbatim>\<open>regexp\<close>, \<^verbatim>\<open>strconv\<close> and \<^verbatim>\<open>fmt\<close> that the executors use. A regular
  expression here is a list of alternatives, each a sequence of items that may repeat, tried in the order written:
  Go prefers the leftmost match, then the first alternative, then the longest repetition, giving
  back when the rest does not match. A literal letter under \<open>(?i)\<close> also matches what Unicode folds
  to it, which for ASCII letters is the other case and, for k and s, the Kelvin sign and the long s.
\<close>

section \<open>Package regexp\<close>

text \<open>What matches one rune of a class: the number of bytes it takes at the start of a string, 0 when it
  does not match.\<close>

type_synonym rx_class = "string \<Rightarrow> nat"

datatype rx_item =
    One rx_class
  | Opt rx_class
  | Star rx_class

text \<open>The length of the preferred match of a sequence at the start of a string.\<close>

function rx_seq :: "rx_item list \<Rightarrow> string \<Rightarrow> nat option" where
  "rx_seq [] s = Some 0"
| "rx_seq (One k # is) s =
     (if k s = 0 \<or> length s < k s then None
      else map_option (\<lambda>n. k s + n) (rx_seq is (drop (k s) s)))"
| "rx_seq (Opt k # is) s =
     (if k s = 0 \<or> length s < k s then rx_seq is s
      else (case rx_seq is (drop (k s) s) of Some n \<Rightarrow> Some (k s + n) | None \<Rightarrow> rx_seq is s))"
| "rx_seq (Star k # is) s =
     (if k s = 0 \<or> length s < k s then rx_seq is s
      else (case rx_seq (Star k # is) (drop (k s) s) of Some n \<Rightarrow> Some (k s + n) | None \<Rightarrow> rx_seq is s))"
  by pat_completeness auto
termination
  by (relation "measures [\<lambda>(is, s). length s, \<lambda>(is, s). length is]") auto

fun rx_match :: "rx_item list list \<Rightarrow> string \<Rightarrow> nat option" where
  "rx_match [] s = None"
| "rx_match (alt # alts) s = (case rx_seq alt s of Some n \<Rightarrow> Some n | None \<Rightarrow> rx_match alts s)"

text \<open>\<open>ReplaceAllString\<close> for an expression that matches no empty string.\<close>

function ReplaceAll :: "rx_item list list \<Rightarrow> string \<Rightarrow> string \<Rightarrow> string" where
  "ReplaceAll re rep [] = []"
| "ReplaceAll re rep (x # s) =
     (case rx_match re (x # s) of
        Some (Suc n) \<Rightarrow> rep @ ReplaceAll re rep (drop n s)
      | _ \<Rightarrow> x # ReplaceAll re rep s)"
  by pat_completeness auto
termination
  by (relation "measure (\<lambda>(re, rep, s). length s)") auto

definition rx_byte :: "(char \<Rightarrow> bool) \<Rightarrow> rx_class" where
  "rx_byte c s = (case s of [] \<Rightarrow> 0 | x # _ \<Rightarrow> if c x then 1 else 0)"

definition rx_or :: "rx_class \<Rightarrow> rx_class \<Rightarrow> rx_class" where
  "rx_or k l s = (if k s = 0 then l s else k s)"

definition kelvin_sign :: rx_class where
  "kelvin_sign s = (if HasPrefix s [CHR 0xE2, CHR 0x84, CHR 0xAA] then 3 else 0)"

definition long_s :: rx_class where
  "long_s s = (if HasPrefix s [CHR 0xC5, CHR 0xBF] then 2 else 0)"

definition fold_letter :: "char \<Rightarrow> rx_class" where
  "fold_letter c =
     (let k = rx_byte (\<lambda>x. to_lower x = to_lower c) in
      if to_lower c = CHR ''k'' then rx_or k kelvin_sign
      else if to_lower c = CHR ''s'' then rx_or k long_s
      else k)"

definition fold_word :: "string \<Rightarrow> rx_item list" where
  "fold_word w = map (\<lambda>c. One (fold_letter c)) w"

text \<open>The class \<open>\s\<close> of Go's syntax: no vertical tab.\<close>

definition rx_space :: "char \<Rightarrow> bool" where
  "rx_space c \<longleftrightarrow> c \<in> set [CHR '' '', CHR 0x09, CHR 0x0A, CHR 0x0C, CHR 0x0D]"

section \<open>Packages strconv and fmt\<close>

function digits :: "nat \<Rightarrow> string" where
  "digits n = (if n < 10 then [char_of (48 + n)] else digits (n div 10) @ [char_of (48 + n mod 10)])"
  by pat_completeness auto
termination
  by (relation "measure id") auto

declare digits.simps [simp del]

definition Itoa :: "int \<Rightarrow> string" where
  "Itoa i = (if i < 0 then CHR ''-'' # digits (nat (- i)) else digits (nat i))"

definition hex_digit :: "nat \<Rightarrow> char" where
  "hex_digit n = (if n < 10 then char_of (48 + n) else char_of (87 + n))"

definition hex_EncodeToString :: "string \<Rightarrow> string" where
  "hex_EncodeToString s = concat (map (\<lambda>c. [hex_digit (of_char c div 16), hex_digit (of_char c mod 16)]) s)"

definition hex_value :: "char \<Rightarrow> nat option" where
  "hex_value c =
     (let n = of_char c in
      if 48 \<le> n \<and> n \<le> 57 then Some (n - 48)
      else if 97 \<le> n \<and> n \<le> 102 then Some (n - 87)
      else if 65 \<le> n \<and> n \<le> 70 then Some (n - 55)
      else None)"

fun hex_DecodeString :: "string \<Rightarrow> string option" where
  "hex_DecodeString [] = Some []"
| "hex_DecodeString [c] = None"
| "hex_DecodeString (a # b # s) =
     (case (hex_value a, hex_value b, hex_DecodeString s) of
        (Some x, Some y, Some r) \<Rightarrow> Some (char_of (16 * x + y) # r)
      | _ \<Rightarrow> None)"

lemma hex_value_digit: "n < 16 \<Longrightarrow> hex_value (hex_digit n) = Some n"
  by (auto simp: hex_value_def hex_digit_def Let_def)

lemma hex_Decode_Encode [simp]: "hex_DecodeString (hex_EncodeToString s) = Some s"
proof (induction s)
  case (Cons c s)
  have "of_char c < (256 :: nat)" by simp
  then have "of_char c div 16 < (16 :: nat)" by (simp add: div_less_iff_less_mult)
  then have "hex_value (hex_digit (of_char c div 16)) = Some (of_char c div 16)"
    "hex_value (hex_digit (of_char c mod 16)) = Some (of_char c mod 16)"
    by (simp_all add: hex_value_digit)
  with Cons show ?case by (simp add: hex_EncodeToString_def)
qed (simp add: hex_EncodeToString_def)

lemma hex_EncodeToString_inj: "hex_EncodeToString s = hex_EncodeToString t \<longleftrightarrow> s = t"
  by (metis hex_Decode_Encode option.inject)

definition quote_char :: "char \<Rightarrow> string" where
  "quote_char c =
     (let n = (of_char c :: nat) in
      if c = CHR 0x22 \<or> c = CHR 0x5C then [CHR 0x5C, c]
      else if n = 7 then [CHR 0x5C, CHR ''a'']
      else if n = 8 then [CHR 0x5C, CHR ''b'']
      else if n = 9 then [CHR 0x5C, CHR ''t'']
      else if n = 10 then [CHR 0x5C, CHR ''n'']
      else if n = 11 then [CHR 0x5C, CHR ''v'']
      else if n = 12 then [CHR 0x5C, CHR ''f'']
      else if n = 13 then [CHR 0x5C, CHR ''r'']
      else if n < 32 \<or> n = 127 then [CHR 0x5C, CHR ''x'', hex_digit (n div 16), hex_digit (n mod 16)]
      else [c])"

text \<open>The verb \<^verbatim>\<open>%q\<close> on an ASCII string.\<close>

definition Quote :: "string \<Rightarrow> string" where
  "Quote s = [CHR 0x22] @ concat (map quote_char s) @ [CHR 0x22]"

text \<open>
  \<open>Duration.String\<close>: hours, minutes and seconds with the fraction of a second that is not zero, or one of the
  units below a second with its fraction.
\<close>

fun pad_digits :: "nat \<Rightarrow> nat \<Rightarrow> string" where
  "pad_digits 0 n = []"
| "pad_digits (Suc k) n = pad_digits k (n div 10) @ [char_of (48 + n mod 10)]"

definition fmtFrac :: "nat \<Rightarrow> nat \<Rightarrow> string" where
  "fmtFrac prec v =
     (let ds = TrimRightByte (pad_digits prec (v mod 10 ^ prec)) (CHR ''0'') in if ds = [] then [] else CHR ''.'' # ds)"

definition Duration_String :: "duration \<Rightarrow> string" where
  "Duration_String d =
     (let u = nat \<bar>d\<bar>; secs = u div 1000000000; h = secs div 3600; m = (secs div 60) mod 60;
          body =
            (if u = 0 then ''0s''
             else if u < 1000 then digits u @ ''ns''
             else if u < 1000000 then digits (u div 1000) @ fmtFrac 3 u @ [CHR 0xC2, CHR 0xB5] @ ''s''
             else if u < 1000000000 then digits (u div 1000000) @ fmtFrac 6 u @ ''ms''
             else (if 0 < h then digits h @ ''h'' else []) @
                  (if 0 < h \<or> 0 < m then digits m @ ''m'' else []) @ digits (secs mod 60) @ fmtFrac 9 u @ ''s'') in
      if d < 0 then CHR ''-'' # body else body)"

end
