(* ===== verification/Execution_Store.thy ===== *)
theory Execution_Store
  imports Models Journal_Fold Approval_Store Go_Regexp
begin

text \<open>
  Component: execution records (\<^verbatim>\<open>internal/execution/store.go\<close>, \<^verbatim>\<open>redact.go\<close>), their signed journal
  (\<^verbatim>\<open>fold.go\<close>) and the file-backed store in journal mode (\<^verbatim>\<open>file_store.go\<close>) with its retention sweep and
  compaction. The unsigned legacy format is not modelled.
\<close>

section \<open>Redaction\<close>

text \<open>\<^verbatim>\<open>(?i)authorization:\s*[^\r\n]+\<close>\<close>

definition authorization_pattern :: "rx_item list list" where
  "authorization_pattern =
     (let line = rx_byte (\<lambda>c. c \<noteq> CHR 0x0D \<and> c \<noteq> CHR 0x0A) in
      [fold_word ''authorization:'' @ [Star (rx_byte rx_space), One line, Star line]])"

text \<open>\<^verbatim>\<open>(?i)bearer\s+[A-Za-z0-9._~+/=-]+\<close>\<close>

definition bearer_pattern :: "rx_item list list" where
  "bearer_pattern =
     (let space = rx_byte rx_space;
          tok = rx_or (rx_byte (\<lambda>c. is_alnum c \<or> c \<in> set ''._~+/=-'')) (rx_or kelvin_sign long_s) in
      [fold_word ''bearer'' @ [One space, Star space, One tok, Star tok]])"

text \<open>\<^verbatim>\<open>(?i)(token|api[_-]?key|secret|password|passwd|credential)(=|:)\s*\S+\<close>\<close>

definition credential_pattern :: "rx_item list list" where
  "credential_pattern =
     (let value = [One (rx_byte (\<lambda>c. c = CHR ''='' \<or> c = CHR '':'')), Star (rx_byte rx_space),
                   One (rx_byte (\<lambda>c. \<not> rx_space c)), Star (rx_byte (\<lambda>c. \<not> rx_space c))] in
      map (\<lambda>key. key @ value)
        [fold_word ''token'',
         fold_word ''api'' @ [Opt (rx_byte (\<lambda>c. c = CHR ''_'' \<or> c = CHR ''-''))] @ fold_word ''key'',
         fold_word ''secret'', fold_word ''password'', fold_word ''passwd'', fold_word ''credential''])"

definition secretPatterns :: "rx_item list list list" where
  "secretPatterns = [authorization_pattern, bearer_pattern, credential_pattern]"

definition Redact :: "string \<Rightarrow> string" where
  "Redact s = (if s = [] then s else fold (\<lambda>re t. ReplaceAll re ''[REDACTED]'' t) secretPatterns s)"

section \<open>Execution records\<close>

datatype exec_State =
    StatePending
  | StateRunning
  | StateSucceeded
  | StateFailed
  | StateTimedOut
  | StateOther string

record Execution =
  ex_ExecutionID :: string
  ex_ContinuationID :: string
  ex_DecisionID :: string
  ex_ApprovalID :: string
  ex_AgentID :: string
  ex_ActionType :: string
  ex_Resource :: string
  ex_State :: exec_State
  ex_StartedAt :: time
  ex_FinishedAt :: "time option"
  ex_ExitCode :: int
  ex_Stdout :: string
  ex_Stderr :: string
  ex_StdoutTruncated :: bool
  ex_StderrTruncated :: bool
  ex_StdoutLimitBytes :: int
  ex_StderrLimitBytes :: int
  ex_Error :: string
  ex_TimeoutSeconds :: int

definition NewExecution :: "string \<Rightarrow> string \<Rightarrow> string \<Rightarrow> string \<Rightarrow> string \<Rightarrow> string \<Rightarrow> string \<Rightarrow> int \<Rightarrow> Execution" where
  "NewExecution fresh continuationID decisionID approvalID agentID actionType resource timeoutSec =
     \<lparr>ex_ExecutionID = ''exe_'' @ fresh, ex_ContinuationID = continuationID, ex_DecisionID = decisionID,
      ex_ApprovalID = approvalID, ex_AgentID = agentID, ex_ActionType = actionType, ex_Resource = resource,
      ex_State = StatePending, ex_StartedAt = 0, ex_FinishedAt = None, ex_ExitCode = 0, ex_Stdout = [],
      ex_Stderr = [], ex_StdoutTruncated = False, ex_StderrTruncated = False, ex_StdoutLimitBytes = 0,
      ex_StderrLimitBytes = 0, ex_Error = [], ex_TimeoutSeconds = timeoutSec\<rparr>"

definition MarkStarted :: "time \<Rightarrow> Execution \<Rightarrow> Execution" where
  "MarkStarted now e = e \<lparr>ex_State := StateRunning, ex_StartedAt := now\<rparr>"

definition MarkSucceeded :: "time \<Rightarrow> int \<Rightarrow> string \<Rightarrow> string \<Rightarrow> Execution \<Rightarrow> Execution" where
  "MarkSucceeded now exitCode stdout stderr e =
     e \<lparr>ex_State := StateSucceeded, ex_ExitCode := exitCode, ex_Stdout := Redact stdout,
        ex_Stderr := Redact stderr, ex_FinishedAt := Some now\<rparr>"

definition MarkFailed :: "time \<Rightarrow> string \<Rightarrow> int \<Rightarrow> Execution \<Rightarrow> Execution" where
  "MarkFailed now errMsg exitCode e =
     e \<lparr>ex_State := StateFailed, ex_Error := Redact errMsg, ex_ExitCode := exitCode, ex_FinishedAt := Some now\<rparr>"

definition exec_IsTerminal :: "Execution \<Rightarrow> bool" where
  "exec_IsTerminal e \<longleftrightarrow> ex_State e = StateSucceeded \<or> ex_State e = StateFailed \<or> ex_State e = StateTimedOut"

definition MarkTimedOut :: "time \<Rightarrow> Execution \<Rightarrow> Execution" where
  "MarkTimedOut now e =
     e \<lparr>ex_State := StateTimedOut, ex_FinishedAt := Some now,
        ex_Error := (if ex_Error e = [] then ''execution timed out'' else ex_Error e)\<rparr>"

record FailureInfo =
  fi_Category :: string
  fi_Recoverable :: bool
  fi_ExitCode :: int
  fi_Reason :: string

definition categorizeFailure :: "string \<Rightarrow> string" where
  "categorizeFailure err =
     (if err = [] then ''command_failed''
      else if HasPrefix err ''invalid '' then ''validation_error''
      else if HasPrefix err ''exec:'' then ''executor_error''
      else if HasPrefix err ''git:'' then ''git_error''
      else if Contains err ''not found'' \<or> Contains err ''no such file'' \<or> Contains err ''does not exist'' then ''not_found''
      else if Contains err ''permission denied'' then ''permission_denied''
      else if Contains err ''timeout'' \<or> Contains err ''timed out'' then ''timeout''
      else ''command_failed'')"

definition isRecoverableError :: "string \<Rightarrow> bool" where
  "isRecoverableError err =
     (if err = [] then True
      else if HasPrefix err ''invalid '' then False
      else if Contains err ''permission denied'' then False
      else if HasPrefix err ''exec:'' \<and> (Contains err ''not found'' \<or> Contains err ''does not exist'') then False
      else if HasPrefix err ''git:'' \<and>
        (Contains err ''not found'' \<or> Contains err ''not a git repository'' \<or> Contains err ''does not exist'') then False
      else True)"

definition exec_FailureInfo :: "Execution \<Rightarrow> FailureInfo" where
  "exec_FailureInfo e =
     (let info = \<lparr>fi_Category = ''unknown'', fi_Recoverable = False, fi_ExitCode = 0, fi_Reason = []\<rparr> in
      if ex_State e = StateSucceeded then
        info \<lparr>fi_Category := ''success'', fi_Reason := ''execution succeeded''\<rparr>
      else if ex_State e = StatePending \<or> ex_State e = StateRunning then
        info \<lparr>fi_Category := ''in_progress'', fi_Reason := ''execution not yet completed''\<rparr>
      else if ex_State e = StateTimedOut then
        info \<lparr>fi_ExitCode := ex_ExitCode e, fi_Category := ''timeout'', fi_Recoverable := True,
              fi_Reason := ''execution exceeded timeout of '' @ Itoa (ex_TimeoutSeconds e) @ '' seconds''\<rparr>
      else if ex_State e = StateFailed then
        info \<lparr>fi_ExitCode := ex_ExitCode e, fi_Category := categorizeFailure (ex_Error e),
              fi_Recoverable := isRecoverableError (ex_Error e), fi_Reason := ex_Error e\<rparr>
      else info \<lparr>fi_ExitCode := ex_ExitCode e\<rparr>)"

section \<open>The store in memory\<close>

type_synonym execs = "(string, Execution) gomap"

definition sanitized :: "Execution \<Rightarrow> Execution" where
  "sanitized e = e \<lparr>ex_Stdout := Redact (ex_Stdout e), ex_Stderr := Redact (ex_Stderr e), ex_Error := Redact (ex_Error e)\<rparr>"

definition exec_Create :: "Execution \<Rightarrow> execs \<Rightarrow> bool \<times> execs" where
  "exec_Create e m =
     (if map_of m (ex_ExecutionID e) \<noteq> None then (False, m)
      else (True, AList.update (ex_ExecutionID e) (sanitized e) m))"

definition exec_Get :: "string \<Rightarrow> execs \<Rightarrow> Execution option" where
  "exec_Get eid m = map_of m eid"

definition exec_Update :: "Execution \<Rightarrow> execs \<Rightarrow> bool \<times> execs" where
  "exec_Update e m =
     (if map_of m (ex_ExecutionID e) = None then (False, m)
      else (True, AList.update (ex_ExecutionID e) (sanitized e) m))"

definition ListByContinuation :: "string \<Rightarrow> execs \<Rightarrow> Execution list" where
  "ListByContinuation cid m = filter (\<lambda>e. ex_ContinuationID e = cid) (map snd m)"

definition exec_ListByDecision :: "string \<Rightarrow> execs \<Rightarrow> Execution list" where
  "exec_ListByDecision d m = filter (\<lambda>e. ex_DecisionID e = d) (map snd m)"

definition exec_ListAll :: "execs \<Rightarrow> Execution list" where
  "exec_ListAll m = map snd m"

definition exec_ListByState :: "exec_State \<Rightarrow> execs \<Rightarrow> Execution list" where
  "exec_ListByState st m = filter (\<lambda>e. ex_State e = st) (map snd m)"

definition exec_Stats :: "execs \<Rightarrow> nat \<times> nat \<times> nat \<times> nat \<times> nat" where
  "exec_Stats m =
     (let count = (\<lambda>st. length (filter (\<lambda>e. ex_State e = st) (map snd m))) in
      (length m, count StateSucceeded, count StateFailed, count StateRunning, count StateTimedOut))"

section \<open>The signed journal\<close>

definition exec_sameCore :: "Execution \<Rightarrow> Execution \<Rightarrow> bool" where
  "exec_sameCore a b \<longleftrightarrow>
     ex_ContinuationID a = ex_ContinuationID b \<and> ex_DecisionID a = ex_DecisionID b \<and>
     ex_ApprovalID a = ex_ApprovalID b \<and> ex_AgentID a = ex_AgentID b \<and>
     ex_ActionType a = ex_ActionType b \<and> ex_Resource a = ex_Resource b \<and>
     ex_TimeoutSeconds a = ex_TimeoutSeconds b"

datatype exec_fold_error =
    ExecRecordIDMismatch
  | ExecRecordIDLess
  | ExecTerminalGenesis string
  | UnknownGenesisState exec_State
  | ExecCoreMutated string
  | ExecTerminalResurrection exec_State exec_State
  | ExecIllegalTransition exec_State exec_State
  | ExecUnknownType string

text \<open>The executions folded so far and whether a compaction marker was seen.\<close>

type_synonym exec_fold_state = "execs \<times> bool"

fun foldExecution :: "Execution \<Rightarrow> exec_fold_state \<Rightarrow> exec_fold_error + exec_fold_state" where
  "foldExecution e (m, compactSeen) =
     (let eid = ex_ExecutionID e; put = Inr (AList.update eid e m, compactSeen) in
      if eid = [] then Inl ExecRecordIDLess
      else (case map_of m eid of
              None \<Rightarrow>
                if exec_IsTerminal e \<and> \<not> compactSeen then Inl (ExecTerminalGenesis eid)
                else if ex_State e \<noteq> StatePending \<and> ex_State e \<noteq> StateRunning \<and> \<not> exec_IsTerminal e
                  then Inl (UnknownGenesisState (ex_State e))
                else put
            | Some prev \<Rightarrow>
                if \<not> exec_sameCore prev e then Inl (ExecCoreMutated eid)
                else if ex_State prev = ex_State e then put
                else if exec_IsTerminal prev then Inl (ExecTerminalResurrection (ex_State prev) (ex_State e))
                else if ex_State e = StateRunning \<and> (ex_State prev = StatePending \<or> ex_State prev = StateRunning) then put
                else if exec_IsTerminal e then put
                else Inl (ExecIllegalTransition (ex_State prev) (ex_State e))))"

datatype exec_event =
    EEvExecution string Execution
  | EEvCompact "string list" nat
  | EEvMigration
  | EEvUnknown string

fun exec_foldEvent :: "exec_event \<Rightarrow> exec_fold_state \<Rightarrow> exec_fold_error + exec_fold_state" where
  "exec_foldEvent (EEvExecution rid e) st =
     (if rid \<noteq> ex_ExecutionID e then Inl ExecRecordIDMismatch else foldExecution e st)"
| "exec_foldEvent (EEvCompact removed through) (m, seen) =
     Inr (fold AList.delete removed m, seen \<or> 0 < through)"
| "exec_foldEvent EEvMigration st = Inr st"
| "exec_foldEvent (EEvUnknown t) st = Inl (ExecUnknownType t)"

definition exec_open :: "exec_event list \<Rightarrow> exec_fold_error + exec_fold_state" where
  "exec_open evs = fold_records exec_foldEvent evs ([], False)"

section \<open>The file-backed store in journal mode\<close>

record efstore =
  ef_execs :: execs
  ef_log :: "exec_event list"
  ef_seq :: nat
  ef_retentionDays :: int
  ef_maxRecords :: nat
  ef_staleIDs :: "string list"

definition ef_append :: "write_outcome \<Rightarrow> exec_event \<Rightarrow> efstore \<Rightarrow> bool \<times> efstore" where
  "ef_append w ev s =
     (case w of
        WriteOk \<Rightarrow> (True, s \<lparr>ef_log := ef_log s @ [ev], ef_seq := ef_seq s + 1\<rparr>)
      | SinkFailed \<Rightarrow> (False, s \<lparr>ef_log := ef_log s @ [ev], ef_seq := ef_seq s + 1\<rparr>)
      | WriteFailed \<Rightarrow> (False, s))"

definition ef_store :: "write_outcome \<Rightarrow> Execution \<Rightarrow> efstore \<Rightarrow> bool \<times> efstore" where
  "ef_store w e s =
     (let stored = sanitized e in
      case ef_append w (EEvExecution (ex_ExecutionID e) stored) s of
        (True, s') \<Rightarrow> (True, s' \<lparr>ef_execs := AList.update (ex_ExecutionID e) stored (ef_execs s')\<rparr>)
      | (False, s') \<Rightarrow> (False, s'))"

definition ef_Create :: "write_outcome \<Rightarrow> Execution \<Rightarrow> efstore \<Rightarrow> bool \<times> efstore" where
  "ef_Create w e s =
     (if map_of (ef_execs s) (ex_ExecutionID e) \<noteq> None then (False, s) else ef_store w e s)"

definition ef_Update :: "write_outcome \<Rightarrow> Execution \<Rightarrow> efstore \<Rightarrow> bool \<times> efstore" where
  "ef_Update w e s =
     (if map_of (ef_execs s) (ex_ExecutionID e) = None then (False, s) else ef_store w e s)"

definition finished_before :: "time \<Rightarrow> Execution \<Rightarrow> bool" where
  "finished_before cutoff e = (case ex_FinishedAt e of None \<Rightarrow> False | Some t \<Rightarrow> t < cutoff)"

definition exec_sweepRemovals :: "time \<Rightarrow> efstore \<Rightarrow> string list" where
  "exec_sweepRemovals now s =
     (let ageCutoff = now - ef_retentionDays s * (86400 * Second);
          es = map snd (ef_execs s);
          aged = map ex_ExecutionID (filter (\<lambda>e. exec_IsTerminal e \<and> finished_before ageCutoff e) es) in
      if ef_maxRecords s < length es - length aged \<and> length aged < length es then
        (let ageSorted = sort_key (\<lambda>e. the (ex_FinishedAt e)) (filter (\<lambda>e. ex_FinishedAt e \<noteq> None) es) in
         aged @ filter (\<lambda>eid. eid \<notin> set aged)
           (map ex_ExecutionID (take (length ageSorted - ef_maxRecords s) ageSorted)))
      else aged)"

definition exec_Sweep :: "write_outcome \<Rightarrow> time \<Rightarrow> efstore \<Rightarrow> nat \<times> efstore" where
  "exec_Sweep w now s =
     (let toRemove = exec_sweepRemovals now s in
      if toRemove = [] then (0, s)
      else let s1 = snd (ef_append w (EEvCompact toRemove 0) s) in
        (length toRemove,
         s1 \<lparr>ef_execs := fold AList.delete toRemove (ef_execs s1), ef_staleIDs := ef_staleIDs s1 @ toRemove\<rparr>))"

text \<open>\<open>compactSigned\<close> replaces the journal by a marker, which takes the position of the tip, and the live records.\<close>

definition exec_compactSigned :: "efstore \<Rightarrow> efstore" where
  "exec_compactSigned s =
     s \<lparr>ef_log := EEvCompact (ef_staleIDs s) (ef_seq s) #
          map (\<lambda>e. EEvExecution (ex_ExecutionID e) e) (map snd (ef_execs s)),
        ef_seq := ef_seq s + 1 + length (ef_execs s),
        ef_staleIDs := []\<rparr>"

end
