(* ===== verification/Execution_Executors.thy ===== *)
theory Execution_Executors
  imports Execution_Store
begin

text \<open>
  Component: the executors (\<^verbatim>\<open>internal/execution/store.go\<close>): parsing of a resource into a command, the
  capped output buffers, the environment filter, and \<open>Execute\<close> of the shell, direct and git executors
  up to the operating system. Running a process, the file system and the search path are parameters.
\<close>

section \<open>Resources\<close>

definition ParseShellResource :: "string \<Rightarrow> string + string" where
  "ParseShellResource resource =
     (if \<not> HasPrefix resource ''shell:'' then Inl (''resource does not start with shell: '' @ resource)
      else let cmd = TrimPrefix resource ''shell:'' in
        if cmd = [] then Inl ''shell command is empty'' else Inr cmd)"

definition clip40 :: "string \<Rightarrow> string" where
  "clip40 s = (if 40 < length s then take 40 s @ ''...'' else s)"

definition ParseExecResource :: "string \<Rightarrow> string + string \<times> string list" where
  "ParseExecResource resource =
     (if \<not> HasPrefix resource ''exec:'' then
        Inl (''exec resource must start with 'exec:' prefix (got: '' @ Quote (clip40 resource) @ '')'')
      else let rest = TrimLeftByte (TrimPrefix resource ''exec:'') CHR '' '' in
        if rest = [] then Inl ''exec resource is empty (no binary specified after 'exec:' prefix)''
        else let (binary, rawArgs) = CutByte rest CHR '' '' in
          if binary = [] then Inl ''exec binary name is empty''
          else Inr (binary, if rawArgs = [] then [] else SplitByte CHR '' '' rawArgs))"

record GitResource =
  gr_Repo :: string
  gr_Branch :: string

text \<open>On Unix \<open>filepath.VolumeName\<close> is empty, so no drive is split off.\<close>

definition ParseGitResource :: "string \<Rightarrow> string + GitResource" where
  "ParseGitResource resource =
     (if \<not> HasPrefix resource ''git:'' then
        Inl (''git resource must start with 'git:' prefix (got: '' @ Quote (clip40 resource) @ '')'')
      else let rest = TrimLeftByte (TrimPrefix resource ''git:'') CHR '' '' in
        if rest = [] then Inl ''git resource is empty (no repository specified after 'git:' prefix)''
        else let (repo, branch) = CutByte rest CHR '':'' in
          if repo = [] then Inl ''git repository is empty''
          else Inr \<lparr>gr_Repo = repo, gr_Branch = TrimLeftByte branch CHR '' ''\<rparr>)"

section \<open>Output buffers and environment\<close>

record limitedWriter =
  lw_buf :: string
  lw_limit :: int
  lw_truncated :: bool

definition lw_Write :: "string \<Rightarrow> limitedWriter \<Rightarrow> limitedWriter" where
  "lw_Write p lw =
     (if lw_limit lw < int (length (lw_buf lw)) + int (length p) then
        (let remaining = lw_limit lw - int (length (lw_buf lw)) in
         lw \<lparr>lw_buf := (if 0 < remaining then lw_buf lw @ take (nat remaining) p else lw_buf lw),
             lw_truncated := True\<rparr>)
      else lw \<lparr>lw_buf := lw_buf lw @ p\<rparr>)"

definition lw_writes :: "int \<Rightarrow> string list \<Rightarrow> limitedWriter" where
  "lw_writes limit chunks = fold lw_Write chunks \<lparr>lw_buf = [], lw_limit = limit, lw_truncated = False\<rparr>"

definition getEnv :: "string list \<Rightarrow> string \<Rightarrow> string option" where
  "getEnv environ key =
     (case find (\<lambda>e. length key < length e \<and> take (length key + 1) e = key @ ''='') environ of
        None \<Rightarrow> None
      | Some e \<Rightarrow> Some (drop (length key + 1) e))"

definition filterEnv :: "string list \<Rightarrow> string list \<Rightarrow> string list" where
  "filterEnv environ allowed =
     concat (map (\<lambda>key. case getEnv environ key of None \<Rightarrow> [] | Some val \<Rightarrow> [key @ ''='' @ val]) allowed)"

section \<open>Running a command\<close>

record command =
  cm_path :: string
  cm_args :: "string list"
  cm_dir :: string
  cm_env :: "string list option"

datatype run_error = ExitError int | RunError string

record run_result =
  rr_err :: "run_error option"
  rr_deadline :: bool
  rr_stdout :: "string list"
  rr_stderr :: "string list"

record ShellExecutor =
  se_DefaultTimeout :: duration
  se_StdoutLimitBytes :: int
  se_StderrLimitBytes :: int
  se_WorkingDir :: string
  se_AllowedEnvVars :: "string list option"

definition NewShellExecutor :: "int \<Rightarrow> ShellExecutor" where
  "NewShellExecutor timeoutSec =
     \<lparr>se_DefaultTimeout = (if timeoutSec \<le> 0 then 60 else timeoutSec) * Second,
      se_StdoutLimitBytes = 1024 * 1024, se_StderrLimitBytes = 256 * 1024,
      se_WorkingDir = [], se_AllowedEnvVars = None\<rparr>"

definition NewShellExecutorWithLimits :: "int \<Rightarrow> int \<Rightarrow> int \<Rightarrow> ShellExecutor" where
  "NewShellExecutorWithLimits timeoutSec stdoutLimit stderrLimit =
     \<lparr>se_DefaultTimeout = (if timeoutSec \<le> 0 then 60 else timeoutSec) * Second,
      se_StdoutLimitBytes = (if stdoutLimit \<le> 0 then 1024 * 1024 else stdoutLimit),
      se_StderrLimitBytes = (if stderrLimit \<le> 0 then 256 * 1024 else stderrLimit),
      se_WorkingDir = [], se_AllowedEnvVars = None\<rparr>"

definition run_timeout :: "duration \<Rightarrow> Execution \<Rightarrow> duration" where
  "run_timeout dflt e = (if 0 < ex_TimeoutSeconds e then ex_TimeoutSeconds e * Second else dflt)"

text \<open>The captured output and its limits, as every branch after the run stores them.\<close>

definition keep_output :: "limitedWriter \<Rightarrow> limitedWriter \<Rightarrow> Execution \<Rightarrow> Execution" where
  "keep_output out err e =
     e \<lparr>ex_Stdout := Redact (lw_buf out), ex_Stderr := Redact (lw_buf err),
        ex_StdoutTruncated := lw_truncated out, ex_StderrTruncated := lw_truncated err,
        ex_StdoutLimitBytes := lw_limit out, ex_StderrLimitBytes := lw_limit err\<rparr>"

definition not_found_error :: "string \<Rightarrow> bool" where
  "not_found_error err \<longleftrightarrow> Contains err ''executable file not found'' \<or> Contains err ''no such file or directory''"

text \<open>The end of \<open>Execute\<close>: what the run left in the record. The label names the executor in a timeout
  message; \<open>missing\<close> is the message for a program that does not exist, where the executor checks for it.\<close>

definition after_run ::
  "string \<Rightarrow> string option \<Rightarrow> duration \<Rightarrow> time \<Rightarrow> int \<Rightarrow> int \<Rightarrow> run_result \<Rightarrow> Execution \<Rightarrow> Execution" where
  "after_run label missing timeout now outLimit errLimit r e =
     (let out = lw_writes outLimit (rr_stdout r); err = lw_writes errLimit (rr_stderr r);
          keep = keep_output out err in
      case rr_err r of
        None \<Rightarrow> keep (MarkSucceeded now 0 (lw_buf out) (lw_buf err) e)
      | Some re \<Rightarrow>
          (let exitCode = (case re of ExitError n \<Rightarrow> n | RunError _ \<Rightarrow> 0);
               absent = (case (re, missing) of (RunError t, Some msg) \<Rightarrow> not_found_error t | _ \<Rightarrow> False) in
           if absent then keep (MarkFailed now (the missing) 127 e)
           else if rr_deadline r then
             keep (MarkTimedOut now
               (e \<lparr>ex_Error := Redact (label @ '': command timed out after '' @ Duration_String timeout)\<rparr>))
           else keep (MarkFailed now (lw_buf err) exitCode e)))"

definition shell_Execute ::
  "(command \<Rightarrow> duration \<Rightarrow> run_result) \<Rightarrow> string list \<Rightarrow> time \<Rightarrow> time \<Rightarrow> ShellExecutor \<Rightarrow> Execution \<Rightarrow> Execution" where
  "shell_Execute run environ start finish se e0 =
     (let e = MarkStarted start e0 in
      case ParseShellResource (ex_Resource e) of
        Inl err \<Rightarrow> MarkFailed finish (''invalid shell resource: '' @ err) 1 e
      | Inr shellCmd \<Rightarrow>
          let timeout = run_timeout (se_DefaultTimeout se) e;
              cmd = \<lparr>cm_path = ''sh'', cm_args = [''-c'', shellCmd], cm_dir = se_WorkingDir se,
                     cm_env = map_option (filterEnv environ) (se_AllowedEnvVars se)\<rparr> in
          after_run ''shell'' None timeout finish (se_StdoutLimitBytes se) (se_StderrLimitBytes se)
            (run cmd timeout) e)"

definition direct_Execute ::
  "(command \<Rightarrow> duration \<Rightarrow> run_result) \<Rightarrow> string list \<Rightarrow> time \<Rightarrow> time \<Rightarrow> ShellExecutor \<Rightarrow> Execution \<Rightarrow> Execution" where
  "direct_Execute run environ start finish de e0 =
     (let e = MarkStarted start e0 in
      case ParseExecResource (ex_Resource e) of
        Inl err \<Rightarrow> MarkFailed finish (''invalid exec resource: '' @ err) 1 e
      | Inr (binary, args) \<Rightarrow>
          let timeout = run_timeout (se_DefaultTimeout de) e;
              cmd = \<lparr>cm_path = binary, cm_args = args, cm_dir = se_WorkingDir de,
                     cm_env = map_option (filterEnv environ) (se_AllowedEnvVars de)\<rparr> in
          after_run ''exec'' (Some (''exec: binary not found: '' @ binary)) timeout finish
            (se_StdoutLimitBytes de) (se_StderrLimitBytes de) (run cmd timeout) e)"

section \<open>The git executor\<close>

text \<open>What the file system and the search path answer for a repository path.\<close>

datatype path_error = NotExist | PathError string

record git_host =
  gh_Abs :: "string \<Rightarrow> string + string"
  gh_EvalSymlinks :: "string \<Rightarrow> path_error + string"
  gh_Stat :: "string \<Rightarrow> path_error + bool"
  gh_isGitRepo :: "string \<Rightarrow> string + bool"
  gh_has_git :: bool

definition git_args :: "string \<Rightarrow> string \<Rightarrow> string + string list" where
  "git_args actionType branch =
     (if HasPrefix branch ''-'' then Inl ''git: invalid branch name (must not start with '-')''
      else if actionType = ''git.push'' then
        Inr (''push'' # (if branch \<noteq> [] then [''--'', ''origin'', branch] else []))
      else if actionType = ''git.pull'' then
        Inr (''pull'' # (if branch \<noteq> [] then [''--'', branch] else []))
      else if actionType = ''git.fetch'' then
        Inr (''fetch'' # (if branch \<noteq> [] then [''--'', branch] else []))
      else if actionType = ''git.checkout'' then
        (if branch = [] then Inl ''git checkout: branch is required'' else Inr [''checkout'', branch, ''--''])
      else Inl (''unsupported git action type: '' @ actionType))"

definition git_repo_path :: "git_host \<Rightarrow> string \<Rightarrow> string \<times> int + string" where
  "git_repo_path h repo =
     (case gh_Abs h repo of
        Inl err \<Rightarrow> Inl (''git: could not resolve repository path: '' @ err, 1)
      | Inr absRepo \<Rightarrow>
     (case gh_EvalSymlinks h absRepo of
        Inl NotExist \<Rightarrow> Inl (''git: repository path does not exist: '' @ absRepo, 1)
      | Inl (PathError err) \<Rightarrow> Inl (''git: could not resolve repository path: '' @ err, 1)
      | Inr realPath \<Rightarrow>
     if realPath \<noteq> absRepo then
       Inl (''git: symlink traversal not allowed in repository path (resolved to: '' @ realPath @
            ''); specify the canonical path instead'', 1)
     else
     (case gh_Stat h realPath of
        Inl NotExist \<Rightarrow> Inl (''git: repository path does not exist: '' @ realPath, 1)
      | Inl (PathError _) \<Rightarrow> Inl (''git: repository path is inaccessible: '' @ realPath, 1)
      | Inr isDir \<Rightarrow>
     if \<not> isDir then Inl (''git: repository path is not a directory: '' @ realPath, 1)
     else
     (case gh_isGitRepo h realPath of
        Inl err \<Rightarrow> Inl (''git: could not verify repository: '' @ err, 1)
      | Inr isRepo \<Rightarrow>
     if \<not> isRepo then Inl (''git: not a git repository (no .git found at: '' @ realPath @ '')'', 1)
     else if \<not> gh_has_git h then Inl (''git: binary not found in PATH'', 127)
     else Inr realPath))))"

definition git_Execute ::
  "(command \<Rightarrow> duration \<Rightarrow> run_result) \<Rightarrow> git_host \<Rightarrow> time \<Rightarrow> time \<Rightarrow> duration \<Rightarrow> int \<Rightarrow> int \<Rightarrow> Execution \<Rightarrow> Execution" where
  "git_Execute run h start finish dflt outLimit errLimit e0 =
     (let e = MarkStarted start e0 in
      case ParseGitResource (ex_Resource e) of
        Inl err \<Rightarrow> MarkFailed finish (''invalid git resource: '' @ err) 1 e
      | Inr gitRes \<Rightarrow>
          (case git_repo_path h (gr_Repo gitRes) of
             Inl (msg, code) \<Rightarrow> MarkFailed finish msg code e
           | Inr realPath \<Rightarrow>
               (case git_args (ex_ActionType e) (gr_Branch gitRes) of
                  Inl msg \<Rightarrow> MarkFailed finish msg 1 e
                | Inr args \<Rightarrow>
                    let timeout = run_timeout dflt e;
                        cmd = \<lparr>cm_path = ''git'', cm_args = args, cm_dir = realPath, cm_env = None\<rparr> in
                    after_run ''git'' (Some ''git: binary not found in PATH'') timeout finish outLimit errLimit
                      (run cmd timeout) e)))"

end
