(* ===== verification/Revocation.thy ===== *)
theory Revocation
  imports Go_Prelude
begin

text \<open>
  Component: revocation queries (\<^verbatim>\<open>internal/revocation/types.go\<close>), the boundary that evaluation, claims and
  approvals share. A checker is a parameter of the code that asks it: its answer to a list of targets is a
  failure of its storage, no offender, or the first offender.
\<close>

datatype Class = ClassIssuer | ClassDelegation | ClassLease

type_synonym Pair = "Class \<times> string"

definition PairsFor :: "string \<Rightarrow> string list \<Rightarrow> string list \<Rightarrow> Pair list" where
  "PairsFor leaseID delegationKeys issuers =
     (if leaseID \<noteq> [] then [(ClassLease, leaseID)] else []) @
     map (\<lambda>k. (ClassDelegation, k)) (filter (\<lambda>k. k \<noteq> []) delegationKeys) @
     map (\<lambda>iss. (ClassIssuer, iss)) issuers"

fun class_name :: "Class \<Rightarrow> string" where
  "class_name ClassIssuer = ''issuer''"
| "class_name ClassDelegation = ''delegation''"
| "class_name ClassLease = ''lease''"

text \<open>\<open>Checker.AnyRevoked\<close>: an error, no revoked pair, or the first revoked one.\<close>

type_synonym checker = "Pair list \<Rightarrow> string + Pair option"

end
