(* ===== verification/Continuation_Claim.thy ===== *)
theory Continuation_Claim
  imports Continuation_Journal Execution_Executors Revocation
begin

text \<open>
  Component: the claim-time gates (\<^verbatim>\<open>internal/continuation/revocation.go\<close>,
  \<^verbatim>\<open>provenance.go\<close>) and the orchestrator (\<^verbatim>\<open>orchestrator.go\<close>, \<^verbatim>\<open>sweeper.go\<close>), with the synchronous
  execution of \<^verbatim>\<open>internal/handlers/continuations.go\<close>. The revocation checker, the lookup of an approval and the
  executors are parameters; \<open>clock k\<close> is the k-th reading of the time. Logging and events are left out.
\<close>

section \<open>Authority\<close>

definition RevocationPairs :: "Continuation \<Rightarrow> Pair list" where
  "RevocationPairs c = PairsFor (ct_LeaseID c) (ct_DelegationKeys c) (ct_Issuers c)"

text \<open>A gate answers with an error, a denial with its reason, or nothing.\<close>

type_synonym gate_answer = "string + string option"

definition CheckClaimAuthority :: "time \<Rightarrow> checker option \<Rightarrow> Continuation \<Rightarrow> gate_answer" where
  "CheckClaimAuthority now rc c =
     (if (case ct_AuthorityExpiresAt c of None \<Rightarrow> False | Some t \<Rightarrow> \<not> now < t)
      then Inr (Some ''captured authority expired before claim'')
      else (case rc of
              None \<Rightarrow> Inr None
            | Some anyRevoked \<Rightarrow>
                if RevocationPairs c = [] then Inr None
                else (case anyRevoked (RevocationPairs c) of
                        Inl err \<Rightarrow> Inl (''revocation state unavailable: '' @ err)
                      | Inr (Some (cls, target)) \<Rightarrow> Inr (Some (class_name cls @ '' '' @ Quote target @ '' is revoked''))
                      | Inr None \<Rightarrow> Inr None)))"

section \<open>Provenance\<close>

type_synonym approval_getter = "string \<Rightarrow> string + ApprovalRequest"

fun status_name :: "Status \<Rightarrow> string" where
  "status_name StatusPending = ''pending''"
| "status_name StatusApproved = ''approved''"
| "status_name StatusDenied = ''denied''"
| "status_name StatusExpired = ''expired''"

definition CheckClaimProvenance :: "approval_getter option \<Rightarrow> Continuation \<Rightarrow> gate_answer" where
  "CheckClaimProvenance approvals c =
     (case approvals of
        None \<Rightarrow> Inr None
      | Some getApproval \<Rightarrow>
          if ct_ApprovalID c = [] then Inr (Some ''continuation carries no approval reference'')
          else (case getApproval (ct_ApprovalID c) of
                  Inl err \<Rightarrow>
                    if Contains err ''not found'' then Inr (Some (''approval '' @ ct_ApprovalID c @ '' not resolvable''))
                    else Inl err
                | Inr ap \<Rightarrow>
                    if ap_Status ap \<noteq> StatusApproved then
                      Inr (Some (''approval '' @ ap_ApprovalID ap @ '' not approved (status '' @ status_name (ap_Status ap) @ '')''))
                    else if ap_DecisionID ap \<noteq> ct_DecisionID c then Inr (Some ''approval/continuation decision mismatch'')
                    else if ap_ActionType ap \<noteq> ct_ActionType c \<or> ap_Resource ap \<noteq> ct_Resource c then
                      Inr (Some ''approval/continuation action mismatch'')
                    else if ap_AgentID ap \<noteq> [] \<and> ct_AgentID c \<noteq> [] \<and> ap_AgentID ap \<noteq> ct_AgentID c then
                      Inr (Some ''approval/continuation agent mismatch'')
                    else Inr None))"

text \<open>The approvals store as the getter of the gate.\<close>

definition approval_lookup :: "approvals \<Rightarrow> approval_getter" where
  "approval_lookup items aid =
     (case map_of items aid of None \<Rightarrow> Inl (''approval not found: '' @ aid) | Some ap \<Rightarrow> Inr ap)"

section \<open>The orchestrator\<close>

text \<open>An executor leaves the record as it is after the call, with the message of a panic if it panicked.\<close>

type_synonym executor = "Execution \<Rightarrow> Execution \<times> string option"

record orchestrator =
  or_registry :: "(string, executor) gomap option"
  or_identityChecker :: "(string \<Rightarrow> bool) option"
  or_revocation :: "checker option"
  or_approvals :: "approval_getter option"
  or_pollInterval :: duration
  or_paused :: bool
  or_stuckRecoveryThreshold :: duration

text \<open>How a claimed continuation leaves execution: what is written back with \<open>Update\<close>.\<close>

datatype run_end =
    EndSkipped time time
  | EndDenied string string
  | EndSucceeded
  | EndFailed

fun settle :: "run_end \<Rightarrow> Continuation \<Rightarrow> Continuation" where
  "settle (EndSkipped skipped requeued) c = MarkRequeue requeued (c \<lparr>ct_LastSkippedAt := Some skipped\<rparr>)"
| "settle (EndDenied name why) c = MarkDenied name why c"
| "settle EndSucceeded c = MarkExecuted c"
| "settle EndFailed c = MarkExecutionFailed c"

definition claimGate :: "string \<Rightarrow> time \<Rightarrow> time \<Rightarrow> gate_answer \<Rightarrow> run_end option" where
  "claimGate name skipped requeued answer =
     (case answer of
        Inl err \<Rightarrow> Some (EndSkipped skipped requeued)
      | Inr (Some why) \<Rightarrow> Some (EndDenied name why)
      | Inr None \<Rightarrow> None)"

text \<open>The gates between the claim and the run, in order: revocation, provenance, a registered executor.\<close>

definition claim_gates :: "orchestrator \<Rightarrow> (nat \<Rightarrow> time) \<Rightarrow> Continuation \<Rightarrow> run_end option" where
  "claim_gates o' clock c =
     (case (if or_revocation o' \<noteq> None
            then claimGate ''revocation'' (clock 3) (clock 4) (CheckClaimAuthority (clock 2) (or_revocation o') c)
            else None) of
        Some e \<Rightarrow> Some e
      | None \<Rightarrow>
     (case (if or_approvals o' \<noteq> None
            then claimGate ''provenance'' (clock 5) (clock 6) (CheckClaimProvenance (or_approvals o') c)
            else None) of
        Some e \<Rightarrow> Some e
      | None \<Rightarrow>
     (case or_registry o' of
        None \<Rightarrow> None
      | Some reg \<Rightarrow> if map_of reg (ct_ActionType c) = None then Some (EndSkipped (clock 7) (clock 8)) else None)))"

definition exec_timeout :: "time \<Rightarrow> Continuation \<Rightarrow> int" where
  "exec_timeout now c =
     (case ct_ExpiresAt c of
        None \<Rightarrow> 60
      | Some t \<Rightarrow>
          let remaining = time_Sub t now in
          if 0 < remaining \<and> remaining < 60 * Second then max 5 (remaining div Second) else 60)"

text \<open>The call with its recovery from a panic; \<open>panicked\<close> is the error the caller records for a panic.\<close>

definition run_executor ::
  "(string, executor) gomap option \<Rightarrow> (string \<Rightarrow> string) \<Rightarrow> time \<Rightarrow> Execution \<Rightarrow> Execution" where
  "run_executor registry panicked now exe =
     (case registry of
        None \<Rightarrow> exe
      | Some reg \<Rightarrow>
          (case map_of reg (ex_ActionType exe) of
             None \<Rightarrow> exe
           | Some ex \<Rightarrow>
               (case ex exe of
                  (exe', None) \<Rightarrow> exe'
                | (exe', Some msg) \<Rightarrow> MarkFailed now (panicked msg) 1 exe')))"

definition end_of_run :: "Execution \<Rightarrow> run_end" where
  "end_of_run exe = (if ex_State exe = StateSucceeded then EndSucceeded else EndFailed)"

record world =
  w_conts :: cfstore
  w_execs :: "efstore option"

definition recently_skipped :: "orchestrator \<Rightarrow> time \<Rightarrow> Continuation \<Rightarrow> bool" where
  "recently_skipped o' now c =
     (case ct_LastSkippedAt c of
        None \<Rightarrow> False
      | Some t \<Rightarrow> \<not> IsZero t \<and> time_Sub now t < or_pollInterval o')"

text \<open>\<open>executeOne\<close>. The outcomes of the three writes (claim, execution record, update) are arguments; the
  result says what was run.\<close>

definition executeOne ::
  "orchestrator \<Rightarrow> (nat \<Rightarrow> time) \<Rightarrow> string \<Rightarrow> write_outcome \<times> write_outcome \<times> write_outcome \<Rightarrow> Continuation
     \<Rightarrow> world \<Rightarrow> Execution option \<times> world" where
  "executeOne o' clock fresh ws cnt0 w =
     (let (w1, w2, w3) = ws in
      if recently_skipped o' (clock 0) cnt0 then (None, w)
      else (case cf_ClaimForExecution w1 (clock 1) (ct_ContinuationID cnt0) (w_conts w) of
              (None, s) \<Rightarrow> (None, w \<lparr>w_conts := s\<rparr>)
            | (Some cnt, s) \<Rightarrow>
                (case claim_gates o' clock cnt of
                   Some e \<Rightarrow> (None, w \<lparr>w_conts := snd (cf_Update w3 (settle e cnt) s)\<rparr>)
                 | None \<Rightarrow>
                     let exe = run_executor (or_registry o') (\<lambda>msg. ''executor panic: '' @ msg) (clock 10)
                           (NewExecution fresh (ct_ContinuationID cnt) (ct_DecisionID cnt) (ct_ApprovalID cnt)
                              (ct_AgentID cnt) (ct_ActionType cnt) (ct_Resource cnt) (exec_timeout (clock 9) cnt)) in
                     (Some exe,
                      w \<lparr>w_conts := snd (cf_Update w3 (settle (end_of_run exe) cnt) s),
                         w_execs := map_option (\<lambda>es. snd (ef_Create w2 exe es)) (w_execs w)\<rparr>))))"

text \<open>The snapshots that \<open>drainQueue\<close> starts, each in a goroutine of its own.\<close>

definition drainQueue :: "orchestrator \<Rightarrow> cfstore \<Rightarrow> Continuation list" where
  "drainQueue o' s =
     (if or_paused o' then []
      else filter (\<lambda>c. case or_identityChecker o' of None \<Rightarrow> True | Some ok \<Rightarrow> ok (ct_AgentID c))
             (cnt_ListByState StateQueued (cf_conts s)))"

text \<open>The synchronous execution of the handler: the same gates, with the identity gate after the claim.\<close>

datatype execute_reply =
    ReplyNotFound
  | ReplyConflict string
  | ReplyBadRequest string
  | ReplyRan Execution

definition em_dash :: string where
  "em_dash = [CHR 0xE2, CHR 0x80, CHR 0x94]"

fun state_name :: "State \<Rightarrow> string" where
  "state_name StateEscalated = ''escalated''"
| "state_name StateApproved = ''approved''"
| "state_name StateQueued = ''queued''"
| "state_name StateExecuting = ''executing''"
| "state_name StateDenied = ''denied''"
| "state_name StateResumed = ''resumed''"
| "state_name StateExpired = ''expired''"
| "state_name StateExecuted = ''executed''"
| "state_name StateCancelled = ''cancelled''"

definition requeue_only :: "time \<Rightarrow> Continuation \<Rightarrow> Continuation" where
  "requeue_only now c = MarkRequeue now c"

definition handleExecute ::
  "orchestrator \<Rightarrow> (nat \<Rightarrow> time) \<Rightarrow> string \<Rightarrow> int option \<Rightarrow> write_outcome \<times> write_outcome \<times> write_outcome \<Rightarrow> string
     \<Rightarrow> world \<Rightarrow> execute_reply \<times> world" where
  "handleExecute h clock fresh timeoutParam ws cid w =
     (let (w1, w2, w3) = ws;
          update = (\<lambda>c s. w \<lparr>w_conts := snd (cf_Update w3 c s)\<rparr>) in
      case cf_ClaimForExecution w1 (clock 1) cid (w_conts w) of
        (None, s) \<Rightarrow>
          (case map_of (cf_conts s) cid of
             None \<Rightarrow> (ReplyNotFound, w \<lparr>w_conts := s\<rparr>)
           | Some c \<Rightarrow>
               (ReplyConflict (if ct_State c = StateExecuting then ''continuation is already claimed for execution''
                  else if IsExpired (clock 2) c then ''continuation is expired and cannot be executed''
                  else ''continuation not in executable state: current state='' @ state_name (ct_State c)), w \<lparr>w_conts := s\<rparr>))
      | (Some cnt, s) \<Rightarrow>
          if (case or_identityChecker h of None \<Rightarrow> False | Some ok \<Rightarrow> \<not> ok (ct_AgentID cnt)) then
            (ReplyConflict ''continuation subject identity is not active'', update (requeue_only (clock 4) cnt) s)
          else
            (case (if or_revocation h \<noteq> None then CheckClaimAuthority (clock 2) (or_revocation h) cnt else Inr None) of
               Inl err \<Rightarrow> (ReplyConflict (''revocation state unavailable '' @ em_dash @ '' cannot execute''), update (requeue_only (clock 4) cnt) s)
             | Inr (Some why) \<Rightarrow> (ReplyConflict (''continuation denied: '' @ why), update (MarkDenied ''revocation'' why cnt) s)
             | Inr None \<Rightarrow>
            (case (if or_approvals h \<noteq> None then CheckClaimProvenance (or_approvals h) cnt else Inr None) of
               Inl err \<Rightarrow> (ReplyConflict (''approval state unavailable '' @ em_dash @ '' cannot execute''), update (requeue_only (clock 6) cnt) s)
             | Inr (Some why) \<Rightarrow> (ReplyConflict (''continuation denied: '' @ why), update (MarkDenied ''provenance'' why cnt) s)
             | Inr None \<Rightarrow>
                 if (case or_registry h of None \<Rightarrow> False | Some reg \<Rightarrow> map_of reg (ct_ActionType cnt) = None) then
                   (ReplyBadRequest (''no executor registered for action type: '' @ ct_ActionType cnt),
                    update (requeue_only (clock 8) cnt) s)
                 else
                   let timeout = (case timeoutParam of None \<Rightarrow> 60 | Some t \<Rightarrow> if 0 < t \<and> t \<le> 300 then t else 60);
                       exe = run_executor (or_registry h) (\<lambda>_. ''executor panic'') (clock 10)
                         (NewExecution fresh (ct_ContinuationID cnt) (ct_DecisionID cnt) (ct_ApprovalID cnt)
                            (ct_AgentID cnt) (ct_ActionType cnt) (ct_Resource cnt) timeout) in
                   (ReplyRan exe,
                    (update (settle (end_of_run exe) cnt) s)
                      \<lparr>w_execs := map_option (\<lambda>es. snd (ef_Create w2 exe es)) (w_execs w)\<rparr>))))"

section \<open>Sweeps\<close>

definition RecoverAllExecuting :: "write_outcome \<Rightarrow> cfstore \<Rightarrow> cfstore" where
  "RecoverAllExecuting w s =
     fold (\<lambda>cid s. snd (cf_RecoverFromExecuting w cid s)) (ListExecutingIDs (cf_conts s)) s"

definition claimTime :: "Continuation \<Rightarrow> time" where
  "claimTime c =
     (case ct_ExecutingAt c of None \<Rightarrow> ct_CreatedAt c | Some t \<Rightarrow> if IsZero t then ct_CreatedAt c else t)"

definition OldestExecutingAt :: "cfstore \<Rightarrow> time" where
  "OldestExecutingAt s =
     fold (\<lambda>c oldest. let t = claimTime c in
             if IsZero t then oldest else if IsZero oldest \<or> t < oldest then t else oldest)
       (cnt_ListByState StateExecuting (cf_conts s)) 0"

definition stuck :: "duration \<Rightarrow> time \<Rightarrow> Continuation \<Rightarrow> bool" where
  "stuck threshold now c \<longleftrightarrow> \<not> IsZero (claimTime c) \<and> \<not> time_Sub now (claimTime c) < threshold"

definition sweepStuckExecutingThreshold :: "orchestrator \<Rightarrow> write_outcome \<Rightarrow> time \<Rightarrow> cfstore \<Rightarrow> cfstore" where
  "sweepStuckExecutingThreshold o' w now s =
     (if or_stuckRecoveryThreshold o' \<le> 0 then s
      else fold (\<lambda>cid s.
             case map_of (cf_conts s) cid of
               None \<Rightarrow> s
             | Some snap \<Rightarrow>
                 if stuck (or_stuckRecoveryThreshold o') now snap then snd (cf_RecoverFromExecuting w cid s) else s)
           (ListExecutingIDs (cf_conts s)) s)"

definition SetStuckExecutingSweep :: "int \<Rightarrow> int \<Rightarrow> duration \<Rightarrow> duration \<times> duration" where
  "SetStuckExecutingSweep intervalSec recoveryThresholdMin old =
     (if intervalSec \<le> 0 then (0, old)
      else (intervalSec * Second, (if recoveryThresholdMin \<le> 0 then 30 else recoveryThresholdMin) * Minute))"

text \<open>\<open>expireDue\<close> of the sweeper: the candidates are a snapshot; the store checks each again.\<close>

fun expire_each :: "write_outcome \<Rightarrow> time \<Rightarrow> Continuation list \<Rightarrow> cfstore \<Rightarrow> nat \<times> cfstore" where
  "expire_each w now [] s = (0, s)"
| "expire_each w now (c # cs) s =
     (if \<not> ShouldExpire now c then expire_each w now cs s
      else (case cf_ExpireIfDue w now (ct_ContinuationID c) s of
              (None, s') \<Rightarrow> expire_each w now cs s'
            | (Some _, s') \<Rightarrow> (case expire_each w now cs s' of (n, s'') \<Rightarrow> (Suc n, s''))))"

definition expireDue :: "write_outcome \<Rightarrow> time \<Rightarrow> cfstore \<Rightarrow> nat \<times> nat \<times> cfstore" where
  "expireDue w now s =
     (let candidates = cnt_ListNonTerminal (cf_conts s); (n, s') = expire_each w now candidates s in
      (length candidates, n, s'))"

end
