(* ===== verification/Continuation_Runs.thy ===== *)
theory Continuation_Runs
  imports Continuation_Laws Continuation_Claim
begin

text \<open>
  Runs of the continuation store: every store operation and every settling of a claimed continuation
  as one step, with the claimed snapshots that are in flight beside the store. What an operation
  leaves under an identifier is given by one equation per operation; the invariants rest on these.
\<close>

section \<open>What an operation leaves under an identifier\<close>

named_theorems cf_lookup \<open>the record under an identifier after a store operation\<close>

lemma cf_append_conts [simp]: "cf_conts (snd (cf_append w ev s)) = cf_conts s"
  by (cases w) (simp_all add: cf_append_def)

lemma cf_append_tombs [simp]: "cf_tombs (snd (cf_append w ev s)) = cf_tombs s"
  by (cases w) (simp_all add: cf_append_def)

lemma cf_append_ok [simp]: "fst (cf_append w ev s) \<longleftrightarrow> w = WriteOk"
  by (cases w) (simp_all add: cf_append_def)

lemma transitionLocked_conts:
  "cf_conts (snd (transitionLocked w cid c s)) = (if w = WriteOk then AList.update cid c (cf_conts s) else cf_conts s)"
  by (cases w) (simp_all add: transitionLocked_def persistLocked_def cf_append_def cf_put_def)

lemma transitionLocked_ok: "fst (transitionLocked w cid c s) \<longleftrightarrow> w = WriteOk"
  by (cases w) (simp_all add: transitionLocked_def persistLocked_def cf_append_def)

lemma cf_guarded_store:
  "snd (cf_guarded w g f cid s) =
     (case map_of (cf_conts s) cid of None \<Rightarrow> s | Some c \<Rightarrow> if g c then snd (transitionLocked w cid (f c) s) else s)"
  by (auto simp: cf_guarded_def split: option.splits prod.splits bool.splits)

lemma cf_guarded_lookup [cf_lookup]:
  "map_of (cf_conts (snd (cf_guarded w g f cid s))) k =
     map_option (\<lambda>c. if k = cid \<and> g c \<and> w = WriteOk then f c else c) (map_of (cf_conts s) k)"
  by (cases "map_of (cf_conts s) cid"; cases "map_of (cf_conts s) k")
     (auto simp: cf_guarded_store transitionLocked_conts)

lemma cf_guarded_result:
  "fst (cf_guarded w g f cid s) =
     (case map_of (cf_conts s) cid of
        None \<Rightarrow> None
      | Some c \<Rightarrow> if g c \<and> w = WriteOk then Some (f c) else None)"
proof (cases "map_of (cf_conts s) cid")
  case (Some c)
  with transitionLocked_ok [of w cid "f c" s] show ?thesis
    by (auto simp: cf_guarded_def split: prod.splits bool.splits)
qed (simp add: cf_guarded_def)

lemma cf_unguarded_lookup [cf_lookup]:
  "map_of (cf_conts (snd (cf_unguarded w g f cid s))) k =
     map_option (\<lambda>c. if k = cid \<and> g c then f c else c) (map_of (cf_conts s) k)"
  by (cases "map_of (cf_conts s) cid"; cases "map_of (cf_conts s) k")
     (auto simp: cf_unguarded_def persistLocked_def cf_put_def)

lemma cf_each_lookup:
  "distinct cids \<Longrightarrow> map_of (cf_conts (cf_each w f p cids s)) k =
     map_option (\<lambda>c. if k \<in> set cids then f c else c) (map_of (cf_conts s) k)"
proof (induction cids arbitrary: s)
  case Nil
  then show ?case by (simp add: option.map_ident)
next
  case (Cons cid cids)
  show ?case
  proof (cases "map_of (cf_conts s) cid")
    case None
    with Cons show ?thesis by (cases "map_of (cf_conts s) k") auto
  next
    case (Some c)
    have "map_of (cf_conts (if p c then snd (persistLocked w (f c) (cf_put cid (f c) s)) else cf_put cid (f c) s)) =
        (map_of (cf_conts s))(cid \<mapsto> f c)"
      by (simp add: persistLocked_def cf_put_def)
    with Cons Some show ?thesis by (cases "map_of (cf_conts s) k") (auto simp: Let_def)
  qed
qed

lemma cf_each_all:
  assumes "map_ok (cf_conts s)"
  shows "map_of (cf_conts (cf_each w f p (map fst (cf_conts s)) s)) k = map_option f (map_of (cf_conts s) k)"
proof (cases "map_of (cf_conts s) k")
  case None
  with assms show ?thesis by (simp add: cf_each_lookup map_ok_def)
next
  case (Some c)
  then have "k \<in> set (map fst (cf_conts s))" by (metis domI dom_map_of_conv_image_fst list.set_map)
  with Some assms show ?thesis by (simp add: cf_each_lookup map_ok_def)
qed

lemma cf_Create_lookup [cf_lookup]:
  "map_of (cf_conts (snd (cf_Create w c s))) k =
     (if k = ct_ContinuationID c \<and> map_of (cf_conts s) k = None \<and> w = WriteOk then Some c else map_of (cf_conts s) k)"
  by (auto simp: cf_Create_def transitionLocked_conts)

lemma cf_Update_lookup [cf_lookup]:
  "map_of (cf_conts (snd (cf_Update w c s))) k =
     map_option (\<lambda>c0. if k = ct_ContinuationID c \<and> w = WriteOk then c else c0) (map_of (cf_conts s) k)"
  by (cases "map_of (cf_conts s) k") (auto simp: cf_Update_def transitionLocked_conts)

lemma foldCompact_lookup:
  "map_of (fst (foldCompact removed (m, tombs))) k = Some c' \<Longrightarrow>
   map_of m k = Some c' \<or> (\<exists>c. map_of m k = Some c \<and> IsTerminal c \<and> c' = skeleton k (ct_State c))"
proof (induction removed arbitrary: m tombs)
  case Nil
  then show ?case by (simp add: foldCompact_def)
next
  case (Cons cid removed)
  obtain m1 t1 where one: "compact_one cid (m, tombs) = (m1, t1)" by force
  have m1: "map_of m1 k = map_of m k \<or> map_of m1 k = None \<or>
      (\<exists>c. map_of m k = Some c \<and> IsTerminal c \<and> map_of m1 k = Some (skeleton k (ct_State c)))"
    using one by (auto split: option.splits if_splits)
  from Cons.prems one have "map_of (fst (foldCompact removed (m1, t1))) k = Some c'"
    by (simp add: foldCompact_def)
  from Cons.IH [OF this] m1 show ?case by (auto simp: skeleton_def)
qed

lemma Sweep_lookup:
  "map_of (cf_conts (snd (Sweep w now s))) k = Some c' \<Longrightarrow>
   map_of (cf_conts s) k = Some c' \<or>
   (\<exists>c. map_of (cf_conts s) k = Some c \<and> IsTerminal c \<and> c' = skeleton k (ct_State c))"
  using foldCompact_lookup [of "sweepRemovals now s" "cf_conts s" "cf_tombs s" k c']
  by (auto simp: Sweep_def Let_def split: if_splits prod.splits)

lemma foldCompact_keeps_terminal:
  "map_of m k = Some c \<Longrightarrow> IsTerminal c \<Longrightarrow> map_of (fst (foldCompact removed (m, tombs))) k \<noteq> None"
proof (induction removed arbitrary: m tombs c)
  case Nil
  then show ?case by (simp add: foldCompact_def)
next
  case (Cons cid removed)
  obtain m1 t1 where one: "compact_one cid (m, tombs) = (m1, t1)" by force
  then obtain c1 where "map_of m1 k = Some c1" "IsTerminal c1"
    using Cons.prems by (cases "cid = k") (auto simp: skeleton_def IsTerminal_def split: option.splits if_splits)
  from Cons.IH [OF this, of t1] one show ?case by (simp add: foldCompact_def)
qed

lemma Sweep_keeps_terminal:
  "map_of (cf_conts s) k = Some c \<Longrightarrow> IsTerminal c \<Longrightarrow> map_of (cf_conts (snd (Sweep w now s))) k \<noteq> None"
  using foldCompact_keeps_terminal [of "cf_conts s" k c "sweepRemovals now s" "cf_tombs s"]
  by (auto simp: Sweep_def Let_def split: if_splits prod.splits)

section \<open>Runs\<close>

datatype cnt_op =
    OpCreate Continuation
  | OpClaim time string
  | OpClaimRetry time string
  | OpFinish string run_end
  | OpRecover string
  | OpRetry time string
  | OpCancel time string
  | OpExpire time string
  | OpEnqueue time string
  | OpDecide time string bool string string
  | OpResume time string
  | OpSweep time

record cnt_sys =
  sy_store :: cfstore
  sy_inflight :: conts

definition claimed :: "Continuation option \<times> cfstore \<Rightarrow> string \<Rightarrow> cnt_sys \<Rightarrow> cnt_sys" where
  "claimed r cid s =
     \<lparr>sy_store = snd r,
      sy_inflight = (case fst r of None \<Rightarrow> sy_inflight s | Some c \<Rightarrow> AList.update cid c (sy_inflight s))\<rparr>"

fun sys_exec :: "write_outcome \<Rightarrow> cnt_op \<Rightarrow> cnt_sys \<Rightarrow> cnt_sys" where
  "sys_exec w (OpCreate c) s = s \<lparr>sy_store := snd (cf_Create w c (sy_store s))\<rparr>"
| "sys_exec w (OpClaim now cid) s = claimed (cf_ClaimForExecution w now cid (sy_store s)) cid s"
| "sys_exec w (OpClaimRetry now cid) s = claimed (cf_ClaimForRetry w now cid (sy_store s)) cid s"
| "sys_exec w (OpFinish cid e) s =
     (case map_of (sy_inflight s) cid of
        None \<Rightarrow> s
      | Some c \<Rightarrow>
          \<lparr>sy_store = snd (cf_Update w (settle e c) (sy_store s)), sy_inflight = AList.delete cid (sy_inflight s)\<rparr>)"
| "sys_exec w (OpRecover cid) s = s \<lparr>sy_store := snd (cf_RecoverFromExecuting w cid (sy_store s))\<rparr>"
| "sys_exec w (OpRetry now cid) s = s \<lparr>sy_store := snd (cf_RetryForExecution w now cid (sy_store s))\<rparr>"
| "sys_exec w (OpCancel now cid) s = s \<lparr>sy_store := snd (cf_CancelForOperation w now cid (sy_store s))\<rparr>"
| "sys_exec w (OpExpire now cid) s = s \<lparr>sy_store := snd (cf_ExpireIfDue w now cid (sy_store s))\<rparr>"
| "sys_exec w (OpEnqueue now cid) s = s \<lparr>sy_store := snd (cf_EnqueueForExecution w now cid (sy_store s))\<rparr>"
| "sys_exec w (OpDecide now aid approved by' reason) s =
     s \<lparr>sy_store := cf_ApplyApprovalDecision w now aid approved by' reason (sy_store s)\<rparr>"
| "sys_exec w (OpResume now aid) s = s \<lparr>sy_store := cf_ResumeForApproval w now aid (sy_store s)\<rparr>"
| "sys_exec w (OpSweep now) s = s \<lparr>sy_store := snd (Sweep w now (sy_store s))\<rparr>"

definition sys_run :: "(write_outcome \<times> cnt_op) list \<Rightarrow> cnt_sys \<Rightarrow> cnt_sys" where
  "sys_run ops s = fold (\<lambda>(w, op). sys_exec w op) ops s"

definition empty_sys :: "int \<Rightarrow> nat \<Rightarrow> cnt_sys" where
  "empty_sys retentionDays maxRecords =
     \<lparr>sy_store = \<lparr>cf_conts = [], cf_tombs = [], cf_log = [], cf_retentionDays = retentionDays,
        cf_maxRecords = maxRecords, cf_staleIDs = []\<rparr>, sy_inflight = []\<rparr>"

lemma sys_run_snoc: "sys_run (ops @ [(w, op)]) s = sys_exec w op (sys_run ops s)"
  by (simp add: sys_run_def)

end
