(* ===== verification/Continuation_Properties.thy ===== *)
theory Continuation_Properties
  imports Continuation_Runs
begin

text \<open>
  The properties of continuations: nothing runs without an approval, a settled outcome is final, the
  journal of a run gives the store back, the two ways in which a journal stops folding, and how a run that is
  recovered in flight is claimed a second time.
\<close>

lemmas cf_ops =
  cf_ClaimForExecution_def cf_ClaimForRetry_def cf_RecoverFromExecuting_def cf_RetryForExecution_def
  cf_CancelForOperation_def cf_ExpireIfDue_def cf_EnqueueForExecution_def

section \<open>Keys stay distinct\<close>

lemma map_ok_transition [simp]: "map_ok (cf_conts s) \<Longrightarrow> map_ok (cf_conts (snd (transitionLocked w cid c s)))"
  by (simp add: transitionLocked_conts)

lemma map_ok_guarded [simp]: "map_ok (cf_conts s) \<Longrightarrow> map_ok (cf_conts (snd (cf_guarded w g f cid s)))"
  by (simp add: cf_guarded_store split: option.splits)

lemma map_ok_unguarded [simp]: "map_ok (cf_conts s) \<Longrightarrow> map_ok (cf_conts (snd (cf_unguarded w g f cid s)))"
  by (simp add: cf_unguarded_def persistLocked_def cf_put_def split: option.splits)

lemma map_ok_Update [simp]: "map_ok (cf_conts s) \<Longrightarrow> map_ok (cf_conts (snd (cf_Update w c s)))"
  by (simp add: cf_Update_def)

lemma map_ok_each: "map_ok (cf_conts s) \<Longrightarrow> map_ok (cf_conts (cf_each w f p cids s))"
  by (induction w f p cids s rule: cf_each.induct)
     (simp_all add: Let_def persistLocked_def cf_put_def split: option.splits)

lemma map_ok_foldCompact: "map_ok m \<Longrightarrow> map_ok (fst (foldCompact removed (m, tombs)))"
proof (induction removed arbitrary: m tombs)
  case (Cons cid removed)
  obtain m1 t1 where one: "compact_one cid (m, tombs) = (m1, t1)" by force
  then have "map_ok m1" using Cons.prems by (auto split: option.splits if_splits)
  with Cons.IH [of m1 t1] one show ?case by (simp add: foldCompact_def)
qed (simp add: foldCompact_def)

lemma map_ok_Sweep: "map_ok (cf_conts s) \<Longrightarrow> map_ok (cf_conts (snd (Sweep w now s)))"
  using map_ok_foldCompact [of "cf_conts s" "sweepRemovals now s" "cf_tombs s"]
  by (auto simp: Sweep_def Let_def split: prod.splits)

section \<open>No execution without an approval\<close>

text \<open>A continuation that is past its approval, or can be retried into that.\<close>

definition active :: "Continuation \<Rightarrow> bool" where
  "active c \<longleftrightarrow> ct_State c \<in> {StateApproved, StateQueued, StateExecuting, StateResumed} \<or>
     ct_State c = StateExecuted \<and> 0 < ct_MaxRetries c"

definition grants :: "cnt_op \<Rightarrow> string set" where
  "grants op = (case op of OpDecide now aid approved by' reason \<Rightarrow> if approved then {aid} else {} | _ \<Rightarrow> {})"

definition granted :: "string set \<Rightarrow> Continuation \<Rightarrow> bool" where
  "granted A c \<longleftrightarrow> (active c \<longrightarrow> ct_ApprovalID c \<in> A)"

definition grant_ok :: "string set \<Rightarrow> cnt_sys \<Rightarrow> bool" where
  "grant_ok A s \<longleftrightarrow> map_ok (cf_conts (sy_store s)) \<and>
     (\<forall>k c. map_of (cf_conts (sy_store s)) k = Some c \<longrightarrow> granted A c) \<and>
     (\<forall>k c. map_of (sy_inflight s) k = Some c \<longrightarrow> granted A c \<and> ct_State c = StateExecuting)"

lemma granted_moves:
  assumes "granted A c"
  shows "isClaimable now c \<Longrightarrow> granted A (markExecuting now c)"
    "ct_State c = StateResumed \<Longrightarrow> granted A (markExecuting now c)"
    "ct_State c = StateExecuting \<Longrightarrow> granted A (settle e c)"
    "ct_State c = StateExecuting \<Longrightarrow> granted A (markOutcomeUnknown c)"
    "retryEligible c \<Longrightarrow>
       granted A (c \<lparr>ct_State := StateResumed, ct_RetryCount := ct_RetryCount c + 1, ct_ResumedAt := Some now\<rparr>)"
    "granted A (MarkCancelled now c)" "granted A (MarkExpired now c)" "granted A (MarkQueued now c)"
    "granted A (resume_bound now aid c)"
    "granted (A \<union> (if approved then {aid} else {})) (apply_decision now aid approved by' reason c)"
  using assms
  by (cases e; auto simp: granted_def active_def cnt_marks cnt_tests retryEligible_def resume_bound_def
      apply_decision_def split: State.splits if_splits)+

lemma granted_mono: "A \<subseteq> B \<Longrightarrow> granted A c \<Longrightarrow> granted B c"
  by (auto simp: granted_def)

lemma granted_skeleton: "isTerminalState st \<Longrightarrow> granted A (skeleton k st)"
  by (auto simp: granted_def active_def skeleton_def zero_continuation_def isTerminalState_def)

text \<open>One store operation after another keeps the invariant; the shape of each is one of four.\<close>

lemma grant_ok_store:
  assumes "grant_ok A s" "A \<subseteq> B" "map_ok (cf_conts t)"
    and "\<And>k c'. map_of (cf_conts t) k = Some c' \<Longrightarrow>
      (\<exists>c. map_of (cf_conts (sy_store s)) k = Some c \<and> (c' = c \<or> granted B c')) \<or> granted B c'"
  shows "grant_ok B (s \<lparr>sy_store := t\<rparr>)"
proof -
  have "granted B c'" if "map_of (cf_conts t) k = Some c'" for k c'
    using assms(4) [OF that] assms(1,2) granted_mono by (auto simp: grant_ok_def)
  then show ?thesis using assms(1-3) granted_mono by (auto simp: grant_ok_def)
qed

lemma grant_ok_guarded:
  assumes "grant_ok A s" "\<And>c. granted A c \<Longrightarrow> g c \<Longrightarrow> granted A (f c)"
  shows "grant_ok A (s \<lparr>sy_store := snd (cf_guarded w g f cid (sy_store s))\<rparr>)"
  using assms by (intro grant_ok_store [OF assms(1) order_refl]) (auto simp: grant_ok_def cf_lookup)

lemma grant_ok_unguarded:
  assumes "grant_ok A s" "\<And>c. granted A c \<Longrightarrow> g c \<Longrightarrow> granted A (f c)"
  shows "grant_ok A (s \<lparr>sy_store := snd (cf_unguarded w g f cid (sy_store s))\<rparr>)"
  using assms by (intro grant_ok_store [OF assms(1) order_refl]) (auto simp: grant_ok_def cf_lookup)

lemma grant_ok_each:
  assumes "grant_ok A s" "A \<subseteq> B" "\<And>c. granted A c \<Longrightarrow> granted B (f c)"
  shows "grant_ok B (s \<lparr>sy_store := cf_each w f p (map fst (cf_conts (sy_store s))) (sy_store s)\<rparr>)"
  using assms by (intro grant_ok_store [OF assms(1,2)]) (auto simp: grant_ok_def cf_each_all intro: map_ok_each)

lemma grant_ok_inflight:
  "grant_ok A s \<Longrightarrow> granted A c \<Longrightarrow> ct_State c = StateExecuting \<Longrightarrow>
   grant_ok A (s \<lparr>sy_inflight := AList.update k c (sy_inflight s)\<rparr>)"
  unfolding grant_ok_def by (auto split: if_splits)

lemma claimed_None: "fst r = None \<Longrightarrow> claimed r cid s = s \<lparr>sy_store := snd r\<rparr>"
  by (simp add: claimed_def)

lemma claimed_Some:
  "fst r = Some c \<Longrightarrow> claimed r cid s =
     (s \<lparr>sy_store := snd r\<rparr>) \<lparr>sy_inflight := AList.update cid c (sy_inflight (s \<lparr>sy_store := snd r\<rparr>))\<rparr>"
  by (simp add: claimed_def)

lemma grant_ok_claimed:
  assumes "grant_ok A s" "\<And>c. granted A c \<Longrightarrow> g c \<Longrightarrow> granted A (markExecuting now c)"
  shows "grant_ok A (claimed (cf_guarded w g (markExecuting now) cid (sy_store s)) cid s)" (is "grant_ok A (claimed ?r cid s)")
proof -
  have ok: "grant_ok A (s \<lparr>sy_store := snd ?r\<rparr>)" by (rule grant_ok_guarded [OF assms])
  show ?thesis
  proof (cases "fst ?r")
    case None
    then show ?thesis using ok by (simp only: claimed_None)
  next
    case (Some c')
    then obtain c where "map_of (cf_conts (sy_store s)) cid = Some c" "g c" "c' = markExecuting now c"
      by (auto simp: cf_guarded_result split: option.splits if_splits)
    then have "granted A c'" "ct_State c' = StateExecuting"
      using assms by (auto simp: grant_ok_def markExecuting_def)
    then show ?thesis unfolding claimed_Some [OF Some] by (rule grant_ok_inflight [OF ok])
  qed
qed

lemma grant_step:
  assumes ok: "grant_ok A s" and fresh: "\<And>c. op = OpCreate c \<Longrightarrow> ct_State c = StateEscalated"
  shows "grant_ok (A \<union> grants op) (sys_exec w op s)"
proof (cases op)
  case (OpCreate c)
  then have "granted A c" using fresh by (simp add: granted_def active_def)
  then show ?thesis using ok OpCreate
    by (auto simp: grants_def grant_ok_def cf_lookup) (simp add: cf_Create_def)
next
  case (OpFinish cid e)
  show ?thesis
  proof (cases "map_of (sy_inflight s) cid")
    case (Some c)
    then have "granted A (settle e c)" using ok by (auto simp: grant_ok_def intro: granted_moves)
    then show ?thesis using ok Some OpFinish
      by (auto simp: grants_def grant_ok_def cf_lookup split: if_splits)
  qed (use ok OpFinish in \<open>simp add: grants_def\<close>)
next
  case (OpSweep now)
  show ?thesis unfolding OpSweep sys_exec.simps
  proof (rule grant_ok_store [OF ok], goal_cases)
    case (3 k c')
    from Sweep_lookup [OF 3] show ?case by (auto simp: IsTerminal_def intro: granted_skeleton)
  qed (use ok in \<open>auto simp: grant_ok_def intro: map_ok_Sweep\<close>)
next
  case (OpDecide now aid approved by' reason)
  then show ?thesis unfolding OpDecide sys_exec.simps cf_ApplyApprovalDecision_def Let_def grants_def cnt_op.simps
    by (intro grant_ok_each [OF ok]) (auto dest: granted_moves(10) [of A _ approved aid now by' reason])
next
  case (OpResume now aid)
  then show ?thesis unfolding OpResume sys_exec.simps cf_ResumeForApproval_def grants_def cnt_op.simps
    by (intro grant_ok_each [OF ok]) (auto dest: granted_moves(9))
qed (use ok in \<open>auto simp: cf_ops grants_def intro!: grant_ok_guarded grant_ok_unguarded grant_ok_claimed
      dest: granted_moves\<close>)

lemma grant_run:
  assumes "\<And>w c. (w, OpCreate c) \<in> set ops \<Longrightarrow> ct_State c = StateEscalated" "grant_ok A s"
  shows "grant_ok (A \<union> (\<Union>(w, op)\<in>set ops. grants op)) (sys_run ops s)"
  using assms
proof (induction ops arbitrary: A s)
  case Nil
  then show ?case by (simp add: sys_run_def)
next
  case (Cons wop ops)
  obtain w op where wop: "wop = (w, op)" by force
  have "grant_ok (A \<union> grants op) (sys_exec w op s)"
    using Cons.prems wop by (intro grant_step) auto
  from Cons.IH [OF _ this] Cons.prems(1) wop show ?case by (auto simp: sys_run_def Un_assoc)
qed

lemma grant_ok_empty: "grant_ok {} (empty_sys days recs)"
  by (simp add: grant_ok_def empty_sys_def)

text \<open>C9: A continuation that was created escalated is claimed for execution only if an approval of its
  approval id was applied before, whatever else the store did (retries, requeues, recoveries, sweeps, failed
  writes) and however the steps interleave.\<close>

theorem no_claim_without_approval:
  assumes "\<And>w c. (w, OpCreate c) \<in> set ops \<Longrightarrow> ct_State c = StateEscalated"
    and "fst (cf_ClaimForExecution w now cid (sy_store (sys_run ops (empty_sys days recs)))) = Some c"
  shows "\<exists>w' now' by' reason. (w', OpDecide now' (ct_ApprovalID c) True by' reason) \<in> set ops"
proof -
  let ?s = "sys_run ops (empty_sys days recs)"
  have ok: "grant_ok (\<Union>(w, op)\<in>set ops. grants op) ?s"
    using grant_run [OF assms(1) grant_ok_empty] by simp
  from assms(2) obtain c0 where c0: "map_of (cf_conts (sy_store ?s)) cid = Some c0" "isClaimable now c0"
    and c: "c = markExecuting now c0"
    by (auto simp: cf_ClaimForExecution_def cf_guarded_result split: option.splits if_splits)
  then have "active c0" "granted (\<Union>(w, op)\<in>set ops. grants op) c0"
    using ok by (auto simp: active_def isClaimable_def grant_ok_def split: if_splits)
  then have "ct_ApprovalID c \<in> (\<Union>(w, op)\<in>set ops. grants op)"
    by (simp add: granted_def c markExecuting_def)
  then obtain w' op where "(w', op) \<in> set ops" "ct_ApprovalID c \<in> grants op" by auto
  then show ?thesis by (cases op) (auto simp: grants_def split: if_splits)
qed

definition sample_continuation :: Continuation where
  "sample_continuation = WithApprovalID ''apr_1'' (NewContinuation 100 ''1'' ''dec_1'' ''shell'' ''shell:ls'')"

theorem no_claim_without_approval_witness:
  "\<exists>w' now' by' reason. (w', OpDecide now' ''apr_1'' True by' reason) \<in>
     set [(WriteOk, OpCreate sample_continuation), (WriteOk, OpDecide 200 ''apr_1'' True ''operator'' [])]"
proof -
  let ?ops = "[(WriteOk, OpCreate sample_continuation), (WriteOk, OpDecide 200 ''apr_1'' True ''operator'' [])]"
  have c: "\<exists>c. fst (cf_ClaimForExecution WriteOk 300 ''cnt_1'' (sy_store (sys_run ?ops (empty_sys 7 10)))) = Some c \<and>
      ct_ApprovalID c = ''apr_1''"
    by (simp add: sys_run_def empty_sys_def cf_Create_def sample_continuation_def NewContinuation_def
        zero_continuation_def WithApprovalID_def transitionLocked_def persistLocked_def cf_append_def cf_put_def
        cf_ApplyApprovalDecision_def apply_decision_def cnt_marks cnt_tests cf_ClaimForExecution_def cf_guarded_def Let_def)
  have e: "ct_State c = StateEscalated" if "(w, OpCreate c) \<in> set ?ops" for w c
    using that by (auto simp: sample_continuation_def NewContinuation_def WithApprovalID_def)
  from c obtain c0 where c0: "fst (cf_ClaimForExecution WriteOk 300 ''cnt_1'' (sy_store (sys_run ?ops (empty_sys 7 10)))) = Some c0"
    and aid: "ct_ApprovalID c0 = ''apr_1''" by blast
  from no_claim_without_approval [OF e c0] show ?thesis unfolding aid .
qed

section \<open>Claimed continuations in flight\<close>

lemma cnt_ids [simp]:
  "ct_ContinuationID (markExecuting now c) = ct_ContinuationID c"
  "ct_ContinuationID (markOutcomeUnknown c) = ct_ContinuationID c"
  "ct_ContinuationID (MarkCancelled now c) = ct_ContinuationID c"
  "ct_ContinuationID (MarkExpired now c) = ct_ContinuationID c"
  "ct_ContinuationID (MarkQueued now c) = ct_ContinuationID c"
  "ct_ContinuationID (resume_bound now aid c) = ct_ContinuationID c"
  "ct_ContinuationID (apply_decision now aid approved by' reason c) = ct_ContinuationID c"
  "ct_ContinuationID (settle e c) = ct_ContinuationID c"
  "ct_ContinuationID (skeleton cid st) = cid"
  by (cases e; simp add: cnt_marks resume_bound_def apply_decision_def skeleton_def)+

definition keyed :: "conts \<Rightarrow> bool" where
  "keyed m \<longleftrightarrow> (\<forall>cid c. map_of m cid = Some c \<longrightarrow> ct_ContinuationID c = cid \<and> cid \<noteq> [])"

lemma conts_ok_keyed: "conts_ok m \<longleftrightarrow> map_ok m \<and> keyed m"
  by (simp add: conts_ok_def keyed_def)

text \<open>A claimed snapshot is the live record, unless a sweep has removed that.\<close>

definition inflight_ok :: "cnt_sys \<Rightarrow> bool" where
  "inflight_ok s \<longleftrightarrow> conts_ok (cf_conts (sy_store s)) \<and>
     (\<forall>cid c. map_of (sy_inflight s) cid = Some c \<longrightarrow> ct_ContinuationID c = cid \<and> ct_State c = StateExecuting \<and>
        (map_of (cf_conts (sy_store s)) cid = None \<or> map_of (cf_conts (sy_store s)) cid = Some c))"

text \<open>A recovery or a creation does not meet a continuation in flight, and an approver has a name.\<close>

definition admissible :: "cnt_op \<Rightarrow> cnt_sys \<Rightarrow> bool" where
  "admissible op s =
     (case op of
        OpCreate c \<Rightarrow> cnt_genesis c \<and> map_of (sy_inflight s) (ct_ContinuationID c) = None
      | OpRecover cid \<Rightarrow> map_of (sy_inflight s) cid = None
      | OpDecide now aid approved by' reason \<Rightarrow> approved \<longrightarrow> by' \<noteq> []
      | _ \<Rightarrow> True)"

fun admissible_run :: "(write_outcome \<times> cnt_op) list \<Rightarrow> cnt_sys \<Rightarrow> bool" where
  "admissible_run [] s \<longleftrightarrow> True"
| "admissible_run ((w, op) # ops) s \<longleftrightarrow> admissible op s \<and> admissible_run ops (sys_exec w op s)"

lemma inflight_ok_store:
  assumes "inflight_ok s" "map_ok (cf_conts t)" "keyed (cf_conts t)"
    and "\<And>k c. map_of (sy_inflight s) k = Some c \<Longrightarrow> map_of (cf_conts (sy_store s)) k = Some c \<Longrightarrow>
      ct_State c = StateExecuting \<Longrightarrow> map_of (cf_conts t) k = None \<or> map_of (cf_conts t) k = Some c"
    and "\<And>k c. map_of (sy_inflight s) k = Some c \<Longrightarrow> map_of (cf_conts (sy_store s)) k = None \<Longrightarrow>
      map_of (cf_conts t) k = None"
  shows "inflight_ok (s \<lparr>sy_store := t\<rparr>)"
  using assms unfolding inflight_ok_def conts_ok_keyed by (metis (no_types, lifting) cnt_sys.simps(1,2) cnt_sys.surjective cnt_sys.update_convs(1))

lemma keyed_mapped:
  assumes "keyed m" "\<And>k c'. map_of m' k = Some c' \<Longrightarrow> \<exists>c. map_of m k = Some c \<and> ct_ContinuationID c' = ct_ContinuationID c"
  shows "keyed m'"
  using assms unfolding keyed_def by metis

lemma inflight_ok_guarded:
  assumes "inflight_ok s" "\<And>c. ct_ContinuationID (f c) = ct_ContinuationID c"
    and "\<And>c. g c \<Longrightarrow> ct_State c \<noteq> StateExecuting \<or> map_of (sy_inflight s) cid = None"
  shows "inflight_ok (s \<lparr>sy_store := snd (cf_guarded w g f cid (sy_store s))\<rparr>)"
proof (rule inflight_ok_store [OF assms(1)], goal_cases)
  case 2
  have "keyed (cf_conts (sy_store s))" using assms(1) by (simp add: inflight_ok_def conts_ok_keyed)
  then show ?case by (rule keyed_mapped) (auto simp: cf_lookup assms(2))
next
  case (3 k c)
  with assms(3) [of c] show ?case by (auto simp: cf_lookup)
qed (use assms(1) in \<open>auto simp: inflight_ok_def conts_ok_keyed cf_lookup\<close>)

lemma inflight_ok_unguarded:
  assumes "inflight_ok s" "\<And>c. ct_ContinuationID (f c) = ct_ContinuationID c" "\<And>c. g c \<Longrightarrow> ct_State c \<noteq> StateExecuting"
  shows "inflight_ok (s \<lparr>sy_store := snd (cf_unguarded w g f cid (sy_store s))\<rparr>)"
proof (rule inflight_ok_store [OF assms(1)], goal_cases)
  case 2
  have "keyed (cf_conts (sy_store s))" using assms(1) by (simp add: inflight_ok_def conts_ok_keyed)
  then show ?case by (rule keyed_mapped) (auto simp: cf_lookup assms(2))
next
  case (3 k c)
  with assms(3) [of c] show ?case by (auto simp: cf_lookup)
qed (use assms(1) in \<open>auto simp: inflight_ok_def conts_ok_keyed cf_lookup\<close>)

lemma inflight_ok_each:
  assumes "inflight_ok s" "\<And>c. ct_ContinuationID (f c) = ct_ContinuationID c" "\<And>c. ct_State c = StateExecuting \<Longrightarrow> f c = c"
  shows "inflight_ok (s \<lparr>sy_store := cf_each w f p (map fst (cf_conts (sy_store s))) (sy_store s)\<rparr>)"
proof (rule inflight_ok_store [OF assms(1)], goal_cases)
  case 2
  have k: "keyed (cf_conts (sy_store s))" and ok: "map_ok (cf_conts (sy_store s))"
    using assms(1) by (auto simp: inflight_ok_def conts_ok_keyed)
  show ?case by (rule keyed_mapped [OF k]) (auto simp: cf_each_all [OF ok] assms(2))
next
  case (3 k c)
  have "map_ok (cf_conts (sy_store s))" using assms(1) by (simp add: inflight_ok_def conts_ok_keyed)
  with 3 assms(3) [of c] show ?case by (simp add: cf_each_all)
next
  case 1
  then show ?case using assms(1) by (simp add: inflight_ok_def conts_ok_keyed map_ok_each)
next
  case (4 k c)
  have "map_ok (cf_conts (sy_store s))" using assms(1) by (simp add: inflight_ok_def conts_ok_keyed)
  with 4 show ?case by (simp add: cf_each_all)
qed

lemma inflight_ok_claimed:
  assumes "inflight_ok s" "\<And>c. g c \<Longrightarrow> ct_State c \<noteq> StateExecuting"
  shows "inflight_ok (claimed (cf_guarded w g (markExecuting now) cid (sy_store s)) cid s)" (is "inflight_ok (claimed ?r cid s)")
proof -
  have ok: "inflight_ok (s \<lparr>sy_store := snd ?r\<rparr>)" using assms by (intro inflight_ok_guarded) auto
  show ?thesis
  proof (cases "fst ?r")
    case None
    then show ?thesis using ok by (simp only: claimed_None)
  next
    case (Some c')
    then obtain c where c: "map_of (cf_conts (sy_store s)) cid = Some c" "g c" "w = WriteOk" "c' = markExecuting now c"
      by (auto simp: cf_guarded_result split: option.splits if_splits)
    then have "map_of (cf_conts (snd ?r)) cid = Some c'" "ct_ContinuationID c' = cid" "ct_State c' = StateExecuting"
      using assms(1) by (auto simp: cf_lookup inflight_ok_def conts_ok_def markExecuting_def)
    then show ?thesis using ok unfolding claimed_Some [OF Some] inflight_ok_def by simp
  qed
qed

lemma inflight_step:
  assumes ok: "inflight_ok s" and adm: "admissible op s"
  shows "inflight_ok (sys_exec w op s)"
proof (cases op)
  case (OpCreate c)
  with adm have c: "cnt_genesis c" "map_of (sy_inflight s) (ct_ContinuationID c) = None" by (auto simp: admissible_def)
  show ?thesis unfolding OpCreate sys_exec.simps
  proof (rule inflight_ok_store [OF ok], goal_cases)
    case 1
    then show ?case using ok by (simp add: inflight_ok_def conts_ok_keyed cf_Create_def)
  next
    case 2
    then show ?case using ok c by (simp add: inflight_ok_def conts_ok_keyed keyed_def cf_lookup cnt_genesis_def)
  next
    case (3 k d)
    then show ?case by (simp add: cf_lookup)
  next
    case (4 k d)
    then show ?case using c by (auto simp: cf_lookup)
  qed
next
  case (OpFinish cid e)
  show ?thesis
  proof (cases "map_of (sy_inflight s) cid")
    case (Some c)
    then have "ct_ContinuationID c = cid" using ok by (simp add: inflight_ok_def)
    then show ?thesis using ok Some OpFinish
      by (auto simp: inflight_ok_def conts_ok_keyed keyed_def cf_lookup split: if_splits)
  qed (use ok OpFinish in simp)
next
  case (OpSweep now)
  show ?thesis unfolding OpSweep sys_exec.simps
  proof (rule inflight_ok_store [OF ok], goal_cases)
    case 1
    then show ?case using ok by (simp add: inflight_ok_def conts_ok_keyed map_ok_Sweep)
  next
    case 2
    then show ?case using ok Sweep_lookup [of w now "sy_store s"]
      by (fastforce simp: inflight_ok_def conts_ok_keyed keyed_def)
  next
    case (3 k c)
    then show ?case using Sweep_lookup [of w now "sy_store s" k]
      by (cases "map_of (cf_conts (snd (Sweep w now (sy_store s)))) k") (auto simp: cnt_tests)
  next
    case (4 k c)
    then show ?case using Sweep_lookup [of w now "sy_store s" k] by (metis option.distinct(1) option.exhaust)
  qed
next
  case (OpDecide now aid approved by' reason)
  show ?thesis unfolding OpDecide sys_exec.simps cf_ApplyApprovalDecision_def Let_def
    by (rule inflight_ok_each [OF ok]) (auto simp: apply_decision_def cnt_tests cnt_marks)
next
  case (OpResume now aid)
  show ?thesis unfolding OpResume sys_exec.simps cf_ResumeForApproval_def
    by (rule inflight_ok_each [OF ok]) (auto simp: resume_bound_def cnt_tests cnt_marks)
qed (use ok adm in \<open>auto simp: cf_ops admissible_def cnt_tests retryEligible_def split: if_splits
      intro!: inflight_ok_guarded inflight_ok_unguarded inflight_ok_claimed\<close>)

section \<open>The journal gives the store back\<close>

lemma legal_settle: "ct_State c = StateExecuting \<Longrightarrow> cnt_legal c (settle e c)"
  by (cases e) (auto simp: cnt_legal_def cnt_sameCore_def checkTransition_def cnt_marks cnt_tests)

lemma journal_transition:
  assumes "journal_equiv s" "map_of (cf_conts s) cid = Some c" "cnt_legal c c'" "ct_ContinuationID c' = ct_ContinuationID c"
  shows "journal_equiv (snd (transitionLocked WriteOk cid c' s))"
proof -
  have "ct_ContinuationID c' = cid" using assms by (auto simp: journal_equiv_def conts_ok_def)
  then show ?thesis using journal_equiv_write [OF assms(1-3)]
    by (simp add: transitionLocked_def persistLocked_def cf_append_def cf_put_def)
qed

lemma journal_guarded:
  assumes "journal_equiv s" "\<And>c. g c \<Longrightarrow> cnt_legal c (f c)" "\<And>c. ct_ContinuationID (f c) = ct_ContinuationID c"
  shows "journal_equiv (snd (cf_guarded WriteOk g f cid s))"
  using assms by (auto simp: cf_guarded_store intro: journal_transition split: option.splits)

lemma journal_put_persist:
  assumes "journal_equiv s" "map_of (cf_conts s) cid = Some c" "cnt_legal c c'" "ct_ContinuationID c' = ct_ContinuationID c"
  shows "journal_equiv (snd (persistLocked WriteOk c' (cf_put cid c' s)))"
  using journal_transition [OF assms]
  by (cases s) (simp add: transitionLocked_def persistLocked_def cf_append_def cf_put_def)

lemma journal_unguarded:
  assumes "journal_equiv s" "\<And>c. g c \<Longrightarrow> cnt_legal c (f c)" "\<And>c. ct_ContinuationID (f c) = ct_ContinuationID c"
  shows "journal_equiv (snd (cf_unguarded WriteOk g f cid s))"
  using assms by (auto simp: cf_unguarded_def intro: journal_put_persist split: option.splits)

lemma journal_each:
  assumes "journal_equiv s" "\<And>c. p c \<Longrightarrow> cnt_legal c (f c)" "\<And>c. \<not> p c \<Longrightarrow> cnt_equiv c (f c)"
    and "\<And>c. ct_ContinuationID (f c) = ct_ContinuationID c"
  shows "journal_equiv (cf_each WriteOk f p cids s)"
  using assms(1)
proof (induction cids arbitrary: s)
  case (Cons cid cids)
  show ?case
  proof (cases "map_of (cf_conts s) cid")
    case (Some c)
    have "journal_equiv (if p c then snd (persistLocked WriteOk (f c) (cf_put cid (f c) s)) else cf_put cid (f c) s)"
      using journal_put_persist [OF Cons.prems Some assms(2) assms(4)] journal_equiv_memory [OF Cons.prems Some assms(3)]
      by (simp add: cf_put_def)
    with Cons.IH Some show ?thesis by (simp add: Let_def)
  qed (use Cons in simp)
qed simp

lemma decision_unseen:
  "ct_State (apply_decision now aid approved by' reason c) = ct_State c \<Longrightarrow>
   cnt_equiv c (apply_decision now aid approved by' reason c)"
  by (auto simp: cnt_equiv_def cnt_sameCore_def apply_decision_def cnt_marks split: if_splits)

lemma resume_unseen: "\<not> (ct_ApprovalID c = aid \<and> cnt_CanResume c) \<Longrightarrow> cnt_equiv c (resume_bound now aid c)"
  by (auto simp: resume_bound_def)

lemma journal_step:
  assumes ok: "journal_equiv (sy_store s)" "inflight_ok s" and adm: "admissible op s"
  shows "journal_equiv (sy_store (sys_exec WriteOk op s))"
proof (cases op)
  case (OpCreate c)
  with ok adm show ?thesis
    using journal_equiv_create [OF ok(1), of c]
    by (auto simp: admissible_def cf_Create_def transitionLocked_def persistLocked_def cf_append_def cf_put_def)
next
  case (OpFinish cid e)
  show ?thesis
  proof (cases "map_of (sy_inflight s) cid")
    case (Some c)
    then have c: "ct_ContinuationID c = cid" "ct_State c = StateExecuting"
      "map_of (cf_conts (sy_store s)) cid = None \<or> map_of (cf_conts (sy_store s)) cid = Some c"
      using ok(2) by (auto simp: inflight_ok_def)
    then show ?thesis using ok(1) Some OpFinish journal_transition [OF ok(1) _ legal_settle [OF c(2)], of cid e]
      by (auto simp: cf_Update_def)
  qed (use ok OpFinish in simp)
next
  case (OpDecide now aid approved by' reason)
  with adm have "by' \<noteq> [] \<or> \<not> approved" by (auto simp: admissible_def)
  then show ?thesis unfolding OpDecide sys_exec.simps cf_ApplyApprovalDecision_def Let_def
    using ok(1) by (auto intro!: journal_each legal_decision decision_unseen)
next
  case (OpResume now aid)
  then show ?thesis unfolding OpResume sys_exec.simps cf_ResumeForApproval_def
    using ok(1) by (auto intro!: journal_each legal_resume resume_unseen)
next
  case (OpSweep now)
  then show ?thesis using journal_equiv_sweep [OF ok(1)] by simp
next
  case (OpClaimRetry now cid)
  have "cnt_legal c (markExecuting now c)" if "ct_State c = StateResumed" "\<not> IsExpired now c" for c
    using that by (intro legal_claim) (auto simp: isClaimable_def IsExpired_def split: option.splits)
  then show ?thesis using ok(1) OpClaimRetry by (auto simp: claimed_def cf_ops intro!: journal_guarded)
qed (use ok(1) in \<open>auto simp: claimed_def cf_ops intro!: journal_guarded journal_unguarded legal_ops\<close>)

lemma journal_run:
  "journal_equiv (sy_store s) \<Longrightarrow> inflight_ok s \<Longrightarrow> admissible_run ops s \<Longrightarrow> fst ` set ops \<subseteq> {WriteOk} \<Longrightarrow>
   journal_equiv (sy_store (sys_run ops s))"
proof (induction ops arbitrary: s)
  case (Cons wop ops)
  obtain w op where wop: "wop = (w, op)" by force
  with Cons.prems have w: "w = WriteOk" and adm: "admissible op s" "admissible_run ops (sys_exec WriteOk op s)" by auto
  from Cons.IH [OF journal_step [OF Cons.prems(1,2) adm(1)] inflight_step [OF Cons.prems(2) adm(1)] adm(2)] Cons.prems(4)
  show ?case by (simp add: sys_run_def wop w)
qed (simp add: sys_run_def)

lemma empty_sys_ok: "journal_equiv (sy_store (empty_sys days recs))" "inflight_ok (empty_sys days recs)"
  by (simp_all add: journal_equiv_def inflight_ok_def empty_sys_def conts_ok_def cnt_open_def same_conts_def)

text \<open>C11: After any admissible run of a fresh store whose writes succeed, reopening the journal succeeds and
  gives the same tombstones and, under every identifier, a record with the same identity, state,
  outcome and retry count as the one in memory.\<close>

theorem continuation_journal_recovers:
  assumes "admissible_run ops (empty_sys days recs)" "fst ` set ops \<subseteq> {WriteOk}"
  shows "\<exists>m. cnt_open (cf_log (sy_store (sys_run ops (empty_sys days recs)))) =
      Inr (m, cf_tombs (sy_store (sys_run ops (empty_sys days recs)))) \<and>
    same_conts m (cf_conts (sy_store (sys_run ops (empty_sys days recs))))"
  using journal_run [OF empty_sys_ok assms] by (auto simp: journal_equiv_def)

definition sample_run :: "(write_outcome \<times> cnt_op) list" where
  "sample_run = [(WriteOk, OpCreate sample_continuation), (WriteOk, OpDecide 200 ''apr_1'' True ''operator'' []),
     (WriteOk, OpClaim 300 ''cnt_1''), (WriteOk, OpFinish ''cnt_1'' EndSucceeded)]"

lemmas sample_eval =
  sample_run_def sample_continuation_def sys_run_def empty_sys_def cf_Create_def NewContinuation_def
  zero_continuation_def WithApprovalID_def transitionLocked_def persistLocked_def cf_append_def cf_put_def
  cf_ApplyApprovalDecision_def apply_decision_def cnt_marks cnt_tests cf_ClaimForExecution_def cf_guarded_def
  Let_def claimed_def cf_Update_def admissible_def cnt_genesis_def

theorem continuation_journal_recovers_witness:
  "\<exists>m. cnt_open (cf_log (sy_store (sys_run sample_run (empty_sys 7 10)))) =
      Inr (m, cf_tombs (sy_store (sys_run sample_run (empty_sys 7 10)))) \<and>
    same_conts m (cf_conts (sy_store (sys_run sample_run (empty_sys 7 10))))"
proof (rule continuation_journal_recovers)
  show "admissible_run sample_run (empty_sys 7 10)" by (simp add: sample_eval)
  show "fst ` set sample_run \<subseteq> {WriteOk}" by (simp add: sample_run_def)
qed

section \<open>A settled outcome is final\<close>

definition sealed :: "Continuation \<Rightarrow> bool" where
  "sealed c \<longleftrightarrow> ct_State c = StateExecuted \<and>
     (ct_LastExecutionSucceeded c \<or> ct_OutcomeUnknown c \<or> ct_MaxRetries c \<le> 0)"

definition sealed_at :: "string \<Rightarrow> cnt_sys \<Rightarrow> bool" where
  "sealed_at cid s \<longleftrightarrow> (\<exists>c. map_of (cf_conts (sy_store s)) cid = Some c \<and> sealed c)"

lemma sealed_inert:
  "sealed c \<Longrightarrow> \<not> isClaimable now c" "sealed c \<Longrightarrow> \<not> retryEligible c" "sealed c \<Longrightarrow> \<not> CanCancel c"
  "sealed c \<Longrightarrow> \<not> ShouldExpire now c" "sealed c \<Longrightarrow> \<not> CanEnqueue c"
  "sealed c \<Longrightarrow> apply_decision now aid approved by' reason c = c" "sealed c \<Longrightarrow> resume_bound now aid c = c"
  "sealed c \<Longrightarrow> ct_State c \<noteq> StateExecuting" "sealed c \<Longrightarrow> ct_State c \<noteq> StateResumed"
  "sealed c \<Longrightarrow> sealed (skeleton cid (ct_State c))"
  by (auto simp: sealed_def cnt_tests retryEligible_def apply_decision_def resume_bound_def skeleton_def zero_continuation_def)

lemma sealed_claimed: "sealed_at cid s \<Longrightarrow> (\<And>c. sealed c \<Longrightarrow> \<not> g c) \<Longrightarrow> sealed_at cid (claimed (cf_guarded w g f k (sy_store s)) k s)"
  by (auto simp: sealed_at_def claimed_def cf_lookup)

text \<open>While a run is in flight its record in the store is the claimed snapshot, unless the run was
  recovered (and perhaps swept) meanwhile: then it is sealed without a success.\<close>

definition overtaken :: "Continuation \<Rightarrow> Continuation \<Rightarrow> bool" where
  "overtaken d c \<longleftrightarrow> d = c \<or> sealed d \<and> \<not> ct_LastExecutionSucceeded d"

definition runs_ok :: "cnt_sys \<Rightarrow> bool" where
  "runs_ok s \<longleftrightarrow> conts_ok (cf_conts (sy_store s)) \<and>
     (\<forall>cid c. map_of (sy_inflight s) cid = Some c \<longrightarrow> ct_ContinuationID c = cid \<and> ct_State c = StateExecuting \<and>
        (\<forall>d. map_of (cf_conts (sy_store s)) cid = Some d \<longrightarrow> overtaken d c))"

text \<open>What a gateway creates is a new continuation, under an identifier with no run in flight.\<close>

definition creates_new :: "cnt_op \<Rightarrow> cnt_sys \<Rightarrow> bool" where
  "creates_new op s =
     (case op of OpCreate c \<Rightarrow> cnt_genesis c \<and> map_of (sy_inflight s) (ct_ContinuationID c) = None | _ \<Rightarrow> True)"

fun genesis_run :: "(write_outcome \<times> cnt_op) list \<Rightarrow> cnt_sys \<Rightarrow> bool" where
  "genesis_run [] s \<longleftrightarrow> True"
| "genesis_run ((w, op) # ops) s \<longleftrightarrow> creates_new op s \<and> genesis_run ops (sys_exec w op s)"

lemma runs_ok_store:
  assumes "runs_ok s" "map_ok (cf_conts t)" "keyed (cf_conts t)"
    and "\<And>k c d'. map_of (sy_inflight s) k = Some c \<Longrightarrow> ct_State c = StateExecuting \<Longrightarrow>
      \<forall>d. map_of (cf_conts (sy_store s)) k = Some d \<longrightarrow> overtaken d c \<Longrightarrow> map_of (cf_conts t) k = Some d' \<Longrightarrow> overtaken d' c"
  shows "runs_ok (s \<lparr>sy_store := t\<rparr>)"
  using assms by (auto simp: runs_ok_def conts_ok_keyed)

lemma runs_okD: "runs_ok s \<Longrightarrow> map_ok (cf_conts (sy_store s))" "runs_ok s \<Longrightarrow> keyed (cf_conts (sy_store s))"
  by (auto simp: runs_ok_def conts_ok_keyed)

lemma runs_ok_guarded:
  assumes "runs_ok s" "\<And>c. ct_ContinuationID (f c) = ct_ContinuationID c"
    and "\<And>c. sealed c \<Longrightarrow> \<not> g c"
    and "\<And>c. ct_State c = StateExecuting \<Longrightarrow> g c \<Longrightarrow> sealed (f c) \<and> \<not> ct_LastExecutionSucceeded (f c)"
  shows "runs_ok (s \<lparr>sy_store := snd (cf_guarded w g f cid (sy_store s))\<rparr>)"
proof (rule runs_ok_store [OF assms(1)], goal_cases)
  case 1
  then show ?case using runs_okD [OF assms(1)] by simp
next
  case 2
  show ?case by (rule keyed_mapped [OF runs_okD(2) [OF assms(1)]]) (auto simp: cf_lookup assms(2))
next
  case (3 k c d')
  then show ?case using assms(3,4) by (auto simp: cf_lookup overtaken_def split: if_splits)
qed

lemma runs_ok_unguarded:
  assumes "runs_ok s" "\<And>c. ct_ContinuationID (f c) = ct_ContinuationID c"
    and "\<And>c. sealed c \<Longrightarrow> \<not> g c" "\<And>c. ct_State c = StateExecuting \<Longrightarrow> \<not> g c"
  shows "runs_ok (s \<lparr>sy_store := snd (cf_unguarded w g f cid (sy_store s))\<rparr>)"
proof (rule runs_ok_store [OF assms(1)], goal_cases)
  case 1
  then show ?case using runs_okD [OF assms(1)] by simp
next
  case 2
  show ?case by (rule keyed_mapped [OF runs_okD(2) [OF assms(1)]]) (auto simp: cf_lookup assms(2))
next
  case (3 k c d')
  then show ?case using assms(3,4) by (auto simp: cf_lookup overtaken_def)
qed

lemma runs_ok_each:
  assumes "runs_ok s" "\<And>c. ct_ContinuationID (f c) = ct_ContinuationID c"
    and "\<And>c. sealed c \<Longrightarrow> f c = c" "\<And>c. ct_State c = StateExecuting \<Longrightarrow> f c = c"
  shows "runs_ok (s \<lparr>sy_store := cf_each w f p (map fst (cf_conts (sy_store s))) (sy_store s)\<rparr>)"
proof (rule runs_ok_store [OF assms(1)], goal_cases)
  case 1
  then show ?case using runs_okD [OF assms(1)] by (simp add: map_ok_each)
next
  case 2
  show ?case
    by (rule keyed_mapped [OF runs_okD(2) [OF assms(1)]]) (auto simp: cf_each_all [OF runs_okD(1) [OF assms(1)]] assms(2))
next
  case (3 k c d')
  then show ?case using assms(3,4) by (auto simp: cf_each_all [OF runs_okD(1) [OF assms(1)]] overtaken_def)
qed

lemma runs_ok_claimed:
  assumes "runs_ok s" "\<And>c. sealed c \<Longrightarrow> \<not> g c" "\<And>c. g c \<Longrightarrow> ct_State c \<noteq> StateExecuting"
  shows "runs_ok (claimed (cf_guarded w g (markExecuting now) cid (sy_store s)) cid s)" (is "runs_ok (claimed ?r cid s)")
proof -
  have ok: "runs_ok (s \<lparr>sy_store := snd ?r\<rparr>)"
    by (rule runs_ok_guarded [OF assms(1)]) (use assms(2,3) in auto)
  show ?thesis
  proof (cases "fst ?r")
    case None
    then show ?thesis using ok by (simp only: claimed_None)
  next
    case (Some c')
    then obtain c where c: "map_of (cf_conts (sy_store s)) cid = Some c" "g c" "w = WriteOk" "c' = markExecuting now c"
      by (auto simp: cf_guarded_result split: option.splits if_splits)
    then have "map_of (cf_conts (snd ?r)) cid = Some c'" "ct_ContinuationID c' = cid" "ct_State c' = StateExecuting"
      using assms(1) by (auto simp: cf_lookup runs_ok_def conts_ok_def markExecuting_def)
    then show ?thesis using ok unfolding claimed_Some [OF Some] runs_ok_def by (auto simp: overtaken_def)
  qed
qed

lemma runs_ok_Sweep:
  assumes "runs_ok s"
  shows "runs_ok (s \<lparr>sy_store := snd (Sweep w now (sy_store s))\<rparr>)"
proof (rule runs_ok_store [OF assms], goal_cases)
  case 1
  then show ?case using runs_okD [OF assms] by (simp add: map_ok_Sweep)
next
  case 2
  then show ?case using runs_okD [OF assms] Sweep_lookup [of w now "sy_store s"]
    by (fastforce simp: keyed_def)
next
  case (3 k c d')
  from Sweep_lookup [OF 3(4)] show ?case
  proof
    assume "\<exists>d. map_of (cf_conts (sy_store s)) k = Some d \<and> IsTerminal d \<and> d' = skeleton k (ct_State d)"
    then obtain d where d: "overtaken d c" "IsTerminal d" "d' = skeleton k (ct_State d)" using 3(3) by blast
    then have "sealed d" using 3(2) by (auto simp: overtaken_def cnt_tests)
    then show ?thesis using d(3) sealed_inert(10) by (auto simp: overtaken_def skeleton_def zero_continuation_def)
  qed (use 3(3) in blast)
qed

lemma runs_ok_step:
  assumes ok: "runs_ok s" and new: "creates_new op s"
  shows "runs_ok (sys_exec w op s)"
proof (cases op)
  case (OpCreate c)
  with new have c: "cnt_genesis c" "map_of (sy_inflight s) (ct_ContinuationID c) = None" by (auto simp: creates_new_def)
  show ?thesis unfolding OpCreate sys_exec.simps
  proof (rule runs_ok_store [OF ok], goal_cases)
    case 1
    then show ?case using runs_okD [OF ok] by (simp add: cf_Create_def)
  next
    case 2
    then show ?case using runs_okD [OF ok] c by (simp add: keyed_def cf_lookup cnt_genesis_def)
  next
    case (3 k d d')
    then show ?case using c by (auto simp: cf_lookup split: if_splits)
  qed
next
  case (OpFinish cid e)
  show ?thesis
  proof (cases "map_of (sy_inflight s) cid")
    case (Some c)
    then have "ct_ContinuationID c = cid" using ok by (simp add: runs_ok_def)
    then show ?thesis using ok Some OpFinish
      by (auto simp: runs_ok_def conts_ok_keyed keyed_def cf_lookup split: if_splits)
  qed (use ok OpFinish in simp)
next
  case (OpSweep now)
  then show ?thesis using runs_ok_Sweep [OF ok] by simp
next
  case (OpDecide now aid approved by' reason)
  show ?thesis unfolding OpDecide sys_exec.simps cf_ApplyApprovalDecision_def Let_def
    by (rule runs_ok_each [OF ok]) (auto simp: apply_decision_def cnt_tests cnt_marks sealed_def)
next
  case (OpResume now aid)
  show ?thesis unfolding OpResume sys_exec.simps cf_ResumeForApproval_def
    by (rule runs_ok_each [OF ok]) (auto simp: resume_bound_def cnt_tests cnt_marks sealed_def)
next
  case (OpRecover cid)
  show ?thesis unfolding OpRecover sys_exec.simps cf_ops
    by (rule runs_ok_guarded [OF ok]) (auto simp: sealed_def cnt_marks)
qed (use ok in \<open>auto simp: cf_ops sealed_def cnt_tests retryEligible_def
      intro!: runs_ok_guarded runs_ok_unguarded runs_ok_claimed\<close>)

lemma runs_ok_run: "runs_ok s \<Longrightarrow> genesis_run ops s \<Longrightarrow> runs_ok (sys_run ops s)"
proof (induction ops arbitrary: s)
  case (Cons wop ops)
  obtain w op where wop: "wop = (w, op)" by force
  with Cons.prems Cons.IH [OF runs_ok_step] show ?case by (simp add: sys_run_def)
qed (simp add: sys_run_def)

text \<open>Sealed, and no run of it in flight that could still write its outcome.\<close>

definition final_at :: "string \<Rightarrow> cnt_sys \<Rightarrow> bool" where
  "final_at cid s \<longleftrightarrow> sealed_at cid s \<and> map_of (sy_inflight s) cid = None"

lemma final_claimed:
  "final_at cid s \<Longrightarrow> (\<And>c. sealed c \<Longrightarrow> \<not> g c) \<Longrightarrow> final_at cid (claimed (cf_guarded w g f k (sy_store s)) k s)"
  using sealed_claimed [of cid s g w f k]
  by (cases "k = cid") (auto simp: final_at_def sealed_at_def claimed_def cf_guarded_result split: option.splits if_splits)

lemma final_at_same:
  "final_at cid s \<Longrightarrow> (\<And>c. map_of (cf_conts (sy_store s)) cid = Some c \<Longrightarrow> sealed c \<Longrightarrow> map_of (cf_conts t) cid = Some c) \<Longrightarrow>
   final_at cid (s \<lparr>sy_store := t\<rparr>)"
  by (auto simp: final_at_def sealed_at_def)

lemma final_step:
  assumes s: "final_at cid s" and ok: "runs_ok s"
  shows "final_at cid (sys_exec w op s)"
proof (cases op)
  case (OpFinish k e)
  show ?thesis
  proof (cases "map_of (sy_inflight s) k")
    case (Some c)
    then have "ct_ContinuationID c = k" "k \<noteq> cid" using ok s by (auto simp: runs_ok_def final_at_def)
    then show ?thesis using s Some OpFinish by (auto simp: final_at_def sealed_at_def cf_lookup)
  qed (use s OpFinish in simp)
next
  case (OpSweep now)
  from s obtain c where c: "map_of (cf_conts (sy_store s)) cid = Some c" "sealed c"
    by (auto simp: final_at_def sealed_at_def)
  have "map_of (cf_conts (snd (Sweep w now (sy_store s)))) cid \<noteq> None"
    using c Sweep_keeps_terminal [of "sy_store s" cid c w now] by (simp add: sealed_def cnt_tests)
  then show ?thesis using s c Sweep_lookup [of w now "sy_store s" cid] OpSweep sealed_inert(10) [of c cid]
    by (auto simp: final_at_def sealed_at_def)
next
  case (OpDecide now aid approved by' reason)
  show ?thesis using s runs_okD(1) [OF ok] unfolding OpDecide sys_exec.simps cf_ApplyApprovalDecision_def Let_def
    by (intro final_at_same) (auto simp: cf_each_all sealed_inert)
next
  case (OpResume now aid)
  show ?thesis using s runs_okD(1) [OF ok] unfolding OpResume sys_exec.simps cf_ResumeForApproval_def
    by (intro final_at_same) (auto simp: cf_each_all sealed_inert)
qed (use s in \<open>auto simp: cf_ops cf_lookup sealed_inert intro!: final_at_same final_claimed\<close>)

lemma final_run: "final_at cid s \<Longrightarrow> runs_ok s \<Longrightarrow> genesis_run ops s \<Longrightarrow> final_at cid (sys_run ops s)"
proof (induction ops arbitrary: s)
  case (Cons wop ops)
  obtain w op where wop: "wop = (w, op)" by force
  with Cons.prems Cons.IH [OF final_step [OF Cons.prems(1,2)] runs_ok_step] show ?case
    by (simp add: sys_run_def)
qed (simp add: sys_run_def)

lemma genesis_run_append:
  "genesis_run (ops @ later) s \<longleftrightarrow> genesis_run ops s \<and> genesis_run later (sys_run ops s)"
  by (induction ops s rule: genesis_run.induct) (auto simp: sys_run_def)

text \<open>C10: Once a continuation has run successfully, or its run was recovered with an unknown outcome and is
  not in flight any more, no claim, for execution or for a retry, ever takes it again: not after
  retries, decisions on its approval, requeues, cancellations, recoveries, sweeps or failed writes. A
  run that is recovered while it is still in flight can still write its own outcome over the unknown
  one; \<open>recovered_run_claimed_again\<close> below shows what follows.\<close>

theorem settled_never_claimed_again:
  assumes "genesis_run (ops @ later) (empty_sys days recs)"
    and "map_of (cf_conts (sy_store (sys_run ops (empty_sys days recs)))) cid = Some c"
    and "settled_outcome succeeded unknown c"
    and "succeeded \<or> unknown \<and> map_of (sy_inflight (sys_run ops (empty_sys days recs))) cid = None"
  shows "fst (cf_ClaimForExecution w now cid (sy_store (sys_run (ops @ later) (empty_sys days recs)))) = None \<and>
    fst (cf_ClaimForRetry w now cid (sy_store (sys_run (ops @ later) (empty_sys days recs)))) = None"
proof -
  let ?s = "sys_run ops (empty_sys days recs)"
  have new: "genesis_run ops (empty_sys days recs)" "genesis_run later ?s"
    using assms(1) by (simp_all add: genesis_run_append)
  have "runs_ok (empty_sys days recs)" by (simp add: runs_ok_def empty_sys_def conts_ok_def)
  then have ok: "runs_ok ?s" using new(1) by (rule runs_ok_run)
  have idle: "map_of (sy_inflight ?s) cid = None"
  proof (cases "map_of (sy_inflight ?s) cid")
    case (Some d)
    then have "ct_State d = StateExecuting" "overtaken c d" using ok assms(2) by (auto simp: runs_ok_def)
    then show ?thesis using assms(3,4) by (auto simp: overtaken_def settled_outcome_def)
  qed
  then have "final_at cid ?s"
    using assms(2-4) by (auto simp: final_at_def sealed_at_def sealed_def settled_outcome_def)
  then have "final_at cid (sys_run later ?s)" by (rule final_run [OF _ ok new(2)])
  then show ?thesis
    by (auto simp: final_at_def sealed_at_def sys_run_def cf_ops cf_guarded_result sealed_inert split: option.splits)
qed

theorem settled_never_claimed_again_witness:
  "fst (cf_ClaimForExecution WriteOk 900 ''cnt_1''
     (sy_store (sys_run (sample_run @ [(WriteOk, OpRetry 500 ''cnt_1'')]) (empty_sys 7 10)))) = None \<and>
   fst (cf_ClaimForRetry WriteOk 900 ''cnt_1''
     (sy_store (sys_run (sample_run @ [(WriteOk, OpRetry 500 ''cnt_1'')]) (empty_sys 7 10)))) = None"
proof -
  have new: "genesis_run (sample_run @ [(WriteOk, OpRetry 500 ''cnt_1'')]) (empty_sys 7 10)"
    by (simp add: sample_eval creates_new_def)
  have "\<exists>c. map_of (cf_conts (sy_store (sys_run sample_run (empty_sys 7 10)))) ''cnt_1'' = Some c \<and>
      settled_outcome True False c"
    by (simp add: sample_eval settled_outcome_def)
  then obtain c where "map_of (cf_conts (sy_store (sys_run sample_run (empty_sys 7 10)))) ''cnt_1'' = Some c"
    "settled_outcome True False c" by blast
  from settled_never_claimed_again [OF new this] show ?thesis by simp
qed

definition recovered_in_flight :: "(write_outcome \<times> cnt_op) list" where
  "recovered_in_flight = [(WriteOk, OpCreate sample_continuation), (WriteOk, OpDecide 200 ''apr_1'' True ''operator'' []),
     (WriteOk, OpClaim 300 ''cnt_1''), (WriteOk, OpRecover ''cnt_1'')]"

text \<open>a run recovered while it is in flight is marked outcome unknown, which no retry accepts; when the run
  then reports a failure the record becomes a plain failure, a retry queues it and the action is claimed
  again.\<close>

theorem recovered_run_claimed_again:
  "(\<exists>c. map_of (cf_conts (sy_store (sys_run recovered_in_flight (empty_sys 7 10)))) ''cnt_1'' = Some c \<and>
      settled_outcome False True c \<and> \<not> retryEligible c) \<and>
   fst (cf_ClaimForExecution WriteOk 900 ''cnt_1'' (sy_store (sys_run
     (recovered_in_flight @ [(WriteOk, OpFinish ''cnt_1'' EndFailed), (WriteOk, OpRetry 500 ''cnt_1'')]) (empty_sys 7 10)))) \<noteq> None"
proof (intro conjI)
  show "\<exists>c. map_of (cf_conts (sy_store (sys_run recovered_in_flight (empty_sys 7 10)))) ''cnt_1'' = Some c \<and>
      settled_outcome False True c \<and> \<not> retryEligible c"
    by (simp add: recovered_in_flight_def sample_eval cf_ops settled_outcome_def retryEligible_def)
  show "fst (cf_ClaimForExecution WriteOk 900 ''cnt_1'' (sy_store (sys_run
     (recovered_in_flight @ [(WriteOk, OpFinish ''cnt_1'' EndFailed), (WriteOk, OpRetry 500 ''cnt_1'')]) (empty_sys 7 10)))) \<noteq> None"
    by (simp add: recovered_in_flight_def sample_eval cf_ops retryEligible_def Retry_def)
qed

section \<open>Journals that stop folding\<close>

lemma fold_records_append:
  "fold_records step (xs @ ys) st = (case fold_records step xs st of Inl e \<Rightarrow> Inl e | Inr st' \<Rightarrow> fold_records step ys st')"
  by (induction xs arbitrary: st) (auto split: sum.splits)

definition about_id :: "cnt_event \<Rightarrow> string \<Rightarrow> bool" where
  "about_id ev cid =
     (case ev of
        CEvContinuation rid c \<Rightarrow> rid = cid
      | CEvTombstone rid st \<Rightarrow> rid = cid
      | CEvCompact removed \<Rightarrow> cid \<in> set removed
      | _ \<Rightarrow> False)"

lemma foldCompact_untouched: "cid \<notin> set removed \<Longrightarrow> map_of (fst (foldCompact removed (m, tombs))) cid = map_of m cid"
proof (induction removed arbitrary: m tombs)
  case (Cons k removed)
  obtain m1 t1 where one: "compact_one k (m, tombs) = (m1, t1)" by force
  then have "map_of m1 cid = map_of m cid" using Cons.prems by (auto split: option.splits if_splits)
  with Cons one show ?case by (simp add: foldCompact_def)
qed (simp add: foldCompact_def)

lemma event_untouched:
  "cnt_foldEvent ev (m, tombs) = Inr (m', tombs') \<Longrightarrow> \<not> about_id ev cid \<Longrightarrow> map_of m' cid = map_of m cid"
proof (cases ev)
  case (CEvCompact removed)
  then show "cnt_foldEvent ev (m, tombs) = Inr (m', tombs') \<Longrightarrow> \<not> about_id ev cid \<Longrightarrow> ?thesis"
    using foldCompact_untouched [of cid removed m tombs] by (auto simp: about_id_def)
qed (auto simp: about_id_def Let_def split: if_splits option.splits)

lemma fold_untouched:
  "fold_records cnt_foldEvent evs (m, tombs) = Inr (m', tombs') \<Longrightarrow> (\<And>ev. ev \<in> set evs \<Longrightarrow> \<not> about_id ev cid) \<Longrightarrow>
   map_of m' cid = map_of m cid"
proof (induction evs arbitrary: m tombs)
  case (Cons ev evs)
  then obtain m1 t1 where one: "cnt_foldEvent ev (m, tombs) = Inr (m1, t1)"
    and rest: "fold_records cnt_foldEvent evs (m1, t1) = Inr (m', tombs')" by (auto split: sum.splits)
  from Cons.IH [OF rest] event_untouched [OF one] Cons.prems(2) show ?case by simp
qed simp

text \<open>Compacting a store that still has the whole record of a finished continuation writes a journal that
  cannot be opened again: the record comes back as the first one of its identifier, and the fold refuses a
  terminal first record.\<close>

theorem compacted_store_cannot_reopen:
  assumes ok: "conts_ok (cf_conts s)" and c: "map_of (cf_conts s) cid = Some c"
    and fin: "IsTerminal c" "cid \<notin> set (cf_tombs s)"
  shows "\<not> is_ok (cnt_open (cf_log (compactSigned s)))"
proof -
  obtain xs ys where conts: "cf_conts s = xs @ (cid, c) # ys" using c by (metis map_of_SomeD split_list)
  have cid: "ct_ContinuationID c = cid" "cid \<noteq> []" using ok c by (auto simp: conts_ok_def)
  have others: "ct_ContinuationID d \<noteq> cid" if "d \<in> set (map snd xs)" for d
  proof -
    from that obtain k where k: "(k, d) \<in> set xs" by auto
    then have "k \<noteq> cid" using ok conts by (force simp: conts_ok_def map_ok_def)
    moreover have "map_of (cf_conts s) k = Some d"
      using k ok conts by (intro map_of_is_SomeI) (auto simp: conts_ok_def map_ok_def)
    ultimately show ?thesis using ok by (auto simp: conts_ok_def)
  qed
  let ?rec = "\<lambda>c. CEvContinuation (ct_ContinuationID c) c" and ?live = "\<lambda>c. ct_ContinuationID c \<notin> set (cf_tombs s)"
  let ?tomb = "\<lambda>cid. CEvTombstone cid (ct_State (the (map_of (cf_conts s) cid)))"
  let ?before = "CEvCompact [] # map ?tomb (cf_tombs s) @ map ?rec (filter ?live (map snd xs))"
  have log: "cf_log (compactSigned s) = ?before @ ?rec c # map ?rec (filter ?live (map snd ys))"
    using cid fin by (simp add: compactSigned_def conts)
  have quiet: "\<not> about_id ev cid" if "ev \<in> set ?before" for ev
    using that others fin by (force simp: about_id_def)
  show ?thesis
  proof (cases "fold_records cnt_foldEvent ?before ([], [])")
    case (Inr st)
    obtain m t where st: "st = (m, t)" by force
    have "map_of m cid = None" using fold_untouched [OF Inr [unfolded st] quiet] by simp
    then have "cnt_foldEvent (?rec c) (m, t) = Inl (TerminalGenesis cid)" using cid fin by (simp add: Let_def)
    then have "fold_records cnt_foldEvent (?rec c # map ?rec (filter ?live (map snd ys))) st = Inl (TerminalGenesis cid)"
      by (simp add: st)
    then show ?thesis using Inr unfolding cnt_open_def log fold_records_append [of _ ?before] by (simp only: is_ok_simps sum.case not_False_eq_True)
  next
    case (Inl e)
    then show ?thesis unfolding cnt_open_def log fold_records_append [of _ ?before] by (simp only: is_ok_simps sum.case not_False_eq_True)
  qed
qed

theorem compacted_store_cannot_reopen_witness:
  "\<not> is_ok (cnt_open (cf_log (compactSigned (sy_store (sys_run sample_run (empty_sys 7 10))))))"
proof -
  have ok: "conts_ok (cf_conts (sy_store (sys_run sample_run (empty_sys 7 10))))"
    by (simp add: sample_eval conts_ok_def map_ok_def)
  have "\<exists>c. map_of (cf_conts (sy_store (sys_run sample_run (empty_sys 7 10)))) ''cnt_1'' = Some c \<and> IsTerminal c \<and>
      ''cnt_1'' \<notin> set (cf_tombs (sy_store (sys_run sample_run (empty_sys 7 10))))"
    by (simp add: sample_eval)
  with compacted_store_cannot_reopen [OF ok] show ?thesis by blast
qed

text \<open>Recovering a continuation while its run is in flight and then storing the success of the run writes a
  journal that cannot be opened again: the second record flips the outcome of an executed continuation.\<close>

theorem recovered_run_breaks_journal:
  "cnt_open (cf_log (sy_store (sys_run
     [(WriteOk, OpCreate sample_continuation), (WriteOk, OpDecide 200 ''apr_1'' True ''operator'' []),
      (WriteOk, OpClaim 300 ''cnt_1''), (WriteOk, OpRecover ''cnt_1''), (WriteOk, OpFinish ''cnt_1'' EndSucceeded)]
     (empty_sys 7 10)))) = Inl ExecutedOutcomeFlip"
  by (simp add: sample_eval cf_ops cnt_open_def checkTransition_def cnt_sameCore_def)

end
