(* ===== verification/Execution_Properties.thy ===== *)
theory Execution_Properties
  imports Execution_Executors
begin

text \<open>
  The properties of execution records: the executors (bounded output, no option injection, a terminal
  result), the journal of executions as a record journal, and its compaction.
\<close>

section \<open>Output buffers\<close>

definition lw_after :: "int \<Rightarrow> string \<Rightarrow> limitedWriter" where
  "lw_after limit s =
     \<lparr>lw_buf = take (nat limit) s, lw_limit = limit, lw_truncated = (limit < int (length s))\<rparr>"

lemma lw_Write_after: "0 \<le> limit \<Longrightarrow> lw_Write p (lw_after limit s) = lw_after limit (s @ p)"
proof -
  assume "0 \<le> limit"
  then obtain n where "limit = int n" by (rule nonneg_int_cases)
  moreover have "nat (int n - int (length s)) = n - length s" by simp
  ultimately show ?thesis
    by (cases "n \<le> length s") (auto simp: lw_Write_def lw_after_def Let_def min_def)
qed

lemma lw_writes_after: "0 \<le> limit \<Longrightarrow> fold lw_Write chunks (lw_after limit s) = lw_after limit (s @ concat chunks)"
  by (induction chunks arbitrary: s) (simp_all add: lw_Write_after)

text \<open>However the output of a process is split into writes, the buffer holds exactly its first bytes up to
  the limit, and the truncation flag is set exactly when there was more.\<close>

theorem limited_output_exact:
  assumes "0 \<le> limit"
  shows "lw_writes limit chunks = \<lparr>lw_buf = take (nat limit) (concat chunks), lw_limit = limit,
    lw_truncated = (limit < int (length (concat chunks)))\<rparr>"
proof -
  have "\<lparr>lw_buf = [], lw_limit = limit, lw_truncated = False\<rparr> = lw_after limit []"
    using assms by (simp add: lw_after_def)
  then show ?thesis using lw_writes_after [OF assms, of chunks "[]"] by (simp add: lw_writes_def lw_after_def)
qed

theorem limited_output_exact_witness:
  "lw_writes 3 [''ab'', ''cd''] = \<lparr>lw_buf = ''abc'', lw_limit = 3, lw_truncated = True\<rparr>"
  using limited_output_exact [of 3 "[''ab'', ''cd'']"] by simp

section \<open>Commands\<close>

text \<open>The git executor passes a branch to git only as an operand: it never starts with a dash, and after
  push, pull and fetch the end-of-options marker is before it.\<close>

theorem git_branch_is_operand:
  assumes "git_args actionType branch = Inr args"
  shows "\<not> HasPrefix branch ''-'' \<and>
    args \<in> {[''push''], [''push'', ''--'', ''origin'', branch], [''pull''], [''pull'', ''--'', branch],
      [''fetch''], [''fetch'', ''--'', branch], [''checkout'', branch, ''--'']}"
  using assms unfolding git_args_def by (simp split: if_splits)

theorem git_branch_is_operand_witness:
  "\<not> HasPrefix ''main'' ''-'' \<and>
   [''push'', ''--'', ''origin'', ''main''] \<in> {[''push''], [''push'', ''--'', ''origin'', ''main''], [''pull''],
      [''pull'', ''--'', ''main''], [''fetch''], [''fetch'', ''--'', ''main''], [''checkout'', ''main'', ''--'']}"
  by (rule git_branch_is_operand [of "''git.push''"]) (simp add: git_args_def)

lemma keep_output_terminal [simp]: "exec_IsTerminal (keep_output out err e) = exec_IsTerminal e"
  by (simp add: keep_output_def exec_IsTerminal_def)

lemma marks_terminal [simp]:
  "exec_IsTerminal (MarkFailed now msg code e)" "exec_IsTerminal (MarkSucceeded now code out err e)"
  "exec_IsTerminal (MarkTimedOut now e)"
  by (simp_all add: exec_IsTerminal_def MarkFailed_def MarkSucceeded_def MarkTimedOut_def)

lemma after_run_terminal [simp]: "exec_IsTerminal (after_run label missing timeout now ol el r e)"
  by (simp add: after_run_def Let_def split: option.splits)

text \<open>Every way through the shell, the direct and the git executor ends in a terminal state: succeeded,
  failed or timed out.\<close>

theorem executors_end_terminal:
  "exec_IsTerminal (shell_Execute run environ start finish se e) \<and>
   exec_IsTerminal (direct_Execute run environ start finish se e) \<and>
   exec_IsTerminal (git_Execute run h start finish dflt ol el e)"
proof (intro conjI)
  show "exec_IsTerminal (shell_Execute run environ start finish se e)"
    by (simp add: shell_Execute_def Let_def split: sum.splits)
  show "exec_IsTerminal (direct_Execute run environ start finish se e)"
    by (simp add: direct_Execute_def Let_def split: sum.splits prod.splits)
  show "exec_IsTerminal (git_Execute run h start finish dflt ol el e)"
    by (simp add: git_Execute_def Let_def split: sum.splits prod.splits)
qed

section \<open>The environment of a process\<close>

lemma getEnv_in: "getEnv environ key = Some val \<Longrightarrow> key @ ''='' @ val \<in> set environ"
proof -
  assume "getEnv environ key = Some val"
  then obtain e where e: "e \<in> set environ" "take (length key + 1) e = key @ ''=''" "val = drop (length key + 1) e"
    by (auto simp: getEnv_def dest: find_SomeD split: option.splits)
  then have "e = key @ ''='' @ val" by (metis append.assoc append_take_drop_id)
  with e(1) show ?thesis by blast
qed

text \<open>A process started with an allow list of variables gets only entries of the gateway's environment
  whose name is on the list.\<close>

theorem filterEnv_only_allowed:
  assumes "entry \<in> set (filterEnv environ allowed)"
  shows "entry \<in> set environ \<and> (\<exists>key val. key \<in> set allowed \<and> entry = key @ ''='' @ val)"
proof -
  from assms obtain key val where "key \<in> set allowed" "getEnv environ key = Some val" "entry = key @ ''='' @ val"
    by (auto simp: filterEnv_def dest!: sym [of "Some _"] split: option.splits)
  then show ?thesis using getEnv_in [of environ key val] by auto
qed

theorem filterEnv_only_allowed_witness:
  "''HOME=/root'' \<in> set [''PATH=/bin'', ''HOME=/root''] \<and>
   (\<exists>key val. key \<in> set [''HOME''] \<and> ''HOME=/root'' = key @ ''='' @ val)"
  by (rule filterEnv_only_allowed) (simp add: filterEnv_def getEnv_def)

section \<open>The journal of executions\<close>

definition exec_genesis :: "bool \<Rightarrow> Execution \<Rightarrow> bool" where
  "exec_genesis compactSeen e \<longleftrightarrow> ex_ExecutionID e \<noteq> [] \<and>
     (ex_State e = StatePending \<or> ex_State e = StateRunning \<or> exec_IsTerminal e \<and> compactSeen)"

definition exec_transition :: "Execution \<Rightarrow> Execution \<Rightarrow> bool" where
  "exec_transition a b \<longleftrightarrow> ex_State a = ex_State b \<or>
     \<not> exec_IsTerminal a \<and> (ex_State b = StateRunning \<and> ex_State a = StatePending \<or> exec_IsTerminal b)"

lemma foldExecution_ok:
  "foldExecution e (m, seen) = Inr (m', seen') \<longleftrightarrow>
   seen' = seen \<and> m' = AList.update (ex_ExecutionID e) e m \<and> ex_ExecutionID e \<noteq> [] \<and>
   (case map_of m (ex_ExecutionID e) of
      None \<Rightarrow> exec_genesis seen e
    | Some p \<Rightarrow> exec_sameCore p e \<and> exec_transition p e)"
  by (auto simp: Let_def exec_genesis_def exec_transition_def exec_IsTerminal_def split: option.splits if_splits)

interpretation execution_journal:
  record_journal ex_ExecutionID exec_sameCore exec_genesis exec_transition foldExecution
proof (unfold_locales, goal_cases)
  case (3 r items tombs items' tombs')
  then show ?case by (auto simp only: foldExecution_ok map_of_update split: option.splits)
qed (auto simp: exec_sameCore_def)

text \<open>In every history of an execution that folds, the work it names never changes and the first terminal
  state is the last one.\<close>

theorem execution_history_frozen:
  assumes "fold_records foldExecution rs ([], seen) = Inr (m, seen')"
    and "hist = history ex_ExecutionID eid rs" "i \<le> j" "j < length hist"
  shows "exec_sameCore (hist ! i) (hist ! j) \<and>
    (exec_IsTerminal (hist ! i) \<longrightarrow> ex_State (hist ! j) = ex_State (hist ! i))"
proof -
  have ne: "history ex_ExecutionID eid rs \<noteq> []" using assms(2,4) by auto
  note chain = execution_journal.history_chain [OF assms(1) ne, folded assms(2)]
  have "exec_sameCore (hd hist) (hist ! i)" "exec_sameCore (hd hist) (hist ! j)"
    using chain(3) assms(3,4) by simp_all
  then have core: "exec_sameCore (hist ! i) (hist ! j)" by (simp add: exec_sameCore_def)
  have "ex_State (hist ! j) = ex_State (hist ! i)" if "exec_IsTerminal (hist ! i)"
    by (rule execution_journal.settled [OF chain(2) _ assms(3,4), where P = "\<lambda>e. ex_State e = ex_State (hist ! i)"])
       (use that in \<open>auto simp: exec_transition_def exec_IsTerminal_def\<close>)
  with core show ?thesis by blast
qed

definition sample_execution :: Execution where
  "sample_execution = NewExecution ''1'' ''cnt_1'' ''dec_1'' ''apr_1'' [] ''shell'' ''shell:ls'' 60"

definition sample_records :: "Execution list" where
  "sample_records = [sample_execution, MarkTimedOut 9 sample_execution, MarkTimedOut 10 sample_execution]"

theorem execution_history_frozen_witness:
  "exec_sameCore (sample_records ! 1) (sample_records ! 2) \<and> ex_State (sample_records ! 2) = ex_State (sample_records ! 1)"
proof -
  have f: "fold_records foldExecution sample_records ([], False) =
      Inr ([(''exe_1'', MarkTimedOut 10 sample_execution)], False)"
    by (simp add: sample_records_def sample_execution_def NewExecution_def MarkTimedOut_def exec_IsTerminal_def exec_sameCore_def Let_def)
  have h: "sample_records = history ex_ExecutionID ''exe_1'' sample_records" "(1::nat) \<le> 2" "2 < length sample_records"
    by (simp_all add: sample_records_def sample_execution_def NewExecution_def MarkTimedOut_def history_def)
  have "exec_IsTerminal (sample_records ! 1)" by (simp add: sample_records_def)
  with execution_history_frozen [OF f h] show ?thesis by blast
qed

section \<open>The store and its journal\<close>

text \<open>Records a store holds: under their own identifier, in a known state.\<close>

definition execs_ok :: "efstore \<Rightarrow> bool" where
  "execs_ok s \<longleftrightarrow> map_ok (ef_execs s) \<and> (ef_execs s \<noteq> [] \<longrightarrow> 0 < ef_seq s) \<and>
     (\<forall>eid e. map_of (ef_execs s) eid = Some e \<longrightarrow> ex_ExecutionID e = eid \<and> exec_genesis True e)"

lemma fold_delete_Nil [simp]: "fold AList.delete ks [] = []"
  by (induction ks) simp_all

lemma fold_delete_lookup: "map_of (fold AList.delete ks m) k = (if k \<in> set ks then None else map_of m k)"
  by (induction ks arbitrary: m) auto

lemma map_ok_fold_delete [simp]: "map_ok m \<Longrightarrow> map_ok (fold AList.delete ks m)"
  by (induction ks arbitrary: m) auto

lemma replay_live:
  "distinct (map fst es) \<Longrightarrow> fst ` set es \<inter> fst ` set m = {} \<Longrightarrow>
   (\<And>eid e. (eid, e) \<in> set es \<Longrightarrow> ex_ExecutionID e = eid \<and> exec_genesis True e) \<Longrightarrow>
   fold_records exec_foldEvent (map (\<lambda>e. EEvExecution (ex_ExecutionID e) e) (map snd es)) (m, True) = Inr (m @ es, True)"
proof (induction es arbitrary: m)
  case (Cons ke es)
  obtain eid e where ke: "ke = (eid, e)" by force
  have e: "ex_ExecutionID e = eid" "exec_genesis True e" using Cons.prems(3) ke by auto
  have fresh: "eid \<notin> fst ` set m" using Cons.prems(2) ke by auto
  then have "AList.update eid e m = m @ [(eid, e)]" by (induction m) auto
  moreover have "map_of m eid = None" using fresh by (simp add: map_of_eq_None_iff)
  ultimately have "foldExecution e (m, True) = Inr (m @ [(eid, e)], True)"
    using e unfolding foldExecution_ok by (auto simp: exec_genesis_def)
  moreover have "fold_records exec_foldEvent (map (\<lambda>e. EEvExecution (ex_ExecutionID e) e) (map snd es)) (m @ [(eid, e)], True) =
      Inr ((m @ [(eid, e)]) @ es, True)"
  proof (rule Cons.IH)
    show "distinct (map fst es)" using Cons.prems(1) ke by simp
    show "fst ` set es \<inter> fst ` set (m @ [(eid, e)]) = {}" using Cons.prems(1,2) ke by auto
    show "ex_ExecutionID d = k \<and> exec_genesis True d" if "(k, d) \<in> set es" for k d
      using Cons.prems(3) [of k d] that by simp
  qed
  ultimately show ?case using ke by (simp del: foldExecution.simps)
qed simp

text \<open>Compacting a store loses nothing: the rewritten journal opens and gives back exactly the records of
  the store, finished ones included.\<close>

theorem execution_compaction_roundtrip:
  assumes "execs_ok s" "ef_execs s \<noteq> []"
  shows "exec_open (ef_log (exec_compactSigned s)) = Inr (ef_execs s, True)"
proof -
  have "0 < ef_seq s" using assms by (simp add: execs_ok_def)
  moreover have "fold_records exec_foldEvent (map (\<lambda>e. EEvExecution (ex_ExecutionID e) e) (map snd (ef_execs s))) ([], True) =
      Inr ([] @ ef_execs s, True)"
    using assms by (intro replay_live) (auto simp: execs_ok_def map_ok_in_iff, auto simp: map_ok_def)
  ultimately show ?thesis by (simp add: exec_open_def exec_compactSigned_def)
qed

lemma ef_store_ok:
  assumes "execs_ok s" "exec_genesis True e" "w = WriteOk"
  shows "execs_ok (snd (ef_store w e s))"
  using assms
  by (auto simp: ef_store_def ef_append_def execs_ok_def Let_def exec_genesis_def sanitized_def exec_IsTerminal_def)

lemma ef_store_fail: "w \<noteq> WriteOk \<Longrightarrow> execs_ok s \<Longrightarrow> execs_ok (snd (ef_store w e s))"
  by (cases w) (auto simp: ef_store_def ef_append_def execs_ok_def Let_def)

text \<open>Creating, updating, sweeping and compacting keep the records of the store well formed, whatever the
  outcome of the writes.\<close>

theorem execution_store_invariant:
  assumes "execs_ok s" "exec_genesis True e"
  shows "execs_ok (snd (ef_Create w e s)) \<and> execs_ok (snd (ef_Update w e s)) \<and>
    execs_ok (snd (exec_Sweep w now s)) \<and> execs_ok (exec_compactSigned s)"
proof (intro conjI)
  have st: "execs_ok (snd (ef_store w e s))" using assms ef_store_ok ef_store_fail by blast
  show "execs_ok (snd (ef_Create w e s))" "execs_ok (snd (ef_Update w e s))"
    using st assms by (simp_all add: ef_Create_def ef_Update_def)
  show "execs_ok (exec_compactSigned s)" using assms by (auto simp: execs_ok_def exec_compactSigned_def)
  show "execs_ok (snd (exec_Sweep w now s))"
    using assms(1) by (cases w) (auto simp: exec_Sweep_def Let_def ef_append_def execs_ok_def fold_delete_lookup)
qed

definition sample_execs :: efstore where
  "sample_execs = snd (ef_Create WriteOk sample_execution
     \<lparr>ef_execs = [], ef_log = [], ef_seq = 0, ef_retentionDays = 7, ef_maxRecords = 100, ef_staleIDs = []\<rparr>)"

lemma sample_execs_ok: "execs_ok sample_execs" "ef_execs sample_execs \<noteq> []"
  by (auto simp: sample_execs_def ef_Create_def ef_store_def ef_append_def execs_ok_def map_ok_def Let_def
      sample_execution_def NewExecution_def sanitized_def exec_genesis_def)

theorem execution_compaction_roundtrip_witness:
  "exec_open (ef_log (exec_compactSigned sample_execs)) = Inr (ef_execs sample_execs, True)"
  by (rule execution_compaction_roundtrip) (rule sample_execs_ok)+

theorem execution_store_invariant_witness:
  "execs_ok (snd (ef_Create SinkFailed (MarkTimedOut 9 sample_execution) sample_execs)) \<and>
   execs_ok (snd (ef_Update SinkFailed (MarkTimedOut 9 sample_execution) sample_execs)) \<and>
   execs_ok (snd (exec_Sweep SinkFailed 20 sample_execs)) \<and> execs_ok (exec_compactSigned sample_execs)"
  by (rule execution_store_invariant [OF sample_execs_ok(1)])
     (simp add: exec_genesis_def sample_execution_def NewExecution_def MarkTimedOut_def exec_IsTerminal_def)

text \<open>A finished execution that is stored as a new record makes the journal unreadable: unless a compaction
  came before, the next opening refuses it as a terminal first record.\<close>

lemma finished_execution_breaks_journal:
  assumes "exec_open (ef_log s) = Inr (m, False)" "map_of m (ex_ExecutionID e) = None"
    and "map_of (ef_execs s) (ex_ExecutionID e) = None" "ex_ExecutionID e \<noteq> []" "exec_IsTerminal e"
  shows "exec_open (ef_log (snd (ef_Create WriteOk e s))) = Inl (ExecTerminalGenesis (ex_ExecutionID e))"
proof -
  have "ef_log (snd (ef_Create WriteOk e s)) = ef_log s @ [EEvExecution (ex_ExecutionID e) (sanitized e)]"
    using assms(3) by (simp add: ef_Create_def ef_store_def ef_append_def Let_def)
  then show ?thesis using assms
    by (simp add: exec_open_def fold_records_snoc sanitized_def exec_IsTerminal_def)
qed

end
