(* ===== verification/Claim_Properties.thy ===== *)
theory Claim_Properties
  imports Continuation_Properties Execution_Properties
begin

text \<open>
  The properties of the claim-time gates: what holds when an executor is called, that an unknown
  answer never lets a continuation run, how the synchronous path and the poll of the orchestrator share
  their gates, and what a run leaves in the two stores.
\<close>

section \<open>The gates\<close>

lemma authority_ok:
  "CheckClaimAuthority now (Some rc) c = Inr None \<longleftrightarrow>
   (\<forall>t. ct_AuthorityExpiresAt c = Some t \<longrightarrow> now < t) \<and>
   (RevocationPairs c = [] \<or> rc (RevocationPairs c) = Inr None)"
  by (auto simp: CheckClaimAuthority_def split: option.splits sum.splits if_splits)

definition approved_by :: "ApprovalRequest \<Rightarrow> Continuation \<Rightarrow> bool" where
  "approved_by ap c \<longleftrightarrow> ap_Status ap = StatusApproved \<and> ap_DecisionID ap = ct_DecisionID c \<and>
     ap_ActionType ap = ct_ActionType c \<and> ap_Resource ap = ct_Resource c \<and>
     (ap_AgentID ap = [] \<or> ct_AgentID c = [] \<or> ap_AgentID ap = ct_AgentID c)"

lemma provenance_ok:
  "CheckClaimProvenance (Some ga) c = Inr None \<longleftrightarrow>
   ct_ApprovalID c \<noteq> [] \<and> (\<exists>ap. ga (ct_ApprovalID c) = Inr ap \<and> approved_by ap c)"
  by (auto simp: CheckClaimProvenance_def approved_by_def split: sum.splits if_splits)

lemma claimGate_None [simp]: "claimGate name a b answer = None \<longleftrightarrow> answer = Inr None"
  by (auto simp: claimGate_def split: sum.splits option.splits)

lemma first_gate_None: "(case a of None \<Rightarrow> b | Some e \<Rightarrow> Some e) = None \<longleftrightarrow> a = None \<and> b = None"
  by (cases a) auto

lemma claim_gates_open:
  "claim_gates o' clock c = None \<longleftrightarrow>
   (or_revocation o' = None \<or> CheckClaimAuthority (clock 2) (or_revocation o') c = Inr None) \<and>
   (or_approvals o' = None \<or> CheckClaimProvenance (or_approvals o') c = Inr None) \<and>
   (\<forall>reg. or_registry o' = Some reg \<longrightarrow> map_of reg (ct_ActionType c) \<noteq> None)"
  unfolding claim_gates_def first_gate_None
  by (cases "or_revocation o'"; cases "or_approvals o'"; cases "or_registry o'") simp_all

text \<open>A claim that succeeds.\<close>

lemma claim_result:
  "cf_ClaimForExecution w now cid s = (Some c', s') \<longleftrightarrow>
   w = WriteOk \<and> (\<exists>c. map_of (cf_conts s) cid = Some c \<and> isClaimable now c \<and> c' = markExecuting now c \<and>
     s' = snd (transitionLocked WriteOk cid c' s))"
  by (cases w) (auto simp: cf_ClaimForExecution_def cf_guarded_def transitionLocked_def persistLocked_def cf_append_def
      split: option.splits if_splits)

lemma gates_of_claimed [simp]:
  "RevocationPairs (markExecuting now c) = RevocationPairs c"
  "ct_AuthorityExpiresAt (markExecuting now c) = ct_AuthorityExpiresAt c"
  "ct_ApprovalID (markExecuting now c) = ct_ApprovalID c"
  "ct_ActionType (markExecuting now c) = ct_ActionType c"
  "approved_by ap (markExecuting now c) = approved_by ap c"
  by (simp_all add: markExecuting_def RevocationPairs_def approved_by_def)

lemma executeOne_ran:
  "fst (executeOne o' clock fresh (w1, w2, w3) cnt0 w) = Some exe \<Longrightarrow>
   \<exists>c s. \<not> recently_skipped o' (clock 0) cnt0 \<and>
     cf_ClaimForExecution w1 (clock 1) (ct_ContinuationID cnt0) (w_conts w) = (Some c, s) \<and>
     claim_gates o' clock c = None \<and>
     snd (executeOne o' clock fresh (w1, w2, w3) cnt0 w) =
       w \<lparr>w_conts := snd (cf_Update w3 (settle (end_of_run exe) c) s),
          w_execs := map_option (\<lambda>es. snd (ef_Create w2 exe es)) (w_execs w)\<rparr>"
  by (auto simp: executeOne_def Let_def split: if_splits prod.splits option.splits)

text \<open>C12: The orchestrator calls an executor only for a continuation that is stored, claimable and
  unexpired, and whose action type has an executor if there is a registry. When a revocation checker is
  configured, the captured authority has not expired and the checker reports no part of it revoked; when an
  approval store is configured, the approval of the continuation exists, is approved and is for the same
  decision, action and resource. Without a checker the expiry of the authority is not looked at:
  \<open>expired_authority_runs_unchecked\<close> below.\<close>

theorem executes_only_authorized:
  assumes "fst (executeOne o' clock fresh (w1, w2, w3) cnt0 w) = Some exe"
  shows "\<exists>c. map_of (cf_conts (w_conts w)) (ct_ContinuationID cnt0) = Some c \<and> isClaimable (clock 1) c \<and>
    (\<forall>rc. or_revocation o' = Some rc \<longrightarrow>
       (\<forall>t. ct_AuthorityExpiresAt c = Some t \<longrightarrow> clock 2 < t) \<and>
       (RevocationPairs c = [] \<or> rc (RevocationPairs c) = Inr None)) \<and>
    (\<forall>ga. or_approvals o' = Some ga \<longrightarrow>
       ct_ApprovalID c \<noteq> [] \<and> (\<exists>ap. ga (ct_ApprovalID c) = Inr ap \<and> approved_by ap c)) \<and>
    (\<forall>reg. or_registry o' = Some reg \<longrightarrow> map_of reg (ct_ActionType c) \<noteq> None)"
proof -
  obtain c' s where claim: "cf_ClaimForExecution w1 (clock 1) (ct_ContinuationID cnt0) (w_conts w) = (Some c', s)"
    and gates: "claim_gates o' clock c' = None"
    using executeOne_ran [OF assms] by blast
  obtain c where c: "map_of (cf_conts (w_conts w)) (ct_ContinuationID cnt0) = Some c" "isClaimable (clock 1) c"
    "c' = markExecuting (clock 1) c"
    using claim by (auto simp: claim_result)
  have "CheckClaimAuthority (clock 2) (Some rc) c' = Inr None" if "or_revocation o' = Some rc" for rc
    using gates that by (simp add: claim_gates_open)
  moreover have "CheckClaimProvenance (Some ga) c' = Inr None" if "or_approvals o' = Some ga" for ga
    using gates that by (simp add: claim_gates_open)
  moreover have "\<forall>reg. or_registry o' = Some reg \<longrightarrow> map_of reg (ct_ActionType c') \<noteq> None"
    using gates by (simp add: claim_gates_open)
  ultimately show ?thesis using c by (auto simp: authority_ok provenance_ok)
qed

definition sample_approval :: ApprovalRequest where
  "sample_approval = Approve_req 200 ''operator'' (ToApproval 100 ''apr_1''
     \<lparr>cr_DecisionID = ''dec_1'', cr_ActionType = ''shell'', cr_Resource = ''shell:ls'', cr_Environment = [],
      cr_AgentID = [], cr_TrustScore = 0, cr_TrustLevel = [], cr_AnomalyCodes = [], cr_ShieldActive = False,
      cr_Restricted = False, cr_Context = [], cr_RequestHash = [], cr_PolicyVersion = [], cr_LeaseID = [],
      cr_DelegationKeys = [], cr_Issuers = []\<rparr>)"

definition sample_orchestrator :: "checker \<Rightarrow> orchestrator" where
  "sample_orchestrator rc = \<lparr>or_registry = Some [(''shell'', \<lambda>e. (MarkTimedOut 400 e, None))], or_identityChecker = None,
     or_revocation = Some rc, or_approvals = Some (approval_lookup [(''apr_1'', sample_approval)]),
     or_pollInterval = 2 * Second, or_paused = False, or_stuckRecoveryThreshold = 0\<rparr>"

definition sample_world :: world where
  "sample_world = \<lparr>w_conts = sy_store (sys_run [(WriteOk, OpCreate (sample_continuation \<lparr>ct_LeaseID := ''ls_1''\<rparr>)),
       (WriteOk, OpDecide 200 ''apr_1'' True ''operator'' [])] (empty_sys 7 10)),
     w_execs = Some \<lparr>ef_execs = [], ef_log = [], ef_seq = 0, ef_retentionDays = 7, ef_maxRecords = 100, ef_staleIDs = []\<rparr>\<rparr>"

lemmas sample_run_eval =
  sample_eval sample_world_def sample_orchestrator_def sample_approval_def ToApproval_def Approve_req_def
  approval_lookup_def executeOne_def recently_skipped_def claim_gates_def claimGate_def CheckClaimAuthority_def
  CheckClaimProvenance_def RevocationPairs_def PairsFor_def run_executor_def NewExecution_def MarkTimedOut_def
  exec_timeout_def end_of_run_def

lemma sample_ran:
  "\<exists>exe. fst (executeOne (sample_orchestrator (\<lambda>_. Inr None)) int ''1'' (WriteOk, WriteOk, WriteOk) sample_continuation sample_world) = Some exe \<and>
     ex_State exe = StateTimedOut \<and> ex_ExecutionID exe = ''exe_1''"
  by (simp add: sample_run_eval)

theorem executes_only_authorized_witness:
  "\<exists>c. map_of (cf_conts (w_conts sample_world)) (ct_ContinuationID sample_continuation) = Some c \<and> isClaimable (int 1) c \<and>
    RevocationPairs c \<noteq> [] \<and>
    (\<exists>ap. approval_lookup [(''apr_1'', sample_approval)] (ct_ApprovalID c) = Inr ap \<and> approved_by ap c) \<and>
    (\<forall>reg. or_registry (sample_orchestrator (\<lambda>_. Inr None)) = Some reg \<longrightarrow> map_of reg (ct_ActionType c) \<noteq> None)"
proof -
  obtain exe where "fst (executeOne (sample_orchestrator (\<lambda>_. Inr None)) int ''1'' (WriteOk, WriteOk, WriteOk)
      sample_continuation sample_world) = Some exe" using sample_ran by blast
  from executes_only_authorized [OF this] obtain c where
    c: "map_of (cf_conts (w_conts sample_world)) (ct_ContinuationID sample_continuation) = Some c" "isClaimable (int 1) c"
    and ap: "\<forall>ga. or_approvals (sample_orchestrator (\<lambda>_. Inr None)) = Some ga \<longrightarrow>
       ct_ApprovalID c \<noteq> [] \<and> (\<exists>ap. ga (ct_ApprovalID c) = Inr ap \<and> approved_by ap c)"
    and reg: "\<forall>reg. or_registry (sample_orchestrator (\<lambda>_. Inr None)) = Some reg \<longrightarrow> map_of reg (ct_ActionType c) \<noteq> None"
    by blast
  have "\<exists>ap. approval_lookup [(''apr_1'', sample_approval)] (ct_ApprovalID c) = Inr ap \<and> approved_by ap c"
    using ap by (simp add: sample_orchestrator_def)
  moreover have "RevocationPairs c \<noteq> []" using c(1) by (auto simp: sample_run_eval)
  ultimately show ?thesis using c reg by blast
qed

definition stale_world :: world where
  "stale_world = \<lparr>w_conts = sy_store (sys_run [(WriteOk, OpCreate (sample_continuation \<lparr>ct_AuthorityExpiresAt := Some 1\<rparr>)),
       (WriteOk, OpDecide 200 ''apr_1'' True ''operator'' [])] (empty_sys 7 10)), w_execs = None\<rparr>"

text \<open>without a revocation checker a continuation whose captured authority has expired is executed; with
  one that reports nothing revoked it is not.\<close>

theorem expired_authority_runs_unchecked:
  "fst (executeOne ((sample_orchestrator (\<lambda>_. Inr None)) \<lparr>or_revocation := None\<rparr>) int ''1'' (WriteOk, WriteOk, WriteOk)
     sample_continuation stale_world) \<noteq> None \<and>
   fst (executeOne (sample_orchestrator (\<lambda>_. Inr None)) int ''1'' (WriteOk, WriteOk, WriteOk)
     sample_continuation stale_world) = None"
  by (simp add: sample_run_eval stale_world_def)

section \<open>An unknown answer\<close>

lemma executeOne_stopped:
  assumes "\<not> recently_skipped o' (clock 0) cnt0" "map_of (cf_conts (w_conts w)) (ct_ContinuationID cnt0) = Some c"
    and "isClaimable (clock 1) c" "claim_gates o' clock (markExecuting (clock 1) c) = Some e"
    and "ct_ContinuationID c = ct_ContinuationID cnt0"
  shows "fst (executeOne o' clock fresh (w1, w2, w3) cnt0 w) = None \<and>
    map_of (cf_conts (w_conts (snd (executeOne o' clock fresh (w1, w2, w3) cnt0 w)))) (ct_ContinuationID cnt0) =
      Some (if w1 \<noteq> WriteOk then c else if w3 \<noteq> WriteOk then markExecuting (clock 1) c
        else settle e (markExecuting (clock 1) c))"
proof (cases "w1 = WriteOk")
  case True
  let ?c = "markExecuting (clock 1) c" and ?s = "snd (transitionLocked WriteOk (ct_ContinuationID cnt0) (markExecuting (clock 1) c) (w_conts w))"
  have "cf_ClaimForExecution w1 (clock 1) (ct_ContinuationID cnt0) (w_conts w) = (Some ?c, ?s)"
    using assms(2,3) True by (auto simp: claim_result)
  then have "executeOne o' clock fresh (w1, w2, w3) cnt0 w =
      (None, w \<lparr>w_conts := snd (cf_Update w3 (settle e ?c) ?s)\<rparr>)"
    using assms(1,4) by (simp add: executeOne_def)
  then show ?thesis using assms(5) True by (simp add: cf_lookup transitionLocked_conts)
next
  case False
  then have none: "fst (cf_ClaimForExecution w1 (clock 1) (ct_ContinuationID cnt0) (w_conts w)) = None"
    by (cases "cf_ClaimForExecution w1 (clock 1) (ct_ContinuationID cnt0) (w_conts w)")
       (auto simp: cf_ClaimForExecution_def cf_guarded_result split: option.splits dest!: arg_cong [where f = fst])
  then have "executeOne o' clock fresh (w1, w2, w3) cnt0 w =
      (None, w \<lparr>w_conts := snd (cf_ClaimForExecution w1 (clock 1) (ct_ContinuationID cnt0) (w_conts w))\<rparr>)"
    using assms(1) by (cases "cf_ClaimForExecution w1 (clock 1) (ct_ContinuationID cnt0) (w_conts w)") (simp add: executeOne_def)
  then show ?thesis using assms(2) False by (simp add: cf_ClaimForExecution_def cf_lookup)
qed

text \<open>C13: With a revocation checker configured, a continuation that is up for execution but whose authority
  the gate does not clear is not executed, whatever the writes do. When claim and update are written it ends
  in the queue if the revocation state is unknown, and denied for good if the authority is revoked or
  expired; when the claim is not written it stays as it was, and when only the update is not written it
  stays claimed.\<close>

theorem unknown_revocation_requeues:
  assumes "\<not> recently_skipped o' (clock 0) cnt0" "map_of (cf_conts (w_conts w)) (ct_ContinuationID cnt0) = Some c"
    and "isClaimable (clock 1) c" "ct_ContinuationID c = ct_ContinuationID cnt0" "or_revocation o' = Some rc"
    and "CheckClaimAuthority (clock 2) (Some rc) (markExecuting (clock 1) c) = answer" "answer \<noteq> Inr None"
  shows "fst (executeOne o' clock fresh (w1, w2, w3) cnt0 w) = None \<and>
    (\<exists>c'. map_of (cf_conts (w_conts (snd (executeOne o' clock fresh (w1, w2, w3) cnt0 w)))) (ct_ContinuationID cnt0) = Some c' \<and>
      ct_State c' = (if w1 \<noteq> WriteOk then ct_State c else if w3 \<noteq> WriteOk then StateExecuting
        else (case answer of Inl _ \<Rightarrow> StateQueued | Inr _ \<Rightarrow> StateDenied)))"
proof -
  let ?e = "case answer of Inl _ \<Rightarrow> EndSkipped (clock 3) (clock 4) | Inr why \<Rightarrow> EndDenied ''revocation'' (the why)"
  have "claim_gates o' clock (markExecuting (clock 1) c) = Some ?e"
    using assms(5-7) by (auto simp: claim_gates_def claimGate_def split: sum.splits option.splits)
  from executeOne_stopped [OF assms(1-3) this assms(4), of fresh w1 w2 w3]
  show ?thesis by (auto simp: cnt_marks cnt_tests split: sum.splits)
qed

theorem unknown_revocation_requeues_witness:
  "fst (executeOne (sample_orchestrator (\<lambda>_. Inl ''io'')) int ''1'' (WriteOk, WriteOk, WriteOk) sample_continuation sample_world) = None \<and>
    (\<exists>c'. map_of (cf_conts (w_conts (snd (executeOne (sample_orchestrator (\<lambda>_. Inl ''io'')) int ''1'' (WriteOk, WriteOk, WriteOk)
        sample_continuation sample_world)))) (ct_ContinuationID sample_continuation) = Some c' \<and> ct_State c' = StateQueued)"
proof -
  have "\<exists>c. map_of (cf_conts (w_conts sample_world)) (ct_ContinuationID sample_continuation) = Some c \<and> isClaimable (int 1) c \<and>
      ct_ContinuationID c = ct_ContinuationID sample_continuation \<and>
      CheckClaimAuthority (int 2) (Some (\<lambda>_. Inl ''io'')) (markExecuting (int 1) c) = Inl ''revocation state unavailable: io''"
    by (simp add: sample_run_eval)
  then obtain c where c: "map_of (cf_conts (w_conts sample_world)) (ct_ContinuationID sample_continuation) = Some c"
    "isClaimable (int 1) c" "ct_ContinuationID c = ct_ContinuationID sample_continuation"
    "CheckClaimAuthority (int 2) (Some (\<lambda>_. Inl ''io'')) (markExecuting (int 1) c) = Inl ''revocation state unavailable: io''"
    by blast
  have "\<not> recently_skipped (sample_orchestrator (\<lambda>_. Inl ''io'')) (int 0) sample_continuation"
    "or_revocation (sample_orchestrator (\<lambda>_. Inl ''io'')) = Some (\<lambda>_. Inl ''io'')"
    by (simp_all add: sample_run_eval)
  from unknown_revocation_requeues [OF this(1) c(1-3) this(2) c(4), of "''1''" WriteOk WriteOk WriteOk]
  show ?thesis by simp
qed

section \<open>What a run leaves\<close>

text \<open>After a run the stored continuation is executed, and it is marked as succeeded exactly when the
  execution record is.\<close>

theorem run_outcome_recorded:
  assumes "fst (executeOne o' clock fresh (w1, w2, WriteOk) cnt0 w) = Some exe"
    and "conts_ok (cf_conts (w_conts w))"
  shows "\<exists>c. map_of (cf_conts (w_conts (snd (executeOne o' clock fresh (w1, w2, WriteOk) cnt0 w)))) (ct_ContinuationID cnt0) = Some c \<and>
    ct_State c = StateExecuted \<and> ct_LastExecutionSucceeded c = (ex_State exe = StateSucceeded)"
proof -
  obtain c' s where claim: "cf_ClaimForExecution w1 (clock 1) (ct_ContinuationID cnt0) (w_conts w) = (Some c', s)"
    and after: "w_conts (snd (executeOne o' clock fresh (w1, w2, WriteOk) cnt0 w)) = snd (cf_Update WriteOk (settle (end_of_run exe) c') s)"
    using executeOne_ran [OF assms(1)] by auto
  obtain c where c: "map_of (cf_conts (w_conts w)) (ct_ContinuationID cnt0) = Some c" "c' = markExecuting (clock 1) c"
    and s: "s = snd (transitionLocked WriteOk (ct_ContinuationID cnt0) c' (w_conts w))"
    using claim by (auto simp: claim_result)
  have cid: "ct_ContinuationID c = ct_ContinuationID cnt0" using assms(2) c(1) by (auto simp: conts_ok_def)
  show ?thesis unfolding after s
    by (auto simp: cf_lookup transitionLocked_conts c(2) cid end_of_run_def cnt_marks)
qed

theorem run_outcome_recorded_witness:
  "\<exists>c. map_of (cf_conts (w_conts (snd (executeOne (sample_orchestrator (\<lambda>_. Inr None)) int ''1'' (WriteOk, WriteOk, WriteOk)
      sample_continuation sample_world)))) (ct_ContinuationID sample_continuation) = Some c \<and>
    ct_State c = StateExecuted \<and> \<not> ct_LastExecutionSucceeded c"
proof -
  obtain exe where exe: "fst (executeOne (sample_orchestrator (\<lambda>_. Inr None)) int ''1'' (WriteOk, WriteOk, WriteOk)
      sample_continuation sample_world) = Some exe" "ex_State exe = StateTimedOut" using sample_ran by blast
  have ok: "conts_ok (cf_conts (w_conts sample_world))" by (simp add: sample_run_eval conts_ok_def map_ok_def)
  from run_outcome_recorded [OF exe(1) ok] show ?thesis by (simp only: exe(2) exec_State.distinct simp_thms)
qed

text \<open>A run of the orchestrator whose executor finishes makes the execution journal unreadable: the record
  is created only after the run, so its first version is terminal, and the next opening of the journal
  refuses it.\<close>

theorem orchestrated_run_breaks_journal:
  assumes "fst (executeOne o' clock fresh (w1, WriteOk, w3) cnt0 w) = Some exe"
    and "w_execs w = Some es" "exec_open (ef_log es) = Inr (ef_execs es, False)"
    and "map_of (ef_execs es) (ex_ExecutionID exe) = None" "ex_ExecutionID exe \<noteq> []" "exec_IsTerminal exe"
  shows "exec_open (ef_log (the (w_execs (snd (executeOne o' clock fresh (w1, WriteOk, w3) cnt0 w))))) =
    Inl (ExecTerminalGenesis (ex_ExecutionID exe))"
proof -
  have "w_execs (snd (executeOne o' clock fresh (w1, WriteOk, w3) cnt0 w)) = Some (snd (ef_Create WriteOk exe es))"
    using executeOne_ran [OF assms(1)] assms(2) by auto
  with finished_execution_breaks_journal [OF assms(3,4,4-6)] show ?thesis by simp
qed

theorem orchestrated_run_breaks_journal_witness:
  "exec_open (ef_log (the (w_execs (snd (executeOne (sample_orchestrator (\<lambda>_. Inr None)) int ''1'' (WriteOk, WriteOk, WriteOk)
     sample_continuation sample_world))))) = Inl (ExecTerminalGenesis ''exe_1'')"
proof -
  obtain exe where exe: "fst (executeOne (sample_orchestrator (\<lambda>_. Inr None)) int ''1'' (WriteOk, WriteOk, WriteOk)
      sample_continuation sample_world) = Some exe" "ex_State exe = StateTimedOut" "ex_ExecutionID exe = ''exe_1''"
    using sample_ran by blast
  have "w_execs sample_world = Some \<lparr>ef_execs = [], ef_log = [], ef_seq = 0, ef_retentionDays = 7, ef_maxRecords = 100, ef_staleIDs = []\<rparr>"
    by (simp add: sample_world_def)
  from orchestrated_run_breaks_journal [OF exe(1) this] exe(2,3) show ?thesis
    by (simp add: exec_open_def exec_IsTerminal_def)
qed

section \<open>The synchronous path\<close>

lemma handleExecute_ran:
  "(\<exists>exe. fst (handleExecute h clock fresh timeoutParam (w1, w2, w3) cid w) = ReplyRan exe) \<longleftrightarrow>
   w1 = WriteOk \<and> (\<exists>c. map_of (cf_conts (w_conts w)) cid = Some c \<and> isClaimable (clock 1) c \<and>
     (\<forall>ok. or_identityChecker h = Some ok \<longrightarrow> ok (ct_AgentID c)) \<and> claim_gates h clock (markExecuting (clock 1) c) = None)"
proof (cases "cf_ClaimForExecution w1 (clock 1) cid (w_conts w)")
  case (Pair r s)
  show ?thesis
  proof (cases r)
    case None
    with Pair have "fst (cf_ClaimForExecution w1 (clock 1) cid (w_conts w)) = None" by simp
    then have "\<not> (w1 = WriteOk \<and> (\<exists>c. map_of (cf_conts (w_conts w)) cid = Some c \<and> isClaimable (clock 1) c))"
      by (auto simp: cf_ClaimForExecution_def cf_guarded_result split: if_splits)
    with None Pair show ?thesis by (auto simp: handleExecute_def Let_def split: option.splits)
  next
    case (Some c')
    from Pair Some obtain c where c: "w1 = WriteOk" "map_of (cf_conts (w_conts w)) cid = Some c" "isClaimable (clock 1) c"
        "c' = markExecuting (clock 1) c" by (auto simp: claim_result)
    have agent: "ct_AgentID c' = ct_AgentID c" by (simp add: c(4) markExecuting_def)
    have "(\<exists>exe. fst (handleExecute h clock fresh timeoutParam (w1, w2, w3) cid w) = ReplyRan exe) \<longleftrightarrow>
        (\<forall>ok. or_identityChecker h = Some ok \<longrightarrow> ok (ct_AgentID c')) \<and> claim_gates h clock c' = None"
      unfolding claim_gates_open using Pair Some
      by (cases "or_identityChecker h"; cases "or_revocation h"; cases "or_approvals h"; cases "or_registry h")
         (auto simp: handleExecute_def Let_def split: sum.splits option.splits)
    then show ?thesis unfolding agent using c by auto
  qed
qed

lemma executeOne_ran_iff:
  "(\<exists>exe. fst (executeOne o' clock fresh (w1, w2, w3) cnt0 w) = Some exe) \<longleftrightarrow>
   \<not> recently_skipped o' (clock 0) cnt0 \<and> w1 = WriteOk \<and>
   (\<exists>c. map_of (cf_conts (w_conts w)) (ct_ContinuationID cnt0) = Some c \<and> isClaimable (clock 1) c \<and>
     claim_gates o' clock (markExecuting (clock 1) c) = None)"
proof (cases "cf_ClaimForExecution w1 (clock 1) (ct_ContinuationID cnt0) (w_conts w)")
  case (Pair r s)
  show ?thesis
  proof (cases r)
    case None
    with Pair have "fst (cf_ClaimForExecution w1 (clock 1) (ct_ContinuationID cnt0) (w_conts w)) = None" by simp
    then have "\<not> (w1 = WriteOk \<and> (\<exists>c. map_of (cf_conts (w_conts w)) (ct_ContinuationID cnt0) = Some c \<and> isClaimable (clock 1) c))"
      by (auto simp: cf_ClaimForExecution_def cf_guarded_result split: if_splits)
    with None Pair show ?thesis by (auto simp: executeOne_def)
  next
    case (Some c')
    from Pair Some obtain c where "w1 = WriteOk" "map_of (cf_conts (w_conts w)) (ct_ContinuationID cnt0) = Some c"
        "isClaimable (clock 1) c" "c' = markExecuting (clock 1) c" by (auto simp: claim_result)
    with Pair Some show ?thesis by (auto simp: executeOne_def Let_def split: option.splits)
  qed
qed

lemma in_drainQueue:
  assumes "conts_ok (cf_conts s)"
  shows "cnt0 \<in> set (drainQueue o' s) \<longleftrightarrow> \<not> or_paused o' \<and> ct_State cnt0 = StateQueued \<and>
    (\<forall>ok. or_identityChecker o' = Some ok \<longrightarrow> ok (ct_AgentID cnt0)) \<and>
    map_of (cf_conts s) (ct_ContinuationID cnt0) = Some cnt0"
proof -
  have "cnt0 \<in> set (map snd (cf_conts s)) \<longleftrightarrow> map_of (cf_conts s) (ct_ContinuationID cnt0) = Some cnt0"
  proof
    assume "cnt0 \<in> set (map snd (cf_conts s))"
    then obtain k where "(k, cnt0) \<in> set (cf_conts s)" by auto
    then have "map_of (cf_conts s) k = Some cnt0" using assms by (simp add: conts_ok_def map_ok_in_iff)
    moreover from this have "ct_ContinuationID cnt0 = k" using assms by (simp add: conts_ok_def)
    ultimately show "map_of (cf_conts s) (ct_ContinuationID cnt0) = Some cnt0" by simp
  next
    assume "map_of (cf_conts s) (ct_ContinuationID cnt0) = Some cnt0"
    then show "cnt0 \<in> set (map snd (cf_conts s))" by (force dest: map_of_SomeD)
  qed
  then show ?thesis by (auto simp: drainQueue_def cnt_ListByState_def split: option.splits)
qed

text \<open>C14: How the two ways to run a continuation differ, for a handler and an orchestrator with the same
  checkers. The handler runs a continuation exactly when the claim is written, it is stored and claimable
  (queued, approved or resumed, and not expired), its agent's identity is active, and the claim gates of
  the orchestrator let it pass. A poll of the orchestrator runs exactly those of them that are queued,
  while the queue is not paused, and that were not skipped within the last poll interval.\<close>

theorem synchronous_gates_agree:
  assumes "conts_ok (cf_conts (w_conts w))"
  shows "((\<exists>exe. fst (handleExecute h clock fresh timeoutParam (w1, w2, w3) cid w) = ReplyRan exe) \<longleftrightarrow>
      w1 = WriteOk \<and> (\<exists>c. map_of (cf_conts (w_conts w)) cid = Some c \<and> isClaimable (clock 1) c \<and>
        (\<forall>ok. or_identityChecker h = Some ok \<longrightarrow> ok (ct_AgentID c)) \<and> claim_gates h clock (markExecuting (clock 1) c) = None)) \<and>
    ((\<exists>cnt0\<in>set (drainQueue h (w_conts w)). ct_ContinuationID cnt0 = cid \<and>
        (\<exists>exe. fst (executeOne h clock fresh (w1, w2, w3) cnt0 w) = Some exe)) \<longleftrightarrow>
      (\<exists>exe. fst (handleExecute h clock fresh timeoutParam (w1, w2, w3) cid w) = ReplyRan exe) \<and> \<not> or_paused h \<and>
      (\<exists>c. map_of (cf_conts (w_conts w)) cid = Some c \<and> ct_State c = StateQueued \<and> \<not> recently_skipped h (clock 0) c))"
proof -
  have stored: "ct_ContinuationID c = cid" if "map_of (cf_conts (w_conts w)) cid = Some c" for c
    using assms that by (simp add: conts_ok_def)
  show ?thesis
    unfolding handleExecute_ran executeOne_ran_iff in_drainQueue [OF assms] Bex_def using stored by auto
qed

theorem synchronous_gates_agree_witness:
  "(\<exists>exe. fst (handleExecute (sample_orchestrator (\<lambda>_. Inr None)) int ''1'' None (WriteOk, WriteOk, WriteOk) ''cnt_1'' sample_world) = ReplyRan exe) \<and>
   (\<exists>cnt0\<in>set (drainQueue (sample_orchestrator (\<lambda>_. Inr None)) (w_conts sample_world)). ct_ContinuationID cnt0 = ''cnt_1'' \<and>
     (\<exists>exe. fst (executeOne (sample_orchestrator (\<lambda>_. Inr None)) int ''1'' (WriteOk, WriteOk, WriteOk) cnt0 sample_world) = Some exe))"
proof -
  let ?o = "sample_orchestrator (\<lambda>_. Inr None)"
  have ok: "conts_ok (cf_conts (w_conts sample_world))" by (simp add: sample_run_eval conts_ok_def map_ok_def)
  have "\<exists>c. map_of (cf_conts (w_conts sample_world)) ''cnt_1'' = Some c \<and> isClaimable (int 1) c \<and>
      claim_gates ?o int (markExecuting (int 1) c) = None \<and> ct_State c = StateQueued \<and> \<not> recently_skipped ?o (int 0) c"
    by (simp add: sample_run_eval)
  moreover have "or_identityChecker ?o = None" "\<not> or_paused ?o" by (simp_all add: sample_orchestrator_def)
  ultimately show ?thesis
    using synchronous_gates_agree [OF ok, of ?o int "''1''" None WriteOk WriteOk WriteOk "''cnt_1''"] by auto
qed

end
