(* ===== verification/Identity_Scope.thy ===== *)
theory Identity_Scope
  imports Policy_Match
begin

text \<open>
  Component: delegation scopes (\<^verbatim>\<open>internal/identity/scope.go\<close>). A scope is \<^verbatim>\<open>*\<close>, a URL with an optional method
  and an optional trailing star, or a literal with an optional trailing star; anything else does not parse,
  which is \<^const>\<open>None\<close> here. URL scopes are compared in the canonical form of the policy engine.
\<close>

record scopePat =
  sp_isURL :: bool
  sp_method :: string
  sp_lit :: string
  sp_wild :: bool

definition has_blank :: "string \<Rightarrow> bool" where
  "has_blank s \<longleftrightarrow> CHR '' '' \<in> set s \<or> CHR 0x09 \<in> set s"

text \<open>
  A canonical resource always has a space after its method (\<open>canonical_has_method\<close> below), so the last
  branch, where the code would slice at a negative index, is never taken.
\<close>

definition canonResourceURL :: "string \<Rightarrow> (string \<times> string) option" where
  "canonResourceURL s =
     (case CanonicalResource s of
        None \<Rightarrow>
          if has_blank s then None
          else map_option (\<lambda>c. ([], drop 4 c)) (CanonicalResource (''GET '' @ s))
      | Some c \<Rightarrow>
          (case IndexByte c (CHR '' '') of
             Some i \<Rightarrow> Some (take i c, drop (i + 1) c)
           | None \<Rightarrow> None))"

definition dot_segment :: "string \<Rightarrow> bool" where
  "dot_segment path \<longleftrightarrow> list_ex (\<lambda>seg. seg = ''.'' \<or> seg = ''..'') (SplitByte (CHR ''/'') path)"

definition parseScope :: "string \<Rightarrow> scopePat option" where
  "parseScope s =
     (if s = ''*'' then Some \<lparr>sp_isURL = False, sp_method = [], sp_lit = [], sp_wild = True\<rparr>
      else let wild = HasSuffix s ''*''; lit = (if wild then take (length s - 1) s else s) in
        if lit = [] \<or> CHR ''*'' \<in> set lit then None
        else if \<not> Contains lit ''://'' then
          (if has_blank lit then None
           else Some \<lparr>sp_isURL = False, sp_method = [], sp_lit = lit, sp_wild = wild\<rparr>)
        else let us = (case IndexByte lit (CHR '' '') of
                         Some i \<Rightarrow> if 0 < i then drop (i + 1) lit else lit
                       | None \<Rightarrow> lit) in
          (case url_Parse us of
             None \<Rightarrow> None
           | Some u \<Rightarrow>
               if RawQuery u \<noteq> [] \<or> Fragment u \<noteq> [] then None
               else if dot_segment (EscapedPath u) \<or> dot_segment (Path u) then None
               else map_option (\<lambda>(m, c). \<lparr>sp_isURL = True, sp_method = m, sp_lit = c, sp_wild = wild\<rparr>)
                      (canonResourceURL lit)))"

definition validScope :: "string \<Rightarrow> bool" where
  "validScope s \<longleftrightarrow> parseScope s \<noteq> None"

definition unbounded :: "scopePat \<Rightarrow> bool" where
  "unbounded p \<longleftrightarrow> sp_wild p \<and> sp_lit p = []"

text \<open>A pattern's literal against a text in the same domain.\<close>

definition lit_covers :: "scopePat \<Rightarrow> string \<Rightarrow> bool" where
  "lit_covers p s \<longleftrightarrow> (if sp_wild p then HasPrefix s (sp_lit p) else s = sp_lit p)"

definition pat_matches :: "scopePat \<Rightarrow> string \<Rightarrow> bool" where
  "pat_matches p resource \<longleftrightarrow>
     (if unbounded p then True
      else if sp_isURL p then
        (case canonResourceURL resource of
           None \<Rightarrow> False
         | Some (rm, rc) \<Rightarrow> if sp_method p \<noteq> [] \<and> sp_method p \<noteq> rm then False else lit_covers p rc)
      else lit_covers p resource)"

definition scopeMatches :: "string \<Rightarrow> string \<Rightarrow> bool" where
  "scopeMatches scope resource =
     (case parseScope scope of None \<Rightarrow> False | Some p \<Rightarrow> pat_matches p resource)"

definition scopeContains :: "string \<Rightarrow> string \<Rightarrow> bool" where
  "scopeContains parent child =
     (case parseScope parent of
        None \<Rightarrow> False
      | Some pp \<Rightarrow>
          if unbounded pp then True
          else (case parseScope child of
                  None \<Rightarrow> False
                | Some cp \<Rightarrow>
                    if sp_isURL pp \<noteq> sp_isURL cp then False
                    else if unbounded cp then False
                    else if sp_isURL pp \<and> sp_method pp \<noteq> [] \<and> sp_method pp \<noteq> sp_method cp then False
                    else if sp_wild pp then HasPrefix (sp_lit cp) (sp_lit pp)
                    else sp_lit cp = sp_lit pp \<and> \<not> sp_wild cp))"

definition ActionInScope :: "string \<Rightarrow> string list \<Rightarrow> bool" where
  "ActionInScope action actions \<longleftrightarrow> list_ex (\<lambda>a. a = ''*'' \<or> a = action) actions"

section \<open>Containment\<close>

lemma to_upper_not_blank: "is_letter c \<Longrightarrow> to_upper c \<noteq> CHR '' ''"
proof
  assume l: "is_letter c" and "to_upper c = CHR '' ''"
  then have "of_char (to_upper c) = (32 :: nat)" by simp
  with l show False
    by (auto simp: to_upper_def is_letter_def is_upper_def is_lower_def of_char_of split: if_splits)
qed

lemma method_token_upper: "isMethodToken m \<Longrightarrow> ToUpper m \<noteq> [] \<and> CHR '' '' \<notin> set (ToUpper m)"
  using to_upper_not_blank by (fastforce simp: isMethodToken_def ToUpper_def list_all_iff)

lemma no_url_without_method: "CanonicalResource s = None" if "splitMethod s = Some (m, [])"
proof -
  have "splitSuffix [] = Some ([], [])" by (simp add: splitSuffix_def)
  moreover have "writeCanonical u = None" if "url_Parse [] = Some u" for u
  proof -
    have "url_Parse [] = Some empty_url" by code_simp
    moreover have "writeCanonical empty_url = None" by (simp add: writeCanonical_def empty_url_def)
    ultimately show ?thesis using that by simp
  qed
  ultimately show ?thesis using that by (auto simp: CanonicalResource_def split: option.splits)
qed

lemma canonical_has_method:
  assumes "CanonicalResource s = Some c"
  shows "\<exists>m r. m \<noteq> [] \<and> CHR '' '' \<notin> set m \<and> c = m @ '' '' @ r"
proof -
  obtain m rest where m: "splitMethod s = Some (m, rest)"
    using assms by (cases "splitMethod s") (auto simp: CanonicalResource_def)
  moreover from this have "rest \<noteq> []"
    using assms no_url_without_method by auto
  ultimately have "m \<noteq> [] \<and> CHR '' '' \<notin> set m"
    using method_token_upper by (auto simp: splitMethod_def split: option.splits if_splits)
  moreover from this have "\<exists>r. c = m @ '' '' @ r"
    using assms m by (auto simp: CanonicalResource_def split: option.splits)
  ultimately show ?thesis by blast
qed

lemma scopeContains_matches:
  assumes "scopeContains parent child" "scopeMatches child resource"
  shows "scopeMatches parent resource"
proof -
  obtain pp cp where p: "parseScope parent = Some pp" "parseScope child = Some cp"
    using assms by (auto simp: scopeContains_def scopeMatches_def split: option.splits)
  show ?thesis
  proof (cases "unbounded pp")
    case True
    then show ?thesis by (simp add: scopeMatches_def p pat_matches_def)
  next
    case False
    then have same: "sp_isURL cp = sp_isURL pp" "\<not> unbounded cp"
      and meth: "sp_isURL pp \<Longrightarrow> sp_method pp = [] \<or> sp_method pp = sp_method cp"
      and covers: "lit_covers cp s \<Longrightarrow> lit_covers pp s" for s
      using assms(1) p by (auto simp: scopeContains_def lit_covers_def HasPrefix_iff split: if_splits)
    with False assms(2) p show ?thesis
      by (auto simp: scopeMatches_def pat_matches_def split: option.splits if_splits)
  qed
qed

end
