(* ===== verification/Identity_Validator.thy ===== *)
theory Identity_Validator
  imports Identity_Scope Revocation Models Go_Bytes Go_Regexp "HOL-Library.Word"
begin

unbundle bit_operations_syntax

text \<open>
  Component: the identity validator (\<^verbatim>\<open>internal/identity/validator.go\<close>, \<^verbatim>\<open>canon.go\<close>): agent identities,
  capability leases and delegation chains. The signature check and SHA-256 are parameters, \<open>verify key
  payload sig\<close> and \<open>sha\<close>; a replay marker is a function on the marker's state; \<open>clock k\<close> is the k-th
  reading of the time. A result keeps every reason that was added, in order.
\<close>

section \<open>Canonical payloads\<close>

definition lp_str :: "string \<Rightarrow> string" where
  "lp_str s = PutUint32 (length s) @ s"

definition lp_strs :: "string list \<Rightarrow> string" where
  "lp_strs ss = PutUint32 (length ss) @ concat (map lp_str ss)"

definition PutUint64 :: "nat \<Rightarrow> string" where
  "PutUint64 n = PutUint32 (n div 4294967296) @ PutUint32 n"

definition lp_i64 :: "int \<Rightarrow> string" where
  "lp_i64 v = PutUint64 (nat (v mod 18446744073709551616))"

definition lp_u32 :: "nat \<Rightarrow> string" where
  "lp_u32 v = PutUint32 v"

definition hopPayload :: "Authority list \<Rightarrow> nat \<Rightarrow> string \<Rightarrow> string" where
  "hopPayload auths i prevSig =
     (let a = auths ! i in
      lp_str (au_Issuer a) @ lp_str (au_SubjectID a) @ lp_str (au_Audience a) @ lp_str (au_ResourceScope a) @
      lp_strs (au_Actions a) @
      lp_i64 (time_Unix (au_ExpiresAt a)) @ lp_i64 (time_Unix (au_DelegatedAt a)) @
      lp_str (au_Nonce a) @ lp_str prevSig)"

definition leasePayload :: "CapabilityLease \<Rightarrow> string" where
  "leasePayload lease =
     lp_str (cl_LeaseID lease) @ lp_str (cl_Issuer lease) @ lp_str (cl_Subject lease) @ lp_str (cl_Audience lease) @
     lp_strs (cl_AllowedActions lease) @ lp_str (cl_ResourceScope lease) @
     lp_i64 (time_Unix (cl_Expiry lease)) @ lp_i64 (time_Unix (cl_IssuedAt lease)) @
     lp_u32 (nat (cl_DelegationDepth lease mod 4294967296))"

definition delegReplayKey :: "(string \<Rightarrow> string) \<Rightarrow> Authority \<Rightarrow> string" where
  "delegReplayKey sha terminal =
     hex_EncodeToString (sha (lp_str (au_Issuer terminal) @ lp_str (au_Nonce terminal)))"

section \<open>Results and the validator\<close>

record ValidationResult =
  vr_Valid :: bool
  vr_Reasons :: "string list"

definition fresh_result :: ValidationResult where
  "fresh_result = \<lparr>vr_Valid = True, vr_Reasons = []\<rparr>"

definition vr_Add :: "string \<Rightarrow> ValidationResult \<Rightarrow> ValidationResult" where
  "vr_Add reason v = v \<lparr>vr_Valid := False, vr_Reasons := vr_Reasons v @ [reason]\<rparr>"

text \<open>The reasons of a sequence of independent checks, added one after the other.\<close>

abbreviation add_all :: "string list \<Rightarrow> ValidationResult \<Rightarrow> ValidationResult" where
  "add_all rs v \<equiv> fold vr_Add rs v"

definition check :: "bool \<Rightarrow> string \<Rightarrow> string list" where
  "check failed reason = (if failed then [reason] else [])"

definition blank :: "string \<Rightarrow> bool" where
  "blank s \<longleftrightarrow> TrimSpace s = []"

record Validator =
  vd_trustedKeys :: "(string, string) gomap"
  vd_expectedAudience :: string
  vd_revocation :: "checker option"

type_synonym verifier = "string \<Rightarrow> string \<Rightarrow> string \<Rightarrow> bool"

definition PublicKeySize :: nat where
  "PublicKeySize = 32"

definition ValidateAgentIdentity :: "AgentIdentity option \<Rightarrow> ValidationResult" where
  "ValidateAgentIdentity identity =
     (case identity of
        None \<Rightarrow> vr_Add ''agent_identity is required'' fresh_result
      | Some i \<Rightarrow>
          add_all
            (check (blank (ai_Issuer i)) ''agent_identity.issuer is required'' @
             check (blank (ai_SubjectID i)) ''agent_identity.subject_id is required'' @
             check (256 < length (ai_SubjectID i)) ''agent_identity.subject_id exceeds max length'' @
             check (256 < length (ai_Issuer i)) ''agent_identity.issuer exceeds max length'') fresh_result)"

definition verifyLeaseSignature :: "verifier \<Rightarrow> Validator \<Rightarrow> CapabilityLease \<Rightarrow> bool" where
  "verifyLeaseSignature verify v lease =
     (if cl_Signature lease = [] then False
      else (case map_of (vd_trustedKeys v) (cl_Issuer lease) of
              None \<Rightarrow> False
            | Some key \<Rightarrow>
                if length key \<noteq> PublicKeySize then False
                else verify key (leasePayload lease) (cl_Signature lease)))"

definition revoked_reasons :: "string \<Rightarrow> string \<Rightarrow> checker option \<Rightarrow> Pair list \<Rightarrow> string list" where
  "revoked_reasons unavailable what rc pairs =
     (case rc of
        None \<Rightarrow> []
      | Some anyRevoked \<Rightarrow>
          (case anyRevoked pairs of
             Inl err \<Rightarrow> [unavailable]
           | Inr (Some (cls, target)) \<Rightarrow> [what @ '': '' @ class_name cls @ '' '' @ Quote target @ '' is revoked'']
           | Inr None \<Rightarrow> []))"

definition ValidateCapabilityLease :: "verifier \<Rightarrow> time \<Rightarrow> Validator \<Rightarrow> CapabilityLease option \<Rightarrow> ValidationResult" where
  "ValidateCapabilityLease verify now v lease =
     (case lease of
        None \<Rightarrow> vr_Add ''capability_lease is required'' fresh_result
      | Some l \<Rightarrow>
          add_all
            (check (blank (cl_LeaseID l)) ''capability_lease.lease_id is required'' @
             check (blank (cl_Issuer l)) ''capability_lease.issuer is required'' @
             check (blank (cl_Subject l)) ''capability_lease.subject is required'' @
             check (cl_AllowedActions l = []) ''capability_lease.allowed_actions is required and must not be empty'' @
             check (list_ex blank (cl_AllowedActions l)) ''capability_lease.allowed_actions contains empty string'' @
             check (blank (cl_ResourceScope l)) ''capability_lease.resource_scope is required'' @
             (if IsZero (cl_Expiry l) then [''capability_lease.expiry is required'']
              else check (cl_Expiry l < now) ''capability_lease.expiry is in the past'') @
             check (cl_DelegationDepth l < 0) ''capability_lease.delegation_depth must be non-negative'' @
             (if cl_Signature l = [] then [''capability_lease.signature is required'']
              else if \<not> verifyLeaseSignature verify v l then [''capability_lease.signature verification failed'']
              else revoked_reasons ''capability_lease revocation state unavailable'' ''capability_lease''
                     (vd_revocation v) [(ClassIssuer, cl_Issuer l), (ClassLease, cl_LeaseID l)]) @
             check (vd_expectedAudience v \<noteq> [] \<and> cl_Audience l \<noteq> vd_expectedAudience v)
               ''capability_lease.audience does not match this gateway'') fresh_result)"

definition ValidateCapabilityLeaseScope :: "CapabilityLease option \<Rightarrow> string \<Rightarrow> string \<Rightarrow> ValidationResult" where
  "ValidateCapabilityLeaseScope lease actionType resource =
     (case lease of
        None \<Rightarrow> fresh_result
      | Some l \<Rightarrow>
          add_all
            (check (\<not> list_ex (\<lambda>a. a = actionType \<or> a = ''*'') (cl_AllowedActions l))
               (''action '' @ Quote actionType @ '' is not in capability_lease.allowed_actions'') @
             check (cl_ResourceScope l \<noteq> ''*'' \<and> cl_ResourceScope l \<noteq> resource)
               (''resource '' @ Quote resource @ '' is not covered by capability_lease.scope '' @ Quote (cl_ResourceScope l)))
            fresh_result)"

section \<open>Delegation chains\<close>

datatype NonceMark = NonceMarkFirst | NonceMarkSeen | NonceMarkFailed

type_synonym 's NonceMarker = "string \<Rightarrow> time \<Rightarrow> 's \<Rightarrow> NonceMark \<times> 's"

definition subsetOfActions :: "string list \<Rightarrow> string list \<Rightarrow> bool" where
  "subsetOfActions child parent =
     (if ''*'' \<in> set parent then True
      else if child = [] then True
      else list_all (\<lambda>c. c \<noteq> ''*'' \<and> c \<in> set parent) child)"

definition byte_word :: "char \<Rightarrow> 8 word" where
  "byte_word c = word_of_nat (of_char c)"

definition hmacEqual :: "string \<Rightarrow> string \<Rightarrow> bool" where
  "hmacEqual a b =
     (if length a \<noteq> length b then False
      else foldl (\<lambda>diff (x, y). diff OR (byte_word x XOR byte_word y)) 0 (zip a b) = 0)"

definition verifyChainHash :: "(string \<Rightarrow> string) \<Rightarrow> DelegationChain \<Rightarrow> bool" where
  "verifyChainHash sha chain =
     (if dc_ChainHash chain = [] then True
      else hmacEqual (dc_ChainHash chain)
        (hex_EncodeToString (sha (digits (length (dc_Authorities chain)) @ ''|'' @
           concat (map (\<lambda>a. au_Issuer a @ ''|'' @ au_SubjectID a @ ''|'' @ Itoa (time_Unix (au_DelegatedAt a)) @ ''|'')
             (dc_Authorities chain))))))"

definition validateDelegationChainHash :: "(string \<Rightarrow> string) \<Rightarrow> DelegationChain option \<Rightarrow> bool" where
  "validateDelegationChainHash sha chain =
     (case chain of None \<Rightarrow> False | Some c \<Rightarrow> dc_ChainHash c \<noteq> [] \<and> verifyChainHash sha c)"

text \<open>What the loop over the hops carries from one hop to the next.\<close>

record hop_state =
  hs_prevSub :: string
  hs_prevSig :: string
  hs_prevExpiry :: time
  hs_prevActions :: "string list"
  hs_prevResource :: string

definition hop_start :: hop_state where
  "hop_start = \<lparr>hs_prevSub = [], hs_prevSig = [], hs_prevExpiry = 0, hs_prevActions = [''*''], hs_prevResource = ''*''\<rparr>"

definition hop_label :: "nat \<Rightarrow> string" where
  "hop_label i = ''delegation_chain.authorities['' @ digits i @ '']''"

definition hop_bound :: "verifier \<Rightarrow> Validator \<Rightarrow> Authority list \<Rightarrow> nat \<Rightarrow> string \<Rightarrow> string list" where
  "hop_bound verify v auths i prevSig =
     (let a = auths ! i in
      if au_Signature a = [] then [hop_label i @ ''.signature is required'']
      else (case map_of (vd_trustedKeys v) (au_Issuer a) of
              None \<Rightarrow> [hop_label i @ ''.issuer '' @ Quote (au_Issuer a) @ '' is not a trusted issuer'']
            | Some key \<Rightarrow>
                if length key \<noteq> PublicKeySize then
                  [hop_label i @ ''.issuer '' @ Quote (au_Issuer a) @ '' is not a trusted issuer'']
                else check (\<not> verify key (hopPayload auths i prevSig) (au_Signature a))
                       (hop_label i @ ''.signature verification failed'')))"

definition hop_reasons :: "verifier \<Rightarrow> time \<Rightarrow> Validator \<Rightarrow> Authority list \<Rightarrow> nat \<Rightarrow> hop_state \<Rightarrow> string list" where
  "hop_reasons verify now v auths i st =
     (let a = auths ! i in
      check (blank (au_Issuer a)) (hop_label i @ ''.issuer is required'') @
      check (blank (au_SubjectID a)) (hop_label i @ ''.subject_id is required'') @
      check (0 < i \<and> au_Issuer a \<noteq> hs_prevSub st)
        (hop_label i @ ''.issuer must equal previous hop's subject_id (chain linkage)'') @
      check (au_Issuer a = au_SubjectID a) (hop_label i @ '': self-delegation is not permitted'') @
      check (\<not> IsZero (au_ExpiresAt a) \<and> au_ExpiresAt a < now) (hop_label i @ '' is expired'') @
      check (vd_expectedAudience v \<noteq> [] \<and> au_Audience a \<noteq> [] \<and> au_Audience a \<noteq> vd_expectedAudience v)
        (hop_label i @ ''.audience does not match this gateway'') @
      check (au_ResourceScope a \<noteq> [] \<and> \<not> validScope (au_ResourceScope a))
        (hop_label i @ ''.resource_scope is not a valid scope'') @
      check (\<not> subsetOfActions (au_Actions a) (hs_prevActions st)) (hop_label i @ ''.actions expands parent authority'') @
      check (au_ResourceScope a \<noteq> [] \<and> \<not> scopeContains (hs_prevResource st) (au_ResourceScope a))
        (hop_label i @ ''.resource_scope expands parent authority'') @
      check (\<not> IsZero (au_ExpiresAt a) \<and> \<not> IsZero (hs_prevExpiry st) \<and> hs_prevExpiry st < au_ExpiresAt a)
        (hop_label i @ ''.expires_at exceeds parent expiry'') @
      hop_bound verify v auths i (hs_prevSig st))"

definition hop_next :: "Authority \<Rightarrow> hop_state \<Rightarrow> hop_state" where
  "hop_next a st =
     \<lparr>hs_prevSub = au_SubjectID a,
      hs_prevSig = hex_EncodeToString (au_Signature a),
      hs_prevExpiry = (if IsZero (au_ExpiresAt a) then hs_prevExpiry st else au_ExpiresAt a),
      hs_prevActions = (if au_Actions a = [] then hs_prevActions st else au_Actions a),
      hs_prevResource = (if au_ResourceScope a = [] then hs_prevResource st else au_ResourceScope a)\<rparr>"

text \<open>The loop: the reasons of every hop, the revocation targets of the signed ones, the state at the end.\<close>

fun hop_loop ::
  "verifier \<Rightarrow> (string \<Rightarrow> string) \<Rightarrow> (nat \<Rightarrow> time) \<Rightarrow> Validator \<Rightarrow> Authority list \<Rightarrow> nat list \<Rightarrow> hop_state
     \<Rightarrow> string list \<times> Pair list \<times> hop_state" where
  "hop_loop verify sha clock v auths [] st = ([], [], st)"
| "hop_loop verify sha clock v auths (i # is) st =
     (let (rs, ps, st') = hop_loop verify sha clock v auths is (hop_next (auths ! i) st) in
      (hop_reasons verify (clock i) v auths i st @ rs,
       (if hop_bound verify v auths i (hs_prevSig st) = []
        then [(ClassIssuer, au_Issuer (auths ! i)), (ClassDelegation, delegReplayKey sha (auths ! i))] else []) @ ps,
       st'))"

definition mark_reasons :: "NonceMark \<Rightarrow> string list" where
  "mark_reasons m =
     (case m of
        NonceMarkFirst \<Rightarrow> []
      | NonceMarkSeen \<Rightarrow> [''delegation replay: terminal nonce already presented'']
      | NonceMarkFailed \<Rightarrow> [''delegation replay state unavailable''])"

definition ValidateDelegationChain ::
  "verifier \<Rightarrow> (string \<Rightarrow> string) \<Rightarrow> (nat \<Rightarrow> time) \<Rightarrow> Validator \<Rightarrow> DelegationChain option \<Rightarrow> string
     \<Rightarrow> 's NonceMarker option \<Rightarrow> 's \<Rightarrow> ValidationResult \<times> 's" where
  "ValidateDelegationChain verify sha clock v chain subject seenNonce s =
     (case chain of
        None \<Rightarrow> (fresh_result, s)
      | Some c \<Rightarrow>
          let auths = dc_Authorities c in
          if auths = [] then
            (vr_Add ''delegation_chain.authorities is required and must not be empty'' fresh_result, s)
          else if 8 < length auths then (vr_Add ''delegation_chain exceeds maximum depth (8)'' fresh_result, s)
          else
            let terminal = last auths;
                (hops, revPairs, st) = hop_loop verify sha clock v auths [0..<length auths] hop_start;
                result = add_all
                  (check (dc_ChainHash c \<noteq> [] \<and> \<not> verifyChainHash sha c) ''delegation_chain.chain_hash verification failed'' @
                   check (blank (au_Nonce terminal)) ''delegation_chain terminal hop nonce is required (replay protection)'' @
                   hops @
                   check (subject \<noteq> [] \<and> au_SubjectID terminal \<noteq> subject)
                     ''delegation_chain final subject does not match the authenticated principal'' @
                   (if revPairs = [] then []
                    else revoked_reasons ''delegation_chain revocation state unavailable'' ''delegation_chain''
                           (vd_revocation v) revPairs)) fresh_result in
            (case seenNonce of
               None \<Rightarrow> (result, s)
             | Some mark \<Rightarrow>
                 if vr_Valid result \<and> \<not> blank (au_Nonce terminal) then
                   (case mark (delegReplayKey sha terminal) (hs_prevExpiry st) s of
                      (m, s') \<Rightarrow> (add_all (mark_reasons m) result, s'))
                 else (result, s)))"

definition ChainRevocationIDs :: "(string \<Rightarrow> string) \<Rightarrow> DelegationChain option \<Rightarrow> string list \<times> string list" where
  "ChainRevocationIDs sha chain =
     (case chain of
        None \<Rightarrow> ([], [])
      | Some c \<Rightarrow> (map (delegReplayKey sha) (dc_Authorities c), map au_Issuer (dc_Authorities c)))"

definition ValidateAll :: "verifier \<Rightarrow> time \<Rightarrow> Validator \<Rightarrow> ActionRequest \<Rightarrow> ValidationResult" where
  "ValidateAll verify now v req =
     (let i = ValidateAgentIdentity (rq_AgentIdentity req); l = ValidateCapabilityLease verify now v (rq_CapabilityLease req) in
      add_all ((if vr_Valid i then [] else vr_Reasons i) @ (if vr_Valid l then [] else vr_Reasons l)) fresh_result)"

fun capability_loop :: "Authority list \<Rightarrow> string list \<times> string \<Rightarrow> string list \<times> string" where
  "capability_loop [] cap = cap"
| "capability_loop (a # as) (actions, scope) =
     capability_loop as (if au_Actions a = [] then actions else au_Actions a,
                         if au_ResourceScope a = [] then scope else au_ResourceScope a)"

definition TerminalCapability :: "DelegationChain option \<Rightarrow> string list \<times> string" where
  "TerminalCapability chain =
     (case chain of None \<Rightarrow> ([], []) | Some c \<Rightarrow> capability_loop (dc_Authorities c) ([''*''], ''*''))"

end
