(* ===== verification/Identity_Properties.thy ===== *)
theory Identity_Properties
  imports Identity_Validator
begin

text \<open>
  What an accepted delegation chain means. The loop of the validator visits the states \<open>hop_at auths i\<close>; a
  chain is accepted when no hop adds a reason there, and each of the three bounds a state carries (actions,
  resources, expiry) only narrows from hop to hop.
\<close>

section \<open>Results\<close>

lemma add_all_fields [simp]:
  "vr_Valid (add_all rs v) \<longleftrightarrow> vr_Valid v \<and> rs = []" "vr_Reasons (add_all rs v) = vr_Reasons v @ rs"
  by (induction rs arbitrary: v) (auto simp: vr_Add_def)

lemma fresh_result_fields [simp]: "vr_Valid fresh_result" "vr_Reasons fresh_result = []"
  by (simp_all add: fresh_result_def)

lemma check_Nil_iff [simp]: "check b r = [] \<longleftrightarrow> \<not> b"
  by (simp add: check_def)

lemma mark_reasons_Nil_iff [simp]: "mark_reasons m = [] \<longleftrightarrow> m = NonceMarkFirst"
  by (cases m) (simp_all add: mark_reasons_def)

section \<open>The loop over the hops\<close>

definition hop_at :: "Authority list \<Rightarrow> nat \<Rightarrow> hop_state" where
  "hop_at auths i = fold hop_next (take i auths) hop_start"

definition hop_pairs :: "(string \<Rightarrow> string) \<Rightarrow> Authority \<Rightarrow> Pair list" where
  "hop_pairs sha a = [(ClassIssuer, au_Issuer a), (ClassDelegation, delegReplayKey sha a)]"

lemma hop_at_0 [simp]: "hop_at auths 0 = hop_start"
  by (simp add: hop_at_def)

lemma hop_at_Suc: "i < length auths \<Longrightarrow> hop_at auths (Suc i) = hop_next (auths ! i) (hop_at auths i)"
  by (simp add: hop_at_def take_Suc_conv_app_nth)

lemma hop_loop_states:
  assumes "k \<le> length auths"
  shows "hop_loop verify sha clock v auths [k..<length auths] (hop_at auths k) =
     (concat (map (\<lambda>i. hop_reasons verify (clock i) v auths i (hop_at auths i)) [k..<length auths]),
      concat (map (\<lambda>i. if hop_bound verify v auths i (hs_prevSig (hop_at auths i)) = []
                        then hop_pairs sha (auths ! i) else []) [k..<length auths]),
      hop_at auths (length auths))"
  using assms
proof (induction k rule: inc_induct)
  case base
  then show ?case by simp
next
  case (step k)
  then show ?case by (simp add: upt_conv_Cons hop_at_Suc hop_pairs_def)
qed

lemma accepted_hops:
  assumes "fst (hop_loop verify sha clock v auths [0..<length auths] hop_start) = []" "i < length auths"
  shows "hop_reasons verify (clock i) v auths i (hop_at auths i) = []"
  using assms hop_loop_states [of 0 auths verify sha clock v] by simp

lemma accepted_pairs:
  assumes "fst (hop_loop verify sha clock v auths [0..<length auths] hop_start) = []"
  shows "fst (snd (hop_loop verify sha clock v auths [0..<length auths] hop_start)) = concat (map (hop_pairs sha) auths)"
proof -
  have "hop_bound verify v auths i (hs_prevSig (hop_at auths i)) = []" if "i < length auths" for i
    using accepted_hops [OF assms that] by (simp add: hop_reasons_def Let_def)
  then have "map (\<lambda>i. if hop_bound verify v auths i (hs_prevSig (hop_at auths i)) = []
        then hop_pairs sha (auths ! i) else []) [0..<length auths] = map (\<lambda>i. hop_pairs sha (auths ! i)) [0..<length auths]"
    by simp
  also have "\<dots> = map (hop_pairs sha) auths"
    by (metis (no_types, lifting) map_nth map_map comp_apply map_eq_conv)
  finally show ?thesis using hop_loop_states [of 0 auths verify sha clock v] by simp
qed

section \<open>Narrowing\<close>

text \<open>
  The interface behind non-amplification: a step that is admitted in a state never grants what the state did
  not, so along admitted steps the last state grants no more than any earlier one.
\<close>

locale narrowing =
  fixes step :: "'a \<Rightarrow> 's \<Rightarrow> 's" and admits :: "'a \<Rightarrow> 's \<Rightarrow> bool" and grants :: "'s \<Rightarrow> 'x \<Rightarrow> bool"
  assumes narrows: "admits a st \<Longrightarrow> grants (step a st) x \<Longrightarrow> grants st x"
begin

lemma fold_narrows:
  assumes "\<forall>j < length as. admits (as ! j) (fold step (take j as) st)"
    and "grants (fold step as st) x" "i \<le> length as"
  shows "grants (fold step (take i as) st) x"
  using assms
proof (induction as rule: rev_induct)
  case (snoc a as)
  have "admits a (fold step as st)" using snoc.prems(1) [rule_format, of "length as"] by simp
  then have grants: "grants (fold step as st) x" using snoc.prems(2) narrows by simp
  have admits: "\<forall>j < length as. admits (as ! j) (fold step (take j as) st)"
  proof (intro allI impI)
    fix j assume "j < length as"
    then show "admits (as ! j) (fold step (take j as) st)"
      using snoc.prems(1) [rule_format, of j] by (simp add: nth_append)
  qed
  show ?case
  proof (cases "i \<le> length as")
    case True
    then show ?thesis using snoc.IH [OF admits grants] by simp
  next
    case False
    then show ?thesis using snoc.prems(2) by simp
  qed
qed simp

end

definition unexpired :: "hop_state \<Rightarrow> time \<Rightarrow> bool" where
  "unexpired st t \<longleftrightarrow> hs_prevExpiry st = 0 \<or> t \<le> hs_prevExpiry st"

interpretation actions_narrow: narrowing hop_next "\<lambda>a st. subsetOfActions (au_Actions a) (hs_prevActions st)"
  "\<lambda>st act. ActionInScope act (hs_prevActions st)"
  by unfold_locales
    (auto simp: subsetOfActions_def hop_next_def ActionInScope_def list_ex_iff list_all_iff split: if_splits)

interpretation scope_narrows: narrowing hop_next
  "\<lambda>a st. au_ResourceScope a = [] \<or> scopeContains (hs_prevResource st) (au_ResourceScope a)"
  "\<lambda>st resource. scopeMatches (hs_prevResource st) resource"
  by unfold_locales (auto simp: hop_next_def intro: scopeContains_matches split: if_splits)

interpretation expiry_narrows: narrowing hop_next
  "\<lambda>a st. au_ExpiresAt a = 0 \<or> hs_prevExpiry st = 0 \<or> au_ExpiresAt a \<le> hs_prevExpiry st" unexpired
  by unfold_locales (auto simp: unexpired_def hop_next_def IsZero_def split: if_splits)

lemma capability_loop_hops:
  "capability_loop as (hs_prevActions st, hs_prevResource st) =
     (hs_prevActions (fold hop_next as st), hs_prevResource (fold hop_next as st))"
proof (induction as arbitrary: st)
  case (Cons a as)
  then show ?case using Cons.IH [of "hop_next a st"] by (simp add: hop_next_def)
qed simp

lemma TerminalCapability_hops:
  "TerminalCapability (Some c) =
     (hs_prevActions (hop_at (dc_Authorities c) (length (dc_Authorities c))),
      hs_prevResource (hop_at (dc_Authorities c) (length (dc_Authorities c))))"
  using capability_loop_hops [of "dc_Authorities c" hop_start]
  by (simp add: TerminalCapability_def hop_at_def hop_start_def)

section \<open>Accepted chains\<close>

definition checks_pass ::
  "verifier \<Rightarrow> (string \<Rightarrow> string) \<Rightarrow> (nat \<Rightarrow> time) \<Rightarrow> Validator \<Rightarrow> DelegationChain \<Rightarrow> string \<Rightarrow> bool" where
  "checks_pass verify sha clock v c subject \<longleftrightarrow>
     dc_Authorities c \<noteq> [] \<and> length (dc_Authorities c) \<le> 8 \<and>
     (dc_ChainHash c \<noteq> [] \<longrightarrow> verifyChainHash sha c) \<and> \<not> blank (au_Nonce (last (dc_Authorities c))) \<and>
     fst (hop_loop verify sha clock v (dc_Authorities c) [0..<length (dc_Authorities c)] hop_start) = [] \<and>
     (subject \<noteq> [] \<longrightarrow> au_SubjectID (last (dc_Authorities c)) = subject) \<and>
     revoked_reasons ''delegation_chain revocation state unavailable'' ''delegation_chain'' (vd_revocation v)
       (concat (map (hop_pairs sha) (dc_Authorities c))) = []"

lemma chain_without_marker:
  "vr_Valid (fst (ValidateDelegationChain verify sha clock v (Some c) subject None s)) \<longleftrightarrow>
     checks_pass verify sha clock v c subject"
proof (cases "fst (hop_loop verify sha clock v (dc_Authorities c) [0..<length (dc_Authorities c)] hop_start) = []")
  case True
  then show ?thesis using accepted_pairs [OF True]
    by (auto simp: ValidateDelegationChain_def checks_pass_def hop_pairs_def Let_def vr_Add_def split: prod.splits)
next
  case False
  then show ?thesis
    by (auto simp: ValidateDelegationChain_def checks_pass_def Let_def vr_Add_def split: prod.splits)
qed

lemma marker_after_checks:
  "ValidateDelegationChain verify sha clock v (Some c) subject (Some mark) s =
     (let r = fst (ValidateDelegationChain verify sha clock v (Some c) subject None s) in
      if vr_Valid r then
        (case mark (delegReplayKey sha (last (dc_Authorities c)))
                (hs_prevExpiry (hop_at (dc_Authorities c) (length (dc_Authorities c)))) s of
           (m, s') \<Rightarrow> (add_all (mark_reasons m) r, s'))
      else (r, s))"
  using hop_loop_states [of 0 "dc_Authorities c" verify sha clock v]
  by (auto simp: ValidateDelegationChain_def Let_def vr_Add_def split: prod.splits)

lemma valid_chain_checks:
  assumes "vr_Valid (fst (ValidateDelegationChain verify sha clock v (Some c) subject mark s))"
  shows "checks_pass verify sha clock v c subject"
proof (cases mark)
  case None
  then show ?thesis using assms by (simp add: chain_without_marker)
next
  case (Some m)
  then have "vr_Valid (fst (ValidateDelegationChain verify sha clock v (Some c) subject None s))"
    using assms by (auto simp: marker_after_checks Let_def split: prod.splits if_splits)
  then show ?thesis by (simp add: chain_without_marker)
qed

lemma hop_bound_Nil:
  "hop_bound verify v auths i prev = [] \<Longrightarrow>
     \<exists>key. map_of (vd_trustedKeys v) (au_Issuer (auths ! i)) = Some key \<and> length key = PublicKeySize \<and>
       verify key (hopPayload auths i prev) (au_Signature (auths ! i))"
  by (simp add: hop_bound_def Let_def split: option.splits if_split_asm)

lemma checks_pass_hop:
  assumes "checks_pass verify sha clock v c subject" "i < length (dc_Authorities c)"
  shows "hop_reasons verify (clock i) v (dc_Authorities c) i (hop_at (dc_Authorities c) i) = []"
  using assms accepted_hops by (auto simp: checks_pass_def)

lemma hop_grants:
  assumes "checks_pass verify sha clock v c subject" "i \<le> length (dc_Authorities c)"
  defines "final \<equiv> hop_at (dc_Authorities c) (length (dc_Authorities c))" and "st \<equiv> hop_at (dc_Authorities c) i"
  shows "ActionInScope act (hs_prevActions final) \<Longrightarrow> ActionInScope act (hs_prevActions st)"
    and "scopeMatches (hs_prevResource final) resource \<Longrightarrow> scopeMatches (hs_prevResource st) resource"
    and "unexpired final t \<Longrightarrow> unexpired st t"
proof -
  note admitted = checks_pass_hop [OF assms(1), unfolded hop_reasons_def Let_def]
  show "ActionInScope act (hs_prevActions final) \<Longrightarrow> ActionInScope act (hs_prevActions st)"
    using actions_narrow.fold_narrows [of "dc_Authorities c" hop_start act i] admitted assms(2)
    by (simp add: final_def st_def hop_at_def)
  show "scopeMatches (hs_prevResource final) resource \<Longrightarrow> scopeMatches (hs_prevResource st) resource"
    using scope_narrows.fold_narrows [of "dc_Authorities c" hop_start resource i] admitted assms(2)
    by (simp add: final_def st_def hop_at_def)
  show "unexpired final t \<Longrightarrow> unexpired st t"
    using expiry_narrows.fold_narrows [of "dc_Authorities c" hop_start t i] admitted assms(2)
    by (fastforce simp: final_def st_def hop_at_def IsZero_def)
qed

text \<open>C3: 
  Delegation never amplifies: what an accepted chain grants its terminal subject is granted by every hop that
  states a bound. An action in the terminal capability is in the actions of each hop that lists actions, a
  resource it covers is covered by the scope of each hop that has one, and the expiry handed to the replay
  marker is not after the expiry of any hop.
\<close>

theorem delegation_never_amplifies:
  assumes "vr_Valid (fst (ValidateDelegationChain verify sha clock v (Some c) subject mark s))"
    and "a \<in> set (dc_Authorities c)" and "TerminalCapability (Some c) = (actions, scope)"
  shows "(au_Actions a \<noteq> [] \<and> ActionInScope act actions \<longrightarrow> ActionInScope act (au_Actions a)) \<and>
    (au_ResourceScope a \<noteq> [] \<and> scopeMatches scope resource \<longrightarrow> scopeMatches (au_ResourceScope a) resource) \<and>
    (au_ExpiresAt a \<noteq> 0 \<longrightarrow>
       hs_prevExpiry (fold hop_next (dc_Authorities c) hop_start) \<le> au_ExpiresAt a \<and>
       hs_prevExpiry (fold hop_next (dc_Authorities c) hop_start) \<noteq> 0)"
proof -
  let ?auths = "dc_Authorities c"
  obtain i where i: "i < length ?auths" "a = ?auths ! i" using assms(2) by (auto simp: in_set_conv_nth)
  note ok = valid_chain_checks [OF assms(1)]
  have st: "hop_at ?auths (Suc i) = hop_next a (hop_at ?auths i)" using i by (simp add: hop_at_Suc)
  have cap: "actions = hs_prevActions (hop_at ?auths (length ?auths))" "scope = hs_prevResource (hop_at ?auths (length ?auths))"
    using assms(3) by (simp_all add: TerminalCapability_hops)
  have final: "fold hop_next ?auths hop_start = hop_at ?auths (length ?auths)" by (simp add: hop_at_def)
  have "hs_prevExpiry (hop_at ?auths j) \<noteq> 0" if "au_ExpiresAt a \<noteq> 0" "Suc i \<le> j" "j \<le> length ?auths" for j
    using that(2,3)
  proof (induction j rule: dec_induct)
    case base
    then show ?case using that(1) by (simp add: st hop_next_def IsZero_def)
  next
    case (step j)
    then show ?case by (simp add: hop_at_Suc hop_next_def IsZero_def)
  qed
  then have set_expiry: "hs_prevExpiry (hop_at ?auths (length ?auths)) \<noteq> 0" if "au_ExpiresAt a \<noteq> 0"
    using that i(1) by simp
  note grants = hop_grants [OF ok, of "Suc i", unfolded st]
  have "ActionInScope act (au_Actions a)" if "au_Actions a \<noteq> []" "ActionInScope act actions"
    using grants(1) [of act] that i(1) by (simp add: cap hop_next_def)
  moreover have "scopeMatches (au_ResourceScope a) resource" if "au_ResourceScope a \<noteq> []" "scopeMatches scope resource"
    using grants(2) [of resource] that i(1) by (simp add: cap hop_next_def)
  moreover have "hs_prevExpiry (hop_at ?auths (length ?auths)) \<le> au_ExpiresAt a" if "au_ExpiresAt a \<noteq> 0"
    using grants(3) [of "hs_prevExpiry (hop_at ?auths (length ?auths))"] that i(1)
    by (simp add: unexpired_def hop_next_def IsZero_def)
  ultimately show ?thesis using set_expiry by (simp only: final) blast
qed

text \<open>C15: 
  An accepted chain is authentic: every hop is signed over its canonical payload by the registered key of its
  issuer, each issuer after the first is the subject of the hop before, no hop was expired when it was
  checked, the last subject is the caller, and the revocation checker found nothing among targets that
  include all those a claim will consult later (\<^const>\<open>ChainRevocationIDs\<close>).
\<close>

theorem accepted_chain_authentic:
  assumes "vr_Valid (fst (ValidateDelegationChain verify sha clock v (Some c) subject mark s))"
  shows "(\<forall>i < length (dc_Authorities c). \<exists>key.
      map_of (vd_trustedKeys v) (au_Issuer (dc_Authorities c ! i)) = Some key \<and> length key = PublicKeySize \<and>
      verify key (hopPayload (dc_Authorities c) i
        (if i = 0 then [] else hex_EncodeToString (au_Signature (dc_Authorities c ! (i - 1))))) (au_Signature (dc_Authorities c ! i)) \<and>
      (i \<noteq> 0 \<longrightarrow> au_Issuer (dc_Authorities c ! i) = au_SubjectID (dc_Authorities c ! (i - 1))) \<and>
      (au_ExpiresAt (dc_Authorities c ! i) = 0 \<or> clock i \<le> au_ExpiresAt (dc_Authorities c ! i))) \<and>
    dc_Authorities c \<noteq> [] \<and>
    (subject = [] \<or> au_SubjectID (last (dc_Authorities c)) = subject) \<and>
    (case vd_revocation v of
       None \<Rightarrow> True
     | Some rc \<Rightarrow> \<exists>pairs. rc pairs = Inr None \<and>
         set (case ChainRevocationIDs sha (Some c) of (keys, issuers) \<Rightarrow> PairsFor [] keys issuers) \<subseteq> set pairs)"
  (is "(\<forall>i < _. ?hop i) \<and> _ \<and> _ \<and> ?rev")
proof (intro conjI allI impI)
  note ok = valid_chain_checks [OF assms]
  show "?hop i" if i: "i < length (dc_Authorities c)" for i
  proof -
    have "hs_prevSub (hop_at (dc_Authorities c) i) = au_SubjectID (dc_Authorities c ! (i - 1)) \<and>
        hs_prevSig (hop_at (dc_Authorities c) i) = hex_EncodeToString (au_Signature (dc_Authorities c ! (i - 1)))" if "i \<noteq> 0"
      using that i hop_at_Suc [of "i - 1"] by (simp add: hop_next_def)
    moreover have "hop_at (dc_Authorities c) i = hop_start" if "i = 0" using that by (simp add: hop_at_def)
    ultimately have sig: "hs_prevSig (hop_at (dc_Authorities c) i) =
        (if i = 0 then [] else hex_EncodeToString (au_Signature (dc_Authorities c ! (i - 1))))"
      and link: "i \<noteq> 0 \<Longrightarrow> au_Issuer (dc_Authorities c ! i) = au_SubjectID (dc_Authorities c ! (i - 1))"
      using checks_pass_hop [OF ok i] by (simp_all add: hop_start_def hop_reasons_def Let_def)
    have "hop_bound verify v (dc_Authorities c) i (hs_prevSig (hop_at (dc_Authorities c) i)) = []"
      and "au_ExpiresAt (dc_Authorities c ! i) = 0 \<or> clock i \<le> au_ExpiresAt (dc_Authorities c ! i)"
      using checks_pass_hop [OF ok i] by (auto simp: hop_reasons_def Let_def IsZero_def)
    then show ?thesis using hop_bound_Nil link unfolding sig by blast
  qed
  show "dc_Authorities c \<noteq> []" and "subject = [] \<or> au_SubjectID (last (dc_Authorities c)) = subject"
    using ok by (auto simp: checks_pass_def)
  show ?rev
  proof (cases "vd_revocation v")
    case (Some rc)
    then have "rc (concat (map (hop_pairs sha) (dc_Authorities c))) = Inr None"
      using ok by (auto simp: checks_pass_def revoked_reasons_def split: sum.splits option.splits)
    then show ?thesis using Some
      by (auto simp: ChainRevocationIDs_def PairsFor_def hop_pairs_def intro!: exI)
  qed simp
qed

text \<open>
  Only a chain that passes every other check consumes its nonce: otherwise the marker's state is untouched
  and the answer is the same as without a marker. A chain that passes is marked under the key of its terminal
  hop, and is accepted exactly when that is the first presentation.
\<close>

theorem replay_mark_last:
  assumes "ValidateDelegationChain verify sha clock v (Some c) subject (Some mark) s = (r, s')"
    and "fst (ValidateDelegationChain verify sha clock v (Some c) subject None s) = r0"
  shows "if vr_Valid r0
    then (let (m, s1) = mark (delegReplayKey sha (last (dc_Authorities c)))
                (hs_prevExpiry (fold hop_next (dc_Authorities c) hop_start)) s in
          s' = s1 \<and> (vr_Valid r \<longleftrightarrow> m = NonceMarkFirst))
    else r = r0 \<and> s' = s"
  using assms by (auto simp: marker_after_checks Let_def hop_at_def split: prod.splits if_splits)

section \<open>A chain of two hops\<close>

definition hop_root :: Authority where
  "hop_root = \<lparr>au_Issuer = ''root'', au_SubjectID = ''mid'', au_Actions = [''shell'', ''deploy''],
     au_ResourceScope = ''https://api.example.com/*'', au_Audience = [], au_ExpiresAt = 9000000000,
     au_Nonce = ''n0'', au_DelegatedAt = 1000000000, au_Signature = ''sig''\<rparr>"

definition hop_mid :: Authority where
  "hop_mid = \<lparr>au_Issuer = ''mid'', au_SubjectID = ''agent'', au_Actions = [''shell''],
     au_ResourceScope = ''GET https://api.example.com/v1/*'', au_Audience = [], au_ExpiresAt = 5000000000,
     au_Nonce = ''n1'', au_DelegatedAt = 2000000000, au_Signature = ''sig''\<rparr>"

definition two_hops :: DelegationChain where
  "two_hops = \<lparr>dc_Authorities = [hop_root, hop_mid], dc_ChainHash = [], dc_Depth = 2\<rparr>"

definition key_of_zeros :: string where
  "key_of_zeros = replicate 32 (CHR ''0'')"

definition sample_validator :: Validator where
  "sample_validator = \<lparr>vd_trustedKeys = [(''root'', key_of_zeros), (''mid'', key_of_zeros)], vd_expectedAudience = [],
     vd_revocation = Some (\<lambda>pairs. Inr None)\<rparr>"

definition sample_verify :: verifier where
  "sample_verify key payload sig \<longleftrightarrow> key = key_of_zeros \<and> sig = ''sig''"

definition sample_sha :: "string \<Rightarrow> string" where
  "sample_sha s = ''d''"

definition remember :: "string list NonceMarker" where
  "remember k e seen = (if k \<in> set seen then (NonceMarkSeen, seen) else (NonceMarkFirst, k # seen))"

lemma sample_scopes:
  "validScope ''https://api.example.com/*''" "validScope ''GET https://api.example.com/v1/*''"
  "scopeContains ''*'' ''https://api.example.com/*''"
  "scopeContains ''https://api.example.com/*'' ''GET https://api.example.com/v1/*''"
  by code_simp+

lemma sample_not_blank: "\<not> blank ''root''" "\<not> blank ''mid''" "\<not> blank ''agent''" "\<not> blank ''n1''"
  by code_simp+

lemma sample_key: "delegReplayKey sample_sha a = ''64''"
proof -
  have "hex_EncodeToString ''d'' = ''64''" by code_simp
  then show ?thesis by (simp add: delegReplayKey_def sample_sha_def)
qed

lemma two_hops_pass:
  "checks_pass sample_verify sample_sha (\<lambda>k. 3000000000) sample_validator two_hops ''agent''"
  by (simp add: checks_pass_def two_hops_def hop_reasons_def hop_bound_def hop_next_def hop_start_def
      hop_root_def hop_mid_def sample_validator_def sample_verify_def key_of_zeros_def PublicKeySize_def
      subsetOfActions_def IsZero_def revoked_reasons_def sample_scopes sample_not_blank)

lemma two_hops_valid:
  "vr_Valid (fst (ValidateDelegationChain sample_verify sample_sha (\<lambda>k. 3000000000) sample_validator (Some two_hops)
     ''agent'' (Some remember) []))"
  by (simp add: marker_after_checks chain_without_marker two_hops_pass remember_def)

theorem delegation_never_amplifies_witness:
  "ActionInScope ''shell'' (au_Actions hop_root) \<and>
     scopeMatches (au_ResourceScope hop_root) ''GET https://api.example.com/v1/users'' \<and>
     hs_prevExpiry (fold hop_next (dc_Authorities two_hops) hop_start) \<le> au_ExpiresAt hop_root"
proof -
  have hop: "hop_root \<in> set (dc_Authorities two_hops)" by (simp add: two_hops_def)
  have cap: "TerminalCapability (Some two_hops) = ([''shell''], ''GET https://api.example.com/v1/*'')"
    by code_simp
  have in_cap: "ActionInScope ''shell'' [''shell'']"
    "scopeMatches ''GET https://api.example.com/v1/*'' ''GET https://api.example.com/v1/users''"
    by code_simp+
  have "au_Actions hop_root \<noteq> []" "au_ResourceScope hop_root \<noteq> []" "au_ExpiresAt hop_root \<noteq> 0"
    by (simp_all add: hop_root_def)
  with delegation_never_amplifies [OF two_hops_valid hop cap, of "''shell''" "''GET https://api.example.com/v1/users''"] in_cap
  show ?thesis by blast
qed

theorem accepted_chain_authentic_witness:
  "dc_Authorities two_hops \<noteq> [] \<and> au_SubjectID (last (dc_Authorities two_hops)) = ''agent''"
  using accepted_chain_authentic [OF two_hops_valid] by simp

theorem replay_mark_last_witness:
  "\<not> vr_Valid (fst (ValidateDelegationChain sample_verify sample_sha (\<lambda>k. 3000000000) sample_validator
       (Some two_hops) ''agent'' (Some remember) [''64'']))"
proof -
  obtain r s' where r: "ValidateDelegationChain sample_verify sample_sha (\<lambda>k. 3000000000) sample_validator
       (Some two_hops) ''agent'' (Some remember) [''64''] = (r, s')"
    by fastforce
  from replay_mark_last [OF r refl]
  show ?thesis by (simp add: r chain_without_marker two_hops_pass sample_key remember_def)
qed

text \<open>
  A delegation limited by a trailing star to the branches of one prefix also covers a push of several refs
  that starts with such a branch: the scope is compared with the whole ref list, which the policy rules take
  apart first.
\<close>

lemma scope_star_crosses_refs:
  "scopeMatches ''POST https://git.example.com/r.git refs/heads/agent/*''
     ''POST https://git.example.com/r.git refs/heads/agent/x,refs/heads/main''"
  "\<not> scopeMatches ''POST https://git.example.com/r.git refs/heads/agent/*''
     ''POST https://git.example.com/r.git refs/heads/main''"
  "SplitRefList ''POST https://git.example.com/r.git refs/heads/agent/x,refs/heads/main'' =
     [''POST https://git.example.com/r.git refs/heads/agent/x'', ''POST https://git.example.com/r.git refs/heads/main'']"
  by code_simp+

end
