(* ===== verification/Identity_Payloads.thy ===== *)
theory Identity_Payloads
  imports Identity_Properties
begin

text \<open>
  What a signature covers. The canonical payload of a hop and of a lease determines every signed field as
  long as its strings and lists are shorter than \<open>2 ^ 32\<close> and its times are in the range of a signed 64-bit
  number of seconds; times are covered to the second only.
\<close>

section \<open>Reading a payload back\<close>

lemma lp_str_append_iff:
  "short s \<Longrightarrow> short t \<Longrightarrow> lp_str s @ u = lp_str t @ v \<longleftrightarrow> s = t \<and> u = v"
  unfolding lp_str_def lp_field_def [symmetric] using lp_field_append_inj by blast

lemma lp_str_iff: "short s \<Longrightarrow> short t \<Longrightarrow> lp_str s = lp_str t \<longleftrightarrow> s = t"
  using lp_str_append_iff [of s t "[]" "[]"] by simp

definition small_list :: "string list \<Rightarrow> bool" where
  "small_list ss \<longleftrightarrow> length ss < 4294967296 \<and> list_all short ss"

lemma lp_strs_append_iff:
  assumes "small_list ss" "small_list ts"
  shows "lp_strs ss @ u = lp_strs ts @ v \<longleftrightarrow> ss = ts \<and> u = v"
proof
  have items: "ss = ts \<and> u = v"
    if "length ss = length ts" "list_all short ss" "list_all short ts"
      "concat (map lp_str ss) @ u = concat (map lp_str ts) @ v" for ss ts :: "string list"
    using that by (induction ss ts rule: list_induct2) (auto simp: lp_str_append_iff)
  assume eq: "lp_strs ss @ u = lp_strs ts @ v"
  then have "PutUint32 (length ss) = PutUint32 (length ts)" "concat (map lp_str ss) @ u = concat (map lp_str ts) @ v"
    by (auto simp: lp_strs_def append_eq_append_conv)
  then show "ss = ts \<and> u = v" using items PutUint32_inj assms by (auto simp: small_list_def)
qed simp

definition int64 :: "int \<Rightarrow> bool" where
  "int64 x \<longleftrightarrow> - 9223372036854775808 \<le> x \<and> x < 9223372036854775808"

lemma length_lp_i64 [simp]: "length (lp_i64 x) = 8"
  by (simp add: lp_i64_def PutUint64_def)

lemma PutUint64_inj:
  assumes "a < 18446744073709551616" "b < 18446744073709551616" "PutUint64 a = PutUint64 b"
  shows "a = b"
proof -
  have "PutUint32 (a div 4294967296) = PutUint32 (b div 4294967296)" "PutUint32 a = PutUint32 b"
    using assms(3) by (simp_all add: PutUint64_def append_eq_append_conv)
  moreover have "a div 4294967296 < 4294967296" "b div 4294967296 < 4294967296"
    using assms(1,2) by (simp_all add: div_less_iff_less_mult)
  ultimately have "a div 4294967296 = b div 4294967296" "a mod 4294967296 = b mod 4294967296"
    by (blast intro: PutUint32_inj PutUint32_mod)+
  then show ?thesis by (metis div_mult_mod_eq)
qed

lemma lp_i64_inj:
  assumes "int64 x" "int64 y" "lp_i64 x = lp_i64 y"
  shows "x = y"
proof -
  have "nat (x mod 18446744073709551616) = nat (y mod 18446744073709551616)"
    using assms(3) by (intro PutUint64_inj) (auto simp: lp_i64_def nat_less_iff)
  then have "x mod 18446744073709551616 = y mod 18446744073709551616" by simp
  then have "18446744073709551616 dvd x - y" by (simp add: mod_eq_dvd_iff)
  then show ?thesis using assms(1,2) dvd_imp_le_int [of "x - y" 18446744073709551616]
    by (cases "x = y") (auto simp: int64_def)
qed

lemma lp_i64_iff: "int64 x \<Longrightarrow> int64 y \<Longrightarrow> lp_i64 x = lp_i64 y \<longleftrightarrow> x = y"
  using lp_i64_inj by blast

lemma lp_i64_append_iff: "int64 x \<Longrightarrow> int64 y \<Longrightarrow> lp_i64 x @ u = lp_i64 y @ v \<longleftrightarrow> x = y \<and> u = v"
  using lp_i64_inj by (auto simp: append_eq_append_conv)

lemmas read_back = lp_str_append_iff lp_str_iff lp_strs_append_iff lp_i64_iff lp_i64_append_iff

section \<open>Hops and leases\<close>

definition hop_fields ::
  "Authority \<Rightarrow> string \<times> string \<times> string \<times> string \<times> string list \<times> int \<times> int \<times> string" where
  "hop_fields a =
     (au_Issuer a, au_SubjectID a, au_Audience a, au_ResourceScope a, au_Actions a,
      time_Unix (au_ExpiresAt a), time_Unix (au_DelegatedAt a), au_Nonce a)"

definition hop_encodable :: "Authority \<Rightarrow> bool" where
  "hop_encodable a \<longleftrightarrow>
     list_all short [au_Issuer a, au_SubjectID a, au_Audience a, au_ResourceScope a, au_Nonce a] \<and>
     small_list (au_Actions a) \<and> int64 (time_Unix (au_ExpiresAt a)) \<and> int64 (time_Unix (au_DelegatedAt a))"

definition lease_fields ::
  "CapabilityLease \<Rightarrow> string \<times> string \<times> string \<times> string \<times> string list \<times> string \<times> int \<times> int \<times> int" where
  "lease_fields l =
     (cl_LeaseID l, cl_Issuer l, cl_Subject l, cl_Audience l, cl_AllowedActions l, cl_ResourceScope l,
      time_Unix (cl_Expiry l), time_Unix (cl_IssuedAt l), cl_DelegationDepth l mod 4294967296)"

definition lease_encodable :: "CapabilityLease \<Rightarrow> bool" where
  "lease_encodable l \<longleftrightarrow>
     list_all short [cl_LeaseID l, cl_Issuer l, cl_Subject l, cl_Audience l, cl_ResourceScope l] \<and>
     small_list (cl_AllowedActions l) \<and> int64 (time_Unix (cl_Expiry l)) \<and> int64 (time_Unix (cl_IssuedAt l))"

lemma lp_u32_mod_iff:
  "lp_u32 (nat (x mod 4294967296)) = lp_u32 (nat (y mod 4294967296)) \<longleftrightarrow> x mod 4294967296 = y mod 4294967296"
proof
  assume "lp_u32 (nat (x mod 4294967296)) = lp_u32 (nat (y mod 4294967296))"
  then have "nat (x mod 4294967296) = nat (y mod 4294967296)"
    by (intro PutUint32_inj) (auto simp: lp_u32_def nat_less_iff)
  then show "x mod 4294967296 = y mod 4294967296" by simp
qed simp

text \<open>C16: 
  The payload that a hop's issuer signs identifies the hop: two hops in two chains have the same payload
  exactly when all their fields, times to the second, and the signatures before them agree. A signature can
  therefore not be moved to a hop with another field or behind another predecessor.
\<close>

theorem hop_payload_identifies:
  assumes "hop_encodable (as ! i)" "hop_encodable (bs ! j)" "short p" "short q"
  shows "hopPayload as i p = hopPayload bs j q \<longleftrightarrow> hop_fields (as ! i) = hop_fields (bs ! j) \<and> p = q"
  using assms by (auto simp: hopPayload_def hop_fields_def hop_encodable_def Let_def read_back)

theorem hop_payload_identifies_witness:
  "hopPayload [hop_root, hop_mid] 1 ''a'' \<noteq> hopPayload [hop_root, hop_mid] 1 ''b''"
proof -
  have enc: "hop_encodable ([hop_root, hop_mid] ! 1)"
    by (simp add: hop_encodable_def hop_mid_def small_list_def short_def int64_def time_Unix_def)
  have "short ''a''" "short ''b''" by (simp_all add: short_def)
  then show ?thesis using hop_payload_identifies [OF enc enc, of "''a''" "''b''"] by simp
qed

lemma lease_payload_identifies:
  assumes "lease_encodable l" "lease_encodable l'"
  shows "leasePayload l = leasePayload l' \<longleftrightarrow> lease_fields l = lease_fields l'"
  using assms by (auto simp: leasePayload_def lease_fields_def lease_encodable_def read_back lp_u32_mod_iff)

lemma subsecond_expiry_not_signed:
  "time_Unix (au_ExpiresAt a) = time_Unix t \<Longrightarrow> as ! i = a \<Longrightarrow> bs ! j = a \<lparr>au_ExpiresAt := t\<rparr> \<Longrightarrow>
     hopPayload as i p = hopPayload bs j p"
  by (simp add: hopPayload_def Let_def)

section \<open>Comparison of hashes\<close>

lemma byte_word_inj: "byte_word x = byte_word y \<longleftrightarrow> x = y"
proof
  have unat: "unat (byte_word c) = of_char c" for c
    by (simp add: byte_word_def unat_of_nat)
  assume "byte_word x = byte_word y"
  then have "(of_char x :: nat) = of_char y" using unat by metis
  then show "x = y" by simp
qed simp

lemma differences_zero_iff:
  "foldl (\<lambda>diff (x, y). diff OR (byte_word x XOR byte_word y)) d zs = 0 \<longleftrightarrow>
     d = 0 \<and> list_all (\<lambda>(x, y). x = y) zs"
proof (induction zs arbitrary: d)
  case (Cons z zs)
  have "(v :: 8 word) XOR w = 0 \<longleftrightarrow> v = w" for v w
    by (auto simp: bit_eq_iff bit_xor_iff)
  with Cons show ?case by (auto simp: or_eq_0_iff byte_word_inj split: prod.splits)
qed simp

lemma hmacEqual_iff: "hmacEqual a b \<longleftrightarrow> a = b"
  by (auto simp: hmacEqual_def differences_zero_iff list_all_length list_eq_iff_nth_eq)

end
