(* ===== verification/Trust_Shield.thy ===== *)
theory Trust_Shield
  imports Models Go_Regexp
begin

text \<open>
  Component: the trust score of a request and the shield that counts risk events and restricts agents
  (\<^verbatim>\<open>internal/trust/shield.go\<close>, \<^verbatim>\<open>internal/trust/evaluator.go\<close>). Each operation runs under the store's lock and is
  one function of the state; \<open>clock k\<close> is the k-th reading of the time in it. The score is computed in
  \<^verbatim>\<open>float64\<close>, every operation rounded on its own.
\<close>

section \<open>The shield store\<close>

record Restriction =
  rn_AgentID :: string
  rn_Restricted :: bool
  rn_Reason :: string
  rn_Since :: time
  rn_ExpiresAt :: time

record ShieldStore =
  sh_restrictions :: "(string, Restriction) gomap"
  sh_riskCounts :: "(string, int) gomap"
  sh_lastDecision :: "(string, string) gomap"
  sh_lastDecisionTime :: "(string, time) gomap"
  sh_riskWindow :: duration
  sh_autoTTL :: duration
  sh_riskTimes :: "(string, time list) gomap"

text \<open>Reading a Go map at a missing key gives the zero value.\<close>

definition at0 :: "'v \<Rightarrow> (string, 'v) gomap \<Rightarrow> string \<Rightarrow> 'v" where
  "at0 zero m k = (case map_of m k of None \<Rightarrow> zero | Some v \<Rightarrow> v)"

definition NewShieldStore :: ShieldStore where
  "NewShieldStore = \<lparr>sh_restrictions = [], sh_riskCounts = [], sh_lastDecision = [], sh_lastDecisionTime = [],
     sh_riskWindow = 0, sh_autoTTL = 0, sh_riskTimes = []\<rparr>"

definition SetRiskWindow :: "duration \<Rightarrow> ShieldStore \<Rightarrow> ShieldStore" where
  "SetRiskWindow d s = s \<lparr>sh_riskWindow := d\<rparr>"

definition SetAutoRestrictTTL :: "duration \<Rightarrow> ShieldStore \<Rightarrow> ShieldStore" where
  "SetAutoRestrictTTL d s = s \<lparr>sh_autoTTL := d\<rparr>"

definition prune_risks :: "time \<Rightarrow> string \<Rightarrow> ShieldStore \<Rightarrow> ShieldStore" where
  "prune_risks now agentID s =
     (if 0 < sh_riskWindow s then
        let cutoff = now - sh_riskWindow s;
            keep = filter (\<lambda>t. cutoff < t) (at0 [] (sh_riskTimes s) agentID) in
        if keep = [] then s \<lparr>sh_riskTimes := AList.delete agentID (sh_riskTimes s),
                            sh_riskCounts := AList.delete agentID (sh_riskCounts s)\<rparr>
        else s \<lparr>sh_riskTimes := AList.update agentID keep (sh_riskTimes s),
               sh_riskCounts := AList.update agentID (int (length keep)) (sh_riskCounts s)\<rparr>
      else s)"

definition lift_expired :: "time \<Rightarrow> string \<Rightarrow> ShieldStore \<Rightarrow> ShieldStore" where
  "lift_expired now agentID s =
     (case map_of (sh_restrictions s) agentID of
        Some r \<Rightarrow>
          if \<not> IsZero (rn_ExpiresAt r) \<and> rn_ExpiresAt r < now
          then s \<lparr>sh_restrictions := AList.delete agentID (sh_restrictions s)\<rparr> else s
      | None \<Rightarrow> s)"

definition pruneLocked :: "(nat \<Rightarrow> time) \<Rightarrow> string \<Rightarrow> ShieldStore \<Rightarrow> ShieldStore" where
  "pruneLocked clock agentID s = lift_expired (clock 1) agentID (prune_risks (clock 0) agentID s)"

definition RecordDecision :: "(nat \<Rightarrow> time) \<Rightarrow> string \<Rightarrow> string \<Rightarrow> ShieldStore \<Rightarrow> ShieldStore" where
  "RecordDecision clock agentID decision s =
     (let s1 = s \<lparr>sh_lastDecision := AList.update agentID decision (sh_lastDecision s),
                 sh_lastDecisionTime := AList.update agentID (clock 0) (sh_lastDecisionTime s)\<rparr> in
      if decision = ''deny'' \<or> decision = ''escalate'' then
        s1 \<lparr>sh_riskCounts := AList.update agentID (at0 0 (sh_riskCounts s) agentID + 1) (sh_riskCounts s),
           sh_riskTimes := AList.update agentID (at0 [] (sh_riskTimes s) agentID @ [clock 1]) (sh_riskTimes s)\<rparr>
      else s1)"

definition GetLastDecision :: "string \<Rightarrow> ShieldStore \<Rightarrow> string" where
  "GetLastDecision agentID s = at0 [] (sh_lastDecision s) agentID"

definition GetLastDecisionTime :: "string \<Rightarrow> ShieldStore \<Rightarrow> time" where
  "GetLastDecisionTime agentID s = at0 0 (sh_lastDecisionTime s) agentID"

definition GetRiskCount :: "(nat \<Rightarrow> time) \<Rightarrow> string \<Rightarrow> ShieldStore \<Rightarrow> int \<times> ShieldStore" where
  "GetRiskCount clock agentID s =
     (let s' = pruneLocked clock agentID s in (at0 0 (sh_riskCounts s') agentID, s'))"

definition Restrict :: "time \<Rightarrow> string \<Rightarrow> string \<Rightarrow> ShieldStore \<Rightarrow> ShieldStore" where
  "Restrict now agentID reason s =
     s \<lparr>sh_restrictions := AList.update agentID
          \<lparr>rn_AgentID = agentID, rn_Restricted = True, rn_Reason = reason, rn_Since = now, rn_ExpiresAt = 0\<rparr>
          (sh_restrictions s)\<rparr>"

definition Unrestrict :: "string \<Rightarrow> ShieldStore \<Rightarrow> ShieldStore" where
  "Unrestrict agentID s =
     s \<lparr>sh_restrictions := AList.delete agentID (sh_restrictions s),
        sh_riskCounts := AList.delete agentID (sh_riskCounts s),
        sh_lastDecision := AList.delete agentID (sh_lastDecision s),
        sh_lastDecisionTime := AList.delete agentID (sh_lastDecisionTime s),
        sh_riskTimes := AList.delete agentID (sh_riskTimes s)\<rparr>"

definition GetRestriction :: "(nat \<Rightarrow> time) \<Rightarrow> string \<Rightarrow> ShieldStore \<Rightarrow> Restriction option \<times> ShieldStore" where
  "GetRestriction clock agentID s =
     (let s' = pruneLocked clock agentID s in (map_of (sh_restrictions s') agentID, s'))"

definition shield_IsRestricted :: "(nat \<Rightarrow> time) \<Rightarrow> string \<Rightarrow> ShieldStore \<Rightarrow> bool \<times> ShieldStore" where
  "shield_IsRestricted clock agentID s =
     (let s' = pruneLocked clock agentID s in
      (case map_of (sh_restrictions s') agentID of Some r \<Rightarrow> rn_Restricted r | None \<Rightarrow> False, s'))"

text \<open>Go deletes from the map it ranges over; each key present at the start is visited at most once.\<close>

definition GetAllRestricted :: "(nat \<Rightarrow> time) \<Rightarrow> ShieldStore \<Rightarrow> Restriction list \<times> ShieldStore" where
  "GetAllRestricted clock s =
     (let s' = fold (pruneLocked clock) (map fst (sh_restrictions s)) s in (map snd (sh_restrictions s'), s'))"

record ShieldStats =
  sg_Restricted :: bool
  sg_RiskCount :: int
  sg_LastDecision :: string
  sg_LastDecisionAt :: time

definition GetStats :: "(nat \<Rightarrow> time) \<Rightarrow> string \<Rightarrow> ShieldStore \<Rightarrow> ShieldStats \<times> ShieldStore" where
  "GetStats clock agentID s =
     (let s' = pruneLocked clock agentID s in
      (\<lparr>sg_Restricted = map_of (sh_restrictions s') agentID \<noteq> None,
        sg_RiskCount = at0 0 (sh_riskCounts s') agentID,
        sg_LastDecision = at0 [] (sh_lastDecision s') agentID,
        sg_LastDecisionAt = at0 0 (sh_lastDecisionTime s') agentID\<rparr>, s'))"

definition AutoRestrictAfterRepeatedRisk :: "(nat \<Rightarrow> time) \<Rightarrow> string \<Rightarrow> int \<Rightarrow> ShieldStore \<Rightarrow> bool \<times> ShieldStore" where
  "AutoRestrictAfterRepeatedRisk clock agentID threshold s =
     (let s' = pruneLocked clock agentID s; count = at0 0 (sh_riskCounts s') agentID in
      if threshold \<le> count \<and> map_of (sh_restrictions s') agentID = None then
        (True, s' \<lparr>sh_restrictions := AList.update agentID
           \<lparr>rn_AgentID = agentID, rn_Restricted = True,
            rn_Reason = ''auto_restricted_after_'' @ Itoa count @ ''_risk_events'', rn_Since = clock 2,
            rn_ExpiresAt = (if 0 < sh_autoTTL s' then clock 2 + sh_autoTTL s' else 0)\<rparr> (sh_restrictions s')\<rparr>)
      else (False, s'))"

definition ShouldAutoRestrict :: "(nat \<Rightarrow> time) \<Rightarrow> string \<Rightarrow> int \<Rightarrow> ShieldStore \<Rightarrow> bool \<times> ShieldStore" where
  "ShouldAutoRestrict clock agentID threshold s =
     (let s' = pruneLocked clock agentID s in
      (if map_of (sh_restrictions s') agentID \<noteq> None then False
       else threshold \<le> at0 0 (sh_riskCounts s') agentID, s'))"

record ShieldStoreStats =
  st_TotalAgents :: nat
  st_RestrictedCount :: nat
  st_TotalRiskEvents :: int

definition GetAllStats :: "ShieldStore \<Rightarrow> ShieldStoreStats" where
  "GetAllStats s =
     \<lparr>st_TotalAgents = length (sh_riskCounts s), st_RestrictedCount = length (sh_restrictions s),
      st_TotalRiskEvents = sum_list (map snd (sh_riskCounts s))\<rparr>"

section \<open>The trust score\<close>

abbreviation "ReasonRepeatedRisk \<equiv> ''repeated_risk''"
abbreviation "ReasonRiskyShellPattern \<equiv> ''risky_shell_pattern''"
abbreviation "ReasonRiskyGitPattern \<equiv> ''risky_git_pattern''"
abbreviation "ReasonProductionTarget \<equiv> ''production_target''"
abbreviation "ReasonWeakLeaseScope \<equiv> ''weak_lease_scope''"

record TrustResult =
  tr_Score :: float64
  tr_Level :: TrustLevel
  tr_AnomalySignals :: "AnomalySignal list"
  tr_ShieldActive :: bool
  tr_Restricted :: bool
  tr_RiskCount :: int

definition signal :: "string \<Rightarrow> string \<Rightarrow> string \<Rightarrow> AnomalySignal" where
  "signal code pattern severity = \<lparr>as_Code = code, as_Pattern = pattern, as_Severity = severity\<rparr>"

definition riskyShell :: "string list" where
  "riskyShell =
     [''rm -rf'', ''mkfs'', ''dd if='', '':(){:|:&};:'', ''curl |sh'', ''wget |sh'',
      ''chmod -R 777'', ''chown -R'', ''sudo su'', ''passwd root'',
      ''killall'', ''pkill -9'', ''reboot'', ''shutdown'',
      ''> /etc/'', ''> /var/'', ''/dev/sd'', ''nc -e'', ''bash -i'']"

definition evaluateShellPatterns :: "ActionRequest \<Rightarrow> AnomalySignal list" where
  "evaluateShellPatterns req =
     (if rq_ActionType req \<noteq> ''shell'' then []
      else (case find (Contains (rq_Resource req)) riskyShell of
              None \<Rightarrow> []
            | Some pattern \<Rightarrow> [signal ReasonRiskyShellPattern pattern ''high'']))"

definition evaluateGitPatterns :: "ActionRequest \<Rightarrow> AnomalySignal list" where
  "evaluateGitPatterns req =
     (case map_of [(''git.force_push'', ''--force''), (''git.push'', ''force_push_candidate''),
                   (''github.delete_branch'', ''branch_deletion'')] (rq_ActionType req) of
        None \<Rightarrow> []
      | Some pattern \<Rightarrow> [signal ReasonRiskyGitPattern pattern ''medium''])"

definition evaluateProductionTarget :: "ActionRequest \<Rightarrow> AnomalySignal option" where
  "evaluateProductionTarget req =
     (if rq_Environment req = EnvironmentProduction
      then Some (signal ReasonProductionTarget ''production_environment'' ''high'') else None)"

definition evaluateLeaseScope :: "ActionRequest \<Rightarrow> AnomalySignal option" where
  "evaluateLeaseScope req =
     (case rq_CapabilityLease req of
        None \<Rightarrow> None
      | Some l \<Rightarrow>
          if cl_ResourceScope l = ''*'' \<and> rq_ActionType req = ''shell''
          then Some (signal ReasonWeakLeaseScope ''wildcard_scope_with_shell'' ''medium'') else None)"

definition evaluateDelegationDepth :: "ActionRequest \<Rightarrow> AnomalySignal option" where
  "evaluateDelegationDepth req =
     (case rq_DelegationChain req of
        None \<Rightarrow> None
      | Some c \<Rightarrow>
          if 3 < dc_Depth c then Some (signal ''excessive_delegation_depth'' ''depth_exceeds_3'' ''medium'') else None)"

definition scoreToLevel :: "float64 \<Rightarrow> TrustLevel" where
  "scoreToLevel score =
     (if fl (8 / 10) \<le> score then TrustLevelHigh
      else if fl (5 / 10) \<le> score then TrustLevelMedium
      else if 0 < score then TrustLevelLow
      else TrustLevelNone)"

text \<open>A penalty: the signals it adds and what it takes from the score.\<close>

definition penalize :: "AnomalySignal list \<Rightarrow> float64 \<Rightarrow> TrustResult \<Rightarrow> TrustResult" where
  "penalize signals amount r =
     r \<lparr>tr_AnomalySignals := tr_AnomalySignals r @ signals, tr_Score := fsub (tr_Score r) amount\<rparr>"

definition penalize_if :: "AnomalySignal option \<Rightarrow> float64 \<Rightarrow> TrustResult \<Rightarrow> TrustResult" where
  "penalize_if sig amount r = (case sig of None \<Rightarrow> r | Some s \<Rightarrow> penalize [s] amount r)"

text \<open>The part of \<open>Evaluate\<close> that asks the shield store about the agent.\<close>

definition shield_penalties ::
  "(nat \<Rightarrow> time) \<Rightarrow> string \<Rightarrow> TrustResult \<Rightarrow> ShieldStore \<Rightarrow> TrustResult \<times> ShieldStore" where
  "shield_penalties clock agentID r0 s0 =
     (let (restriction, s1) = GetRestriction clock agentID s0;
          r1 = (if restriction \<noteq> None
                then (penalize [signal ReasonContainmentActive ''agent_restricted'' ''high''] (fl (4 / 10)) r0) \<lparr>tr_Restricted := True\<rparr>
                else r0);
          (riskCount, s2) = GetRiskCount (\<lambda>k. clock (2 + k)) agentID s1;
          r2 = r1 \<lparr>tr_RiskCount := riskCount\<rparr>;
          r3 = (if 0 < riskCount then
                  penalize (if 3 \<le> riskCount then [signal ReasonRepeatedRisk ''repeated_risk_behavior'' ''medium''] else [])
                    (fmul (fl (of_int riskCount)) (fl (5 / 100))) r2
                else r2);
          lastDecision = GetLastDecision agentID s2;
          r4 = (if lastDecision \<noteq> [] \<and> time_Sub (clock 4) (GetLastDecisionTime agentID s2) < 30 * Second \<and>
                   (lastDecision = ''escalate'' \<or> lastDecision = ''deny'')
                then r3 \<lparr>tr_Score := fsub (tr_Score r3) (fl (1 / 10))\<rparr> else r3) in
      (r4, s2))"

definition clamp_score :: "float64 \<Rightarrow> float64" where
  "clamp_score x = (let y = (if x < 0 then 0 else x) in if 1 < y then 1 else y)"

definition trust_agent :: "ActionRequest \<Rightarrow> string" where
  "trust_agent req = (case rq_AgentIdentity req of None \<Rightarrow> [] | Some i \<Rightarrow> ai_SubjectID i)"

definition request_penalties :: "ActionRequest \<Rightarrow> TrustResult \<Rightarrow> TrustResult" where
  "request_penalties req r =
     penalize_if (evaluateDelegationDepth req) (fl (1 / 10))
       (penalize_if (evaluateLeaseScope req) (fl (1 / 10))
         (penalize_if (evaluateProductionTarget req) (fl (2 / 10))
           (fold (\<lambda>s. penalize [s] (fl (15 / 100))) (evaluateShellPatterns req @ evaluateGitPatterns req) r)))"

definition trust_Evaluate ::
  "(nat \<Rightarrow> time) \<Rightarrow> ActionRequest \<Rightarrow> ShieldStore option \<Rightarrow> TrustResult \<times> ShieldStore option" where
  "trust_Evaluate clock req store =
     (let r0 = \<lparr>tr_Score = 1, tr_Level = TrustLevelHigh, tr_AnomalySignals = [], tr_ShieldActive = False,
                tr_Restricted = False, tr_RiskCount = 0\<rparr>;
          (r1, store') =
            (case store of
               None \<Rightarrow> (r0, None)
             | Some s \<Rightarrow>
                 if trust_agent req = [] then (r0, Some s)
                 else (case shield_penalties clock (trust_agent req) r0 s of (r, s') \<Rightarrow> (r, Some s')));
          r2 = request_penalties req r1;
          score = clamp_score (tr_Score r2) in
      (r2 \<lparr>tr_Score := score, tr_Level := scoreToLevel score, tr_ShieldActive := score < fl (6 / 10)\<rparr>, store'))"

definition ShouldEscalate :: "TrustResult \<Rightarrow> bool" where
  "ShouldEscalate r \<longleftrightarrow> tr_Level r = TrustLevelLow \<or> tr_Level r = TrustLevelNone \<or> tr_Score r < fl (5 / 10)"

definition result_IsRestricted :: "TrustResult \<Rightarrow> bool" where
  "result_IsRestricted r \<longleftrightarrow> tr_Restricted r \<or> tr_Score r < fl (3 / 10)"

definition AddAnomalyReasons :: "TrustResult \<Rightarrow> string list \<Rightarrow> string list" where
  "AddAnomalyReasons r reasons =
     reasons @ map as_Code (tr_AnomalySignals r) @ (if tr_Restricted r then [ReasonContainmentActive] else [])"

end
