(* ===== verification/Trust_Drift.thy ===== *)
theory Trust_Drift
  imports Models Go_Regexp
begin

text \<open>
  Component: the drift detector and the delegation-pattern detector that the evaluator consults when they are
  configured (\<^verbatim>\<open>internal/trust/drift.go\<close>, \<^verbatim>\<open>chain_detection.go\<close>). Loops over a Go map have no fixed order; here
  they follow the first occurrence of each key, and nothing the evaluator reads depends on the order.
\<close>

section \<open>Drift\<close>

record ActionWindow =
  aw_ActionType :: string
  aw_Resource :: string
  aw_Timestamp :: time
  aw_IsRisky :: bool

record AgentBaseline =
  ab_AgentID :: string
  ab_PrimaryActions :: "(string, int) gomap"
  ab_TotalActions :: int
  ab_RiskyActionCount :: int
  ab_EstablishedAt :: time
  ab_LastUpdatedAt :: time

record DriftDetector =
  dd_windows :: "(string, ActionWindow list) gomap"
  dd_maxWindowSize :: int
  dd_windowDur :: duration
  dd_driftBaseline :: "(string, AgentBaseline) gomap"

definition NewDriftDetector :: "int \<Rightarrow> duration \<Rightarrow> DriftDetector" where
  "NewDriftDetector maxWindowSize windowDur =
     \<lparr>dd_windows = [], dd_maxWindowSize = (if maxWindowSize \<le> 0 then 100 else maxWindowSize),
      dd_windowDur = (if windowDur \<le> 0 then 86400 * Second else windowDur), dd_driftBaseline = []\<rparr>"

text \<open>The last \<open>n\<close> elements of a list.\<close>

definition keep_last :: "int \<Rightarrow> 'a list \<Rightarrow> 'a list" where
  "keep_last n xs = (if n < int (length xs) then drop (length xs - nat n) xs else xs)"

definition count_of :: "(string, int) gomap \<Rightarrow> string \<Rightarrow> int" where
  "count_of m k = (case map_of m k of None \<Rightarrow> 0 | Some n \<Rightarrow> n)"

definition RecordAction :: "time \<Rightarrow> string \<Rightarrow> string \<Rightarrow> string \<Rightarrow> bool \<Rightarrow> DriftDetector \<Rightarrow> DriftDetector" where
  "RecordAction now agentID actionType resource isRisky d =
     (let cutoff = now - dd_windowDur d;
          window = (case map_of (dd_windows d) agentID of None \<Rightarrow> [] | Some w \<Rightarrow> w) @
            [\<lparr>aw_ActionType = actionType, aw_Resource = resource, aw_Timestamp = now, aw_IsRisky = isRisky\<rparr>];
          valid = keep_last (dd_maxWindowSize d) (filter (\<lambda>w. cutoff < aw_Timestamp w) window);
          baseline = (case map_of (dd_driftBaseline d) agentID of
              Some b \<Rightarrow> b
            | None \<Rightarrow> \<lparr>ab_AgentID = agentID, ab_PrimaryActions = [], ab_TotalActions = 0, ab_RiskyActionCount = 0,
                       ab_EstablishedAt = now, ab_LastUpdatedAt = 0\<rparr>) in
      d \<lparr>dd_windows := AList.update agentID valid (dd_windows d),
         dd_driftBaseline := AList.update agentID
           (baseline \<lparr>ab_TotalActions := ab_TotalActions baseline + 1,
              ab_PrimaryActions := AList.update actionType (count_of (ab_PrimaryActions baseline) actionType + 1) (ab_PrimaryActions baseline),
              ab_RiskyActionCount := (if isRisky then ab_RiskyActionCount baseline + 1 else ab_RiskyActionCount baseline),
              ab_LastUpdatedAt := now\<rparr>) (dd_driftBaseline d)\<rparr>)"

record DriftResult =
  df_Drifting :: bool
  df_Reason :: string
  df_DriftScore :: float64
  df_BaselineAge :: duration

definition uses :: "string \<Rightarrow> ActionWindow list \<Rightarrow> nat" where
  "uses at' ws = length (filter (\<lambda>w. aw_ActionType w = at') ws)"

text \<open>How many of the recent actions have a type that the older half used in under a twentieth of its actions.\<close>

definition novelCount :: "ActionWindow list \<Rightarrow> ActionWindow list \<Rightarrow> nat" where
  "novelCount baselineHalf recentHalf =
     sum_list (map (\<lambda>t. if uses t baselineHalf = 0 \<or>
                           fdiv (of_nat (uses t baselineHalf)) (of_nat (length baselineHalf)) < fl (5 / 100)
                        then uses t recentHalf else 0)
       (remdups (map aw_ActionType recentHalf)))"

definition cap1 :: "float64 \<Rightarrow> float64" where
  "cap1 x = (if 1 < x then 1 else x)"

definition driftScore :: "ActionWindow list \<Rightarrow> ActionWindow list \<Rightarrow> float64" where
  "driftScore baselineHalf recentHalf =
     (let score = cap1 (fdiv (of_nat (novelCount baselineHalf recentHalf)) (of_nat (length recentHalf)));
          riskyDensity = fdiv (of_nat (length (filter aw_IsRisky recentHalf))) (of_nat (length recentHalf)) in
      if 3 < length recentHalf \<and> fl (3 / 10) < riskyDensity then cap1 (fadd score (fl (2 / 10))) else score)"

definition CheckDrift :: "time \<Rightarrow> string \<Rightarrow> DriftDetector \<Rightarrow> DriftResult" where
  "CheckDrift now agentID d =
     (let quiet = \<lparr>df_Drifting = False, df_Reason = [], df_DriftScore = 0, df_BaselineAge = 0\<rparr> in
      case map_of (dd_driftBaseline d) agentID of
        None \<Rightarrow> quiet
      | Some baseline \<Rightarrow>
          if ab_TotalActions baseline < 5 then quiet
          else let age = time_Sub now (ab_EstablishedAt baseline);
                   window = (case map_of (dd_windows d) agentID of None \<Rightarrow> [] | Some w \<Rightarrow> w) in
            if length window < 6 then quiet \<lparr>df_BaselineAge := age\<rparr>
            else let mid = length window div 2; baselineHalf = take mid window; recentHalf = drop mid window in
              if length baselineHalf < 3 \<or> length recentHalf < 1 then quiet \<lparr>df_BaselineAge := age\<rparr>
              else let score = driftScore baselineHalf recentHalf in
                if fl (5 / 10) < score then
                  \<lparr>df_Drifting = True, df_Reason = ''significant deviation from established action baseline'',
                   df_DriftScore = score, df_BaselineAge = age\<rparr>
                else if fl (25 / 100) < score then
                  \<lparr>df_Drifting = True, df_Reason = ''moderate deviation from action baseline'',
                   df_DriftScore = score, df_BaselineAge = age\<rparr>
                else \<lparr>df_Drifting = False, df_Reason = [], df_DriftScore = score, df_BaselineAge = age\<rparr>)"

definition GetBaseline :: "string \<Rightarrow> DriftDetector \<Rightarrow> AgentBaseline option" where
  "GetBaseline agentID d = map_of (dd_driftBaseline d) agentID"

definition ClearBaseline :: "string \<Rightarrow> DriftDetector \<Rightarrow> DriftDetector" where
  "ClearBaseline agentID d =
     d \<lparr>dd_driftBaseline := AList.delete agentID (dd_driftBaseline d), dd_windows := AList.delete agentID (dd_windows d)\<rparr>"

section \<open>Delegation patterns\<close>

record ChainSuspicion =
  cs_Code :: string
  cs_Description :: string
  cs_Severity :: string

record recentChainEntry =
  re_Depth :: int
  re_Issuers :: "string list"
  re_Subjects :: "string list"
  re_Timestamp :: time

record ChainDetector =
  cd_recentChains :: "(string, recentChainEntry list) gomap"
  cd_maxEntries :: int
  cd_trackingWindow :: duration
  cd_maxDepth :: int

definition NewChainDetector :: "int \<Rightarrow> duration \<Rightarrow> int \<Rightarrow> ChainDetector" where
  "NewChainDetector maxEntries trackingWindow maxDepth =
     \<lparr>cd_recentChains = [], cd_maxEntries = (if maxEntries \<le> 0 then 50 else maxEntries),
      cd_trackingWindow = (if trackingWindow \<le> 0 then 3600 * Second else trackingWindow),
      cd_maxDepth = (if maxDepth \<le> 0 then 5 else maxDepth)\<rparr>"

definition RecordChain :: "(nat \<Rightarrow> time) \<Rightarrow> string \<Rightarrow> DelegationChain option \<Rightarrow> ChainDetector \<Rightarrow> ChainDetector" where
  "RecordChain clock agentID chain cd =
     (case chain of
        None \<Rightarrow> cd
      | Some c \<Rightarrow>
          let entry = \<lparr>re_Depth = dc_Depth c, re_Issuers = map au_Issuer (dc_Authorities c),
                       re_Subjects = map au_SubjectID (dc_Authorities c), re_Timestamp = clock 0\<rparr>;
              entries = (case map_of (cd_recentChains cd) agentID of None \<Rightarrow> [] | Some es \<Rightarrow> es);
              cutoff = clock 1 - cd_trackingWindow cd;
              valid = filter (\<lambda>e. cutoff < re_Timestamp e) entries @ [entry] in
          cd \<lparr>cd_recentChains := AList.update agentID (keep_last (cd_maxEntries cd) valid) (cd_recentChains cd)\<rparr>)"

definition suspicion :: "string \<Rightarrow> string \<Rightarrow> string \<Rightarrow> ChainSuspicion" where
  "suspicion code description severity = \<lparr>cs_Code = code, cs_Description = description, cs_Severity = severity\<rparr>"

definition issuer_concentration :: "recentChainEntry list \<Rightarrow> ChainSuspicion list" where
  "issuer_concentration entries =
     (let issuers = concat (map re_Issuers entries) in
      map (\<lambda>iss. suspicion ''issuer_concentration''
             (''issuer '' @ iss @ '' appears in '' @ digits (count_list issuers iss) @ '' recent delegations'') ''low'')
        (filter (\<lambda>iss. 5 \<le> count_list issuers iss \<and> 3 \<le> length entries) (remdups issuers)))"

definition DetectSuspiciousPatterns :: "string \<Rightarrow> ChainDetector \<Rightarrow> ChainSuspicion list" where
  "DetectSuspiciousPatterns agentID cd =
     (case map_of (cd_recentChains cd) agentID of
        None \<Rightarrow> []
      | Some entries \<Rightarrow>
          if entries = [] then []
          else let latest = last entries in
            (if cd_maxDepth cd < re_Depth latest
             then [suspicion ''excessive_delegation_depth'' ''delegation chain depth exceeds maximum'' ''medium''] else []) @
            (case find (\<lambda>i. i < length (re_Subjects latest) \<and> re_Issuers latest ! i = re_Subjects latest ! i)
                    [0..<length (re_Issuers latest)] of
               None \<Rightarrow> []
             | Some i \<Rightarrow> [suspicion ''self_delegation'' (''authority delegates to itself at position '' @ digits i) ''high'']) @
            issuer_concentration entries @
            (let timeSinceFirst = time_Sub (re_Timestamp latest) (re_Timestamp (hd entries)) in
             if 5 \<le> length entries \<and> timeSinceFirst < 300 * Second
             then [suspicion ''rapid_redelegation'' (digits (length entries) @ '' delegations in '' @ Duration_String timeSinceFirst) ''medium'']
             else []))"

end
