(* ===== verification/Evaluator_Decide.thy ===== *)
theory Evaluator_Decide
  imports Policy_Rules Identity_Validator Trust_Shield Trust_Drift
begin

text \<open>
  Component: the evaluation of a request (\<^verbatim>\<open>internal/evaluator/evaluator.go\<close>): admission (shape, freshness,
  revocation epoch, nonce), containment, identity, delegation, lease, drift and delegation patterns, the policy
  rules, the trust minimums, and what the decision leaves behind in the shield. The stages follow the order of
  the code and each one is skipped once a decision stands. What comes from outside is the record \<open>host\<close>: the
  signature check, the two digests, the durable replay store, lease revocation, the revocation epoch (an error
  or a number, per query), and the clock. Tracing is left out; generated identifiers are not kept.
\<close>

section \<open>State\<close>

datatype Kind = KindRequest | KindDelegation

datatype Result = FirstConsume | AlreadyConsumed | StorageFailure

record 'r host =
  ho_verify :: verifier
  ho_sha :: "string \<Rightarrow> string"
  ho_digest :: "filePolicy \<Rightarrow> string"
  ho_Consume :: "Kind \<Rightarrow> string \<Rightarrow> time \<Rightarrow> 'r \<Rightarrow> Result \<times> 'r"
  ho_IsRevoked :: "(string \<Rightarrow> bool) option"
  ho_Epoch :: "(nat \<Rightarrow> string + nat) option"
  ho_clock :: "nat \<Rightarrow> time"

record 'r evaluator =
  ev_policyStore :: store
  ev_baseline :: "store option"
  ev_validator :: Validator
  ev_shieldStore :: ShieldStore
  ev_touched :: "(string \<times> string \<times> string) list"
  ev_driftDetector :: "DriftDetector option"
  ev_chainDetector :: "ChainDetector option"
  ev_nonceCache :: "(string, time) gomap"
  ev_delegNonceCache :: "(string, time) gomap"
  ev_nonceSweepAt :: time
  ev_replayStore :: "'r option"

definition PolicyHash :: "'r host \<Rightarrow> 'r evaluator \<Rightarrow> string" where
  "PolicyHash h e =
     (let hsh = fst (Hash (ho_digest h) (ev_policyStore e)) in
      case ev_baseline e of
        None \<Rightarrow> hsh
      | Some b \<Rightarrow> hex_EncodeToString (ho_sha h (hsh @ ''+'' @ fst (Hash (ho_digest h) b))))"

section \<open>Admission\<close>

definition maxClockSkew :: duration where
  "maxClockSkew = 60 * Second"

definition nonceTTL :: duration where
  "nonceTTL = 300 * Second"

definition cacheNonce :: "time \<Rightarrow> string \<Rightarrow> 'r evaluator \<Rightarrow> bool \<times> 'r evaluator" where
  "cacheNonce now nonce e =
     (if (case map_of (ev_nonceCache e) nonce of None \<Rightarrow> False | Some seenAt \<Rightarrow> time_Sub now seenAt < nonceTTL)
      then (False, e)
      else let cache = AList.update nonce now (ev_nonceCache e) in
        (True,
         if ev_nonceSweepAt e < now then
           e \<lparr>ev_nonceCache := filter (\<lambda>(n, seenAt). \<not> nonceTTL \<le> time_Sub now seenAt) cache,
              ev_nonceSweepAt := now + 60 * Second\<rparr>
         else e \<lparr>ev_nonceCache := cache\<rparr>))"

definition consumeNonce :: "'r host \<Rightarrow> time \<Rightarrow> string \<Rightarrow> 'r evaluator \<Rightarrow> bool \<times> 'r evaluator" where
  "consumeNonce h now nonce e =
     (case ev_replayStore e of
        None \<Rightarrow> cacheNonce now nonce e
      | Some r \<Rightarrow>
          (case ho_Consume h KindRequest nonce (now + nonceTTL) r of
             (res, r') \<Rightarrow> (res = FirstConsume, e \<lparr>ev_replayStore := Some r'\<rparr>)))"

text \<open>The early returns of \<open>evaluate\<close>: the reason of a denial, or nothing when the request is admitted.\<close>

definition admit :: "'r host \<Rightarrow> ActionRequest \<Rightarrow> 'r evaluator \<Rightarrow> ReasonCode option \<times> 'r evaluator" where
  "admit h req e =
     (let now = ho_clock h 0 in
      if Validate req \<noteq> [] then (Some ReasonActionNotAllowed, e)
      else if rq_IssuedAt req < now - maxClockSkew \<or> now + maxClockSkew < rq_IssuedAt req
      then (Some ReasonActionNotAllowed, e)
      else if 0 < rq_MinEpoch req \<and> ho_Epoch h = None then (Some ReasonRevocationUnavailable, e)
      else if 0 < rq_MinEpoch req \<and>
        (case the (ho_Epoch h) 0 of Inl err \<Rightarrow> True | Inr ep \<Rightarrow> ep < rq_MinEpoch req)
      then (Some ReasonRevocationEpoch, e)
      else (case consumeNonce h now (rq_Nonce req) e of
              (True, e') \<Rightarrow> (None, e')
            | (False, e') \<Rightarrow> (Some ReasonActionNotAllowed, e')))"

section \<open>Delegation nonces\<close>

definition markDelegationNonce :: "'r host \<Rightarrow> 'r evaluator NonceMarker" where
  "markDelegationNonce h replayKey expiresAt e =
     (case ev_replayStore e of
        Some r \<Rightarrow>
          (case ho_Consume h KindDelegation replayKey expiresAt r of
             (res, r') \<Rightarrow>
               (case res of
                  FirstConsume \<Rightarrow> NonceMarkFirst
                | AlreadyConsumed \<Rightarrow> NonceMarkSeen
                | StorageFailure \<Rightarrow> NonceMarkFailed, e \<lparr>ev_replayStore := Some r'\<rparr>))
      | None \<Rightarrow>
          if (case map_of (ev_delegNonceCache e) replayKey of
                None \<Rightarrow> False | Some seenAt \<Rightarrow> time_Sub (ho_clock h 30) seenAt < nonceTTL)
          then (NonceMarkSeen, e)
          else let cache = AList.update replayKey (ho_clock h 31) (ev_delegNonceCache e) in
            (NonceMarkFirst,
             e \<lparr>ev_delegNonceCache :=
                 (if ev_nonceSweepAt e < ho_clock h 32
                  then filter (\<lambda>(k, seenAt). \<not> 600 * Second < time_Sub (ho_clock h 33) seenAt) cache else cache)\<rparr>))"

section \<open>The verdict\<close>

record verdict =
  vt_decision :: "Decision option"
  vt_reasons :: "ReasonCode list"
  vt_requiresApproval :: bool
  vt_matchedRule :: string

definition no_verdict :: verdict where
  "no_verdict = \<lparr>vt_decision = None, vt_reasons = [], vt_requiresApproval = False, vt_matchedRule = []\<rparr>"

definition deny_with :: "ReasonCode list \<Rightarrow> verdict \<Rightarrow> verdict" where
  "deny_with rs v = v \<lparr>vt_decision := Some DecisionDeny, vt_reasons := vt_reasons v @ rs\<rparr>"

definition escalate_with :: "ReasonCode list \<Rightarrow> verdict \<Rightarrow> verdict" where
  "escalate_with rs v =
     v \<lparr>vt_decision := Some DecisionEscalate, vt_reasons := vt_reasons v @ rs, vt_requiresApproval := True\<rparr>"

definition subject_of :: "ActionRequest \<Rightarrow> string" where
  "subject_of req = (case rq_AgentIdentity req of None \<Rightarrow> [] | Some i \<Rightarrow> ai_SubjectID i)"

definition check_containment :: "TrustResult \<Rightarrow> verdict \<Rightarrow> verdict" where
  "check_containment tr v = (if tr_Restricted tr then escalate_with [ReasonContainmentActive] v else v)"

definition check_identity :: "ActionRequest \<Rightarrow> verdict \<Rightarrow> verdict" where
  "check_identity req v =
     (if vt_decision v \<noteq> None then v
      else let r = ValidateAgentIdentity (rq_AgentIdentity req) in
        if vr_Valid r then v else deny_with (map (\<lambda>x. ReasonIdentityInvalid) (vr_Reasons r)) v)"

definition check_delegation :: "'r host \<Rightarrow> ActionRequest \<Rightarrow> verdict \<times> 'r evaluator \<Rightarrow> verdict \<times> 'r evaluator" where
  "check_delegation h req ve =
     (case ve of (v, e) \<Rightarrow>
        if vt_decision v \<noteq> None \<or> rq_DelegationChain req = None then (v, e)
        else (case ValidateDelegationChain (ho_verify h) (ho_sha h) (\<lambda>k. ho_clock h (20 + k)) (ev_validator e)
                     (rq_DelegationChain req) (subject_of req) (Some (markDelegationNonce h)) e of
                (r, e') \<Rightarrow>
                  (if \<not> vr_Valid r then deny_with (map (\<lambda>x. ReasonIdentityInvalid) (vr_Reasons r)) v
                   else (case TerminalCapability (rq_DelegationChain req) of
                           (capActions, capScope) \<Rightarrow>
                             if \<not> ActionInScope (rq_ActionType req) capActions \<or> \<not> scopeMatches capScope (rq_Resource req)
                             then deny_with [ReasonDelegationScope] v else v), e')))"

definition lease_reason :: "string \<Rightarrow> ReasonCode" where
  "lease_reason reason =
     (if Contains reason ''expiry'' then ReasonCapabilityExpiry
      else if Contains reason ''signature'' then ReasonIdentityInvalid
      else ReasonCapabilityNotAllowed)"

definition lease_scope_reason :: "string \<Rightarrow> ReasonCode" where
  "lease_scope_reason reason =
     (if Contains reason ''scope'' then ReasonCapabilityScope else ReasonCapabilityNotAllowed)"

definition check_lease :: "'r host \<Rightarrow> ActionRequest \<Rightarrow> verdict \<times> 'r evaluator \<Rightarrow> verdict \<times> 'r evaluator" where
  "check_lease h req ve =
     (case ve of (v, e) \<Rightarrow>
        if vt_decision v \<noteq> None then (v, e)
        else (case rq_CapabilityLease req of
                None \<Rightarrow> (v, e)
              | Some l \<Rightarrow>
                  if (case ho_IsRevoked h of None \<Rightarrow> False | Some revoked \<Rightarrow> revoked (cl_LeaseID l))
                  then (deny_with [ReasonCapabilityRevoked] v, e)
                  else
                    let e' = (if ho_IsRevoked h = None then e
                              else e \<lparr>ev_touched := ev_touched e @ [(cl_LeaseID l, rq_ActionType req, rq_Resource req)]\<rparr>);
                        lr = ValidateCapabilityLease (ho_verify h) (ho_clock h 40) (ev_validator e) (Some l);
                        sr = ValidateCapabilityLeaseScope (Some l) (rq_ActionType req) (rq_Resource req) in
                    (if \<not> vr_Valid lr then deny_with (map lease_reason (vr_Reasons lr)) v
                     else if rq_AgentIdentity req = None \<or> cl_Subject l \<noteq> subject_of req
                     then deny_with [ReasonCapabilityNotAllowed] v
                     else if \<not> vr_Valid sr then deny_with (map lease_scope_reason (vr_Reasons sr)) v
                     else v, e')))"

definition check_drift :: "'r host \<Rightarrow> ActionRequest \<Rightarrow> TrustResult \<Rightarrow> verdict \<times> 'r evaluator \<Rightarrow> verdict \<times> 'r evaluator" where
  "check_drift h req tr ve =
     (case ve of (v, e) \<Rightarrow>
        (case (ev_driftDetector e, rq_AgentIdentity req) of
           (Some dd, Some i) \<Rightarrow>
             if vt_decision v \<noteq> None then (v, e)
             else let isRisky = tr_Score tr < fl (8 / 10) \<or> tr_AnomalySignals tr \<noteq> [];
                      dd' = RecordAction (ho_clock h 50) (ai_SubjectID i) (rq_ActionType req) (rq_Resource req) isRisky dd in
               (if df_Drifting (CheckDrift (ho_clock h 51) (ai_SubjectID i) dd')
                then escalate_with [ReasonAnomalyDetected] v else v,
                e \<lparr>ev_driftDetector := Some dd'\<rparr>)
         | _ \<Rightarrow> (v, e)))"

definition check_patterns :: "'r host \<Rightarrow> ActionRequest \<Rightarrow> verdict \<times> 'r evaluator \<Rightarrow> verdict \<times> 'r evaluator" where
  "check_patterns h req ve =
     (case ve of (v, e) \<Rightarrow>
        (case (ev_chainDetector e, rq_AgentIdentity req) of
           (Some cd, Some i) \<Rightarrow>
             if vt_decision v \<noteq> None \<or> rq_DelegationChain req = None then (v, e)
             else let cd' = RecordChain (\<lambda>k. ho_clock h (52 + k)) (ai_SubjectID i) (rq_DelegationChain req) cd in
               (if list_ex (\<lambda>s. cs_Severity s = ''high'') (DetectSuspiciousPatterns (ai_SubjectID i) cd')
                then escalate_with [ReasonAnomalyDetected] v else v,
                e \<lparr>ev_chainDetector := Some cd'\<rparr>)
         | _ \<Rightarrow> (v, e)))"

definition apply_rules :: "RuleOutcome \<Rightarrow> ActionRequest \<Rightarrow> TrustResult \<Rightarrow> verdict \<Rightarrow> verdict" where
  "apply_rules outcome req tr v0 =
     (if vt_decision v0 \<noteq> None then v0
      else let v = v0 \<lparr>vt_matchedRule := ro_Rule outcome\<rparr> in
        if ro_Denied outcome then deny_with [ro_Reason outcome] v
        else if ro_Escalate outcome then
          escalate_with ([ro_Reason outcome] @ (if ShouldEscalate tr then [ReasonTrustEscalate] else []) @
                         map as_Code (tr_AnomalySignals tr)) v
        else if ro_LeaseRequired outcome \<and> rq_CapabilityLease req = None then escalate_with [ReasonLeaseRequired] v
        else v \<lparr>vt_decision := Some DecisionAllow, vt_reasons := vt_reasons v @ [ro_Reason outcome]\<rparr>)"

definition level_order :: "(string \<times> nat) list" where
  "level_order = [(''none'', 0), (''low'', 1), (''medium'', 2), (''high'', 3)]"

definition trustLevelBelow :: "TrustLevel \<Rightarrow> string \<Rightarrow> bool" where
  "trustLevelBelow actual minName =
     (case (map_of level_order (trust_level_name actual), map_of level_order minName) of
        (Some a, Some m) \<Rightarrow> a < m
      | _ \<Rightarrow> False)"

definition below_minimum :: "TrustResult \<Rightarrow> rule \<Rightarrow> bool" where
  "below_minimum tr r \<longleftrightarrow>
     (case r_MinTrustScore r of None \<Rightarrow> False | Some m \<Rightarrow> tr_Score tr < m) \<or>
     (r_MinTrustLevel r \<noteq> [] \<and> trustLevelBelow (tr_Level tr) (r_MinTrustLevel r))"

definition check_minimums :: "rule list \<Rightarrow> TrustResult \<Rightarrow> verdict \<Rightarrow> verdict" where
  "check_minimums actionRules tr v =
     (if vt_decision v = Some DecisionAllow \<and> list_ex (below_minimum tr) actionRules
      then deny_with [ReasonTrustLow] v else v)"

definition check_trust :: "TrustResult \<Rightarrow> verdict \<Rightarrow> verdict" where
  "check_trust tr v =
     (if ShouldEscalate tr \<and> vt_decision v = Some DecisionAllow
      then escalate_with (ReasonTrustEscalate # map as_Code (tr_AnomalySignals tr)) v else v)"

fun decision_name :: "Decision \<Rightarrow> string" where
  "decision_name DecisionAllow = ''allow''"
| "decision_name DecisionDeny = ''deny''"
| "decision_name DecisionEscalate = ''escalate''"

definition autoRestrictThreshold :: int where
  "autoRestrictThreshold = 10"

definition record_outcome :: "'r host \<Rightarrow> ActionRequest \<Rightarrow> Decision option \<Rightarrow> ShieldStore \<Rightarrow> ShieldStore" where
  "record_outcome h req decision s =
     (case (rq_AgentIdentity req, decision) of
        (Some i, Some d) \<Rightarrow>
          if d = DecisionEscalate then s
          else let s1 = RecordDecision (\<lambda>k. ho_clock h (60 + k)) (ai_SubjectID i) (decision_name d) s;
                   (restrict, s2) = ShouldAutoRestrict (\<lambda>k. ho_clock h (70 + k)) (ai_SubjectID i) autoRestrictThreshold s1 in
            if restrict then snd (AutoRestrictAfterRepeatedRisk (\<lambda>k. ho_clock h (80 + k)) (ai_SubjectID i) autoRestrictThreshold s2)
            else s2
      | _ \<Rightarrow> s)"

section \<open>The response\<close>

definition buildEvaluationSummary :: "Decision option \<Rightarrow> ReasonCode list \<Rightarrow> string" where
  "buildEvaluationSummary decision reasons =
     (let has = (\<lambda>code. code \<in> set reasons) in
      case decision of
        Some DecisionAllow \<Rightarrow>
          if has ReasonPolicyAllow then ''allowed by explicit policy rule''
          else ''allowed by default (no matching deny/escalate rule)''
      | Some DecisionDeny \<Rightarrow>
          if has ReasonProductionDenied then ''denied by production policy rule''
          else if has ReasonPolicyDeny then ''denied by explicit policy rule''
          else if has ReasonIdentityInvalid then ''denied: invalid or missing agent identity''
          else if has ReasonCapabilityNotAllowed \<or> has ReasonCapabilityExpiry then ''denied: capability validation failed''
          else ''denied by policy''
      | Some DecisionEscalate \<Rightarrow>
          if has ReasonContainmentActive then ''escalated: agent is restricted or contained''
          else if has ReasonTrustEscalate then ''escalated: low trust score or anomaly detected''
          else if has ReasonPolicyEscalate then ''escalated by explicit policy rule''
          else ''escalated: requires approval''
      | None \<Rightarrow> ''evaluation incomplete'')"

definition actionDigest :: "(string \<Rightarrow> string) \<Rightarrow> ActionRequest \<Rightarrow> string" where
  "actionDigest sha req =
     ''sha256:'' @ hex_EncodeToString (sha (lp_fields
       [''ovara-action-digest-v2'', rq_ActionType req, rq_Resource req, rq_Environment req, subject_of req,
        (case rq_CapabilityLease req of None \<Rightarrow> [] | Some l \<Rightarrow> cl_LeaseID l), rq_Metadata req]))"

definition buildReceiptStub :: "'r host \<Rightarrow> ActionRequest \<Rightarrow> string \<Rightarrow> float64 \<Rightarrow> ReceiptStub" where
  "buildReceiptStub h req policyVersion trustScore =
     \<lparr>rs_ActionDigest = actionDigest (ho_sha h) req, rs_ActionType = rq_ActionType req, rs_Resource = rq_Resource req,
      rs_PolicyVersion = policyVersion, rs_PolicyHash = [], rs_TrustContextScore = trustScore,
      rs_TrustEpoch = (case ho_Epoch h of
                         None \<Rightarrow> 0
                       | Some epoch \<Rightarrow> (case epoch 1 of Inl err \<Rightarrow> 0 | Inr ep \<Rightarrow> ep))\<rparr>"

definition refusal :: "ReasonCode \<Rightarrow> DecisionResponse" where
  "refusal reason =
     \<lparr>dr_Decision = DecisionDeny, dr_ReasonCodes = [reason], dr_TrustScore = 0, dr_TrustLevel = None,
      dr_RequiresApproval = False, dr_ReceiptStub = None, dr_TrustContext = None, dr_EvaluationSummary = [],
      dr_MatchedRule = []\<rparr>"

definition trust_context :: "TrustResult \<Rightarrow> TrustContext" where
  "trust_context tr =
     \<lparr>tc_Score = tr_Score tr, tc_Level = tr_Level tr, tc_AnomalySignals = tr_AnomalySignals tr,
      tc_ShieldActive = tr_ShieldActive tr, tc_Restricted = tr_Restricted tr, tc_RiskCount = tr_RiskCount tr\<rparr>"

text \<open>The stages after admission, on the trust result of the request.\<close>

definition decide :: "'r host \<Rightarrow> ActionRequest \<Rightarrow> TrustResult \<Rightarrow> 'r evaluator \<Rightarrow> verdict \<times> 'r evaluator" where
  "decide h req tr e =
     (let st = ev_policyStore e;
          actionRules = RulesForAction st (rq_ActionType req);
          envRules = RulesForEnvironment st (rq_Environment req);
          (v1, e1) =
            check_patterns h req (check_drift h req tr (check_lease h req (check_delegation h req
              (check_identity req (check_containment tr no_verdict), e))));
          outcome = layeredWith (ev_baseline e) st actionRules envRules req in
      (check_trust tr (check_minimums actionRules tr (apply_rules outcome req tr v1)), e1))"

definition respond :: "'r host \<Rightarrow> ActionRequest \<Rightarrow> TrustResult \<Rightarrow> verdict \<Rightarrow> string \<Rightarrow> string \<Rightarrow> DecisionResponse" where
  "respond h req tr v policyVersion policyHash =
     \<lparr>dr_Decision = the (vt_decision v), dr_ReasonCodes = vt_reasons v, dr_TrustScore = tr_Score tr,
      dr_TrustLevel = Some (tr_Level tr), dr_RequiresApproval = vt_requiresApproval v,
      dr_ReceiptStub = Some (buildReceiptStub h req policyVersion (tr_Score tr) \<lparr>rs_PolicyHash := policyHash\<rparr>),
      dr_TrustContext = Some (trust_context tr),
      dr_EvaluationSummary = buildEvaluationSummary (vt_decision v) (vt_reasons v),
      dr_MatchedRule = vt_matchedRule v\<rparr>"

definition evaluate :: "'r host \<Rightarrow> ActionRequest \<Rightarrow> 'r evaluator \<Rightarrow> DecisionResponse \<times> 'r evaluator" where
  "evaluate h req e0 =
     (case admit h req e0 of
        (Some reason, e) \<Rightarrow> (refusal reason, e)
      | (None, e) \<Rightarrow>
          let (policyHash, st) = Hash (ho_digest h) (ev_policyStore e);
              e1 = e \<lparr>ev_policyStore := st\<rparr>;
              (tr, shield) = trust_Evaluate (\<lambda>k. ho_clock h (10 + k)) req (Some (ev_shieldStore e1));
              e2 = e1 \<lparr>ev_shieldStore := the shield\<rparr>;
              (v, e3) = decide h req tr e2 in
          (respond h req tr v (st_version st) policyHash,
           e3 \<lparr>ev_shieldStore := record_outcome h req (vt_decision v) (ev_shieldStore e3)\<rparr>))"

section \<open>Simulation\<close>

record SimResult =
  si_Decision :: Decision
  si_Reason :: string
  si_RequiresApproval :: bool
  si_TrustScore :: float64
  si_TrustLevel :: "TrustLevel option"
  si_PolicyVersion :: string
  si_Passed :: bool
  si_MatchedRule :: string

definition Simulate :: "'r host \<Rightarrow> ActionRequest \<Rightarrow> store \<Rightarrow> 'r evaluator \<Rightarrow> SimResult \<times> 'r evaluator" where
  "Simulate h req candidate e =
     (if Validate req \<noteq> [] then
        (\<lparr>si_Decision = DecisionDeny, si_Reason = ''invalid request: '' @ hd (Validate req), si_RequiresApproval = False,
          si_TrustScore = 0, si_TrustLevel = None, si_PolicyVersion = [], si_Passed = False, si_MatchedRule = []\<rparr>, e)
      else
        let outcome = layeredRules (ev_baseline e) candidate req;
            (tr, shield) = trust_Evaluate (ho_clock h) req (Some (ev_shieldStore e));
            escalated = (ro_Escalate outcome \<or> ShouldEscalate tr) in
        (\<lparr>si_Decision = (if ro_Denied outcome then DecisionDeny else if escalated then DecisionEscalate else DecisionAllow),
          si_Reason = (if \<not> ro_Denied outcome \<and> \<not> ro_Escalate outcome \<and> ShouldEscalate tr
                       then ReasonTrustEscalate else ro_Reason outcome),
          si_RequiresApproval = (\<not> ro_Denied outcome \<and> escalated),
          si_TrustScore = tr_Score tr, si_TrustLevel = Some (tr_Level tr), si_PolicyVersion = st_version candidate,
          si_Passed = True, si_MatchedRule = ro_Rule outcome\<rparr>,
         e \<lparr>ev_shieldStore := the shield\<rparr>))"

record batch_entry =
  be_CurrentDecision :: Decision
  be_CandidateDecision :: Decision
  be_DecisionChanged :: bool
  be_CurrentReason :: string
  be_CandidateReason :: string
  be_RequiresApproval :: bool
  be_TrustScore :: float64
  be_TrustLevel :: "TrustLevel option"
  be_PolicyVersion :: string

fun SimulateBatch_loop ::
  "'r host \<Rightarrow> store \<Rightarrow> ActionRequest list \<Rightarrow> 'r evaluator \<Rightarrow> batch_entry list \<times> 'r evaluator" where
  "SimulateBatch_loop h candidate [] e = ([], e)"
| "SimulateBatch_loop h candidate (req # reqs) e =
     (let (cur, e1) = Simulate h req (ev_policyStore e) e;
          (cand, e2) = Simulate h req candidate e1;
          (rest, e3) = SimulateBatch_loop h candidate reqs e2 in
      (\<lparr>be_CurrentDecision = si_Decision cur, be_CandidateDecision = si_Decision cand,
        be_DecisionChanged = (si_Decision cur \<noteq> si_Decision cand), be_CurrentReason = si_Reason cur,
        be_CandidateReason = si_Reason cand, be_RequiresApproval = si_RequiresApproval cand,
        be_TrustScore = si_TrustScore cand, be_TrustLevel = si_TrustLevel cand,
        be_PolicyVersion = st_version candidate\<rparr> # rest, e3))"

record BatchSimResult =
  bs_Results :: "batch_entry list"
  bs_TotalCount :: nat
  bs_ChangedCount :: nat
  bs_UnchangedCount :: nat
  bs_PolicyVersion :: string

definition SimulateBatch :: "'r host \<Rightarrow> ActionRequest list \<Rightarrow> store \<Rightarrow> 'r evaluator \<Rightarrow> BatchSimResult \<times> 'r evaluator" where
  "SimulateBatch h reqs candidate e =
     (let (results, e') = SimulateBatch_loop h candidate reqs e;
          changed = length (filter be_DecisionChanged results) in
      (\<lparr>bs_Results = results, bs_TotalCount = length reqs, bs_ChangedCount = changed,
        bs_UnchangedCount = length reqs - changed, bs_PolicyVersion = st_version candidate\<rparr>, e'))"

definition ruleKey :: "string \<Rightarrow> string \<Rightarrow> string" where
  "ruleKey actionType environment = actionType @ '':'' @ environment"

definition rule_map :: "rule list \<Rightarrow> (string, rule) gomap" where
  "rule_map rs = fold (\<lambda>r m. AList.update (ruleKey (r_ActionType r) (r_Environment r)) r m) rs []"

record PolicyRuleChange =
  pc_ActionType :: string
  pc_Environment :: string
  pc_From :: rule
  pc_To :: rule

record PolicyDiff =
  pd_AddedRules :: "rule list"
  pd_RemovedRules :: "rule list"
  pd_ChangedRules :: "PolicyRuleChange list"
  pd_FromVersion :: string
  pd_ToVersion :: string

definition same_effect :: "rule \<Rightarrow> rule \<Rightarrow> bool" where
  "same_effect p c \<longleftrightarrow> r_Allow p = r_Allow c \<and> r_Deny p = r_Deny c \<and> r_Escalate p = r_Escalate c"

definition ComparePolicies :: "store \<Rightarrow> 'r evaluator \<Rightarrow> PolicyDiff" where
  "ComparePolicies candidate e =
     (let cur = rule_map (st_rules (ev_policyStore e)); cand = rule_map (st_rules candidate) in
      \<lparr>pd_AddedRules = map snd (filter (\<lambda>(k, c). map_of cur k = None) cand),
       pd_RemovedRules = map snd (filter (\<lambda>(k, p). map_of cand k = None) cur),
       pd_ChangedRules = List.map_filter (\<lambda>(k, c).
         (case map_of cur k of
            None \<Rightarrow> None
          | Some p \<Rightarrow> if same_effect p c then None
                      else Some \<lparr>pc_ActionType = r_ActionType c, pc_Environment = r_Environment c, pc_From = p, pc_To = c\<rparr>)) cand,
       pd_FromVersion = st_version (ev_policyStore e), pd_ToVersion = st_version candidate\<rparr>)"

end
