(* ===== verification/Trust_Properties.thy ===== *)
theory Trust_Properties
  imports Trust_Shield
begin

text \<open>
  The shield store against an abstract specification: whatever calls were made, the risk count of an agent is
  the number of its risk events inside the window, and a restriction set by an operator stays until the
  operator lifts it.
\<close>

section \<open>Runs of the shield\<close>

text \<open>\<open>OpQuery\<close> stands for the calls that only prune: risk counts, restrictions, statistics.\<close>

datatype shield_op =
    OpRecord string string
  | OpRestrict string string
  | OpUnrestrict string
  | OpQuery string
  | OpAuto string int
  | OpList

fun shield_exec :: "(nat \<Rightarrow> time) \<times> shield_op \<Rightarrow> ShieldStore \<Rightarrow> ShieldStore" where
  "shield_exec (clock, OpRecord a d) s = RecordDecision clock a d s"
| "shield_exec (clock, OpRestrict a reason) s = Restrict (clock 0) a reason s"
| "shield_exec (clock, OpUnrestrict a) s = Unrestrict a s"
| "shield_exec (clock, OpQuery a) s = pruneLocked clock a s"
| "shield_exec (clock, OpAuto a threshold) s = snd (AutoRestrictAfterRepeatedRisk clock a threshold s)"
| "shield_exec (clock, OpList) s = snd (GetAllRestricted clock s)"

definition shield_run :: "((nat \<Rightarrow> time) \<times> shield_op) list \<Rightarrow> ShieldStore \<Rightarrow> ShieldStore" where
  "shield_run ops s = fold shield_exec ops s"

definition risky :: "string \<Rightarrow> bool" where
  "risky decision \<longleftrightarrow> decision = ''deny'' \<or> decision = ''escalate''"

fun log_step :: "string \<Rightarrow> (nat \<Rightarrow> time) \<times> shield_op \<Rightarrow> time list \<Rightarrow> time list" where
  "log_step a (clock, OpRecord b d) ts = (if b = a \<and> risky d then ts @ [clock 1] else ts)"
| "log_step a (clock, OpUnrestrict b) ts = (if b = a then [] else ts)"
| "log_step a (clock, op) ts = ts"

text \<open>The risk events of an agent since its restrictions were last lifted.\<close>

definition risk_log :: "string \<Rightarrow> ((nat \<Rightarrow> time) \<times> shield_op) list \<Rightarrow> time list" where
  "risk_log a ops = fold (log_step a) ops []"

definition before :: "((nat \<Rightarrow> time) \<times> shield_op) list \<Rightarrow> time \<Rightarrow> bool" where
  "before ops t \<longleftrightarrow> (\<forall>(clock, op) \<in> set ops. \<forall>k. clock k \<le> t)"

definition recent :: "duration \<Rightarrow> time \<Rightarrow> time list \<Rightarrow> time list" where
  "recent w now ts = (if 0 < w then filter (\<lambda>t. now - w < t) ts else ts)"

lemma at0_update [simp]: "at0 z (AList.update k v m) k' = (if k' = k then v else at0 z m k')"
  by (simp add: at0_def)

lemma at0_delete [simp]: "at0 z (AList.delete k m) k' = (if k' = k then z else at0 z m k')"
  by (simp add: at0_def)

lemma lift_expired_fields [simp]:
  "sh_riskTimes (lift_expired now a s) = sh_riskTimes s" "sh_riskCounts (lift_expired now a s) = sh_riskCounts s"
  "sh_riskWindow (lift_expired now a s) = sh_riskWindow s" "sh_autoTTL (lift_expired now a s) = sh_autoTTL s"
  by (simp_all add: lift_expired_def split: option.splits)

lemma prune_risks_fields [simp]:
  "sh_restrictions (prune_risks now a s) = sh_restrictions s" "sh_riskWindow (prune_risks now a s) = sh_riskWindow s"
  by (simp_all add: prune_risks_def Let_def)

section \<open>Risk counts\<close>

text \<open>The stored times and the count of an agent, as the specification sees them.\<close>

definition risk_ok :: "ShieldStore \<Rightarrow> bool" where
  "risk_ok s \<longleftrightarrow> (\<forall>a. at0 0 (sh_riskCounts s) a = int (length (at0 [] (sh_riskTimes s) a)))"

lemma prune_times:
  assumes "risk_ok s"
  shows "at0 [] (sh_riskTimes (pruneLocked clock a s)) b =
      (if b = a then recent (sh_riskWindow s) (clock 0) (at0 [] (sh_riskTimes s) a) else at0 [] (sh_riskTimes s) b)"
    and "risk_ok (pruneLocked clock a s)"
  using assms by (auto simp: pruneLocked_def prune_risks_def risk_ok_def recent_def Let_def)

lemma recent_recent: "n \<le> t \<Longrightarrow> recent w t (recent w n ts) = recent w t ts"
  by (auto simp: recent_def intro: filter_cong)

lemma recent_snoc: "recent w t (ts @ [x]) = recent w t ts @ recent w t [x]"
  by (simp add: recent_def)

definition refines_log :: "duration \<Rightarrow> ((nat \<Rightarrow> time) \<times> shield_op) list \<Rightarrow> ShieldStore \<Rightarrow> bool" where
  "refines_log w ops s \<longleftrightarrow> risk_ok s \<and> sh_riskWindow s = w \<and>
     (\<forall>a t. before ops t \<longrightarrow> recent w t (at0 [] (sh_riskTimes s) a) = recent w t (risk_log a ops))"

lemma refines_log_prune:
  assumes "refines_log w ops s" "\<And>t. before ops' t \<Longrightarrow> before ops t \<and> clock 0 \<le> t" "\<And>a. risk_log a ops' = risk_log a ops"
  shows "refines_log w ops' (pruneLocked clock b s)"
proof -
  have "sh_riskWindow (pruneLocked clock b s) = w" using assms(1) by (simp add: refines_log_def pruneLocked_def)
  moreover have ok: "risk_ok s" using assms(1) by (simp add: refines_log_def)
  ultimately show ?thesis using assms prune_times [OF ok] by (simp add: refines_log_def recent_recent)
qed

lemma before_snoc: "before (ops @ [(clock, op)]) t \<longleftrightarrow> before ops t \<and> (\<forall>k. clock k \<le> t)"
  by (auto simp: before_def)

lemma risk_log_snoc: "risk_log a (ops @ [op]) = log_step a op (risk_log a ops)"
  by (simp add: risk_log_def)

lemma refines_log_list:
  assumes "refines_log w (ops @ [(clock, op)]) s" "\<And>a ts. log_step a (clock, op) ts = ts"
  shows "refines_log w (ops @ [(clock, op)]) (fold (pruneLocked clock) as s)"
  using assms(1)
proof (induction as arbitrary: s)
  case (Cons a as)
  have "refines_log w (ops @ [(clock, op)]) (pruneLocked clock a s)"
    by (rule refines_log_prune [OF Cons.prems]) (auto simp: before_snoc)
  then show ?case using Cons.IH by simp
qed simp

lemma refines_log_same:
  assumes "refines_log w ops s" "\<And>t. before ops' t \<Longrightarrow> before ops t" "\<And>a. risk_log a ops' = risk_log a ops"
    "sh_riskTimes s' = sh_riskTimes s" "sh_riskCounts s' = sh_riskCounts s" "sh_riskWindow s' = sh_riskWindow s"
  shows "refines_log w ops' s'"
  using assms by (simp add: refines_log_def risk_ok_def)

lemma refines_log_step:
  assumes "refines_log w ops s"
  shows "refines_log w (ops @ [(clock, op)]) (shield_exec (clock, op) s)"
proof (cases op)
  case (OpRecord a d)
  then show ?thesis using assms
    by (auto simp: refines_log_def risk_ok_def RecordDecision_def risky_def Let_def before_snoc risk_log_snoc recent_snoc)
next
  case (OpRestrict a r)
  then show ?thesis by (intro refines_log_same [OF assms]) (simp_all add: before_snoc risk_log_snoc Restrict_def)
next
  case (OpUnrestrict a)
  then show ?thesis using assms
    by (auto simp: refines_log_def risk_ok_def Unrestrict_def before_snoc risk_log_snoc)
next
  case (OpQuery a)
  then show ?thesis
    by simp (intro refines_log_prune [OF assms]; simp add: before_snoc risk_log_snoc)
next
  case (OpAuto a n)
  have "refines_log w (ops @ [(clock, op)]) (pruneLocked clock a s)"
    by (intro refines_log_prune [OF assms]) (simp_all add: before_snoc risk_log_snoc OpAuto)
  then show ?thesis
    by (rule refines_log_same) (simp_all add: OpAuto AutoRestrictAfterRepeatedRisk_def Let_def)
next
  case OpList
  have "refines_log w (ops @ [(clock, op)]) s"
    by (rule refines_log_same [OF assms]) (simp_all add: before_snoc risk_log_snoc OpList)
  then show ?thesis using refines_log_list OpList by (simp add: GetAllRestricted_def Let_def)
qed

lemma refines_log_run: "refines_log w ops (shield_run ops (SetRiskWindow w NewShieldStore))"
proof (induction ops rule: rev_induct)
  case Nil
  then show ?case
    by (simp add: shield_run_def refines_log_def risk_ok_def SetRiskWindow_def NewShieldStore_def at0_def risk_log_def)
next
  case (snoc op ops)
  then show ?case using refines_log_step by (cases op) (simp add: shield_run_def)
qed

text \<open>C17: 
  After any calls to a store with a risk window, the risk count of an agent is the number of its denied or
  escalated decisions since the last time its restrictions were lifted that are younger than the window; with
  no window it is the number of all of them. The clock must not run backwards between calls.
\<close>

theorem risk_count_refines_log:
  assumes "before ops (clock 0)"
  shows "fst (GetRiskCount clock a (shield_run ops (SetRiskWindow w NewShieldStore))) =
    int (length (recent w (clock 0) (risk_log a ops)))"
proof -
  let ?s = "shield_run ops (SetRiskWindow w NewShieldStore)"
  have s: "risk_ok ?s" "sh_riskWindow ?s = w"
    "recent w (clock 0) (at0 [] (sh_riskTimes ?s) a) = recent w (clock 0) (risk_log a ops)"
    using refines_log_run assms by (auto simp: refines_log_def)
  have "at0 0 (sh_riskCounts (pruneLocked clock a ?s)) a = int (length (at0 [] (sh_riskTimes (pruneLocked clock a ?s)) a))"
    using prune_times(2) [OF s(1)] by (auto simp: risk_ok_def)
  then show ?thesis using prune_times(1) [OF s(1), of clock a a] s(2,3) by (simp add: GetRiskCount_def Let_def)
qed

theorem risk_count_refines_log_witness:
  "fst (GetRiskCount (\<lambda>k. 200) ''a'' (shield_run
     [(\<lambda>k. 10, OpRecord ''a'' ''deny''), (\<lambda>k. 150, OpRecord ''a'' ''deny''), (\<lambda>k. 160, OpRecord ''b'' ''deny'')]
     (SetRiskWindow 100 NewShieldStore))) = 1"
proof -
  have "before [(\<lambda>k. 10, OpRecord ''a'' ''deny''), (\<lambda>k. 150, OpRecord ''a'' ''deny''), (\<lambda>k. 160, OpRecord ''b'' ''deny'')]
      ((\<lambda>k. 200) 0)"
    by (simp add: before_def)
  then show ?thesis by (subst risk_count_refines_log) (simp_all add: risk_log_def risky_def recent_def)
qed

section \<open>Restrictions\<close>

definition held :: "string \<Rightarrow> ShieldStore \<Rightarrow> bool" where
  "held a s \<longleftrightarrow> (\<exists>r. map_of (sh_restrictions s) a = Some r \<and> rn_Restricted r \<and> rn_ExpiresAt r = 0)"

lemma held_prune: "held a s \<Longrightarrow> held a (pruneLocked clock b s)"
  by (auto simp: held_def pruneLocked_def lift_expired_def IsZero_def split: option.splits)

lemma held_step:
  assumes "held a s" "op \<noteq> OpUnrestrict a"
  shows "held a (shield_exec (clock, op) s)"
proof (cases op)
  case (OpAuto b n)
  have "held a (pruneLocked clock b s)" by (rule held_prune [OF assms(1)])
  then show ?thesis by (auto simp: OpAuto AutoRestrictAfterRepeatedRisk_def Let_def held_def)
next
  case OpList
  have "held a (fold (pruneLocked clock) as s)" for as
    using assms(1) by (induction as arbitrary: s) (simp_all add: held_prune)
  then show ?thesis by (simp add: OpList GetAllRestricted_def Let_def)
qed (use assms held_prune in \<open>auto simp: RecordDecision_def Restrict_def Unrestrict_def held_def Let_def\<close>)

lemma held_run: "held a s \<Longrightarrow> \<forall>clock. (clock, OpUnrestrict a) \<notin> set ops \<Longrightarrow> held a (shield_run ops s)"
  unfolding shield_run_def
proof (induction ops arbitrary: s)
  case (Cons op ops)
  obtain clock o' where op: "op = (clock, o')" by (cases op)
  then have "o' \<noteq> OpUnrestrict a" using Cons.prems(2) by auto
  then have "held a (shield_exec op s)" using held_step Cons.prems(1) op by blast
  then show ?case using Cons.IH Cons.prems(2) by simp
qed simp

text \<open>
  A restriction an operator sets holds until an operator lifts it: whatever calls follow, as long as none of
  them unrestricts this agent, the score of every request of the agent says that it is restricted. No expiry
  and no automatic restriction replaces it.
\<close>

theorem manual_restriction_holds:
  assumes "\<forall>clock. (clock, OpUnrestrict a) \<notin> set ops" "trust_agent req = a" "a \<noteq> []"
  shows "tr_Restricted (fst (trust_Evaluate clock req (Some (shield_run ops (Restrict now a reason s)))))"
proof -
  have "held a (Restrict now a reason s)" by (simp add: held_def Restrict_def)
  then have "held a (shield_run ops (Restrict now a reason s))" using held_run assms(1) by blast
  then have "fst (GetRestriction clock a (shield_run ops (Restrict now a reason s))) \<noteq> None"
    using held_prune by (fastforce simp: GetRestriction_def Let_def held_def)
  then have "tr_Restricted (fst (shield_penalties clock a r (shield_run ops (Restrict now a reason s))))" for r
    by (auto simp: shield_penalties_def penalize_def Let_def split: prod.splits)
  moreover have "tr_Restricted (request_penalties q r) = tr_Restricted r" for q r
  proof -
    have "tr_Restricted (fold (\<lambda>s. penalize [s] x) ss r) = tr_Restricted r" for ss x r
      by (induction ss arbitrary: r) (simp_all add: penalize_def)
    then show ?thesis by (simp add: request_penalties_def penalize_if_def penalize_def split: option.splits)
  qed
  ultimately show ?thesis using assms(2,3) by (simp add: trust_Evaluate_def Let_def split: prod.splits) (metis fst_conv)
qed

definition shell_request :: ActionRequest where
  "shell_request = \<lparr>rq_ActionType = ''shell'', rq_Resource = ''ls'',
     rq_AgentIdentity = Some \<lparr>ai_Issuer = ''root'', ai_SubjectID = ''agent'', ai_Owner = [], ai_Lifecycle = [], ai_VerifyKey = []\<rparr>,
     rq_CapabilityLease = None, rq_DelegationChain = None, rq_Environment = ''dev'', rq_Metadata = [],
     rq_Nonce = ''n1'', rq_IssuedAt = 100000000000, rq_MinEpoch = 0\<rparr>"

theorem manual_restriction_holds_witness:
  "tr_Restricted (fst (trust_Evaluate (\<lambda>k. 9000) shell_request (Some (shield_run
     [(\<lambda>k. 20, OpRecord ''agent'' ''allow''), (\<lambda>k. 30, OpUnrestrict ''other''), (\<lambda>k. 40, OpAuto ''agent'' 0)]
     (Restrict 10 ''agent'' ''review'' NewShieldStore)))))"
  by (rule manual_restriction_holds) (simp_all add: trust_agent_def shell_request_def)

end
