(* ===== verification/Evaluator_Properties.thy ===== *)
theory Evaluator_Properties
  imports Evaluator_Decide Identity_Properties Trust_Properties Policy_Precedence
begin

text \<open>
  What a decision of the evaluator means: what an allow rests on, that a request is admitted at most once, how
  containment changes the answer, and how the shield reacts to denials.
\<close>

section \<open>The stages\<close>

lemma deny_with_simps [simp]:
  "vt_decision (deny_with rs v) = Some DecisionDeny" "vt_reasons (deny_with rs v) = vt_reasons v @ rs"
  "vt_requiresApproval (deny_with rs v) = vt_requiresApproval v"
  by (simp_all add: deny_with_def)

lemma escalate_with_simps [simp]:
  "vt_decision (escalate_with rs v) = Some DecisionEscalate" "vt_reasons (escalate_with rs v) = vt_reasons v @ rs"
  "vt_requiresApproval (escalate_with rs v)"
  by (simp_all add: escalate_with_def)

lemma no_verdict_decision [simp]: "vt_decision no_verdict = None"
  by (simp add: no_verdict_def)

lemma stage_keeps_decision:
  assumes "vt_decision v \<noteq> None"
  shows "check_identity req v = v" "check_delegation h req (v, e) = (v, e)" "check_lease h req (v, e) = (v, e)"
    "check_drift h req tr (v, e) = (v, e)" "check_patterns h req (v, e) = (v, e)" "apply_rules outcome req tr v = v"
  using assms
  by (auto simp: check_identity_def check_delegation_def check_lease_def check_drift_def check_patterns_def apply_rules_def
      split: option.splits)

lemma check_drift_decision:
  "vt_decision (fst (check_drift h req tr ve)) \<in> {vt_decision (fst ve), Some DecisionEscalate}"
  by (cases ve) (auto simp: check_drift_def Let_def split: option.splits)

lemma check_patterns_decision:
  "vt_decision (fst (check_patterns h req ve)) \<in> {vt_decision (fst ve), Some DecisionEscalate}"
  by (cases ve) (auto simp: check_patterns_def Let_def split: option.splits)

text \<open>What the stages before the rules require of a request that reaches them undecided.\<close>

definition delegation_ok :: "'r host \<Rightarrow> ActionRequest \<Rightarrow> 'r evaluator \<Rightarrow> bool" where
  "delegation_ok h req e \<longleftrightarrow>
     (rq_DelegationChain req = None \<or>
      vr_Valid (fst (ValidateDelegationChain (ho_verify h) (ho_sha h) (\<lambda>k. ho_clock h (20 + k)) (ev_validator e)
        (rq_DelegationChain req) (subject_of req) (Some (markDelegationNonce h)) e)) \<and>
      ActionInScope (rq_ActionType req) (fst (TerminalCapability (rq_DelegationChain req))) \<and>
      scopeMatches (snd (TerminalCapability (rq_DelegationChain req))) (rq_Resource req))"

definition lease_ok :: "'r host \<Rightarrow> ActionRequest \<Rightarrow> Validator \<Rightarrow> bool" where
  "lease_ok h req vd \<longleftrightarrow>
     (case rq_CapabilityLease req of
        None \<Rightarrow> True
      | Some l \<Rightarrow>
          (case ho_IsRevoked h of None \<Rightarrow> True | Some revoked \<Rightarrow> \<not> revoked (cl_LeaseID l)) \<and>
          vr_Valid (ValidateCapabilityLease (ho_verify h) (ho_clock h 40) vd (Some l)) \<and>
          rq_AgentIdentity req \<noteq> None \<and> cl_Subject l = subject_of req \<and>
          vr_Valid (ValidateCapabilityLeaseScope (Some l) (rq_ActionType req) (rq_Resource req)))"

lemma check_identity_undecided:
  "vt_decision (check_identity req v) = None \<longleftrightarrow>
     vt_decision v = None \<and> vr_Valid (ValidateAgentIdentity (rq_AgentIdentity req))"
  by (auto simp: check_identity_def Let_def)

lemma check_delegation_undecided:
  "vt_decision (fst (check_delegation h req (v, e))) = None \<longleftrightarrow> vt_decision v = None \<and> delegation_ok h req e"
  by (auto simp: check_delegation_def delegation_ok_def split: prod.splits)

lemma check_lease_undecided:
  "vt_decision (fst (check_lease h req (v, e))) = None \<longleftrightarrow> vt_decision v = None \<and> lease_ok h req (ev_validator e)"
  by (auto simp: check_lease_def lease_ok_def Let_def split: option.splits)

text \<open>The marker changes only the nonce caches and the replay store, so the validator stays the one configured.\<close>

lemma markDelegationNonce_validator: "ev_validator (snd (markDelegationNonce h k t e)) = ev_validator e"
  by (auto simp: markDelegationNonce_def Let_def split: option.splits prod.splits)

lemma check_delegation_validator: "ev_validator (snd (check_delegation h req (v, e))) = ev_validator e"
proof -
  have "ev_validator (snd (ValidateDelegationChain verify sha clock vd chain subject (Some (markDelegationNonce h)) e)) = ev_validator e"
    for verify sha clock vd chain subject
    using markDelegationNonce_validator [of h]
    by (auto simp: ValidateDelegationChain_def Let_def split: option.splits prod.splits) (metis snd_conv)+
  then show ?thesis by (auto simp: check_delegation_def split: prod.splits) (metis snd_conv)+
qed

lemma decide_allow:
  assumes "vt_decision (fst (decide h req tr e)) = Some DecisionAllow"
  defines "outcome \<equiv> layeredRules (ev_baseline e) (ev_policyStore e) req"
  shows "\<not> tr_Restricted tr \<and> vr_Valid (ValidateAgentIdentity (rq_AgentIdentity req)) \<and> delegation_ok h req e \<and>
    lease_ok h req (ev_validator e) \<and> \<not> ro_Denied outcome \<and> \<not> ro_Escalate outcome \<and>
    (ro_LeaseRequired outcome \<longrightarrow> rq_CapabilityLease req \<noteq> None) \<and>
    \<not> list_ex (below_minimum tr) (RulesForAction (ev_policyStore e) (rq_ActionType req)) \<and> \<not> ShouldEscalate tr"
proof -
  define v0 where "v0 = check_containment tr no_verdict"
  define ve1 where "ve1 = check_delegation h req (check_identity req v0, e)"
  define ve2 where "ve2 = check_lease h req ve1"
  define ve4 where "ve4 = check_patterns h req (check_drift h req tr ve2)"
  define v5 where "v5 = apply_rules outcome req tr (fst ve4)"
  define rules where "rules = RulesForAction (ev_policyStore e) (rq_ActionType req)"
  have dec: "vt_decision (check_trust tr (check_minimums rules tr v5)) = Some DecisionAllow"
    using assms(1) unfolding v5_def ve4_def ve2_def ve1_def v0_def outcome_def rules_def
    by (simp add: decide_def layeredRules_def Let_def split: prod.splits)
  then have allow5: "vt_decision v5 = Some DecisionAllow" and mins: "\<not> list_ex (below_minimum tr) rules"
    and trust: "\<not> ShouldEscalate tr"
    by (auto simp: check_trust_def check_minimums_def split: if_splits)
  have escapes: "vt_decision (fst ve4) \<noteq> Some DecisionAllow"
  proof -
    have "vt_decision v0 \<noteq> Some DecisionAllow" by (simp add: v0_def check_containment_def)
    then have "vt_decision (check_identity req v0) \<noteq> Some DecisionAllow" by (simp add: check_identity_def Let_def)
    then have "vt_decision (fst ve1) \<noteq> Some DecisionAllow"
      by (auto simp: ve1_def check_delegation_def split: prod.splits)
    then have "vt_decision (fst ve2) \<noteq> Some DecisionAllow"
      by (cases ve1) (auto simp: ve2_def check_lease_def Let_def split: option.splits)
    then show ?thesis
      using check_drift_decision [of h req tr ve2] check_patterns_decision [of h req "check_drift h req tr ve2"]
      by (auto simp: ve4_def)
  qed
  then have und4: "vt_decision (fst ve4) = None"
    using allow5 stage_keeps_decision(6) [of "fst ve4" outcome req tr] by (cases "vt_decision (fst ve4)") (auto simp: v5_def)
  then have und2: "vt_decision (fst ve2) = None"
    using check_drift_decision [of h req tr ve2] check_patterns_decision [of h req "check_drift h req tr ve2"]
    by (auto simp: ve4_def)
  then have und1: "vt_decision (fst ve1) = None" and lease: "lease_ok h req (ev_validator e)"
    using check_lease_undecided [of h req "fst ve1" "snd ve1"] check_delegation_validator [of h req "check_identity req v0" e]
    by (simp_all add: ve2_def ve1_def)
  then have "vt_decision v0 = None" "vr_Valid (ValidateAgentIdentity (rq_AgentIdentity req))" "delegation_ok h req e"
    by (simp_all add: ve1_def check_delegation_undecided check_identity_undecided)
  moreover have "\<not> tr_Restricted tr" using calculation(1) by (auto simp: v0_def check_containment_def)
  moreover have "\<not> ro_Denied outcome \<and> \<not> ro_Escalate outcome \<and> (ro_LeaseRequired outcome \<longrightarrow> rq_CapabilityLease req \<noteq> None)"
    using allow5 und4 by (auto simp: v5_def apply_rules_def Let_def split: if_splits)
  ultimately show ?thesis using lease mins trust by (simp add: rules_def)
qed

section \<open>What an allow rests on\<close>

lemma rules_ignore_hash [simp]:
  "RulesForAction (s \<lparr>st_hash := x\<rparr>) = RulesForAction s" "RulesForEnvironment (s \<lparr>st_hash := x\<rparr>) = RulesForEnvironment s"
  by (auto simp: RulesForAction_def RulesForEnvironment_def fun_eq_iff)

lemma layeredRules_ignore_hash: "layeredRules base (s \<lparr>st_hash := x\<rparr>) req = layeredRules base s req"
proof -
  have settings: "DefaultDecision (s \<lparr>st_hash := x\<rparr>) = DefaultDecision s" "Precedence (s \<lparr>st_hash := x\<rparr>) = Precedence s"
    by (simp_all add: DefaultDecision_def Precedence_def)
  have "matching (s \<lparr>st_hash := x\<rparr>) = matching s"
    by (rule ext) (simp add: matching_def RulesFor_def)
  moreover have "decideSpecific (s \<lparr>st_hash := x\<rparr>) = decideSpecific s"
    by (intro ext) (simp only: decideSpecific_def settings)
  ultimately have one: "evaluateOneResource (s \<lparr>st_hash := x\<rparr>) = evaluateOneResource s"
    by (intro ext) (simp only: evaluateOneResource_def evaluateMostSpecific_def settings)
  show ?thesis by (simp only: layeredRules_def layeredWith_def evaluateWithStore_def rules_ignore_hash one)
qed

lemma Hash_store: "snd (Hash d s) = s \<lparr>st_hash := st_hash (snd (Hash d s))\<rparr>"
  by (simp add: Hash_def Let_def)

lemma admit_frame:
  assumes "admit h req e0 = (res, e)"
  shows "ev_policyStore e = ev_policyStore e0" "ev_baseline e = ev_baseline e0" "ev_validator e = ev_validator e0"
    "ev_shieldStore e = ev_shieldStore e0"
proof -
  have nonce: "ev_policyStore e2 = ev_policyStore e1 \<and> ev_baseline e2 = ev_baseline e1 \<and> ev_validator e2 = ev_validator e1 \<and>
      ev_shieldStore e2 = ev_shieldStore e1" if "consumeNonce h t n e1 = (b, e2)" for t n b and e1 e2 :: "'a evaluator"
    using that by (auto simp: consumeNonce_def cacheNonce_def Let_def split: if_splits option.splits prod.splits)
  have "e = e0 \<or> (\<exists>t n b. consumeNonce h t n e0 = (b, e))"
    using assms by (auto simp: admit_def Let_def split: if_splits prod.splits bool.splits)
  with nonce show "ev_policyStore e = ev_policyStore e0" "ev_baseline e = ev_baseline e0" "ev_validator e = ev_validator e0"
    "ev_shieldStore e = ev_shieldStore e0" by blast+
qed

lemma admit_None:
  assumes "admit h req e0 = (None, e)"
  shows "Validate req = []" "\<bar>rq_IssuedAt req - ho_clock h 0\<bar> \<le> maxClockSkew"
    "consumeNonce h (ho_clock h 0) (rq_Nonce req) e0 = (True, e)"
    "rq_MinEpoch req = 0 \<or> (\<exists>epoch ep. ho_Epoch h = Some epoch \<and> epoch 0 = Inr ep \<and> rq_MinEpoch req \<le> ep)"
  using assms
  by (auto simp: admit_def Let_def split: if_splits option.splits prod.splits bool.splits sum.splits)

text \<open>An admitted request: its trust result, the state its stages start from, and the answer.\<close>

definition request_trust :: "'r host \<Rightarrow> ActionRequest \<Rightarrow> 'r evaluator \<Rightarrow> TrustResult" where
  "request_trust h req e = fst (trust_Evaluate (\<lambda>k. ho_clock h (10 + k)) req (Some (ev_shieldStore e)))"

definition after_trust :: "'r host \<Rightarrow> ActionRequest \<Rightarrow> 'r evaluator \<Rightarrow> 'r evaluator" where
  "after_trust h req e = e \<lparr>ev_policyStore := snd (Hash (ho_digest h) (ev_policyStore e)),
     ev_shieldStore := the (snd (trust_Evaluate (\<lambda>k. ho_clock h (10 + k)) req (Some (ev_shieldStore e))))\<rparr>"

lemma evaluate_admitted:
  assumes "admit h req e0 = (None, e)"
  shows "evaluate h req e0 =
    (respond h req (request_trust h req e) (fst (decide h req (request_trust h req e) (after_trust h req e)))
       (st_version (ev_policyStore e)) (fst (Hash (ho_digest h) (ev_policyStore e))),
     (snd (decide h req (request_trust h req e) (after_trust h req e)))
       \<lparr>ev_shieldStore := record_outcome h req (vt_decision (fst (decide h req (request_trust h req e) (after_trust h req e))))
          (ev_shieldStore (snd (decide h req (request_trust h req e) (after_trust h req e))))\<rparr>)"
  using assms
  by (simp add: evaluate_def request_trust_def after_trust_def Let_def Hash_def split: prod.splits)

lemma decide_decided: "vt_decision (fst (decide h req tr e)) \<noteq> None"
proof -
  have "vt_decision (apply_rules outcome req tr v) \<noteq> None" for outcome v
    by (simp add: apply_rules_def Let_def)
  then show ?thesis
    by (auto simp: decide_def check_trust_def check_minimums_def Let_def split: prod.splits)
qed

text \<open>C1: 
  An allow rests on every check at once. The request is well formed and issued within a minute of the clock,
  its nonce was consumed, the revocation epoch it asks for is reached, its agent is not restricted and has a
  valid identity; a delegation chain in it passes every check for this agent and covers the action and the
  resource; a lease in it is unrevoked, valid, bound to the agent and covers both; the layered rules neither
  deny nor escalate and any lease they require is there; and the trust score meets the minimum of every rule
  of the action and asks for no review.
\<close>

theorem allow_rests_on_every_check:
  assumes "evaluate h req e0 = (resp, e')" "dr_Decision resp = DecisionAllow"
  shows "\<exists>tr. Validate req = [] \<and> \<bar>rq_IssuedAt req - ho_clock h 0\<bar> \<le> 60 * Second \<and>
    fst (consumeNonce h (ho_clock h 0) (rq_Nonce req) e0) \<and>
    (rq_MinEpoch req = 0 \<or> (\<exists>epoch ep. ho_Epoch h = Some epoch \<and> epoch 0 = Inr ep \<and> rq_MinEpoch req \<le> ep)) \<and>
    tr = fst (trust_Evaluate (\<lambda>k. ho_clock h (10 + k)) req (Some (ev_shieldStore e0))) \<and>
    \<not> tr_Restricted tr \<and> vr_Valid (ValidateAgentIdentity (rq_AgentIdentity req)) \<and>
    (case rq_DelegationChain req of
       None \<Rightarrow> True
     | Some c \<Rightarrow>
         checks_pass (ho_verify h) (ho_sha h) (\<lambda>k. ho_clock h (20 + k)) (ev_validator e0) c (subject_of req) \<and>
         ActionInScope (rq_ActionType req) (fst (TerminalCapability (Some c))) \<and>
         scopeMatches (snd (TerminalCapability (Some c))) (rq_Resource req)) \<and>
    lease_ok h req (ev_validator e0) \<and>
    \<not> ro_Denied (layeredRules (ev_baseline e0) (ev_policyStore e0) req) \<and>
    \<not> ro_Escalate (layeredRules (ev_baseline e0) (ev_policyStore e0) req) \<and>
    (ro_LeaseRequired (layeredRules (ev_baseline e0) (ev_policyStore e0) req) \<longrightarrow> rq_CapabilityLease req \<noteq> None) \<and>
    \<not> list_ex (below_minimum tr) (RulesForAction (ev_policyStore e0) (rq_ActionType req)) \<and> \<not> ShouldEscalate tr"
proof -
  obtain e where adm: "admit h req e0 = (None, e)"
    using assms by (auto simp: evaluate_def refusal_def split: prod.splits option.splits)
  define tr where "tr = request_trust h req e"
  define e2 where "e2 = after_trust h req e"
  note frame = admit_frame [OF adm]
  have "dr_Decision resp = the (vt_decision (fst (decide h req tr e2)))"
    using assms(1) by (auto simp: evaluate_admitted [OF adm] respond_def tr_def e2_def)
  then have allow: "vt_decision (fst (decide h req tr e2)) = Some DecisionAllow"
    using assms(2) decide_decided by (metis option.collapse)
  have store: "ev_policyStore e2 = ev_policyStore e0 \<lparr>st_hash := st_hash (ev_policyStore e2)\<rparr>"
    using Hash_store frame(1) by (simp add: e2_def after_trust_def)
  have same: "layeredRules (ev_baseline e2) (ev_policyStore e2) req = layeredRules (ev_baseline e0) (ev_policyStore e0) req"
    "RulesForAction (ev_policyStore e2) = RulesForAction (ev_policyStore e0)"
    using frame(2) by (subst store; simp add: layeredRules_ignore_hash e2_def after_trust_def)+
  have vd: "ev_validator e2 = ev_validator e0" using frame(3) by (simp add: e2_def after_trust_def)
  have tr: "tr = fst (trust_Evaluate (\<lambda>k. ho_clock h (10 + k)) req (Some (ev_shieldStore e0)))"
    using frame(4) by (simp add: tr_def request_trust_def)
  show ?thesis
    using decide_allow [OF allow] admit_None [OF adm] valid_chain_checks
    by (intro exI [of _ tr]) (auto simp: same vd maxClockSkew_def delegation_ok_def tr [symmetric] split: option.splits)
qed

section \<open>Replays\<close>

definition eval_run :: "('r host \<times> ActionRequest) list \<Rightarrow> 'r evaluator \<Rightarrow> 'r evaluator" where
  "eval_run steps e = fold (\<lambda>(h, req) e. snd (evaluate h req e)) steps e"

text \<open>The stages after admission leave the request nonces alone.\<close>

definition same_nonces :: "'r evaluator \<Rightarrow> 'r evaluator \<Rightarrow> bool" where
  "same_nonces e e' \<longleftrightarrow> ev_nonceCache e' = ev_nonceCache e \<and> (ev_replayStore e' = None \<longleftrightarrow> ev_replayStore e = None)"

lemma same_nonces_trans: "same_nonces e1 e2 \<Longrightarrow> same_nonces e2 e3 \<Longrightarrow> same_nonces e1 e3"
  by (simp add: same_nonces_def)

lemma mark_same_nonces: "markDelegationNonce h k t e = (m, e') \<Longrightarrow> same_nonces e e'"
  by (auto simp: markDelegationNonce_def same_nonces_def Let_def split: option.splits prod.splits if_splits)

lemma chain_same_nonces:
  "ValidateDelegationChain verify sha clock vd chain subject (Some (markDelegationNonce h)) e = (r, e') \<Longrightarrow> same_nonces e e'"
  using mark_same_nonces [of h]
  by (auto simp: ValidateDelegationChain_def Let_def same_nonces_def split: option.splits prod.splits if_splits)

lemma stages_same_nonces:
  "same_nonces (snd ve) (snd (check_delegation h req ve))" "same_nonces (snd ve) (snd (check_lease h req ve))"
  "same_nonces (snd ve) (snd (check_drift h req tr ve))" "same_nonces (snd ve) (snd (check_patterns h req ve))"
proof -
  have refl: "same_nonces e e" for e :: "'a evaluator" by (simp add: same_nonces_def)
  show "same_nonces (snd ve) (snd (check_delegation h req ve))"
    by (cases ve) (auto simp: check_delegation_def refl dest: chain_same_nonces split: prod.splits)
  show "same_nonces (snd ve) (snd (check_lease h req ve))"
    by (cases ve) (auto simp: check_lease_def Let_def same_nonces_def split: option.splits)
  show "same_nonces (snd ve) (snd (check_drift h req tr ve))"
    by (cases ve) (auto simp: check_drift_def Let_def same_nonces_def split: option.splits)
  show "same_nonces (snd ve) (snd (check_patterns h req ve))"
    by (cases ve) (auto simp: check_patterns_def Let_def same_nonces_def split: option.splits)
qed

lemma decide_same_nonces: "same_nonces e (snd (decide h req tr e))"
proof -
  let ?a = "check_delegation h req (check_identity req (check_containment tr no_verdict), e)"
  have "same_nonces e (snd ?a)" using stages_same_nonces(1) [of "(check_identity req (check_containment tr no_verdict), e)"] by simp
  then have "same_nonces e (snd (check_patterns h req (check_drift h req tr (check_lease h req ?a))))"
    by (intro same_nonces_trans [OF _ stages_same_nonces(4)] same_nonces_trans [OF _ stages_same_nonces(3)]
        same_nonces_trans [OF _ stages_same_nonces(2)])
  then show ?thesis by (auto simp: decide_def Let_def split: prod.splits)
qed

lemma evaluate_same_nonces:
  assumes "admit h req e0 = (res, e)"
  shows "same_nonces e (snd (evaluate h req e0))"
proof (cases res)
  case None
  then have adm: "admit h req e0 = (None, e)" using assms by simp
  have "same_nonces (after_trust h req e) (snd (decide h req (request_trust h req e) (after_trust h req e)))"
    by (rule decide_same_nonces)
  then show ?thesis by (simp add: evaluate_admitted [OF adm] same_nonces_def after_trust_def)
next
  case (Some r)
  then show ?thesis using assms by (simp add: evaluate_def same_nonces_def)
qed

text \<open>The nonce of a request admitted at \<open>t1\<close> is remembered for five minutes.\<close>

definition remembered :: "string \<Rightarrow> time \<Rightarrow> time \<Rightarrow> 'r evaluator \<Rightarrow> bool" where
  "remembered nonce t1 now e \<longleftrightarrow> ev_replayStore e = None \<and> map_ok (ev_nonceCache e) \<and>
     (t1 + nonceTTL \<le> now \<or> (\<exists>t. map_of (ev_nonceCache e) nonce = Some t \<and> t1 \<le> t))"

lemma remembered_same: "remembered n t1 now e \<Longrightarrow> same_nonces e e' \<Longrightarrow> remembered n t1 now e'"
  by (simp add: remembered_def same_nonces_def)

lemma map_of_filter_key:
  "map_ok m \<Longrightarrow> map_of (filter (\<lambda>(k, v). P k v) m) k = (case map_of m k of None \<Rightarrow> None | Some v \<Rightarrow> if P k v then Some v else None)"
  by (induction m) (auto simp: map_ok_def map_of_eq_None_iff split: option.splits)

lemma map_ok_filter: "map_ok m \<Longrightarrow> map_ok (filter P m)"
  by (simp add: map_ok_def distinct_map_filter)

lemma ttl_reached: "\<not> time_Sub now t < nonceTTL \<longleftrightarrow> t + nonceTTL \<le> now"
  by (subst time_Sub_less_iff) (auto simp: nonceTTL_def)

lemma cacheNonce_remembers:
  assumes "cacheNonce now nonce e = (b, e')" "ev_replayStore e = None" "map_ok (ev_nonceCache e)" "t1 \<le> now"
    and "nonce = n \<and> b \<or> remembered n t1 now e"
  shows "remembered n t1 now e'"
proof (cases b)
  case False
  then have "e' = e" using assms(1) by (auto simp: cacheNonce_def Let_def split: if_splits)
  then show ?thesis using assms(5) False by simp
next
  case True
  define cache where "cache = AList.update nonce now (ev_nonceCache e)"
  have ok: "map_ok cache" using assms(3) by (simp add: cache_def)
  have e': "e' = (if ev_nonceSweepAt e < now then
        e \<lparr>ev_nonceCache := filter (\<lambda>(n, seenAt). \<not> nonceTTL \<le> time_Sub now seenAt) cache, ev_nonceSweepAt := now + 60 * Second\<rparr>
      else e \<lparr>ev_nonceCache := cache\<rparr>)"
    using assms(1) True by (auto simp: cacheNonce_def cache_def Let_def split: if_splits)
  have kept: "t1 + nonceTTL \<le> now \<or> (\<exists>t. map_of cache n = Some t \<and> t1 \<le> t)"
    using assms(4,5) by (auto simp: cache_def remembered_def)
  show ?thesis
  proof (cases "ev_nonceSweepAt e < now")
    case True
    have "map_of (filter (\<lambda>(n, seenAt). \<not> nonceTTL \<le> time_Sub now seenAt) cache) n = Some t"
      if "map_of cache n = Some t" "\<not> t + nonceTTL \<le> now" for t
      using that map_of_filter_key [OF ok, of "\<lambda>k s. \<not> nonceTTL \<le> time_Sub now s" n] ttl_reached [of now t] by simp
    then have "t1 + nonceTTL \<le> now \<or>
        (\<exists>t. map_of (filter (\<lambda>(n, seenAt). \<not> nonceTTL \<le> time_Sub now seenAt) cache) n = Some t \<and> t1 \<le> t)"
      using kept by force
    then show ?thesis using assms(2) True map_ok_filter [OF ok] by (simp add: e' remembered_def)
  next
    case False
    then show ?thesis using kept assms(2) ok by (simp add: e' remembered_def)
  qed
qed

lemma admit_remembers:
  assumes "admit h req e = (res, e')" "ev_replayStore e = None" "map_ok (ev_nonceCache e)" "t1 \<le> ho_clock h 0"
    and "rq_Nonce req = n \<and> res = None \<or> remembered n t1 (ho_clock h 0) e"
  shows "remembered n t1 (ho_clock h 0) e'"
proof -
  consider (early) "e' = e" "res \<noteq> None" | (nonce) b where "consumeNonce h (ho_clock h 0) (rq_Nonce req) e = (b, e')" "b \<longleftrightarrow> res = None"
    using assms(1) by (auto simp: admit_def Let_def split: if_splits prod.splits bool.splits)
  then show ?thesis
  proof cases
    case early
    then show ?thesis using assms(5) by auto
  next
    case nonce
    then have "cacheNonce (ho_clock h 0) (rq_Nonce req) e = (b, e')" using assms(2) by (simp add: consumeNonce_def)
    then show ?thesis using cacheNonce_remembers assms(2-5) nonce(2) by metis
  qed
qed

lemma remembered_later: "remembered n t1 now e \<Longrightarrow> now \<le> later \<Longrightarrow> remembered n t1 later e"
  by (auto simp: remembered_def)

lemma evaluate_remembers:
  assumes "remembered n t1 now e" "now \<le> ho_clock h 0" "t1 \<le> now"
  shows "remembered n t1 (ho_clock h 0) (snd (evaluate h req e))"
proof -
  obtain res e' where adm: "admit h req e = (res, e')" by fastforce
  have mem: "remembered n t1 (ho_clock h 0) e" using assms(1,2) by (rule remembered_later)
  have "ev_replayStore e = None" "map_ok (ev_nonceCache e)" "t1 \<le> ho_clock h 0"
    using assms by (simp_all add: remembered_def)
  then have "remembered n t1 (ho_clock h 0) e'" using admit_remembers [OF adm] mem by blast
  then show ?thesis using remembered_same evaluate_same_nonces [OF adm] by blast
qed

definition run_clock :: "('r host \<times> ActionRequest) list \<Rightarrow> time list" where
  "run_clock steps = map (\<lambda>(h, req). ho_clock h 0) steps"

lemma eval_run_remembers:
  assumes "remembered n t1 now e" "t1 \<le> now" "sorted (now # run_clock steps @ [later])"
  shows "remembered n t1 later (eval_run steps e)"
  using assms
proof (induction steps arbitrary: now e)
  case Nil
  then show ?case using remembered_later by (auto simp: eval_run_def run_clock_def)
next
  case (Cons step steps)
  obtain h req where step: "step = (h, req)" by fastforce
  have "remembered n t1 (ho_clock h 0) (snd (evaluate h req e))"
    using Cons.prems by (intro evaluate_remembers) (auto simp: step run_clock_def)
  moreover have "t1 \<le> ho_clock h 0" "sorted (ho_clock h 0 # run_clock steps @ [later])"
    using Cons.prems by (auto simp: step run_clock_def)
  ultimately show ?case using Cons.IH by (simp add: eval_run_def step)
qed

text \<open>C2: 
  No request is admitted twice. Once a request was admitted, a later request with the same nonce and the same
  time of issue is refused, whatever was evaluated in between and whatever else it says: within five minutes
  its nonce is remembered, and after two minutes its time of issue is stale. This holds for the cache in
  memory, as long as the clock does not run backwards between evaluations.
\<close>

theorem request_admitted_once:
  assumes "ev_replayStore e = None" "map_ok (ev_nonceCache e)" "fst (admit h req e) = None"
    and "sorted (ho_clock h 0 # run_clock steps @ [ho_clock h' 0])"
    and "rq_Nonce req' = rq_Nonce req" "rq_IssuedAt req' = rq_IssuedAt req"
  shows "\<exists>reason. fst (evaluate h' req' (eval_run steps (snd (evaluate h req e)))) = refusal reason"
proof -
  let ?t1 = "ho_clock h 0" and ?t2 = "ho_clock h' 0" and ?e2 = "eval_run steps (snd (evaluate h req e))"
  obtain e1 where first: "admit h req e = (None, e1)" using assms(3) by (cases "admit h req e") auto
  have "remembered (rq_Nonce req) ?t1 ?t1 e1"
    using admit_remembers [OF first assms(1,2)] by blast
  then have "remembered (rq_Nonce req) ?t1 ?t1 (snd (evaluate h req e))"
    using remembered_same evaluate_same_nonces [OF first] by blast
  then have mem: "remembered (rq_Nonce req) ?t1 ?t2 ?e2"
    using eval_run_remembers assms(4) by blast
  have "fst (admit h' req' ?e2) \<noteq> None"
  proof
    assume "fst (admit h' req' ?e2) = None"
    then obtain e3 where adm: "admit h' req' ?e2 = (None, e3)" by (cases "admit h' req' ?e2") auto
    have "?t2 < ?t1 + nonceTTL"
      using admit_None(2) [OF adm] admit_None(2) [OF first] assms(6) by (auto simp: maxClockSkew_def nonceTTL_def)
    then obtain t where t: "map_of (ev_nonceCache ?e2) (rq_Nonce req) = Some t" "?t1 \<le> t"
      using mem by (auto simp: remembered_def)
    then have "time_Sub ?t2 t < nonceTTL" using ttl_reached [of ?t2 t] \<open>?t2 < ?t1 + nonceTTL\<close> by auto
    moreover have "consumeNonce h' ?t2 (rq_Nonce req') ?e2 = (True, e3)" by (rule admit_None(3) [OF adm])
    ultimately show False using mem t(1) assms(5) by (simp add: consumeNonce_def cacheNonce_def remembered_def)
  qed
  then show ?thesis by (cases "admit h' req' ?e2") (auto simp: evaluate_def)
qed

section \<open>A small evaluator\<close>

definition sample_host :: "unit host" where
  "sample_host = \<lparr>ho_verify = sample_verify, ho_sha = sample_sha, ho_digest = (\<lambda>p. ''p''),
     ho_Consume = (\<lambda>k n t s. (StorageFailure, s)), ho_IsRevoked = None, ho_Epoch = None, ho_clock = (\<lambda>k. 100000000000)\<rparr>"

definition sample_evaluator :: "store \<Rightarrow> store option \<Rightarrow> unit evaluator" where
  "sample_evaluator st base = \<lparr>ev_policyStore = st, ev_baseline = base, ev_validator = sample_validator,
     ev_shieldStore = NewShieldStore, ev_touched = [], ev_driftDetector = None, ev_chainDetector = None,
     ev_nonceCache = [], ev_delegNonceCache = [], ev_nonceSweepAt = 0, ev_replayStore = None\<rparr>"

definition shell_store :: store where
  "shell_store = store_of ''order'' [(allow_for ''ls'') \<lparr>r_ActionType := ''shell'', r_Environment := ''dev''\<rparr>]"

lemma sample_allow:
  "dr_Decision (fst (evaluate sample_host shell_request (sample_evaluator shell_store None))) = DecisionAllow"
  by code_simp

theorem allow_rests_on_every_check_witness:
  "vr_Valid (ValidateAgentIdentity (rq_AgentIdentity shell_request)) \<and>
     \<not> ro_Denied (layeredRules None shell_store shell_request) \<and> \<not> ro_Escalate (layeredRules None shell_store shell_request)"
proof -
  obtain resp e' where "evaluate sample_host shell_request (sample_evaluator shell_store None) = (resp, e')" by fastforce
  from allow_rests_on_every_check [OF this] sample_allow this show ?thesis by (auto simp: sample_evaluator_def)
qed

lemma sample_admitted: "fst (admit sample_host shell_request (sample_evaluator shell_store None)) = None"
  by code_simp

theorem request_admitted_once_witness:
  "\<exists>reason. fst (evaluate (sample_host \<lparr>ho_clock := \<lambda>k. 150000000000\<rparr>) shell_request
     (eval_run [] (snd (evaluate sample_host shell_request (sample_evaluator shell_store None))))) = refusal reason"
  by (rule request_admitted_once [OF _ _ sample_admitted]) (simp_all add: sample_evaluator_def sample_host_def run_clock_def)

section \<open>Containment\<close>

text \<open>
  Containment comes first: an admitted request of a restricted agent is escalated for approval whatever its
  identity, delegation and lease say and whatever the rules say. The request is never allowed, and a deny of
  the project's policy or of the baseline is not consulted either.
\<close>

theorem restricted_agent_escalates:
  assumes "fst (admit h req e0) = None" "tr_Restricted (request_trust h req e0)"
  shows "dr_Decision (fst (evaluate h req e0)) = DecisionEscalate \<and> dr_RequiresApproval (fst (evaluate h req e0)) \<and>
    dr_ReasonCodes (fst (evaluate h req e0)) = [ReasonContainmentActive]"
proof -
  obtain e where adm: "admit h req e0 = (None, e)" using assms(1) by (cases "admit h req e0") auto
  have "tr_Restricted (request_trust h req e)" using assms(2) admit_frame(4) [OF adm] by (simp add: request_trust_def)
  then have "check_containment (request_trust h req e) no_verdict = escalate_with [ReasonContainmentActive] no_verdict"
    by (simp add: check_containment_def)
  then have "fst (decide h req (request_trust h req e) (after_trust h req e)) = escalate_with [ReasonContainmentActive] no_verdict"
    by (simp add: decide_def stage_keeps_decision check_minimums_def check_trust_def)
  then show ?thesis by (simp add: evaluate_admitted [OF adm] respond_def no_verdict_def escalate_with_def)
qed

text \<open>A baseline that denies the request, with the agent free and with the agent restricted.\<close>

definition deny_ls :: store where
  "deny_ls = store_of ''order'' [(deny_for ''ls'') \<lparr>r_ActionType := ''shell'', r_Environment := ''dev''\<rparr>]"

definition contained :: "unit evaluator" where
  "contained = (sample_evaluator shell_store (Some deny_ls)) \<lparr>ev_shieldStore := Restrict 0 ''agent'' ''review'' NewShieldStore\<rparr>"

theorem restricted_agent_escalates_witness:
  "dr_Decision (fst (evaluate sample_host shell_request (sample_evaluator shell_store (Some deny_ls)))) = DecisionDeny \<and>
   dr_Decision (fst (evaluate sample_host shell_request contained)) = DecisionEscalate"
proof -
  have "fst (admit sample_host shell_request contained) = None" "tr_Restricted (request_trust sample_host shell_request contained)"
    and "dr_Decision (fst (evaluate sample_host shell_request (sample_evaluator shell_store (Some deny_ls)))) = DecisionDeny"
    by code_simp+
  then show ?thesis using restricted_agent_escalates by blast
qed

section \<open>Receipts and policy comparison\<close>

text \<open>The receipt carries the hash of the project's policy alone, with a baseline or without one.\<close>

lemma receipt_hash_ignores_baseline:
  assumes "admit h req e0 = (None, e)"
  shows "map_option rs_PolicyHash (dr_ReceiptStub (fst (evaluate h req e0))) = Some (fst (Hash (ho_digest h) (ev_policyStore e0)))"
  using admit_frame(1) [OF assms] by (simp add: evaluate_admitted [OF assms] respond_def)

text \<open>
  The comparison of policies keys rules by action and environment alone: a candidate that swaps the resource
  of an allow, and so decides otherwise, is reported as no change at all.
\<close>

lemma policy_diff_misses_resources:
  "ComparePolicies (store_of ''order'' [allow_for ''https://evil.example/*'']) (sample_evaluator (store_of ''order'' [allow_for ''https://good.example/*'']) None) =
     \<lparr>pd_AddedRules = [], pd_RemovedRules = [], pd_ChangedRules = [], pd_FromVersion = ''v1'', pd_ToVersion = ''v1''\<rparr>"
  "ro_Allowed (layeredRules None (store_of ''order'' [allow_for ''https://evil.example/*'']) (request_for ''GET https://evil.example/x''))"
  "\<not> ro_Allowed (layeredRules None (store_of ''order'' [allow_for ''https://good.example/*'']) (request_for ''GET https://evil.example/x''))"
  by code_simp+

end
