(* ===== verification/Record_Journal.thy ===== *)
theory Record_Journal
  imports Go_Bytes Go_Regexp
begin

text \<open>
  Component: the signed journals and sealed files that the authority-bearing stores write
  (\<^verbatim>\<open>internal/record/record.go\<close>, \<^verbatim>\<open>sealed.go\<close>). A file is its bytes. The codec of \<^verbatim>\<open>encoding/json\<close> for envelopes,
  SHA-256 and Ed25519 are parameters. Opening a file, reading it, truncating a torn tail and writing a missing
  newline are taken to succeed; the write and the sync of an append can fail. Sequence numbers are natural
  numbers, below the range in which the code's \<^verbatim>\<open>uint64\<close> would wrap.
\<close>

section \<open>Envelopes\<close>

record KeyRef =
  kr_GatewayID :: string
  kr_KeyID :: string

record Link =
  ln_Kind :: string
  ln_Hash :: string

record Envelope =
  en_V :: int
  en_Type :: string
  en_DomainID :: string
  en_Seq :: nat
  en_RecordID :: string
  en_Parent :: string
  en_Links :: "Link list"
  en_Payload :: string
  en_KeyRef :: KeyRef
  en_At :: int
  en_Sig :: string

definition Version :: int where "Version = 2"

definition VersionLegacy :: int where "VersionLegacy = 1"

abbreviation "TypeMigration \<equiv> ''migration''"
abbreviation "TypeTombstone \<equiv> ''tombstone''"
abbreviation "TypeCompact \<equiv> ''compact''"

definition record_lp :: "string \<Rightarrow> string" where
  "record_lp s = PutUint32 (length s) @ s"

definition record_lpu64 :: "nat \<Rightarrow> string" where
  "record_lpu64 v = PutUint32 (v div 4294967296) @ PutUint32 v"

text \<open>\<^verbatim>\<open>uint64\<close> of a signed number.\<close>

definition u64 :: "int \<Rightarrow> nat" where
  "u64 v = nat (v mod 18446744073709551616)"

definition signingPayloadV2 :: "Envelope \<Rightarrow> string" where
  "signingPayloadV2 env =
     ''OVARA-RECORD-V2'' @ record_lpu64 (u64 (en_V env)) @ record_lp (en_Type env) @ record_lp (en_DomainID env) @
     record_lpu64 (en_Seq env) @ record_lp (en_RecordID env) @ record_lp (en_Parent env) @
     record_lpu64 (length (en_Links env)) @
     concat (map (\<lambda>l. record_lp (ln_Kind l) @ record_lp (ln_Hash l)) (en_Links env)) @
     record_lp (en_Payload env) @ record_lp (kr_GatewayID (en_KeyRef env)) @ record_lp (kr_KeyID (en_KeyRef env)) @
     record_lpu64 (u64 (en_At env))"

definition signingPayload :: "Envelope \<Rightarrow> string" where
  "signingPayload env =
     (if 2 \<le> en_V env then signingPayloadV2 env
      else ''OVARA-RECORD-'' @ en_Type env @ ''-V1'' @ record_lp (en_DomainID env) @ record_lp (en_RecordID env) @
           record_lpu64 (en_Seq env) @ record_lp (en_Parent env) @ record_lp (en_Payload env) @
           record_lp (kr_GatewayID (en_KeyRef env)) @ record_lp (kr_KeyID (en_KeyRef env)))"

text \<open>
  The codec: the strict decoding of a line (known keys only, nothing behind the object), the encoding of an
  envelope, the top-level keys of an object in order, whether a line is complete JSON, and the two fields of a
  compaction marker's payload.
\<close>

record codec =
  cx_decode :: "string \<Rightarrow> Envelope option"
  cx_marshal :: "Envelope \<Rightarrow> string"
  cx_keys :: "string \<Rightarrow> string list option"
  cx_valid :: "string \<Rightarrow> bool"
  cx_compact :: "string \<Rightarrow> (nat \<times> string) option"

definition noDuplicateKeys :: "codec \<Rightarrow> string \<Rightarrow> bool" where
  "noDuplicateKeys cx line = (case cx_keys cx line of None \<Rightarrow> False | Some ks \<Rightarrow> distinct ks)"

definition decodeEnvelope :: "codec \<Rightarrow> string \<Rightarrow> Envelope option" where
  "decodeEnvelope cx line =
     (case cx_decode cx line of
        None \<Rightarrow> None
      | Some env \<Rightarrow>
          if 2 \<le> en_V env then (if cx_marshal cx env = line then Some env else None)
          else if noDuplicateKeys cx line then Some env else None)"

definition GenesisParent :: "(string \<Rightarrow> string) \<Rightarrow> string \<Rightarrow> string \<Rightarrow> string" where
  "GenesisParent sha domainID store = hex_EncodeToString (sha (''OVARA-JOURNAL-GENESIS-V1'' @ domainID @ store))"

definition TipHash :: "(string \<Rightarrow> string) \<Rightarrow> string \<Rightarrow> string" where
  "TipHash sha line = hex_EncodeToString (sha line)"

section \<open>Verification\<close>

record Floor =
  fl_Known :: bool
  fl_Seq :: nat
  fl_Hash :: string

text \<open>What \<open>Open\<close> is given; the fold callback works on a state of its own.\<close>

record 'a journal_cfg =
  jc_store :: string
  jc_domain :: string
  jc_resolve :: "string \<Rightarrow> string \<Rightarrow> string option"
  jc_bound :: "(string \<Rightarrow> string \<Rightarrow> int option) option"
  jc_floor :: Floor
  jc_apply :: "Envelope \<Rightarrow> 'a \<Rightarrow> 'a option"
  jc_codec :: codec
  jc_sha :: "string \<Rightarrow> string"
  jc_verify :: "string \<Rightarrow> string \<Rightarrow> string \<Rightarrow> bool"

record 'a journal =
  jn_file :: string
  jn_seq :: nat
  jn_tip :: string
  jn_off :: nat
  jn_v2 :: bool
  jn_lastAt :: int
  jn_state :: 'a

datatype journal_error =
    UnsupportedVersion
  | SeqGap
  | ParentMismatch
  | DomainMismatch
  | RecordIDEmpty
  | KeyUnresolved
  | SignatureInvalid
  | LegacyAfterV2
  | TimeBackwards
  | KeyOutOfBound
  | FloorMismatch
  | FoldError
  | CorruptEnvelope
  | NoCompactMarker
  | MalformedMarker
  | MarkerEquivocation
  | EmptyBelowFloor
  | TruncatedBelowFloor
  | JournalShrank
  | NoSigner
  | AppendFailed
  | SyncFailed

definition verifyEnvelope ::
  "'a journal_cfg \<Rightarrow> nat \<Rightarrow> string \<Rightarrow> Envelope \<Rightarrow> journal_error option" where
  "verifyEnvelope cfg wantSeq wantParent env =
     (if en_V env \<noteq> Version \<and> en_V env \<noteq> VersionLegacy then Some UnsupportedVersion
      else if en_Seq env \<noteq> wantSeq then Some SeqGap
      else if en_Parent env \<noteq> wantParent then Some ParentMismatch
      else if en_DomainID env \<noteq> jc_domain cfg then Some DomainMismatch
      else if en_RecordID env = [] \<and> en_Type env \<noteq> TypeMigration \<and> en_Type env \<noteq> TypeCompact then Some RecordIDEmpty
      else (case jc_resolve cfg (kr_GatewayID (en_KeyRef env)) (kr_KeyID (en_KeyRef env)) of
              None \<Rightarrow> Some KeyUnresolved
            | Some pub \<Rightarrow>
                (case hex_DecodeString (en_Sig env) of
                   None \<Rightarrow> Some SignatureInvalid
                 | Some sig \<Rightarrow>
                     if jc_verify cfg pub (signingPayload env) sig then None else Some SignatureInvalid)))"

definition checkOrder :: "'a journal_cfg \<Rightarrow> Envelope \<Rightarrow> 'a journal \<Rightarrow> journal_error option \<times> 'a journal" where
  "checkOrder cfg env j =
     (if en_V env < 2 then (if jn_v2 j then Some LegacyAfterV2 else None, j)
      else if en_At env < jn_lastAt j then (Some TimeBackwards, j)
      else if (case jc_bound cfg of
                 None \<Rightarrow> False
               | Some bound \<Rightarrow>
                   (case bound (kr_GatewayID (en_KeyRef env)) (kr_KeyID (en_KeyRef env)) of
                      None \<Rightarrow> False
                    | Some t \<Rightarrow> \<not> en_At env < t))
      then (Some KeyOutOfBound, j)
      else (None, j \<lparr>jn_v2 := True, jn_lastAt := en_At env\<rparr>))"

text \<open>One decoded line in the loops of \<open>open\<close> and \<open>Absorb\<close>: verify, order, floor, fold, advance.\<close>

definition take_envelope :: "'a journal_cfg \<Rightarrow> string \<Rightarrow> Envelope \<Rightarrow> 'a journal \<Rightarrow> journal_error option \<times> 'a journal" where
  "take_envelope cfg line env j =
     (case verifyEnvelope cfg (jn_seq j + 1) (jn_tip j) env of
        Some e \<Rightarrow> (Some e, j)
      | None \<Rightarrow>
          (case checkOrder cfg env j of
             (Some e, j1) \<Rightarrow> (Some e, j1)
           | (None, j1) \<Rightarrow>
               let lineHash = TipHash (jc_sha cfg) line in
               if fl_Known (jc_floor cfg) \<and> jn_seq j1 + 1 = fl_Seq (jc_floor cfg) \<and> lineHash \<noteq> fl_Hash (jc_floor cfg)
               then (Some FloorMismatch, j1)
               else (case jc_apply cfg env (jn_state j1) of
                       None \<Rightarrow> (Some FoldError, j1)
                     | Some st \<Rightarrow> (None, j1 \<lparr>jn_state := st, jn_seq := jn_seq j1 + 1, jn_tip := lineHash\<rparr>))))"

text \<open>A journal that starts above sequence 1 must start with a marker that attests where it was compacted.\<close>

definition adopt_marker :: "'a journal_cfg \<Rightarrow> Envelope \<Rightarrow> 'a journal \<Rightarrow> journal_error option \<times> 'a journal" where
  "adopt_marker cfg env j =
     (if en_Type env \<noteq> TypeCompact then (Some NoCompactMarker, j)
      else (case cx_compact (jc_codec cfg) (en_Payload env) of
              None \<Rightarrow> (Some MalformedMarker, j)
            | Some (through, priorTip) \<Rightarrow>
                if through \<noteq> en_Seq env - 1 \<or> priorTip \<noteq> en_Parent env then (Some MalformedMarker, j)
                else if fl_Known (jc_floor cfg) \<and> fl_Seq (jc_floor cfg) = through \<and> fl_Hash (jc_floor cfg) \<noteq> priorTip
                then (Some MarkerEquivocation, j)
                else (None, j \<lparr>jn_seq := en_Seq env - 1, jn_tip := en_Parent env\<rparr>)))"

section \<open>Opening and absorbing\<close>

definition cut_line :: "string \<Rightarrow> string \<times> bool \<times> string" where
  "cut_line rest =
     (case IndexByte rest (CHR 0x0A) of
        None \<Rightarrow> (rest, False, [])
      | Some nl \<Rightarrow> (take nl rest, True, drop (nl + 1) rest))"

lemma cut_line_shorter: "cut_line rest = (line, terminated, rest') \<Longrightarrow> rest \<noteq> [] \<Longrightarrow> length rest' < length rest"
  by (auto simp: cut_line_def split: option.splits)

text \<open>
  The loop over the lines: an error, the journal, and the torn tail where it stopped. \<open>first\<close> says that the
  line is the first of a journal that is being opened.
\<close>

function fold_lines ::
  "'a journal_cfg \<Rightarrow> bool \<Rightarrow> string \<Rightarrow> 'a journal \<Rightarrow> journal_error option \<times> 'a journal \<times> string" where
  "fold_lines cfg first rest j =
     (if rest = [] then (None, j, [])
      else case cut_line rest of
        (line, terminated, rest') \<Rightarrow>
          if TrimSpace line = [] then fold_lines cfg False rest' j
          else (case decodeEnvelope (jc_codec cfg) line of
                  None \<Rightarrow>
                    if \<not> terminated \<and> \<not> cx_valid (jc_codec cfg) line then (None, j, line)
                    else (Some CorruptEnvelope, j, [])
                | Some env \<Rightarrow>
                    (case (if first \<and> 1 < en_Seq env then adopt_marker cfg env j else (None, j)) of
                       (Some e, j1) \<Rightarrow> (Some e, j1, [])
                     | (None, j1) \<Rightarrow>
                         (case take_envelope cfg line env j1 of
                            (Some e, j2) \<Rightarrow> (Some e, j2, [])
                          | (None, j2) \<Rightarrow> fold_lines cfg False rest' j2))))"
  by pat_completeness auto
termination
  by (relation "measure (\<lambda>(cfg, first, rest, j). length rest)") (auto dest: cut_line_shorter [OF sym])

declare fold_lines.simps [simp del]

text \<open>What is left of the file: a torn tail is cut off, a missing final newline is written.\<close>

definition settle_file :: "string \<Rightarrow> string \<Rightarrow> string" where
  "settle_file data torn =
     (if torn \<noteq> [] then take (length data - length torn) data
      else if last data \<noteq> CHR 0x0A then data @ [CHR 0x0A] else data)"

definition fresh_journal :: "'a journal_cfg \<Rightarrow> string \<Rightarrow> 'a \<Rightarrow> 'a journal" where
  "fresh_journal cfg data st =
     \<lparr>jn_file = data, jn_seq = 0, jn_tip = GenesisParent (jc_sha cfg) (jc_domain cfg) (jc_store cfg), jn_off = 0,
      jn_v2 = False, jn_lastAt = 0, jn_state = st\<rparr>"

definition journal_open :: "'a journal_cfg \<Rightarrow> 'a \<Rightarrow> string \<Rightarrow> journal_error + 'a journal" where
  "journal_open cfg st data =
     (if data = [] then
        (if fl_Known (jc_floor cfg) then Inl EmptyBelowFloor else Inr (fresh_journal cfg data st))
      else (case fold_lines cfg True data (fresh_journal cfg data st) of
              (Some e, j, torn) \<Rightarrow> Inl e
            | (None, j, torn) \<Rightarrow>
                if fl_Known (jc_floor cfg) \<and> jn_seq j < fl_Seq (jc_floor cfg) then Inl TruncatedBelowFloor
                else Inr (j \<lparr>jn_file := settle_file data torn, jn_off := length (settle_file data torn)\<rparr>)))"

definition Absorb :: "'a journal_cfg \<Rightarrow> 'a journal \<Rightarrow> journal_error option \<times> 'a journal" where
  "Absorb cfg j =
     (if length (jn_file j) < jn_off j then (Some JournalShrank, j)
      else if length (jn_file j) = jn_off j then (None, j)
      else let buf = drop (jn_off j) (jn_file j) in
        (case fold_lines cfg False buf j of
           (Some e, j', torn) \<Rightarrow> (Some e, j')
         | (None, j', torn) \<Rightarrow>
             (None, j' \<lparr>jn_file := take (jn_off j) (jn_file j) @ settle_file buf torn,
                       jn_off := jn_off j + length (settle_file buf torn)\<rparr>)))"

section \<open>Appending\<close>

record Signer =
  sg_sign :: "string \<Rightarrow> string"
  sg_gatewayID :: string
  sg_keyID :: string

definition Ref :: "Signer \<Rightarrow> KeyRef" where
  "Ref s = \<lparr>kr_GatewayID = sg_gatewayID s, kr_KeyID = sg_keyID s\<rparr>"

text \<open>The outcomes of writing a line: all of it and synced, only the first bytes, or all of it but not synced.\<close>

datatype write_result = WriteOk | WriteShort nat | SyncFails

definition new_envelope ::
  "'a journal_cfg \<Rightarrow> Signer \<Rightarrow> int \<Rightarrow> string \<Rightarrow> string \<Rightarrow> string \<Rightarrow> Link list \<Rightarrow> 'a journal \<Rightarrow> Envelope" where
  "new_envelope cfg s now typ recordID body links j =
     (let env = \<lparr>en_V = Version, en_Type = typ, en_DomainID = jc_domain cfg, en_Seq = jn_seq j + 1, en_RecordID = recordID,
                 en_Parent = jn_tip j, en_Links = links, en_Payload = body, en_KeyRef = Ref s,
                 en_At = (if now < jn_lastAt j then jn_lastAt j else now), en_Sig = []\<rparr> in
      env \<lparr>en_Sig := hex_EncodeToString (sg_sign s (signingPayload env))\<rparr>)"

definition Append ::
  "'a journal_cfg \<Rightarrow> Signer option \<Rightarrow> write_result \<Rightarrow> int \<Rightarrow> string \<Rightarrow> string \<Rightarrow> string \<Rightarrow> Link list \<Rightarrow> 'a journal
     \<Rightarrow> (journal_error + nat \<times> string) \<times> 'a journal" where
  "Append cfg signer w now typ recordID body links j =
     (case signer of
        None \<Rightarrow> (Inl NoSigner, j)
      | Some s \<Rightarrow>
          let env = new_envelope cfg s now typ recordID body links j;
              line = cx_marshal (jc_codec cfg) env; bytes = line @ [CHR 0x0A] in
          (case w of
             WriteShort n \<Rightarrow> (Inl AppendFailed, j \<lparr>jn_file := jn_file j @ take n bytes\<rparr>)
           | SyncFails \<Rightarrow> (Inl SyncFailed, j \<lparr>jn_file := jn_file j @ bytes\<rparr>)
           | WriteOk \<Rightarrow>
               (Inr (en_Seq env, TipHash (jc_sha cfg) line),
                j \<lparr>jn_file := jn_file j @ bytes, jn_seq := en_Seq env, jn_tip := TipHash (jc_sha cfg) line,
                   jn_off := jn_off j + length bytes, jn_v2 := True, jn_lastAt := en_At env\<rparr>)))"

text \<open>A writer that continues a chain at a given position, for compaction.\<close>

definition ResumeAt :: "nat \<Rightarrow> string \<Rightarrow> string \<Rightarrow> 'a \<Rightarrow> 'a journal" where
  "ResumeAt seq parent data st =
     \<lparr>jn_file = data, jn_seq = seq, jn_tip = parent, jn_off = length data, jn_v2 = False, jn_lastAt = 0, jn_state = st\<rparr>"

definition Tip :: "'a journal \<Rightarrow> nat \<times> string" where
  "Tip j = (jn_seq j, jn_tip j)"

section \<open>Sealed files\<close>

record FileSec =
  fc_V :: int
  fc_Store :: string
  fc_DomainID :: string
  fc_FileSeq :: nat
  fc_PrevHash :: string
  fc_PayloadHash :: string
  fc_KeyRef :: KeyRef
  fc_Sig :: string

record SealedFile =
  sf_Sec :: FileSec
  sf_Data :: string

definition FileVersion :: int where "FileVersion = 1"

definition filePayload :: "FileSec \<Rightarrow> string" where
  "filePayload sec =
     ''OVARA-FILE-'' @ fc_Store sec @ ''-V1'' @ record_lp (fc_DomainID sec) @ record_lpu64 (fc_FileSeq sec) @
     record_lp (fc_PrevHash sec) @ record_lp (fc_PayloadHash sec) @ record_lp (kr_GatewayID (fc_KeyRef sec)) @
     record_lp (kr_KeyID (fc_KeyRef sec))"

text \<open>The codec of sealed files: compaction of a JSON text, encoding and decoding of the file.\<close>

record seal_codec =
  sx_compact :: "string \<Rightarrow> string option"
  sx_marshal :: "SealedFile \<Rightarrow> string"
  sx_decode :: "string \<Rightarrow> SealedFile option"

definition SealFile ::
  "seal_codec \<Rightarrow> (string \<Rightarrow> string) \<Rightarrow> string \<Rightarrow> string \<Rightarrow> Signer \<Rightarrow> string \<Rightarrow> string option \<Rightarrow> nat \<Rightarrow> string option" where
  "SealFile sx sha store domain s payload prev prevSeq =
     (case sx_compact sx payload of
        None \<Rightarrow> None
      | Some body \<Rightarrow>
          let sec = \<lparr>fc_V = FileVersion, fc_Store = store, fc_DomainID = domain, fc_FileSeq = prevSeq + 1,
                     fc_PrevHash = (case prev of None \<Rightarrow> [] | Some p \<Rightarrow> hex_EncodeToString (sha p)),
                     fc_PayloadHash = hex_EncodeToString (sha body), fc_KeyRef = Ref s, fc_Sig = []\<rparr>;
              signed = sec \<lparr>fc_Sig := hex_EncodeToString (sg_sign s (filePayload sec))\<rparr> in
          Some (sx_marshal sx \<lparr>sf_Sec = signed, sf_Data = body\<rparr>))"

datatype seal_error =
    SealMissing
  | SealUnparseable
  | SealVersion
  | SealTransplant
  | SealDomain
  | SealModified
  | SealKeyUnresolved
  | SealSignature
  | SealRolledBack
  | ErrSameSeqEquivocation

text \<open>
  The file on disk is \<^const>\<open>None\<close> when it does not exist. The answer is the payload with its sequence number and
  the hash of the file, or \<^const>\<open>None\<close> for a store that has no file yet.
\<close>

definition OpenSealedFile ::
  "seal_codec \<Rightarrow> (string \<Rightarrow> string) \<Rightarrow> (string \<Rightarrow> string \<Rightarrow> string \<Rightarrow> bool) \<Rightarrow> (string \<Rightarrow> string \<Rightarrow> string option)
     \<Rightarrow> string \<Rightarrow> string \<Rightarrow> Floor \<Rightarrow> string option \<Rightarrow> seal_error + (string \<times> nat \<times> string) option" where
  "OpenSealedFile sx sha verify resolve store domainID floor disk =
     (case disk of
        None \<Rightarrow> if fl_Known floor then Inl SealMissing else Inr None
      | Some data \<Rightarrow>
          if data = [] then Inr None
          else (case sx_decode sx data of
                  None \<Rightarrow> Inl SealUnparseable
                | Some sf \<Rightarrow>
                    let sec = sf_Sec sf in
                    if fc_V sec \<noteq> FileVersion \<and> fc_V sec \<noteq> 2 then Inl SealVersion
                    else if fc_Store sec \<noteq> store then Inl SealTransplant
                    else if fc_DomainID sec \<noteq> domainID then Inl SealDomain
                    else if hex_EncodeToString (sha (sf_Data sf)) \<noteq> fc_PayloadHash sec then Inl SealModified
                    else (case resolve (kr_GatewayID (fc_KeyRef sec)) (kr_KeyID (fc_KeyRef sec)) of
                            None \<Rightarrow> Inl SealKeyUnresolved
                          | Some pub \<Rightarrow>
                              (case hex_DecodeString (fc_Sig sec) of
                                 None \<Rightarrow> Inl SealSignature
                               | Some sig \<Rightarrow>
                                   if \<not> verify pub (filePayload sec) sig then Inl SealSignature
                                   else if fl_Known floor \<and> fc_FileSeq sec < fl_Seq floor then Inl SealRolledBack
                                   else if fl_Known floor \<and> fc_FileSeq sec = fl_Seq floor \<and> TipHash sha data \<noteq> fl_Hash floor
                                   then Inl ErrSameSeqEquivocation
                                   else Inr (Some (sf_Data sf, fc_FileSeq sec, TipHash sha data))))))"

end
