(* ===== verification/Record_Properties.thy ===== *)
theory Record_Properties
  imports Record_Journal
begin

text \<open>
  What an open journal proves about its file: its lines form a chain of verified envelopes, a committed tip
  pins every line before it that was not compacted away, and a journal that was written by appends opens again at the same position.
\<close>

section \<open>The lines of a file\<close>

definition record_lines :: "string \<Rightarrow> string list" where
  "record_lines data = filter (\<lambda>l. TrimSpace l \<noteq> []) (SplitByte (CHR 0x0A) data)"

lemma TrimSpace_Nil [simp]: "TrimSpace [] = []"
  by (simp add: TrimSpace_def)

lemma record_lines_Nil [simp]: "record_lines [] = []"
  by (simp add: record_lines_def)

lemma cut_line_records:
  assumes "cut_line rest = (line, terminated, rest')"
  shows "record_lines rest = (if TrimSpace line = [] then [] else [line]) @ record_lines rest'"
    and "\<not> terminated \<Longrightarrow> rest' = [] \<and> line = rest"
proof -
  show "record_lines rest = (if TrimSpace line = [] then [] else [line]) @ record_lines rest'"
  proof (cases "IndexByte rest (CHR 0x0A)")
    case None
    then have "line = rest" "rest' = []" "CHR 0x0A \<notin> set rest"
      using assms by (auto simp: cut_line_def IndexByte_None_iff [symmetric])
    then show ?thesis by (simp add: record_lines_def SplitByte_single)
  next
    case (Some i)
    then have parts: "line = take i rest" "rest' = drop (Suc i) rest" using assms by (simp_all add: cut_line_def)
    have "rest = line @ CHR 0x0A # rest'" "CHR 0x0A \<notin> set line"
      using IndexByte_split [OF Some] Some by (simp_all add: parts IndexByte_eq_Some_iff)
    then show ?thesis by (simp add: record_lines_def SplitByte_append)
  qed
  show "\<not> terminated \<Longrightarrow> rest' = [] \<and> line = rest"
    using assms by (auto simp: cut_line_def split: option.splits)
qed

section \<open>Chains\<close>

fun chain_ok :: "'a journal_cfg \<Rightarrow> nat \<Rightarrow> string \<Rightarrow> string list \<Rightarrow> bool" where
  "chain_ok cfg seq tip [] = True"
| "chain_ok cfg seq tip (l # ls) =
     ((\<exists>env. decodeEnvelope (jc_codec cfg) l = Some env \<and> verifyEnvelope cfg (Suc seq) tip env = None) \<and>
      (fl_Known (jc_floor cfg) \<and> Suc seq = fl_Seq (jc_floor cfg) \<longrightarrow> TipHash (jc_sha cfg) l = fl_Hash (jc_floor cfg)) \<and>
      chain_ok cfg (Suc seq) (TipHash (jc_sha cfg) l) ls)"

lemma take_envelope_ok:
  assumes "take_envelope cfg line env j = (None, j')"
  shows "verifyEnvelope cfg (Suc (jn_seq j)) (jn_tip j) env = None" "jn_seq j' = Suc (jn_seq j)"
    "jn_tip j' = TipHash (jc_sha cfg) line"
    "fl_Known (jc_floor cfg) \<and> Suc (jn_seq j) = fl_Seq (jc_floor cfg) \<longrightarrow> TipHash (jc_sha cfg) line = fl_Hash (jc_floor cfg)"
  using assms
  by (auto simp: take_envelope_def checkOrder_def Let_def split: option.splits prod.splits if_splits)

lemma fold_lines_chain:
  assumes "fold_lines cfg False rest j = (None, j', torn)"
  shows "\<exists>ls. record_lines rest = ls @ (if torn = [] then [] else [torn]) \<and> chain_ok cfg (jn_seq j) (jn_tip j) ls \<and>
    jn_seq j' = jn_seq j + length ls \<and> jn_tip j' = (if ls = [] then jn_tip j else TipHash (jc_sha cfg) (last ls))"
  using assms
proof (induction cfg "False" rest j rule: fold_lines.induct)
  case (1 cfg rest j)
  show ?case
  proof (cases "rest = []")
    case True
    then show ?thesis using 1(3) by (simp add: fold_lines.simps [of cfg _ "[]"])
  next
    case False
    obtain line terminated rest' where cut: "cut_line rest = (line, terminated, rest')" by (cases "cut_line rest")
    note step = 1(3) [unfolded fold_lines.simps [of cfg False rest]]
    note lines = cut_line_records [OF cut]
    show ?thesis
    proof (cases "TrimSpace line = []")
      case True
      then show ?thesis using 1(1) [OF False cut [symmetric] refl True] step cut lines(1) \<open>rest \<noteq> []\<close> by simp
    next
      case filled: False
      show ?thesis
      proof (cases "decodeEnvelope (jc_codec cfg) line")
        case None
        then have "torn = line" "j' = j" "\<not> terminated" using step cut filled False by (auto split: if_splits)
        then show ?thesis using lines filled by auto
      next
        case (Some env)
        then obtain j2 where taken: "take_envelope cfg line env j = (None, j2)"
          and rest: "fold_lines cfg False rest' j2 = (None, j', torn)"
          using step cut filled False by (auto split: prod.splits option.splits)
        from 1(2) [OF False cut [symmetric] refl filled Some, of None j] taken rest
        obtain ls where ls: "record_lines rest' = ls @ (if torn = [] then [] else [torn])"
          "chain_ok cfg (jn_seq j2) (jn_tip j2) ls" "jn_seq j' = jn_seq j2 + length ls"
          "jn_tip j' = (if ls = [] then jn_tip j2 else TipHash (jc_sha cfg) (last ls))"
          by auto
        then show ?thesis using lines(1) filled Some take_envelope_ok [OF taken] by (intro exI [of _ "line # ls"]) auto
      qed
    qed
  qed
qed

text \<open>A journal that does not start at a compaction marker is folded from its genesis.\<close>

definition starts_compacted :: "codec \<Rightarrow> string \<Rightarrow> bool" where
  "starts_compacted cx data \<longleftrightarrow>
     TrimSpace (fst (cut_line data)) \<noteq> [] \<and>
     (case decodeEnvelope cx (fst (cut_line data)) of None \<Rightarrow> False | Some env \<Rightarrow> 1 < en_Seq env)"

lemma fold_from_genesis:
  assumes "\<not> starts_compacted (jc_codec cfg) data"
  shows "fold_lines cfg True data j = fold_lines cfg False data j"
proof -
  obtain line terminated rest where cut: "cut_line data = (line, terminated, rest)" by (cases "cut_line data")
  then show ?thesis using assms
    by (subst (1 2) fold_lines.simps) (auto simp: starts_compacted_def split: option.splits)
qed

lemma journal_open_chain:
  assumes "journal_open cfg st data = Inr j" "\<not> starts_compacted (jc_codec cfg) data"
  shows "\<exists>ls torn. record_lines data = ls @ torn \<and> jn_seq j = length ls \<and>
    chain_ok cfg 0 (GenesisParent (jc_sha cfg) (jc_domain cfg) (jc_store cfg)) ls \<and>
    (ls \<noteq> [] \<longrightarrow> jn_tip j = TipHash (jc_sha cfg) (last ls)) \<and>
    (fl_Known (jc_floor cfg) \<longrightarrow> fl_Seq (jc_floor cfg) \<le> length ls)"
proof (cases "data = []")
  case True
  then show ?thesis using assms(1)
    by (auto simp: journal_open_def fresh_journal_def split: if_splits intro!: exI [of _ "[]"])
next
  case False
  then obtain j' torn where fold: "fold_lines cfg False data (fresh_journal cfg data st) = (None, j', torn)"
    and j: "jn_seq j = jn_seq j'" "jn_tip j = jn_tip j'" "\<not> (fl_Known (jc_floor cfg) \<and> jn_seq j' < fl_Seq (jc_floor cfg))"
    using assms fold_from_genesis [OF assms(2)]
    by (auto simp: journal_open_def split: if_splits prod.splits option.splits)
  from fold_lines_chain [OF fold] obtain ls where
    "record_lines data = ls @ (if torn = [] then [] else [torn])"
    "chain_ok cfg 0 (GenesisParent (jc_sha cfg) (jc_domain cfg) (jc_store cfg)) ls"
    "jn_seq j' = length ls" "ls \<noteq> [] \<longrightarrow> jn_tip j' = TipHash (jc_sha cfg) (last ls)"
    by (auto simp: fresh_journal_def)
  then show ?thesis using j by (intro exI conjI; simp; linarith?)
qed

text \<open>The parent of a line is the hash of the line before it, so equal tips give equal lines back to the start.\<close>

lemma chain_ok_nth:
  assumes "chain_ok cfg seq tip ls" "i < length ls"
  shows "\<exists>env. decodeEnvelope (jc_codec cfg) (ls ! i) = Some env \<and>
    en_Parent env = (if i = 0 then tip else TipHash (jc_sha cfg) (ls ! (i - 1))) \<and>
    (fl_Known (jc_floor cfg) \<and> seq + i + 1 = fl_Seq (jc_floor cfg) \<longrightarrow> TipHash (jc_sha cfg) (ls ! i) = fl_Hash (jc_floor cfg))"
  using assms
proof (induction ls arbitrary: seq tip i)
  case (Cons l ls)
  show ?case
  proof (cases i)
    case 0
    then show ?thesis using Cons.prems(1) by (auto simp: verifyEnvelope_def split: if_splits)
  next
    case (Suc k)
    then show ?thesis using Cons.IH [of "Suc seq" "TipHash (jc_sha cfg) l" k] Cons.prems by (auto simp: nth_Cons')
  qed
qed simp

text \<open>
  Where the records of a file start: at sequence 1, or after the sequence its first line was compacted through.
  \<open>record_at\<close> is the line of a sequence number.
\<close>

definition journal_base :: "codec \<Rightarrow> string \<Rightarrow> nat" where
  "journal_base cx data =
     (if starts_compacted cx data then en_Seq (the (decodeEnvelope cx (fst (cut_line data)))) - 1 else 0)"

definition record_at :: "codec \<Rightarrow> string \<Rightarrow> nat \<Rightarrow> string" where
  "record_at cx data k = record_lines data ! (k - journal_base cx data - 1)"

text \<open>The first line is a compaction marker that verifies and attests the tip before it.\<close>

definition attests :: "'a journal_cfg \<Rightarrow> string \<Rightarrow> string \<Rightarrow> bool" where
  "attests cfg data tip \<longleftrightarrow> (\<exists>env. decodeEnvelope (jc_codec cfg) (fst (cut_line data)) = Some env \<and>
     en_Type env = TypeCompact \<and> en_Seq env = Suc (journal_base (jc_codec cfg) data) \<and> en_Parent env = tip \<and>
     cx_compact (jc_codec cfg) (en_Payload env) = Some (journal_base (jc_codec cfg) data, tip) \<and>
     verifyEnvelope cfg (en_Seq env) tip env = None \<and>
     (fl_Known (jc_floor cfg) \<and> fl_Seq (jc_floor cfg) = journal_base (jc_codec cfg) data \<longrightarrow> tip = fl_Hash (jc_floor cfg)))"

lemma adopt_marker_ok:
  assumes "adopt_marker cfg env j = (None, j1)"
  shows "en_Type env = TypeCompact" "cx_compact (jc_codec cfg) (en_Payload env) = Some (en_Seq env - 1, en_Parent env)"
    "jn_seq j1 = en_Seq env - 1" "jn_tip j1 = en_Parent env"
    "fl_Known (jc_floor cfg) \<and> fl_Seq (jc_floor cfg) = en_Seq env - 1 \<longrightarrow> en_Parent env = fl_Hash (jc_floor cfg)"
  using assms by (auto simp: adopt_marker_def split: if_splits option.splits prod.splits)

lemma compacted_open_chain:
  assumes "journal_open cfg st data = Inr j" "starts_compacted (jc_codec cfg) data"
  shows "\<exists>ls torn tip. record_lines data = ls @ torn \<and> ls \<noteq> [] \<and> jn_seq j = journal_base (jc_codec cfg) data + length ls \<and>
    chain_ok cfg (journal_base (jc_codec cfg) data) tip ls \<and> jn_tip j = TipHash (jc_sha cfg) (last ls) \<and>
    (fl_Known (jc_floor cfg) \<longrightarrow> fl_Seq (jc_floor cfg) \<le> jn_seq j) \<and> attests cfg data tip"
proof -
  obtain line terminated rest where cut: "cut_line data = (line, terminated, rest)" by (cases "cut_line data")
  then obtain env where env: "TrimSpace line \<noteq> []" "decodeEnvelope (jc_codec cfg) line = Some env" "1 < en_Seq env"
    using assms(2) by (auto simp: starts_compacted_def split: option.splits)
  have data: "data \<noteq> []" using cut env(1) by (auto simp: cut_line_def split: option.splits)
  have base: "Suc (journal_base (jc_codec cfg) data) = en_Seq env" using assms(2) cut env by (simp add: journal_base_def)
  from assms(1) data obtain j' torn where fold: "fold_lines cfg True data (fresh_journal cfg data st) = (None, j', torn)"
    and j: "jn_seq j = jn_seq j'" "jn_tip j = jn_tip j'" "\<not> (fl_Known (jc_floor cfg) \<and> jn_seq j' < fl_Seq (jc_floor cfg))"
    by (auto simp: journal_open_def split: if_splits prod.splits option.splits)
  from fold obtain j1 j2 where adopt: "adopt_marker cfg env (fresh_journal cfg data st) = (None, j1)"
    and taken: "take_envelope cfg line env j1 = (None, j2)" and rest: "fold_lines cfg False rest j2 = (None, j', torn)"
    using data cut env by (auto simp: fold_lines.simps [of cfg True data] split: prod.splits option.splits)
  note marker = adopt_marker_ok [OF adopt] and first = take_envelope_ok [OF taken]
  obtain ls where ls: "record_lines rest = ls @ (if torn = [] then [] else [torn])"
    "chain_ok cfg (jn_seq j2) (jn_tip j2) ls" "jn_seq j' = jn_seq j2 + length ls"
    "jn_tip j' = (if ls = [] then jn_tip j2 else TipHash (jc_sha cfg) (last ls))"
    using fold_lines_chain [OF rest] by blast
  have seq: "Suc (jn_seq j1) = en_Seq env" using marker(3) env(3) by simp
  have "chain_ok cfg (journal_base (jc_codec cfg) data) (en_Parent env) (line # ls)"
    using first ls(2) env(2) marker(3,4) base seq by auto
  moreover have "record_lines data = (line # ls) @ (if torn = [] then [] else [torn])"
    using cut_line_records(1) [OF cut] env(1) ls(1) by simp
  moreover have "attests cfg data (en_Parent env)"
    unfolding attests_def using cut env base marker first(1) seq by (intro exI [of _ env]) auto
  ultimately show ?thesis
    using j ls(3,4) first(2,3) seq base
    by (intro exI [of _ "line # ls"] exI [of _ "if torn = [] then [] else [torn]"] exI [of _ "en_Parent env"]) auto
qed

text \<open>Both kinds of files: a chain of records from the base to the sequence the journal opened at.\<close>

lemma journal_open_spans:
  assumes "journal_open cfg st data = Inr j"
  shows "\<exists>ls torn tip. record_lines data = ls @ torn \<and> jn_seq j = journal_base (jc_codec cfg) data + length ls \<and>
    chain_ok cfg (journal_base (jc_codec cfg) data) tip ls \<and> (ls \<noteq> [] \<longrightarrow> jn_tip j = TipHash (jc_sha cfg) (last ls)) \<and>
    (fl_Known (jc_floor cfg) \<longrightarrow> fl_Seq (jc_floor cfg) \<le> jn_seq j) \<and>
    (starts_compacted (jc_codec cfg) data \<longrightarrow> ls \<noteq> [] \<and> attests cfg data tip)"
proof (cases "starts_compacted (jc_codec cfg) data")
  case True
  from compacted_open_chain [OF assms True] show ?thesis by blast
next
  case False
  from journal_open_chain [OF assms False] obtain ls torn where
    "record_lines data = ls @ torn" "jn_seq j = length ls"
    "chain_ok cfg 0 (GenesisParent (jc_sha cfg) (jc_domain cfg) (jc_store cfg)) ls"
    "ls \<noteq> [] \<longrightarrow> jn_tip j = TipHash (jc_sha cfg) (last ls)" "fl_Known (jc_floor cfg) \<longrightarrow> fl_Seq (jc_floor cfg) \<le> length ls"
    by blast
  moreover have "journal_base (jc_codec cfg) data = 0" using False by (simp add: journal_base_def)
  ultimately show ?thesis using False
    by (intro exI [of _ ls] exI [of _ torn] exI [of _ "GenesisParent (jc_sha cfg) (jc_domain cfg) (jc_store cfg)"]) simp
qed

lemma chains_agree:
  assumes "chain_ok cfg seq tip ls" "chain_ok cfg' seq' tip' ls'" "jc_codec cfg' = jc_codec cfg" "jc_sha cfg' = jc_sha cfg"
    and inj: "inj_on (jc_sha cfg) (set ls \<union> set ls')"
    and "i < length ls" "i' < length ls'" "TipHash (jc_sha cfg) (ls ! i) = TipHash (jc_sha cfg) (ls' ! i')"
    and "m \<le> i" "m \<le> i'"
  shows "ls ! (i - m) = ls' ! (i' - m)"
  using assms(9,10)
proof (induction m)
  case 0
  then show ?case using inj assms(6-8) by (auto simp: TipHash_def hex_EncodeToString_inj inj_on_def)
next
  case (Suc m)
  have "ls ! (i - m) = ls' ! (i' - m)" using Suc by simp
  moreover have "i - m - 1 = i - Suc m" "i' - m - 1 = i' - Suc m" "i - m \<noteq> 0" "i' - m \<noteq> 0" using Suc.prems by auto
  moreover have "i - m < length ls" "i' - m < length ls'" using assms(6,7) by linarith+
  ultimately have "TipHash (jc_sha cfg) (ls ! (i - Suc m)) = TipHash (jc_sha cfg) (ls' ! (i' - Suc m))"
    using chain_ok_nth [OF assms(1), of "i - m"] chain_ok_nth [OF assms(2), of "i' - m"] assms(3,4) by auto
  moreover have "ls ! (i - Suc m) \<in> set ls" "ls' ! (i' - Suc m) \<in> set ls'" using assms(6,7) by simp_all
  ultimately show ?case using inj by (auto simp: TipHash_def hex_EncodeToString_inj inj_on_def)
qed

text \<open>C18: 
  A committed tip pins the history before it. Take a journal that opened at sequence \<open>n\<close> with tip \<open>h\<close>, and a
  file that opens later with \<open>(n, h)\<close> as its floor. The file reaches at least \<open>n\<close>, and every record up to \<open>n\<close>
  that both files hold is the same, byte for byte; when neither file starts at a compaction marker these are all
  the first \<open>n\<close> records: whoever edits, drops, inserts or reorders a committed line, or cuts the journal below
  the floor, gets a file that does not open. A later file that starts at a compaction marker starts at one that
  verifies and attests the tip before it, and this tip is \<open>h\<close> when the marker follows \<open>n\<close> directly; what a
  marker above the floor has pruned rests on that signature alone. The digest must not collide on the lines of
  the two files.
\<close>

theorem committed_history_pinned:
  fixes data' :: string
  assumes "journal_open cfg st data = Inr j" "0 < jn_seq j"
    and "journal_open (cfg \<lparr>jc_floor := \<lparr>fl_Known = True, fl_Seq = jn_seq j, fl_Hash = jn_tip j\<rparr>\<rparr>) st' data' = Inr j'"
    and "inj_on (jc_sha cfg) (set (record_lines data) \<union> set (record_lines data'))"
  defines "base \<equiv> journal_base (jc_codec cfg) data" and "base' \<equiv> journal_base (jc_codec cfg) data'"
  shows "jn_seq j \<le> jn_seq j' \<and>
    (\<forall>k. base < k \<and> base' < k \<and> k \<le> jn_seq j \<longrightarrow> record_at (jc_codec cfg) data' k = record_at (jc_codec cfg) data k) \<and>
    (\<not> starts_compacted (jc_codec cfg) data \<and> \<not> starts_compacted (jc_codec cfg) data' \<longrightarrow>
       take (jn_seq j) (record_lines data') = take (jn_seq j) (record_lines data)) \<and>
    (starts_compacted (jc_codec cfg) data' \<longrightarrow>
       (\<exists>tip. attests (cfg \<lparr>jc_floor := \<lparr>fl_Known = True, fl_Seq = jn_seq j, fl_Hash = jn_tip j\<rparr>\<rparr>) data' tip \<and>
          (base' = jn_seq j \<longrightarrow> tip = jn_tip j)))"
proof -
  let ?floor = "\<lparr>fl_Known = True, fl_Seq = jn_seq j, fl_Hash = jn_tip j\<rparr>"
  let ?cfg' = "cfg \<lparr>jc_floor := ?floor\<rparr>"
  obtain ls torn tip where ls: "record_lines data = ls @ torn" "jn_seq j = base + length ls" "chain_ok cfg base tip ls"
    "ls \<noteq> [] \<longrightarrow> jn_tip j = TipHash (jc_sha cfg) (last ls)" "starts_compacted (jc_codec cfg) data \<longrightarrow> ls \<noteq> []"
    using journal_open_spans [OF assms(1)] unfolding base_def by blast
  from journal_open_spans [OF assms(3)]
  obtain ls' torn' tip' where ls': "record_lines data' = ls' @ torn'" "jn_seq j' = base' + length ls'"
    "chain_ok ?cfg' base' tip' ls'" "jn_seq j \<le> jn_seq j'"
    and marker: "starts_compacted (jc_codec cfg) data' \<longrightarrow> attests ?cfg' data' tip'"
    unfolding base'_def by auto
  have ne: "ls \<noteq> []" using ls(2,5) assms(2) by (auto simp: base_def journal_base_def)
  have inj: "inj_on (jc_sha cfg) (set ls \<union> set ls')"
    by (rule inj_on_subset [OF assms(4)]) (auto simp: ls(1) ls'(1))
  have same: "record_lines data' ! (k - base' - 1) = record_lines data ! (k - base - 1)"
    if k: "base < k" "base' < k" "k \<le> jn_seq j" for k
  proof -
    let ?i = "jn_seq j - base - 1" and ?i' = "jn_seq j - base' - 1"
    have i: "?i < length ls" "?i' < length ls'" "base' + ?i' + 1 = jn_seq j" using k ls(2) ls'(2,4) by linarith+
    have "TipHash (jc_sha cfg) (ls' ! ?i') = jn_tip j" using chain_ok_nth [OF ls'(3) i(2)] i(3) by auto
    moreover have "jn_tip j = TipHash (jc_sha cfg) (ls ! ?i)" using ls(2,4) ne by (auto simp: last_conv_nth)
    ultimately have "ls ! (?i - (jn_seq j - k)) = ls' ! (?i' - (jn_seq j - k))"
      using k by (intro chains_agree [OF ls(3) ls'(3) _ _ inj i(1,2)]) auto
    moreover have "?i - (jn_seq j - k) = k - base - 1" "?i' - (jn_seq j - k) = k - base' - 1"
      "k - base - 1 < length ls" "k - base' - 1 < length ls'" using k i by auto
    ultimately show ?thesis by (simp add: ls(1) ls'(1) nth_append)
  qed
  have "take (jn_seq j) (record_lines data') = take (jn_seq j) (record_lines data)" if "base = 0" "base' = 0"
  proof (rule nth_equalityI)
    show "length (take (jn_seq j) (record_lines data')) = length (take (jn_seq j) (record_lines data))"
      using that ls(1,2) ls'(1,2,4) by simp
    show "take (jn_seq j) (record_lines data') ! i = take (jn_seq j) (record_lines data) ! i"
      if "i < length (take (jn_seq j) (record_lines data'))" for i
      using that same [of "Suc i"] \<open>base = 0\<close> \<open>base' = 0\<close> by simp
  qed
  moreover have "starts_compacted (jc_codec cfg) data' \<longrightarrow>
      (\<exists>tip. attests ?cfg' data' tip \<and> (base' = jn_seq j \<longrightarrow> tip = jn_tip j))"
    using marker unfolding base'_def by (auto simp: attests_def)
  ultimately show ?thesis
    using ls'(4) same by (auto simp: record_at_def base_def base'_def journal_base_def)
qed

section \<open>Appends and the next opening\<close>

type_synonym append_op = "int \<times> string \<times> string \<times> string \<times> Link list"

fun append_one :: "'a journal_cfg \<Rightarrow> Signer \<Rightarrow> write_result \<Rightarrow> append_op \<Rightarrow> 'a journal \<Rightarrow> 'a journal" where
  "append_one cfg s w (now, typ, recordID, body, links) j = snd (Append cfg (Some s) w now typ recordID body links j)"

fun appended :: "'a journal_cfg \<Rightarrow> Signer \<Rightarrow> append_op \<Rightarrow> 'a journal \<Rightarrow> Envelope" where
  "appended cfg s (now, typ, recordID, body, links) j = new_envelope cfg s now typ recordID body links j"

fun append_all :: "'a journal_cfg \<Rightarrow> Signer \<Rightarrow> append_op list \<Rightarrow> 'a journal \<Rightarrow> 'a journal" where
  "append_all cfg s [] j = j"
| "append_all cfg s (op # ops) j = append_all cfg s ops (append_one cfg s WriteOk op j)"

text \<open>
  What an envelope must satisfy to be read back: the codec returns it from its line, which is one non-blank
  line; its key resolves, may still sign, and verifies what the signer signed; and it has a record id if its
  type needs one.
\<close>

definition readable :: "'a journal_cfg \<Rightarrow> Signer \<Rightarrow> Envelope \<Rightarrow> bool" where
  "readable cfg s env \<longleftrightarrow>
     cx_decode (jc_codec cfg) (cx_marshal (jc_codec cfg) env) = Some env \<and>
     CHR 0x0A \<notin> set (cx_marshal (jc_codec cfg) env) \<and> TrimSpace (cx_marshal (jc_codec cfg) env) \<noteq> [] \<and>
     (en_RecordID env \<noteq> [] \<or> en_Type env = TypeMigration \<or> en_Type env = TypeCompact) \<and>
     (case jc_resolve cfg (sg_gatewayID s) (sg_keyID s) of
        None \<Rightarrow> False
      | Some pub \<Rightarrow> jc_verify cfg pub (signingPayload env) (sg_sign s (signingPayload env))) \<and>
     (case jc_bound cfg of
        None \<Rightarrow> True
      | Some bound \<Rightarrow> (case bound (sg_gatewayID s) (sg_keyID s) of None \<Rightarrow> True | Some t \<Rightarrow> en_At env < t))"

fun envelopes :: "'a journal_cfg \<Rightarrow> Signer \<Rightarrow> append_op list \<Rightarrow> 'a journal \<Rightarrow> Envelope list" where
  "envelopes cfg s [] j = []"
| "envelopes cfg s (op # ops) j = appended cfg s op j # envelopes cfg s ops (append_one cfg s WriteOk op j)"

fun apply_all :: "(Envelope \<Rightarrow> 'a \<Rightarrow> 'a option) \<Rightarrow> Envelope list \<Rightarrow> 'a \<Rightarrow> 'a option" where
  "apply_all f [] st = Some st"
| "apply_all f (e # es) st = (case f e st of None \<Rightarrow> None | Some st' \<Rightarrow> apply_all f es st')"

lemma new_envelope_fields [simp]:
  "en_V (new_envelope cfg s now typ rid body links j) = Version"
  "en_Seq (new_envelope cfg s now typ rid body links j) = Suc (jn_seq j)"
  "en_Parent (new_envelope cfg s now typ rid body links j) = jn_tip j"
  "en_DomainID (new_envelope cfg s now typ rid body links j) = jc_domain cfg"
  "en_KeyRef (new_envelope cfg s now typ rid body links j) = Ref s"
  "en_At (new_envelope cfg s now typ rid body links j) = max (jn_lastAt j) now"
  by (simp_all add: new_envelope_def Let_def)

lemma new_envelope_sig:
  "hex_DecodeString (en_Sig (new_envelope cfg s now typ rid body links j)) =
     Some (sg_sign s (signingPayload (new_envelope cfg s now typ rid body links j)))"
  by (simp add: new_envelope_def Let_def signingPayload_def signingPayloadV2_def)

lemma decode_readable: "readable cfg s env \<Longrightarrow> en_V env = Version \<Longrightarrow> decodeEnvelope (jc_codec cfg) (cx_marshal (jc_codec cfg) env) = Some env"
  by (simp add: readable_def decodeEnvelope_def Version_def)

text \<open>A reader at the writer's position takes the writer's next line and stays at the writer's position.\<close>

definition at_position :: "'a journal \<Rightarrow> 'a journal \<Rightarrow> bool" where
  "at_position r j \<longleftrightarrow> jn_seq r = jn_seq j \<and> jn_tip r = jn_tip j \<and> jn_v2 r = jn_v2 j \<and> jn_lastAt r = jn_lastAt j"

lemma take_appended:
  assumes "readable cfg s (appended cfg s op j)" "at_position r j" "\<not> fl_Known (jc_floor cfg)"
    and "jc_apply cfg (appended cfg s op j) (jn_state r) = Some st"
  shows "\<exists>r'. take_envelope cfg (cx_marshal (jc_codec cfg) (appended cfg s op j)) (appended cfg s op j) r = (None, r') \<and>
    at_position r' (append_one cfg s WriteOk op j) \<and> jn_state r' = st \<and> jn_file r' = jn_file r \<and> jn_off r' = jn_off r"
proof -
  obtain now ty rid body links where op: "op = (now, ty, rid, body, links)" by (cases op)
  let ?env = "new_envelope cfg s now ty rid body links j"
  have "verifyEnvelope cfg (jn_seq r + 1) (jn_tip r) ?env = None"
    using assms(1,2) new_envelope_sig [of cfg s now ty rid body links j]
    by (auto simp: op verifyEnvelope_def readable_def at_position_def Ref_def split: option.splits)
  moreover have "checkOrder cfg ?env r = (None, r \<lparr>jn_v2 := True, jn_lastAt := max (jn_lastAt j) now\<rparr>)"
    using assms(1,2) by (auto simp: op checkOrder_def readable_def at_position_def Version_def Ref_def split: option.splits)
  ultimately show ?thesis using assms(2-4)
    by (simp add: op take_envelope_def Let_def at_position_def Append_def)
qed

lemma fold_one_line:
  assumes "CHR 0x0A \<notin> set line" "TrimSpace line \<noteq> []" "decodeEnvelope (jc_codec cfg) line = Some env"
    and "take_envelope cfg line env r = (None, r')"
  shows "fold_lines cfg False (line @ CHR 0x0A # rest) r = fold_lines cfg False rest r'"
proof -
  have "cut_line (line @ CHR 0x0A # rest) = (line, True, rest)" using assms(1) by (simp add: cut_line_def)
  then show ?thesis using assms(2-4) by (subst fold_lines.simps) simp
qed

lemma append_one_file:
  "jn_file (append_one cfg s WriteOk op j) = jn_file j @ cx_marshal (jc_codec cfg) (appended cfg s op j) @ [CHR 0x0A]"
  "jn_off (append_one cfg s WriteOk op j) = jn_off j + length (cx_marshal (jc_codec cfg) (appended cfg s op j) @ [CHR 0x0A])"
  "jn_state (append_one cfg s WriteOk op j) = jn_state j"
  by (cases op; simp add: Append_def Let_def)+

lemma append_all_file: "\<exists>bs. jn_file (append_all cfg s ops j) = jn_file j @ bs \<and> jn_off (append_all cfg s ops j) = jn_off j + length bs"
proof (induction ops arbitrary: j)
  case (Cons op ops)
  from Cons.IH [of "append_one cfg s WriteOk op j"] show ?case by (auto simp: append_one_file)
qed simp

lemma fold_appends:
  assumes "at_position r j" "\<not> fl_Known (jc_floor cfg)" "list_all (readable cfg s) (envelopes cfg s ops j)"
    and "apply_all (jc_apply cfg) (envelopes cfg s ops j) (jn_state r) = Some st"
    and "jn_file (append_all cfg s ops j) = jn_file j @ bs"
  shows "\<exists>r'. fold_lines cfg False bs r = (None, r', []) \<and> at_position r' (append_all cfg s ops j) \<and> jn_state r' = st"
  using assms
proof (induction ops arbitrary: j r bs)
  case Nil
  then show ?case by (simp add: fold_lines.simps)
next
  case (Cons op ops)
  let ?env = "appended cfg s op j" and ?j = "append_one cfg s WriteOk op j"
  obtain st1 where st1: "jc_apply cfg ?env (jn_state r) = Some st1" "apply_all (jc_apply cfg) (envelopes cfg s ops ?j) st1 = Some st"
    using Cons.prems(4) by (auto split: option.splits)
  have ok: "readable cfg s ?env" using Cons.prems(3) by simp
  obtain r1 where r1: "take_envelope cfg (cx_marshal (jc_codec cfg) ?env) ?env r = (None, r1)" "at_position r1 ?j" "jn_state r1 = st1"
    using take_appended [OF ok Cons.prems(1,2) st1(1)] by blast
  obtain bs' where bs': "jn_file (append_all cfg s ops ?j) = jn_file ?j @ bs'" using append_all_file by blast
  have bs: "bs = cx_marshal (jc_codec cfg) ?env @ CHR 0x0A # bs'"
    using Cons.prems(5) bs' by (simp add: append_one_file)
  have "en_V ?env = Version" by (cases op) simp
  then have "fold_lines cfg False bs r = fold_lines cfg False bs' r1"
    using fold_one_line [OF _ _ decode_readable [OF ok] r1(1)] ok by (simp add: bs readable_def)
  then show ?case using Cons.IH [OF r1(2) Cons.prems(2) _ _ bs'] Cons.prems(3) st1(2) r1(3) by simp
qed

text \<open>C19: 
  A journal written by appends opens again exactly where its writer stands: same position, same tip, same
  bytes, with the store's fold applied to the appended envelopes in order. The envelopes must be readable
  (the codec inverts, the key verifies and may sign) and accepted by the store's fold.
\<close>

theorem appended_journal_reopens:
  assumes "\<not> fl_Known (jc_floor cfg)" "j = append_all cfg s ops (fresh_journal cfg [] st)"
    and "list_all (readable cfg s) (envelopes cfg s ops (fresh_journal cfg [] st))"
    and "apply_all (jc_apply cfg) (envelopes cfg s ops (fresh_journal cfg [] st)) st = Some st'"
  shows "journal_open cfg st (jn_file j) = Inr (j \<lparr>jn_state := st'\<rparr>)"
proof (cases ops)
  case Nil
  then show ?thesis using assms by (simp add: journal_open_def fresh_journal_def)
next
  case (Cons op ops')
  let ?w = "fresh_journal cfg [] st" and ?data = "jn_file j"
  let ?r = "fresh_journal cfg ?data st" and ?env = "appended cfg s op (fresh_journal cfg [] st)"
  have bytes: "jn_file (append_all cfg s ops ?w) = jn_file ?w @ ?data" "jn_off j = length ?data"
    using append_all_file [of cfg s ops ?w] assms(2) by (auto simp: fresh_journal_def)
  have pos: "at_position ?r ?w" by (simp add: at_position_def fresh_journal_def)
  have "apply_all (jc_apply cfg) (envelopes cfg s ops ?w) (jn_state ?r) = Some st'"
    using assms(4) by (simp add: fresh_journal_def)
  from fold_appends [OF pos assms(1,3) this bytes(1)]
  obtain r where r: "fold_lines cfg False ?data ?r = (None, r, [])" "at_position r j" "jn_state r = st'"
    using assms(2) by blast
  obtain bs where bs: "?data = cx_marshal (jc_codec cfg) ?env @ CHR 0x0A # bs"
    using append_all_file [of cfg s ops' "append_one cfg s WriteOk op ?w"] assms(2) Cons
    by (auto simp: append_one_file fresh_journal_def)
  have ok: "readable cfg s ?env" "en_V ?env = Version" "en_Seq ?env = 1"
    using assms(3) Cons by (auto simp: fresh_journal_def) (cases op; simp add: fresh_journal_def)+
  have "\<not> starts_compacted (jc_codec cfg) ?data"
    using ok decode_readable [OF ok(1,2)] by (simp add: bs starts_compacted_def cut_line_def readable_def)
  then have "fold_lines cfg True ?data ?r = (None, r, [])" using r(1) fold_from_genesis by metis
  moreover have "last ?data = CHR 0x0A"
  proof -
    have "last (jn_file (append_all cfg s (x # xs) w)) = CHR 0x0A" for x xs w
      by (induction xs arbitrary: x w) (simp_all add: append_one_file)
    then show ?thesis using Cons assms(2) by simp
  qed
  ultimately have "journal_open cfg st ?data = Inr (r \<lparr>jn_file := ?data, jn_off := length ?data\<rparr>)"
    using assms(1) bs by (auto simp: journal_open_def settle_file_def)
  moreover have "r \<lparr>jn_file := ?data, jn_off := length ?data\<rparr> = j \<lparr>jn_state := st'\<rparr>"
    using r(2,3) bytes(2) by (intro journal.equality) (simp_all add: at_position_def)
  ultimately show ?thesis by simp
qed

section \<open>A small journal\<close>

text \<open>A codec that writes the envelope with sequence number \<open>n\<close> as the letter \<open>r\<close> followed by \<open>n\<close> marks.\<close>

definition mark_line :: "nat \<Rightarrow> string" where
  "mark_line n = CHR ''r'' # replicate n (CHR ''x'')"

definition mark_envelope :: "nat \<Rightarrow> Envelope" where
  "mark_envelope n = \<lparr>en_V = 2, en_Type = ''t'', en_DomainID = ''d'', en_Seq = n, en_RecordID = ''i'',
     en_Parent = (if n \<le> 1 then GenesisParent id ''d'' ''s'' else TipHash id (mark_line (n - 1))), en_Links = [],
     en_Payload = ''p'', en_KeyRef = \<lparr>kr_GatewayID = ''g'', kr_KeyID = ''k''\<rparr>, en_At = 5, en_Sig = hex_EncodeToString ''s''\<rparr>"

definition mark_codec :: codec where
  "mark_codec = \<lparr>cx_decode = (\<lambda>l. if l = mark_line (length l - 1) then Some (mark_envelope (length l - 1)) else None),
     cx_marshal = (\<lambda>env. mark_line (en_Seq env)), cx_keys = (\<lambda>l. Some []), cx_valid = (\<lambda>l. False),
     cx_compact = (\<lambda>p. None)\<rparr>"

definition mark_cfg :: "nat journal_cfg" where
  "mark_cfg = \<lparr>jc_store = ''s'', jc_domain = ''d'', jc_resolve = (\<lambda>g k. Some ''pub''), jc_bound = None,
     jc_floor = \<lparr>fl_Known = False, fl_Seq = 0, fl_Hash = []\<rparr>, jc_apply = (\<lambda>env n. Some (Suc n)), jc_codec = mark_codec,
     jc_sha = id, jc_verify = (\<lambda>pub payload sig. sig = ''s'')\<rparr>"

definition mark_signer :: Signer where
  "mark_signer = \<lparr>sg_sign = (\<lambda>p. ''s''), sg_gatewayID = ''g'', sg_keyID = ''k''\<rparr>"

definition mark_op :: append_op where
  "mark_op = (5, ''t'', ''i'', ''p'', [])"

definition mark_journal :: "nat \<Rightarrow> nat journal" where
  "mark_journal n = append_all mark_cfg mark_signer (replicate n mark_op) (fresh_journal mark_cfg [] 0)"

lemma mark_decode [simp]: "decodeEnvelope mark_codec (mark_line n) = Some (mark_envelope n)"
  by (simp add: decodeEnvelope_def mark_codec_def mark_line_def mark_envelope_def)

lemma mark_line_plain [simp]: "CHR 0x0A \<notin> set (mark_line n)" "TrimSpace (mark_line n) \<noteq> []"
  by (auto simp: mark_line_def TrimSpace_def ascii_space_def)

lemma mark_verify:
  "verifyEnvelope (mark_cfg \<lparr>jc_floor := f\<rparr>) seq tip (mark_envelope n) =
     (if n \<noteq> seq then Some SeqGap else if en_Parent (mark_envelope n) \<noteq> tip then Some ParentMismatch else None)"
  by (simp add: verifyEnvelope_def mark_cfg_def mark_envelope_def Version_def)

lemma mark_take:
  assumes "jn_seq j = n" "jn_tip j = en_Parent (mark_envelope (Suc n))" "jn_lastAt j \<le> 5"
    and "fl_Known f \<and> Suc n = fl_Seq f \<longrightarrow> TipHash id (mark_line (Suc n)) = fl_Hash f"
  shows "take_envelope (mark_cfg \<lparr>jc_floor := f\<rparr>) (mark_line (Suc n)) (mark_envelope (Suc n)) j =
    (None, j \<lparr>jn_v2 := True, jn_lastAt := 5, jn_state := Suc (jn_state j), jn_seq := Suc n,
              jn_tip := TipHash id (mark_line (Suc n))\<rparr>)"
  using assms
  by (simp add: take_envelope_def mark_verify checkOrder_def Let_def) (auto simp: mark_cfg_def mark_envelope_def)

lemma mark_fold:
  assumes "take_envelope (mark_cfg \<lparr>jc_floor := f\<rparr>) (mark_line n) (mark_envelope n) j = (None, j')"
  shows "fold_lines (mark_cfg \<lparr>jc_floor := f\<rparr>) False (mark_line n @ CHR 0x0A # rest) j =
    fold_lines (mark_cfg \<lparr>jc_floor := f\<rparr>) False rest j'"
  by (rule fold_one_line [OF _ _ _ assms]) (simp_all add: mark_cfg_def)

lemma mark_append:
  "append_one mark_cfg mark_signer w mark_op j =
     (let bytes = mark_line (Suc (jn_seq j)) @ [CHR 0x0A] in
      case w of
        WriteShort n \<Rightarrow> j \<lparr>jn_file := jn_file j @ take n bytes\<rparr>
      | SyncFails \<Rightarrow> j \<lparr>jn_file := jn_file j @ bytes\<rparr>
      | WriteOk \<Rightarrow>
          j \<lparr>jn_file := jn_file j @ bytes, jn_seq := Suc (jn_seq j), jn_tip := TipHash id (mark_line (Suc (jn_seq j))),
             jn_off := jn_off j + length bytes, jn_v2 := True, jn_lastAt := max (jn_lastAt j) 5\<rparr>)"
  by (simp add: mark_op_def Append_def Let_def mark_cfg_def mark_codec_def split: write_result.split)

lemma mark_genesis [simp]: "\<not> starts_compacted mark_codec (mark_line (Suc 0) @ CHR 0x0A # rest)"
  by (simp add: starts_compacted_def cut_line_def) (simp add: mark_envelope_def)

lemma mark_open:
  "journal_open (mark_cfg \<lparr>jc_floor := f\<rparr>) 0 (mark_line (Suc 0) @ CHR 0x0A # rest) =
     (case fold_lines (mark_cfg \<lparr>jc_floor := f\<rparr>) False (mark_line (Suc 0) @ CHR 0x0A # rest)
             (fresh_journal mark_cfg (mark_line (Suc 0) @ CHR 0x0A # rest) 0) of
        (Some e, j, torn) \<Rightarrow> Inl e
      | (None, j, torn) \<Rightarrow>
          if fl_Known f \<and> jn_seq j < fl_Seq f then Inl TruncatedBelowFloor
          else Inr (let data = settle_file (mark_line (Suc 0) @ CHR 0x0A # rest) torn in
                    j \<lparr>jn_file := data, jn_off := length data\<rparr>))"
proof -
  have "jc_codec (mark_cfg \<lparr>jc_floor := f\<rparr>) = mark_codec" by (simp add: mark_cfg_def)
  then show ?thesis
    by (auto simp: journal_open_def fold_from_genesis fresh_journal_def Let_def split: prod.split option.split)
qed

lemmas mark_run = mark_open mark_fold mark_take mark_append Let_def fold_lines.simps [of _ _ "[]"] fresh_journal_def
  settle_file_def mark_journal_def

lemma mark_parent [simp]:
  "en_Parent (mark_envelope (Suc 0)) = GenesisParent id ''d'' ''s''"
  "en_Parent (mark_envelope (Suc (Suc n))) = TipHash id (mark_line (Suc n))"
  by (simp_all add: mark_envelope_def)

lemma mark_cfg_floor: "mark_cfg = mark_cfg \<lparr>jc_floor := \<lparr>fl_Known = False, fl_Seq = 0, fl_Hash = []\<rparr>\<rparr>"
  by (simp add: mark_cfg_def)

lemma mark_cfg_genesis [simp]: "GenesisParent (jc_sha mark_cfg) (jc_domain mark_cfg) (jc_store mark_cfg) = GenesisParent id ''d'' ''s''"
  by (simp add: mark_cfg_def)

lemma mark_journals_open:
  "journal_open mark_cfg 0 (jn_file (mark_journal 2)) = Inr (mark_journal 2 \<lparr>jn_state := 2\<rparr>)"
  "journal_open (mark_cfg \<lparr>jc_floor := \<lparr>fl_Known = True, fl_Seq = jn_seq (mark_journal 2), fl_Hash = jn_tip (mark_journal 2)\<rparr>\<rparr>)
     0 (jn_file (mark_journal 3)) = Inr (mark_journal 3 \<lparr>jn_state := 3\<rparr>)"
  by (subst mark_cfg_floor, simp add: mark_run numeral_2_eq_2)
     (simp add: mark_run numeral_2_eq_2 numeral_3_eq_3)

lemma mark_readable:
  assumes "jn_tip j = en_Parent (mark_envelope (Suc (jn_seq j)))" "jn_lastAt j \<le> 5"
  shows "readable mark_cfg mark_signer (appended mark_cfg mark_signer mark_op j)"
proof -
  have "appended mark_cfg mark_signer mark_op j = mark_envelope (Suc (jn_seq j))"
    using assms by (simp add: mark_op_def new_envelope_def Let_def mark_cfg_def mark_envelope_def mark_signer_def Ref_def Version_def)
  moreover have "readable mark_cfg mark_signer (mark_envelope n)" for n
    using mark_line_plain [of n]
    by (simp add: readable_def mark_cfg_def mark_codec_def mark_signer_def) (simp add: mark_envelope_def mark_line_def)
  ultimately show ?thesis by simp
qed

theorem appended_journal_reopens_witness:
  "journal_open mark_cfg 0 (jn_file (mark_journal 2)) = Inr (mark_journal 2 \<lparr>jn_state := 2\<rparr>)"
proof (rule appended_journal_reopens)
  let ?es = "envelopes mark_cfg mark_signer [mark_op, mark_op] (fresh_journal mark_cfg [] 0)"
  show "mark_journal 2 = append_all mark_cfg mark_signer [mark_op, mark_op] (fresh_journal mark_cfg [] 0)"
    by (simp add: mark_journal_def numeral_2_eq_2)
  show "\<not> fl_Known (jc_floor mark_cfg)" by (simp add: mark_cfg_def)
  show "list_all (readable mark_cfg mark_signer) ?es"
    by (simp add: mark_readable mark_append fresh_journal_def Let_def)
  have "jc_apply mark_cfg = (\<lambda>env n. Some (Suc n))" by (simp add: mark_cfg_def)
  then show "apply_all (jc_apply mark_cfg) ?es 0 = Some 2" by simp
qed

theorem committed_history_pinned_witness:
  "take 2 (record_lines (jn_file (mark_journal 3))) = take 2 (record_lines (jn_file (mark_journal 2)))"
proof -
  have plain: "\<not> starts_compacted (jc_codec mark_cfg) (jn_file (mark_journal 2))"
    "\<not> starts_compacted (jc_codec mark_cfg) (jn_file (mark_journal 3))" and seq: "jn_seq (mark_journal 2) = 2"
    and cdc: "jc_codec mark_cfg = mark_codec"
    by (simp_all add: mark_run numeral_2_eq_2 numeral_3_eq_3) (simp_all add: mark_cfg_def)
  have sha: "jc_sha mark_cfg = id" by (simp add: mark_cfg_def)
  have open3: "journal_open (mark_cfg \<lparr>jc_floor := \<lparr>fl_Known = True, fl_Seq = jn_seq (mark_journal 2 \<lparr>jn_state := 2\<rparr>),
      fl_Hash = jn_tip (mark_journal 2 \<lparr>jn_state := 2\<rparr>)\<rparr>\<rparr>) 0 (jn_file (mark_journal 3)) = Inr (mark_journal 3 \<lparr>jn_state := 3\<rparr>)"
    using mark_journals_open(2) by simp
  from committed_history_pinned [OF mark_journals_open(1) _ open3] plain seq sha
  show ?thesis by simp
qed

section \<open>Journals that no longer open\<close>

text \<open>
  After a failed sync the journal's position stays behind the line that was written; the next append writes
  the same sequence number again, and the file does not open any more. A short write ends the same way: the
  next line continues the broken one.
\<close>

lemma mark_fold_replay:
  assumes "jn_seq j = n"
  shows "fold_lines (mark_cfg \<lparr>jc_floor := f\<rparr>) False (mark_line n @ CHR 0x0A # rest) j = (Some SeqGap, j, [])"
proof -
  have "cut_line (mark_line n @ CHR 0x0A # rest) = (mark_line n, True, rest)" by (simp add: cut_line_def)
  moreover have "take_envelope (mark_cfg \<lparr>jc_floor := f\<rparr>) (mark_line n) (mark_envelope n) j = (Some SeqGap, j)"
    using assms by (simp add: take_envelope_def mark_verify)
  moreover have "jc_codec (mark_cfg \<lparr>jc_floor := f\<rparr>) = mark_codec" by (simp add: mark_cfg_def)
  ultimately show ?thesis by (subst fold_lines.simps) simp
qed

lemma failed_sync_breaks_journal:
  "journal_open mark_cfg 0 (jn_file (append_one mark_cfg mark_signer WriteOk mark_op
     (append_one mark_cfg mark_signer SyncFails mark_op (mark_journal 1)))) = Inl SeqGap"
  by (subst (1) mark_cfg_floor, simp add: mark_run mark_fold_replay)

lemma mark_fold_corrupt:
  assumes "line \<noteq> []" "hd line = CHR ''r''" "CHR 0x0A \<notin> set line" "line \<noteq> mark_line (length line - 1)"
  shows "fold_lines (mark_cfg \<lparr>jc_floor := f\<rparr>) False (line @ CHR 0x0A # rest) j = (Some CorruptEnvelope, j, [])"
proof -
  have "cut_line (line @ CHR 0x0A # rest) = (line, True, rest)" using assms(3) by (simp add: cut_line_def)
  moreover have "TrimSpace line \<noteq> []" using assms(1,2) by (cases line) (auto simp: TrimSpace_def ascii_space_def)
  moreover have "decodeEnvelope (jc_codec (mark_cfg \<lparr>jc_floor := f\<rparr>)) line = None"
    using assms(4) by (simp add: decodeEnvelope_def mark_cfg_def mark_codec_def)
  ultimately show ?thesis by (subst fold_lines.simps) simp
qed

lemma short_write_breaks_journal:
  "journal_open mark_cfg 0 (jn_file (append_one mark_cfg mark_signer WriteOk mark_op
     (append_one mark_cfg mark_signer (WriteShort 1) mark_op (mark_journal 1)))) = Inl CorruptEnvelope"
proof -
  let ?line = "CHR ''r'' # mark_line (Suc (Suc 0))"
  have "fold_lines (mark_cfg \<lparr>jc_floor := f\<rparr>) False (CHR ''r'' # mark_line (Suc (Suc 0)) @ CHR 0x0A # rest) j =
    (Some CorruptEnvelope, j, [])" for f rest and j :: "nat journal"
    using mark_fold_corrupt [of ?line f rest j] by (simp add: mark_line_def)
  then show ?thesis
    by (subst (1) mark_cfg_floor, simp add: mark_run, simp add: mark_line_def)
qed

text \<open>
  Nothing in a compacted journal names its store: it opens for one store of the domain as it opens for
  another.
\<close>

lemma take_ignores_store [simp]: "take_envelope (cfg \<lparr>jc_store := s\<rparr>) = take_envelope cfg"
  by (cases cfg) (intro ext, simp only: take_envelope_def verifyEnvelope_def checkOrder_def journal_cfg.simps)

lemma adopt_ignores_store [simp]: "adopt_marker (cfg \<lparr>jc_store := s\<rparr>) = adopt_marker cfg"
  by (cases cfg) (intro ext, simp only: adopt_marker_def journal_cfg.simps)

lemma fold_ignores_store: "fold_lines (cfg \<lparr>jc_store := s\<rparr>) first rest j = fold_lines cfg first rest j"
proof (induction "length rest" arbitrary: first rest j rule: less_induct)
  case less
  obtain line terminated rest' where cut: "cut_line rest = (line, terminated, rest')" by (cases "cut_line rest")
  show ?case
  proof (cases "rest = []")
    case False
    then have IH: "fold_lines (cfg \<lparr>jc_store := s\<rparr>) f rest' j = fold_lines cfg f rest' j" for f j
      using less cut_line_shorter [OF cut] by blast
    have cdc: "jc_codec (cfg \<lparr>jc_store := s\<rparr>) = jc_codec cfg" by simp
    show ?thesis
      by (subst (1 2) fold_lines.simps) (simp only: cut prod.case IH cdc take_ignores_store adopt_ignores_store)
  qed (simp add: fold_lines.simps)
qed

lemma adopt_forgets_tip:
  "adopt_marker cfg env j = (None, j1) \<Longrightarrow> adopt_marker cfg env (j \<lparr>jn_tip := t\<rparr>) = (None, j1)"
  "adopt_marker cfg env j = (Some e, j1) \<Longrightarrow> adopt_marker cfg env (j \<lparr>jn_tip := t\<rparr>) = (Some e, j1 \<lparr>jn_tip := t\<rparr>)"
  by (auto simp: adopt_marker_def split: if_splits option.splits prod.splits)

lemma compacted_journal_fits_any_store:
  assumes "starts_compacted (jc_codec cfg) data"
  shows "journal_open (cfg \<lparr>jc_store := s\<rparr>) st data = journal_open cfg st data"
proof -
  obtain line terminated rest where cut: "cut_line data = (line, terminated, rest)" by (cases "cut_line data")
  then obtain env where env: "TrimSpace line \<noteq> []" "decodeEnvelope (jc_codec cfg) line = Some env" "1 < en_Seq env"
    using assms by (auto simp: starts_compacted_def split: option.splits)
  have data: "data \<noteq> []" using cut env(1) by (auto simp: cut_line_def TrimSpace_def split: option.splits)
  let ?g = "fresh_journal cfg data st"
  obtain t where fresh: "fresh_journal (cfg \<lparr>jc_store := s\<rparr>) data st = ?g \<lparr>jn_tip := t\<rparr>"
    by (simp add: fresh_journal_def)
  have "jc_floor (cfg \<lparr>jc_store := s\<rparr>) = jc_floor cfg" "jc_codec (cfg \<lparr>jc_store := s\<rparr>) = jc_codec cfg" by simp_all
  note same = this fold_ignores_store fresh
  show ?thesis
  proof (cases "adopt_marker cfg env ?g")
    case (Pair r j1)
    show ?thesis
    proof (cases r)
      case None
      then have "adopt_marker cfg env (?g \<lparr>jn_tip := t\<rparr>) = (None, j1)" using adopt_forgets_tip(1) Pair by blast
      then show ?thesis using Pair None cut env data
        by (simp only: journal_open_def same fold_lines.simps [of _ True data] adopt_ignores_store take_ignores_store)
          (simp only: prod.case option.case if_False simp_thms if_True)
    next
      case (Some e)
      then have "adopt_marker cfg env (?g \<lparr>jn_tip := t\<rparr>) = (Some e, j1 \<lparr>jn_tip := t\<rparr>)"
        using adopt_forgets_tip(2) Pair by blast
      then show ?thesis using Pair Some cut env data
        by (simp add: journal_open_def same fold_lines.simps [of _ True data])
    qed
  qed
qed

text \<open>
  A floor inside the pruned history is not compared with anything: a journal whose compaction marker lies above
  the floor opens for every hash the ledger may have committed there.
\<close>

lemma take_past_floor:
  assumes "fl_Seq (jc_floor cfg) \<le> jn_seq j"
  shows "take_envelope (cfg \<lparr>jc_floor := jc_floor cfg \<lparr>fl_Hash := h\<rparr>\<rparr>) line env j = take_envelope cfg line env j"
    and "take_envelope cfg line env j = (r, j') \<Longrightarrow> fl_Seq (jc_floor cfg) \<le> jn_seq j'"
proof -
  have seq: "jn_seq (snd (checkOrder cfg env j)) = jn_seq j"
    by (auto simp: checkOrder_def split: option.splits)
  have "verifyEnvelope (cfg \<lparr>jc_floor := jc_floor cfg \<lparr>fl_Hash := h\<rparr>\<rparr>) = verifyEnvelope cfg"
    "checkOrder (cfg \<lparr>jc_floor := jc_floor cfg \<lparr>fl_Hash := h\<rparr>\<rparr>) = checkOrder cfg"
    by (cases cfg, intro ext, simp only: verifyEnvelope_def checkOrder_def journal_cfg.simps)+
  with assms seq show "take_envelope (cfg \<lparr>jc_floor := jc_floor cfg \<lparr>fl_Hash := h\<rparr>\<rparr>) line env j = take_envelope cfg line env j"
    by (auto simp: take_envelope_def Let_def split: option.splits prod.splits)
  show "take_envelope cfg line env j = (r, j') \<Longrightarrow> fl_Seq (jc_floor cfg) \<le> jn_seq j'"
    using assms seq by (auto simp: take_envelope_def Let_def split: option.splits prod.splits if_splits)
qed

lemma fold_past_floor:
  "fl_Seq (jc_floor cfg) \<le> jn_seq j \<Longrightarrow>
   fold_lines (cfg \<lparr>jc_floor := jc_floor cfg \<lparr>fl_Hash := h\<rparr>\<rparr>) False rest j = fold_lines cfg False rest j"
proof (induction "length rest" arbitrary: rest j rule: less_induct)
  case less
  obtain line terminated rest' where cut: "cut_line rest = (line, terminated, rest')" by (cases "cut_line rest")
  show ?case
  proof (cases "rest = []")
    case False
    then have IH: "fl_Seq (jc_floor cfg) \<le> jn_seq j' \<Longrightarrow>
        fold_lines (cfg \<lparr>jc_floor := jc_floor cfg \<lparr>fl_Hash := h\<rparr>\<rparr>) False rest' j' = fold_lines cfg False rest' j'" for j'
      using less.hyps cut_line_shorter [OF cut] by blast
    show ?thesis
      using cut IH take_past_floor [OF less.prems]
      by (subst (1 2) fold_lines.simps) (auto simp: less.prems split: option.splits prod.splits)
  qed (simp add: fold_lines.simps)
qed

theorem pruned_floor_not_compared:
  assumes "starts_compacted (jc_codec cfg) data" "fl_Seq (jc_floor cfg) < journal_base (jc_codec cfg) data"
  shows "journal_open (cfg \<lparr>jc_floor := jc_floor cfg \<lparr>fl_Hash := h\<rparr>\<rparr>) st data = journal_open cfg st data"
proof -
  let ?cfg' = "cfg \<lparr>jc_floor := jc_floor cfg \<lparr>fl_Hash := h\<rparr>\<rparr>" and ?g = "fresh_journal cfg data st"
  obtain line terminated rest where cut: "cut_line data = (line, terminated, rest)" by (cases "cut_line data")
  then obtain env where env: "TrimSpace line \<noteq> []" "decodeEnvelope (jc_codec cfg) line = Some env" "1 < en_Seq env"
    using assms(1) by (auto simp: starts_compacted_def split: option.splits)
  have data: "data \<noteq> []" using cut env(1) by (auto simp: cut_line_def split: option.splits)
  have base: "journal_base (jc_codec cfg) data = en_Seq env - 1" using assms(1) cut env by (simp add: journal_base_def)
  have adopt: "adopt_marker ?cfg' env ?g = adopt_marker cfg env ?g"
    using assms(2) base by (auto simp: adopt_marker_def split: option.splits prod.splits)
  have fresh: "fresh_journal ?cfg' data st = ?g" by (simp add: fresh_journal_def)
  have "fold_lines ?cfg' True data ?g = fold_lines cfg True data ?g"
  proof (cases "adopt_marker cfg env ?g")
    case (Pair r j1)
    show ?thesis
    proof (cases r)
      case None
      then have past: "fl_Seq (jc_floor cfg) \<le> jn_seq j1"
        using adopt_marker_ok(3) [of cfg env ?g j1] Pair assms(2) base by simp
      obtain r2 j2 where taken: "take_envelope cfg line env j1 = (r2, j2)" by force
      show ?thesis
        using data cut env adopt Pair None taken take_past_floor(1) [OF past, of h line env]
          fold_past_floor [OF take_past_floor(2) [OF past taken], of h rest]
        by (subst (1 2) fold_lines.simps) (simp split: option.splits)
    next
      case (Some e)
      then show ?thesis using data cut env adopt Pair by (subst (1 2) fold_lines.simps) simp
    qed
  qed
  then show ?thesis using data by (auto simp: journal_open_def fresh split: prod.splits option.splits)
qed

section \<open>Sealed files\<close>

text \<open>A sealed file that opens carries a valid seal for this store and domain, and is not older than its floor.\<close>

lemma sealed_file_genuine:
  assumes "OpenSealedFile sx sha verify resolve store domain floor (Some data) = Inr (Some (payload, seq, hash))"
  shows "\<exists>sf pub sig. sx_decode sx data = Some sf \<and> sf_Data sf = payload \<and> fc_FileSeq (sf_Sec sf) = seq \<and>
    fc_Store (sf_Sec sf) = store \<and> fc_DomainID (sf_Sec sf) = domain \<and>
    fc_PayloadHash (sf_Sec sf) = hex_EncodeToString (sha payload) \<and>
    resolve (kr_GatewayID (fc_KeyRef (sf_Sec sf))) (kr_KeyID (fc_KeyRef (sf_Sec sf))) = Some pub \<and>
    hex_DecodeString (fc_Sig (sf_Sec sf)) = Some sig \<and> verify pub (filePayload (sf_Sec sf)) sig \<and>
    (fl_Known floor \<longrightarrow> fl_Seq floor \<le> seq \<and> (seq = fl_Seq floor \<longrightarrow> hash = fl_Hash floor))"
  using assms by (auto simp: OpenSealedFile_def Let_def not_less split: if_splits option.splits)

text \<open>An empty file is taken for a store that was never written, whatever the floor says.\<close>

lemma emptied_sealed_file_passes_floor:
  "OpenSealedFile sx sha verify resolve store domain floor (Some []) = Inr None"
  by (simp add: OpenSealedFile_def)

end
