(* ===== verification/Go_UTF8.thy ===== *)
theory Go_UTF8
  imports Go_Prelude
begin

text \<open>
  The parts of Go's \<^verbatim>\<open>unicode/utf8\<close>, \<^verbatim>\<open>path\<close> and \<^verbatim>\<open>net\<close> packages that the proxy uses: decoding and encoding
  of runes, \<^verbatim>\<open>path.Match\<close> and \<^verbatim>\<open>net.SplitHostPort\<close>. Strings are their bytes; a rune is an integer.
\<close>

section \<open>Runes\<close>

abbreviation byte :: "char \<Rightarrow> int" where
  "byte c \<equiv> of_char c"

definition RuneError :: int where "RuneError = 0xFFFD"

definition cont :: "char \<Rightarrow> bool" where
  "cont c \<longleftrightarrow> 0x80 \<le> byte c \<and> byte c \<le> 0xBF"

text \<open>The range of the second byte, which excludes overlong forms, surrogates and values above the last rune.\<close>

definition second_ok :: "char \<Rightarrow> char \<Rightarrow> bool" where
  "second_ok a b \<longleftrightarrow>
     (if byte a = 0xE0 then 0xA0 \<le> byte b \<and> byte b \<le> 0xBF
      else if byte a = 0xED then 0x80 \<le> byte b \<and> byte b \<le> 0x9F
      else if byte a = 0xF0 then 0x90 \<le> byte b \<and> byte b \<le> 0xBF
      else if byte a = 0xF4 then 0x80 \<le> byte b \<and> byte b \<le> 0x8F
      else cont b)"

text \<open>\<^verbatim>\<open>utf8.DecodeRuneInString\<close>: the rune and its size; an invalid byte is the error rune of size one.\<close>

fun DecodeRune :: "string \<Rightarrow> int \<times> nat" where
  "DecodeRune [] = (RuneError, 0)"
| "DecodeRune (a # s) =
     (if byte a < 0x80 then (byte a, 1)
      else if 0xC2 \<le> byte a \<and> byte a \<le> 0xDF then
        (case s of
           b # _ \<Rightarrow> if cont b then ((byte a - 0xC0) * 64 + (byte b - 0x80), 2) else (RuneError, 1)
         | _ \<Rightarrow> (RuneError, 1))
      else if 0xE0 \<le> byte a \<and> byte a \<le> 0xEF then
        (case s of
           b # c # _ \<Rightarrow>
             if second_ok a b \<and> cont c
             then ((byte a - 0xE0) * 4096 + (byte b - 0x80) * 64 + (byte c - 0x80), 3) else (RuneError, 1)
         | _ \<Rightarrow> (RuneError, 1))
      else if 0xF0 \<le> byte a \<and> byte a \<le> 0xF4 then
        (case s of
           b # c # d # _ \<Rightarrow>
             if second_ok a b \<and> cont c \<and> cont d
             then ((byte a - 0xF0) * 262144 + (byte b - 0x80) * 4096 + (byte c - 0x80) * 64 + (byte d - 0x80), 4)
             else (RuneError, 1)
         | _ \<Rightarrow> (RuneError, 1))
      else (RuneError, 1))"

declare DecodeRune.simps(2) [simp del]

lemma DecodeRune_size: "s \<noteq> [] \<Longrightarrow> 1 \<le> snd (DecodeRune s) \<and> snd (DecodeRune s) \<le> length s"
  by (cases s) (auto simp: DecodeRune.simps(2) split: list.splits)

lemma DecodeRune_drop: "DecodeRune s = (r, n) \<Longrightarrow> s \<noteq> [] \<Longrightarrow> length (drop n s) < length s"
  using DecodeRune_size [of s] by simp

lemma DecodeRune_ascii: "byte a < 0x80 \<Longrightarrow> DecodeRune (a # s) = (byte a, 1)"
  by (simp add: DecodeRune.simps(2))

text \<open>\<^verbatim>\<open>utf8.Valid\<close>.\<close>

function utf8_Valid :: "string \<Rightarrow> bool" where
  "utf8_Valid s =
     (if s = [] then True
      else case DecodeRune s of (r, n) \<Rightarrow> \<not> (r = RuneError \<and> n = 1) \<and> utf8_Valid (drop n s))"
  by pat_completeness auto
termination
proof (relation "measure length", goal_cases)
  case (2 s r n)
  then show ?case using DecodeRune_drop [of s r n] by simp
qed simp

declare utf8_Valid.simps [simp del]

lemma DecodeRune_take:
  assumes "DecodeRune s = (r, n)" "s \<noteq> []" "\<not> (r = RuneError \<and> n = 1)"
  shows "DecodeRune (take n s @ t) = (r, n)"
proof (cases s)
  case (Cons a s')
  then show ?thesis using assms
    by (auto simp: DecodeRune.simps(2) split: if_split_asm list.splits)
qed (use assms in simp)

lemma utf8_Valid_Nil [simp]: "utf8_Valid []"
  by (subst utf8_Valid.simps) simp

lemma utf8_Valid_rune:
  assumes "DecodeRune s = (r, n)" "s \<noteq> []" "\<not> (r = RuneError \<and> n = 1)"
  shows "utf8_Valid (take n s @ t) \<longleftrightarrow> utf8_Valid t"
proof -
  have n: "1 \<le> n" "n \<le> length s" using DecodeRune_size [OF assms(2)] assms(1) by simp_all
  then have "take n s @ t \<noteq> []" "drop n (take n s @ t) = t" using assms(2) by auto
  then show ?thesis using DecodeRune_take [OF assms, of t] assms(3)
    by (subst utf8_Valid.simps) simp
qed

lemma utf8_Valid_byte: "byte c < 0x80 \<Longrightarrow> utf8_Valid (c # t) \<longleftrightarrow> utf8_Valid t"
  by (subst utf8_Valid.simps) (simp add: DecodeRune_ascii RuneError_def)

lemma utf8_Valid_append: "utf8_Valid s \<Longrightarrow> utf8_Valid (s @ t) \<longleftrightarrow> utf8_Valid t"
proof (induction s rule: utf8_Valid.induct)
  case (1 s)
  show ?case
  proof (cases "s = []")
    case False
    obtain r n where rn: "DecodeRune s = (r, n)" by fastforce
    with 1 False have ok: "\<not> (r = RuneError \<and> n = 1)" "utf8_Valid (drop n s)"
      by (subst (asm) (3) utf8_Valid.simps; simp)+
    have "utf8_Valid (take n s @ (drop n s @ t)) \<longleftrightarrow> utf8_Valid (drop n s @ t)"
      using utf8_Valid_rune [OF rn False ok(1)] .
    then show ?thesis using 1(1) [OF False rn [symmetric] ok(2)] by (simp flip: append_assoc)
  qed simp
qed

lemma ascii_utf8_Valid: "ascii s \<Longrightarrow> utf8_Valid s"
proof (induction s)
  case (Cons c s)
  then have "byte c < 0x80" using of_nat_of_char [of c, where 'a = int] by (simp add: ascii_def)
  with Cons show ?case by (simp add: ascii_def utf8_Valid_byte)
qed simp

definition char_byte :: "int \<Rightarrow> char" where
  "char_byte v = char_of (nat v)"

text \<open>\<^verbatim>\<open>utf8.AppendRune\<close>: surrogates and values outside the range are written as the error rune.\<close>

definition EncodeRune :: "int \<Rightarrow> string" where
  "EncodeRune r =
     (let v = (if r < 0 \<or> 0x10FFFF < r \<or> (0xD800 \<le> r \<and> r \<le> 0xDFFF) then RuneError else r) in
      if v < 0x80 then [char_byte v]
      else if v < 0x800 then [char_byte (0xC0 + v div 64), char_byte (0x80 + v mod 64)]
      else if v < 0x10000 then
        [char_byte (0xE0 + v div 4096), char_byte (0x80 + v div 64 mod 64), char_byte (0x80 + v mod 64)]
      else
        [char_byte (0xF0 + v div 262144), char_byte (0x80 + v div 4096 mod 64), char_byte (0x80 + v div 64 mod 64),
         char_byte (0x80 + v mod 64)])"

section \<open>path.Match\<close>

datatype pat_item =
    PLit char
  | PAny
  | PStar
  | PClass bool "(int \<times> int) list"

definition getEsc :: "string \<Rightarrow> (int \<times> string) option" where
  "getEsc chunk =
     (case chunk of
        [] \<Rightarrow> None
      | c # rest \<Rightarrow>
          if c = CHR ''-'' \<or> c = CHR '']'' then None
          else let body = (if c = CHR 0x5C then rest else chunk) in
            if body = [] then None
            else (case DecodeRune body of
                    (r, n) \<Rightarrow> if (r = RuneError \<and> n = 1) \<or> drop n body = [] then None else Some (r, drop n body)))"

lemma getEsc_shorter: "getEsc chunk = Some (r, rest) \<Longrightarrow> length rest < length chunk"
  using DecodeRune_drop
  by (fastforce simp: getEsc_def Let_def split: list.splits if_splits prod.splits)

text \<open>The ranges of a class, up to and with its closing bracket.\<close>

function parse_ranges :: "(int \<times> int) list \<Rightarrow> string \<Rightarrow> ((int \<times> int) list \<times> string) option" where
  "parse_ranges acc chunk =
     (if acc \<noteq> [] \<and> HasPrefix chunk '']'' then Some (acc, drop 1 chunk)
      else (case getEsc chunk of
              None \<Rightarrow> None
            | Some (lo, rest) \<Rightarrow>
                if HasPrefix rest ''-'' then
                  (case getEsc (drop 1 rest) of
                     None \<Rightarrow> None
                   | Some (hi, rest') \<Rightarrow> parse_ranges (acc @ [(lo, hi)]) rest')
                else parse_ranges (acc @ [(lo, lo)]) rest))"
  by pat_completeness auto
termination
  by (relation "measure (\<lambda>(acc, chunk). length chunk)") (fastforce dest!: getEsc_shorter)+

declare parse_ranges.simps [simp del]

lemma parse_ranges_shorter: "parse_ranges acc chunk = Some (rs, rest) \<Longrightarrow> length rest \<le> length chunk"
proof (induction acc chunk rule: parse_ranges.induct)
  case (1 acc chunk)
  show ?case
  proof (cases "acc \<noteq> [] \<and> HasPrefix chunk '']''")
    case True
    then show ?thesis using "1.prems" by (subst (asm) parse_ranges.simps) auto
  next
    case False
    then obtain lo r where lo: "getEsc chunk = Some (lo, r)"
      using "1.prems" by (subst (asm) parse_ranges.simps) (auto split: option.splits)
    show ?thesis
    proof (cases "HasPrefix r ''-''")
      case True
      with False lo obtain hi r' where hi: "getEsc (drop 1 r) = Some (hi, r')"
        using "1.prems" by (subst (asm) parse_ranges.simps) (auto split: option.splits)
      have "parse_ranges (acc @ [(lo, hi)]) r' = Some (rs, rest)"
        using False True lo hi "1.prems" by (subst (asm) parse_ranges.simps) auto
      then show ?thesis
        using "1.IH"(1) [OF False lo refl True hi refl] getEsc_shorter [OF lo] getEsc_shorter [OF hi] by simp
    next
      case no_dash: False
      have "parse_ranges (acc @ [(lo, lo)]) r = Some (rs, rest)"
        using False no_dash lo "1.prems" by (subst (asm) parse_ranges.simps) auto
      then show ?thesis using "1.IH"(2) [OF False lo refl no_dash] getEsc_shorter [OF lo] by simp
    qed
  qed
qed

text \<open>A pattern as its items; a malformed pattern has none.\<close>

function pat_items :: "string \<Rightarrow> pat_item list option" where
  "pat_items [] = Some []"
| "pat_items (c # rest) =
     (if c = CHR ''*'' then map_option ((#) PStar) (pat_items rest)
      else if c = CHR ''?'' then map_option ((#) PAny) (pat_items rest)
      else if c = CHR ''['' then
        (let negated = HasPrefix rest ''^'' in
         case parse_ranges [] (if negated then drop 1 rest else rest) of
           None \<Rightarrow> None
         | Some (rs, rest') \<Rightarrow> map_option ((#) (PClass negated rs)) (pat_items rest'))
      else if c = CHR 0x5C then
        (case rest of [] \<Rightarrow> None | d # rest' \<Rightarrow> map_option ((#) (PLit d)) (pat_items rest'))
      else map_option ((#) (PLit c)) (pat_items rest))"
  by pat_completeness auto
termination
  by (relation "measure length") (auto dest!: parse_ranges_shorter split: if_splits)

text \<open>One chunk without a star against the start of a name: what is left of the name.\<close>

fun match_items :: "pat_item list \<Rightarrow> string \<Rightarrow> string option" where
  "match_items [] s = Some s"
| "match_items (PLit c # items) s =
     (case s of [] \<Rightarrow> None | d # t \<Rightarrow> if c = d then match_items items t else None)"
| "match_items (PAny # items) s =
     (case s of [] \<Rightarrow> None
      | d # t \<Rightarrow> if d = CHR ''/'' then None else match_items items (drop (snd (DecodeRune s)) s))"
| "match_items (PClass negated rs # items) s =
     (if s = [] then None
      else let r = fst (DecodeRune s) in
        if list_ex (\<lambda>(lo, hi). lo \<le> r \<and> r \<le> hi) rs = negated then None
        else match_items items (drop (snd (DecodeRune s)) s))"
| "match_items (PStar # items) s = None"

text \<open>After a star: the first position behind at least one byte, none of them a slash, where the chunk fits.\<close>

fun match_skip :: "pat_item list \<Rightarrow> bool \<Rightarrow> string \<Rightarrow> string option" where
  "match_skip items is_last [] = None"
| "match_skip items is_last (c # name) =
     (if c = CHR ''/'' then None
      else (case match_items items name of
              Some t \<Rightarrow> if is_last \<and> t \<noteq> [] then match_skip items is_last name else Some t
            | None \<Rightarrow> match_skip items is_last name))"

fun pat_chunks :: "pat_item list \<Rightarrow> (bool \<times> pat_item list) list" where
  "pat_chunks [] = []"
| "pat_chunks (PStar # items) =
     (case pat_chunks items of
        [] \<Rightarrow> [(True, [])]
      | (star, ch) # rest \<Rightarrow> (True, ch) # rest)"
| "pat_chunks (i # items) =
     (case pat_chunks items of
        [] \<Rightarrow> [(False, [i])]
      | (star, ch) # rest \<Rightarrow> if star then (False, [i]) # (star, ch) # rest else (False, i # ch) # rest)"

fun match_chunks :: "(bool \<times> pat_item list) list \<Rightarrow> string \<Rightarrow> bool" where
  "match_chunks [] name = (name = [])"
| "match_chunks ((star, items) # rest) name =
     (if star \<and> items = [] then CHR ''/'' \<notin> set name
      else (case (case match_items items name of
                    Some t \<Rightarrow> if t = [] \<or> rest \<noteq> [] then Some t else None
                  | None \<Rightarrow> None) of
              Some t \<Rightarrow> match_chunks rest t
            | None \<Rightarrow>
                if star then (case match_skip items (rest = []) name of
                                None \<Rightarrow> False
                              | Some t \<Rightarrow> match_chunks rest t)
                else False))"

definition path_Match :: "string \<Rightarrow> string \<Rightarrow> bool option" where
  "path_Match pattern name = map_option (\<lambda>items. match_chunks (pat_chunks items) name) (pat_items pattern)"

section \<open>net.SplitHostPort\<close>

definition net_SplitHostPort :: "string \<Rightarrow> (string \<times> string) option" where
  "net_SplitHostPort hostport =
     (case LastIndexByte hostport (CHR '':'') of
        None \<Rightarrow> None
      | Some i \<Rightarrow>
          if HasPrefix hostport ''['' then
            (case IndexByte hostport (CHR '']'') of
               None \<Rightarrow> None
             | Some e \<Rightarrow>
                 if e + 1 \<noteq> i then None
                 else if CHR ''['' \<in> set (drop 1 hostport) \<or> CHR '']'' \<in> set (drop (e + 1) hostport) then None
                 else Some (drop 1 (take e hostport), drop (i + 1) hostport))
          else if CHR '':'' \<in> set (take i hostport) \<or> CHR ''['' \<in> set hostport \<or> CHR '']'' \<in> set hostport then None
          else Some (take i hostport, drop (i + 1) hostport))"

end
