(* ===== verification/Proxy_Net.thy ===== *)
theory Proxy_Net
  imports Go_URL Go_UTF8
begin

text \<open>
  Component: hosts and destinations of the proxy (\<^verbatim>\<open>proxy/internal/proxy/proxy.go\<close>, \<^verbatim>\<open>hardening.go\<close>,
  \<^verbatim>\<open>upstream.go\<close>): the canonical form of a host name, sensitive-host patterns, and the guard that only public
  addresses are dialled. Name resolution and the dial itself are parameters. White space at the ends of a host
  name is the ASCII white space of \<^verbatim>\<open>unicode.IsSpace\<close>.
\<close>

section \<open>Host names\<close>

definition trim_of :: "(char \<Rightarrow> bool) \<Rightarrow> string \<Rightarrow> string" where
  "trim_of P s = rev (dropWhile P (rev (dropWhile P s)))"

definition host_pad :: "char \<Rightarrow> bool" where
  "host_pad c \<longleftrightarrow> c = CHR ''.'' \<or> ascii_space c"

definition bracket :: "char \<Rightarrow> bool" where
  "bracket c \<longleftrightarrow> c = CHR ''['' \<or> c = CHR '']''"

definition normalizeHostOnce :: "string \<Rightarrow> string" where
  "normalizeHostOnce host =
     (let h1 = (case net_SplitHostPort host of Some (h, p) \<Rightarrow> h | None \<Rightarrow> host);
          h2 = ToLower (trim_of host_pad h1) in
      if net_ParseIP_ok (trim_of bracket h2) then trim_of bracket h2 else h2)"

fun normalize_passes :: "nat \<Rightarrow> string \<Rightarrow> string" where
  "normalize_passes 0 host = host"
| "normalize_passes (Suc i) host =
     (let n = normalizeHostOnce host in if n = host then n else normalize_passes i n)"

definition normalizeHost :: "string \<Rightarrow> string" where
  "normalizeHost host = normalize_passes 8 host"

definition matchHostGlob :: "string list \<Rightarrow> string \<Rightarrow> bool" where
  "matchHostGlob globs host0 \<longleftrightarrow>
     (let host = normalizeHost host0 in
      list_ex (\<lambda>g0. let g = normalizeHost g0 in g = host \<or> path_Match g host = Some True) globs)"

section \<open>Addresses\<close>

text \<open>An address is its value; a mapped IPv4 address in IPv6 form is the IPv4 address.\<close>

datatype ip = IPv4 int | IPv6 int

definition To4 :: "ip \<Rightarrow> ip" where
  "To4 a = (case a of IPv6 v \<Rightarrow> if v div 4294967296 = 0xFFFF then IPv4 (v mod 4294967296) else a | IPv4 v \<Rightarrow> a)"

definition decimal :: "string \<Rightarrow> int" where
  "decimal s = foldl (\<lambda>v c. 10 * v + (of_char c - 48)) 0 s"

definition hexval :: "string \<Rightarrow> int" where
  "hexval s = foldl (\<lambda>v c. 16 * v + int (unhex c)) 0 s"

definition ipv4_value :: "string \<Rightarrow> int" where
  "ipv4_value s = foldl (\<lambda>v f. 256 * v + decimal f) 0 (SplitByte (CHR ''.'') s)"

text \<open>The 16-bit groups of an IPv6 address; \<^const>\<open>None\<close> is the ellipsis.\<close>

function ipv6_groups :: "string \<Rightarrow> int option list" where
  "ipv6_groups s =
     (if s = [] then []
      else let d = takeWhile ishex s; r = dropWhile ishex s in
        (case r of
           [] \<Rightarrow> [Some (hexval d)]
         | c # r' \<Rightarrow>
             if c = CHR ''.'' then [Some (ipv4_value s div 65536), Some (ipv4_value s mod 65536)]
             else if HasPrefix r' '':'' then Some (hexval d) # None # ipv6_groups (drop 1 r')
             else Some (hexval d) # ipv6_groups r'))"
  by pat_completeness auto
termination
proof (relation "measure length", goal_cases)
  case (2 s d r c r')
  then have "length (c # r') \<le> length s" by (metis length_dropWhile_le)
  then show ?case by simp
next
  case (3 s d r c r')
  then have "length (c # r') \<le> length s" by (metis length_dropWhile_le)
  then show ?case by simp
qed simp

declare ipv6_groups.simps [simp del]

definition ipv6_value :: "string \<Rightarrow> int" where
  "ipv6_value s =
     (let gs = (if HasPrefix s ''::'' then None # ipv6_groups (drop 2 s) else ipv6_groups s);
          fill = replicate (9 - length gs) 0 in
      foldl (\<lambda>v g. 65536 * v + g) 0 (concat (map (\<lambda>g. case g of None \<Rightarrow> fill | Some x \<Rightarrow> [x]) gs)))"

definition net_ParseIP :: "string \<Rightarrow> ip option" where
  "net_ParseIP s =
     (case netip_ParseAddr s of
        Some Addr4 \<Rightarrow> Some (IPv4 (ipv4_value s))
      | Some Addr6 \<Rightarrow> Some (To4 (IPv6 (ipv6_value s)))
      | _ \<Rightarrow> None)"

text \<open>A network: its address and the number of host bits.\<close>

definition net_Contains :: "ip \<times> nat \<Rightarrow> ip \<Rightarrow> bool" where
  "net_Contains n a \<longleftrightarrow>
     (case (fst n, To4 a) of
        (IPv4 b, IPv4 v) \<Rightarrow> v div 2 ^ snd n = b div 2 ^ snd n
      | (IPv6 b, IPv6 v) \<Rightarrow> v div 2 ^ snd n = b div 2 ^ snd n
      | _ \<Rightarrow> False)"

definition v4net :: "int \<Rightarrow> int \<Rightarrow> int \<Rightarrow> int \<Rightarrow> nat \<Rightarrow> ip \<times> nat" where
  "v4net a b c d k = (IPv4 (((a * 256 + b) * 256 + c) * 256 + d), 32 - k)"

definition nonPublicNets :: "(ip \<times> nat) list" where
  "nonPublicNets =
     [v4net 0 0 0 0 8, v4net 10 0 0 0 8, v4net 100 64 0 0 10, v4net 127 0 0 0 8, v4net 169 254 0 0 16,
      v4net 172 16 0 0 12, v4net 192 0 0 0 24, v4net 192 0 2 0 24, v4net 192 168 0 0 16, v4net 198 18 0 0 15,
      v4net 198 51 100 0 24, v4net 203 0 113 0 24, v4net 192 88 99 0 24, v4net 224 0 0 0 4, v4net 240 0 0 0 4,
      (IPv6 0, 0), (IPv6 1, 0), (IPv6 (0x64FF9B * 2 ^ 96), 32), (IPv6 (0x64FF9B0001 * 2 ^ 80), 80),
      (IPv6 (0x100 * 2 ^ 112), 64), (IPv6 (0x20010DB8 * 2 ^ 96), 96), (IPv6 (0xFC00 * 2 ^ 112), 121),
      (IPv6 (0xFE80 * 2 ^ 112), 118), (IPv6 (0xFF00 * 2 ^ 112), 120)]"

definition isPublicIP :: "ip \<Rightarrow> bool" where
  "isPublicIP a \<longleftrightarrow> \<not> list_ex (\<lambda>n. net_Contains n a) nonPublicNets"

section \<open>The destination guard\<close>

datatype dest_error = NonPublic | LookupFailed | NoAddresses | BadAddress | DialFailed

definition resolvePublic :: "(string \<Rightarrow> ip list option) \<Rightarrow> string \<Rightarrow> dest_error + ip list" where
  "resolvePublic lookup host =
     (case net_ParseIP host of
        Some a \<Rightarrow> if isPublicIP a then Inr [a] else Inl NonPublic
      | None \<Rightarrow>
          (case lookup host of
             None \<Rightarrow> Inl LookupFailed
           | Some ips \<Rightarrow>
               if ips = [] then Inl NoAddresses
               else if list_ex (\<lambda>a. \<not> isPublicIP a) ips then Inl NonPublic
               else Inr ips))"

record guard =
  gd_publicEgress :: bool
  gd_upstreamHost :: string

definition checkLiteralDestination :: "guard \<Rightarrow> string \<Rightarrow> dest_error option" where
  "checkLiteralDestination g host =
     (if \<not> gd_publicEgress g then None
      else (case net_ParseIP host of
              Some a \<Rightarrow> if isPublicIP a then None else Some NonPublic
            | None \<Rightarrow> None))"

definition checkDestination :: "(string \<Rightarrow> ip list option) \<Rightarrow> guard \<Rightarrow> string \<Rightarrow> dest_error option" where
  "checkDestination lookup g host =
     (if \<not> gd_publicEgress g then None
      else if gd_upstreamHost g \<noteq> [] then checkLiteralDestination g host
      else (case resolvePublic lookup host of Inl e \<Rightarrow> Some e | Inr ips \<Rightarrow> None))"

definition isUpstreamAddr :: "guard \<Rightarrow> string \<Rightarrow> bool" where
  "isUpstreamAddr g addr \<longleftrightarrow> gd_upstreamHost g \<noteq> [] \<and> EqualFold addr (gd_upstreamHost g)"

text \<open>What is dialled: an address as given, or an address that was checked, with its port.\<close>

datatype dial_target = DialName string | DialIP ip string

fun dial_first :: "(dial_target \<Rightarrow> bool) \<Rightarrow> string \<Rightarrow> ip list \<Rightarrow> dial_target list \<times> dial_target option" where
  "dial_first up port [] = ([], None)"
| "dial_first up port (a # ips) =
     (if up (DialIP a port) then ([DialIP a port], Some (DialIP a port))
      else case dial_first up port ips of (tried, r) \<Rightarrow> (DialIP a port # tried, r))"

text \<open>\<open>dialChecked\<close>: what it tried to dial, in order, and the connection it returns.\<close>

definition dialChecked ::
  "(string \<Rightarrow> ip list option) \<Rightarrow> (dial_target \<Rightarrow> bool) \<Rightarrow> guard \<Rightarrow> string
     \<Rightarrow> dial_target list \<times> (dest_error + dial_target)" where
  "dialChecked lookup up g addr =
     (if \<not> gd_publicEgress g \<or> isUpstreamAddr g addr then
        ([DialName addr], if up (DialName addr) then Inr (DialName addr) else Inl DialFailed)
      else (case net_SplitHostPort addr of
              None \<Rightarrow> ([], Inl BadAddress)
            | Some (host, port) \<Rightarrow>
                (case resolvePublic lookup host of
                   Inl e \<Rightarrow> ([], Inl e)
                 | Inr ips \<Rightarrow>
                     (case dial_first up port ips of
                        (tried, None) \<Rightarrow> (tried, Inl DialFailed)
                      | (tried, Some t) \<Rightarrow> (tried, Inr t)))))"

end
