(* ===== verification/Proxy_Hosts.thy ===== *)
theory Proxy_Hosts
  imports Proxy_Net
begin

text \<open>
  What the host handling of the proxy promises: the canonical form of a host name is a fixed point, reached
  within the eight passes the code allows, and the destination guard lets only public addresses be dialled.
\<close>

section \<open>Trimming and case\<close>

lemma to_lower_idem [simp]: "to_lower (to_lower c) = to_lower c"
  by (auto simp: to_lower_def is_upper_def)

lemma ToLower_idem [simp]: "ToLower (ToLower s) = ToLower s"
  by (simp add: ToLower_def comp_def)

lemma trim_of_set: "set (trim_of P s) \<subseteq> set s"
  by (auto simp: trim_of_def dest!: set_dropWhileD)

lemma trim_of_ends: "trim_of P s \<noteq> [] \<Longrightarrow> \<not> P (hd (trim_of P s)) \<and> \<not> P (last (trim_of P s))"
proof -
  assume ne: "trim_of P s \<noteq> []"
  let ?t = "dropWhile P s"
  have "\<not> P (hd (dropWhile P (rev ?t)))" using ne hd_dropWhile [of P "rev ?t"] by (simp add: trim_of_def dropWhile_eq_Nil_conv)
  then have "\<not> P (last (trim_of P s))" using ne by (simp add: trim_of_def last_rev)
  moreover have "prefix (trim_of P s) ?t"
    using suffix_dropWhile [of P "rev ?t"] by (simp add: trim_of_def suffix_to_prefix)
  then have "hd (trim_of P s) = hd ?t" using ne by (auto simp: prefix_def)
  moreover have "\<not> P (hd ?t)" using ne hd_dropWhile [of P s] by (metis dropWhile.simps(1) rev.simps(1) trim_of_def)
  ultimately show ?thesis by simp
qed

lemma trim_of_id: "(s = [] \<or> \<not> P (hd s) \<and> \<not> P (last s)) \<Longrightarrow> trim_of P s = s"
proof -
  have left: "dropWhile P t = t" if "t = [] \<or> \<not> P (hd t)" for t using that by (cases t) auto
  assume "s = [] \<or> \<not> P (hd s) \<and> \<not> P (last s)"
  then have "dropWhile P s = s" "dropWhile P (rev s) = rev s" using left [of s] left [of "rev s"]
    by (cases "s = []"; simp add: hd_rev)+
  then show "trim_of P s = s" by (simp add: trim_of_def)
qed

lemma trim_of_idem [simp]: "trim_of P (trim_of P s) = trim_of P s"
  using trim_of_ends [of P s] trim_of_id by blast

lemma trim_of_map: "(\<And>c. P (f c) = P c) \<Longrightarrow> trim_of P (map f s) = map f (trim_of P s)"
  by (simp add: trim_of_def dropWhile_map comp_def rev_map)

lemma to_lower_other: "(\<forall>c. is_upper c \<or> is_lower c \<longrightarrow> \<not> P c) \<Longrightarrow> P (to_lower c) = P c"
  by (auto simp: to_lower_def is_upper_def is_lower_def)

lemma host_pad_lower: "host_pad (to_lower c) = host_pad c"
  by (rule to_lower_other) (auto simp: host_pad_def is_upper_def is_lower_def ascii_space_def)

definition clean_host :: "string \<Rightarrow> bool" where
  "clean_host h \<longleftrightarrow> ToLower (trim_of host_pad h) = h"

lemma clean_host_lower_trim [simp]: "clean_host (ToLower (trim_of host_pad h))"
  unfolding clean_host_def ToLower_def by (subst trim_of_map) (simp_all add: host_pad_lower comp_def)

section \<open>Brackets and colons\<close>

definition plain :: "string \<Rightarrow> bool" where
  "plain h \<longleftrightarrow> \<not> list_ex bracket h"

lemma plain_sub: "plain h \<Longrightarrow> set t \<subseteq> set h \<Longrightarrow> plain t"
  by (auto simp: plain_def list_ex_iff)

lemma plain_lower: "plain (ToLower h) \<longleftrightarrow> plain h"
proof -
  have "bracket (to_lower c) = bracket c" for c
    by (rule to_lower_other) (auto simp: bracket_def is_upper_def is_lower_def)
  then show ?thesis by (simp add: plain_def ToLower_def list_ex_iff)
qed

lemma plain_trim_bracket: "plain h \<Longrightarrow> trim_of bracket h = h"
  by (cases "h = []") (auto simp: plain_def list_ex_iff intro!: trim_of_id)

lemma SplitHostPort_plain:
  assumes "net_SplitHostPort h = Some (h', p)"
  shows "plain h'" and "plain h \<Longrightarrow> CHR '':'' \<notin> set h'"
proof -
  show "plain h'"
  proof (cases "HasPrefix h ''[''")
    case True
    then obtain e where e: "IndexByte h (CHR '']'') = Some e" "h' = drop 1 (take e h)" "CHR ''['' \<notin> set (drop 1 h)"
      using assms by (auto simp: net_SplitHostPort_def split: option.splits if_splits)
    then have "CHR '']'' \<notin> set (take e h)" by (auto simp: IndexByte_eq_Some_iff in_set_conv_nth)
    moreover have "set h' \<subseteq> set (take e h)" using e(2) set_drop_subset by metis
    moreover have "set h' \<subseteq> set (drop 1 h)" using e(2) set_take_subset by (metis drop_take)
    ultimately show ?thesis using e(3) by (auto simp: plain_def list_ex_iff bracket_def)
  next
    case False
    then show ?thesis using assms
      by (auto simp: net_SplitHostPort_def plain_def list_ex_iff bracket_def dest: in_set_takeD split: option.splits if_splits)
  qed
  show "CHR '':'' \<notin> set h'" if "plain h"
  proof -
    have "\<not> HasPrefix h ''[''" using that by (cases h) (auto simp: plain_def bracket_def)
    then show ?thesis using assms by (auto simp: net_SplitHostPort_def split: option.splits if_splits)
  qed
qed

lemma SplitHostPort_no_colon: "CHR '':'' \<notin> set h \<Longrightarrow> net_SplitHostPort h = None"
  by (simp add: net_SplitHostPort_def LastIndexByte_None_iff [THEN iffD2])

section \<open>Addresses have no brackets\<close>

lemma ishex_plain: "ishex c \<Longrightarrow> \<not> bracket c"
  by (auto simp: ishex_def is_digit_def bracket_def)

lemma valid_ipv4_plain: "valid_ipv4 s \<Longrightarrow> plain s"
proof -
  assume "valid_ipv4 s"
  then have fields: "\<forall>f\<in>set (SplitByte (CHR ''.'') s). list_all is_digit f"
    by (auto simp: valid_ipv4_def Let_def ipv4_field_def list_all_iff)
  have "set (JoinByte (CHR ''.'') fs) \<subseteq> {CHR ''.''} \<union> (\<Union>f\<in>set fs. set f)" for fs
    by (induction "CHR ''.''" fs rule: JoinByte.induct) auto
  from this [of "SplitByte (CHR ''.'') s"] fields
  have "c = CHR ''.'' \<or> is_digit c" if "c \<in> set s" for c
    using that by (auto simp: JoinByte_SplitByte list_all_iff)
  then have "\<not> bracket c" if "c \<in> set s" for c using that by (fastforce simp: bracket_def is_digit_def)
  then show ?thesis by (auto simp: plain_def list_ex_iff)
qed

lemma plain_append [simp]: "plain (a @ b) \<longleftrightarrow> plain a \<and> plain b"
  by (simp add: plain_def)

lemma plain_Cons [simp]: "plain (c # b) \<longleftrightarrow> \<not> bracket c \<and> plain b"
  by (simp add: plain_def)

lemma plain_Nil [simp]: "plain []"
  by (simp add: plain_def)

lemma ipv6_loop_plain: "ipv6_loop i ell s \<Longrightarrow> plain s"
proof (induction i ell s rule: ipv6_loop.induct)
  case (1 i ell s)
  let ?d = "takeWhile ishex s" and ?r = "dropWhile ishex s"
  have s: "s = ?d @ ?r" by simp
  have d: "plain ?d" using ishex_plain by (auto simp: plain_def list_ex_iff dest: set_takeWhileD)
  show ?case
  proof (cases "16 \<le> i")
    case True
    then show ?thesis using "1.prems" by (subst (asm) ipv6_loop.simps) simp
  next
    case False
    show ?thesis
    proof (cases ?r)
      case Nil
      then show ?thesis using d s by (metis append_Nil2)
    next
      case (Cons c r')
      have len: "\<not> (?d = [] \<or> 4 < length ?d)" using "1.prems" False by (subst (asm) ipv6_loop.simps) (auto simp: Let_def)
      consider "c = CHR ''.''" "valid_ipv4 s" | "c = CHR '':''" "plain r'"
      proof (cases "c = CHR ''.''")
        case True
        then show ?thesis using that(1) "1.prems" False len Cons
          by (subst (asm) ipv6_loop.simps) (auto simp: Let_def split: if_splits)
      next
        case ndot: False
        then have c: "c = CHR '':''" "r' \<noteq> []" using "1.prems" False len Cons
          by (subst (asm) ipv6_loop.simps; auto simp: Let_def split: if_splits list.splits)+
        then obtain c' r'' where r': "r' = c' # r''" by (cases r') auto
        have "plain r'"
        proof (cases "c' = CHR '':''")
          case True
          then have "r'' = [] \<or> ipv6_loop (i + 2) True r''" "\<not> ell"
            using "1.prems" False len Cons c r' by (subst (asm) ipv6_loop.simps; auto simp: Let_def split: if_splits)+
          then show ?thesis
            using "1.IH"(1) [OF False refl refl len Cons _ _ r' True] c ndot True r'
            by (cases "r'' = []") (auto simp: bracket_def)
        next
          case nc: False
          then have "ipv6_loop (i + 2) ell r'"
            using "1.prems" False len Cons c r' by (subst (asm) ipv6_loop.simps) (auto simp: Let_def split: if_splits)
          then show ?thesis using "1.IH"(2) [OF False refl refl len Cons _ _ r' nc] c ndot by auto
        qed
        then show ?thesis using that(2) c by blast
      qed
      then show ?thesis
      proof cases
        case 1
        then show ?thesis using valid_ipv4_plain by blast
      next
        case 2
        then have "plain (?d @ c # r')" using d by (simp add: bracket_def)
        then show ?thesis using Cons s by metis
      qed
    qed
  qed
qed

lemma ParseIP_plain: "net_ParseIP_ok s \<Longrightarrow> plain s"
proof -
  have "plain s" if "valid_ipv6 s"
  proof (cases "HasPrefix s ''::''")
    case True
    then have s: "s = ''::'' @ drop 2 s" by (auto simp: HasPrefix_iff prefix_def)
    then have "plain (drop 2 s)"
      using that True ipv6_loop_plain [of 0 True "drop 2 s"] by (auto simp: valid_ipv6_def split: if_splits)
    then show ?thesis by (subst s) (simp add: bracket_def)
  next
    case False
    then show ?thesis using that ipv6_loop_plain by (auto simp: valid_ipv6_def)
  qed
  then show "net_ParseIP_ok s \<Longrightarrow> plain s"
    using valid_ipv4_plain
    by (auto simp: net_ParseIP_ok_def netip_ParseAddr_def split: list.splits if_splits option.splits)
qed

section \<open>The fixed point\<close>

lemma normalizeHostOnce_split:
  assumes "net_SplitHostPort h = Some (h', p)"
  shows "normalizeHostOnce h = ToLower (trim_of host_pad h')" and "plain (normalizeHostOnce h)" and "clean_host (normalizeHostOnce h)"
proof -
  have "plain (ToLower (trim_of host_pad h'))"
    using SplitHostPort_plain(1) [OF assms] trim_of_set plain_sub by (metis plain_lower)
  then show once: "normalizeHostOnce h = ToLower (trim_of host_pad h')"
    by (simp add: normalizeHostOnce_def assms plain_trim_bracket Let_def)
  show "plain (normalizeHostOnce h)" "clean_host (normalizeHostOnce h)"
    using \<open>plain (ToLower (trim_of host_pad h'))\<close> by (simp_all add: once)
qed

lemma normalizeHostOnce_plain:
  assumes "plain h" "net_SplitHostPort h = None"
  shows "normalizeHostOnce h = ToLower (trim_of host_pad h)" and "plain (normalizeHostOnce h)"
proof -
  have "plain (ToLower (trim_of host_pad h))" using assms(1) trim_of_set plain_sub by (metis plain_lower)
  then show "normalizeHostOnce h = ToLower (trim_of host_pad h)" "plain (normalizeHostOnce h)"
    using assms(2) by (simp_all add: normalizeHostOnce_def plain_trim_bracket Let_def)
qed

lemma plain_pass: "plain h \<Longrightarrow> plain (normalizeHostOnce h) \<and> clean_host (normalizeHostOnce h)"
proof (cases "net_SplitHostPort h")
  case None
  assume "plain h"
  from normalizeHostOnce_plain [OF this None] show ?thesis using clean_host_lower_trim by metis
next
  case (Some hp)
  then show ?thesis using normalizeHostOnce_split(2,3) by (cases hp) metis
qed

lemma plain_clean_pass:
  assumes "plain h" "clean_host h"
  shows "normalizeHostOnce (normalizeHostOnce h) = normalizeHostOnce h"
proof (cases "net_SplitHostPort h")
  case None
  then have "normalizeHostOnce h = h" using assms by (simp add: normalizeHostOnce_plain clean_host_def)
  then show ?thesis by simp
next
  case (Some hp)
  then obtain h' p where hp: "net_SplitHostPort h = Some (h', p)" by (cases hp) auto
  have "CHR '':'' \<notin> set (normalizeHostOnce h)"
  proof -
    have "CHR '':'' \<notin> set (trim_of host_pad h')" using SplitHostPort_plain(2) [OF hp assms(1)] trim_of_set by fast
    moreover have "(to_lower c = CHR '':'') = (c = CHR '':'')" for c
      by (rule to_lower_other) (auto simp: is_upper_def is_lower_def)
    ultimately have "\<forall>c \<in> set (trim_of host_pad h'). to_lower c \<noteq> CHR '':''" by metis
    then show ?thesis unfolding normalizeHostOnce_split(1) [OF hp] ToLower_def set_map image_iff by metis
  qed
  then have "net_SplitHostPort (normalizeHostOnce h) = None" by (rule SplitHostPort_no_colon)
  from normalizeHostOnce_plain(1) [OF normalizeHostOnce_split(2) [OF hp] this]
  show ?thesis using normalizeHostOnce_split(3) [OF hp] unfolding clean_host_def by simp
qed

lemma third_pass_fixed:
  "normalizeHostOnce (normalizeHostOnce (normalizeHostOnce (normalizeHostOnce h))) =
     normalizeHostOnce (normalizeHostOnce (normalizeHostOnce h))"
proof (cases "net_SplitHostPort h")
  case (Some hp)
  then show ?thesis using normalizeHostOnce_split(2,3) plain_clean_pass plain_pass by (cases hp) metis
next
  case None
  let ?h = "ToLower (trim_of host_pad h)"
  show ?thesis
  proof (cases "net_ParseIP_ok (trim_of bracket ?h)")
    case True
    then have "plain (normalizeHostOnce h)" using None ParseIP_plain by (simp add: normalizeHostOnce_def)
    then show ?thesis using plain_pass plain_clean_pass by metis
  next
    case False
    then have once: "normalizeHostOnce h = ?h" using None by (simp add: normalizeHostOnce_def Let_def)
    show ?thesis
    proof (cases "net_SplitHostPort ?h")
      case None
      then have "normalizeHostOnce ?h = ?h"
        using False clean_host_lower_trim [of h] by (simp add: normalizeHostOnce_def clean_host_def Let_def)
      then show ?thesis by (simp add: once)
    next
      case (Some hp)
      then show ?thesis unfolding once using normalizeHostOnce_split(2,3) plain_clean_pass by (cases hp) metis
    qed
  qed
qed

lemma normalize_passes_fixed:
  "k \<le> n \<Longrightarrow> normalizeHostOnce ((normalizeHostOnce ^^ k) h) = (normalizeHostOnce ^^ k) h \<Longrightarrow>
   normalizeHostOnce (normalize_passes n h) = normalize_passes n h"
proof (induction n arbitrary: k h)
  case (Suc n)
  show ?case
  proof (cases "normalizeHostOnce h = h")
    case False
    then obtain j where j: "k = Suc j" using Suc.prems(2) by (cases k) auto
    then have "normalizeHostOnce ((normalizeHostOnce ^^ j) (normalizeHostOnce h)) = (normalizeHostOnce ^^ j) (normalizeHostOnce h)"
      using Suc.prems(2) by (simp add: funpow_swap1)
    then show ?thesis using Suc.IH [of j "normalizeHostOnce h"] Suc.prems(1) j False by (simp add: Let_def)
  qed simp
qed simp

text \<open>
  The canonical form of every host name is a fixed point of the normalization: eight passes are always enough,
  so two code paths that normalize a name a different number of times agree on it.
\<close>

theorem normalizeHost_fixed_point:
  "normalizeHostOnce (normalizeHost h) = normalizeHost h \<and> normalizeHost (normalizeHost h) = normalizeHost h"
proof -
  have "(normalizeHostOnce ^^ 3) h = normalizeHostOnce (normalizeHostOnce (normalizeHostOnce h))"
    by (simp add: numeral_3_eq_3)
  then have once: "normalizeHostOnce (normalizeHost h) = normalizeHost h"
    unfolding normalizeHost_def using third_pass_fixed by (intro normalize_passes_fixed [of 3]) simp_all
  have "normalize_passes (Suc 7) (normalizeHost h) = normalizeHost h"
    unfolding normalize_passes.simps using once by (simp add: Let_def)
  then show ?thesis using once by (simp add: normalizeHost_def)
qed

section \<open>Only public destinations are dialled\<close>

text \<open>The blocks an attacker would aim at, as intervals of addresses.\<close>

definition v4_between :: "int \<Rightarrow> int \<Rightarrow> int \<Rightarrow> int \<Rightarrow> nat \<Rightarrow> int \<Rightarrow> bool" where
  "v4_between a b c d k v \<longleftrightarrow>
     (let lo = ((a * 256 + b) * 256 + c) * 256 + d in lo \<le> v \<and> v < lo + 2 ^ (32 - k))"

definition internal_v4 :: "int \<Rightarrow> bool" where
  "internal_v4 v \<longleftrightarrow>
     v4_between 0 0 0 0 8 v \<or> v4_between 10 0 0 0 8 v \<or> v4_between 100 64 0 0 10 v \<or> v4_between 127 0 0 0 8 v \<or>
     v4_between 169 254 0 0 16 v \<or> v4_between 172 16 0 0 12 v \<or> v4_between 192 168 0 0 16 v"

lemma v4_in_net:
  assumes "v4_between a b c d k v" "(((a * 256 + b) * 256 + c) * 256 + d) mod 2 ^ (32 - k) = 0"
  shows "net_Contains (v4net a b c d k) (IPv4 v)"
proof -
  let ?lo = "((a * 256 + b) * 256 + c) * 256 + d" and ?m = "2 ^ (32 - k) :: int"
  have "?lo \<le> v" "v < ?lo + ?m" using assms(1) by (auto simp: v4_between_def Let_def)
  then have "(v - ?lo) div ?m = 0" by simp
  moreover have "v div ?m = ?lo div ?m + (v - ?lo) div ?m"
    using assms(2) div_plus_div_distrib_dvd_left [of ?m ?lo "v - ?lo"] by (simp add: dvd_eq_mod_eq_0)
  ultimately show ?thesis by (simp add: net_Contains_def v4net_def To4_def)
qed

lemma public_v4: "isPublicIP (IPv4 v) \<Longrightarrow> \<not> internal_v4 v"
proof
  assume pub: "isPublicIP (IPv4 v)"
  then have out: "v4net a b c d k \<in> set nonPublicNets \<Longrightarrow> (((a * 256 + b) * 256 + c) * 256 + d) mod 2 ^ (32 - k) = 0 \<Longrightarrow>
      \<not> v4_between a b c d k v" for a b c d k
    using v4_in_net by (auto simp: isPublicIP_def list_ex_iff)
  have "\<not> v4_between 0 0 0 0 8 v" by (rule out) (simp_all add: nonPublicNets_def)
  moreover have "\<not> v4_between 10 0 0 0 8 v" by (rule out) (simp_all add: nonPublicNets_def)
  moreover have "\<not> v4_between 100 64 0 0 10 v" by (rule out) (simp_all add: nonPublicNets_def)
  moreover have "\<not> v4_between 127 0 0 0 8 v" by (rule out) (simp_all add: nonPublicNets_def)
  moreover have "\<not> v4_between 169 254 0 0 16 v" by (rule out) (simp_all add: nonPublicNets_def)
  moreover have "\<not> v4_between 172 16 0 0 12 v" by (rule out) (simp_all add: nonPublicNets_def)
  moreover have "\<not> v4_between 192 168 0 0 16 v" by (rule out) (simp_all add: nonPublicNets_def)
  moreover assume "internal_v4 v"
  ultimately show False unfolding internal_v4_def by blast
qed

lemma public_mapped:
  assumes "isPublicIP (IPv6 (0xFFFF * 4294967296 + v))" "0 \<le> v" "v < 4294967296"
  shows "isPublicIP (IPv4 v)"
proof -
  have parts: "(k * m + v) div m = k" "(k * m + v) mod m = v" if "v < m" for k m :: int
    using assms(2) that by (simp_all add: mult.commute)
  have "To4 (IPv6 (0xFFFF * 4294967296 + v)) = To4 (IPv4 v)"
    unfolding To4_def ip.case parts [OF assms(3)] by simp
  then show ?thesis using assms(1) unfolding isPublicIP_def net_Contains_def by simp
qed

lemma resolvePublic_public: "resolvePublic lookup host = Inr ips \<Longrightarrow> list_all isPublicIP ips"
  by (auto simp: resolvePublic_def list_all_iff list_ex_iff split: option.splits if_splits)

lemma dial_first_tried: "dial_first up port ips = (tried, r) \<Longrightarrow> t \<in> set tried \<Longrightarrow> \<exists>a \<in> set ips. t = DialIP a port"
  by (induction ips arbitrary: tried r) (auto split: if_splits prod.splits)

text \<open>C30: 
  With the guard on, every address the proxy tries to dial for a destination other than the configured upstream
  proxy is public: no IPv4 address of an internal block, written as such or mapped into IPv6, whatever the
  resolver answers.
\<close>

theorem only_public_dialled:
  assumes "gd_publicEgress g" "\<not> isUpstreamAddr g addr" "dialChecked lookup up g addr = (tried, r)" "t \<in> set tried"
  shows "\<exists>a port. t = DialIP a port \<and> isPublicIP a \<and>
    (\<forall>v. a = IPv4 v \<or> (a = IPv6 (0xFFFF * 4294967296 + v) \<and> 0 \<le> v \<and> v < 4294967296) \<longrightarrow> \<not> internal_v4 v)"
proof -
  obtain host port ips where ips: "resolvePublic lookup host = Inr ips" "\<exists>a \<in> set ips. t = DialIP a port"
    using assms by (auto simp: dialChecked_def split: option.splits sum.splits prod.splits dest!: dial_first_tried)
  then obtain a where "t = DialIP a port" "isPublicIP a" using resolvePublic_public by (auto simp: list_all_iff)
  then show ?thesis using public_v4 public_mapped by blast
qed

definition sample_guard :: guard where
  "sample_guard = \<lparr>gd_publicEgress = True, gd_upstreamHost = []\<rparr>"

theorem only_public_dialled_witness:
  "isPublicIP (IPv4 134744072)"
proof -
  have "dialChecked (\<lambda>h. Some [IPv4 134744072]) (\<lambda>t. True) sample_guard ''a.io:443'' =
      ([DialIP (IPv4 134744072) ''443''], Inr (DialIP (IPv4 134744072) ''443''))"
    "gd_publicEgress sample_guard" "\<not> isUpstreamAddr sample_guard ''a.io:443''"
    by code_simp+
  from only_public_dialled [OF this(2,3,1), of "DialIP (IPv4 134744072) ''443''"] show ?thesis by simp
qed

end
