(* ===== verification/Proxy_Glob.thy ===== *)
theory Proxy_Glob
  imports Policy_Glob
begin

text \<open>
  The two further pattern matchers of the repository: \<^verbatim>\<open>globMatch\<close> of the proxy's taint and flow rules
  (\<^verbatim>\<open>proxy/internal/proxy/taint.go\<close>), a loop that backtracks to the last star, and \<^verbatim>\<open>glob\<close> of the credential
  bindings (\<^verbatim>\<open>proxy/internal/creds/creds.go\<close>). The lemmas show that the loop returns for every input and that
  both decide the meaning \<^const>\<open>glob_sem\<close> of a pattern, with and without a star.
\<close>

section \<open>The backtracking loop\<close>

text \<open>
  The state of the loop: the positions \<open>p\<close> in the pattern and \<open>x\<close> in the string, the last star and the
  position in the string it was last tried from. A loop that does not end has no result.
\<close>

partial_function (option) star_loop ::
  "string \<Rightarrow> string \<Rightarrow> nat \<Rightarrow> nat \<Rightarrow> nat option \<Rightarrow> nat \<Rightarrow> bool option" where
  "star_loop pattern s p x star mark =
     (if length s \<le> x then Some (list_all (\<lambda>c. c = CHR ''*'') (drop p pattern))
      else if p < length pattern \<and> pattern ! p = CHR ''*'' then star_loop pattern s (p + 1) x (Some p) x
      else if p < length pattern \<and> pattern ! p = s ! x then star_loop pattern s (p + 1) (x + 1) star mark
      else (case star of
              None \<Rightarrow> Some False
            | Some q \<Rightarrow> star_loop pattern s (q + 1) (mark + 1) star (mark + 1)))"

declare star_loop.simps [code]

definition url_globMatch :: "string \<Rightarrow> string \<Rightarrow> bool" where
  "url_globMatch pattern s \<longleftrightarrow> star_loop pattern s 0 0 None 0 = Some True"

definition matchAny :: "string list \<Rightarrow> string \<Rightarrow> bool" where
  "matchAny patterns u \<longleftrightarrow> list_ex (\<lambda>p. url_globMatch (ToLower p) u) patterns"

section \<open>Credential patterns\<close>

fun skip_parts :: "string list \<Rightarrow> string \<Rightarrow> string option" where
  "skip_parts [] s = Some s"
| "skip_parts (p # ps) s =
     (case Index s p of None \<Rightarrow> None | Some i \<Rightarrow> skip_parts ps (drop (i + length p) s))"

definition creds_glob :: "string \<Rightarrow> string \<Rightarrow> bool" where
  "creds_glob pattern s =
     (case SplitByte (CHR ''*'') pattern of
        [p] \<Rightarrow> pattern = s
      | p # rest \<Rightarrow>
          HasPrefix s p \<and>
          (case skip_parts (butlast rest) (drop (length p) s) of
             None \<Rightarrow> False
           | Some t \<Rightarrow> HasSuffix t (last rest))
      | [] \<Rightarrow> False)"

section \<open>The loop decides the meaning of a pattern\<close>

lemma glob_sem_no_string: "glob_sem p [] \<longleftrightarrow> list_all (\<lambda>c. c = CHR ''*'') p"
  by (induction p) (auto simp: glob_sem.simps(2))

lemma glob_sem_prefix_length: "CHR ''*'' \<notin> set l \<Longrightarrow> glob_sem (l @ p) s \<Longrightarrow> length l \<le> length s"
  by (auto simp: glob_sem_prefix)

lemma glob_sem_star_suffix: "glob_sem (CHR ''*'' # p) t \<Longrightarrow> suffix t s \<Longrightarrow> glob_sem (CHR ''*'' # p) s"
  by (auto simp: glob_sem_star suffix_def) (metis append_assoc)

text \<open>What the loop may still find by moving the last star on: a match of the rest of the pattern further right.\<close>

definition later_match :: "string \<Rightarrow> string \<Rightarrow> bool" where
  "later_match rest m \<longleftrightarrow> (\<exists>k. 0 < k \<and> k \<le> length m \<and> glob_sem rest (drop k m))"

lemma later_match_step:
  assumes "m \<noteq> []"
  shows "later_match rest m \<longleftrightarrow> glob_sem rest (drop 1 m) \<or> later_match rest (drop 1 m)"
proof
  assume "later_match rest m"
  then obtain k where k: "0 < k" "k \<le> length m" "glob_sem rest (drop k m)" by (auto simp: later_match_def)
  show "glob_sem rest (drop 1 m) \<or> later_match rest (drop 1 m)"
  proof (cases "k = 1")
    case False
    then have "0 < k - 1" "k - 1 \<le> length (drop 1 m)" "glob_sem rest (drop (k - 1) (drop 1 m))"
      using k by auto
    then show ?thesis unfolding later_match_def by blast
  qed (use k in simp)
next
  assume "glob_sem rest (drop 1 m) \<or> later_match rest (drop 1 m)"
  then obtain k where "k \<le> length (drop 1 m)" "glob_sem rest (drop k (drop 1 m))"
    unfolding later_match_def by (metis drop0 le0)
  then show "later_match rest m" using assms
    unfolding later_match_def by (intro exI [of _ "k + 1"]) (cases m; auto)
qed

text \<open>
  The invariant: between the last star and the current position the pattern is a literal \<open>l\<close> that the string
  has matched from the mark on.
\<close>

definition loop_inv :: "string \<Rightarrow> string \<Rightarrow> nat \<Rightarrow> nat \<Rightarrow> nat option \<Rightarrow> nat \<Rightarrow> bool" where
  "loop_inv pattern s p x star mark \<longleftrightarrow>
     p \<le> length pattern \<and> x \<le> length s \<and>
     (case star of
        None \<Rightarrow> True
      | Some q \<Rightarrow> q < length pattern \<and> pattern ! q = CHR ''*'' \<and>
          (\<exists>l. CHR ''*'' \<notin> set l \<and> drop (q + 1) pattern = l @ drop p pattern \<and> drop mark s = l @ drop x s))"

definition loop_result :: "string \<Rightarrow> string \<Rightarrow> nat \<Rightarrow> nat \<Rightarrow> nat option \<Rightarrow> nat \<Rightarrow> bool" where
  "loop_result pattern s p x star mark \<longleftrightarrow>
     glob_sem (drop p pattern) (drop x s) \<or>
     (case star of None \<Rightarrow> False | Some q \<Rightarrow> later_match (drop (q + 1) pattern) (drop mark s))"

lemma later_match_behind_star:
  assumes "CHR ''*'' \<notin> set l" "later_match (l @ CHR ''*'' # p) (l @ t)"
  shows "glob_sem (CHR ''*'' # p) t"
proof -
  obtain k where k: "k \<le> length (l @ t)" "glob_sem (l @ CHR ''*'' # p) (drop k (l @ t))"
    using assms(2) by (auto simp: later_match_def)
  then obtain u where u: "drop k (l @ t) = l @ u" "glob_sem (CHR ''*'' # p) u"
    using assms(1) by (auto simp: glob_sem_prefix)
  have "length u \<le> length t"
    using arg_cong [OF u(1), of length] k(1) by simp
  moreover have "suffix u (l @ t)" using u(1) by (metis suffix_appendI suffix_drop suffix_def append_assoc append_take_drop_id)
  ultimately have "suffix u t" using suffix_length_suffix [of u "l @ t" t] by (simp add: suffix_def)
  then show ?thesis using glob_sem_star_suffix u(2) by blast
qed

lemma later_match_at_end: "CHR ''*'' \<notin> set l \<Longrightarrow> \<not> later_match (l @ p) l"
  using glob_sem_prefix_length [of l p] by (fastforce simp: later_match_def)

lemma drop_at: "p < length xs \<Longrightarrow> drop p xs = xs ! p # drop (p + 1) xs"
  by (simp add: Cons_nth_drop_Suc)

lemma no_match_here:
  assumes "x < length s" "\<not> (p < length pattern \<and> pattern ! p \<in> {CHR ''*'', s ! x})"
  shows "\<not> glob_sem (drop p pattern) (drop x s)"
  using assms drop_at [of x s] drop_at [of p pattern]
  by (cases "p < length pattern") (auto simp: glob_sem_lit simp del: drop_Suc_Cons)

text \<open>The measure: each move of the star shortens what is left behind the mark, every other step the pattern.\<close>

definition loop_measure :: "string \<Rightarrow> string \<Rightarrow> nat \<Rightarrow> nat option \<Rightarrow> nat \<Rightarrow> nat" where
  "loop_measure pattern s p star mark =
     (case star of None \<Rightarrow> length s + 1 | Some q \<Rightarrow> length s - mark) * (length pattern + 1) + (length pattern - p)"

lemma glob_sem_star_later: "glob_sem (CHR ''*'' # p) s \<longleftrightarrow> glob_sem p s \<or> later_match p s"
proof -
  have "glob_sem (CHR ''*'' # p) s \<longleftrightarrow> (\<exists>k\<le>length s. glob_sem p (drop k s))"
  proof
    assume "glob_sem (CHR ''*'' # p) s"
    then obtain u v where "s = u @ v" "glob_sem p v" by (auto simp: glob_sem_star)
    then show "\<exists>k\<le>length s. glob_sem p (drop k s)" by (intro exI [of _ "length u"]) simp
  next
    assume "\<exists>k\<le>length s. glob_sem p (drop k s)"
    then show "glob_sem (CHR ''*'' # p) s" unfolding glob_sem_star by (metis append_take_drop_id)
  qed
  also have "\<dots> \<longleftrightarrow> glob_sem p s \<or> later_match p s"
    unfolding later_match_def by (metis drop0 le0 not_gr_zero)
  finally show ?thesis .
qed

lemma loop_at_star:
  assumes "loop_inv pattern s p x star mark" "p < length pattern" "pattern ! p = CHR ''*''"
  shows "loop_inv pattern s (p + 1) x (Some p) x"
    and "loop_result pattern s (p + 1) x (Some p) x = loop_result pattern s p x star mark"
    and "loop_measure pattern s (p + 1) (Some p) x < loop_measure pattern s p star mark"
proof -
  have P: "drop p pattern = CHR ''*'' # drop (p + 1) pattern" using drop_at [OF assms(2)] assms(3) by simp
  show "loop_inv pattern s (p + 1) x (Some p) x"
    using assms by (auto simp: loop_inv_def intro!: exI [of _ "[]"])
  show "loop_result pattern s (p + 1) x (Some p) x = loop_result pattern s p x star mark"
  proof (cases star)
    case None
    then show ?thesis by (simp add: loop_result_def P glob_sem_star_later)
  next
    case (Some q)
    then obtain l where l: "CHR ''*'' \<notin> set l" "drop (q + 1) pattern = l @ CHR ''*'' # drop (p + 1) pattern"
      "drop mark s = l @ drop x s"
      using assms(1) P by (auto simp: loop_inv_def)
    then show ?thesis
      using later_match_behind_star [OF l(1), of "drop (p + 1) pattern" "drop x s"] Some
      by (auto simp: loop_result_def P glob_sem_star_later)
  qed
  show "loop_measure pattern s (p + 1) (Some p) x < loop_measure pattern s p star mark"
  proof (cases star)
    case None
    have "(length s - x) * (length pattern + 1) \<le> (length s + 1) * (length pattern + 1)" by (intro mult_le_mono) auto
    then show ?thesis using None assms(2) by (simp add: loop_measure_def)
  next
    case (Some q)
    then obtain l where "drop mark s = l @ drop x s" using assms(1) by (auto simp: loop_inv_def)
    then have "length (drop mark s) = length l + length (drop x s)" by simp
    then have "length s - x \<le> length s - mark" by simp
    then have "(length s - x) * (length pattern + 1) \<le> (length s - mark) * (length pattern + 1)" by (intro mult_le_mono) auto
    moreover have "length pattern - (p + 1) < length pattern - p" using assms(2) by simp
    ultimately show ?thesis unfolding loop_measure_def Some option.case by linarith
  qed
qed

lemma loop_at_literal:
  assumes "loop_inv pattern s p x star mark" "p < length pattern" "pattern ! p \<noteq> CHR ''*''" "x < length s" "pattern ! p = s ! x"
  shows "loop_inv pattern s (p + 1) (x + 1) star mark"
    and "loop_result pattern s (p + 1) (x + 1) star mark = loop_result pattern s p x star mark"
    and "loop_measure pattern s (p + 1) star mark < loop_measure pattern s p star mark"
proof -
  have P: "drop p pattern = s ! x # drop (p + 1) pattern" using drop_at [OF assms(2)] assms(5) by simp
  have X: "drop x s = s ! x # drop (x + 1) s" using drop_at [OF assms(4)] .
  have "\<exists>l'. CHR ''*'' \<notin> set l' \<and> l @ drop p pattern = l' @ drop (p + 1) pattern \<and> l @ drop x s = l' @ drop (x + 1) s"
    if "CHR ''*'' \<notin> set l" for l
    using that assms(3,5) P X by (intro exI [of _ "l @ [s ! x]"]) auto
  then show "loop_inv pattern s (p + 1) (x + 1) star mark"
    using assms(1,2,4) by (auto simp: loop_inv_def split: option.splits)
  show "loop_result pattern s (p + 1) (x + 1) star mark = loop_result pattern s p x star mark"
    using assms(3,5) P X by (auto simp: loop_result_def glob_sem_lit)
  show "loop_measure pattern s (p + 1) star mark < loop_measure pattern s p star mark"
    using assms(2) by (simp add: loop_measure_def)
qed

lemma loop_at_mismatch:
  assumes "loop_inv pattern s p x (Some q) mark" "x < length s" "\<not> (p < length pattern \<and> pattern ! p \<in> {CHR ''*'', s ! x})"
  shows "loop_inv pattern s (q + 1) (mark + 1) (Some q) (mark + 1)"
    and "loop_result pattern s (q + 1) (mark + 1) (Some q) (mark + 1) = loop_result pattern s p x (Some q) mark"
    and "loop_measure pattern s (q + 1) (Some q) (mark + 1) < loop_measure pattern s p (Some q) mark"
proof -
  obtain l where l: "drop mark s = l @ drop x s" using assms(1) by (auto simp: loop_inv_def)
  then have ne: "drop mark s \<noteq> []" using assms(2) by auto
  then have mark: "mark < length s" by simp
  show "loop_inv pattern s (q + 1) (mark + 1) (Some q) (mark + 1)"
    using assms(1) mark by (auto simp: loop_inv_def intro!: exI [of _ "[]"])
  have "\<not> glob_sem (drop p pattern) (drop x s)"
    using no_match_here [OF assms(2,3)] .
  then show "loop_result pattern s (q + 1) (mark + 1) (Some q) (mark + 1) = loop_result pattern s p x (Some q) mark"
    using later_match_step [OF ne, of "drop (q + 1) pattern"] by (simp add: loop_result_def)
  have "(length s - mark) * (length pattern + 1) = (length s - (mark + 1)) * (length pattern + 1) + (length pattern + 1)"
    using mark by (metis Suc_diff_Suc Suc_eq_plus1 add.commute mult_Suc)
  then show "loop_measure pattern s (q + 1) (Some q) (mark + 1) < loop_measure pattern s p (Some q) mark"
    by (simp add: loop_measure_def)
qed

lemma star_loop_returns:
  "loop_inv pattern s p x star mark \<Longrightarrow> star_loop pattern s p x star mark = Some (loop_result pattern s p x star mark)"
proof (induction "loop_measure pattern s p star mark" arbitrary: p x star mark rule: less_induct)
  case less
  consider (ended) "length s \<le> x" | (at_star) "x < length s" "p < length pattern" "pattern ! p = CHR ''*''"
    | (at_literal) "x < length s" "p < length pattern" "pattern ! p \<noteq> CHR ''*''" "pattern ! p = s ! x"
    | (mismatch) "x < length s" "\<not> (p < length pattern \<and> pattern ! p \<in> {CHR ''*'', s ! x})"
    by force
  then show ?case
  proof cases
    case ended
    then have "drop x s = []" by simp
    then have "(case star of None \<Rightarrow> False | Some q \<Rightarrow> later_match (drop (q + 1) pattern) (drop mark s)) = False"
      using less.prems later_match_at_end by (auto simp: loop_inv_def split: option.splits)
    then show ?thesis using ended by (subst star_loop.simps) (simp add: loop_result_def glob_sem_no_string)
  next
    case at_star
    note step = loop_at_star [OF less.prems at_star(2,3)]
    from at_star less.hyps [OF step(3,1)] step(2) show ?thesis by (subst star_loop.simps) simp
  next
    case at_literal
    note step = loop_at_literal [OF less.prems at_literal(2,3,1,4)]
    from at_literal less.hyps [OF step(3,1)] step(2) show ?thesis by (subst star_loop.simps) auto
  next
    case mismatch
    show ?thesis
    proof (cases star)
      case None
      have "\<not> glob_sem (drop p pattern) (drop x s)"
        using no_match_here [OF mismatch] .
      then show ?thesis using mismatch None by (subst star_loop.simps) (auto simp: loop_result_def)
    next
      case (Some q)
      note step = loop_at_mismatch [OF less.prems [unfolded Some] mismatch]
      from mismatch less.hyps [unfolded Some, OF step(3,1)] step(2) Some
      show ?thesis by (subst star_loop.simps) auto
    qed
  qed
qed

text \<open>C31: 
  The backtracking loop of the proxy's matcher returns for every pattern and every string, and what it
  returns is the meaning of the pattern.
\<close>

theorem url_glob_loop_decides: "star_loop pattern s 0 0 None 0 = Some (glob_sem pattern s)"
  by (subst star_loop_returns) (simp_all add: loop_inv_def loop_result_def)

lemma url_globMatch_correct: "url_globMatch pattern s = glob_sem pattern s"
  by (subst url_globMatch_def, subst star_loop_returns) (simp_all add: loop_inv_def loop_result_def)

section \<open>Credential patterns decide the same\<close>

lemma star_match_skip:
  "ps \<noteq> [] \<Longrightarrow> star_match ps s \<longleftrightarrow>
     (case skip_parts (butlast ps) s of None \<Rightarrow> False | Some t \<Rightarrow> suffix (last ps) t)"
proof (induction ps arbitrary: s)
  case (Cons p ps)
  show ?case
  proof (cases ps)
    case Nil
    then show ?thesis by (simp add: star_match_single)
  next
    case (Cons q qs)
    then show ?thesis using Cons.IH star_match_first [of p q qs s] by (auto split: option.splits)
  qed
qed simp

lemma creds_glob_sem: "creds_glob pattern s = glob_sem pattern s"
proof (cases "CHR ''*'' \<in> set pattern")
  case False
  then show ?thesis
    using glob_sem_prefix [of pattern "[]" s] by (auto simp: creds_glob_def SplitByte_single)
next
  case True
  obtain p q ps where parts: "SplitByte (CHR ''*'') pattern = p # q # ps" using SplitByte_two [OF True] .
  have "glob_sem (JoinByte (CHR ''*'') (p # q # ps)) s = match_parts (p # q # ps) s"
    using SplitByte_no_sep [of _ "CHR ''*''" pattern] by (intro glob_sem_parts) (auto simp: parts)
  then have "glob_sem pattern s = match_parts (p # q # ps) s"
    using JoinByte_SplitByte [of "CHR ''*''" pattern] by (simp add: parts)
  also have "\<dots> \<longleftrightarrow> prefix p s \<and> star_match (q # ps) (drop (length p) s)"
    by (force simp: star_match_def prefix_def)
  finally show ?thesis
    using star_match_skip [of "q # ps" "drop (length p) s"]
    by (simp add: creds_glob_def parts HasPrefix_iff HasSuffix_iff split: option.splits)
qed

text \<open>
  The matcher of the proxy's rules and the matcher of the credential bindings agree on every pattern and string,
  and both give a star any run of characters and every other character itself.
\<close>

theorem creds_glob_correct: "creds_glob pattern s = glob_sem pattern s \<and> url_globMatch pattern s = creds_glob pattern s"
  by (simp add: creds_glob_sem url_globMatch_correct)

end
