(* ===== verification/Proxy_Creds.thy ===== *)
theory Proxy_Creds
  imports Proxy_Glob Go_UTF8
begin

text \<open>
  Component: credential bindings (\<^verbatim>\<open>proxy/internal/creds/creds.go\<close>). Loading a binding (the environment and the
  brokers of \<^verbatim>\<open>broker.go\<close> are parameters), matching a request against the bindings, and narrowing the bindings
  of a host to one repository.
\<close>

section \<open>Bindings\<close>

record 'b Binding =
  bd_Host :: string
  bd_Paths :: "string list"
  bd_Methods :: "string list"
  bd_Headers :: "(string, string) gomap"
  bd_GitHubApp :: bool
  bd_OAuth2 :: bool
  bd_broker :: "'b option"

definition MinSecretLen :: nat where "MinSecretLen = 8"

definition NonSecretHeader :: "string \<Rightarrow> bool" where
  "NonSecretHeader name \<longleftrightarrow>
     ToLower name \<in> {''anthropic-version'', ''x-github-api-version'', ''content-type'', ''accept'', ''user-agent''}"

definition splitHostPattern :: "string \<Rightarrow> string \<times> string" where
  "splitHostPattern pat =
     (let pat' = ToLower (TrimSpace pat) in
      case net_SplitHostPort pat' of Some (h, p) \<Rightarrow> (h, p) | None \<Rightarrow> (pat', ''443''))"

definition binding_validate :: "'b Binding \<Rightarrow> bool" where
  "binding_validate b \<longleftrightarrow>
     (let host = fst (splitHostPattern (bd_Host b)) in
      host \<noteq> [] \<and> path_Match host [] \<noteq> None \<and> list_all (\<lambda>p. HasPrefix p ''/'') (bd_Paths b))"

section \<open>Matching\<close>

record creds_request =
  cq_Host :: string
  cq_Port :: string
  cq_Method :: string
  cq_Path :: string

definition matchMethod :: "string list \<Rightarrow> string \<Rightarrow> bool" where
  "matchMethod methods m \<longleftrightarrow> methods = [] \<or> list_ex (\<lambda>x. m \<noteq> [] \<and> EqualFold x m) methods"

definition matchPath :: "string list \<Rightarrow> string \<Rightarrow> bool" where
  "matchPath globs p \<longleftrightarrow>
     globs = [] \<or>
     (\<not> list_ex (\<lambda>seg. seg = ''.'' \<or> seg = ''..'') (SplitByte (CHR ''/'') p) \<and> list_ex (\<lambda>g. creds_glob g p) globs)"

definition binding_matches :: "creds_request \<Rightarrow> 'b Binding \<Rightarrow> bool" where
  "binding_matches req b \<longleftrightarrow>
     (let host = ToLower (cq_Host req); port = (if cq_Port req = [] then ''443'' else cq_Port req);
          (pat, bport) = splitHostPattern (bd_Host b) in
      bport = port \<and> (pat = host \<or> path_Match pat host = Some True) \<and>
      matchMethod (bd_Methods b) (cq_Method req) \<and> matchPath (bd_Paths b) (cq_Path req))"

definition MatchBinding :: "'b Binding list \<Rightarrow> creds_request \<Rightarrow> 'b Binding option" where
  "MatchBinding bindings req = find (binding_matches req) bindings"

definition MatchRequest :: "'b Binding list \<Rightarrow> creds_request \<Rightarrow> (string, string) gomap option" where
  "MatchRequest bindings req = map_option bd_Headers (MatchBinding bindings req)"

section \<open>One repository\<close>

definition RepoName :: "string \<Rightarrow> bool" where
  "RepoName s \<longleftrightarrow> s \<noteq> [] \<and> s \<noteq> ''.'' \<and> s \<noteq> ''..'' \<and> list_all (\<lambda>c. is_alnum c \<or> c \<in> set ''-_.'') s"

definition within_roots :: "string \<Rightarrow> string list \<Rightarrow> bool" where
  "within_roots p roots \<longleftrightarrow>
     (let head = fst (CutByte p (CHR ''*'')); wild = (CHR ''*'' \<in> set p) in
      list_ex (\<lambda>r. HasPrefix head (r @ ''/'') \<or> (\<not> wild \<and> head = r)) roots)"

definition repo_roots :: "string \<Rightarrow> string \<Rightarrow> string \<Rightarrow> string list" where
  "repo_roots host owner repo =
     (if HasPrefix host ''api.'' then [''/repos/'' @ owner @ ''/'' @ repo]
      else [''/'' @ owner @ ''/'' @ repo, ''/'' @ owner @ ''/'' @ repo @ ''.git''])"

definition scope_binding :: "string list \<Rightarrow> 'b Binding \<Rightarrow> 'b Binding option" where
  "scope_binding roots b =
     (if bd_Paths b = [] then Some (b \<lparr>bd_Paths := concat (map (\<lambda>r. [r, r @ ''/*'']) roots)\<rparr>)
      else let ps = filter (\<lambda>p. within_roots p roots) (bd_Paths b) in
        if ps = [] then None else Some (b \<lparr>bd_Paths := ps\<rparr>))"

definition ScopeToRepo :: "'b Binding list \<Rightarrow> string \<Rightarrow> string \<Rightarrow> string \<Rightarrow> 'b Binding list" where
  "ScopeToRepo bindings host0 owner repo =
     (let host = ToLower host0 in
      if \<not> RepoName owner \<or> \<not> RepoName repo then filter (\<lambda>b. fst (splitHostPattern (bd_Host b)) \<noteq> host) bindings
      else List.map_filter
        (\<lambda>b. if fst (splitHostPattern (bd_Host b)) \<noteq> host then Some b
             else scope_binding (repo_roots host owner repo) b) bindings)"

section \<open>Loading\<close>

definition isShellSpecialVar :: "char \<Rightarrow> bool" where
  "isShellSpecialVar c \<longleftrightarrow> c \<in> set ''*#$@!?-'' \<or> is_digit c"

definition shell_alnum :: "char \<Rightarrow> bool" where
  "shell_alnum c \<longleftrightarrow> c = CHR ''_'' \<or> is_alnum c"

text \<open>\<^verbatim>\<open>os.getShellName\<close>: the name after a dollar sign and the number of bytes it takes.\<close>

definition getShellName :: "string \<Rightarrow> string \<times> nat" where
  "getShellName s =
     (if HasPrefix s ''{'' then
        (if 2 < length s \<and> isShellSpecialVar (s ! 1) \<and> s ! 2 = CHR ''}'' then ([s ! 1], 3)
         else (case IndexByte s (CHR ''}'') of
                 None \<Rightarrow> ([], 1)
               | Some i \<Rightarrow> if i = 1 then ([], 2) else (drop 1 (take i s), i + 1)))
      else if isShellSpecialVar (hd s) then ([hd s], 1)
      else (takeWhile shell_alnum s, length (takeWhile shell_alnum s)))"

text \<open>\<^verbatim>\<open>os.Expand\<close>: the expanded value and the names that were looked up, in order.\<close>

function os_Expand :: "(string \<Rightarrow> string) \<Rightarrow> string \<Rightarrow> string \<times> string list" where
  "os_Expand env [] = ([], [])"
| "os_Expand env (c # s) =
     (if c = CHR ''$'' \<and> s \<noteq> [] then
        (case getShellName s of
           (name, w) \<Rightarrow>
             (case os_Expand env (drop w s) of
                (v, names) \<Rightarrow>
                  if name = [] \<and> 0 < w then (v, names)
                  else if name = [] then (c # v, names)
                  else (env name @ v, name # names)))
      else (case os_Expand env s of (v, names) \<Rightarrow> (c # v, names)))"
  by pat_completeness auto
termination
  by (relation "measure (\<lambda>(env, s). length s)") auto

text \<open>One header of a binding: its value, the unset variables, and what is too short to be scrubbed.\<close>

definition header_missing :: "(string \<Rightarrow> string) \<Rightarrow> string \<times> string \<Rightarrow> string list" where
  "header_missing env kv = filter (\<lambda>n. env n = []) (snd (os_Expand env (snd kv)))"

definition header_short_names :: "(string \<Rightarrow> string) \<Rightarrow> string \<times> string \<Rightarrow> string list" where
  "header_short_names env kv =
     (if NonSecretHeader (fst kv) then []
      else filter (\<lambda>n. env n \<noteq> [] \<and> length (env n) < MinSecretLen) (snd (os_Expand env (snd kv))))"

definition secret_token :: "string \<Rightarrow> string" where
  "secret_token v = (if CHR '' '' \<in> set v then snd (CutByte v (CHR '' '')) else v)"

fun header_short :: "(string \<Rightarrow> string) \<Rightarrow> (string, string) gomap \<Rightarrow> string list \<Rightarrow> string list" where
  "header_short env [] short = short"
| "header_short env (kv # kvs) short =
     (let short1 = short @ header_short_names env kv; (v, names) = os_Expand env (snd kv);
          short2 = (if \<not> NonSecretHeader (fst kv) \<and> names \<noteq> [] \<and> v \<noteq> [] \<and> length (secret_token v) < MinSecretLen \<and>
                       short1 = []
                    then short1 @ [''the value of '' @ fst kv] else short1) in
      header_short env kvs short2)"

definition expand_headers :: "(string \<Rightarrow> string) \<Rightarrow> (string, string) gomap \<Rightarrow> (string, string) gomap" where
  "expand_headers env kvs = map (\<lambda>(k, v). (k, fst (os_Expand env v))) kvs"

datatype 'b load_result =
    Loaded "'b Binding"
  | Skip "string list"
  | Refused

definition Brokered :: "'b Binding \<Rightarrow> bool" where
  "Brokered b \<longleftrightarrow> bd_GitHubApp b \<or> bd_OAuth2 b"

text \<open>
  One binding in the loop of \<open>LoadReport\<close>. \<open>mk\<close> stands for \<^verbatim>\<open>loadBroker\<close>: the broker and the unset variables it
  needs, or an error.
\<close>

definition load_one ::
  "('b Binding \<Rightarrow> ('b \<times> string list) option) \<Rightarrow> (string \<Rightarrow> string) \<Rightarrow> 'b Binding \<Rightarrow> 'b load_result" where
  "load_one mk env b =
     (if \<not> binding_validate b then Refused
      else let missing = concat (map (header_missing env) (bd_Headers b)); short = header_short env (bd_Headers b) [] in
        (case (if Brokered b then map_option (\<lambda>(br, ms). (Some br, ms)) (mk b) else Some (None, [])) of
           None \<Rightarrow> Refused
         | Some (br, ms) \<Rightarrow>
             if missing @ ms \<noteq> [] then Skip (missing @ ms)
             else if short \<noteq> [] then Refused
             else Loaded (b \<lparr>bd_Headers := expand_headers env (bd_Headers b), bd_broker := br\<rparr>)))"

definition gitCompanions :: "'b Binding list \<Rightarrow> 'b Binding list \<Rightarrow> 'b Binding list" where
  "gitCompanions configured loaded =
     (if list_ex (\<lambda>b. splitHostPattern (bd_Host b) = (''github.com'', ''443'')) configured then []
      else (case find (\<lambda>b. splitHostPattern (bd_Host b) = (''api.github.com'', ''443'') \<and> bd_GitHubApp b \<and> bd_broker b \<noteq> None)
                   loaded of
              None \<Rightarrow> []
            | Some b \<Rightarrow>
                [\<lparr>bd_Host = ''github.com'', bd_Paths = [], bd_Methods = [], bd_Headers = [], bd_GitHubApp = True,
                  bd_OAuth2 = False, bd_broker = bd_broker b\<rparr>]))"

definition LoadReport ::
  "('b Binding \<Rightarrow> ('b \<times> string list) option) \<Rightarrow> (string \<Rightarrow> string) \<Rightarrow> 'b Binding list
     \<Rightarrow> 'b Binding list \<times> (string \<times> string list) list \<times> bool" where
  "LoadReport mk env bindings =
     (let rs = map (\<lambda>b. (b, load_one mk env b)) bindings;
          out = List.map_filter (\<lambda>(b, r). case r of Loaded nb \<Rightarrow> Some nb | _ \<Rightarrow> None) rs;
          skipped = List.map_filter (\<lambda>(b, r). case r of Skip ms \<Rightarrow> Some (bd_Host b, ms) | _ \<Rightarrow> None) rs in
      (out @ gitCompanions bindings out, skipped, list_ex (\<lambda>(b, r). r = Refused) rs))"

end
