(* ===== verification/Creds_Properties.thy ===== *)
theory Creds_Properties
  imports Proxy_Creds
begin

text \<open>
  What the credential bindings promise: a binding narrowed to a repository is used only inside that repository,
  and every secret that is loaded from the environment is long enough to be scrubbed from responses.
\<close>

section \<open>One repository\<close>

lemma repo_root_literal:
  assumes "RepoName owner" "RepoName repo" "r \<in> set (repo_roots host owner repo)"
  shows "CHR ''*'' \<notin> set r"
proof -
  have "CHR ''*'' \<notin> set s" if "RepoName s" for s
    using that by (auto simp: RepoName_def list_all_iff is_alnum_def is_letter_def is_upper_def is_lower_def is_digit_def)
  then show ?thesis using assms by (auto simp: repo_roots_def split: if_splits)
qed

definition in_tree :: "string list \<Rightarrow> string \<Rightarrow> bool" where
  "in_tree roots path \<longleftrightarrow> (\<exists>r\<in>set roots. path = r \<or> prefix (r @ ''/'') path)"

lemma CutByte_head: "fst (CutByte p c) = takeWhile (\<lambda>d. d \<noteq> c) p"
proof (induction p)
  case (Cons a p)
  then show ?case by (cases "IndexByte p c") (auto simp: CutByte_def)
qed (simp add: CutByte_def)

lemma glob_sem_head: "glob_sem p s \<Longrightarrow> prefix (takeWhile (\<lambda>d. d \<noteq> CHR ''*'') p) s"
  using glob_sem_prefix [of "takeWhile (\<lambda>d. d \<noteq> CHR ''*'') p" "dropWhile (\<lambda>d. d \<noteq> CHR ''*'') p" s]
  by (auto simp: prefix_def dest: set_takeWhileD)

lemma within_roots_match:
  assumes "within_roots p roots" "glob_sem p path"
  shows "in_tree roots path"
proof -
  let ?head = "takeWhile (\<lambda>d. d \<noteq> CHR ''*'') p"
  obtain r where r: "r \<in> set roots" "prefix (r @ ''/'') ?head \<or> (CHR ''*'' \<notin> set p \<and> ?head = r)"
    using assms(1) by (auto simp: within_roots_def Let_def CutByte_head list_ex_iff HasPrefix_iff)
  show ?thesis
  proof (cases "prefix (r @ ''/'') ?head")
    case True
    then show ?thesis using glob_sem_head [OF assms(2)] r(1) prefix_order.trans unfolding in_tree_def by blast
  next
    case False
    then have "CHR ''*'' \<notin> set p" "?head = r" using r(2) by auto
    moreover from this(1) have "?head = p" by (intro takeWhile_eq_all_conv [THEN iffD2]) auto
    ultimately have "path = r" using assms(2) glob_sem_prefix [of p "[]" path] by auto
    then show ?thesis using r(1) by (auto simp: in_tree_def)
  qed
qed

lemma whole_root_match:
  assumes "CHR ''*'' \<notin> set r" "r \<in> set roots" "glob_sem g path" "g = r \<or> g = r @ ''/*''"
  shows "in_tree roots path"
proof (cases "g = r")
  case True
  then show ?thesis using assms glob_sem_prefix [of r "[]" path] by (auto simp: in_tree_def)
next
  case False
  then have "glob_sem ((r @ ''/'') @ ''*'') path" using assms(3,4) by simp
  then have "prefix (r @ ''/'') path" using assms(1) glob_sem_prefix [of "r @ ''/''" "''*''" path] by auto
  then show ?thesis using assms(2) unfolding in_tree_def by blast
qed

lemma scope_binding_match:
  assumes "scope_binding roots b = Some b'" "matchPath (bd_Paths b') path" "\<forall>r\<in>set roots. CHR ''*'' \<notin> set r" "roots \<noteq> []"
  shows "in_tree roots path"
proof (cases "bd_Paths b = []")
  case True
  then have paths: "bd_Paths b' = concat (map (\<lambda>r. [r, r @ ''/*'']) roots)"
    using assms(1) by (auto simp: scope_binding_def)
  then obtain g where g: "g \<in> set (bd_Paths b')" "glob_sem g path"
    using assms(2,4) by (auto simp: matchPath_def list_ex_iff creds_glob_sem)
  then obtain r where "r \<in> set roots" "g = r \<or> g = r @ ''/*''" using paths by auto
  then show ?thesis using assms(3) g(2) whole_root_match by blast
next
  case False
  then obtain g where "within_roots g roots" "glob_sem g path"
    using assms(1,2) by (auto simp: scope_binding_def matchPath_def list_ex_iff creds_glob_sem Let_def split: if_splits)
  then show ?thesis by (rule within_roots_match)
qed

text \<open>
  After \<open>ScopeToRepo\<close> a binding whose host pattern is the host itself is used only for paths inside the tree of
  the repository; with a name that is no repository name it is not used at all.
\<close>

theorem scoped_credential_stays_in_repo:
  assumes "MatchBinding (ScopeToRepo bindings host owner repo) req = Some b"
    and "fst (splitHostPattern (bd_Host b)) = ToLower host"
  shows "RepoName owner \<and> RepoName repo \<and> in_tree (repo_roots (ToLower host) owner repo) (cq_Path req)"
proof -
  have b: "b \<in> set (ScopeToRepo bindings host owner repo)" "matchPath (bd_Paths b) (cq_Path req)"
    using find_SomeD [OF assms(1) [unfolded MatchBinding_def]] by (auto simp: binding_matches_def Let_def split: prod.splits)
  then have names: "RepoName owner" "RepoName repo"
    using assms(2) by (auto simp: ScopeToRepo_def Let_def split: if_splits)
  then obtain b0 where "scope_binding (repo_roots (ToLower host) owner repo) b0 = Some b"
    using b(1) assms(2) by (auto simp: ScopeToRepo_def Let_def map_filter_def split: if_splits)
  then show ?thesis
    using scope_binding_match [OF _ b(2)] repo_root_literal names by (auto simp: repo_roots_def)
qed

definition sample_binding :: "unit Binding" where
  "sample_binding = \<lparr>bd_Host = ''api.github.com'', bd_Paths = [], bd_Methods = [], bd_Headers = [(''Authorization'', ''Bearer t'')],
     bd_GitHubApp = False, bd_OAuth2 = False, bd_broker = None\<rparr>"

definition sample_request :: "string \<Rightarrow> creds_request" where
  "sample_request path = \<lparr>cq_Host = ''api.github.com'', cq_Port = [], cq_Method = ''GET'', cq_Path = path\<rparr>"

theorem scoped_credential_stays_in_repo_witness:
  "in_tree [''/repos/o/r''] ''/repos/o/r/pulls''"
proof -
  let ?bs = "ScopeToRepo [sample_binding] ''api.github.com'' ''o'' ''r''"
  have "MatchBinding ?bs (sample_request ''/repos/o/r/pulls'') = Some (hd ?bs)"
    "fst (splitHostPattern (bd_Host (hd ?bs))) = ToLower ''api.github.com''"
    "repo_roots (ToLower ''api.github.com'') ''o'' ''r'' = [''/repos/o/r'']"
    "cq_Path (sample_request ''/repos/o/r/pulls'') = ''/repos/o/r/pulls''"
    by code_simp+
  then show ?thesis
    using scoped_credential_stays_in_repo [of "[sample_binding]" "''api.github.com''" "''o''" "''r''"
        "sample_request ''/repos/o/r/pulls''"]
    by simp
qed

text \<open>A binding that names the host by a pattern is not narrowed: it still serves every path of the host.\<close>

lemma pattern_binding_not_narrowed:
  "MatchBinding (ScopeToRepo [sample_binding \<lparr>bd_Host := ''*.github.com''\<rparr>] ''api.github.com'' ''o'' ''r'')
     (sample_request ''/user/keys'') \<noteq> None"
  by code_simp

section \<open>Secrets are long enough to be scrubbed\<close>

lemma header_short_empty:
  assumes "header_short env kvs short = []" "kv \<in> set kvs" "\<not> NonSecretHeader (fst kv)"
  shows "header_short_names env kv = [] \<and>
    (fst (os_Expand env (snd kv)) \<noteq> [] \<longrightarrow> snd (os_Expand env (snd kv)) \<noteq> [] \<longrightarrow>
      MinSecretLen \<le> length (secret_token (fst (os_Expand env (snd kv)))))"
  using assms
proof (induction kvs arbitrary: short)
  case (Cons a kvs)
  have mono: "short' \<noteq> [] \<Longrightarrow> header_short env xs short' \<noteq> []" for xs short'
    by (induction xs arbitrary: short') (auto simp: Let_def split: prod.splits)
  show ?case
  proof (cases "kv = a")
    case True
    then show ?thesis using Cons.prems(1,3) mono
      by (auto simp: Let_def not_less split: prod.splits if_splits)
  next
    case False
    then show ?thesis using Cons by (auto simp: Let_def split: prod.splits)
  qed
qed simp

text \<open>
  Every header a loaded binding injects comes from a header of the configuration; if its value was expanded from
  the environment and is not protocol metadata, no variable was unset and the token in it has at least
  \<open>MinSecretLen\<close> bytes.
\<close>

theorem loaded_secrets_scrubbable:
  assumes "LoadReport mk env bindings = (out, skipped, err)" "b \<in> set out" "(k, v) \<in> set (bd_Headers b)"
  shows "\<exists>b0 raw. b0 \<in> set bindings \<and> (k, raw) \<in> set (bd_Headers b0) \<and> v = fst (os_Expand env raw) \<and>
    (\<forall>n \<in> set (snd (os_Expand env raw)). env n \<noteq> []) \<and>
    (NonSecretHeader k \<or> snd (os_Expand env raw) = [] \<or> v = [] \<or> MinSecretLen \<le> length (secret_token v))"
proof -
  have "b \<notin> set (gitCompanions bindings out')" for out'
    using assms(3) by (auto simp: gitCompanions_def split: if_splits option.splits)
  then obtain b0 where b0: "b0 \<in> set bindings" "load_one mk env b0 = Loaded b"
    using assms(1,2) by (auto simp: LoadReport_def Let_def map_filter_def split: load_result.splits)
  then have ok: "concat (map (header_missing env) (bd_Headers b0)) = []" "header_short env (bd_Headers b0) [] = []"
    "bd_Headers b = expand_headers env (bd_Headers b0)"
    by (auto simp: load_one_def Let_def split: if_splits option.splits prod.splits)
  then obtain raw where raw: "(k, raw) \<in> set (bd_Headers b0)" "v = fst (os_Expand env raw)"
    using assms(3) by (auto simp: expand_headers_def)
  have "header_missing env (k, raw) = []" using ok(1) raw(1) by auto
  then have "\<forall>n \<in> set (snd (os_Expand env raw)). env n \<noteq> []" by (auto simp: header_missing_def filter_empty_conv)
  moreover have "NonSecretHeader k \<or> snd (os_Expand env raw) = [] \<or> v = [] \<or> MinSecretLen \<le> length (secret_token v)"
    using header_short_empty [OF ok(2) raw(1)] raw(2) by auto
  ultimately show ?thesis using b0(1) raw by blast
qed

theorem loaded_secrets_scrubbable_witness:
  "MinSecretLen \<le> length (secret_token ''Bearer 12345678'')"
proof -
  let ?b = "sample_binding \<lparr>bd_Headers := [(''Authorization'', ''Bearer ${T}'')]\<rparr>"
  have load: "LoadReport (\<lambda>b. None) (\<lambda>n. ''12345678'') [?b] =
      ([?b \<lparr>bd_Headers := [(''Authorization'', ''Bearer 12345678'')]\<rparr>], [], False)"
    by code_simp
  have "snd (os_Expand (\<lambda>n. ''12345678'') ''Bearer ${T}'') = [''T'']" "\<not> NonSecretHeader ''Authorization''" by code_simp+
  then show ?thesis
    using loaded_secrets_scrubbable [OF load, of "?b \<lparr>bd_Headers := [(''Authorization'', ''Bearer 12345678'')]\<rparr>"
        "''Authorization''" "''Bearer 12345678''"]
    by auto
qed

end
