(* ===== verification/Proxy_Agents.thy ===== *)
theory Proxy_Agents
  imports Proxy_Glob Go_Regexp
begin

text \<open>
  Component: named agents of the proxy (\<^verbatim>\<open>proxy/internal/config/agents.go\<close>, \<^verbatim>\<open>proxy/internal/proxy/agents.go\<close>):
  validation of agents and of their scopes, the registry with its tokens, scopes and stopped names, and the
  authentication of a client. The credential a client presents is given as its bytes; SHA-256 is a parameter.
\<close>

section \<open>Agents and scopes in the configuration\<close>

definition DefaultAgentName :: string where "DefaultAgentName = ''default''"
definition AllAgents :: string where "AllAgents = ''*''"

definition agent_char :: "char \<Rightarrow> bool" where
  "agent_char c \<longleftrightarrow> is_lower c \<or> is_digit c \<or> c \<in> set ''_-''"

definition ValidAgentName :: "string \<Rightarrow> bool" where
  "ValidAgentName name \<longleftrightarrow>
     name \<noteq> [] \<and> (is_lower (hd name) \<or> is_digit (hd name)) \<and> list_all agent_char name \<and> length name \<le> 32 \<and>
     name \<noteq> DefaultAgentName \<and> \<not> HasPrefix name ''pt_''"

text \<open>The order in which the names are checked only decides which error is reported.\<close>

fun check_agents :: "string list \<Rightarrow> (string, string) gomap \<Rightarrow> bool" where
  "check_agents seen [] = True"
| "check_agents seen ((n, t) # agents) \<longleftrightarrow>
     ValidAgentName n \<and> 32 \<le> length t \<and> t \<notin> set seen \<and> check_agents (t # seen) agents"

definition ValidateAgents :: "(string, string) gomap \<Rightarrow> string \<Rightarrow> bool" where
  "ValidateAgents agents legacy = check_agents (if legacy \<noteq> [] then [legacy] else []) agents"

record AgentScope =
  as_Parent :: string
  as_For :: string
  as_Allow :: "string list"

definition no_scope :: AgentScope where
  "no_scope = \<lparr>as_Parent = [], as_For = [], as_Allow = []\<rparr>"

definition scope_at :: "(string, AgentScope) gomap \<Rightarrow> string \<Rightarrow> AgentScope" where
  "scope_at scopes n = (case map_of scopes n of None \<Rightarrow> no_scope | Some sc \<Rightarrow> sc)"

text \<open>\<^verbatim>\<open>GlobMatch\<close> is the same text as \<^verbatim>\<open>glob\<close> of the credential bindings.\<close>

definition GlobMatch :: "string \<Rightarrow> string \<Rightarrow> bool" where
  "GlobMatch pattern s =
     (case SplitByte (CHR ''*'') pattern of
        [p] \<Rightarrow> pattern = s
      | p # rest \<Rightarrow>
          HasPrefix s p \<and>
          (case skip_parts (butlast rest) (drop (length p) s) of
             None \<Rightarrow> False
           | Some t \<Rightarrow> HasSuffix t (last rest))
      | [] \<Rightarrow> False)"

definition ScopeCovers :: "string list \<Rightarrow> string list \<Rightarrow> bool" where
  "ScopeCovers parent child \<longleftrightarrow>
     parent = [] \<or> (child \<noteq> [] \<and> list_all (\<lambda>c. list_ex (\<lambda>p. GlobMatch p c) parent) child)"

definition InScope :: "AgentScope \<Rightarrow> string \<Rightarrow> bool" where
  "InScope sc resource \<longleftrightarrow> as_Allow sc = [] \<or> list_ex (\<lambda>p. GlobMatch p resource) (as_Allow sc)"

definition maxScopeDepth :: nat where "maxScopeDepth = 16"

text \<open>The walk over the parents of an agent; \<open>k\<close> is the depth that is left.\<close>

fun parents_ok :: "(string, AgentScope) gomap \<Rightarrow> string list \<Rightarrow> string \<Rightarrow> nat \<Rightarrow> bool" where
  "parents_ok scopes seen p 0 \<longleftrightarrow> p = []"
| "parents_ok scopes seen p (Suc k) \<longleftrightarrow>
     p = [] \<or> (p \<notin> set seen \<and> parents_ok scopes (p # seen) (as_Parent (scope_at scopes p)) k)"

definition agent_exists :: "(string, string) gomap \<Rightarrow> string \<Rightarrow> string \<Rightarrow> bool" where
  "agent_exists agents legacy name \<longleftrightarrow>
     (name = DefaultAgentName \<and> legacy \<noteq> []) \<or> map_of agents name \<noteq> None"

definition scope_valid ::
  "(string, AgentScope) gomap \<Rightarrow> (string, string) gomap \<Rightarrow> string \<Rightarrow> string \<times> AgentScope \<Rightarrow> bool" where
  "scope_valid scopes agents legacy nsc \<longleftrightarrow>
     (case nsc of (n, sc) \<Rightarrow>
        agent_exists agents legacy n \<and> \<not> list_ex (\<lambda>p. TrimSpace p = []) (as_Allow sc) \<and> length (as_For sc) \<le> 200 \<and>
        (as_Parent sc = [] \<or>
           (as_Parent sc \<noteq> n \<and> agent_exists agents legacy (as_Parent sc) \<and>
            parents_ok scopes [n] (as_Parent sc) maxScopeDepth \<and>
            ScopeCovers (as_Allow (scope_at scopes (as_Parent sc))) (as_Allow sc))))"

definition ValidateAgentScopes :: "(string, AgentScope) gomap \<Rightarrow> (string, string) gomap \<Rightarrow> string \<Rightarrow> bool" where
  "ValidateAgentScopes scopes agents legacy = list_all (scope_valid scopes agents legacy) scopes"

section \<open>The registry\<close>

record agentIdentity =
  id_name :: string
  id_label :: string
  id_token :: string

record agentRegistry =
  ar_tokens :: "(string, string) gomap"
  ar_stopped :: "string list"
  ar_scopes :: "(string, AgentScope) gomap"
  ar_authOn :: bool
  ar_agentToken :: string

definition newAgentRegistry :: agentRegistry where
  "newAgentRegistry = \<lparr>ar_tokens = [], ar_stopped = [], ar_scopes = [], ar_authOn = False, ar_agentToken = []\<rparr>"

definition SetClientAuth :: "string \<Rightarrow> agentRegistry \<Rightarrow> agentRegistry" where
  "SetClientAuth token r = r \<lparr>ar_agentToken := token, ar_authOn := ar_authOn r \<or> token \<noteq> []\<rparr>"

definition SetAgents :: "(string, string) gomap \<Rightarrow> agentRegistry \<Rightarrow> agentRegistry" where
  "SetAgents agents r = r \<lparr>ar_tokens := agents, ar_authOn := ar_authOn r \<or> agents \<noteq> []\<rparr>"

definition SetAgentScopes :: "(string, AgentScope) gomap \<Rightarrow> agentRegistry \<Rightarrow> agentRegistry" where
  "SetAgentScopes scopes r = r \<lparr>ar_scopes := scopes\<rparr>"

definition SetStoppedAgents :: "string list \<Rightarrow> agentRegistry \<Rightarrow> agentRegistry" where
  "SetStoppedAgents names r = r \<lparr>ar_stopped := names\<rparr>"

definition outOfScope :: "agentRegistry \<Rightarrow> string \<Rightarrow> string \<Rightarrow> bool" where
  "outOfScope r name resource =
     (case map_of (ar_scopes r) name of None \<Rightarrow> False | Some sc \<Rightarrow> \<not> InScope sc resource)"

fun stopped_walk :: "agentRegistry \<Rightarrow> string \<Rightarrow> nat \<Rightarrow> bool" where
  "stopped_walk r n 0 = False"
| "stopped_walk r n (Suc k) \<longleftrightarrow>
     n \<noteq> [] \<and> (n \<in> set (ar_stopped r) \<or> stopped_walk r (as_Parent (scope_at (ar_scopes r) n)) k)"

definition isStopped :: "agentRegistry \<Rightarrow> string \<Rightarrow> bool" where
  "isStopped r name \<longleftrightarrow> AllAgents \<in> set (ar_stopped r) \<or> stopped_walk r name 32"

definition agentLabel :: "(string \<Rightarrow> string) \<Rightarrow> string \<Rightarrow> string" where
  "agentLabel sha token = (if token = [] then [] else ''pt_'' @ take 16 (hex_EncodeToString (sha token)))"

definition accepted :: "agentRegistry \<Rightarrow> agentIdentity \<Rightarrow> bool" where
  "accepted r i \<longleftrightarrow>
     \<not> ar_authOn r \<or>
     (id_token i \<noteq> [] \<and>
      ((id_name i = DefaultAgentName \<and> ar_agentToken r \<noteq> [] \<and> id_token i = ar_agentToken r) \<or>
       map_of (ar_tokens r) (id_name i) = Some (id_token i)))"

definition zero_identity :: agentIdentity where
  "zero_identity = \<lparr>id_name = [], id_label = [], id_token = []\<rparr>"

text \<open>
  The identities whose token the client presented, in the order the loop finds them; the last one found is kept,
  and more than one is refused.
\<close>

definition token_matches :: "(string \<Rightarrow> string) \<Rightarrow> agentRegistry \<Rightarrow> string \<Rightarrow> agentIdentity list" where
  "token_matches sha r tok =
     (if ar_agentToken r \<noteq> [] \<and> tok = ar_agentToken r
      then [\<lparr>id_name = DefaultAgentName, id_label = agentLabel sha (ar_agentToken r), id_token = ar_agentToken r\<rparr>] else []) @
     map (\<lambda>(n, t). \<lparr>id_name = n, id_label = n, id_token = t\<rparr>) (filter (\<lambda>(n, t). tok = t) (ar_tokens r))"

definition authenticate :: "(string \<Rightarrow> string) \<Rightarrow> agentRegistry \<Rightarrow> string \<Rightarrow> agentIdentity option" where
  "authenticate sha r tok =
     (if \<not> ar_authOn r then Some zero_identity
      else let ids = token_matches sha r tok in
        if tok = [] \<or> length ids \<noteq> 1 then None else Some (last ids))"

definition agentGone :: "agentRegistry \<Rightarrow> agentIdentity \<Rightarrow> bool" where
  "agentGone r i \<longleftrightarrow> isStopped r (id_name i) \<or> \<not> accepted r i"

section \<open>Patterns inside patterns\<close>

lemma GlobMatch_creds: "GlobMatch p s = creds_glob p s"
  by (simp add: GlobMatch_def creds_glob_def)

lemma GlobMatch_correct: "GlobMatch p s = glob_sem p s"
proof -
  have "glob_sem p s = url_globMatch p s" by (simp add: url_globMatch_correct)
  then show ?thesis unfolding GlobMatch_creds using creds_glob_sem by simp
qed

text \<open>
  A pattern that a glob matches as text, stars included, matches nothing the glob does not match.
\<close>

lemma glob_sem_trans: "glob_sem p c \<Longrightarrow> glob_sem c r \<Longrightarrow> glob_sem p r"
proof (induction p c arbitrary: r rule: glob_sem.induct)
  case (1 s)
  then show ?case by simp
next
  case (2 a p s)
  show ?case
  proof (cases "a = CHR ''*''")
    case True
    show ?thesis
    proof (cases "glob_sem p s")
      case True
      then have "glob_sem p r" using "2.IH"(1) \<open>a = CHR ''*''\<close> "2.prems"(2) by blast
      then show ?thesis unfolding \<open>a = CHR ''*''\<close> glob_sem_star by (metis append_Nil)
    next
      case False
      then obtain b t where s: "s = b # t" "glob_sem (a # p) t"
        using "2.prems"(1) True by (auto simp: glob_sem.simps(2) split: list.splits)
      from "2.prems"(2) obtain u v where "r = u @ v" "glob_sem t v"
        unfolding s(1) by (cases "b = CHR ''*''") (auto simp: glob_sem_star glob_sem_lit, metis append_Cons append_Nil)
      moreover from this(2) have "glob_sem (a # p) v" using "2.IH"(2) [OF True s(1)] s(2) by blast
      ultimately show ?thesis unfolding True glob_sem_star by (metis append_assoc)
    qed
  next
    case False
    then obtain t where s: "s = a # t" "glob_sem p t" using "2.prems"(1) by (auto simp: glob_sem_lit)
    then obtain r' where "r = a # r'" "glob_sem t r'" using "2.prems"(2) False by (auto simp: glob_sem_lit)
    then show ?thesis using "2.IH"(3) [OF False s(1)] s(2) False by (auto simp: glob_sem_lit)
  qed
qed

end
