(* ===== verification/Agents_Properties.thy ===== *)
theory Agents_Properties
  imports Proxy_Agents
begin

text \<open>
  Properties of the named agents: a sub-agent stays inside the scope of every agent above it and stops with it,
  and client authentication, once on, admits exactly the configured agents.
\<close>

section \<open>Sub-agents\<close>

inductive ancestor :: "(string, AgentScope) gomap \<Rightarrow> string \<Rightarrow> string \<Rightarrow> bool" for scopes n where
  parent: "as_Parent (scope_at scopes n) = p \<Longrightarrow> p \<noteq> [] \<Longrightarrow> ancestor scopes n p"
| above: "ancestor scopes n p \<Longrightarrow> as_Parent (scope_at scopes p) = q \<Longrightarrow> q \<noteq> [] \<Longrightarrow> ancestor scopes n q"

text \<open>The walk up from an agent ends within \<open>k\<close> steps.\<close>

fun ends_within :: "(string, AgentScope) gomap \<Rightarrow> string \<Rightarrow> nat \<Rightarrow> bool" where
  "ends_within scopes p 0 \<longleftrightarrow> p = []"
| "ends_within scopes p (Suc k) \<longleftrightarrow> p = [] \<or> ends_within scopes (as_Parent (scope_at scopes p)) k"

lemma parents_ok_ends: "parents_ok scopes seen p k \<Longrightarrow> ends_within scopes p k"
  by (induction scopes seen p k rule: parents_ok.induct) auto

lemma scope_valid_at:
  assumes "ValidateAgentScopes scopes agents legacy" "as_Parent (scope_at scopes n) \<noteq> []"
  shows "scope_valid scopes agents legacy (n, scope_at scopes n)"
  using assms
  by (auto simp: ValidateAgentScopes_def scope_at_def no_scope_def list_all_iff split: option.splits dest: map_of_SomeD)

lemma ends_within_parent:
  assumes "ValidateAgentScopes scopes agents legacy"
  shows "ends_within scopes (as_Parent (scope_at scopes n)) maxScopeDepth"
proof (cases "as_Parent (scope_at scopes n) = []")
  case True
  then show ?thesis by (simp add: maxScopeDepth_def eval_nat_numeral)
next
  case False
  then show ?thesis using scope_valid_at [OF assms] by (auto simp: scope_valid_def dest: parents_ok_ends)
qed

lemma InScope_no_scope [simp]: "InScope no_scope res"
  by (simp add: InScope_def no_scope_def)

lemma outOfScope_iff: "outOfScope r n res \<longleftrightarrow> \<not> InScope (scope_at (ar_scopes r) n) res"
  by (simp add: outOfScope_def scope_at_def split: option.splits)

lemma ScopeCovers_InScope:
  assumes "ScopeCovers (as_Allow psc) (as_Allow sc)" "InScope sc res"
  shows "InScope psc res"
  using assms unfolding ScopeCovers_def InScope_def list_all_iff list_ex_iff GlobMatch_correct
  by (meson glob_sem_trans)

lemma InScope_parent:
  assumes "ValidateAgentScopes scopes agents legacy" "as_Parent (scope_at scopes n) = p" "p \<noteq> []"
    and "InScope (scope_at scopes n) res"
  shows "InScope (scope_at scopes p) res"
  using scope_valid_at [of scopes agents legacy n] assms ScopeCovers_InScope by (auto simp: scope_valid_def)

lemma stopped_walk_empty [simp]: "\<not> stopped_walk r [] k"
  by (cases k) auto

lemma stopped_walk_mono: "stopped_walk r n k \<Longrightarrow> k \<le> m \<Longrightarrow> stopped_walk r n m"
proof (induction r n k arbitrary: m rule: stopped_walk.induct)
  case (2 r n k)
  then obtain m' where "m = Suc m'" "k \<le> m'" by (cases m) auto
  then show ?case using 2 by auto
qed simp

lemma stopped_walk_bound:
  "ends_within (ar_scopes r) n k \<Longrightarrow> stopped_walk r n m \<Longrightarrow> stopped_walk r n k"
proof (induction k arbitrary: n m)
  case (Suc k)
  then obtain m' where "m = Suc m'" by (cases m) auto
  then show ?case using Suc by auto
qed auto

lemma isStopped_parent:
  assumes "ValidateAgentScopes (ar_scopes r) agents legacy"
    and "as_Parent (scope_at (ar_scopes r) n) = p" "p \<noteq> []" "n \<noteq> []" "isStopped r p"
  shows "isStopped r n"
proof (cases "AllAgents \<in> set (ar_stopped r)")
  case False
  then have "stopped_walk r p maxScopeDepth"
    using stopped_walk_bound ends_within_parent [OF assms(1), of n] assms(2,5) by (auto simp: isStopped_def)
  then have "stopped_walk r n (Suc maxScopeDepth)" using assms(2,4) by simp
  then show ?thesis by (auto simp: isStopped_def maxScopeDepth_def intro: stopped_walk_mono)
qed (simp add: isStopped_def)

text \<open>C28: A sub-agent never gets past an agent above it: when the configured scopes are valid, a resource inside the
  scope of an agent is inside the scope of every agent above it, through any number of sub-agents, and stopping one
  of those stops the agent too. The walk that looks for a stopped agent never ends before the chain does.
\<close>

theorem subagent_confined:
  assumes "ValidateAgentScopes (ar_scopes r) agents legacy" "ancestor (ar_scopes r) n a" "n \<noteq> []"
  shows "(\<not> outOfScope r n res \<longrightarrow> \<not> outOfScope r a res) \<and> (isStopped r a \<longrightarrow> isStopped r n)"
  using assms(2)
proof induction
  case (parent p)
  then show ?case using InScope_parent [OF assms(1)] isStopped_parent [OF assms(1)] assms(3) by (simp add: outOfScope_iff)
next
  case (above p q)
  moreover have "p \<noteq> []" using above.hyps(1) by (auto elim: ancestor.cases)
  ultimately show ?case
    using InScope_parent [OF assms(1)] isStopped_parent [OF assms(1)] by (simp add: outOfScope_iff)
qed

definition sample_agents :: agentRegistry where
  "sample_agents = \<lparr>ar_tokens = [(''a'', replicate 32 (CHR ''1'')), (''b'', replicate 32 (CHR ''2'')), (''c'', replicate 32 (CHR ''3''))],
     ar_stopped = [''a''],
     ar_scopes = [(''a'', \<lparr>as_Parent = [], as_For = [], as_Allow = [''GET *'', ''PUT x'']\<rparr>),
       (''b'', \<lparr>as_Parent = ''a'', as_For = [], as_Allow = [''GET h*'']\<rparr>),
       (''c'', \<lparr>as_Parent = ''b'', as_For = [], as_Allow = [''GET h/*'']\<rparr>)],
     ar_authOn = True, ar_agentToken = []\<rparr>"

lemma sample_agents_valid:
  "ValidateAgentScopes (ar_scopes sample_agents) (ar_tokens sample_agents) [] \<and>
   ancestor (ar_scopes sample_agents) ''c'' ''a'' \<and> isStopped sample_agents ''a'' \<and> \<not> outOfScope sample_agents ''c'' ''GET h/x''"
proof -
  have "ValidateAgentScopes (ar_scopes sample_agents) (ar_tokens sample_agents) []" by code_simp
  moreover have "ancestor (ar_scopes sample_agents) ''c'' ''a''"
    by (rule ancestor.above [of _ _ "''b''"], rule ancestor.parent) (simp_all add: sample_agents_def scope_at_def)
  moreover have "isStopped sample_agents ''a''" "\<not> outOfScope sample_agents ''c'' ''GET h/x''" by code_simp+
  ultimately show ?thesis by blast
qed

theorem subagent_confined_witness:
  "isStopped sample_agents ''c'' \<and> \<not> outOfScope sample_agents ''a'' ''GET h/x''"
  using subagent_confined [of sample_agents "ar_tokens sample_agents" "[]" "''c''" "''a''" "''GET h/x''"] sample_agents_valid
  by blast

section \<open>Authentication\<close>

datatype registry_op =
  ClientAuthOp string
| AgentsOp "(string, string) gomap"
| ScopesOp "(string, AgentScope) gomap"
| StoppedOp "string list"

fun registry_step :: "registry_op \<Rightarrow> agentRegistry \<Rightarrow> agentRegistry" where
  "registry_step (ClientAuthOp t) r = SetClientAuth t r"
| "registry_step (AgentsOp a) r = SetAgents a r"
| "registry_step (ScopesOp s) r = SetAgentScopes s r"
| "registry_step (StoppedOp n) r = SetStoppedAgents n r"

lemmas registry_ops = SetClientAuth_def SetAgents_def SetAgentScopes_def SetStoppedAgents_def

lemma authOn_kept: "ar_authOn r \<Longrightarrow> ar_authOn (fold registry_step ops r)"
proof (induction ops arbitrary: r)
  case (Cons oper ops)
  have "ar_authOn (registry_step oper r)" using Cons.prems by (cases oper) (simp_all add: registry_ops)
  then show ?case using Cons.IH by simp
qed simp

lemma check_agents_once:
  "check_agents seen agents \<Longrightarrow>
   (\<forall>t \<in> set seen. filter (\<lambda>(n, u). t = u) agents = []) \<and> length (filter (\<lambda>(n, u). t = u) agents) \<le> 1"
  by (induction seen agents rule: check_agents.induct) auto

lemma check_agents_long: "check_agents seen agents \<Longrightarrow> (n, t) \<in> set agents \<Longrightarrow> 32 \<le> length t"
  by (induction seen agents rule: check_agents.induct) auto

text \<open>The credentials of the registry: its tokens under their names.\<close>

definition credentials :: "agentRegistry \<Rightarrow> (string \<times> string) list" where
  "credentials r = (if ar_agentToken r \<noteq> [] then [(DefaultAgentName, ar_agentToken r)] else []) @ ar_tokens r"

lemma token_matches_credentials:
  "map (\<lambda>i. (id_name i, id_token i)) (token_matches sha r tok) = filter (\<lambda>(n, t). tok = t) (credentials r)"
  by (simp add: token_matches_def credentials_def o_def split_beta' map_idI)

lemma credentials_once:
  assumes "ValidateAgents (ar_tokens r) (ar_agentToken r)"
  shows "length (filter (\<lambda>(n, t). tok = t) (credentials r)) \<le> 1"
  using check_agents_once [of _ "ar_tokens r" tok] assms
  by (auto simp: ValidateAgents_def credentials_def split: if_splits)

text \<open>C29: Client authentication cannot be lost and names exactly one agent: once a credential has been configured, after
  any further changes of token, agents, scopes and stopped names a client is authenticated only with a credential in
  force at that moment, and as the agent that owns it; while the configured agents are valid, every configured
  credential authenticates its agent. Removing the last agent leaves a proxy that refuses everyone.
\<close>

theorem authentication_stays_on:
  assumes "ar_authOn r0" "r = fold registry_step ops r0"
  shows "(\<forall>i. authenticate sha r tok = Some i \<longrightarrow> tok \<noteq> [] \<and> id_token i = tok \<and> filter (\<lambda>(n, t). tok = t) (credentials r) = [(id_name i, tok)])
    \<and> (ValidateAgents (ar_tokens r) (ar_agentToken r) \<longrightarrow>
        (\<forall>n. (n, tok) \<in> set (credentials r) \<longrightarrow> (\<exists>i. authenticate sha r tok = Some i \<and> id_name i = n)))"
proof -
  have on: "ar_authOn r" using authOn_kept assms by simp
  let ?ids = "token_matches sha r tok"
  note creds = token_matches_credentials [of sha r tok]
  have one: "filter (\<lambda>(n, t). tok = t) (credentials r) = [(id_name i, tok)] \<and> id_token i = tok" if "?ids = [i]" for i
  proof -
    have eq: "filter (\<lambda>(n, t). tok = t) (credentials r) = [(id_name i, id_token i)]" using creds that by simp
    then have "id_token i = tok" using filter_eq_ConsD [OF eq] by auto
    then show ?thesis using eq by simp
  qed
  have sound: "tok \<noteq> [] \<and> id_token i = tok \<and> filter (\<lambda>(n, t). tok = t) (credentials r) = [(id_name i, tok)]"
    if "authenticate sha r tok = Some i" for i
    using that on one by (auto simp: authenticate_def Let_def length_Suc_conv split: if_splits)
  have complete: "\<exists>i. authenticate sha r tok = Some i \<and> id_name i = n"
    if "ValidateAgents (ar_tokens r) (ar_agentToken r)" and n: "(n, tok) \<in> set (credentials r)" for n
  proof -
    have "(n, tok) \<in> set (filter (\<lambda>(n, t). tok = t) (credentials r))" using n by simp
    then have "filter (\<lambda>(n, t). tok = t) (credentials r) = [(n, tok)]"
      using credentials_once [OF that(1), of tok] by (cases "filter (\<lambda>(n, t). tok = t) (credentials r)") auto
    then obtain i where "?ids = [i]" "id_name i = n" using creds by (auto simp: map_eq_Cons_conv)
    moreover have "tok \<noteq> []" using n that(1)
      by (auto simp: credentials_def ValidateAgents_def split: if_splits dest: check_agents_long)
    ultimately show ?thesis using on by (simp add: authenticate_def Let_def)
  qed
  show ?thesis using sound complete by blast
qed

text \<open>Agent \<^verbatim>\<open>b\<close> is let in by its token, and after all agents are removed its token lets nobody in.\<close>

definition sample_token :: string where "sample_token = replicate 32 (CHR ''2'')"

theorem authentication_stays_on_witness:
  "(\<exists>i. authenticate (\<lambda>_. []) sample_agents sample_token = Some i \<and> id_name i = ''b'') \<and>
   authenticate (\<lambda>_. []) (fold registry_step [StoppedOp [], AgentsOp []] sample_agents) sample_token = None"
proof -
  have 1: "ar_authOn sample_agents" by (simp add: sample_agents_def)
  have 2: "ValidateAgents (ar_tokens sample_agents) (ar_agentToken sample_agents)"
    "(''b'', sample_token) \<in> set (credentials sample_agents)" by code_simp+
  have 3: "credentials (fold registry_step [StoppedOp [], AgentsOp []] sample_agents) = []" by code_simp
  show ?thesis
    using authentication_stays_on [OF 1, of sample_agents "[]" "\<lambda>_. []" sample_token] 2
      authentication_stays_on [OF 1 refl, of "\<lambda>_. []" "[StoppedOp [], AgentsOp []]" sample_token] 3
    by (auto simp: not_None_eq [symmetric] simp del: not_None_eq)
qed

end
