(* ===== verification/Proxy_Hold.thy ===== *)
theory Proxy_Hold
  imports Approval_Properties
begin

text \<open>
  Component: holding a request for a person (\<^verbatim>\<open>proxy/internal/proxy/proxy.go\<close>, \<^verbatim>\<open>packages.go\<close>), the
  client calls it makes (\<^verbatim>\<open>proxy/internal/gateway/client.go\<close>) and the claim route of the gateway
  (\<^verbatim>\<open>handlers/approval.go\<close>). A hold is a loop over the events it waits for: the client going away, the
  deadline, a tick of the poll timer. HTTP and JSON between the two programs are the status code and the fields
  that are read.
\<close>

section \<open>Decisions of the gateway as the proxy reads them\<close>

record Decision =
  gd_Decision :: string
  gd_DecisionID :: string
  gd_ReasonCodes :: "string list"
  gd_ApprovalID :: string
  gd_MatchedRule :: string

definition gwAllow :: string where "gwAllow = ''allow''"
definition gwDeny :: string where "gwDeny = ''deny''"
definition gwEscalate :: string where "gwEscalate = ''escalate''"

definition pkgAllow :: string where "pkgAllow = ''allow''"
definition pkgDeny :: string where "pkgDeny = ''deny''"
definition pkgApproved :: string where "pkgApproved = ''approved''"
definition pkgTimeout :: string where "pkgTimeout = ''timeout''"
definition pkgAborted :: string where "pkgAborted = ''aborted''"
definition pkgError :: string where "pkgError = ''error''"
definition outcomeUnattended :: string where "outcomeUnattended = ''unattended''"

lemmas outcome_names = gwAllow_def gwDeny_def gwEscalate_def pkgAllow_def pkgDeny_def pkgApproved_def pkgTimeout_def
  pkgAborted_def pkgError_def outcomeUnattended_def

section \<open>The claim route\<close>

text \<open>The answer of the claim route: its status code and the field \<^verbatim>\<open>claimed\<close> of the body.\<close>

definition handleClaim ::
  "service \<Rightarrow> 's approval_ops \<Rightarrow> time \<Rightarrow> string \<Rightarrow> bool \<Rightarrow> string \<Rightarrow> 's \<Rightarrow> (int \<times> bool) \<times> 's" where
  "handleClaim cfg ops now caller operator aid s =
     (if aid = [] then ((400, False), s)
      else case GetApproval cfg ops now aid s of
        Inl e \<Rightarrow> ((404, False), s)
      | Inr a \<Rightarrow>
          if caller \<noteq> [] \<and> \<not> operator \<and> ap_AgentID a \<noteq> caller then ((404, False), s)
          else (case Claim cfg ops now aid s of
                  ((_, _, Some ErrApprovalUsed), s') \<Rightarrow> ((409, False), s')
                | ((_, _, Some e), s') \<Rightarrow> ((500, False), s')
                | ((_, claimed, None), s') \<Rightarrow> ((200, claimed), s')))"

datatype claim_answer = ClaimSaid bool | ClaimUnsupported | ClaimFailed

definition ClaimApproval :: "int \<times> bool \<Rightarrow> claim_answer" where
  "ClaimApproval resp =
     (case resp of (code, claimed) \<Rightarrow>
        if code = 409 then ClaimSaid False
        else if code = 404 then ClaimUnsupported
        else if 300 \<le> code then ClaimFailed
        else ClaimSaid claimed)"

definition claimed :: "claim_answer \<Rightarrow> string \<Rightarrow> string" where
  "claimed ans status =
     (if status \<noteq> pkgApproved then status
      else (case ans of
              ClaimUnsupported \<Rightarrow> pkgApproved
            | ClaimFailed \<Rightarrow> pkgError
            | ClaimSaid ok \<Rightarrow> if ok then pkgApproved else ''used''))"

section \<open>Slots for held requests\<close>

definition maxPendingEscalations :: int where "maxPendingEscalations = 64"
definition maxHeldEscalations :: int where "maxHeldEscalations = 4 * maxPendingEscalations"

type_synonym heldCounter = "(string, int) gomap"

definition held_of :: "heldCounter \<Rightarrow> string \<Rightarrow> int" where
  "held_of h agent = (case map_of h agent of None \<Rightarrow> 0 | Some n \<Rightarrow> n)"

definition held_take :: "string \<Rightarrow> int \<Rightarrow> heldCounter \<Rightarrow> bool \<times> heldCounter" where
  "held_take agent max' h =
     (if max' \<le> held_of h agent then (False, h) else (True, AList.update agent (held_of h agent + 1) h))"

definition held_release :: "string \<Rightarrow> heldCounter \<Rightarrow> heldCounter" where
  "held_release agent h =
     (if held_of h agent - 1 \<le> 0 then AList.delete agent h else AList.update agent (held_of h agent - 1) h)"

record hold_slots =
  hs_sem :: int
  hs_held :: heldCounter

text \<open>
  Entering a hold: a slot of the semaphore, then one of the agent; a refusal by the agent's cap gives the first
  slot back on return. Leaving gives both back.
\<close>

definition hold_enter :: "string \<Rightarrow> hold_slots \<Rightarrow> bool \<times> hold_slots" where
  "hold_enter agent st =
     (if maxHeldEscalations \<le> hs_sem st then (False, st)
      else (case held_take agent maxPendingEscalations (hs_held st) of
              (False, h) \<Rightarrow> (False, st)
            | (True, h) \<Rightarrow> (True, \<lparr>hs_sem = hs_sem st + 1, hs_held = h\<rparr>)))"

definition hold_leave :: "string \<Rightarrow> hold_slots \<Rightarrow> hold_slots" where
  "hold_leave agent st = \<lparr>hs_sem = hs_sem st - 1, hs_held = held_release agent (hs_held st)\<rparr>"

section \<open>The wait\<close>

text \<open>
  An event of the wait: what \<^verbatim>\<open>ApprovalStatus\<close> answers, if it is asked (\<^const>\<open>None\<close> is an error), whether the
  agent is stopped by then, whether the client has gone when the call fails, and what a claim would answer.
\<close>

datatype hold_event =
    CtxDone
  | Deadline "string option" claim_answer
  | Tick bool "string option" bool claim_answer

fun hold_wait :: "hold_event list \<Rightarrow> string option" where
  "hold_wait [] = None"
| "hold_wait (CtxDone # evs) = Some pkgAborted"
| "hold_wait (Deadline st ans # evs) =
     (case st of
        Some status \<Rightarrow> if status \<noteq> ''pending'' then Some (claimed ans status) else Some pkgTimeout
      | None \<Rightarrow> Some pkgTimeout)"
| "hold_wait (Tick stopped st gone ans # evs) =
     (if stopped then Some ''denied''
      else (case st of
              None \<Rightarrow> if gone then Some pkgAborted else hold_wait evs
            | Some status \<Rightarrow> if status \<noteq> ''pending'' then Some (claimed ans status) else hold_wait evs))"

text \<open>\<open>holdForApproval\<close>: the outcome and the approval id; \<open>entered\<close> is the answer of the slots.\<close>

definition holdForApproval ::
  "bool \<Rightarrow> bool \<Rightarrow> string option \<Rightarrow> hold_event list \<Rightarrow> (string \<times> string) option" where
  "holdForApproval unattended entered create evs =
     (if unattended then Some (outcomeUnattended, [])
      else if \<not> entered then Some (''denied'', [])
      else (case create of
              None \<Rightarrow> Some (''denied'', [])
            | Some aid \<Rightarrow> map_option (\<lambda>o'. (o', aid)) (hold_wait evs)))"

definition awaitEscalation ::
  "bool \<Rightarrow> bool \<Rightarrow> Decision \<Rightarrow> string option \<Rightarrow> hold_event list \<Rightarrow> (string \<times> string) option" where
  "awaitEscalation unattended entered d create evs =
     holdForApproval unattended entered (if gd_ApprovalID d \<noteq> [] then Some (gd_ApprovalID d) else create) evs"

text \<open>\<open>askAction\<close>: the second questions of the proxy, decided by the gateway under their own action type.\<close>

definition askAction ::
  "bool \<Rightarrow> bool \<Rightarrow> Decision option \<Rightarrow> string option \<Rightarrow> hold_event list \<Rightarrow> (string \<times> string) option" where
  "askAction unattended entered answer create evs =
     (case answer of
        None \<Rightarrow> Some (pkgError, [])
      | Some d \<Rightarrow>
          if gd_Decision d = pkgAllow then Some (pkgAllow, [])
          else if gd_Decision d = gwEscalate then
            (case awaitEscalation unattended entered d create evs of
               None \<Rightarrow> None
             | Some (outcome, aid) \<Rightarrow>
                 Some (if outcome = pkgApproved \<or> outcome = pkgTimeout \<or> outcome = pkgAborted
                       then (outcome, aid) else (pkgDeny, aid)))
          else Some (pkgDeny, []))"

end
