(* ===== verification/Hold_Properties.thy ===== *)
theory Hold_Properties
  imports Proxy_Hold
begin

text \<open>
  Properties of held requests: a hold ends approved only through a claim, an approval lets one request through over
  every interleaving of proxies, people and other callers, and the slots bound what is held.
\<close>

section \<open>What ends a hold\<close>

text \<open>The event saw the approval approved and its claim was answered with \<open>ans\<close>.\<close>

definition saw_approved :: "hold_event \<Rightarrow> claim_answer \<Rightarrow> bool" where
  "saw_approved ev ans \<longleftrightarrow>
     (case ev of
        CtxDone \<Rightarrow> False
      | Deadline st a \<Rightarrow> st = Some pkgApproved \<and> a = ans
      | Tick stopped st gone a \<Rightarrow> \<not> stopped \<and> st = Some pkgApproved \<and> a = ans)"

lemma claimed_approved: "claimed ans status = pkgApproved \<longleftrightarrow> status = pkgApproved \<and> (ans = ClaimSaid True \<or> ans = ClaimUnsupported)"
  by (auto simp: claimed_def outcome_names split: claim_answer.splits)

lemmas claimed_approved_name = claimed_approved [unfolded pkgApproved_def]

lemma hold_wait_approved:
  "hold_wait evs = Some pkgApproved \<Longrightarrow> \<exists>ev \<in> set evs. saw_approved ev (ClaimSaid True) \<or> saw_approved ev ClaimUnsupported"
proof (induction evs rule: hold_wait.induct)
  case (3 st ans evs)
  then show ?case
    by (auto simp: claimed_approved_name saw_approved_def outcome_names split: option.splits if_splits)
next
  case (4 stopped st gone ans evs)
  show ?case
  proof (cases "hold_wait evs = Some pkgApproved \<and> (st = None \<or> st = Some ''pending'')")
    case True
    then show ?thesis using 4 by (auto simp: outcome_names split: if_splits)
  next
    case False
    then have "claimed ans (the st) = pkgApproved" "\<not> stopped" "st \<noteq> None"
      using "4.prems" by (auto simp: outcome_names split: option.splits if_splits)
    then show ?thesis by (auto simp: claimed_approved saw_approved_def)
  qed
qed (auto simp: outcome_names)

text \<open>A status is final once it is not pending: only the first event that is not a failed or pending poll counts.\<close>

lemma hold_wait_agent_stopped: "hold_wait (Tick True st gone ans # evs) = Some ''denied''"
  by simp

lemma askAction_goes_on:
  assumes "askAction unattended entered answer create evs = Some (o', aid)" "o' = pkgAllow \<or> o' = pkgApproved"
  shows "(\<exists>d. answer = Some d \<and> gd_Decision d = pkgAllow) \<or>
    (\<not> unattended \<and> entered \<and> (\<exists>d. answer = Some d \<and> gd_Decision d = gwEscalate) \<and>
     (\<exists>ev \<in> set evs. saw_approved ev (ClaimSaid True) \<or> saw_approved ev ClaimUnsupported))"
proof (cases answer)
  case None
  then show ?thesis using assms by (auto simp: askAction_def outcome_names)
next
  case (Some d)
  show ?thesis
  proof (cases "gd_Decision d = pkgAllow")
    case False
    then have "gd_Decision d = gwEscalate \<and> awaitEscalation unattended entered d create evs = Some (pkgApproved, aid)"
      using assms Some by (auto simp: askAction_def outcome_names split: if_splits option.splits)
    then show ?thesis
      using Some hold_wait_approved [of evs]
      by (auto simp: awaitEscalation_def holdForApproval_def outcome_names split: if_splits option.splits)
  qed (use Some in auto)
qed

text \<open>A request that a person has to decide goes on only if it was approved and the approval claimed: when
  the run is attended, a slot was free, an approval was opened, and at some event of the wait the agent was not
  stopped, the approval was approved and the claim succeeded, or the gateway has no claim route.
\<close>

theorem hold_goes_on_only_claimed:
  assumes "awaitEscalation unattended entered d create evs = Some (pkgApproved, aid)"
  shows "\<not> unattended \<and> entered \<and> (gd_ApprovalID d = aid \<or> create = Some aid) \<and>
    (\<exists>ev \<in> set evs. saw_approved ev (ClaimSaid True) \<or> saw_approved ev ClaimUnsupported)"
  using assms hold_wait_approved [of evs]
  by (auto simp: awaitEscalation_def holdForApproval_def outcome_names split: if_splits option.splits)

definition sample_hold :: "hold_event list" where
  "sample_hold = [Tick False None False ClaimFailed, Tick False (Some ''pending'') False ClaimFailed,
     Tick False (Some ''approved'') False (ClaimSaid True)]"

definition sample_decision :: Decision where
  "sample_decision = \<lparr>gd_Decision = ''escalate'', gd_DecisionID = ''d1'', gd_ReasonCodes = [], gd_ApprovalID = [],
     gd_MatchedRule = []\<rparr>"

theorem hold_goes_on_only_claimed_witness:
  "awaitEscalation False True sample_decision (Some ''a1'') sample_hold = Some (pkgApproved, ''a1'') \<and>
   (\<exists>ev \<in> set sample_hold. saw_approved ev (ClaimSaid True) \<or> saw_approved ev ClaimUnsupported)"
proof -
  have "awaitEscalation False True sample_decision (Some ''a1'') sample_hold = Some (pkgApproved, ''a1'')" by code_simp
  then show ?thesis using hold_goes_on_only_claimed by blast
qed

section \<open>One approval, one request\<close>

text \<open>
  Calls that reach the gateway in some order: service calls of other callers, and the claims of held requests that
  saw their approval approved. Of a claim the run records the approval and how the hold ends.
\<close>

datatype gateway_call = ServiceCall "time \<times> svc_req" | HoldClaim time string bool string

fun shared_run ::
  "service \<Rightarrow> (string \<Rightarrow> string) \<Rightarrow> 's approval_ops \<Rightarrow> gateway_call list \<Rightarrow> 's \<Rightarrow> (string \<times> string) list" where
  "shared_run cfg sha ops [] s = []"
| "shared_run cfg sha ops (ServiceCall r # calls) s = shared_run cfg sha ops calls (snd (svc_exec cfg sha ops r s))"
| "shared_run cfg sha ops (HoldClaim now caller operator aid # calls) s =
     (case handleClaim cfg ops now caller operator aid s of
        (resp, s') \<Rightarrow> (aid, claimed (ClaimApproval resp) pkgApproved) # shared_run cfg sha ops calls s')"

definition lets_through :: "string \<Rightarrow> string \<times> string \<Rightarrow> bool" where
  "lets_through aid r \<longleftrightarrow> r = (aid, pkgApproved)"

text \<open>A claim of the approval comes from an operator, from its agent, or from a caller without a name.\<close>

fun may_see :: "string \<Rightarrow> string \<Rightarrow> gateway_call \<Rightarrow> bool" where
  "may_see owner aid (ServiceCall r) \<longleftrightarrow> True"
| "may_see owner aid (HoldClaim now caller operator aid') \<longleftrightarrow> aid' = aid \<longrightarrow> caller = [] \<or> operator \<or> caller = owner"

lemma Claim_error_not_claimed: "Claim cfg ops now aid s = ((a, c, Some e), s') \<Longrightarrow> \<not> c"
  by (auto simp: Claim_def split: sum.splits prod.splits if_splits)

text \<open>A claim over the route either stops at the door or is a claim of the service.\<close>

lemma handleClaim_cases:
  obtains (door) resp where "handleClaim cfg ops now caller operator aid s = (resp, s)"
      "aid = [] \<or> (\<exists>e. GetApproval cfg ops now aid s = Inl e) \<or>
       (\<exists>a. GetApproval cfg ops now aid s = Inr a \<and> caller \<noteq> [] \<and> \<not> operator \<and> ap_AgentID a \<noteq> caller)"
  | (claim) resp c a e s' where "handleClaim cfg ops now caller operator aid s = (resp, s')"
      "Claim cfg ops now aid s = ((a, c, e), s')" "claimed (ClaimApproval resp) pkgApproved = pkgApproved \<longleftrightarrow> c"
proof -
  obtain a c e s' where cl: "Claim cfg ops now aid s = ((a, c, e), s')" by (metis prod.exhaust)
  show thesis
  proof (cases "aid = [] \<or> (\<exists>e. GetApproval cfg ops now aid s = Inl e) \<or>
       (\<exists>a. GetApproval cfg ops now aid s = Inr a \<and> caller \<noteq> [] \<and> \<not> operator \<and> ap_AgentID a \<noteq> caller)")
    case True
    then have "snd (handleClaim cfg ops now caller operator aid s) = s"
      by (auto simp: handleClaim_def)
    then show thesis using door True by (metis prod.collapse)
  next
    case False
    then obtain b where b: "GetApproval cfg ops now aid s = Inr b" by (cases "GetApproval cfg ops now aid s") auto
    have err: "\<not> c" if "e \<noteq> None" using Claim_error_not_claimed [of cfg ops now aid s a c _ s'] cl that by auto
    let ?resp = "case e of None \<Rightarrow> (200, c) | Some ErrApprovalUsed \<Rightarrow> (409, False) | Some _ \<Rightarrow> (500, False)"
    have "handleClaim cfg ops now caller operator aid s = (?resp, s')"
      using False b by (auto simp: handleClaim_def cl split: option.splits approval_error.splits)
    moreover have "claimed (ClaimApproval ?resp) pkgApproved = pkgApproved \<longleftrightarrow> c"
      using err by (auto simp: ClaimApproval_def claimed_def outcome_names split: option.splits approval_error.splits)
    ultimately show thesis using claim cl by blast
  qed
qed

definition unused :: "ApprovalRequest \<Rightarrow> nat" where
  "unused a = (if ap_ResumedAt a = None then 1 else 0)"

lemma approval_stays:
  "approval_step cfg now out aid (Some a) y \<Longrightarrow> \<exists>a'. y = Some a' \<and> ap_AgentID a' = ap_AgentID a \<and> unused a' \<le> unused a"
  by (erule approval_step_Some) (auto simp: request_updates unused_def)

context approval_store
begin

lemma claim_stays:
  assumes "inv s" "look s aid = Some a" "Claim cfg ops now aid' s = ((a0, c, e), s')"
  shows "inv s' \<and> (\<exists>a'. look s' aid = Some a' \<and> ap_AgentID a' = ap_AgentID a \<and>
    unused a' + (if aid' = aid \<and> c then 1 else 0) \<le> unused a)"
proof (cases "c \<and> aid' = aid")
  case True
  then have "inv s' \<and> look s' aid = Some (MarkResumed now a) \<and> CanResume a"
    using claim_step [OF assms(1,3)] assms(2) by auto
  then show ?thesis using True by (auto simp: MarkResumed_def CanResume_def unused_def)
next
  case False
  then have "inv s' \<and> look s' aid = Some a" using claim_step [OF assms(1,3)] assms(2) by (auto split: if_splits)
  then show ?thesis using False by auto
qed

lemma shared_run_once:
  assumes "inv s" "look s aid = Some a" "list_all (may_see (ap_AgentID a) aid) calls"
  shows "length (filter (lets_through aid) (shared_run cfg sha ops calls s)) \<le> unused a"
  using assms
proof (induction calls arbitrary: s a)
  case Nil
  then show ?case by simp
next
  case (Cons call calls)
  show ?case
  proof (cases call)
    case (ServiceCall r)
    obtain now rq where r: "r = (now, rq)" by (cases r)
    obtain out s1 where e: "svc_exec cfg sha ops (now, rq) s = (out, s1)" by force
    have s1: "inv s1" "approval_step cfg now out aid (Some a) (look s1 aid)"
      using exec_step [OF Cons.prems(1) e] Cons.prems(2) by metis+
    from approval_stays [OF s1(2)] obtain a1 where
      a1: "look s1 aid = Some a1" "ap_AgentID a1 = ap_AgentID a" "unused a1 \<le> unused a" by blast
    have "length (filter (lets_through aid) (shared_run cfg sha ops calls s1)) \<le> unused a1"
      using Cons.IH [OF s1(1) a1(1)] Cons.prems(3) a1(2) by simp
    with a1(3) show ?thesis by (simp add: ServiceCall r e)
  next
    case (HoldClaim now caller operator aid')
    show ?thesis
    proof (cases rule: handleClaim_cases [of cfg ops now caller operator aid' s])
      case (door resp)
      have "aid' \<noteq> aid \<or> aid = []"
        using door(2) Cons.prems get_law [OF Cons.prems(1), of aid]
        by (auto simp: HoldClaim GetApproval_def view_def split: if_splits)
      then have "\<not> lets_through aid (aid', claimed (ClaimApproval resp) pkgApproved)"
        using door(1) by (auto simp: lets_through_def handleClaim_def ClaimApproval_def claimed_def outcome_names)
      then show ?thesis using Cons.IH [OF Cons.prems(1,2)] Cons.prems(3) door(1) by (simp add: HoldClaim)
    next
      case (claim resp c a0 e s1)
      from claim_stays [OF Cons.prems(1,2) claim(2)] obtain a1 where
        a1: "inv s1" "look s1 aid = Some a1" "ap_AgentID a1 = ap_AgentID a"
          "unused a1 + (if aid' = aid \<and> c then 1 else 0) \<le> unused a" by blast
      have "length (filter (lets_through aid) (shared_run cfg sha ops calls s1)) \<le> unused a1"
        using Cons.IH [OF a1(1,2)] Cons.prems(3) a1(3) by simp
      moreover have "lets_through aid (aid', claimed (ClaimApproval resp) pkgApproved) \<longleftrightarrow> aid' = aid \<and> c"
        using claim(3) by (auto simp: lets_through_def)
      ultimately show ?thesis using a1(4) claim(1) by (auto simp: HoldClaim split: if_splits)
    qed
  qed
qed

end

text \<open>C23: One approval lets one request through. Take an approval that is in the store, in memory or backed by a
  file whose writes succeed, and let every claim of it come from an operator, from its own agent, or from a caller
  without a name: then over every interleaving of the claims of held requests with the calls of people and other
  callers, at most one of the holds that saw it approved ends approved, and none if it was used before. What a
  claim does that the gateway answers with 404 is \<open>missing_approval_counts_as_claimed\<close> below.
\<close>

theorem approval_lets_one_request_through:
  assumes "list_all (may_see (ap_AgentID a) aid) calls"
  shows "(items_ok items \<and> map_of items aid = Some a \<longrightarrow>
      length (filter (lets_through aid) (shared_run cfg sha mem_ops calls items)) \<le> (if ap_ResumedAt a = None then 1 else 0)) \<and>
    (items_ok (fs_items s) \<and> map_of (fs_items s) aid = Some a \<longrightarrow>
      length (filter (lets_through aid) (shared_run cfg sha (file_ops WriteOk) calls s)) \<le> (if ap_ResumedAt a = None then 1 else 0))"
  using memory.shared_run_once [of items aid a calls cfg sha] journal.shared_run_once [of s aid a calls cfg sha] assms
  unfolding unused_def by blast

definition held_approval :: ApprovalRequest where
  "held_approval = Approve_req 2 ''ann'' (ToApproval 1 ''apr_x''
     \<lparr>cr_DecisionID = ''d1'', cr_ActionType = ''http.request'', cr_Resource = ''x'', cr_Environment = [], cr_AgentID = ''ag'',
      cr_TrustScore = 0, cr_TrustLevel = [], cr_AnomalyCodes = [], cr_ShieldActive = False, cr_Restricted = False,
      cr_Context = [], cr_RequestHash = [], cr_PolicyVersion = [], cr_LeaseID = [], cr_DelegationKeys = [], cr_Issuers = []\<rparr>)"

definition sample_calls :: "gateway_call list" where
  "sample_calls = [ServiceCall (3, ReqDeny ''apr_x'' ''bob'' []), HoldClaim 4 ''ag'' False ''apr_x'', HoldClaim 5 ''ag'' False ''apr_x'']"

theorem approval_lets_one_request_through_witness:
  "shared_run NewService (\<lambda>x. x) mem_ops sample_calls [(''apr_x'', held_approval)] = [(''apr_x'', pkgApproved), (''apr_x'', ''used'')] \<and>
   length (filter (lets_through ''apr_x'') (shared_run NewService (\<lambda>x. x) mem_ops sample_calls [(''apr_x'', held_approval)])) \<le> 1"
proof -
  have run: "shared_run NewService (\<lambda>x. x) mem_ops sample_calls [(''apr_x'', held_approval)] = [(''apr_x'', pkgApproved), (''apr_x'', ''used'')]"
    by code_simp
  have ok: "items_ok [(''apr_x'', held_approval)]" "ap_ResumedAt held_approval = None"
    by (simp_all add: held_approval_def Approve_req_def ToApproval_def items_ok_def map_ok_def)
  have "list_all (may_see (ap_AgentID held_approval) ''apr_x'') sample_calls"
    by (simp add: sample_calls_def held_approval_def Approve_req_def ToApproval_def)
  from approval_lets_one_request_through [OF this, of "[(''apr_x'', held_approval)]" NewService "\<lambda>x. x"] ok run
  show ?thesis by simp
qed

text \<open>
  An approval that the gateway does not find answers a claim with 404, which the client takes for a gateway without
  the route: the hold ends approved although nothing was claimed.
\<close>

lemma missing_approval_counts_as_claimed:
  "handleClaim cfg mem_ops now caller operator ''gone'' [] = ((404, False), []) \<and>
   claimed (ClaimApproval (404, False)) pkgApproved = pkgApproved"
  by (simp add: handleClaim_def GetApproval_def mem_ops_def mem_Get_def ClaimApproval_def claimed_def outcome_names)

section \<open>The slots\<close>

text \<open>A hold leaves only after it entered: \<open>inside\<close> counts the holds of each agent that are in.\<close>

inductive slots_reachable :: "hold_slots \<Rightarrow> (string \<Rightarrow> nat) \<Rightarrow> bool" where
  start: "slots_reachable \<lparr>hs_sem = 0, hs_held = []\<rparr> (\<lambda>_. 0)"
| enter: "slots_reachable st inside \<Longrightarrow> hold_enter agent st = (True, st') \<Longrightarrow>
     slots_reachable st' (inside(agent := Suc (inside agent)))"
| refuse: "slots_reachable st inside \<Longrightarrow> hold_enter agent st = (False, st') \<Longrightarrow> slots_reachable st' inside"
| leave: "slots_reachable st inside \<Longrightarrow> inside agent = Suc n \<Longrightarrow>
     slots_reachable (hold_leave agent st) (inside(agent := n))"

lemma held_of_release:
  "held_of (held_release agent h) a = (if a = agent then max 0 (held_of h a - 1) else held_of h a)"
  by (auto simp: held_release_def held_of_def split: option.splits)

lemma held_of_take:
  "held_take agent m h = (True, h') \<Longrightarrow> held_of h' a = (if a = agent then held_of h a + 1 else held_of h a) \<and> held_of h agent < m"
  by (auto simp: held_take_def held_of_def split: option.splits if_splits)

lemma slots_counted:
  "slots_reachable st inside \<Longrightarrow>
   hs_sem st \<le> maxHeldEscalations \<and> held_of (hs_held st) a = int (inside a) \<and> inside a \<le> nat maxPendingEscalations"
proof (induction arbitrary: a rule: slots_reachable.induct)
  case start
  then show ?case by (simp add: held_of_def maxHeldEscalations_def maxPendingEscalations_def)
next
  case (enter st inside agent st')
  from enter.hyps(2) obtain h where h: "held_take agent maxPendingEscalations (hs_held st) = (True, h)"
    and st': "st' = \<lparr>hs_sem = hs_sem st + 1, hs_held = h\<rparr>" and "hs_sem st < maxHeldEscalations"
    by (auto simp: hold_enter_def split: if_splits prod.splits bool.splits)
  then show ?case using enter.IH [of a] enter.IH [of agent] held_of_take [OF h, of a]
    by (auto simp: maxPendingEscalations_def)
next
  case (refuse st inside agent st')
  then show ?case by (auto simp: hold_enter_def split: if_splits prod.splits bool.splits)
next
  case (leave st inside agent n)
  then show ?case using leave.IH [of a] leave.IH [of agent]
    by (auto simp: hold_leave_def held_of_release)
qed

end
