(* ===== verification/Proxy_Trackers.thy ===== *)
theory Proxy_Trackers
  imports Proxy_Glob Proxy_Net Proxy_Hold Policy_Match
begin

text \<open>
  Component: what the proxy remembers of an agent between requests (\<^verbatim>\<open>proxy/internal/proxy\<close>: \<^verbatim>\<open>taint.go\<close>,
  \<^verbatim>\<open>flows.go\<close>, \<^verbatim>\<open>budget.go\<close>, \<^verbatim>\<open>openreads.go\<close>, \<^verbatim>\<open>modelbudget.go\<close>, \<^verbatim>\<open>packages.go\<close>). Every function here is one
  section under the lock of its tracker, so a sequence of them is an interleaving of the requests of all agents.
  The questions a section leads to are asked between two sections; a question in flight is marked \<^verbatim>\<open>pending\<close>.
  Counters are 64-bit integers.
\<close>

section \<open>Requests\<close>

record http_request =
  rq_Method :: string
  rq_URL :: url
  rq_Header :: "(string, string list) gomap"
  rq_ContentLength :: int
  rq_TransferEncoding :: "string list"

definition isReadMethod :: "string \<Rightarrow> bool" where
  "isReadMethod m \<longleftrightarrow> m = ''GET'' \<or> m = ''HEAD''"

text \<open>\<^verbatim>\<open>strings.ReplaceAll\<close> of two slashes by one.\<close>

fun halve_slashes :: "string \<Rightarrow> string" where
  "halve_slashes (a # b # s) = (if a = CHR ''/'' \<and> b = CHR ''/'' then a # halve_slashes s else a # halve_slashes (b # s))"
| "halve_slashes s = s"

lemma halve_slashes_le: "length (halve_slashes s) \<le> length s"
  by (induction s rule: halve_slashes.induct) auto

lemma halve_slashes_less: "Contains s ''//'' \<Longrightarrow> length (halve_slashes s) < length s"
proof (induction s rule: halve_slashes.induct)
  case (1 a b s)
  then show ?case
    using halve_slashes_le [of s] by (auto simp: Contains_def HasPrefix_def split: if_splits)
qed (auto simp: Contains_def HasPrefix_def split: if_splits)

function collapse_slashes :: "string \<Rightarrow> string" where
  "collapse_slashes p = (if Contains p ''//'' then collapse_slashes (halve_slashes p) else p)"
  by pat_completeness auto
termination
  by (relation "measure length") (auto simp: halve_slashes_less)

declare collapse_slashes.simps [simp del]

definition matchURL :: "url \<Rightarrow> string" where
  "matchURL u =
     (let scheme = ToLower (Scheme u); p = Port u;
          host = normalizeHost (Hostname u) @
            (if p \<noteq> [] \<and> \<not> (scheme = ''https'' \<and> p = ''443'') \<and> \<not> (scheme = ''http'' \<and> p = ''80'') then '':'' @ p else []) in
      ToLower (scheme @ ''://'' @ host @ collapse_slashes (Path u)))"

definition defaultModelHosts :: "string list" where
  "defaultModelHosts = [''api.anthropic.com'', ''api.openai.com'']"

definition isModelHost :: "string list option \<Rightarrow> string \<Rightarrow> bool" where
  "isModelHost modelHosts host = matchHostGlob (case modelHosts of None \<Rightarrow> defaultModelHosts | Some hs \<Rightarrow> hs) host"

definition isUploadPackPost :: "http_request \<Rightarrow> bool" where
  "isUploadPackPost r \<longleftrightarrow> rq_Method r = ''POST'' \<and> Contains (ToLower (EscapedPath (rq_URL r))) ''git-upload-pack''"

section \<open>Taint\<close>

record taintMark =
  tm_at :: time
  tm_source :: string

record taintTracker =
  tt_window :: duration
  tt_untrusted :: "string list"
  tt_exempt :: "string list"
  tt_marks :: "(string, taintMark) gomap"

definition defaultTaintWindow :: duration where "defaultTaintWindow = 30 * Minute"

definition defaultUntrustedReads :: "string list" where
  "defaultUntrustedReads =
     [''https://api.github.com/repos/*/issues*'',
      ''https://api.github.com/repos/*/pulls*'',
      ''https://api.github.com/repos/*/discussions*'',
      ''https://api.github.com/repos/*/comments*'',
      ''https://api.github.com/repos/*/commits/*/comments*'',
      ''https://api.github.com/repositories/*/issues*'',
      ''https://api.github.com/repositories/*/pulls*'',
      ''https://api.github.com/repositories/*/discussions*'',
      ''https://api.github.com/repositories/*/comments*'',
      ''https://api.github.com/repositories/*/commits/*/comments*'',
      ''https://api.github.com/search/issues*'',
      ''https://api.github.com/issues*'',
      ''https://github.com/*/issues*'',
      ''https://github.com/*/pull/*'',
      ''https://github.com/*/pulls*'',
      ''https://github.com/*/commit/*'',
      ''https://github.com/*/discussions*'',
      ''https://gitlab.com/api/v4/projects/*/issues*'',
      ''https://gitlab.com/api/v4/projects/*/merge_requests*'',
      ''https://gitlab.com/api/v4/projects/*/repository/commits/*/comments*'',
      ''https://gitlab.com/api/v4/projects/*/repository/commits/*/discussions*'',
      ''https://gitlab.com/api/v4/issues*'',
      ''https://gitlab.com/api/v4/merge_requests*'',
      ''https://gitlab.com/*/-/issues*'',
      ''https://gitlab.com/*/-/merge_requests*'',
      ''https://gitlab.com/*/-/commit/*'']"

definition defaultExemptWrites :: "string list" where
  "defaultExemptWrites = [''https://registry.npmjs.org/-/npm/v1/security/*'']"

definition newTaintTracker :: taintTracker where
  "newTaintTracker =
     \<lparr>tt_window = defaultTaintWindow, tt_untrusted = defaultUntrustedReads, tt_exempt = defaultExemptWrites, tt_marks = []\<rparr>"

definition SetTaint :: "bool \<Rightarrow> duration \<Rightarrow> string list option \<Rightarrow> string list option \<Rightarrow> taintTracker option" where
  "SetTaint on window untrusted exempt =
     (if \<not> on then None
      else let t = newTaintTracker in
        Some (t \<lparr>tt_window := (if 0 < window then window else tt_window t),
                 tt_untrusted := (case untrusted of Some p \<Rightarrow> p | None \<Rightarrow> tt_untrusted t),
                 tt_exempt := (case exempt of Some p \<Rightarrow> p | None \<Rightarrow> tt_exempt t)\<rparr>))"

definition taint_mark :: "time \<Rightarrow> string \<Rightarrow> string \<Rightarrow> taintTracker \<Rightarrow> taintTracker" where
  "taint_mark now agent source t = t \<lparr>tt_marks := AList.update agent \<lparr>tm_at = now, tm_source = source\<rparr> (tt_marks t)\<rparr>"

definition taint_active :: "time \<Rightarrow> string \<Rightarrow> taintTracker \<Rightarrow> (taintMark \<times> duration) option \<times> taintTracker" where
  "taint_active now agent t =
     (case map_of (tt_marks t) agent of
        None \<Rightarrow> (None, t)
      | Some m \<Rightarrow>
          let age = time_Sub now (tm_at m) in
          if tt_window t \<le> age then (None, t \<lparr>tt_marks := AList.delete agent (tt_marks t)\<rparr>)
          else (Some (m, age), t))"

definition runTrustRulePrefix :: string where "runTrustRulePrefix = ''[this run only]''"

definition readTaintSource :: "taintTracker option \<Rightarrow> http_request \<Rightarrow> Decision \<Rightarrow> string \<Rightarrow> string" where
  "readTaintSource taint r d modelFinding =
     (case taint of
        None \<Rightarrow> []
      | Some t \<Rightarrow>
          if modelFinding \<noteq> [] then ''a model request that made the provider fetch remote content ('' @ modelFinding @ '')''
          else if \<not> isReadMethod (rq_Method r) then []
          else let u = matchURL (rq_URL r) in
            if gd_Decision d = gwEscalate then ''a read a person approved ('' @ u @ '')''
            else if HasPrefix (gd_MatchedRule d) runTrustRulePrefix
              then ''a host trusted for reads from an approval prompt ('' @ u @ '')''
            else if matchAny (tt_untrusted t) u then u
            else [])"

definition noteRead :: "time \<Rightarrow> string \<Rightarrow> string \<Rightarrow> taintTracker option \<Rightarrow> taintTracker option" where
  "noteRead now agent source taint =
     (case taint of None \<Rightarrow> None | Some t \<Rightarrow> Some (if source \<noteq> [] then taint_mark now agent source t else t))"

definition taint_covers :: "string list option \<Rightarrow> taintTracker \<Rightarrow> http_request \<Rightarrow> string \<Rightarrow> bool" where
  "taint_covers modelHosts t r host \<longleftrightarrow>
     \<not> (isReadMethod (rq_Method r) \<or> rq_Method r = ''OPTIONS'') \<and>
     \<not> (isModelHost modelHosts host \<or> isUploadPackPost r \<or> matchAny (tt_exempt t) (matchURL (rq_URL r)))"

definition taintedWrite ::
  "string list option \<Rightarrow> time \<Rightarrow> string \<Rightarrow> http_request \<Rightarrow> string \<Rightarrow> taintTracker option
     \<Rightarrow> (taintMark \<times> duration) option \<times> taintTracker option" where
  "taintedWrite modelHosts now agent r host taint =
     (case taint of
        None \<Rightarrow> (None, None)
      | Some t \<Rightarrow>
          if \<not> taint_covers modelHosts t r host then (None, Some t)
          else (case taint_active now agent t of (m, t') \<Rightarrow> (m, Some t')))"

section \<open>Flow rules\<close>

record flowRule =
  fr_name :: string
  fr_sources :: "string list"
  fr_destinations :: "string list"
  fr_window :: duration
  fr_deny :: bool

record flowTracker =
  ft_rules :: "flowRule list"
  ft_marks :: "(string, (string, taintMark) gomap) gomap"

record Flow =
  fl_Name :: string
  fl_Sources :: "string list"
  fl_Destinations :: "string list"
  fl_WindowMinutes :: int
  fl_Effect :: string

text \<open>The names already seen are the names of the rules before.\<close>

fun check_flows :: "string list \<Rightarrow> Flow list \<Rightarrow> bool" where
  "check_flows seen [] = True"
| "check_flows seen (f # fs) \<longleftrightarrow>
     fl_Name f \<noteq> [] \<and> length (fl_Name f) \<le> 40 \<and> fl_Name f \<notin> set seen \<and> fl_Sources f \<noteq> [] \<and>
     \<not> list_ex (\<lambda>p. TrimSpace p = []) (fl_Sources f @ fl_Destinations f) \<and>
     fl_Effect f \<in> {[], ''escalate'', ''deny''} \<and> 0 \<le> fl_WindowMinutes f \<and> check_flows (fl_Name f # seen) fs"

definition ValidateFlows :: "Flow list \<Rightarrow> bool" where
  "ValidateFlows flows = check_flows [] flows"

definition defaultFlowWindow :: duration where "defaultFlowWindow = 30 * Minute"

definition flow_rule :: "Flow \<Rightarrow> flowRule" where
  "flow_rule f =
     (let w = i64 (fl_WindowMinutes f * Minute) in
      \<lparr>fr_name = fl_Name f, fr_sources = fl_Sources f, fr_destinations = fl_Destinations f,
       fr_window = (if w \<le> 0 then defaultFlowWindow else w), fr_deny = (fl_Effect f = gwDeny)\<rparr>)"

definition SetFlows :: "Flow list \<Rightarrow> flowTracker option" where
  "SetFlows flows = (if flows = [] then None else Some \<lparr>ft_rules = map flow_rule flows, ft_marks = []\<rparr>)"

definition flowsOfRead :: "flowTracker option \<Rightarrow> http_request \<Rightarrow> string list" where
  "flowsOfRead flows r =
     (case flows of
        None \<Rightarrow> []
      | Some t \<Rightarrow>
          if \<not> isReadMethod (rq_Method r) then []
          else map fr_name (filter (\<lambda>f. matchAny (fr_sources f) (matchURL (rq_URL r))) (ft_rules t)))"

definition marks_of :: "flowTracker \<Rightarrow> string \<Rightarrow> (string, taintMark) gomap" where
  "marks_of t agent = (case map_of (ft_marks t) agent of None \<Rightarrow> [] | Some m \<Rightarrow> m)"

definition noteFlowRead :: "time \<Rightarrow> string \<Rightarrow> string list \<Rightarrow> string \<Rightarrow> flowTracker option \<Rightarrow> flowTracker option" where
  "noteFlowRead now agent names source flows =
     (case flows of
        None \<Rightarrow> None
      | Some t \<Rightarrow>
          if names = [] then Some t
          else Some (t \<lparr>ft_marks := AList.update agent
            (fold (\<lambda>f. AList.update f \<lparr>tm_at = now, tm_source = source\<rparr>) names (marks_of t agent)) (ft_marks t)\<rparr>))"

fun violated_loop ::
  "time \<Rightarrow> string \<Rightarrow> flowRule list \<Rightarrow> (string, taintMark) gomap
     \<Rightarrow> (flowRule \<times> taintMark \<times> duration) option \<times> (string, taintMark) gomap" where
  "violated_loop now u [] marks = (None, marks)"
| "violated_loop now u (f # fs) marks =
     (case map_of marks (fr_name f) of
        None \<Rightarrow> violated_loop now u fs marks
      | Some m \<Rightarrow>
          let age = time_Sub now (tm_at m) in
          if fr_window f \<le> age then violated_loop now u fs (AList.delete (fr_name f) marks)
          else if matchAny (fr_destinations f) u then violated_loop now u fs marks
          else (Some (f, m, age), marks))"

definition violated ::
  "time \<Rightarrow> string \<Rightarrow> string \<Rightarrow> flowTracker \<Rightarrow> (flowRule \<times> taintMark \<times> duration) option \<times> flowTracker" where
  "violated now agent u t =
     (case violated_loop now u (ft_rules t) (marks_of t agent) of
        (v, marks) \<Rightarrow>
          (v, if map_of (ft_marks t) agent = None then t
              else t \<lparr>ft_marks := AList.update agent marks (ft_marks t)\<rparr>))"

definition flow_covers :: "http_request \<Rightarrow> bool" where
  "flow_covers r \<longleftrightarrow> \<not> (isReadMethod (rq_Method r) \<or> rq_Method r = ''OPTIONS'' \<or> isUploadPackPost r)"

section \<open>The egress budget\<close>

record hostBudget =
  hb_start :: time
  hb_reqs :: int
  hb_bytes :: int
  hb_mult :: int
  hb_pending :: bool

record egressBudget =
  eb_reqLimit :: int
  eb_byteLim :: int
  eb_hosts :: "(string, hostBudget) gomap"

definition budgetWindow :: duration where "budgetWindow = Minute"
definition registryBudgetMult :: int where "registryBudgetMult = 10"

definition newEgressBudget :: "int \<Rightarrow> int \<Rightarrow> egressBudget" where
  "newEgressBudget reqs bytes =
     \<lparr>eb_reqLimit = (if reqs \<le> 0 then 600 else reqs), eb_byteLim = (if bytes \<le> 0 then 8388608 else bytes), eb_hosts = []\<rparr>"

definition packageRegistryHosts :: "string list" where
  "packageRegistryHosts =
     [''registry.npmjs.org'', ''registry.yarnpkg.com'', ''pypi.org'', ''files.pythonhosted.org'', ''proxy.golang.org'',
      ''sum.golang.org'', ''index.crates.io'', ''static.crates.io'', ''rubygems.org'', ''repo.maven.apache.org'',
      ''repo1.maven.org'', ''repo.packagist.org'']"

definition budget_host :: "time \<Rightarrow> string \<Rightarrow> egressBudget \<Rightarrow> hostBudget" where
  "budget_host now host b =
     (let h = (case map_of (eb_hosts b) host of
                 None \<Rightarrow> \<lparr>hb_start = 0, hb_reqs = 0, hb_bytes = 0,
                          hb_mult = (if host \<in> set packageRegistryHosts then registryBudgetMult else 1), hb_pending = False\<rparr>
               | Some h \<Rightarrow> h) in
      if budgetWindow \<le> time_Sub now (hb_start h) then h \<lparr>hb_start := now, hb_reqs := 0, hb_bytes := 0\<rparr> else h)"

definition put_host :: "string \<Rightarrow> hostBudget \<Rightarrow> egressBudget \<Rightarrow> egressBudget" where
  "put_host host h b = b \<lparr>eb_hosts := AList.update host h (eb_hosts b)\<rparr>"

definition budget_fits :: "egressBudget \<Rightarrow> hostBudget \<Rightarrow> int \<Rightarrow> bool" where
  "budget_fits b h n \<longleftrightarrow>
     \<not> (i64 (eb_reqLimit b * hb_mult h) < i64 (hb_reqs h + 1) \<or> i64 (eb_byteLim b * hb_mult h) < i64 (hb_bytes h + n))"

definition budget_count :: "int \<Rightarrow> hostBudget \<Rightarrow> hostBudget" where
  "budget_count n h = h \<lparr>hb_reqs := i64 (hb_reqs h + 1), hb_bytes := i64 (hb_bytes h + n)\<rparr>"

definition budget_take :: "time \<Rightarrow> string \<Rightarrow> int \<Rightarrow> egressBudget \<Rightarrow> bool \<times> egressBudget" where
  "budget_take now host n b =
     (let h = budget_host now host b in
      if budget_fits b h n then (True, put_host host (budget_count n h) b) else (False, put_host host h b))"

text \<open>The section of \<open>checkBudget\<close> that joins the question in flight (true) or starts one.\<close>

definition budget_join :: "time \<Rightarrow> string \<Rightarrow> egressBudget \<Rightarrow> bool \<times> egressBudget" where
  "budget_join now host b =
     (let h = budget_host now host b in
      if hb_pending h then (True, put_host host h b) else (False, put_host host (h \<lparr>hb_pending := True\<rparr>) b))"

definition lets_go :: "string \<Rightarrow> bool" where
  "lets_go outcome \<longleftrightarrow> outcome = pkgAllow \<or> outcome = pkgApproved"

text \<open>The section after the answer; the counters of the host were created before the question.\<close>

definition budget_answer :: "string \<Rightarrow> string \<Rightarrow> egressBudget \<Rightarrow> egressBudget" where
  "budget_answer outcome host b =
     (case map_of (eb_hosts b) host of
        None \<Rightarrow> b
      | Some h \<Rightarrow>
          put_host host (h \<lparr>hb_mult := (if lets_go outcome then i64 (hb_mult h * 2) else hb_mult h), hb_pending := False\<rparr>) b)"

definition budget_charge :: "time \<Rightarrow> string \<Rightarrow> int \<Rightarrow> egressBudget \<Rightarrow> egressBudget" where
  "budget_charge now host n b = put_host host (budget_count n (budget_host now host b)) b"

section \<open>Open reads\<close>

record openReads =
  or_max :: int
  or_hosts :: "(string, string list) gomap"
  or_pending :: "string list"

definition newOpenReads :: "int \<Rightarrow> openReads" where
  "newOpenReads m = \<lparr>or_max = (if m \<le> 0 then 50 else m), or_hosts = [], or_pending = []\<rparr>"

definition isOpenRead :: "string \<Rightarrow> string \<Rightarrow> string \<Rightarrow> bool" where
  "isOpenRead matchedRule decision method \<longleftrightarrow>
     decision = gwAllow \<and> (method = ''GET'' \<or> method = ''HEAD'') \<and> Contains matchedRule ''[open read]''"

definition hosts_of :: "openReads \<Rightarrow> string \<Rightarrow> string list" where
  "hosts_of b agent = (case map_of (or_hosts b) agent of None \<Rightarrow> [] | Some hs \<Rightarrow> hs)"

definition admit_host :: "string \<Rightarrow> string \<Rightarrow> openReads \<Rightarrow> openReads" where
  "admit_host agent host b = b \<lparr>or_hosts := AList.update agent (List.insert host (hosts_of b agent)) (or_hosts b)\<rparr>"

datatype open_step = Admitted | JoinQuestion | StartQuestion

definition open_begin :: "string \<Rightarrow> string \<Rightarrow> openReads \<Rightarrow> open_step \<times> openReads" where
  "open_begin agent host b =
     (let set' = hosts_of b agent; b1 = b \<lparr>or_hosts := AList.update agent set' (or_hosts b)\<rparr>; key = agent @ '' '' @ host in
      if host \<in> set set' \<or> int (length set') < or_max b then (Admitted, admit_host agent host b1)
      else if key \<in> set (or_pending b) then (JoinQuestion, b1)
      else (StartQuestion, b1 \<lparr>or_pending := key # or_pending b\<rparr>))"

definition open_answer :: "string \<Rightarrow> string \<Rightarrow> string \<Rightarrow> openReads \<Rightarrow> openReads" where
  "open_answer agent host outcome b =
     (let b1 = (if lets_go outcome then admit_host agent host b else b) in
      b1 \<lparr>or_pending := removeAll (agent @ '' '' @ host) (or_pending b1)\<rparr>)"

section \<open>The model budget\<close>

record modelUse =
  mu_reqs :: int
  mu_in :: int
  mu_out :: int
  mu_mult :: int
  mu_pending :: bool

record modelBudget =
  mb_reqs :: int
  mb_inTok :: int
  mb_outTk :: int
  mb_use :: "(string, modelUse) gomap"

definition newModelBudget :: "int \<Rightarrow> int \<Rightarrow> int \<Rightarrow> modelBudget" where
  "newModelBudget reqs inT outT =
     \<lparr>mb_reqs = (if reqs \<le> 0 then 2000 else reqs), mb_inTok = (if inT \<le> 0 then 50000000 else inT),
      mb_outTk = (if outT \<le> 0 then 10000000 else outT), mb_use = []\<rparr>"

definition model_entry :: "string \<Rightarrow> modelBudget \<Rightarrow> modelUse" where
  "model_entry key b =
     (case map_of (mb_use b) key of
        None \<Rightarrow> \<lparr>mu_reqs = 0, mu_in = 0, mu_out = 0, mu_mult = 1, mu_pending = False\<rparr>
      | Some u \<Rightarrow> u)"

definition put_use :: "string \<Rightarrow> modelUse \<Rightarrow> modelBudget \<Rightarrow> modelBudget" where
  "put_use key u b = b \<lparr>mb_use := AList.update key u (mb_use b)\<rparr>"

definition model_over :: "modelBudget \<Rightarrow> modelUse \<Rightarrow> bool" where
  "model_over b u \<longleftrightarrow>
     i64 (mb_reqs b * mu_mult u) < i64 (mu_reqs u + 1) \<or> i64 (mb_inTok b * mu_mult u) \<le> mu_in u \<or>
     i64 (mb_outTk b * mu_mult u) \<le> mu_out u"

definition model_begin :: "string \<Rightarrow> modelBudget \<Rightarrow> open_step \<times> modelBudget" where
  "model_begin key b =
     (let u = model_entry key b in
      if \<not> model_over b u then (Admitted, put_use key (u \<lparr>mu_reqs := i64 (mu_reqs u + 1)\<rparr>) b)
      else if mu_pending u then (JoinQuestion, put_use key u b)
      else (StartQuestion, put_use key (u \<lparr>mu_pending := True\<rparr>) b))"

text \<open>After the answer: the request that asked, and each one that waited for it and was let go.\<close>

definition model_answer :: "string \<Rightarrow> string \<Rightarrow> modelBudget \<Rightarrow> modelBudget" where
  "model_answer outcome key b =
     (let u = model_entry key b;
          u1 = (if lets_go outcome then u \<lparr>mu_mult := i64 (mu_mult u * 2), mu_reqs := i64 (mu_reqs u + 1)\<rparr> else u) in
      put_use key (u1 \<lparr>mu_pending := False\<rparr>) b)"

definition model_joined :: "string \<Rightarrow> modelBudget \<Rightarrow> modelBudget" where
  "model_joined key b = (let u = model_entry key b in put_use key (u \<lparr>mu_reqs := i64 (mu_reqs u + 1)\<rparr>) b)"

definition addTokens :: "string \<Rightarrow> int \<Rightarrow> int \<Rightarrow> modelBudget \<Rightarrow> modelBudget" where
  "addTokens key inT outT b =
     (if inT \<le> 0 \<and> outT \<le> 0 then b
      else let u = model_entry key b in
        put_use key (u \<lparr>mu_in := i64 (mu_in u + inT), mu_out := i64 (mu_out u + outT)\<rparr>) b)"

section \<open>The package gate\<close>

record packageGate =
  pg_allowed :: "string list"
  pg_pending :: "string list"
  pg_digests :: "(string, string list) gomap"

definition SetPackageGatePins :: "(string, string list) gomap \<Rightarrow> packageGate" where
  "SetPackageGatePins pins =
     \<lparr>pg_allowed = map fst pins, pg_pending = [], pg_digests = filter (\<lambda>(r, d). d \<noteq> []) pins\<rparr>"

definition packageDigests :: "packageGate option \<Rightarrow> string \<Rightarrow> string list" where
  "packageDigests gate ref =
     (case gate of None \<Rightarrow> [] | Some g \<Rightarrow> (case map_of (pg_digests g) ref of None \<Rightarrow> [] | Some d \<Rightarrow> d))"

definition package_begin :: "string \<Rightarrow> packageGate \<Rightarrow> open_step \<times> packageGate" where
  "package_begin ref g =
     (if ref \<in> set (pg_allowed g) then (Admitted, g)
      else if ref \<in> set (pg_pending g) then (JoinQuestion, g)
      else (StartQuestion, g \<lparr>pg_pending := ref # pg_pending g\<rparr>))"

definition package_answer :: "string \<Rightarrow> string \<Rightarrow> packageGate \<Rightarrow> packageGate" where
  "package_answer outcome ref g =
     g \<lparr>pg_allowed := (if lets_go outcome then List.insert ref (pg_allowed g) else pg_allowed g),
        pg_pending := removeAll ref (pg_pending g)\<rparr>"

end
