(* ===== verification/Tracker_Properties.thy ===== *)
theory Tracker_Properties
  imports Proxy_Trackers
begin

text \<open>
  Properties of what the proxy remembers: reads of untrusted or confined content make later writes a question, and
  the cap on unlisted hosts holds over every interleaving of requests.
\<close>

lemma time_Sub_window: "0 < w \<Longrightarrow> w < 2 ^ 63 \<Longrightarrow> w \<le> time_Sub now t \<longleftrightarrow> w \<le> now - t"
  using time_Sub_less_iff [of w now t] by linarith

section \<open>Taint\<close>

datatype taint_op = TaintRead time string string | TaintCheck time string

primrec op_time :: "taint_op \<Rightarrow> time" where
  "op_time (TaintRead now agent source) = now"
| "op_time (TaintCheck now agent) = now"

fun taint_step :: "taint_op \<Rightarrow> taintTracker \<Rightarrow> taintTracker" where
  "taint_step (TaintRead now agent source) t = taint_mark now agent source t"
| "taint_step (TaintCheck now agent) t = snd (taint_active now agent t)"

text \<open>The agent carries a mark made between \<open>t0\<close> and \<open>now\<close>.\<close>

definition tainted_since :: "time \<Rightarrow> time \<Rightarrow> string \<Rightarrow> taintTracker \<Rightarrow> bool" where
  "tainted_since t0 now agent t \<longleftrightarrow> (\<exists>m. map_of (tt_marks t) agent = Some m \<and> t0 \<le> tm_at m \<and> tm_at m \<le> now)"

lemma taint_step_config [simp]:
  "tt_window (taint_step x t) = tt_window t \<and> tt_exempt (taint_step x t) = tt_exempt t"
  by (cases x) (auto simp: taint_mark_def taint_active_def Let_def split: option.splits)

lemma taint_fold_config [simp]:
  "tt_window (fold taint_step ops t) = tt_window t" "tt_exempt (fold taint_step ops t) = tt_exempt t"
  by (induction ops arbitrary: t) auto

lemma taint_step_keeps:
  assumes "tainted_since t0 now agent t" "t0 \<le> op_time x" "op_time x \<le> now" "now - t0 < tt_window t"
    "0 < tt_window t" "tt_window t < 2 ^ 63"
  shows "tainted_since t0 now agent (taint_step x t)"
proof (cases x)
  case (TaintRead n a s)
  then show ?thesis using assms by (auto simp: tainted_since_def taint_mark_def)
next
  case (TaintCheck n a)
  obtain m where m: "map_of (tt_marks t) agent = Some m" "t0 \<le> tm_at m" "tm_at m \<le> now"
    using assms(1) by (auto simp: tainted_since_def)
  show ?thesis
  proof (cases "a = agent")
    case True
    have "\<not> tt_window t \<le> n - tm_at m" using assms m TaintCheck by auto
    then have "taint_step x t = t"
      using True m TaintCheck assms(5,6) by (simp add: taint_active_def Let_def time_Sub_window)
    then show ?thesis using assms(1) by simp
  next
    case False
    then show ?thesis using m TaintCheck
      by (auto simp: tainted_since_def taint_active_def Let_def split: option.splits)
  qed
qed

lemma taint_fold_keeps:
  assumes "tainted_since t0 now agent t" "\<forall>x \<in> set ops. t0 \<le> op_time x \<and> op_time x \<le> now" "now - t0 < tt_window t"
    "0 < tt_window t" "tt_window t < 2 ^ 63"
  shows "tainted_since t0 now agent (fold taint_step ops t)"
  using assms by (induction ops arbitrary: t) (auto simp: taint_step_keeps)

lemma tainted_since_active:
  assumes "tainted_since t0 now agent t" "now - t0 < tt_window t" "0 < tt_window t" "tt_window t < 2 ^ 63"
  shows "\<exists>m age. taint_active now agent t = (Some (m, age), t) \<and> t0 \<le> tm_at m"
  using assms by (auto simp: tainted_since_def taint_active_def Let_def time_Sub_window)

text \<open>C24: After an agent reads untrusted content, every write the rule covers is a question for as long as the
  window lasts: whatever reads and checks of any agent happen in between, a covered write of the agent at a time less
  than the window after the read finds a mark at least as recent as that read.
\<close>

theorem tainted_write_questioned:
  assumes "t' = fold taint_step ops (taint_mark t0 agent source t)"
    and "\<forall>x \<in> set ops. t0 \<le> op_time x \<and> op_time x \<le> now" "t0 \<le> now" "now - t0 < tt_window t"
    and "tt_window t < 2 ^ 63" "taint_covers modelHosts t r host"
  shows "\<exists>m age. taintedWrite modelHosts now agent r host (Some t') = (Some (m, age), Some t') \<and> t0 \<le> tm_at m"
proof -
  let ?t = "taint_mark t0 agent source t"
  have w: "tt_window ?t = tt_window t" "tt_exempt ?t = tt_exempt t" by (simp_all add: taint_mark_def)
  have "tainted_since t0 now agent ?t" using assms(3) by (simp add: tainted_since_def taint_mark_def)
  then have "tainted_since t0 now agent t'" using taint_fold_keeps [of t0 now agent ?t ops] assms w by auto
  then obtain m age where a: "taint_active now agent t' = (Some (m, age), t')" "t0 \<le> tm_at m"
    using tainted_since_active [of t0 now agent t'] assms w by auto
  have "taint_covers modelHosts t' r host" using assms(1,6) w by (simp add: taint_covers_def)
  then show ?thesis using a by (simp add: taintedWrite_def)
qed

definition plain_url :: "string \<Rightarrow> string \<Rightarrow> url" where
  "plain_url host path = \<lparr>Scheme = ''https'', User = False, Host = host, Path = path, RawPath = [], RawQuery = [], Fragment = []\<rparr>"

definition sample_post :: http_request where
  "sample_post = \<lparr>rq_Method = ''POST'', rq_URL = plain_url ''h.io'' ''/a'', rq_Header = [], rq_ContentLength = 3, rq_TransferEncoding = []\<rparr>"

lemma sample_post_covered: "taint_covers None newTaintTracker sample_post ''h.io''"
  by code_simp

theorem tainted_write_questioned_witness:
  "\<exists>m age t'. taintedWrite None 1000 ''a'' sample_post ''h.io''
     (Some (fold taint_step [TaintCheck 20 ''b'', TaintRead 30 ''b'' ''y'', TaintCheck 900 ''a''] (taint_mark 10 ''a'' ''x'' newTaintTracker)))
   = (Some (m, age), t') \<and> 10 \<le> tm_at m"
proof -
  have "tt_window newTaintTracker = 1800000000000" by (simp add: newTaintTracker_def defaultTaintWindow_def)
  then show ?thesis
    using tainted_write_questioned [OF refl, of "[TaintCheck 20 ''b'', TaintRead 30 ''b'' ''y'', TaintCheck 900 ''a'']" 10 1000
        newTaintTracker None sample_post "''h.io''" "''a''" "''x''"] sample_post_covered
    by fastforce
qed

section \<open>Flow rules\<close>

text \<open>The first violated rule that the loop reports.\<close>

lemma violated_loop_finds:
  assumes "f \<in> set fs" "map_of marks (fr_name f) = Some m" "\<not> fr_window f \<le> time_Sub now (tm_at m)"
    "\<not> matchAny (fr_destinations f) u" "distinct (map fr_name fs)"
  shows "\<exists>g m' age. fst (violated_loop now u fs marks) = Some (g, m', age) \<and> g \<in> set fs \<and> \<not> matchAny (fr_destinations g) u"
  using assms
proof (induction fs arbitrary: marks)
  case (Cons g fs)
  show ?case
  proof (cases "g = f")
    case True
    then show ?thesis using Cons.prems by (auto simp: Let_def)
  next
    case False
    then have "fr_name g \<noteq> fr_name f" using Cons.prems by (auto simp: rev_image_eqI)
    then have kept: "map_of (AList.delete (fr_name g) marks) (fr_name f) = Some m" using Cons.prems(2) by simp
    have f: "f \<in> set fs" "distinct (map fr_name fs)" using False Cons.prems by auto
    show ?thesis
      using Cons.IH [OF f(1) kept] Cons.IH [OF f(1) Cons.prems(2)] Cons.prems(3,4) f(2)
      by (fastforce simp: Let_def split: option.splits)
  qed
qed simp

lemma check_flows_distinct:
  "check_flows seen fs \<Longrightarrow> distinct (map fl_Name fs) \<and> set seen \<inter> fl_Name ` set fs = {}"
  by (induction seen fs rule: check_flows.induct) auto

lemma SetFlows_distinct:
  assumes "ValidateFlows flows" "SetFlows flows = Some t"
  shows "distinct (map fr_name (ft_rules t))"
proof -
  have "map fr_name (ft_rules t) = map fl_Name flows"
    using assms(2) by (auto simp: SetFlows_def flow_rule_def Let_def o_def split: if_splits)
  then show ?thesis using assms(1) check_flows_distinct [of "[]" flows] by (simp add: ValidateFlows_def)
qed

lemma fold_marks:
  "map_of (fold (\<lambda>f. AList.update f m) names marks) k = (if k \<in> set names then Some m else map_of marks k)"
  by (induction names arbitrary: marks) auto

text \<open>
  A read from a source of a rule makes every write elsewhere a violation: of this rule, or of one listed before.
\<close>

lemma flow_read_marks:
  assumes "ValidateFlows flows" "SetFlows flows = Some t0" "ft_rules t = ft_rules t0" "f \<in> set (ft_rules t)"
    "isReadMethod (rq_Method r)" "matchAny (fr_sources f) (matchURL (rq_URL r))"
    "noteFlowRead now0 agent (flowsOfRead (Some t) r) src (Some t) = Some t'"
    "now0 \<le> now" "now - now0 < fr_window f" "0 < fr_window f" "fr_window f < 2 ^ 63" "\<not> matchAny (fr_destinations f) u"
  shows "\<exists>g m age. fst (violated now agent u t') = Some (g, m, age) \<and> \<not> matchAny (fr_destinations g) u"
proof -
  have name: "fr_name f \<in> set (flowsOfRead (Some t) r)" using assms(4-6) by (auto simp: flowsOfRead_def)
  then have t': "ft_rules t' = ft_rules t" "map_of (marks_of t' agent) (fr_name f) = Some \<lparr>tm_at = now0, tm_source = src\<rparr>"
    using assms(7) by (auto simp: noteFlowRead_def marks_of_def fold_marks split: if_splits)
  have "\<not> fr_window f \<le> time_Sub now now0" using assms(9-11) time_Sub_window by auto
  then obtain g m age where "fst (violated_loop now u (ft_rules t') (marks_of t' agent)) = Some (g, m, age)"
    "\<not> matchAny (fr_destinations g) u"
    using violated_loop_finds [of f "ft_rules t'" "marks_of t' agent" _ now u] t' assms(1-4,12) SetFlows_distinct by fastforce
  then show ?thesis by (auto simp: violated_def split: prod.splits)
qed

text \<open>
  Only the first violated rule is consulted: a rule that refuses is not seen behind one that asks, so a write that
  breaks both is put to a person, who may let it through.
\<close>

definition ask_then_deny :: "Flow list" where
  "ask_then_deny =
     [\<lparr>fl_Name = ''ask'', fl_Sources = [''https://s/*''], fl_Destinations = [], fl_WindowMinutes = 30, fl_Effect = ''escalate''\<rparr>,
      \<lparr>fl_Name = ''deny'', fl_Sources = [''https://s/*''], fl_Destinations = [], fl_WindowMinutes = 30, fl_Effect = ''deny''\<rparr>]"

lemma deny_flow_shadowed:
  "ValidateFlows ask_then_deny \<and>
   (\<exists>t. SetFlows ask_then_deny = Some t \<and>
     (\<exists>t'. noteFlowRead 5 ''a'' [''ask'', ''deny''] ''https://s/x'' (Some t) = Some t' \<and>
       (\<exists>f m age. fst (violated 6 ''a'' ''https://elsewhere/'' t') = Some (f, m, age) \<and> \<not> fr_deny f) \<and>
       (\<exists>g \<in> set (ft_rules t'). fr_deny g \<and> \<not> matchAny (fr_destinations g) ''https://elsewhere/'' \<and>
          (\<exists>m. map_of (marks_of t' ''a'') (fr_name g) = Some m \<and> time_Sub 6 (tm_at m) < fr_window g))))"
  by (simp add: ask_then_deny_def ValidateFlows_def SetFlows_def flow_rule_def i64_def noteFlowRead_def violated_def
      marks_of_def matchAny_def time_Sub_def Let_def outcome_names TrimSpace_def ascii_space_def)

section \<open>Open reads\<close>

datatype open_op = OpenBegin string string | OpenAnswer string string string

fun open_run :: "open_op list \<Rightarrow> openReads \<Rightarrow> openReads" where
  "open_run [] b = b"
| "open_run (OpenBegin agent host # ops) b = open_run ops (snd (open_begin agent host b))"
| "open_run (OpenAnswer agent host outcome # ops) b = open_run ops (open_answer agent host outcome b)"

fun host_approvals :: "string \<Rightarrow> open_op list \<Rightarrow> nat" where
  "host_approvals agent [] = 0"
| "host_approvals agent (OpenBegin a host # ops) = host_approvals agent ops"
| "host_approvals agent (OpenAnswer a host outcome # ops) =
     (if a = agent \<and> lets_go outcome then 1 else 0) + host_approvals agent ops"

lemma hosts_of_admit:
  "hosts_of (admit_host a host b) agent = (if a = agent then List.insert host (hosts_of b agent) else hosts_of b agent)"
  by (simp add: hosts_of_def admit_host_def)

lemma hosts_of_pending [simp]: "hosts_of (b \<lparr>or_pending := p\<rparr>) agent = hosts_of b agent"
  by (simp add: hosts_of_def)

lemma hosts_of_put [simp]:
  "hosts_of (b \<lparr>or_hosts := AList.update a xs (or_hosts b)\<rparr>) agent = (if a = agent then xs else hosts_of b agent)"
  by (simp add: hosts_of_def)

lemma open_begin_hosts:
  "hosts_of (snd (open_begin a host b)) agent =
     (if a = agent \<and> (host \<in> set (hosts_of b agent) \<or> int (length (hosts_of b agent)) < or_max b)
      then List.insert host (hosts_of b agent) else hosts_of b agent)"
  "or_max (snd (open_begin a host b)) = or_max b"
  by (auto simp: open_begin_def Let_def hosts_of_admit admit_host_def)

lemma open_answer_hosts:
  "hosts_of (open_answer a host outcome b) agent =
     (if a = agent \<and> lets_go outcome then List.insert host (hosts_of b agent) else hosts_of b agent)"
  "or_max (open_answer a host outcome b) = or_max b"
  by (auto simp: open_answer_def Let_def hosts_of_admit admit_host_def)

lemma length_insert_le: "length (List.insert x xs) \<le> Suc (length xs)"
  by (simp add: List.insert_def)

lemma open_run_hosts:
  assumes "distinct (hosts_of b agent)" "int (length (hosts_of b agent)) \<le> or_max b + int k"
  shows "distinct (hosts_of (open_run ops b) agent) \<and>
    int (length (hosts_of (open_run ops b) agent)) \<le> or_max b + int (k + host_approvals agent ops)"
  using assms
proof (induction ops b arbitrary: k rule: open_run.induct)
  case (2 a host ops b)
  have "distinct (hosts_of (snd (open_begin a host b)) agent)" using 2 by (simp add: open_begin_hosts)
  moreover have "int (length (hosts_of (snd (open_begin a host b)) agent)) \<le> or_max (snd (open_begin a host b)) + int k"
    using 2 length_insert_le [of host "hosts_of b agent"] by (auto simp: open_begin_hosts List.insert_def)
  ultimately show ?case using "2.IH" [of k] by (simp add: open_begin_hosts)
next
  case (3 a host outcome ops b)
  let ?k = "if a = agent \<and> lets_go outcome then Suc k else k"
  have "distinct (hosts_of (open_answer a host outcome b) agent)" using 3 by (simp add: open_answer_hosts)
  moreover have "int (length (hosts_of (open_answer a host outcome b) agent)) \<le> or_max (open_answer a host outcome b) + int ?k"
    using 3 length_insert_le [of host "hosts_of b agent"] by (auto simp: open_answer_hosts)
  ultimately show ?case using "3.IH" [of ?k] by (auto simp: open_answer_hosts split: if_splits)
qed simp

text \<open>The cap on unlisted hosts: over every interleaving of requests and answers, the hosts an agent was let
  read under an open-read rule are at most the cap and one for each time a person said yes.
\<close>

theorem open_hosts_capped:
  "int (length (hosts_of (open_run ops (newOpenReads m)) agent)) \<le> or_max (newOpenReads m) + int (host_approvals agent ops)
   \<and> distinct (hosts_of (open_run ops (newOpenReads m)) agent)"
  using open_run_hosts [of "newOpenReads m" agent 0 ops] by (simp add: newOpenReads_def hosts_of_def)

end
