(* ===== verification/Budget_Properties.thy ===== *)
theory Budget_Properties
  imports Proxy_Trackers
begin

text \<open>
  The egress budget: how much can leave for one host without a person being asked, over every interleaving of
  requests and answers.
\<close>

lemma i64_small: "- (2 ^ 63) \<le> x \<Longrightarrow> x < 2 ^ 63 \<Longrightarrow> i64 x = x"
  by (simp add: i64_def mod_pos_pos_trivial)

datatype budget_op =
    BudgetTake time string int
  | BudgetJoin time string
  | BudgetAnswer string string
  | BudgetCharge time string int

text \<open>
  One section of the budget. Of the requests to \<open>host\<close> that were let through unasked \<open>taken\<close> keeps the start of the
  window they were counted in, their time and their size.
\<close>

fun budget_step ::
  "string \<Rightarrow> budget_op \<Rightarrow> (time \<times> time \<times> int) list \<times> egressBudget \<Rightarrow> (time \<times> time \<times> int) list \<times> egressBudget" where
  "budget_step host (BudgetTake now h n) (taken, b) =
     (if fst (budget_take now h n b) \<and> h = host then (hb_start (budget_host now h b), now, n) # taken else taken,
      snd (budget_take now h n b))"
| "budget_step host (BudgetJoin now h) (taken, b) = (taken, snd (budget_join now h b))"
| "budget_step host (BudgetAnswer outcome h) (taken, b) = (taken, budget_answer outcome h b)"
| "budget_step host (BudgetCharge now h n) (taken, b) = (taken, budget_charge now h n b)"

definition sizes :: "(time \<times> time \<times> int) list \<Rightarrow> int" where
  "sizes taken = sum_list (map (\<lambda>(w, t, n). n) taken)"

definition in_window :: "time \<Rightarrow> (time \<times> time \<times> int) list \<Rightarrow> (time \<times> time \<times> int) list" where
  "in_window w taken = filter (\<lambda>(v, t, n). v = w) taken"

text \<open>
  What holds of the counters of a host and of its log: \<open>T\<close> is the time so far, \<open>M\<close> bounds the multiplier, \<open>C\<close> and
  \<open>N\<close> bound the requests and bytes counted.
\<close>

definition window_ok :: "int \<Rightarrow> int \<Rightarrow> time \<Rightarrow> int \<Rightarrow> int \<Rightarrow> int \<Rightarrow> (time \<times> time \<times> int) list \<Rightarrow> hostBudget \<Rightarrow> bool" where
  "window_ok rl bl T M C N taken h \<longleftrightarrow>
     0 \<le> hb_start h \<and> hb_start h \<le> T \<and> 0 \<le> hb_reqs h \<and> hb_reqs h \<le> C \<and> 0 \<le> hb_bytes h \<and> hb_bytes h \<le> N \<and>
     1 \<le> hb_mult h \<and> hb_mult h \<le> M \<and>
     (\<forall>(w, t, n) \<in> set taken. 0 \<le> n \<and> w \<le> t \<and> t < w + Minute \<and> (w = hb_start h \<or> w + Minute \<le> hb_start h)) \<and>
     (\<forall>(v, _, _) \<in> set taken. \<forall>(w, _, _) \<in> set taken. v = w \<or> v + Minute \<le> w \<or> w + Minute \<le> v) \<and>
     (\<forall>w. sizes (in_window w taken) \<le> bl * hb_mult h \<and> int (length (in_window w taken)) \<le> rl * hb_mult h) \<and>
     sizes (in_window (hb_start h) taken) \<le> hb_bytes h \<and> int (length (in_window (hb_start h) taken)) \<le> hb_reqs h"

lemma window_ok_mono:
  "window_ok rl bl T M C N taken h \<Longrightarrow> T \<le> T' \<Longrightarrow> M \<le> M' \<Longrightarrow> C \<le> C' \<Longrightarrow> N \<le> N' \<Longrightarrow> window_ok rl bl T' M' C' N' taken h"
  unfolding window_ok_def by (elim conjE, intro conjI) (assumption | linarith)+

lemma in_window_new: "\<forall>(w, t, n) \<in> set taken. w < s \<Longrightarrow> in_window s taken = []"
  by (auto simp: in_window_def filter_empty_conv)

lemma window_roll:
  assumes "window_ok rl bl T M C N taken h" "T \<le> now" "Minute \<le> now - hb_start h"
  shows "window_ok rl bl now M C N taken (h \<lparr>hb_start := now, hb_reqs := 0, hb_bytes := 0\<rparr>)"
proof -
  have "\<forall>(w, t, n) \<in> set taken. w < now" using assms by (auto simp: window_ok_def)
  then have "in_window now taken = []" by (rule in_window_new)
  moreover have "\<forall>(w, t, n) \<in> set taken. w + Minute \<le> now" using assms by (fastforce simp: window_ok_def)
  ultimately show ?thesis using assms by (auto simp: window_ok_def sizes_def)
qed

lemma window_count:
  assumes "window_ok rl bl T M C N taken h" "0 \<le> n" "C + 1 < 2 ^ 62" "N + n < 2 ^ 62"
  shows "window_ok rl bl T M (C + 1) (N + n) taken (budget_count n h)"
proof -
  have "0 \<le> hb_reqs h" "hb_reqs h \<le> C" "0 \<le> hb_bytes h" "hb_bytes h \<le> N" using assms(1) by (auto simp: window_ok_def)
  then have "budget_count n h = h \<lparr>hb_reqs := hb_reqs h + 1, hb_bytes := hb_bytes h + n\<rparr>"
    using assms(2-4) by (simp add: budget_count_def i64_small)
  then show ?thesis using assms(1,2) by (auto simp: window_ok_def)
qed

lemma in_window_Cons: "in_window w ((v, t, n) # taken) = (if v = w then (v, t, n) # in_window w taken else in_window w taken)"
  by (simp add: in_window_def)

lemma window_take:
  assumes ok: "window_ok rl bl T M C N taken h" and "0 \<le> n" "C + 1 < 2 ^ 62" "N + n < 2 ^ 62"
    and t: "hb_start h \<le> T" "T < hb_start h + Minute"
    and fits: "hb_reqs h + 1 \<le> rl * hb_mult h" "hb_bytes h + n \<le> bl * hb_mult h"
  shows "window_ok rl bl T M (C + 1) (N + n) ((hb_start h, T, n) # taken) (budget_count n h)"
proof -
  have 0: "0 \<le> hb_reqs h" "hb_reqs h \<le> C" "0 \<le> hb_bytes h" "hb_bytes h \<le> N" using ok by (auto simp: window_ok_def)
  then have c: "budget_count n h = h \<lparr>hb_reqs := hb_reqs h + 1, hb_bytes := hb_bytes h + n\<rparr>"
    using assms(2-4) by (simp add: budget_count_def i64_small)
  have cur: "sizes (in_window (hb_start h) taken) \<le> hb_bytes h" "int (length (in_window (hb_start h) taken)) \<le> hb_reqs h"
    using ok by (auto simp: window_ok_def)
  have all: "sizes (in_window w ((hb_start h, T, n) # taken)) \<le> bl * hb_mult h \<and>
      int (length (in_window w ((hb_start h, T, n) # taken))) \<le> rl * hb_mult h" for w
    using ok cur fits by (auto simp: window_ok_def in_window_Cons sizes_def)
  show ?thesis
    using ok assms(2) t cur all unfolding c by (fastforce simp: window_ok_def in_window_Cons sizes_def)
qed

lemma window_answer:
  assumes "window_ok rl bl T M C N taken h" "0 \<le> rl" "0 \<le> bl" "M * 2 < 2 ^ 62"
  shows "window_ok rl bl T (M * 2) C N taken (h \<lparr>hb_mult := i64 (hb_mult h * 2), hb_pending := False\<rparr>)"
proof -
  have m: "1 \<le> hb_mult h" "hb_mult h \<le> M" using assms(1) by (auto simp: window_ok_def)
  then have "i64 (hb_mult h * 2) = hb_mult h * 2" using assms(4) by (simp add: i64_small)
  moreover have "bl * hb_mult h \<le> bl * (hb_mult h * 2)" "rl * hb_mult h \<le> rl * (hb_mult h * 2)"
    using m assms(2,3) by (simp_all add: mult_left_mono)
  ultimately show ?thesis using assms(1) m unfolding window_ok_def by (auto intro: order_trans)
qed

lemma window_pending: "window_ok rl bl T M C N taken (h \<lparr>hb_pending := p\<rparr>) = window_ok rl bl T M C N taken h"
  by (simp add: window_ok_def)

section \<open>A run\<close>

definition start_mult :: "string \<Rightarrow> int" where
  "start_mult host = (if host \<in> set packageRegistryHosts then registryBudgetMult else 1)"

definition fresh_host :: "string \<Rightarrow> hostBudget" where
  "fresh_host host = \<lparr>hb_start = 0, hb_reqs = 0, hb_bytes = 0, hb_mult = start_mult host, hb_pending = False\<rparr>"

definition host_or_fresh :: "string \<Rightarrow> egressBudget \<Rightarrow> hostBudget" where
  "host_or_fresh host b = (case map_of (eb_hosts b) host of None \<Rightarrow> fresh_host host | Some h \<Rightarrow> h)"

lemma budget_host_alt:
  "budget_host now host b =
     (let h = host_or_fresh host b in
      if Minute \<le> now - hb_start h then h \<lparr>hb_start := now, hb_reqs := 0, hb_bytes := 0\<rparr> else h)"
proof -
  have "budgetWindow \<le> time_Sub now s \<longleftrightarrow> Minute \<le> now - s" for s
    using time_Sub_less_iff [of Minute now s] by (auto simp: budgetWindow_def)
  then show ?thesis
    by (simp add: budget_host_def host_or_fresh_def fresh_host_def start_mult_def Let_def split: option.splits)
qed

lemma host_or_fresh_put: "host_or_fresh host (put_host k h b) = (if k = host then h else host_or_fresh host b)"
  by (simp add: host_or_fresh_def put_host_def)

lemma put_host_limits [simp]: "eb_reqLimit (put_host k h b) = eb_reqLimit b" "eb_byteLim (put_host k h b) = eb_byteLim b"
  by (simp_all add: put_host_def)

primrec step_time :: "budget_op \<Rightarrow> time option" where
  "step_time (BudgetTake now h n) = Some now"
| "step_time (BudgetJoin now h) = Some now"
| "step_time (BudgetAnswer outcome h) = None"
| "step_time (BudgetCharge now h n) = Some now"

primrec step_size :: "budget_op \<Rightarrow> int" where
  "step_size (BudgetTake now h n) = n"
| "step_size (BudgetJoin now h) = 0"
| "step_size (BudgetAnswer outcome h) = 0"
| "step_size (BudgetCharge now h n) = n"

primrec doubles :: "string \<Rightarrow> budget_op \<Rightarrow> bool" where
  "doubles host (BudgetTake now h n) = False"
| "doubles host (BudgetJoin now h) = False"
| "doubles host (BudgetAnswer outcome h) = (h = host \<and> lets_go outcome)"
| "doubles host (BudgetCharge now h n) = False"

text \<open>The clock of a run does not go back, and a request does not have a negative size.\<close>

fun run_ok :: "time \<Rightarrow> budget_op list \<Rightarrow> bool" where
  "run_ok T [] = True"
| "run_ok T (x # xs) \<longleftrightarrow>
     0 \<le> step_size x \<and> (case step_time x of None \<Rightarrow> run_ok T xs | Some now \<Rightarrow> T \<le> now \<and> run_ok now xs)"

lemma window_now:
  assumes "window_ok rl bl T M C N taken (host_or_fresh host b)" "T \<le> now"
  shows "window_ok rl bl now M C N taken (budget_host now host b) \<and>
    hb_start (budget_host now host b) \<le> now \<and> now < hb_start (budget_host now host b) + Minute"
proof (cases "Minute \<le> now - hb_start (host_or_fresh host b)")
  case True
  then show ?thesis using window_roll [OF assms True] by (simp add: budget_host_alt Let_def)
next
  case False
  moreover have "hb_start (host_or_fresh host b) \<le> T" using assms(1) by (auto simp: window_ok_def)
  ultimately show ?thesis using window_ok_mono [OF assms(1,2) order_refl order_refl order_refl] assms(2)
    by (simp add: budget_host_alt Let_def)
qed

lemma budget_fits_small:
  assumes "window_ok rl bl T M C N taken h" "C + 1 < 2 ^ 62" "N + n < 2 ^ 62" "0 \<le> n" "0 \<le> rl" "0 \<le> bl"
    "rl * M < 2 ^ 62" "bl * M < 2 ^ 62" "eb_reqLimit b = rl" "eb_byteLim b = bl"
  shows "budget_fits b h n \<longleftrightarrow> hb_reqs h + 1 \<le> rl * hb_mult h \<and> hb_bytes h + n \<le> bl * hb_mult h"
proof -
  have h: "0 \<le> hb_reqs h" "hb_reqs h \<le> C" "0 \<le> hb_bytes h" "hb_bytes h \<le> N" "1 \<le> hb_mult h" "hb_mult h \<le> M"
    using assms(1) by (auto simp: window_ok_def)
  then have "rl * hb_mult h \<le> rl * M" "bl * hb_mult h \<le> bl * M" "0 \<le> rl * hb_mult h" "0 \<le> bl * hb_mult h"
    using assms(5,6) by (simp_all add: mult_left_mono)
  then have "i64 (rl * hb_mult h) = rl * hb_mult h" "i64 (bl * hb_mult h) = bl * hb_mult h"
    "i64 (hb_reqs h + 1) = hb_reqs h + 1" "i64 (hb_bytes h + n) = hb_bytes h + n"
    using assms(2-4,7,8) h by (auto intro!: i64_small)
  then show ?thesis using assms(9,10) by (auto simp: budget_fits_def)
qed

lemma budget_step_limits:
  "eb_reqLimit (snd (budget_step host x (taken, b))) = eb_reqLimit b"
  "eb_byteLim (snd (budget_step host x (taken, b))) = eb_byteLim b"
  by (cases x; simp add: budget_take_def budget_join_def budget_answer_def budget_charge_def Let_def split: option.splits)+

lemma budget_take_step:
  assumes ok: "window_ok rl bl T M C N taken (host_or_fresh host b)" "T \<le> now" "0 \<le> n"
    and small: "C + 1 < 2 ^ 62" "N + n < 2 ^ 62" "0 \<le> rl" "0 \<le> bl" "rl * M < 2 ^ 62" "bl * M < 2 ^ 62"
      "eb_reqLimit b = rl" "eb_byteLim b = bl"
  shows "window_ok rl bl now M (C + 1) (N + n) (fst (budget_step host (BudgetTake now k n) (taken, b)))
    (host_or_fresh host (snd (budget_step host (BudgetTake now k n) (taken, b))))"
proof (cases "k = host")
  case True
  note w = window_now [OF ok(1,2)]
  show ?thesis
  proof (cases "budget_fits b (budget_host now host b) n")
    case fits: True
    then have "hb_reqs (budget_host now host b) + 1 \<le> rl * hb_mult (budget_host now host b)"
      "hb_bytes (budget_host now host b) + n \<le> bl * hb_mult (budget_host now host b)"
      using budget_fits_small [OF conjunct1 [OF w] small(1,2) ok(3) small(3-8)] by auto
    from window_take [OF conjunct1 [OF w] ok(3) small(1,2) _ _ this] w True fits
    show ?thesis by (simp add: budget_take_def Let_def host_or_fresh_put)
  next
    case False
    then show ?thesis using w True window_ok_mono [of rl bl now M C N taken "budget_host now host b" now M "C + 1" "N + n"] ok(3)
      by (simp add: budget_take_def Let_def host_or_fresh_put)
  qed
next
  case False
  then show ?thesis using window_ok_mono [OF ok(1), of now M "C + 1" "N + n"] ok(2,3)
    by (simp add: budget_take_def Let_def host_or_fresh_put)
qed

definition later :: "time \<Rightarrow> budget_op \<Rightarrow> time" where
  "later T x = (case step_time x of None \<Rightarrow> T | Some now \<Rightarrow> now)"

lemma budget_step_ok:
  assumes ok: "window_ok rl bl T M C N taken (host_or_fresh host b)"
    and x: "0 \<le> step_size x" "T \<le> later T x"
    and small: "C + 1 < 2 ^ 62" "N + step_size x < 2 ^ 62" "0 \<le> rl" "0 \<le> bl" "rl * M < 2 ^ 62" "bl * M < 2 ^ 62"
      "M * 2 < 2 ^ 62" "eb_reqLimit b = rl" "eb_byteLim b = bl"
  shows "window_ok rl bl (later T x) (if doubles host x then M * 2 else M) (C + 1) (N + step_size x)
    (fst (budget_step host x (taken, b))) (host_or_fresh host (snd (budget_step host x (taken, b))))"
proof (cases x)
  case (BudgetTake now k n)
  then show ?thesis
    using budget_take_step [OF ok, of now n k] x small by (simp add: later_def del: budget_step.simps)
next
  case (BudgetJoin now k)
  then have now: "T \<le> now" using x by (simp add: later_def)
  show ?thesis
    using BudgetJoin window_now [OF ok now] window_ok_mono [of rl bl now M C N taken "budget_host now host b" now M "C + 1" N]
      window_ok_mono [OF ok, of now M "C + 1" N] now
    by (auto simp: later_def budget_join_def Let_def host_or_fresh_put window_pending)
next
  case (BudgetAnswer outcome k)
  note mono = window_ok_mono [of rl bl T _ C N taken _ T _ "C + 1" N]
  show ?thesis
  proof (cases "k = host \<and> map_of (eb_hosts b) host \<noteq> None")
    case True
    then obtain h where h: "map_of (eb_hosts b) host = Some h" "host_or_fresh host b = h" by (auto simp: host_or_fresh_def)
    then show ?thesis
      using BudgetAnswer True ok window_answer [OF ok small(3,4,7)] mono
      by (auto simp: later_def budget_answer_def host_or_fresh_put window_pending)
  next
    case False
    have "0 \<le> M" using ok by (auto simp: window_ok_def)
    then show ?thesis using BudgetAnswer False ok mono
      by (auto simp: later_def budget_answer_def host_or_fresh_put split: option.splits)
  qed
next
  case (BudgetCharge now k n)
  then have now: "T \<le> now" using x by (simp add: later_def)
  show ?thesis
    using BudgetCharge window_count [OF conjunct1 [OF window_now [OF ok now]], of n] small x
      window_ok_mono [OF ok, of now M "C + 1" "N + n"] now
    by (auto simp: later_def budget_charge_def host_or_fresh_put)
qed

text \<open>Bounds of a whole run: what is left of \<open>xs\<close> stays far from the ends of the 64-bit range.\<close>

definition run_small :: "string \<Rightarrow> int \<Rightarrow> int \<Rightarrow> int \<Rightarrow> int \<Rightarrow> int \<Rightarrow> budget_op list \<Rightarrow> bool" where
  "run_small host rl bl M C N xs \<longleftrightarrow>
     C + int (length xs) < 2 ^ 62 \<and> N + sum_list (map step_size xs) < 2 ^ 62 \<and>
     max (max rl bl) 1 * (M * 2 ^ length (filter (doubles host) xs)) < 2 ^ 61"

lemma run_ok_sizes: "run_ok T xs \<Longrightarrow> 0 \<le> sum_list (map step_size xs)"
  by (induction T xs rule: run_ok.induct) (auto split: option.splits)

lemma run_ok_later: "run_ok T (x # xs) \<Longrightarrow> 0 \<le> step_size x \<and> T \<le> later T x \<and> run_ok (later T x) xs"
  by (auto simp: later_def split: option.splits)

lemma scaled_small:
  fixes m M :: int
  assumes "m * (M * 2 ^ k) < 2 ^ 61" "0 \<le> r" "r \<le> m" "1 \<le> M"
  shows "r * M < 2 ^ 61"
proof -
  have "M * 1 \<le> M * 2 ^ k" using assms(4) by (intro mult_left_mono) auto
  then have "r * M \<le> m * (M * 2 ^ k)" using assms(2-4) by (intro mult_mono) auto
  then show ?thesis using assms(1) by linarith
qed

lemma budget_run_ok:
  assumes "window_ok rl bl T M C N taken (host_or_fresh host b)" "run_ok T xs" "run_small host rl bl M C N xs"
    "0 \<le> rl" "0 \<le> bl" "eb_reqLimit b = rl" "eb_byteLim b = bl" "1 \<le> M"
  shows "\<exists>T' C' N'. window_ok rl bl T' (M * 2 ^ length (filter (doubles host) xs)) C' N'
    (fst (fold (budget_step host) xs (taken, b))) (host_or_fresh host (snd (fold (budget_step host) xs (taken, b))))"
  using assms
proof (induction xs arbitrary: T M C N taken b)
  case (Cons x xs)
  let ?M = "if doubles host x then M * 2 else M" and ?s = "budget_step host x (taken, b)"
  let ?k = "length (filter (doubles host) (x # xs))"
  note x = run_ok_later [OF Cons.prems(2)]
  have sum: "0 \<le> sum_list (map step_size xs)" using x run_ok_sizes by blast
  have big: "max (max rl bl) 1 * (M * 2 ^ ?k) < 2 ^ 61" using Cons.prems(3) by (simp add: run_small_def)
  have "rl * M < 2 ^ 61" "bl * M < 2 ^ 61" "1 * M < 2 ^ 61"
    using scaled_small [OF big, of rl] scaled_small [OF big, of bl] scaled_small [OF big, of 1] Cons.prems(4,5,8) by auto
  then have "window_ok rl bl (later T x) ?M (C + 1) (N + step_size x) (fst ?s) (host_or_fresh host (snd ?s))"
    using budget_step_ok [OF Cons.prems(1), of x] x Cons.prems(3-7) sum by (simp add: run_small_def)
  moreover have "run_small host rl bl ?M (C + 1) (N + step_size x) xs"
    using Cons.prems(3) by (auto simp: run_small_def algebra_simps)
  ultimately show ?case
    using Cons.IH [of "later T x" ?M "C + 1" "N + step_size x" "fst ?s" "snd ?s"] x Cons.prems(4-8)
      budget_step_limits [of host x taken b]
    by (auto simp: algebra_simps split: if_splits)
qed auto

section \<open>Any minute\<close>

definition within_minute :: "time \<Rightarrow> (time \<times> time \<times> int) list \<Rightarrow> (time \<times> time \<times> int) list" where
  "within_minute s taken = filter (\<lambda>(w, t, n). s \<le> t \<and> t < s + Minute) taken"

lemma two_windows:
  assumes "window_ok rl bl T M C N taken h"
  shows "\<exists>v w. \<forall>(u, t, n) \<in> set (within_minute s taken). u = v \<or> u = w"
proof -
  let ?F = "within_minute s taken"
  have near: "s - Minute < u \<and> u < s + Minute" if "(u, t, n) \<in> set ?F" for u t n
    using assms that by (fastforce simp: window_ok_def within_minute_def)
  have apart: "u = v \<or> u + Minute \<le> v \<or> v + Minute \<le> u" if "(u, t, n) \<in> set ?F" "(v, t', n') \<in> set ?F" for u t n v t' n'
    using assms that by (fastforce simp: window_ok_def within_minute_def)
  have three: "u = v \<or> u = w \<or> v = w"
    if "(u, t, n) \<in> set ?F" "(v, t', n') \<in> set ?F" "(w, t'', n'') \<in> set ?F" for u t n v t' n' w t'' n''
    using near [OF that(1)] near [OF that(2)] near [OF that(3)] apart [OF that(1,2)] apart [OF that(1,3)] apart [OF that(2,3)]
    by linarith
  show ?thesis
  proof (cases "\<exists>v w. v \<in> fst ` set ?F \<and> w \<in> fst ` set ?F \<and> v \<noteq> w")
    case True
    then obtain v t' n' w t'' n'' where "(v, t', n') \<in> set ?F" "(w, t'', n'') \<in> set ?F" "v \<noteq> w" by auto
    then have "\<forall>(u, t, n) \<in> set ?F. u = v \<or> u = w" using three by blast
    then show ?thesis by blast
  next
    case False
    then have "u = fst (hd ?F)" if "(u, t, n) \<in> set ?F" for u t n
    proof -
      have "?F \<noteq> []" using that by auto
      then have "fst (hd ?F) \<in> fst ` set ?F" by (intro imageI hd_in_set)
      moreover have "u \<in> fst ` set ?F" using that by (rule image_eqI [rotated]) simp
      ultimately show ?thesis using False by blast
    qed
    then show ?thesis by blast
  qed
qed

lemma sizes_nonneg: "\<forall>(u, t, n) \<in> set taken. 0 \<le> n \<Longrightarrow> 0 \<le> sizes (in_window w taken)"
  by (induction taken) (auto simp: sizes_def in_window_def split: prod.splits)

lemma split_windows:
  assumes "\<forall>(u, t, n) \<in> set (filter P taken). u = v \<or> u = w" "\<forall>(u, t, n) \<in> set taken. 0 \<le> n"
  shows "sizes (filter P taken) \<le> sizes (in_window v taken) + sizes (in_window w taken) \<and>
    length (filter P taken) \<le> length (in_window v taken) + length (in_window w taken)"
  using assms by (induction taken) (auto simp: sizes_def in_window_def split: prod.splits if_splits)

text \<open>C25: What can leave for a host unasked: with a clock that does not go back and counts away from the ends of the
  64-bit range, over every interleaving of requests, questions and answers, the requests to a host that were let
  through without a question within any one minute are at most twice the allowance, and so are their bytes; the
  allowance is the configured one, ten times as large for a package registry, doubled by every approval.
\<close>

theorem unasked_egress_bounded:
  assumes "run_ok 0 ops" "b0 = newEgressBudget reqs bytes" "M = start_mult host * 2 ^ length (filter (doubles host) ops)"
    and "run_small host (eb_reqLimit b0) (eb_byteLim b0) (start_mult host) 0 0 ops"
    and "taken = fst (fold (budget_step host) ops ([], b0))"
  shows "sizes (within_minute s taken) \<le> 2 * (eb_byteLim b0 * M) \<and>
    int (length (within_minute s taken)) \<le> 2 * (eb_reqLimit b0 * M)"
proof -
  let ?rl = "eb_reqLimit b0" and ?bl = "eb_byteLim b0" and ?m = "start_mult host"
  have lim: "0 \<le> ?rl" "0 \<le> ?bl" "1 \<le> ?m" "host_or_fresh host b0 = fresh_host host"
    using assms(2) by (auto simp: newEgressBudget_def start_mult_def registryBudgetMult_def host_or_fresh_def)
  then have "window_ok ?rl ?bl 0 ?m 0 0 [] (host_or_fresh host b0)"
    by (simp add: window_ok_def fresh_host_def sizes_def in_window_def)
  then obtain T C N where ok: "window_ok ?rl ?bl T M C N taken (host_or_fresh host (snd (fold (budget_step host) ops ([], b0))))"
    (is "window_ok _ _ _ _ _ _ _ ?h")
    using budget_run_ok [of ?rl ?bl 0 ?m 0 0 "[]" host b0 ops] assms lim by auto
  then have pos: "\<forall>(u, t, n) \<in> set taken. 0 \<le> n" and "1 \<le> hb_mult ?h" and m: "hb_mult ?h \<le> M"
    and per: "sizes (in_window w taken) \<le> ?bl * hb_mult ?h" "int (length (in_window w taken)) \<le> ?rl * hb_mult ?h" for w
    by (auto simp: window_ok_def)
  have le: "?bl * hb_mult ?h \<le> ?bl * M" "?rl * hb_mult ?h \<le> ?rl * M" using lim m by (simp_all add: mult_left_mono)
  obtain v w where "\<forall>(u, t, n) \<in> set (within_minute s taken). u = v \<or> u = w" using two_windows [OF ok] by blast
  from split_windows [OF this [unfolded within_minute_def] pos] per [of v] per [of w] le
  show ?thesis unfolding within_minute_def by linarith
qed

definition sample_budget_run :: "budget_op list" where
  "sample_budget_run = [BudgetTake 100 ''h'' 5, BudgetTake 200 ''g'' 7, BudgetTake 300 ''h'' 6, BudgetJoin 300 ''h'',
     BudgetAnswer ''approved'' ''h'', BudgetCharge 400 ''h'' 6, BudgetTake 500 ''h'' 6]"

lemma sample_budget_facts:
  "run_ok 0 sample_budget_run"
  "run_small ''h'' 10 10 (start_mult ''h'') 0 0 sample_budget_run"
  "fst (fold (budget_step ''h'') sample_budget_run ([], newEgressBudget 10 10)) = [(0, 500, 6), (0, 100, 5)]"
  "start_mult ''h'' * 2 ^ length (filter (doubles ''h'') sample_budget_run) = 2"
  by code_simp+

theorem unasked_egress_bounded_witness:
  "sizes (within_minute 100 [(0, 500, 6), (0, 100, 5)]) = 11 \<and> sizes (within_minute 100 [(0, 500, 6), (0, 100, 5)]) \<le> 2 * (10 * 2)"
proof -
  have lim: "eb_reqLimit (newEgressBudget 10 10) = 10" "eb_byteLim (newEgressBudget 10 10) = 10"
    by (simp_all add: newEgressBudget_def)
  have "sizes (within_minute 100 [(0, 500, 6), (0, 100, 5)]) = 11" by code_simp
  then show ?thesis
    using unasked_egress_bounded [of sample_budget_run "newEgressBudget 10 10" 10 10 2 "''h''" "[(0, 500, 6), (0, 100, 5)]" 100]
      sample_budget_facts lim by simp
qed

end
