(* ===== verification/Proxy_Git.thy ===== *)
theory Proxy_Git
  imports Proxy_Trackers
begin

text \<open>
  Component: git over HTTP in the proxy (\<^verbatim>\<open>proxy/internal/proxy/git.go\<close>): the refs a push updates, read from the
  head of its body and appended to the resource that policy decides on, and the check that a fetch only
  negotiates. Unpacking gzip and parsing a media type are parameters.
\<close>

section \<open>Held bodies and headers\<close>

text \<open>A body read in full: the bytes, of which the first \<open>gitBodyPeek\<close> are kept as the head.\<close>

definition gitBodyPeek :: int where "gitBodyPeek = 1048576"

record heldBody =
  hd_size :: int
  hd_head :: string
  hd_mem :: string

definition header_values :: "http_request \<Rightarrow> string \<Rightarrow> string list" where
  "header_values r k = (case map_of (rq_Header r) k of None \<Rightarrow> [] | Some vs \<Rightarrow> vs)"

definition header_get :: "http_request \<Rightarrow> string \<Rightarrow> string" where
  "header_get r k = (case header_values r k of [] \<Rightarrow> [] | v # vs \<Rightarrow> v)"

definition encodedValue :: "string list \<Rightarrow> string" where
  "encodedValue vals =
     (case filter (\<lambda>t. t \<noteq> [] \<and> \<not> EqualFold t ''identity'')
             (concat (map (\<lambda>v. map TrimSpace (SplitByte (CHR '','') v)) vals)) of
        [] \<Rightarrow> [] | t # ts \<Rightarrow> t)"

section \<open>Pushes\<close>

record RefUpdate =
  ru_Ref :: string
  ru_OldSHA :: string
  ru_NewSHA :: string
  ru_Delete :: bool

definition looksLikePush :: "http_request \<Rightarrow> bool" where
  "looksLikePush r \<longleftrightarrow> rq_Method r = ''POST'' \<and> Contains (ToLower (EscapedPath (rq_URL r))) ''git-receive-pack''"

text \<open>
  \<^verbatim>\<open>strings.Fields\<close>: cut at runs of \<^verbatim>\<open>unicode.IsSpace\<close>. Beside the six blanks of ASCII these are the characters below, in
  their UTF-8 form. Their first bytes occur in UTF-8 only as first bytes, so looking at every byte finds the same
  ones as decoding character by character, in a text that is not valid UTF-8 too.
\<close>

definition unicode_spaces :: "string list" where
  "unicode_spaces =
     [[CHR 0xC2, CHR 0x85], [CHR 0xC2, CHR 0xA0], [CHR 0xE1, CHR 0x9A, CHR 0x80],
     [CHR 0xE2, CHR 0x80, CHR 0x80], [CHR 0xE2, CHR 0x80, CHR 0x81], [CHR 0xE2, CHR 0x80, CHR 0x82],
     [CHR 0xE2, CHR 0x80, CHR 0x83], [CHR 0xE2, CHR 0x80, CHR 0x84], [CHR 0xE2, CHR 0x80, CHR 0x85],
     [CHR 0xE2, CHR 0x80, CHR 0x86], [CHR 0xE2, CHR 0x80, CHR 0x87], [CHR 0xE2, CHR 0x80, CHR 0x88],
     [CHR 0xE2, CHR 0x80, CHR 0x89], [CHR 0xE2, CHR 0x80, CHR 0x8A], [CHR 0xE2, CHR 0x80, CHR 0xA8],
     [CHR 0xE2, CHR 0x80, CHR 0xA9], [CHR 0xE2, CHR 0x80, CHR 0xAF], [CHR 0xE2, CHR 0x81, CHR 0x9F],
     [CHR 0xE3, CHR 0x80, CHR 0x80]]"

definition space_width :: "string \<Rightarrow> nat" where
  "space_width s =
     (case find (HasPrefix s) unicode_spaces of
        Some p \<Rightarrow> length p
      | None \<Rightarrow> if s \<noteq> [] \<and> ascii_space (hd s) then 1 else 0)"

fun fields_from :: "string \<Rightarrow> string \<Rightarrow> string list" where
  "fields_from cur [] = (if cur = [] then [] else [rev cur])"
| "fields_from cur (c # s) =
     (if space_width (c # s) = 0 then fields_from (c # cur) s
      else (if cur = [] then [] else [rev cur]) @ fields_from [] (drop (space_width (c # s) - 1) s))"

definition strings_Fields :: "string \<Rightarrow> string list" where
  "strings_Fields s = fields_from [] s"

text \<open>\<^verbatim>\<open>strconv.ParseUint\<close> of a hexadecimal text.\<close>

definition ParseUint16 :: "string \<Rightarrow> nat option" where
  "ParseUint16 s = (if s \<noteq> [] \<and> list_all ishex s then Some (foldl (\<lambda>v c. 16 * v + unhex c) 0 s) else None)"

text \<open>One line of the header of a push: the ref it updates, if it has the form of an update.\<close>

definition ref_of_line :: "string \<Rightarrow> RefUpdate option" where
  "ref_of_line payload =
     (let line = TrimRightByte payload (CHR 0x0A);
          line' = (case IndexByte line (CHR 0x00) of Some i \<Rightarrow> take i line | None \<Rightarrow> line);
          f = strings_Fields line' in
      if length f < 3 \<or> \<not> HasPrefix (f ! 2) ''refs/'' then None
      else Some \<lparr>ru_Ref = f ! 2, ru_OldSHA = f ! 0, ru_NewSHA = f ! 1, ru_Delete = list_all (\<lambda>c. c = CHR ''0'') (f ! 1)\<rparr>)"

function parseRefUpdates :: "string \<Rightarrow> RefUpdate list \<times> bool" where
  "parseRefUpdates body =
     (if length body < 4 then ([], False)
      else case ParseUint16 (take 4 body) of
        None \<Rightarrow> ([], False)
      | Some n \<Rightarrow>
          if n = 0 then ([], True)
          else if n < 4 \<or> gitBodyPeek < int n then ([], False)
          else if length body < n then ([], False)
          else (case parseRefUpdates (drop n body) of
                  (refs, whole) \<Rightarrow>
                    ((case ref_of_line (drop 4 (take n body)) of None \<Rightarrow> refs | Some u \<Rightarrow> u # refs), whole)))"
  by pat_completeness auto
termination
  by (relation "measure length") auto

declare parseRefUpdates.simps [simp del]

definition pushUnparsed :: string where "pushUnparsed = '' git-receive-pack''"
definition pushTruncated :: string where "pushTruncated = '' git-receive-pack(truncated)''"

definition gatewayRefChars :: "string \<Rightarrow> bool" where
  "gatewayRefChars ref \<longleftrightarrow> list_all (\<lambda>c. is_letter c \<or> is_digit c \<or> c \<in> set ''/._-~'') ref \<and> HasPrefix ref ''refs/''"

definition ref_text :: "RefUpdate \<Rightarrow> string" where
  "ref_text u = ru_Ref u @ (if ru_Delete u then ''(delete)'' else [])"

definition gitResourceSuffix :: "bool \<Rightarrow> http_request \<Rightarrow> heldBody option \<Rightarrow> string" where
  "gitResourceSuffix gitGate r hb =
     (if \<not> gitGate \<or> \<not> looksLikePush r then []
      else case hb of
        None \<Rightarrow> pushUnparsed
      | Some h \<Rightarrow>
          if encodedValue (header_values r ''Content-Encoding'') \<noteq> [] then pushUnparsed
          else (case parseRefUpdates (hd_head h) of
                  (refs, whole) \<Rightarrow>
                    if \<not> whole \<and> int (length (hd_head h)) < hd_size h then pushTruncated
                    else if \<not> whole \<or> refs = [] then pushUnparsed
                    else if list_ex (\<lambda>u. \<not> gatewayRefChars (ru_Ref u)) refs then pushUnparsed
                    else CHR '' '' # JoinByte (CHR '','') (map ref_text refs)))"

section \<open>Fetches\<close>

definition uploadPackWords :: "string list" where
  "uploadPackWords =
     [''want'', ''have'', ''done'', ''shallow'', ''deepen'', ''deepen-since'', ''deepen-not'', ''deepen-relative'', ''filter'',
      ''thin-pack'', ''no-progress'', ''include-tag'', ''ofs-delta'', ''sideband-all'', ''packfile-uris'', ''wait-for-done'',
      ''want-ref'', ''peel'', ''symrefs'', ''ref-prefix'', ''unborn'']"

definition uploadPackV2Caps :: "string list" where
  "uploadPackV2Caps = [''command'', ''agent'', ''object-format'', ''server-option'', ''session-id'']"

definition isHex :: "string \<Rightarrow> bool" where
  "isHex b \<longleftrightarrow> list_all ishex b \<and> b \<noteq> []"

definition printableASCII :: "string \<Rightarrow> bool" where
  "printableASCII s \<longleftrightarrow> list_all (\<lambda>c. 0x20 \<le> (of_char c :: nat) \<and> (of_char c :: nat) \<le> 0x7E) s"

record upload_state =
  us_v2 :: bool
  us_inArgs :: bool
  us_sawWant :: bool
  us_first :: bool

text \<open>One line after the checks of its frame.\<close>

definition upload_line :: "string \<Rightarrow> upload_state \<Rightarrow> upload_state option" where
  "upload_line line st0 =
     (if line = [] \<or> \<not> printableASCII line then None
      else let st = st0 \<lparr>us_first := False\<rparr> in
        if us_first st0 \<and> HasPrefix line ''command='' then
          (if drop 8 line \<noteq> ''fetch'' \<and> drop 8 line \<noteq> ''ls-refs'' then None else Some (st \<lparr>us_v2 := True\<rparr>))
        else if us_v2 st \<and> \<not> us_inArgs st then
          (let key = fst (CutByte line (CHR ''='')) in
           if key \<notin> set uploadPackV2Caps \<or> key = ''command'' then None else Some st)
        else
          (case CutByte line (CHR '' '') of
             (word, rest) \<Rightarrow>
               if word \<notin> set uploadPackWords then None
               else if word = ''want'' \<or> word = ''have'' then
                 (let oid = fst (CutByte rest (CHR '' '')) in
                  if (length oid \<noteq> 40 \<and> length oid \<noteq> 64) \<or> \<not> isHex oid then None
                  else Some (st \<lparr>us_sawWant := us_sawWant st \<or> word = ''want''\<rparr>))
               else Some st))"

function upload_loop :: "string \<Rightarrow> upload_state \<Rightarrow> upload_state option" where
  "upload_loop b st =
     (if b = [] then Some st
      else if length b < 4 \<or> \<not> isHex (take 4 b) then None
      else let n = the (ParseUint16 (take 4 b)) in
        if n = 0 then upload_loop (drop 4 b) st
        else if n = 1 \<or> n = 2 then
          (if \<not> us_v2 st then None else upload_loop (drop 4 b) (st \<lparr>us_inArgs := True\<rparr>))
        else if n < 4 \<or> length b < n then None
        else (case upload_line (TrimSuffix (drop 4 (take n b)) [CHR 0x0A]) st of
                None \<Rightarrow> None
              | Some st' \<Rightarrow> upload_loop (drop n b) st'))"
  by pat_completeness auto
termination
  by (relation "measure (\<lambda>(b, st). length b)") auto

declare upload_loop.simps [simp del]

definition validUploadPackRequest :: "string \<Rightarrow> bool" where
  "validUploadPackRequest b \<longleftrightarrow>
     (case upload_loop b \<lparr>us_v2 = False, us_inArgs = False, us_sawWant = False, us_first = True\<rparr> of
        None \<Rightarrow> False
      | Some st \<Rightarrow> us_v2 st \<or> us_sawWant st)"

definition uploadPackRefusal ::
  "(string \<Rightarrow> string option) \<Rightarrow> (string \<Rightarrow> string option) \<Rightarrow> http_request \<Rightarrow> heldBody option \<Rightarrow> int \<Rightarrow> string" where
  "uploadPackRefusal gunzip media r hb limit =
     (let no = ''not_git_upload_pack''; enc = ToLower (encodedValue (header_values r ''Content-Encoding'')) in
      if \<not> HasSuffix (EscapedPath (rq_URL r)) ''/git-upload-pack'' then no
      else case media (header_get r ''Content-Type'') of
        None \<Rightarrow> no
      | Some mt \<Rightarrow>
          if \<not> EqualFold mt ''application/x-git-upload-pack-request'' then no
          else (case hb of
                  None \<Rightarrow> no
                | Some h \<Rightarrow>
                    if limit < hd_size h then no
                    else (case (if enc = [] then Some (hd_mem h)
                                else if enc = ''gzip'' \<or> enc = ''x-gzip'' then gunzip (hd_mem h) else None) of
                            None \<Rightarrow> no
                          | Some b \<Rightarrow> if limit < int (length b) \<or> \<not> validUploadPackRequest b then no else [])))"

definition allowedGitRefusal ::
  "(string \<Rightarrow> string option) \<Rightarrow> (string \<Rightarrow> string option) \<Rightarrow> bool \<Rightarrow> int \<Rightarrow> http_request \<Rightarrow> heldBody option \<Rightarrow> string \<Rightarrow> string" where
  "allowedGitRefusal gunzip media gitGate maxUploadPack r hb url =
     (if isUploadPackPost r then uploadPackRefusal gunzip media r hb maxUploadPack
      else if gitGate \<and> looksLikePush r \<and> (HasSuffix url pushUnparsed \<or> HasSuffix url pushTruncated) then ''git_push_unparsed''
      else [])"

end
