(* ===== verification/Git_Properties.thy ===== *)
theory Git_Properties
  imports Proxy_Git Tracker_Properties
begin

text \<open>
  Properties of the git gate: what a push updates is what the policy of the gateway is asked about.
\<close>

section \<open>Packet lines\<close>

text \<open>A frame: four hexadecimal digits that count themselves and the payload. A flush packet counts zero.\<close>

definition frame_ok :: "string \<times> string \<Rightarrow> bool" where
  "frame_ok f \<longleftrightarrow> length (fst f) = 4 \<and> ParseUint16 (fst f) = Some (length (snd f) + 4) \<and> int (length (snd f) + 4) \<le> gitBodyPeek"

definition flush_ok :: "string \<Rightarrow> bool" where
  "flush_ok s \<longleftrightarrow> length s = 4 \<and> ParseUint16 s = Some 0"

definition frames_bytes :: "(string \<times> string) list \<Rightarrow> string" where
  "frames_bytes fs = concat (map (\<lambda>f. fst f @ snd f) fs)"

definition refs_of_frames :: "(string \<times> string) list \<Rightarrow> RefUpdate list" where
  "refs_of_frames fs = List.map_filter (\<lambda>f. ref_of_line (snd f)) fs"

lemma frames_simps [simp]:
  "frames_bytes [] = []" "frames_bytes (f # fs) = fst f @ snd f @ frames_bytes fs"
  "refs_of_frames [] = []"
  "refs_of_frames (f # fs) = (case ref_of_line (snd f) of None \<Rightarrow> refs_of_frames fs | Some u \<Rightarrow> u # refs_of_frames fs)"
  by (simp_all add: frames_bytes_def refs_of_frames_def map_filter_simps split: option.splits)

lemma parse_flush: "flush_ok s \<Longrightarrow> parseRefUpdates (s @ pack) = ([], True)"
  by (subst parseRefUpdates.simps) (simp add: flush_ok_def)

lemma parse_frame:
  assumes "frame_ok (h, l)"
  shows "parseRefUpdates (h @ l @ rest) =
    (case parseRefUpdates rest of (refs, w) \<Rightarrow> ((case ref_of_line l of None \<Rightarrow> refs | Some u \<Rightarrow> u # refs), w))"
  using assms by (subst parseRefUpdates.simps) (simp add: frame_ok_def)

lemma parse_frames:
  "\<forall>f \<in> set fs. frame_ok f \<Longrightarrow> flush_ok s \<Longrightarrow> parseRefUpdates (frames_bytes fs @ s @ pack) = (refs_of_frames fs, True)"
proof (induction fs)
  case (Cons f fs)
  then have "frame_ok (fst f, snd f)" by simp
  from parse_frame [OF this, of "frames_bytes fs @ s @ pack"] Cons show ?case by (simp split: option.splits)
qed (simp add: parse_flush)

lemma parse_complete:
  "parseRefUpdates body = (refs, True) \<Longrightarrow>
   \<exists>fs s pack. body = frames_bytes fs @ s @ pack \<and> (\<forall>f \<in> set fs. frame_ok f) \<and> flush_ok s \<and> refs = refs_of_frames fs"
proof (induction body arbitrary: refs rule: parseRefUpdates.induct)
  case (1 body)
  obtain n where n: "\<not> length body < 4" "ParseUint16 (take 4 body) = Some n"
    using "1.prems" by (subst (asm) parseRefUpdates.simps) (auto split: if_splits option.splits)
  show ?case
  proof (cases "n = 0")
    case True
    then have "body = frames_bytes [] @ take 4 body @ drop 4 body" "flush_ok (take 4 body)" "refs = refs_of_frames []"
      using n "1.prems" by (auto simp: flush_ok_def parseRefUpdates.simps [of body])
    then show ?thesis by (metis empty_iff list.set(1))
  next
    case False
    then have le: "4 \<le> n" "int n \<le> gitBodyPeek" "n \<le> length body"
      using n "1.prems" by (auto simp: parseRefUpdates.simps [of body] split: if_splits)
    obtain refs' w where rec: "parseRefUpdates (drop n body) = (refs', w)" by (cases "parseRefUpdates (drop n body)")
    let ?l = "drop 4 (take n body)"
    have w: "w" and refs: "refs = (case ref_of_line ?l of None \<Rightarrow> refs' | Some u \<Rightarrow> u # refs')"
      using n False le rec "1.prems" by (auto simp: parseRefUpdates.simps [of body] split: if_splits)
    then obtain fs s pack where fs: "drop n body = frames_bytes fs @ s @ pack" "\<forall>f \<in> set fs. frame_ok f" "flush_ok s"
      "refs' = refs_of_frames fs"
      using "1.IH" [OF n False] le rec by auto
    have "body = take n body @ drop n body" by simp
    also have "take n body = take 4 body @ ?l"
    proof -
      have "take 4 (take n body) = take 4 body" using le by (simp add: take_take min_absorb1)
      then show ?thesis using append_take_drop_id [of 4 "take n body"] by metis
    qed
    finally have "body = frames_bytes ((take 4 body, ?l) # fs) @ s @ pack" using fs(1) by simp
    moreover have "frame_ok (take 4 body, ?l)" using n le by (simp add: frame_ok_def)
    ultimately show ?thesis using fs refs
      by (intro exI [of _ "(take 4 body, ?l) # fs"] exI [of _ s] exI [of _ pack]) auto
  qed
qed

section \<open>The ref list at the gateway\<close>

lemma ref_text_ok:
  assumes "gatewayRefChars (ru_Ref u)"
  shows "is_ref (ref_text u)" "HasPrefix (ref_text u) ''refs/''" "CHR '' '' \<notin> set (ref_text u)" "CHR '','' \<notin> set (ref_text u)"
proof -
  let ?r = "ru_Ref u"
  have all: "list_all ref_byte ?r" and pre: "HasPrefix ?r ''refs/''"
    using assms by (auto simp: gatewayRefChars_def ref_byte_def list_all_iff)
  have no: "c \<notin> set ?r" if "\<not> ref_byte c" for c using all that by (auto simp: list_all_iff)
  have "\<not> HasSuffix ?r ''(delete)''"
  proof
    assume "HasSuffix ?r ''(delete)''"
    then obtain t where "?r = t @ ''(delete)''" by (auto simp: HasSuffix_iff suffix_def)
    then show False using no [of "CHR ''(''"] by (simp add: ref_byte_def is_letter_def is_upper_def is_lower_def is_digit_def)
  qed
  then have "TrimSuffix (ref_text u) ''(delete)'' = ?r"
    by (auto simp: ref_text_def TrimSuffix_def HasSuffix_iff suffix_def)
  then show "is_ref (ref_text u)" using pre all by (simp add: is_ref_def list_all_iff) (metis in_set_dropD)
  show "HasPrefix (ref_text u) ''refs/''" using pre by (auto simp: HasPrefix_iff ref_text_def)
  show "CHR '' '' \<notin> set (ref_text u)" "CHR '','' \<notin> set (ref_text u)"
    using no [of "CHR '' ''"] no [of "CHR '',''"] by (auto simp: ref_text_def ref_byte_def is_letter_def is_upper_def is_lower_def is_digit_def)
qed

lemma JoinByte_no: "b \<noteq> c \<Longrightarrow> \<forall>p \<in> set ps. c \<notin> set p \<Longrightarrow> c \<notin> set (JoinByte b ps)"
  by (induction b ps rule: JoinByte.induct) auto

lemma Contains_byte: "Contains s [b] \<longleftrightarrow> b \<in> set s"
  by (induction s) (auto simp: Contains_def HasPrefix_def)

lemma SplitRefList_tail:
  assumes "isURLResource res" "CHR '' '' \<notin> set tail" "HasPrefix tail ''refs/''" "isRefList tail"
  shows "SplitRefList (res @ CHR '' '' # tail) =
    (if CHR '','' \<in> set tail then map (\<lambda>ref. res @ '' '' @ ref) (SplitByte (CHR '','') tail) else [res @ CHR '' '' # tail])"
proof -
  have "res \<noteq> []" using assms(1) by (auto simp: isURLResource_def)
  then show ?thesis
    using assms Contains_byte [of tail "CHR '',''"] by (simp add: SplitRefList_def LastIndexByte_last Let_def)
qed

lemma SplitRefList_refs:
  assumes "isURLResource res" "refs \<noteq> []" "\<forall>u \<in> set refs. gatewayRefChars (ru_Ref u)"
  shows "SplitRefList (res @ CHR '' '' # JoinByte (CHR '','') (map ref_text refs)) = map (\<lambda>u. res @ '' '' @ ref_text u) refs"
proof -
  let ?tail = "JoinByte (CHR '','') (map ref_text refs)"
  obtain u us where refs: "refs = u # us" using assms(2) by (cases refs) auto
  have sp: "CHR '' '' \<notin> set ?tail" by (rule JoinByte_no) (use assms(3) ref_text_ok in auto)
  have split: "SplitByte (CHR '','') ?tail = map ref_text refs"
    by (rule SplitByte_JoinByte) (use assms(2,3) ref_text_ok in auto)
  have pre: "HasPrefix ?tail ''refs/''"
    using ref_text_ok(2) [of u] assms(3) refs by (cases us) (auto simp: HasPrefix_iff)
  have "isRefList ?tail" using assms(3) ref_text_ok(1) by (auto simp: isRefList_def split list_all_iff)
  note eq = SplitRefList_tail [OF assms(1) sp pre this]
  show ?thesis
  proof (cases "CHR '','' \<in> set ?tail")
    case True
    then show ?thesis unfolding eq split by simp
  next
    case False
    then have "refs = [u]" using SplitByte_single [OF False] split refs by auto
    then show ?thesis using False unfolding eq by simp
  qed
qed

text \<open>C26: What a push updates is what policy decides on: when the proxy appends a list of refs to the resource of a push,
  the head of the body is a sequence of packet lines up to its flush packet, at least one of them a ref update, and
  the gateway splits the resource back into exactly those updates, in order, deletions marked; a push it cannot read
  so carries one of the two markers instead.
\<close>

theorem push_refs_reach_policy:
  assumes "gitResourceSuffix True r (Some h) = sfx" "looksLikePush r" "sfx \<noteq> pushUnparsed" "sfx \<noteq> pushTruncated"
    and "isURLResource res"
  shows "\<exists>fs s pack. hd_head h = frames_bytes fs @ s @ pack \<and> (\<forall>f \<in> set fs. frame_ok f) \<and> flush_ok s \<and>
    refs_of_frames fs \<noteq> [] \<and>
    SplitRefList (res @ sfx) = map (\<lambda>u. res @ '' '' @ ref_text u) (refs_of_frames fs)"
proof -
  obtain refs w where p: "parseRefUpdates (hd_head h) = (refs, w)" by (cases "parseRefUpdates (hd_head h)")
  have "w" "refs \<noteq> []" "\<forall>u \<in> set refs. gatewayRefChars (ru_Ref u)"
    and sfx: "sfx = CHR '' '' # JoinByte (CHR '','') (map ref_text refs)"
    using assms(1-4) p by (auto simp: gitResourceSuffix_def list_ex_iff split: if_splits)
  moreover from this(1) obtain fs s pack where "hd_head h = frames_bytes fs @ s @ pack" "\<forall>f \<in> set fs. frame_ok f" "flush_ok s"
    "refs = refs_of_frames fs"
    using parse_complete [of "hd_head h" refs] p by auto
  ultimately show ?thesis using SplitRefList_refs [OF assms(5)] unfolding sfx by blast
qed

definition sample_push :: http_request where
  "sample_push = \<lparr>rq_Method = ''POST'', rq_URL = plain_url ''g.io'' ''/r.git/git-receive-pack'', rq_Header = [], rq_ContentLength = 40,
     rq_TransferEncoding = []\<rparr>"

definition sample_body :: heldBody where
  "sample_body = \<lparr>hd_size = 53, hd_head = ''0014a b refs/heads/x0014a 0 refs/tags/yy0000PACK'', hd_mem = []\<rparr>"

lemma sample_push_suffix:
  "gitResourceSuffix True sample_push (Some sample_body) = '' refs/heads/x,refs/tags/yy(delete)''"
  by code_simp

theorem push_refs_reach_policy_witness:
  "gitResourceSuffix True sample_push (Some sample_body) = '' refs/heads/x,refs/tags/yy(delete)'' \<and>
   (\<exists>fs s pack. hd_head sample_body = frames_bytes fs @ s @ pack \<and> refs_of_frames fs \<noteq> [])"
proof -
  have "looksLikePush sample_push" "isURLResource ''POST https://g.io/r.git/git-receive-pack''" by code_simp+
  then show ?thesis
    using push_refs_reach_policy [OF sample_push_suffix, of "''POST https://g.io/r.git/git-receive-pack''"] sample_push_suffix
    by (fastforce simp: pushUnparsed_def pushTruncated_def)
qed

end
