(* ===== verification/Go_Stream.thy ===== *)
theory Go_Stream
  imports Go_Prelude
begin

text \<open>
  A body as the proxy reads it: the source of a reader is the list of what its reads return, bytes and how the
  read ended (\<open>More\<close> is a nil error, \<open>EndOfBody\<close> is \<^verbatim>\<open>io.EOF\<close>, \<open>BodyFailed\<close> any other error). The package
  downloads and the response scrubbing read such sources, and the readers that fill a buffer share their loop and
  its contract.
\<close>

section \<open>Sources\<close>

datatype src_end = More | EndOfBody | BodyFailed

definition src_read :: "(string \<times> src_end) list \<Rightarrow> string \<times> src_end \<times> (string \<times> src_end) list" where
  "src_read src = (case src of [] \<Rightarrow> ([], EndOfBody, []) | (buf, e) # rest \<Rightarrow> (buf, e, rest))"

fun body_of :: "(string \<times> src_end) list \<Rightarrow> string" where
  "body_of [] = []"
| "body_of ((buf, e) # rest) = (if e = More then buf @ body_of rest else buf)"

section \<open>Readers that fill a buffer\<close>

text \<open>
  What \<open>scrubReader\<close> and \<open>signedParamReader\<close> have in common: the source, the bytes carried over, the bytes
  ready to be handed out, and the error of the source (\<open>More\<close> is nil). \<open>fill_loop\<close> is the loop at the head of
  their \<open>Read\<close>. A fill reads the source once, and a source read to its end reports it, so one round more than
  the source has reads is enough.
\<close>

record filler =
  fl_src :: "(string \<times> src_end) list"
  fl_carry :: string
  fl_pending :: string
  fl_err :: src_end

fun fill_loop :: "('a filler_scheme \<Rightarrow> 'a filler_scheme) \<Rightarrow> nat \<Rightarrow> 'a filler_scheme \<Rightarrow> 'a filler_scheme" where
  "fill_loop fill 0 s = s"
| "fill_loop fill (Suc k) s =
     (if fl_pending s = [] \<and> fl_err s = More then fill_loop fill k (fill s) else s)"

definition fill_up :: "('a filler_scheme \<Rightarrow> 'a filler_scheme) \<Rightarrow> 'a filler_scheme \<Rightarrow> 'a filler_scheme" where
  "fill_up fill s = fill_loop fill (Suc (length (fl_src s))) s"

text \<open>What successive reads with buffers of the given sizes return, up to the first that reports an end.\<close>

fun reads :: "(nat \<Rightarrow> 's \<Rightarrow> string \<times> src_end \<times> 's) \<Rightarrow> nat list \<Rightarrow> 's \<Rightarrow> (string \<times> src_end) list" where
  "reads rd [] s = []"
| "reads rd (n # ns) s =
     (case rd n s of (b, e, s') \<Rightarrow> (b, e) # (if e = More then reads rd ns s' else []))"

fun end_of :: "(string \<times> src_end) list \<Rightarrow> src_end" where
  "end_of [] = More"
| "end_of ((b, e) # rest) = (if e = More then end_of rest else e)"

lemma take_drop_append: "take n b @ drop n b @ x = b @ x"
  by (metis append.assoc append_take_drop_id)

text \<open>How a source ends: with its first error, or at its end.\<close>

fun src_ends :: "(string \<times> src_end) list \<Rightarrow> src_end" where
  "src_ends [] = EndOfBody"
| "src_ends ((b, e) # rest) = (if e = More then src_ends rest else e)"

lemma src_ends_not_More [simp]: "src_ends src \<noteq> More"
  by (induction src rule: src_ends.induct) auto

lemma body_of_src_read:
  "src_read src = (buf, e, rest) \<Longrightarrow> body_of src = buf @ (if e = More then body_of rest else [])"
  by (auto simp: src_read_def split: list.splits)

lemma src_ends_src_read: "src_read src = (buf, e, rest) \<Longrightarrow> src_ends src = (if e = More then src_ends rest else e)"
  by (auto simp: src_read_def split: list.splits)

section \<open>The contract of \<open>Read\<close>\<close>

text \<open>
  A reader of this shape: \<open>rd\<close> fills up and hands out from the front; it reports an end only when nothing is
  left and the source has one, and does so at the latest when a buffer gets nothing.
\<close>

locale buffered_reader =
  fixes fill :: "'a filler_scheme \<Rightarrow> 'a filler_scheme"
    and rd :: "nat \<Rightarrow> 'a filler_scheme \<Rightarrow> string \<times> src_end \<times> 'a filler_scheme"
  assumes fill_src: "fl_src (fill s) = snd (snd (src_read (fl_src s)))"
    and fill_err: "fl_err s = More \<Longrightarrow> fl_err (fill s) = fst (snd (src_read (fl_src s)))"
    and rd_bytes: "fst (rd n s) = take n (fl_pending (fill_up fill s))"
    and rd_state: "snd (snd (rd n s)) = fill_up fill s \<lparr>fl_pending := drop n (fl_pending (fill_up fill s))\<rparr>"
    and rd_end: "fst (snd (rd n s)) \<noteq> More \<Longrightarrow>
      fst (snd (rd n s)) = fl_err (fill_up fill s) \<and> drop n (fl_pending (fill_up fill s)) = []"
    and rd_ends: "0 < n \<Longrightarrow> fl_pending (fill_up fill s) = [] \<Longrightarrow> fst (snd (rd n s)) = fl_err (fill_up fill s)"
begin

lemma fill_loop_stops:
  "length (fl_src s) < k \<Longrightarrow> fl_pending (fill_loop fill k s) \<noteq> [] \<or> fl_err (fill_loop fill k s) \<noteq> More"
proof (induction k arbitrary: s)
  case (Suc k)
  show ?case
  proof (cases "fl_pending s = [] \<and> fl_err s = More")
    case True
    show ?thesis
    proof (cases "fl_src s")
      case Nil
      then have "fl_err (fill s) \<noteq> More" using fill_err True by (simp add: src_read_def)
      then show ?thesis using True by (cases k) simp_all
    next
      case (Cons x xs)
      then have "length (fl_src (fill s)) < k" using Suc.prems by (cases x) (simp add: fill_src src_read_def)
      then show ?thesis using Suc.IH True by simp
    qed
  qed auto
qed simp

lemma fill_up_stops: "fl_pending (fill_up fill s) \<noteq> [] \<or> fl_err (fill_up fill s) \<noteq> More"
  unfolding fill_up_def by (rule fill_loop_stops) simp

lemma fill_up_ready: "fl_pending s \<noteq> [] \<or> fl_err s \<noteq> More \<Longrightarrow> fill_up fill s = s"
  by (auto simp: fill_up_def)

lemma fill_up_induct [consumes 1, case_names step]:
  assumes "P s" "\<And>t. P t \<Longrightarrow> fl_pending t = [] \<Longrightarrow> fl_err t = More \<Longrightarrow> P (fill t)"
  shows "P (fill_up fill s)"
proof -
  have "P t \<Longrightarrow> P (fill_loop fill k t)" for k t
    using assms(2) by (induction k arbitrary: t) auto
  from this [OF assms(1)] show ?thesis unfolding fill_up_def .
qed

definition outcome :: "'a filler_scheme \<Rightarrow> src_end" where
  "outcome s = (if fl_err s = More then src_ends (fl_src s) else fl_err s)"

lemma outcome_fill: "fl_err s = More \<Longrightarrow> outcome (fill s) = outcome s"
  using fill_err [of s] fill_src [of s]
  by (cases "src_read (fl_src s)") (auto simp: outcome_def src_ends_src_read)

lemma outcome_fill_up: "outcome (fill_up fill s) = outcome s"
  by (rule fill_up_induct [where P = "\<lambda>t. outcome t = outcome s"]) (simp_all add: outcome_fill)

lemma reads_outcome: "end_of (reads rd ns s) \<noteq> More \<Longrightarrow> end_of (reads rd ns s) = outcome s"
proof (induction ns arbitrary: s)
  case (Cons n ns)
  obtain b e s' where rd: "rd n s = (b, e, s')" by (cases "rd n s")
  have st: "outcome s' = outcome s" using rd_state [of n s] rd outcome_fill_up [of s]
    by (auto simp: outcome_def split: if_splits)
  show ?case
  proof (cases "e = More")
    case True
    then show ?thesis using Cons rd st by simp
  next
    case False
    then have "e = fl_err (fill_up fill s)" using rd_end [of n s] rd by simp
    then show ?thesis using False rd outcome_fill_up [of s] by (simp add: outcome_def)
  qed
qed simp

text \<open>Reading with buffers that are not empty comes to an end.\<close>

lemma drain_ends:
  assumes "\<And>ns. k \<le> length ns \<Longrightarrow> \<forall>n\<in>set ns. 0 < n \<Longrightarrow> end_of (reads rd ns (s\<lparr>fl_pending := []\<rparr>)) \<noteq> More"
    and "length (fl_pending s) + k \<le> length ns" "\<forall>n\<in>set ns. 0 < n"
  shows "end_of (reads rd ns s) \<noteq> More"
  using assms
proof (induction ns arbitrary: s)
  case Nil
  then have "s\<lparr>fl_pending := []\<rparr> = s" by (cases s) simp
  then show ?case using Nil(1) [of "[]"] Nil(2) by simp
next
  case (Cons n ns)
  show ?case
  proof (cases "fl_pending s = []")
    case True
    then have eq: "s\<lparr>fl_pending := []\<rparr> = s" by (cases s) simp
    have "end_of (reads rd (n # ns) (s\<lparr>fl_pending := []\<rparr>)) \<noteq> More"
      using Cons.prems(2,3) True by (intro Cons.prems(1)) auto
    then show ?thesis unfolding eq .
  next
    case False
    then have up: "fill_up fill s = s" by (simp add: fill_up_ready)
    let ?s = "s\<lparr>fl_pending := drop n (fl_pending s)\<rparr>"
    obtain b e where rd: "rd n s = (b, e, ?s)" using rd_state [of n s] up by (cases "rd n s") auto
    have "0 < n" using Cons.prems(3) by simp
    then have "length (drop n (fl_pending s)) < length (fl_pending s)" using False by (cases "fl_pending s") auto
    then have "length (fl_pending ?s) + k \<le> length ns" using Cons.prems(2) by simp
    then have "end_of (reads rd ns ?s) \<noteq> More" using Cons.IH [of ?s] Cons.prems(1,3) by simp
    then show ?thesis using rd by simp
  qed
qed

lemma reading_ends_empty:
  "fl_pending s = [] \<Longrightarrow> \<exists>k. \<forall>ns. k \<le> length ns \<longrightarrow> (\<forall>n\<in>set ns. 0 < n) \<longrightarrow> end_of (reads rd ns s) \<noteq> More"
proof (induction "length (fl_src s) + (if fl_err s = More then 1 else 0)" arbitrary: s rule: less_induct)
  case less
  let ?u = "fill_up fill s"
  have first: "end_of (reads rd (n # ns) s) \<noteq> More" if "0 < n" "fl_pending ?u = []" for n ns
    using rd_ends [OF that] fill_up_stops [of s] that(2) by (cases "rd n s") auto
  show ?case
  proof (cases "fl_pending ?u = []")
    case True
    then show ?thesis using first by (intro exI [of _ 1]) (auto simp: Suc_le_length_iff)
  next
    case False
    then have more: "fl_err s = More" using less.prems by (metis fill_up_ready)
    have shrink: "length (fl_src ?u) + (if fl_err ?u = More then 1 else 0) < Suc (length (fl_src s)) \<or> ?u = s"
    proof (rule fill_up_induct [where s = s and P = "\<lambda>u. length (fl_src u) + (if fl_err u = More then 1 else 0) < Suc (length (fl_src s)) \<or> u = s"], goal_cases)
      case step: (2 t)
      have "length (fl_src (fill t)) + (if fl_err (fill t) = More then 1 else 0) <
          length (fl_src t) + (if fl_err t = More then 1 else 0)"
        using step fill_src [of t] fill_err [of t] by (cases "fl_src t") (auto simp: src_read_def)
      then show ?case using step more by auto
    qed simp
    have small: "length (fl_src ?u) + (if fl_err ?u = More then 1 else 0) < length (fl_src s) + 1"
      using shrink False less.prems by auto
    obtain k where k: "\<And>ns. k \<le> length ns \<Longrightarrow> \<forall>n\<in>set ns. 0 < n \<Longrightarrow> end_of (reads rd ns (?u\<lparr>fl_pending := []\<rparr>)) \<noteq> More"
      using less.hyps [of "?u\<lparr>fl_pending := []\<rparr>"] small more by auto
    have "end_of (reads rd ns s) \<noteq> More" if ns: "Suc (length (fl_pending ?u) + k) \<le> length ns" "\<forall>n\<in>set ns. 0 < n" for ns
    proof -
      obtain n ns' where n: "ns = n # ns'" using ns(1) by (cases ns) auto
      let ?s = "?u\<lparr>fl_pending := drop n (fl_pending ?u)\<rparr>"
      obtain b e where rd: "rd n s = (b, e, ?s)" using rd_state [of n s] by (cases "rd n s") auto
      have "length (fl_pending ?s) + k \<le> length ns'" using ns(1) n by simp
      then have "end_of (reads rd ns' ?s) \<noteq> More"
        using drain_ends [of k ?s ns'] k ns(2) n by simp
      then show ?thesis using rd n by simp
    qed
    then show ?thesis by blast
  qed
qed

lemma reading_ends:
  "\<exists>k. \<forall>ns. k \<le> length ns \<longrightarrow> (\<forall>n\<in>set ns. 0 < n) \<longrightarrow> end_of (reads rd ns s) \<noteq> More"
proof -
  obtain k where "\<And>ns. k \<le> length ns \<Longrightarrow> \<forall>n\<in>set ns. 0 < n \<Longrightarrow> end_of (reads rd ns (s\<lparr>fl_pending := []\<rparr>)) \<noteq> More"
    using reading_ends_empty [of "s\<lparr>fl_pending := []\<rparr>"] by auto
  then show ?thesis using drain_ends [of k s] by blast
qed

end

text \<open>
  An invariant of what was handed out and the state, kept by a fill and by handing out, holds of everything that
  is ever read.
\<close>

locale stream_filter = buffered_reader +
  fixes inv :: "string \<Rightarrow> 'a filler_scheme \<Rightarrow> bool"
  assumes inv_fill: "inv got s \<Longrightarrow> fl_pending s = [] \<Longrightarrow> fl_err s = More \<Longrightarrow> inv got (fill s)"
    and inv_take: "inv got s \<Longrightarrow> inv (got @ take n (fl_pending s)) (s\<lparr>fl_pending := drop n (fl_pending s)\<rparr>)"
begin

lemma inv_fill_up: "inv got s \<Longrightarrow> inv got (fill_up fill s)"
  by (induction rule: fill_up_induct) (auto intro: inv_fill)

lemma reads_inv:
  "inv got s \<Longrightarrow>
   \<exists>s'. inv (got @ body_of (reads rd ns s)) s' \<and>
     (end_of (reads rd ns s) \<noteq> More \<longrightarrow> fl_err s' = end_of (reads rd ns s) \<and> fl_pending s' = [])"
proof (induction ns arbitrary: got s)
  case (Cons n ns)
  let ?u = "fill_up fill s"
  let ?s = "?u\<lparr>fl_pending := drop n (fl_pending ?u)\<rparr>"
  obtain e where rd: "rd n s = (take n (fl_pending ?u), e, ?s)"
    using rd_state [of n s] rd_bytes [of n s] by (cases "rd n s") auto
  have inv: "inv (got @ take n (fl_pending ?u)) ?s" by (rule inv_take [OF inv_fill_up [OF Cons.prems]])
  show ?case
  proof (cases "e = More")
    case True
    then show ?thesis using Cons.IH [OF inv] rd by simp
  next
    case False
    then have "fl_err ?s = e" "fl_pending ?s = []" using rd_end [of n s] rd by simp_all
    then show ?thesis using inv False rd by auto
  qed
qed auto

end

end
