(* ===== verification/Proxy_Download.thy ===== *)
theory Proxy_Download
  imports Proxy_Trackers Go_Stream
begin

text \<open>
  Component: package downloads checked against a lockfile digest (\<^verbatim>\<open>digestReader\<close> of
  \<^verbatim>\<open>proxy/internal/proxy/packages.go\<close>). The digests are a parameter: \<open>H algo data\<close> is the base64 text of the digest
  of \<open>data\<close>. The body of the response is the list of what its reads return: bytes, and how the read ended.
\<close>

datatype read_error = DigestMismatch | SourceError

record digestReader =
  dr_src :: "(string \<times> src_end) list"
  dr_want :: "string list"
  dr_hashed :: string
  dr_held :: string
  dr_out :: string
  dr_done :: bool
  dr_err :: "read_error option"

definition newDigestReader :: "(string \<times> src_end) list \<Rightarrow> string list \<Rightarrow> digestReader" where
  "newDigestReader src want =
     \<lparr>dr_src = src, dr_want = want, dr_hashed = [], dr_held = [], dr_out = [], dr_done = False, dr_err = None\<rparr>"

definition known_algo :: "string \<Rightarrow> bool" where
  "known_algo algo \<longleftrightarrow> algo \<in> {''sha1'', ''sha256'', ''sha384'', ''sha512''}"

definition digest_check :: "(string \<Rightarrow> string \<Rightarrow> string) \<Rightarrow> string list \<Rightarrow> string \<Rightarrow> bool" where
  "digest_check H want hashed \<longleftrightarrow>
     list_ex (\<lambda>w. case CutByte w (CHR ''-'') of (algo, b64) \<Rightarrow> known_algo algo \<and> H algo hashed = b64) want"

text \<open>One round of the loop of \<open>Read\<close>, entered with nothing to hand out, no error and the body not at its end.\<close>

definition dr_round :: "(string \<Rightarrow> string \<Rightarrow> string) \<Rightarrow> digestReader \<Rightarrow> digestReader" where
  "dr_round H d0 =
     (case src_read (dr_src d0) of
        (buf, e, rest) \<Rightarrow>
          let d = (if buf \<noteq> [] then d0 \<lparr>dr_src := rest, dr_hashed := dr_hashed d0 @ buf, dr_out := dr_held d0, dr_held := buf\<rparr>
                   else d0 \<lparr>dr_src := rest\<rparr>) in
          (case e of
             More \<Rightarrow> d
           | EndOfBody \<Rightarrow>
               if digest_check H (dr_want d) (dr_hashed d)
               then d \<lparr>dr_out := dr_out d @ dr_held d, dr_held := [], dr_done := True\<rparr>
               else d \<lparr>dr_out := [], dr_held := [], dr_err := Some DigestMismatch\<rparr>
           | BodyFailed \<Rightarrow> d \<lparr>dr_out := [], dr_held := [], dr_err := Some SourceError\<rparr>))"

definition ended :: "digestReader \<Rightarrow> bool" where
  "ended d \<longleftrightarrow> dr_done d \<or> dr_err d \<noteq> None"

lemma dr_round_progress: "ended (dr_round H d) \<or> length (dr_src (dr_round H d)) < length (dr_src d)"
  by (auto simp: dr_round_def src_read_def ended_def Let_def split: list.splits src_end.splits)

function dr_fill :: "(string \<Rightarrow> string \<Rightarrow> string) \<Rightarrow> digestReader \<Rightarrow> digestReader" where
  "dr_fill H d = (if dr_out d \<noteq> [] \<or> ended d then d else dr_fill H (dr_round H d))"
  by pat_completeness auto
termination
proof (relation "measure (\<lambda>(H, d). if ended d then 0 else Suc (length (dr_src d)))", goal_cases)
  case (2 H d)
  then show ?case using dr_round_progress [of H d] by auto
qed simp

declare dr_fill.simps [simp del]

datatype read_result = ReadBytes string | ReadEOF | ReadFailed read_error

definition digest_Read :: "(string \<Rightarrow> string \<Rightarrow> string) \<Rightarrow> nat \<Rightarrow> digestReader \<Rightarrow> read_result \<times> digestReader" where
  "digest_Read H n d0 =
     (let d = dr_fill H d0 in
      if dr_out d \<noteq> [] then (ReadBytes (take n (dr_out d)), d \<lparr>dr_out := drop n (dr_out d)\<rparr>)
      else (case dr_err d of Some e \<Rightarrow> (ReadFailed e, d) | None \<Rightarrow> (ReadEOF, d)))"

section \<open>Reading to the end\<close>

text \<open>What a reader with buffers of the given sizes receives, and how its last read ended, if it ended.\<close>

fun read_all :: "(string \<Rightarrow> string \<Rightarrow> string) \<Rightarrow> nat list \<Rightarrow> digestReader \<Rightarrow> string \<times> read_result option" where
  "read_all H [] d = ([], None)"
| "read_all H (n # ns) d =
     (case digest_Read H n d of
        (ReadBytes b, d') \<Rightarrow> (case read_all H ns d' of (bs, r) \<Rightarrow> (b @ bs, r))
      | (r, d') \<Rightarrow> ([], Some r))"

text \<open>
  \<open>got\<close> are the bytes handed out so far, \<open>body\<close> the whole body. While the body runs, a byte is held back as soon as
  there is one.
\<close>

definition digest_inv :: "(string \<Rightarrow> string \<Rightarrow> string) \<Rightarrow> string \<Rightarrow> string \<Rightarrow> string list \<Rightarrow> digestReader \<Rightarrow> bool" where
  "digest_inv H body got want d \<longleftrightarrow> dr_want d = want \<and>
     (if dr_done d then dr_err d = None \<and> got @ dr_out d = body \<and> digest_check H want body
      else if dr_err d \<noteq> None then dr_out d = [] \<and> prefix got body \<and> (body \<noteq> [] \<longrightarrow> got \<noteq> body)
      else got @ dr_out d @ dr_held d = dr_hashed d \<and> dr_hashed d @ body_of (dr_src d) = body \<and>
        (dr_hashed d \<noteq> [] \<longrightarrow> dr_held d \<noteq> []))"

lemma digest_inv_start: "digest_inv H (body_of src) [] want (newDigestReader src want)"
  by (simp add: digest_inv_def newDigestReader_def)

lemma prefix_cut: "got @ rest = body \<Longrightarrow> (body \<noteq> [] \<longrightarrow> rest \<noteq> []) \<Longrightarrow> prefix got body \<and> (body \<noteq> [] \<longrightarrow> got \<noteq> body)"
  by auto

lemma digest_round_inv:
  assumes inv: "digest_inv H body got want d" and run: "\<not> ended d" "dr_out d = []"
  shows "digest_inv H body got want (dr_round H d)"
proof -
  obtain buf e rest where src: "src_read (dr_src d) = (buf, e, rest)" by (metis prod.exhaust)
  have body: "body_of (dr_src d) = (if e = More then buf @ body_of rest else buf)"
    using src by (auto simp: src_read_def split: list.splits)
  have d: "dr_want d = want" "\<not> dr_done d" "dr_err d = None" "got @ dr_held d = dr_hashed d"
    "dr_hashed d @ body_of (dr_src d) = body" "dr_hashed d \<noteq> [] \<longrightarrow> dr_held d \<noteq> []"
    using inv run by (auto simp: digest_inv_def ended_def)
  show ?thesis
  proof (cases e)
    case More
    then show ?thesis using d body by (auto simp: dr_round_def src Let_def digest_inv_def run(2))
  next
    case EndOfBody
    then have h: "dr_hashed d @ buf = body" using d(5) body by simp
    then have b: "got @ dr_held d @ buf = body" using d(4) by (metis append.assoc)
    then have "digest_inv H body got want (dr_round H d)" if "buf = []"
      using EndOfBody that d(1-4,6) h prefix_cut [of got "dr_held d @ buf" body]
      by (auto simp: dr_round_def src Let_def digest_inv_def run(2))
    moreover have "digest_inv H body got want (dr_round H d)" if "buf \<noteq> []"
      using EndOfBody that d(1-4,6) h b prefix_cut [of got "dr_held d @ buf" body]
      by (auto simp: dr_round_def src Let_def digest_inv_def run(2))
    ultimately show ?thesis by blast
  next
    case BodyFailed
    then have b: "got @ dr_held d @ buf = body" using d body by (metis append.assoc src_end.distinct(3))
    moreover have "body \<noteq> [] \<longrightarrow> dr_held d @ buf \<noteq> []" using b d by auto
    ultimately show ?thesis
      using BodyFailed d prefix_cut [of got "dr_held d @ buf" body] by (auto simp: dr_round_def src Let_def digest_inv_def)
  qed
qed

lemma digest_fill_inv: "digest_inv H body got want d \<Longrightarrow> digest_inv H body got want (dr_fill H d)"
proof (induction H d rule: dr_fill.induct)
  case (1 H d)
  show ?case
  proof (cases "dr_out d \<noteq> [] \<or> ended d")
    case True
    then show ?thesis using 1 by (subst dr_fill.simps) simp
  next
    case False
    then have "dr_fill H d = dr_fill H (dr_round H d)" by (subst dr_fill.simps) simp
    then show ?thesis using 1 digest_round_inv False by auto
  qed
qed

lemma dr_fill_ends: "dr_out (dr_fill H d) \<noteq> [] \<or> ended (dr_fill H d)"
proof (induction H d rule: dr_fill.induct)
  case (1 H d)
  then show ?case by (cases "dr_out d \<noteq> [] \<or> ended d") (auto simp: dr_fill.simps [of H d])
qed

lemma digest_inv_out:
  assumes "digest_inv H body got want d" "dr_out d \<noteq> []"
  shows "digest_inv H body (got @ take n (dr_out d)) want (d \<lparr>dr_out := drop n (dr_out d)\<rparr>)"
  using assms append_take_drop_id [of n "dr_out d"] unfolding digest_inv_def
  by (auto split: if_splits simp del: append_take_drop_id) (metis append.assoc)+

lemma digest_inv_got:
  assumes "digest_inv H body got want d"
  shows "prefix got body \<and> (\<not> digest_check H want body \<and> body \<noteq> [] \<longrightarrow> got \<noteq> body)"
proof (cases "ended d")
  case True
  then show ?thesis using assms by (auto simp: digest_inv_def ended_def split: if_splits)
next
  case False
  then have "got @ dr_out d @ dr_held d @ body_of (dr_src d) = body" "dr_hashed d \<noteq> [] \<longrightarrow> dr_held d \<noteq> []"
    "got @ dr_out d @ dr_held d = dr_hashed d"
    using assms by (auto simp: digest_inv_def ended_def)
  then show ?thesis by auto
qed

lemma read_all_inv:
  assumes "digest_inv H body got want d" "read_all H ns d = (bs, r)"
  shows "prefix (got @ bs) body \<and> (r = Some ReadEOF \<longrightarrow> got @ bs = body \<and> digest_check H want body) \<and>
    (\<not> digest_check H want body \<and> body \<noteq> [] \<longrightarrow> got @ bs \<noteq> body)"
  using assms
proof (induction H ns d arbitrary: got bs r rule: read_all.induct)
  case (1 H d)
  then show ?case using digest_inv_got by fastforce
next
  case (2 H n ns d)
  let ?d = "dr_fill H d"
  have inv: "digest_inv H body got want ?d" using "2.prems"(1) by (rule digest_fill_inv)
  show ?case
  proof (cases "dr_out ?d = []")
    case False
    then have rd: "digest_Read H n d = (ReadBytes (take n (dr_out ?d)), ?d \<lparr>dr_out := drop n (dr_out ?d)\<rparr>)"
      by (simp add: digest_Read_def Let_def)
    obtain bs' where "bs = take n (dr_out ?d) @ bs'" "read_all H ns (?d \<lparr>dr_out := drop n (dr_out ?d)\<rparr>) = (bs', r)"
      using "2.prems"(2) rd by (auto split: prod.splits)
    then show ?thesis using "2.IH" [OF rd [symmetric] refl digest_inv_out [OF inv False]] by simp
  next
    case True
    then have "ended ?d" using dr_fill_ends [of H d] by simp
    then show ?thesis using True inv "2.prems"(2)
      by (cases "dr_err ?d") (auto simp: digest_Read_def Let_def digest_inv_def ended_def split: if_splits)
  qed
qed

text \<open>C27: A package reaches the agent whole only with a digest the lockfile pins: however the body arrives and is read, what
  is delivered is a prefix of it; a read reports the end of the body only when all of it was delivered and its digest
  is one of those wanted; and of a body with another digest some bytes are never delivered.
\<close>

theorem package_delivered_only_intact:
  assumes "read_all H ns (newDigestReader src want) = (got, r)"
  shows "prefix got (body_of src) \<and>
    (r = Some ReadEOF \<longrightarrow> got = body_of src \<and> digest_check H want (body_of src)) \<and>
    (\<not> digest_check H want (body_of src) \<and> body_of src \<noteq> [] \<longrightarrow> got \<noteq> body_of src)"
  using read_all_inv [OF digest_inv_start assms] by simp

definition sample_chunks :: "(string \<times> src_end) list" where
  "sample_chunks = [(''ab'', More), (''cd'', More), (''e'', EndOfBody)]"

text \<open>With a toy digest: the pinned download arrives whole, one byte changed and it is cut.\<close>

theorem package_delivered_only_intact_witness:
  "read_all (\<lambda>a d. d) [3, 3, 3, 3] (newDigestReader sample_chunks [''sha1-abcde'']) = (''abcde'', Some ReadEOF) \<and>
   (\<exists>got r. read_all (\<lambda>a d. d) [3, 3, 3, 3] (newDigestReader sample_chunks [''sha1-abXde'']) = (got, r) \<and> got \<noteq> body_of sample_chunks)"
proof -
  have 1: "read_all (\<lambda>a d. d) [3, 3, 3, 3] (newDigestReader sample_chunks [''sha1-abcde'']) = (''abcde'', Some ReadEOF)" by code_simp
  obtain got r where 2: "read_all (\<lambda>a d. d) [3, 3, 3, 3] (newDigestReader sample_chunks [''sha1-abXde'']) = (got, r)" by fastforce
  have "\<not> digest_check (\<lambda>a d. d) [''sha1-abXde''] (body_of sample_chunks)" "body_of sample_chunks \<noteq> []" by code_simp+
  then show ?thesis using package_delivered_only_intact [OF 2] 1 2 by blast
qed

end
