(* ===== verification/Proxy_Request.thy ===== *)
theory Proxy_Request
  imports Proxy_Git Proxy_Creds Proxy_Agents
begin

text \<open>
  Component: the request pipeline of the proxy (\<^verbatim>\<open>ServeHTTP\<close> and \<^verbatim>\<open>handleRequest\<close> of
  \<^verbatim>\<open>proxy/internal/proxy/proxy.go\<close>, with \<^verbatim>\<open>body.go\<close>, \<^verbatim>\<open>hardening.go\<close>, \<^verbatim>\<open>receipt.go\<close> and \<^verbatim>\<open>modelgate.go\<close>). One
  request is followed from the client to the point where it is sent or refused. What happens outside while it is
  handled is the record \<open>outside\<close>: the answers of the gateway and of people (the outcomes of \<open>awaitEscalation\<close> and
  \<open>askAction\<close>), the trackers as the request finds them, name resolution, minted tokens, whether receipts reach the disk,
  and the findings of the gates that are not modelled here (MCP, API operations, content scanning, lockfile names).
\<close>

section \<open>Headers\<close>

type_synonym headers = "(string, string list) gomap"

text \<open>
  \<^verbatim>\<open>http.Header\<close> finds a name under its canonical spelling. The names of a received header are in that spelling, since
  the server of \<^verbatim>\<open>net/http\<close> canonicalizes the valid ones and refuses the others; for them, and for a name that is no
  valid one, comparing without regard to case finds the same entries. A name that is set keeps its spelling here.
\<close>

definition header_Del :: "string \<Rightarrow> headers \<Rightarrow> headers" where
  "header_Del k h = filter (\<lambda>(n, vs). \<not> EqualFold n k) h"

definition header_Set :: "string \<Rightarrow> string \<Rightarrow> headers \<Rightarrow> headers" where
  "header_Set k v h = header_Del k h @ [(k, [v])]"

definition header_first :: "string \<Rightarrow> headers \<Rightarrow> string" where
  "header_first k h = (case find (\<lambda>(n, vs). EqualFold n k) h of Some (n, v # vs) \<Rightarrow> v | _ \<Rightarrow> [])"

definition hopHeaders :: "string list" where
  "hopHeaders = [''Connection'', ''Keep-Alive'', ''Proxy-Authenticate'', ''Proxy-Authorization'', ''Proxy-Connection'', ''TE'',
     ''Trailer'', ''Transfer-Encoding'', ''Upgrade'']"

definition stripHopHeaders :: "headers \<Rightarrow> headers" where
  "stripHopHeaders h =
     fold header_Del hopHeaders
       (fold header_Del (filter (\<lambda>t. t \<noteq> []) (map TrimSpace (SplitByte (CHR '','') (header_first ''Connection'' h)))) h)"

definition methodOverrideHeaders :: "string list" where
  "methodOverrideHeaders = [''X-HTTP-Method-Override'', ''X-HTTP-Method'', ''X-Method-Override'']"

definition stripMethodOverride :: "headers \<Rightarrow> headers" where
  "stripMethodOverride h = fold header_Del methodOverrideHeaders h"

definition credentialHeaders :: "string list" where
  "credentialHeaders = [''Authorization'', ''X-Api-Key'', ''Api-Key'', ''X-Auth-Token'', ''X-Goog-Api-Key'', ''Private-Token'',
     ''Job-Token'', ''X-Access-Token'', ''X-Token'', ''Cookie'']"

definition credential_named :: "string \<Rightarrow> bool" where
  "credential_named k \<longleftrightarrow>
     (let lk = ToLower k in Contains lk ''api-key'' \<or> Contains lk ''apikey'' \<or> Contains lk ''token'' \<or> Contains lk ''secret'')"

definition stripCredentialHeaders :: "headers \<Rightarrow> headers" where
  "stripCredentialHeaders h = filter (\<lambda>(k, vs). \<not> credential_named k) (fold header_Del credentialHeaders h)"

section \<open>Reads that carry data\<close>

definition maxReadQueryBytes :: int where "maxReadQueryBytes = 512"
definition freeStandardHeaderBytes :: int where "freeStandardHeaderBytes = 256"

definition standardHeaders :: "string list" where
  "standardHeaders = [''Accept'', ''Accept-Encoding'', ''User-Agent'', ''Content-Length'', ''Content-Type'', ''Connection'', ''Host'']"

definition notForwarded :: "string \<Rightarrow> bool" where
  "notForwarded name \<longleftrightarrow>
     EqualFold name ''Proxy-Authorization'' \<or> list_ex (EqualFold name) hopHeaders \<or> list_ex (EqualFold name) methodOverrideHeaders"

definition header_bytes :: "string \<times> string list \<Rightarrow> int" where
  "header_bytes kv =
     (case kv of (k, vv) \<Rightarrow>
        if notForwarded k then 0
        else sum_list (map (\<lambda>v. let size = int (length k + length v) in
               if list_ex (EqualFold k) standardHeaders \<and> size \<le> freeStandardHeaderBytes then 0 else size) vv))"

definition readRequestBytes :: "http_request \<Rightarrow> int" where
  "readRequestBytes r =
     int (length (EscapedPath (rq_URL r)) + length (RawQuery (rq_URL r))) + sum_list (map header_bytes (rq_Header r))"

definition readCarriesData :: "int \<Rightarrow> http_request \<Rightarrow> string" where
  "readCarriesData maxReadRequest r =
     (if \<not> EqualFold (rq_Method r) ''GET'' \<and> \<not> EqualFold (rq_Method r) ''HEAD'' then []
      else if 0 < rq_ContentLength r \<or> rq_TransferEncoding r \<noteq> [] then ''read_with_body''
      else if maxReadQueryBytes < int (length (RawQuery (rq_URL r))) then ''read_with_large_query''
      else if maxReadRequest < readRequestBytes r then ''read_request_too_large''
      else [])"

section \<open>Bodies and resources\<close>

record limits =
  lm_maxHeldBody :: int
  lm_maxPush :: int
  lm_maxUploadPack :: int
  lm_maxReadRequest :: int

definition defaultLimits :: limits where
  "defaultLimits = \<lparr>lm_maxHeldBody = 1048576, lm_maxPush = 268435456, lm_maxUploadPack = 1048576, lm_maxReadRequest = 2048\<rparr>"

definition maxModelBody :: int where "maxModelBody = 33554432"

definition bodyLimit :: "limits \<Rightarrow> string list option \<Rightarrow> http_request \<Rightarrow> int" where
  "bodyLimit lm modelHosts r =
     (let p = ToLower (EscapedPath (rq_URL r)) in
      if rq_Method r = ''POST'' \<and> Contains p ''git-receive-pack'' then lm_maxPush lm
      else if rq_Method r = ''POST'' \<and> Contains p ''git-upload-pack'' then max (lm_maxHeldBody lm) (lm_maxUploadPack lm)
      else if rq_Method r \<noteq> ''GET'' \<and> rq_Method r \<noteq> ''HEAD'' \<and> isModelHost modelHosts (Hostname (rq_URL r))
        then max (lm_maxHeldBody lm) maxModelBody
      else lm_maxHeldBody lm)"

text \<open>The body a client sends: its bytes, and whether the connection fails after them.\<close>

datatype client_body = EmptyBody | BodyBytes string bool

datatype hold_error = BodyTooLarge | BodyUnreadable

definition held_of_bytes :: "string \<Rightarrow> heldBody" where
  "held_of_bytes data = \<lparr>hd_size = int (length data), hd_head = take (nat gitBodyPeek) data, hd_mem = data\<rparr>"

text \<open>Reading stops one byte past the limit, so a failure behind that byte is not seen.\<close>

definition holdBody :: "http_request \<Rightarrow> client_body \<Rightarrow> int \<Rightarrow> hold_error + (heldBody option \<times> http_request)" where
  "holdBody r body limit =
     (case body of
        EmptyBody \<Rightarrow> Inr (None, r)
      | BodyBytes data fails \<Rightarrow>
          if limit < rq_ContentLength r then Inl BodyTooLarge
          else if limit < int (length data) then Inl BodyTooLarge
          else if fails then Inl BodyUnreadable
          else if data = [] then Inr (None, r \<lparr>rq_ContentLength := 0, rq_TransferEncoding := []\<rparr>)
          else Inr (Some (held_of_bytes data), r \<lparr>rq_ContentLength := int (length data), rq_TransferEncoding := []\<rparr>))"

definition maxResourceBytes :: int where "maxResourceBytes = 2048"

text \<open>Whether the resource has to be cut; a request whose resource is cut is refused.\<close>

definition resource_cut :: "string \<Rightarrow> bool" where
  "resource_cut s \<longleftrightarrow> maxResourceBytes < int (length s)"

text \<open>
  \<open>redactURL\<close> is the URL without query, fragment and user: scheme, host and escaped path. The host is written as it
  was parsed.
\<close>

definition redactURL :: "url \<Rightarrow> string" where
  "redactURL u =
     (let p = EscapedPath u in
      Scheme u @ (if Scheme u \<noteq> [] then '':'' else []) @
      (if (Scheme u \<noteq> [] \<or> Host u \<noteq> []) \<and> (Host u \<noteq> [] \<or> Path u \<noteq> []) then ''//'' @ Host u else []) @
      (if p \<noteq> [] \<and> \<not> HasPrefix p ''/'' \<and> Host u \<noteq> [] then ''/'' else []) @ p)"

section \<open>Outside\<close>

record server =
  sv_failOpen :: bool
  sv_gitGate :: bool
  sv_sensitiveHosts :: "string list"
  sv_modelHosts :: "string list option"
  sv_modelGateNoAsk :: bool
  sv_limits :: limits
  sv_bindings :: "unit Binding list"
  sv_guard :: guard
  sv_connectPort443 :: bool
  sv_escalateRetry :: bool

record refusal =
  rf_decision :: string
  rf_status :: int
  rf_reasons :: "string list"

record api_op =
  ao_action :: string
  ao_resource :: string
  ao_read :: bool
  ao_refuse :: string
  ao_status :: int

record outside =
  os_registry :: agentRegistry
  os_check :: "string \<Rightarrow> string \<Rightarrow> Decision option"
  os_escalation :: "string \<times> string"
  os_ask :: "string \<Rightarrow> string \<Rightarrow> string \<times> string"
  os_joined :: "string \<Rightarrow> string \<times> string"
  os_readBody :: "http_request \<Rightarrow> heldBody option \<Rightarrow> string \<times> heldBody option \<times> http_request"
  os_mcp :: "refusal option"
  os_package :: "string option"
  os_api :: "api_op option"
  os_content :: "string"
  os_gunzip :: "string \<Rightarrow> string option"
  os_media :: "string \<Rightarrow> string option"
  os_now :: time
  os_taint :: "taintTracker option"
  os_flows :: "flowTracker option"
  os_budget :: "egressBudget option"
  os_openReads :: "openReads option"
  os_modelBudget :: "modelBudget option"
  os_pkgGate :: "packageGate option"
  os_lookup :: "string \<Rightarrow> ip list option"
  os_mint :: "unit Binding \<Rightarrow> string option"
  os_attempt :: bool

section \<open>The questions\<close>

text \<open>A question leads to an outcome and an approval id; a section that finds a question in flight takes its outcome.\<close>

definition shared_outcome :: "string \<times> string \<Rightarrow> string \<times> string" where
  "shared_outcome p = (if lets_go (fst p) then (pkgAllow, snd p) else p)"

definition ask_or_join :: "outside \<Rightarrow> open_step \<Rightarrow> string \<Rightarrow> string \<Rightarrow> string \<times> string" where
  "ask_or_join os st action resource =
     (case st of
        Admitted \<Rightarrow> (pkgAllow, [])
      | JoinQuestion \<Rightarrow> shared_outcome (os_joined os resource)
      | StartQuestion \<Rightarrow> shared_outcome (os_ask os action resource))"

definition checkTaint :: "server \<Rightarrow> outside \<Rightarrow> string \<Rightarrow> http_request \<Rightarrow> string \<Rightarrow> string \<Rightarrow> (string \<times> string) \<times> string" where
  "checkTaint sv os agent r url host =
     (case fst (taintedWrite (sv_modelHosts sv) (os_now os) agent r host (os_taint os)) of
        None \<Rightarrow> ((pkgAllow, []), [])
      | Some (m, age) \<Rightarrow>
          (os_ask os ''taint.write'' (''taint:'' @ rq_Method r @ '' '' @ url), ''tainted_by:'' @ tm_source m))"

definition checkFlows :: "outside \<Rightarrow> string \<Rightarrow> http_request \<Rightarrow> string \<Rightarrow> (string \<times> string) \<times> string" where
  "checkFlows os agent r url =
     (case os_flows os of
        None \<Rightarrow> ((pkgAllow, []), [])
      | Some t \<Rightarrow>
          if \<not> flow_covers r then ((pkgAllow, []), [])
          else (case fst (violated (os_now os) agent (matchURL (rq_URL r)) t) of
                  None \<Rightarrow> ((pkgAllow, []), [])
                | Some (f, m, age) \<Rightarrow>
                    let reason = ''flow:'' @ fr_name f in
                    if fr_deny f then ((pkgDeny, []), reason)
                    else (os_ask os ''flow.write'' (''flow:'' @ fr_name f @ '' '' @ rq_Method r @ '' '' @ url), reason)))"

definition isModelCall :: "server \<Rightarrow> outside \<Rightarrow> http_request \<Rightarrow> bool" where
  "isModelCall sv os r \<longleftrightarrow>
     os_modelBudget os \<noteq> None \<and> \<not> isReadMethod (rq_Method r) \<and> isModelHost (sv_modelHosts sv) (normalizeHost (Hostname (rq_URL r)))"

definition checkModelBudget :: "server \<Rightarrow> outside \<Rightarrow> string \<Rightarrow> http_request \<Rightarrow> string \<Rightarrow> string \<times> string" where
  "checkModelBudget sv os agent r host =
     (case os_modelBudget os of
        None \<Rightarrow> (pkgAllow, [])
      | Some b \<Rightarrow>
          if \<not> isModelCall sv os r then (pkgAllow, [])
          else ask_or_join os (fst (model_begin (agent @ '' '' @ host) b)) ''model.budget'' (''model-budget:'' @ host))"

definition checkOpenHosts :: "outside \<Rightarrow> string \<Rightarrow> string \<Rightarrow> string \<times> string" where
  "checkOpenHosts os agent host =
     (case os_openReads os of
        None \<Rightarrow> (pkgAllow, [])
      | Some b \<Rightarrow> ask_or_join os (fst (open_begin agent host b)) ''egress.open_hosts'' (''host:'' @ host))"

definition checkBudget :: "outside \<Rightarrow> string \<Rightarrow> int \<Rightarrow> string \<times> string" where
  "checkBudget os host n =
     (case os_budget os of
        None \<Rightarrow> (pkgAllow, [])
      | Some b \<Rightarrow>
          if fst (budget_take (os_now os) host n b) then (pkgAllow, [])
          else ask_or_join os (if fst (budget_join (os_now os) host b) then JoinQuestion else StartQuestion)
                 ''egress.budget'' (''budget:'' @ host))"

definition checkPackage :: "outside \<Rightarrow> string \<Rightarrow> string \<times> string" where
  "checkPackage os ref =
     (case os_pkgGate os of
        None \<Rightarrow> (pkgAllow, [])
      | Some g \<Rightarrow> ask_or_join os (fst (package_begin ref g)) ''package.install'' ref)"

section \<open>Receipts of one request\<close>

record facts =
  fc_reasons :: "string list"
  fc_approvals :: "string list"
  fc_approvalID :: string

definition no_facts :: facts where
  "no_facts = \<lparr>fc_reasons = [], fc_approvals = [], fc_approvalID = []\<rparr>"

definition noteApproval :: "string \<Rightarrow> facts \<Rightarrow> facts" where
  "noteApproval aid f =
     (if aid = [] then f
      else f \<lparr>fc_approvalID := aid, fc_approvals := (if aid \<in> set (fc_approvals f) then fc_approvals f else fc_approvals f @ [aid])\<rparr>)"

definition add_reason :: "string \<Rightarrow> facts \<Rightarrow> facts" where
  "add_reason reason f = (if reason = [] then f else f \<lparr>fc_reasons := fc_reasons f @ [reason]\<rparr>)"

definition heldAnswer :: "server \<Rightarrow> int" where
  "heldAnswer sv = (if sv_escalateRetry sv then 503 else 504)"

definition refuse :: "string \<Rightarrow> int \<Rightarrow> string list \<Rightarrow> refusal" where
  "refuse decision status reasons = \<lparr>rf_decision = decision, rf_status = status, rf_reasons = reasons\<rparr>"

definition second :: "server \<Rightarrow> string \<times> string \<Rightarrow> string list \<Rightarrow> facts \<Rightarrow> refusal + facts" where
  "second sv outcome about f0 =
     (let f = noteApproval (snd outcome) f0; o' = fst outcome in
      if lets_go o' then Inr f
      else if o' = pkgTimeout then Inl (refuse gwEscalate (heldAnswer sv) about)
      else if o' = pkgAborted then Inl (refuse gwEscalate 0 [])
      else if o' = pkgError then Inl (refuse gwDeny 502 about)
      else Inl (refuse gwDeny 403 about))"

definition and_then :: "'e + 'a \<Rightarrow> ('a \<Rightarrow> 'e + 'b) \<Rightarrow> 'e + 'b" where
  "and_then x f = (case x of Inl e \<Rightarrow> Inl e | Inr a \<Rightarrow> f a)"

lemma and_then_Inr [simp]: "and_then x f = Inr b \<longleftrightarrow> (\<exists>a. x = Inr a \<and> f a = Inr b)"
  by (cases x) (auto simp: and_then_def)

section \<open>Before policy\<close>

record admitted =
  ad_request :: http_request
  ad_body :: "heldBody option"
  ad_modelWhy :: string
  ad_url :: string

definition admit_request :: "server \<Rightarrow> outside \<Rightarrow> agentIdentity \<Rightarrow> http_request \<Rightarrow> client_body \<Rightarrow> refusal + admitted" where
  "admit_request sv os agent r0 body =
     (let r = r0 \<lparr>rq_Method := ToUpper (rq_Method r0)\<rparr> in
      if isStopped (os_registry os) (id_name agent) then Inl (refuse gwDeny 403 [''agent_stopped''])
      else if \<not> accepted (os_registry os) agent then Inl (refuse gwDeny 403 [''agent_removed''])
      else (case holdBody r body (bodyLimit (sv_limits sv) (sv_modelHosts sv) r) of
              Inl BodyTooLarge \<Rightarrow> Inl (refuse gwDeny 413 [''body_too_large_to_review''])
            | Inl BodyUnreadable \<Rightarrow> Inl (refuse gwDeny 400 [''body_unreadable''])
            | Inr (hb0, r1) \<Rightarrow>
                (case os_readBody os r1 hb0 of
                   (why, hb, r2) \<Rightarrow>
                     let url = redactURL (rq_URL r2) @ gitResourceSuffix (sv_gitGate sv) r2 hb in
                     if resource_cut url then Inl (refuse gwDeny 403 [''resource_too_long''])
                     else if outOfScope (os_registry os) (id_name agent) (rq_Method r2 @ '' '' @ url)
                       then Inl (refuse gwDeny 403 [''agent_scope''])
                     else Inr \<lparr>ad_request = r2, ad_body = hb, ad_modelWhy = why, ad_url = url\<rparr>)))"

section \<open>Policy\<close>

definition modelAskable :: "string \<Rightarrow> bool" where
  "modelAskable why \<longleftrightarrow> why \<in> {''model_request_mcp_connector'', ''model_request_remote_url'', ''model_request_server_tool'', ''model_request_not_json''}"

record decided =
  dc_decision :: Decision
  dc_failedOpen :: bool
  dc_modelFinding :: string
  dc_facts :: facts

definition deny_because :: "string \<Rightarrow> Decision \<Rightarrow> Decision" where
  "deny_because why d = d \<lparr>gd_Decision := gwDeny, gd_ReasonCodes := gd_ReasonCodes d @ [why]\<rparr>"

definition open_decision :: Decision where
  "open_decision = \<lparr>gd_Decision = gwAllow, gd_DecisionID = [], gd_ReasonCodes = [], gd_ApprovalID = [], gd_MatchedRule = []\<rparr>"

text \<open>The guards on a request that policy allowed; the finding of the model gate is asked about later.\<close>

definition guard_allow :: "server \<Rightarrow> outside \<Rightarrow> admitted \<Rightarrow> bool \<Rightarrow> Decision \<Rightarrow> Decision \<times> string" where
  "guard_allow sv os a failedOpen d0 =
     (let d = (if gd_Decision d0 = gwAllow \<and> matchHostGlob (sv_sensitiveHosts sv) (Hostname (rq_URL (ad_request a)))
               then deny_because ''sensitive_host'' d0 else d0);
          lm = sv_limits sv; data = readCarriesData (lm_maxReadRequest lm) (ad_request a);
          git = allowedGitRefusal (os_gunzip os) (os_media os) (sv_gitGate sv) (lm_maxUploadPack lm) (ad_request a) (ad_body a) (ad_url a) in
      if gd_Decision d \<noteq> gwAllow \<or> failedOpen then (d, [])
      else if data \<noteq> [] then (deny_because data d, [])
      else if git \<noteq> [] then (deny_because git d, [])
      else if ad_modelWhy a \<noteq> [] then
        (if sv_modelGateNoAsk sv \<or> \<not> modelAskable (ad_modelWhy a) then (deny_because (ad_modelWhy a) d, []) else (d, ad_modelWhy a))
      else (d, []))"

definition policy_decision :: "server \<Rightarrow> outside \<Rightarrow> admitted \<Rightarrow> refusal + decided" where
  "policy_decision sv os a =
     (case os_check os (rq_Method (ad_request a)) (ad_url a) of
        None \<Rightarrow>
          if \<not> sv_failOpen sv then Inl (refuse gwDeny 502 [''gateway_unreachable''])
          else (case guard_allow sv os a True open_decision of
                  (d, finding) \<Rightarrow> Inr \<lparr>dc_decision = d, dc_failedOpen = True, dc_modelFinding = finding,
                    dc_facts = add_reason ''gateway_unreachable_fail_open'' no_facts\<rparr>)
      | Some d0 \<Rightarrow>
          (case guard_allow sv os a False d0 of
             (d, finding) \<Rightarrow> Inr \<lparr>dc_decision = d, dc_failedOpen = False, dc_modelFinding = finding, dc_facts = no_facts\<rparr>))"

text \<open>What the decision leads to: on, a person, or a refusal. Any other word of the gateway is a refusal.\<close>

definition settle_decision :: "server \<Rightarrow> outside \<Rightarrow> decided \<Rightarrow> refusal + decided" where
  "settle_decision sv os dc =
     (let d = dc_decision dc; dec = gd_Decision d in
      if dec = gwAllow then Inr dc
      else if dec = gwDeny then Inl (refuse gwDeny 403 (gd_ReasonCodes d))
      else if dec = gwEscalate then
        (case os_escalation os of
           (outcome, aid) \<Rightarrow>
             let f = noteApproval aid (dc_facts dc) in
             if outcome = pkgApproved then Inr (dc \<lparr>dc_facts := f\<rparr>)
             else if outcome = pkgTimeout then Inl (refuse gwEscalate (heldAnswer sv) [])
             else if outcome = pkgAborted then Inl (refuse gwEscalate 0 [])
             else if outcome = ''used'' then Inl (refuse gwEscalate 403 [''approval_used''])
             else if outcome = outcomeUnattended then Inl (refuse gwDeny 403 [outcomeUnattended])
             else Inl (refuse gwEscalate 403 (gd_ReasonCodes d)))
      else Inl (refuse gwDeny 502 []))"

section \<open>Second questions\<close>

definition ask_package :: "server \<Rightarrow> outside \<Rightarrow> facts \<Rightarrow> refusal + facts" where
  "ask_package sv os f =
     (case os_package os of
        None \<Rightarrow> Inr f
      | Some ref \<Rightarrow> second sv (checkPackage os ref) [] f)"

definition ask_api :: "server \<Rightarrow> outside \<Rightarrow> facts \<Rightarrow> refusal + facts" where
  "ask_api sv os f =
     (case os_api os of
        None \<Rightarrow> Inr f
      | Some ao \<Rightarrow>
          if ao_refuse ao \<noteq> [] then Inl (refuse gwDeny (ao_status ao) [ao_refuse ao])
          else let f' = add_reason (''operation:'' @ ao_resource ao) f in
            if ao_read ao then Inr f' else second sv (os_ask os (ao_action ao) (ao_resource ao)) [ao_action ao] f')"

definition ask_model_feature :: "server \<Rightarrow> outside \<Rightarrow> admitted \<Rightarrow> string \<Rightarrow> facts \<Rightarrow> refusal + facts" where
  "ask_model_feature sv os a finding f =
     (if finding = [] then Inr f
      else second sv (os_ask os ''model.server_feature'' (''model:'' @ normalizeHost (Hostname (rq_URL (ad_request a))) @ '' '' @ finding)) [finding] f)"

definition ask_content :: "server \<Rightarrow> outside \<Rightarrow> admitted \<Rightarrow> facts \<Rightarrow> refusal + facts" where
  "ask_content sv os a f =
     (if os_content os = [] then Inr f
      else second sv (os_ask os ''content.sensitive'' (''content:'' @ os_content os @ '' '' @ rq_Method (ad_request a) @ '' '' @ ad_url a))
             [''sensitive_content''] (add_reason (''content:'' @ os_content os) f))"

definition agentQuestions :: "server \<Rightarrow> outside \<Rightarrow> string \<Rightarrow> admitted \<Rightarrow> facts \<Rightarrow> refusal + facts" where
  "agentQuestions sv os agent a f =
     (let r = ad_request a; host = normalizeHost (Hostname (rq_URL r)) in
      case checkTaint sv os agent r (ad_url a) host of
        (taint, why) \<Rightarrow>
          and_then (second sv taint [''tainted_write''] (add_reason why f)) (\<lambda>f1.
            case checkFlows os agent r (ad_url a) of
              (flow, why2) \<Rightarrow>
                and_then (second sv flow [''flow_write''] (add_reason why2 f1)) (\<lambda>f2.
                  second sv (checkModelBudget sv os agent r host) [''model_budget_exceeded''] f2)))"

definition request_size :: "server \<Rightarrow> admitted \<Rightarrow> string \<Rightarrow> int" where
  "request_size sv a host =
     readRequestBytes (ad_request a) +
     (case ad_body a of None \<Rightarrow> 0 | Some hb \<Rightarrow> if isModelHost (sv_modelHosts sv) host then 0 else hd_size hb)"

definition meter :: "server \<Rightarrow> outside \<Rightarrow> string \<Rightarrow> admitted \<Rightarrow> Decision \<Rightarrow> facts \<Rightarrow> refusal + facts" where
  "meter sv os agent a d f =
     (let r = ad_request a; host = normalizeHost (Hostname (rq_URL r)) in
      and_then (if isOpenRead (gd_MatchedRule d) (gd_Decision d) (rq_Method r)
                then second sv (checkOpenHosts os agent host) [''open_hosts_exceeded''] f else Inr f)
        (\<lambda>f1. second sv (checkBudget os host (request_size sv a host)) [''egress_budget_exceeded''] f1))"

definition second_questions :: "server \<Rightarrow> outside \<Rightarrow> string \<Rightarrow> admitted \<Rightarrow> decided \<Rightarrow> refusal + facts" where
  "second_questions sv os agent a dc =
     (if gd_Decision (dc_decision dc) \<noteq> gwAllow \<or> dc_failedOpen dc then Inr (dc_facts dc)
      else
        and_then (ask_package sv os (dc_facts dc)) (\<lambda>f1.
        and_then (ask_api sv os f1) (\<lambda>f2.
        and_then (ask_model_feature sv os a (dc_modelFinding dc) f2) (\<lambda>f3.
        and_then (ask_content sv os a f3) (\<lambda>f4.
        and_then (agentQuestions sv os agent a f4) (\<lambda>f5.
        meter sv os agent a (dc_decision dc) f5))))))"

section \<open>Credentials\<close>

definition b64_char :: "nat \<Rightarrow> char" where
  "b64_char n =
     (if n < 26 then char_of (n + 65) else if n < 52 then char_of (n + 71) else if n < 62 then char_of (n - 4)
      else if n = 62 then CHR ''+'' else CHR ''/'')"

text \<open>\<^verbatim>\<open>base64.StdEncoding\<close>.\<close>

fun base64_Std :: "string \<Rightarrow> string" where
  "base64_Std [] = []"
| "base64_Std [a] = (let v = (of_char a :: nat) * 16 in [b64_char (v div 64), b64_char (v mod 64), CHR ''='', CHR ''=''])"
| "base64_Std [a, b] =
     (let v = ((of_char a :: nat) * 256 + of_char b) * 4 in
      [b64_char (v div 4096), b64_char (v div 64 mod 64), b64_char (v mod 64), CHR ''=''])"
| "base64_Std (a # b # c # s) =
     (let v = ((of_char a :: nat) * 256 + of_char b) * 256 + of_char c in
      [b64_char (v div 262144), b64_char (v div 4096 mod 64), b64_char (v div 64 mod 64), b64_char (v mod 64)] @ base64_Std s)"

text \<open>The headers of a binding, with the minted token of a brokered one; no token, no headers.\<close>

definition Credential :: "(unit Binding \<Rightarrow> string option) \<Rightarrow> unit Binding \<Rightarrow> (string, string) gomap option" where
  "Credential mint b =
     (if \<not> Brokered b then Some (bd_Headers b)
      else if bd_broker b = None then None
      else case mint b of
        None \<Rightarrow> None
      | Some tok \<Rightarrow>
          Some (AList.update ''Authorization''
            (if bd_GitHubApp b \<and> \<not> HasPrefix (fst (splitHostPattern (bd_Host b))) ''api.''
             then ''Basic '' @ base64_Std (''x-access-token:'' @ tok) else ''Bearer '' @ tok) (bd_Headers b)))"

text \<open>The headers of the request as it goes out, and the binding that was used; an error refuses the request.\<close>

definition inject :: "server \<Rightarrow> outside \<Rightarrow> bool \<Rightarrow> http_request \<Rightarrow> refusal + (headers \<times> unit Binding option)" where
  "inject sv os failedOpen r =
     (let h = stripHopHeaders (rq_Header r); host = normalizeHost (Hostname (rq_URL r));
          port = (if Port (rq_URL r) = [] then ''443'' else Port (rq_URL r)) in
      if Scheme (rq_URL r) = ''https'' \<and> \<not> failedOpen then
        (case MatchBinding (sv_bindings sv) \<lparr>cq_Host = host, cq_Port = port, cq_Method = rq_Method r, cq_Path = Path (rq_URL r)\<rparr> of
           None \<Rightarrow> Inr (h, None)
         | Some b \<Rightarrow>
             (case Credential (os_mint os) b of
                None \<Rightarrow> Inl (refuse ''error'' 502 [''credential_unavailable''])
              | Some kvs \<Rightarrow> Inr (fold (\<lambda>(k, v). header_Set k v) kvs (stripCredentialHeaders h), Some b)))
      else Inr (h, None))"

text \<open>Whether \<open>secretTargets\<close> finds something to scrub for an injected header.\<close>

definition secret_header :: "string \<times> string \<Rightarrow> bool" where
  "secret_header kv \<longleftrightarrow> snd kv \<noteq> [] \<and> \<not> NonSecretHeader (fst kv) \<and> MinSecretLen \<le> length (snd kv)"

definition scrubs :: "outside \<Rightarrow> unit Binding option \<Rightarrow> bool" where
  "scrubs os b =
     (case b of
        None \<Rightarrow> False
      | Some bd \<Rightarrow> (case Credential (os_mint os) bd of None \<Rightarrow> False | Some kvs \<Rightarrow> list_ex secret_header kvs))"

text \<open>The response can only be checked whole and plain when a secret was added or a digest is wanted.\<close>

definition plain_response :: "bool \<Rightarrow> headers \<Rightarrow> headers" where
  "plain_response needed h = (if needed then fold header_Del [''Range'', ''If-Range'', ''Accept-Encoding''] h else h)"

section \<open>Sending\<close>

record forwarded =
  fw_request :: http_request
  fw_Host :: string
  fw_body :: "heldBody option"
  fw_url :: string
  fw_binding :: "unit Binding option"
  fw_failedOpen :: bool
  fw_receipted :: bool
  fw_facts :: facts
  fw_taintSource :: string
  fw_flowReads :: "string list"
  fw_digests :: "string list"

definition package_digests :: "outside \<Rightarrow> bool \<Rightarrow> http_request \<Rightarrow> string list" where
  "package_digests os failedOpen r =
     (if failedOpen \<or> rq_Method r \<noteq> ''GET'' then []
      else case os_package os of None \<Rightarrow> [] | Some ref \<Rightarrow> packageDigests (os_pkgGate os) ref)"

definition send :: "server \<Rightarrow> outside \<Rightarrow> admitted \<Rightarrow> decided \<Rightarrow> facts \<Rightarrow> refusal + forwarded" where
  "send sv os a dc f0 =
     (let r = ad_request a; failedOpen = dc_failedOpen dc;
          source = (if failedOpen then [] else readTaintSource (os_taint os) r (dc_decision dc) (dc_modelFinding dc));
          flows = (if failedOpen then [] else flowsOfRead (os_flows os) r);
          f = (if source \<noteq> [] then add_reason ''untrusted_read'' f0 else f0);
          digests = package_digests os failedOpen r in
      if checkDestination (os_lookup os) (sv_guard sv) (normalizeHost (Hostname (rq_URL r))) \<noteq> None
      then Inl (refuse gwDeny 403 [])
      else and_then (inject sv os failedOpen r) (\<lambda>(h, b).
        if \<not> os_attempt os \<and> \<not> sv_failOpen sv then Inl (refuse ''error'' 502 [])
        else Inr \<lparr>fw_request = r \<lparr>rq_Header := plain_response (digests \<noteq> [] \<or> scrubs os b) (stripMethodOverride h)\<rparr>,
                  fw_Host = Host (rq_URL r), fw_body = ad_body a, fw_url = ad_url a, fw_binding = b, fw_failedOpen = failedOpen,
                  fw_receipted = os_attempt os, fw_facts = f, fw_taintSource = source, fw_flowReads = flows, fw_digests = digests\<rparr>))"

definition handleRequest ::
  "server \<Rightarrow> outside \<Rightarrow> agentIdentity \<Rightarrow> http_request \<Rightarrow> client_body \<Rightarrow> refusal + forwarded" where
  "handleRequest sv os agent r body =
     and_then (admit_request sv os agent r body) (\<lambda>a.
     and_then (policy_decision sv os a) (\<lambda>dc0.
     and_then (settle_decision sv os dc0) (\<lambda>dc.
     and_then (case os_mcp os of Some ref \<Rightarrow> if dc_failedOpen dc then Inr () else Inl ref | None \<Rightarrow> Inr ()) (\<lambda>_.
     and_then (second_questions sv os (id_name agent) a dc) (\<lambda>f.
     send sv os a dc f)))))"

text \<open>
  \<open>ServeHTTP\<close> for a request that is not CONNECT: the client is authenticated first. Inside a CONNECT tunnel
  \<open>handleRequest\<close> runs with the identity of the tunnel and the scheme and host of its target.
\<close>

definition ServeHTTP ::
  "(string \<Rightarrow> string) \<Rightarrow> server \<Rightarrow> outside \<Rightarrow> string \<Rightarrow> http_request \<Rightarrow> client_body \<Rightarrow> refusal + forwarded" where
  "ServeHTTP sha sv os token r body =
     (case authenticate sha (os_registry os) token of
        None \<Rightarrow> Inl (refuse gwDeny 407 [])
      | Some agent \<Rightarrow>
          if isStopped (os_registry os) (id_name agent) then Inl (refuse gwDeny 403 [''agent_stopped''])
          else if sv_connectPort443 sv \<and> EqualFold (Scheme (rq_URL r)) ''https'' \<and> Port (rq_URL r) \<noteq> [] \<and> Port (rq_URL r) \<noteq> ''443''
            then Inl (refuse gwDeny 403 [])
          else handleRequest sv os agent r body)"

end
