(* ===== verification/Request_Properties.thy ===== *)
theory Request_Properties
  imports Proxy_Request
begin

text \<open>
  Properties of the request pipeline: what has to hold before a request leaves, and what it carries when it does.
\<close>

lemma second_Inr: "second sv outcome about f = Inr f' \<longleftrightarrow> lets_go (fst outcome) \<and> f' = noteApproval (snd outcome) f"
  by (auto simp: second_def Let_def)

lemma deny_because_decision [simp]: "gd_Decision (deny_because why d) = gwDeny"
  by (simp add: deny_because_def)

lemma gw_distinct [simp]: "gwDeny \<noteq> gwAllow" "gwAllow \<noteq> gwDeny" "gwEscalate \<noteq> gwAllow" "gwAllow \<noteq> gwEscalate"
  "gwEscalate \<noteq> gwDeny" "gwDeny \<noteq> gwEscalate"
  by (simp_all add: outcome_names)

lemma policy_decision_Inr:
  "policy_decision sv os a = Inr dc \<longleftrightarrow>
   (\<exists>d finding. guard_allow sv os a (dc_failedOpen dc) d = (dc_decision dc, finding) \<and> dc_modelFinding dc = finding \<and>
      (if dc_failedOpen dc
       then os_check os (rq_Method (ad_request a)) (ad_url a) = None \<and> sv_failOpen sv \<and> d = open_decision \<and>
         dc_facts dc = add_reason ''gateway_unreachable_fail_open'' no_facts
       else os_check os (rq_Method (ad_request a)) (ad_url a) = Some d \<and> dc_facts dc = no_facts))"
  by (cases dc) (auto simp: policy_decision_def split: option.splits prod.splits)

text \<open>A guard only ever turns an allow into a deny.\<close>

lemma guard_allow_escalate:
  "guard_allow sv os a fo d = (d', w) \<Longrightarrow> gd_Decision d' = gwEscalate \<longleftrightarrow> gd_Decision d = gwEscalate"
  by (auto simp: guard_allow_def Let_def split: if_splits)

lemma guard_allow_allow:
  assumes "guard_allow sv os a fo d = (d', w)" "gd_Decision d' = gwAllow"
  shows "gd_Decision d = gwAllow \<and> d' = d \<and> \<not> matchHostGlob (sv_sensitiveHosts sv) (Hostname (rq_URL (ad_request a))) \<and>
    (\<not> fo \<longrightarrow> readCarriesData (lm_maxReadRequest (sv_limits sv)) (ad_request a) = [] \<and>
      allowedGitRefusal (os_gunzip os) (os_media os) (sv_gitGate sv) (lm_maxUploadPack (sv_limits sv)) (ad_request a) (ad_body a) (ad_url a) = [] \<and>
      w = ad_modelWhy a \<and> (w \<noteq> [] \<longrightarrow> \<not> sv_modelGateNoAsk sv \<and> modelAskable w))"
  using assms by (auto simp: guard_allow_def Let_def split: if_splits)

lemma settle_decision_Inr:
  "settle_decision sv os dc = Inr dc' \<Longrightarrow>
   dc_decision dc' = dc_decision dc \<and> dc_failedOpen dc' = dc_failedOpen dc \<and> dc_modelFinding dc' = dc_modelFinding dc \<and>
   (gd_Decision (dc_decision dc) = gwAllow \<or>
    (gd_Decision (dc_decision dc) = gwEscalate \<and> fst (os_escalation os) = pkgApproved))"
  by (auto simp: settle_decision_def Let_def split: if_splits prod.splits)

lemma send_Inr:
  assumes "send sv os a dc f = Inr fw"
  shows "checkDestination (os_lookup os) (sv_guard sv) (normalizeHost (Hostname (rq_URL (ad_request a)))) = None \<and>
    (os_attempt os \<or> sv_failOpen sv) \<and>
    fw_url fw = ad_url a \<and> fw_body fw = ad_body a \<and> fw_Host fw = Host (rq_URL (ad_request a)) \<and> fw_failedOpen fw = dc_failedOpen dc \<and>
    fw_receipted fw = os_attempt os \<and> rq_Method (fw_request fw) = rq_Method (ad_request a) \<and>
    rq_URL (fw_request fw) = rq_URL (ad_request a) \<and>
    (\<exists>h. inject sv os (dc_failedOpen dc) (ad_request a) = Inr (h, fw_binding fw) \<and>
       rq_Header (fw_request fw) = plain_response (fw_digests fw \<noteq> [] \<or> scrubs os (fw_binding fw)) (stripMethodOverride h))"
  using assms by (auto simp: send_def Let_def split: if_splits)

lemma handleRequest_Inr:
  "handleRequest sv os agent r body = Inr fw \<Longrightarrow>
   \<exists>a dc0 dc f. admit_request sv os agent r body = Inr a \<and> policy_decision sv os a = Inr dc0 \<and> settle_decision sv os dc0 = Inr dc \<and>
     (dc_failedOpen dc \<or> os_mcp os = None) \<and> second_questions sv os (id_name agent) a dc = Inr f \<and> send sv os a dc f = Inr fw"
  by (auto simp: handleRequest_def split: option.splits if_splits)

lemma admit_request_Inr:
  assumes "admit_request sv os agent r body = Inr a"
  shows "\<not> isStopped (os_registry os) (id_name agent) \<and> accepted (os_registry os) agent \<and> \<not> resource_cut (ad_url a) \<and>
    \<not> outOfScope (os_registry os) (id_name agent) (rq_Method (ad_request a) @ '' '' @ ad_url a)"
  using assms by (auto simp: admit_request_def Let_def split: if_splits sum.splits hold_error.splits prod.splits)

text \<open>Every question of an allowed request that applies to it was let go.\<close>

definition questions_let_go :: "server \<Rightarrow> outside \<Rightarrow> string \<Rightarrow> admitted \<Rightarrow> Decision \<Rightarrow> string \<Rightarrow> bool" where
  "questions_let_go sv os agent a d finding \<longleftrightarrow>
     (let r = ad_request a; url = ad_url a; host = normalizeHost (Hostname (rq_URL r)); ask = (\<lambda>action resource. lets_go (fst (os_ask os action resource))) in
      (\<forall>ref. os_package os = Some ref \<longrightarrow> lets_go (fst (checkPackage os ref))) \<and>
      (\<forall>ao. os_api os = Some ao \<longrightarrow> ao_refuse ao = [] \<and> (ao_read ao \<or> ask (ao_action ao) (ao_resource ao))) \<and>
      (finding \<noteq> [] \<longrightarrow> ask ''model.server_feature'' (''model:'' @ host @ '' '' @ finding)) \<and>
      (os_content os \<noteq> [] \<longrightarrow> ask ''content.sensitive'' (''content:'' @ os_content os @ '' '' @ rq_Method r @ '' '' @ url)) \<and>
      lets_go (fst (fst (checkTaint sv os agent r url host))) \<and>
      lets_go (fst (fst (checkFlows os agent r url))) \<and>
      lets_go (fst (checkModelBudget sv os agent r host)) \<and>
      (isOpenRead (gd_MatchedRule d) (gd_Decision d) (rq_Method r) \<longrightarrow> lets_go (fst (checkOpenHosts os agent host))) \<and>
      lets_go (fst (checkBudget os host (request_size sv a host))))"

lemma ask_parts:
  "(\<exists>f'. ask_package sv os f = Inr f') \<longleftrightarrow> (\<forall>ref. os_package os = Some ref \<longrightarrow> lets_go (fst (checkPackage os ref)))"
  "(\<exists>f'. ask_api sv os f = Inr f') \<longleftrightarrow> (\<forall>ao. os_api os = Some ao \<longrightarrow>
     ao_refuse ao = [] \<and> (ao_read ao \<or> lets_go (fst (os_ask os (ao_action ao) (ao_resource ao)))))"
  "(\<exists>f'. ask_model_feature sv os a w f = Inr f') \<longleftrightarrow> (w \<noteq> [] \<longrightarrow>
     lets_go (fst (os_ask os ''model.server_feature'' (''model:'' @ normalizeHost (Hostname (rq_URL (ad_request a))) @ '' '' @ w))))"
  "(\<exists>f'. ask_content sv os a f = Inr f') \<longleftrightarrow> (os_content os \<noteq> [] \<longrightarrow>
     lets_go (fst (os_ask os ''content.sensitive'' (''content:'' @ os_content os @ '' '' @ rq_Method (ad_request a) @ '' '' @ ad_url a))))"
  by (auto simp: ask_package_def ask_api_def ask_model_feature_def ask_content_def Let_def second_Inr split: option.splits)

lemma ask_agent_parts:
  "(\<exists>f'. agentQuestions sv os agent a f = Inr f') \<longleftrightarrow>
     lets_go (fst (fst (checkTaint sv os agent (ad_request a) (ad_url a) (normalizeHost (Hostname (rq_URL (ad_request a))))))) \<and>
     lets_go (fst (fst (checkFlows os agent (ad_request a) (ad_url a)))) \<and>
     lets_go (fst (checkModelBudget sv os agent (ad_request a) (normalizeHost (Hostname (rq_URL (ad_request a))))))"
  by (simp add: agentQuestions_def Let_def case_prod_beta second_Inr)

lemma meter_parts:
  "(\<exists>f'. meter sv os agent a d f = Inr f') \<longleftrightarrow>
     (isOpenRead (gd_MatchedRule d) (gd_Decision d) (rq_Method (ad_request a)) \<longrightarrow>
        lets_go (fst (checkOpenHosts os agent (normalizeHost (Hostname (rq_URL (ad_request a))))))) \<and>
     lets_go (fst (checkBudget os (normalizeHost (Hostname (rq_URL (ad_request a))))
       (request_size sv a (normalizeHost (Hostname (rq_URL (ad_request a)))))))"
  by (auto simp: meter_def Let_def second_Inr)

lemma second_questions_iff:
  assumes "gd_Decision (dc_decision dc) = gwAllow" "\<not> dc_failedOpen dc"
  shows "(\<exists>f. second_questions sv os agent a dc = Inr f) \<longleftrightarrow>
    questions_let_go sv os agent a (dc_decision dc) (dc_modelFinding dc)"
proof -
  have "(\<exists>f. second_questions sv os agent a dc = Inr f) \<longleftrightarrow>
      (\<exists>f1 f2 f3 f4 f5 f. ask_package sv os (dc_facts dc) = Inr f1 \<and> ask_api sv os f1 = Inr f2 \<and>
        ask_model_feature sv os a (dc_modelFinding dc) f2 = Inr f3 \<and> ask_content sv os a f3 = Inr f4 \<and>
        agentQuestions sv os agent a f4 = Inr f5 \<and> meter sv os agent a (dc_decision dc) f5 = Inr f)"
    using assms by (auto simp: second_questions_def)
  also have "\<dots> \<longleftrightarrow> questions_let_go sv os agent a (dc_decision dc) (dc_modelFinding dc)" (is "?run \<longleftrightarrow> ?all")
  proof
    assume ?run
    then obtain f1 f2 f3 f4 f5 f where run: "ask_package sv os (dc_facts dc) = Inr f1" "ask_api sv os f1 = Inr f2"
      "ask_model_feature sv os a (dc_modelFinding dc) f2 = Inr f3" "ask_content sv os a f3 = Inr f4"
      "agentQuestions sv os agent a f4 = Inr f5" "meter sv os agent a (dc_decision dc) f5 = Inr f" by blast
    note parts = ask_parts(1) [THEN iffD1, OF exI, OF run(1)] ask_parts(2) [THEN iffD1, OF exI, OF run(2)]
      ask_parts(3) [THEN iffD1, OF exI, OF run(3)] ask_parts(4) [THEN iffD1, OF exI, OF run(4)]
      ask_agent_parts [THEN iffD1, OF exI, OF run(5)] meter_parts [THEN iffD1, OF exI, OF run(6)]
    show ?all unfolding questions_let_go_def Let_def by (intro conjI) (use parts in blast)+
  next
    assume all: ?all
    obtain f1 where f1: "ask_package sv os (dc_facts dc) = Inr f1"
      using all ask_parts(1) [of sv os "dc_facts dc"] by (auto simp: questions_let_go_def Let_def)
    obtain f2 where f2: "ask_api sv os f1 = Inr f2"
      using all ask_parts(2) [of sv os f1] by (auto simp: questions_let_go_def Let_def)
    obtain f3 where f3: "ask_model_feature sv os a (dc_modelFinding dc) f2 = Inr f3"
      using all ask_parts(3) [of sv os a "dc_modelFinding dc" f2] by (auto simp: questions_let_go_def Let_def)
    obtain f4 where f4: "ask_content sv os a f3 = Inr f4"
      using all ask_parts(4) [of sv os a f3] by (auto simp: questions_let_go_def Let_def)
    obtain f5 where f5: "agentQuestions sv os agent a f4 = Inr f5"
      using all ask_agent_parts [of sv os agent a f4] by (auto simp: questions_let_go_def Let_def)
    obtain f where "meter sv os agent a (dc_decision dc) f5 = Inr f"
      using all meter_parts [of sv os agent a "dc_decision dc" f5] by (auto simp: questions_let_go_def Let_def)
    with f1 f2 f3 f4 f5 show ?run by blast
  qed
  finally show ?thesis .
qed

text \<open>The guards a request passes that policy allowed: no sensitive host, no data in a read, no git request that the
  proxy cannot read, and no finding of the model gate that cannot be asked about.\<close>

definition allow_guarded :: "server \<Rightarrow> outside \<Rightarrow> admitted \<Rightarrow> bool" where
  "allow_guarded sv os a \<longleftrightarrow>
     \<not> matchHostGlob (sv_sensitiveHosts sv) (Hostname (rq_URL (ad_request a))) \<and>
     readCarriesData (lm_maxReadRequest (sv_limits sv)) (ad_request a) = [] \<and>
     allowedGitRefusal (os_gunzip os) (os_media os) (sv_gitGate sv) (lm_maxUploadPack (sv_limits sv)) (ad_request a) (ad_body a) (ad_url a) = [] \<and>
     (ad_modelWhy a \<noteq> [] \<longrightarrow> \<not> sv_modelGateNoAsk sv \<and> modelAskable (ad_modelWhy a))"

text \<open>C20: A request leaves only when everything let it: the agent is accepted, not stopped and inside its scope. If the
  gateway could not be reached, the proxy is configured to fail open and the host is not a sensitive one. If the
  gateway escalated the request, a person approved it. If the gateway allowed it, the host is not a sensitive one, a
  read carries no data, a git request is one the proxy can read, and a finding of the model gate is one that can be
  asked about. In every case the destination passed the guard, the request is sent to the host, with the body and
  under the URL that were decided on, and its attempt receipt is on disk, unless the proxy fails open.
\<close>

theorem request_leaves_only_cleared:
  assumes "handleRequest sv os agent r body = Inr fw"
  shows "\<exists>a. admit_request sv os agent r body = Inr a \<and> rq_Method (fw_request fw) = rq_Method (ad_request a) \<and>
    rq_URL (fw_request fw) = rq_URL (ad_request a) \<and> fw_url fw = ad_url a \<and> fw_body fw = ad_body a \<and>
    accepted (os_registry os) agent \<and> \<not> isStopped (os_registry os) (id_name agent) \<and>
    \<not> outOfScope (os_registry os) (id_name agent) (rq_Method (fw_request fw) @ '' '' @ fw_url fw) \<and>
    (case os_check os (rq_Method (fw_request fw)) (fw_url fw) of
       None \<Rightarrow> sv_failOpen sv \<and> fw_failedOpen fw \<and> \<not> matchHostGlob (sv_sensitiveHosts sv) (Hostname (rq_URL (fw_request fw)))
     | Some d \<Rightarrow> \<not> fw_failedOpen fw \<and> os_mcp os = None \<and>
         (gd_Decision d = gwEscalate \<and> fst (os_escalation os) = pkgApproved \<or>
          gd_Decision d = gwAllow \<and> allow_guarded sv os a)) \<and>
    checkDestination (os_lookup os) (sv_guard sv) (normalizeHost (Hostname (rq_URL (fw_request fw)))) = None \<and>
    fw_Host fw = Host (rq_URL (fw_request fw)) \<and> (fw_receipted fw \<or> sv_failOpen sv)"
proof -
  obtain a dc0 dc f where st: "admit_request sv os agent r body = Inr a" "policy_decision sv os a = Inr dc0"
    "settle_decision sv os dc0 = Inr dc" "dc_failedOpen dc \<or> os_mcp os = None"
    "second_questions sv os (id_name agent) a dc = Inr f" "send sv os a dc f = Inr fw"
    using handleRequest_Inr [OF assms] by blast
  note a = admit_request_Inr [OF st(1)] and s = settle_decision_Inr [OF st(3)] and sent = send_Inr [OF st(6)]
  obtain d where d: "guard_allow sv os a (dc_failedOpen dc0) d = (dc_decision dc0, dc_modelFinding dc0)"
    "if dc_failedOpen dc0 then os_check os (rq_Method (ad_request a)) (ad_url a) = None \<and> sv_failOpen sv \<and> d = open_decision
     else os_check os (rq_Method (ad_request a)) (ad_url a) = Some d"
    using st(2) unfolding policy_decision_Inr by (auto split: if_splits)
  have cleared: "gd_Decision d = gwEscalate \<and> fst (os_escalation os) = pkgApproved \<or>
      gd_Decision d = gwAllow \<and> \<not> matchHostGlob (sv_sensitiveHosts sv) (Hostname (rq_URL (ad_request a))) \<and>
      (\<not> dc_failedOpen dc0 \<longrightarrow> allow_guarded sv os a)"
    using s guard_allow_allow [OF d(1)] guard_allow_escalate [OF d(1)] by (auto simp: allow_guarded_def)
  have "case os_check os (rq_Method (ad_request a)) (ad_url a) of
       None \<Rightarrow> sv_failOpen sv \<and> fw_failedOpen fw \<and> \<not> matchHostGlob (sv_sensitiveHosts sv) (Hostname (rq_URL (ad_request a)))
     | Some d \<Rightarrow> \<not> fw_failedOpen fw \<and> os_mcp os = None \<and>
         (gd_Decision d = gwEscalate \<and> fst (os_escalation os) = pkgApproved \<or> gd_Decision d = gwAllow \<and> allow_guarded sv os a)"
    using cleared d(2) s sent st(4) by (auto simp: open_decision_def split: if_splits)
  moreover have "fw_url fw = ad_url a" "rq_Method (fw_request fw) = rq_Method (ad_request a)"
    "rq_URL (fw_request fw) = rq_URL (ad_request a)" "fw_body fw = ad_body a" "fw_Host fw = Host (rq_URL (ad_request a))"
    "fw_receipted fw \<or> sv_failOpen sv"
    "checkDestination (os_lookup os) (sv_guard sv) (normalizeHost (Hostname (rq_URL (ad_request a)))) = None"
    using sent by simp_all
  ultimately show ?thesis using a st(1) by (intro exI [of _ a]) (simp split: option.splits)
qed

text \<open>A request of an open registry, allowed by the gateway, in a proxy without extra gates.\<close>

definition sample_server :: server where
  "sample_server = \<lparr>sv_failOpen = False, sv_gitGate = True, sv_sensitiveHosts = [''10.*''], sv_modelHosts = None, sv_modelGateNoAsk = False,
     sv_limits = defaultLimits,
     sv_bindings = [\<lparr>bd_Host = ''h.io'', bd_Paths = [], bd_Methods = [], bd_Headers = [(''Authorization'', ''Bearer 12345678'')],
       bd_GitHubApp = False, bd_OAuth2 = False, bd_broker = None\<rparr>],
     sv_guard = \<lparr>gd_publicEgress = True, gd_upstreamHost = []\<rparr>, sv_connectPort443 = True, sv_escalateRetry = False\<rparr>"

definition sample_outside :: outside where
  "sample_outside = \<lparr>os_registry = newAgentRegistry,
     os_check = (\<lambda>m u. Some \<lparr>gd_Decision = ''allow'', gd_DecisionID = [], gd_ReasonCodes = [], gd_ApprovalID = [], gd_MatchedRule = []\<rparr>),
     os_escalation = (''denied'', []), os_ask = (\<lambda>a r. (''deny'', [])), os_joined = (\<lambda>r. (''deny'', [])),
     os_readBody = (\<lambda>r hb. ([], hb, r)), os_mcp = None, os_package = None, os_api = None, os_content = [],
     os_gunzip = (\<lambda>_. None), os_media = (\<lambda>_. None), os_now = 1000, os_taint = Some newTaintTracker, os_flows = None,
     os_budget = None, os_openReads = None, os_modelBudget = None, os_pkgGate = None,
     os_lookup = (\<lambda>_. Some [IPv4 16843009]), os_mint = (\<lambda>_. None), os_attempt = True\<rparr>"

definition sample_get :: http_request where
  "sample_get = \<lparr>rq_Method = ''get'', rq_URL = \<lparr>Scheme = ''https'', User = False, Host = ''h.io'', Path = ''/a'', RawPath = [], RawQuery = [], Fragment = []\<rparr>,
     rq_Header = [(''X-Token'', [''mine'']), (''Connection'', [''Authorization'']), (''Accept'', [''text''])], rq_ContentLength = 0, rq_TransferEncoding = []\<rparr>"

lemma sample_forwarded:
  "(case handleRequest sample_server sample_outside zero_identity sample_get EmptyBody of
      Inr fw \<Rightarrow> rq_Header (fw_request fw) = [(''Accept'', [''text'']), (''Authorization'', [''Bearer 12345678''])] \<and>
        fw_binding fw \<noteq> None \<and> fw_url fw = ''https://h.io/a'' \<and> rq_Method (fw_request fw) = ''GET''
    | Inl _ \<Rightarrow> False)"
  by code_simp

theorem request_leaves_only_cleared_witness:
  "\<exists>fw. handleRequest sample_server sample_outside zero_identity sample_get EmptyBody = Inr fw \<and>
     checkDestination (os_lookup sample_outside) (sv_guard sample_server) (normalizeHost (Hostname (rq_URL (fw_request fw)))) = None"
proof -
  obtain fw where fw: "handleRequest sample_server sample_outside zero_identity sample_get EmptyBody = Inr fw"
    using sample_forwarded by (auto split: sum.splits)
  then show ?thesis using request_leaves_only_cleared [OF fw] by blast
qed

section \<open>What a request carries\<close>

lemma header_Del_member: "kv \<in> set (header_Del k h) \<longleftrightarrow> kv \<in> set h \<and> \<not> EqualFold (fst kv) k"
  by (auto simp: header_Del_def)

lemma fold_Del_member: "kv \<in> set (fold header_Del ks h) \<longleftrightarrow> kv \<in> set h \<and> \<not> list_ex (EqualFold (fst kv)) ks"
  by (induction ks arbitrary: h) (auto simp: header_Del_member)

lemma fold_Set_member:
  "kv \<in> set (fold (\<lambda>(k, v). header_Set k v) kvs h) \<Longrightarrow> kv \<in> set h \<or> (\<exists>v. (fst kv, v) \<in> set kvs \<and> snd kv = [v])"
proof (induction kvs arbitrary: h)
  case (Cons x kvs)
  show ?case using Cons.IH [of "header_Set (fst x) (snd x) h"] Cons.prems
    by (cases x) (auto simp: header_Set_def header_Del_member)
qed simp

definition own_credential :: "string \<Rightarrow> bool" where
  "own_credential k \<longleftrightarrow> list_ex (EqualFold k) credentialHeaders \<or> credential_named k"

lemma stripCredentialHeaders_member: "kv \<in> set (stripCredentialHeaders h) \<longleftrightarrow> kv \<in> set h \<and> \<not> own_credential (fst kv)"
  by (auto simp: stripCredentialHeaders_def fold_Del_member own_credential_def)

lemma stripHopHeaders_member: "kv \<in> set (stripHopHeaders h) \<Longrightarrow> \<not> list_ex (EqualFold (fst kv)) hopHeaders"
  by (simp add: stripHopHeaders_def fold_Del_member)

lemma find_matches: "MatchBinding bs req = Some b \<Longrightarrow> b \<in> set bs \<and> binding_matches req b"
  by (auto simp: MatchBinding_def find_Some_iff)

text \<open>C21: A real credential leaves only over https, never with a request that failed open, and only to the host, port,
  method and path of its binding; the credentials the agent itself put on the request do not ride along: every header
  of the outgoing request that could carry one has its value from the binding. No request carries a
  method-override header, and one without an injected credential carries no connection header.
\<close>

theorem credential_confined:
  assumes "handleRequest sv os agent r body = Inr fw"
  shows "(\<forall>kv \<in> set (rq_Header (fw_request fw)). \<not> list_ex (EqualFold (fst kv)) methodOverrideHeaders) \<and>
    (case fw_binding fw of
       None \<Rightarrow> \<forall>kv \<in> set (rq_Header (fw_request fw)). \<not> list_ex (EqualFold (fst kv)) hopHeaders
     | Some b \<Rightarrow>
         Scheme (rq_URL (fw_request fw)) = ''https'' \<and> \<not> fw_failedOpen fw \<and> b \<in> set (sv_bindings sv) \<and>
         binding_matches \<lparr>cq_Host = normalizeHost (Hostname (rq_URL (fw_request fw))),
           cq_Port = (if Port (rq_URL (fw_request fw)) = [] then ''443'' else Port (rq_URL (fw_request fw))),
           cq_Method = rq_Method (fw_request fw), cq_Path = Path (rq_URL (fw_request fw))\<rparr> b \<and>
         (\<exists>kvs. Credential (os_mint os) b = Some kvs \<and>
            (\<forall>kv \<in> set (rq_Header (fw_request fw)). own_credential (fst kv) \<longrightarrow> (\<exists>v. (fst kv, v) \<in> set kvs \<and> snd kv = [v]))))"
proof -
  obtain a dc f where sent: "send sv os a dc f = Inr fw" using handleRequest_Inr [OF assms] by blast
  obtain h where h: "inject sv os (dc_failedOpen dc) (ad_request a) = Inr (h, fw_binding fw)"
    and hdr: "rq_Header (fw_request fw) = plain_response (fw_digests fw \<noteq> [] \<or> scrubs os (fw_binding fw)) (stripMethodOverride h)"
    using send_Inr [OF sent] by blast
  have mem: "kv \<in> set h \<and> \<not> list_ex (EqualFold (fst kv)) methodOverrideHeaders" if "kv \<in> set (rq_Header (fw_request fw))" for kv
    using that unfolding hdr plain_response_def stripMethodOverride_def by (auto simp: fold_Del_member header_Del_member split: if_splits)
  have same: "rq_URL (fw_request fw) = rq_URL (ad_request a)" "rq_Method (fw_request fw) = rq_Method (ad_request a)"
    "fw_failedOpen fw = dc_failedOpen dc"
    using send_Inr [OF sent] by auto
  show ?thesis
  proof (cases "fw_binding fw")
    case None
    then have "h = stripHopHeaders (rq_Header (ad_request a))"
      using h by (auto simp: inject_def Let_def split: if_splits option.splits)
    then have "\<not> list_ex (EqualFold (fst kv)) hopHeaders" if "kv \<in> set (rq_Header (fw_request fw))" for kv
      using mem [OF that] stripHopHeaders_member by blast
    then show ?thesis using None mem by simp
  next
    case (Some b)
    then obtain kvs where b: "Scheme (rq_URL (ad_request a)) = ''https''" "\<not> dc_failedOpen dc"
      "MatchBinding (sv_bindings sv) \<lparr>cq_Host = normalizeHost (Hostname (rq_URL (ad_request a))),
           cq_Port = (if Port (rq_URL (ad_request a)) = [] then ''443'' else Port (rq_URL (ad_request a))),
           cq_Method = rq_Method (ad_request a), cq_Path = Path (rq_URL (ad_request a))\<rparr> = Some b"
      "Credential (os_mint os) b = Some kvs"
      "h = fold (\<lambda>(k, v). header_Set k v) kvs (stripCredentialHeaders (stripHopHeaders (rq_Header (ad_request a))))"
      using h by (auto simp: inject_def Let_def split: if_splits option.splits)
    have own: "\<exists>v. (fst kv, v) \<in> set kvs \<and> snd kv = [v]" if "kv \<in> set (rq_Header (fw_request fw))" "own_credential (fst kv)" for kv
      using mem [OF that(1)] that(2) fold_Set_member [of kv kvs] stripCredentialHeaders_member [of kv] unfolding b(5) by blast
    then show ?thesis using Some mem b(1,2,4) find_matches [OF b(3)] same by auto
  qed
qed

theorem credential_confined_witness:
  "\<exists>fw b. handleRequest sample_server sample_outside zero_identity sample_get EmptyBody = Inr fw \<and> fw_binding fw = Some b \<and>
     Scheme (rq_URL (fw_request fw)) = ''https'' \<and> b \<in> set (sv_bindings sample_server)"
proof -
  obtain fw where fw: "handleRequest sample_server sample_outside zero_identity sample_get EmptyBody = Inr fw" "fw_binding fw \<noteq> None"
    using sample_forwarded by (auto split: sum.splits)
  then show ?thesis using credential_confined [OF fw(1)] by auto
qed

text \<open>C22: The second questions stand between an allowed request and the network: a request that policy allowed leaves only if
  every question that applies to it was let go, by the policy or by a person: a package that is not pinned, an API
  operation that is no read (one that is refused outright does not leave), a server-side model feature, sensitive
  content, a write soon after an untrusted read, a write that breaks a flow rule, model use past its budget, a new
  host of an open read past the cap on hosts, and traffic past the budget of the host, counted with the size of
  this request.
\<close>

theorem allowed_request_questioned:
  assumes "handleRequest sv os agent r body = Inr fw" "admit_request sv os agent r body = Inr a"
    and "os_check os (rq_Method (ad_request a)) (ad_url a) = Some d" "gd_Decision d = gwAllow"
    and "host = normalizeHost (Hostname (rq_URL (ad_request a)))"
  shows "(\<forall>ref. os_package os = Some ref \<longrightarrow> lets_go (fst (checkPackage os ref))) \<and>
    (\<forall>ao. os_api os = Some ao \<longrightarrow> ao_refuse ao = [] \<and> (ao_read ao \<or> lets_go (fst (os_ask os (ao_action ao) (ao_resource ao))))) \<and>
    (ad_modelWhy a \<noteq> [] \<longrightarrow>
       lets_go (fst (os_ask os ''model.server_feature'' (''model:'' @ host @ '' '' @ ad_modelWhy a)))) \<and>
    (os_content os \<noteq> [] \<longrightarrow>
       lets_go (fst (os_ask os ''content.sensitive'' (''content:'' @ os_content os @ '' '' @ rq_Method (ad_request a) @ '' '' @ ad_url a)))) \<and>
    lets_go (fst (fst (checkTaint sv os (id_name agent) (ad_request a) (ad_url a) host))) \<and>
    lets_go (fst (fst (checkFlows os (id_name agent) (ad_request a) (ad_url a)))) \<and>
    lets_go (fst (checkModelBudget sv os (id_name agent) (ad_request a) host)) \<and>
    (isOpenRead (gd_MatchedRule d) gwAllow (rq_Method (ad_request a)) \<longrightarrow> lets_go (fst (checkOpenHosts os (id_name agent) host))) \<and>
    lets_go (fst (checkBudget os host (request_size sv a host)))"
proof -
  obtain dc0 dc f where st: "policy_decision sv os a = Inr dc0" "settle_decision sv os dc0 = Inr dc"
    "second_questions sv os (id_name agent) a dc = Inr f"
    using handleRequest_Inr [OF assms(1)] assms(2) by auto
  note s = settle_decision_Inr [OF st(2)]
  have fo: "\<not> dc_failedOpen dc0" and g: "guard_allow sv os a False d = (dc_decision dc0, dc_modelFinding dc0)"
    using st(1) assms(3) unfolding policy_decision_Inr by (auto split: if_splits)
  have al: "gd_Decision (dc_decision dc) = gwAllow" using s guard_allow_escalate [OF g] assms(4) by auto
  have same: "dc_decision dc = d" "dc_modelFinding dc = ad_modelWhy a" "\<not> dc_failedOpen dc"
    using guard_allow_allow [OF g] al s fo by auto
  have "questions_let_go sv os (id_name agent) a d (ad_modelWhy a)"
    using second_questions_iff [OF al same(3)] st(3) same(1,2) by metis
  then show ?thesis using assms(4,5) by (simp add: questions_let_go_def Let_def)
qed

definition sample_ask_write :: outside where
  "sample_ask_write = sample_outside \<lparr>os_taint := Some (taint_mark 900 [] ''x'' newTaintTracker), os_ask := (\<lambda>a r. (''approved'', ''a1''))\<rparr>"

definition sample_write :: http_request where
  "sample_write = sample_get \<lparr>rq_Method := ''PUT''\<rparr>"

lemma sample_written:
  "(case handleRequest sample_server sample_ask_write zero_identity sample_write EmptyBody of
      Inr fw \<Rightarrow> fc_approvals (fw_facts fw) = [''a1''] \<and> fc_reasons (fw_facts fw) = [''tainted_by:x''] | Inl _ \<Rightarrow> False)"
  by code_simp

theorem allowed_request_questioned_witness:
  "\<exists>a fw. handleRequest sample_server sample_ask_write zero_identity sample_write EmptyBody = Inr fw \<and>
     admit_request sample_server sample_ask_write zero_identity sample_write EmptyBody = Inr a \<and>
     fc_approvals (fw_facts fw) = [''a1''] \<and>
     lets_go (fst (fst (checkTaint sample_server sample_ask_write [] (ad_request a) (ad_url a)
       (normalizeHost (Hostname (rq_URL (ad_request a)))))))"
proof -
  obtain fw where fw: "handleRequest sample_server sample_ask_write zero_identity sample_write EmptyBody = Inr fw"
    "fc_approvals (fw_facts fw) = [''a1'']"
    using sample_written by (auto split: sum.splits)
  obtain a where a: "admit_request sample_server sample_ask_write zero_identity sample_write EmptyBody = Inr a"
    using handleRequest_Inr [OF fw(1)] by blast
  have "os_check sample_ask_write (rq_Method (ad_request a)) (ad_url a) =
      Some \<lparr>gd_Decision = ''allow'', gd_DecisionID = [], gd_ReasonCodes = [], gd_ApprovalID = [], gd_MatchedRule = []\<rparr>"
    by (simp add: sample_ask_write_def sample_outside_def)
  from allowed_request_questioned [OF fw(1) a this _ refl] fw a show ?thesis by (auto simp: zero_identity_def outcome_names)
qed

end
