(* ===== verification/Receipt_Chain.thy ===== *)
theory Receipt_Chain
  imports Go_UTF8 Go_Regexp Go_Bytes
begin

text \<open>
  Component: the receipt chain of the proxy (\<^verbatim>\<open>proxy/internal/receipts\<close>: \<^verbatim>\<open>chain.go\<close>). A receipt is one line of
  a file: it carries the hash of the line before and a signature over its fields. The theory holds the receipt and
  its two signing payloads, the strict reading of a line, the key history a signature is checked under, and the
  verifier, which walks the lines one at a time.

  \<^verbatim>\<open>encoding/json\<close> and \<^verbatim>\<open>crypto\<close> are the parameters of the model, gathered in a record: SHA-256, the verification and
  making of signatures, the public half of a key, and the decoding and encoding of a receipt. A decoded time keeps
  the spelling of its zone, as Go's does.
\<close>

section \<open>Receipts\<close>

record stamp =
  sp_at :: time
  sp_zone :: string

record Receipt =
  rc_V :: int
  rc_ReceiptID :: string
  rc_SessionID :: string
  rc_Timestamp :: stamp
  rc_Method :: string
  rc_URL :: string
  rc_Decision :: string
  rc_Status :: int
  rc_ApprovalID :: string
  rc_Phase :: string
  rc_Outcome :: string
  rc_AttemptID :: string
  rc_Agent :: string
  rc_Rule :: string
  rc_PolicyHash :: string
  rc_Approver :: string
  rc_ReqBytes :: int
  rc_RespBytes :: int
  rc_BodySHA256 :: string
  rc_Reasons :: "string list"
  rc_KeyID :: string
  rc_PrevHash :: string
  rc_Signature :: string

record receipt_env =
  re_sha :: "string \<Rightarrow> string"
  re_verify :: "string \<Rightarrow> string \<Rightarrow> string \<Rightarrow> bool"
  re_sign :: "string \<Rightarrow> string \<Rightarrow> string"
  re_public :: "string \<Rightarrow> string"
  re_decode :: "string \<Rightarrow> string + Receipt \<times> bool"
  re_marshal :: "Receipt \<Rightarrow> string option"

definition sigV1Prefix :: string where "sigV1Prefix = ''sig_v1:''"
definition sigV2Prefix :: string where "sigV2Prefix = ''sig_v2:''"

definition domainV2 :: string where "domainV2 = ''ovara-proxy-receipt-v2'' @ [CHR 0x0A]"

text \<open>\<^verbatim>\<open>Time.UnixNano\<close>: 64 bits of nanoseconds since 1970.\<close>

definition UnixNano :: "stamp \<Rightarrow> int" where
  "UnixNano t = i64 (sp_at t - 62135596800 * Second)"

definition canonicalV1 :: "Receipt \<Rightarrow> string" where
  "canonicalV1 r =
     rc_ReceiptID r @ ''|'' @ rc_SessionID r @ ''|'' @ Itoa (UnixNano (rc_Timestamp r)) @ ''|'' @ rc_Method r @ ''|'' @
     rc_URL r @ ''|'' @ rc_Decision r @ ''|'' @ Itoa (rc_Status r) @ ''|'' @ rc_PrevHash r @
     (if rc_ApprovalID r \<noteq> [] then ''|'' @ rc_ApprovalID r else [])"

definition canonical_fields :: "Receipt \<Rightarrow> string list" where
  "canonical_fields r =
     [''v'', Itoa (rc_V r), ''receipt_id'', rc_ReceiptID r, ''session_id'', rc_SessionID r,
      ''timestamp'', Itoa (UnixNano (rc_Timestamp r)), ''method'', rc_Method r, ''url'', rc_URL r,
      ''decision'', rc_Decision r, ''status'', Itoa (rc_Status r), ''approval_id'', rc_ApprovalID r,
      ''phase'', rc_Phase r, ''outcome'', rc_Outcome r, ''attempt_id'', rc_AttemptID r, ''agent'', rc_Agent r,
      ''rule'', rc_Rule r, ''policy_hash'', rc_PolicyHash r, ''approver'', rc_Approver r,
      ''req_bytes'', Itoa (rc_ReqBytes r), ''resp_bytes'', Itoa (rc_RespBytes r), ''body_sha256'', rc_BodySHA256 r,
      ''reasons'', Itoa (int (length (rc_Reasons r)))] @ rc_Reasons r @
     [''kid'', rc_KeyID r, ''prev_hash'', rc_PrevHash r]"

definition canonicalV2 :: "Receipt \<Rightarrow> string" where
  "canonicalV2 r = domainV2 @ lp_fields (canonical_fields r)"

definition hasV2Fields :: "Receipt \<Rightarrow> bool" where
  "hasV2Fields r \<longleftrightarrow>
     rc_Phase r \<noteq> [] \<or> rc_Outcome r \<noteq> [] \<or> rc_AttemptID r \<noteq> [] \<or> rc_Agent r \<noteq> [] \<or> rc_Rule r \<noteq> [] \<or>
     rc_PolicyHash r \<noteq> [] \<or> rc_Approver r \<noteq> [] \<or> rc_ReqBytes r \<noteq> 0 \<or> rc_RespBytes r \<noteq> 0 \<or>
     rc_BodySHA256 r \<noteq> [] \<or> rc_Reasons r \<noteq> [] \<or> rc_KeyID r \<noteq> []"

definition hashLine :: "receipt_env \<Rightarrow> string \<Rightarrow> string" where
  "hashLine env line = hex_EncodeToString (re_sha env line)"

text \<open>Why a chain, a line or an anchor is refused.\<close>

datatype chain_reason =
    Unparseable string
  | TrailingData
  | NotCanonical
  | LinkBroken
  | LegacyAfterV2
  | UncoveredFields
  | SignatureInvalid
  | UnknownKey
  | KeyRevoked string time
  | KeyRotatedOut string time
  | KeyNotInUse string time
  | NoEarlierAttempt
  | UnknownPhase
  | UnknownVersion int
  | SegmentMissing nat
  | ReadFailure string
  | AnchorUnparseable nat
  | AnchorMismatch nat int
  | AnchorStartMismatch nat

definition parseLine :: "receipt_env \<Rightarrow> string \<Rightarrow> chain_reason + Receipt" where
  "parseLine env line =
     (case re_decode env line of
        Inl e \<Rightarrow> Inl (Unparseable e)
      | Inr (r, more_data) \<Rightarrow>
          if more_data then Inl TrailingData
          else if re_marshal env r = Some line then Inr r else Inl NotCanonical)"

section \<open>Keys\<close>

record KeyRecord =
  ky_KeyID :: string
  ky_Pub :: string
  ky_NotBefore :: "time option"
  ky_NotAfter :: "time option"
  ky_RevokedAt :: "time option"

record KeyRing =
  kg_recs :: "KeyRecord list"
  kg_pubs :: "(string, string) gomap"

definition ReceiptKeySize :: nat where "ReceiptKeySize = 32"
definition SignatureSize :: nat where "SignatureSize = 64"
definition PrivateKeySize :: nat where "PrivateKeySize = 64"

definition KeyID :: "receipt_env \<Rightarrow> string \<Rightarrow> string" where
  "KeyID env pub = take 16 (hex_EncodeToString (re_sha env pub))"

definition ring_add :: "KeyRecord \<Rightarrow> string \<Rightarrow> KeyRing \<Rightarrow> KeyRing" where
  "ring_add rec pub k = k \<lparr>kg_recs := kg_recs k @ [rec], kg_pubs := AList.update (ky_KeyID rec) pub (kg_pubs k)\<rparr>"

definition empty_ring :: KeyRing where
  "empty_ring = \<lparr>kg_recs = [], kg_pubs = []\<rparr>"

definition plain_record :: "receipt_env \<Rightarrow> string \<Rightarrow> KeyRecord" where
  "plain_record env pub =
     \<lparr>ky_KeyID = KeyID env pub, ky_Pub = hex_EncodeToString pub, ky_NotBefore = None, ky_NotAfter = None, ky_RevokedAt = None\<rparr>"

definition SingleKey :: "receipt_env \<Rightarrow> string \<Rightarrow> KeyRing" where
  "SingleKey env pub =
     (if length pub = ReceiptKeySize then ring_add (plain_record env pub) pub empty_ring else empty_ring)"

definition ring_record :: "string \<Rightarrow> KeyRing \<Rightarrow> KeyRecord option" where
  "ring_record kid k = find (\<lambda>rec. ky_KeyID rec = kid) (kg_recs k)"

text \<open>The window of a key: why a signature made at a time does not count.\<close>

definition key_window :: "KeyRecord \<Rightarrow> time \<Rightarrow> chain_reason option" where
  "key_window rec ts =
     (let revoked = (case ky_RevokedAt rec of Some t \<Rightarrow> t \<le> ts | None \<Rightarrow> False);
          late = (case ky_NotAfter rec of Some t \<Rightarrow> t < ts | None \<Rightarrow> False);
          early = (case ky_NotBefore rec of Some t \<Rightarrow> ts < t | None \<Rightarrow> False) in
      if revoked then Some (KeyRevoked (ky_KeyID rec) (the (ky_RevokedAt rec)))
      else if late then Some (KeyRotatedOut (ky_KeyID rec) (the (ky_NotAfter rec)))
      else if early then Some (KeyNotInUse (ky_KeyID rec) (the (ky_NotBefore rec)))
      else None)"

text \<open>A ring only grows by \<open>ring_add\<close>, so each record has its public key.\<close>

definition signed_by :: "receipt_env \<Rightarrow> KeyRing \<Rightarrow> string \<Rightarrow> string \<Rightarrow> string \<Rightarrow> bool" where
  "signed_by env k kid msg sig =
     (case map_of (kg_pubs k) kid of Some pub \<Rightarrow> re_verify env pub msg sig | None \<Rightarrow> False)"

fun try_keys :: "receipt_env \<Rightarrow> KeyRing \<Rightarrow> time \<Rightarrow> string \<Rightarrow> string \<Rightarrow> KeyRecord list \<Rightarrow> chain_reason option" where
  "try_keys env k ts msg sig [] = Some SignatureInvalid"
| "try_keys env k ts msg sig (rec # cands) =
     (if \<not> signed_by env k (ky_KeyID rec) msg sig then try_keys env k ts msg sig cands
      else key_window rec ts)"

definition ring_verify :: "receipt_env \<Rightarrow> KeyRing \<Rightarrow> Receipt \<Rightarrow> string \<Rightarrow> string \<Rightarrow> chain_reason option" where
  "ring_verify env k r msg sigHex =
     (case hex_DecodeString sigHex of
        None \<Rightarrow> Some SignatureInvalid
      | Some sig \<Rightarrow>
          if length sig \<noteq> SignatureSize \<or> hex_EncodeToString sig \<noteq> sigHex then Some SignatureInvalid
          else if 2 \<le> rc_V r then
            (case ring_record (rc_KeyID r) k of
               None \<Rightarrow> Some UnknownKey
             | Some rec \<Rightarrow> try_keys env k (sp_at (rc_Timestamp r)) msg sig [rec])
          else try_keys env k (sp_at (rc_Timestamp r)) msg sig (kg_recs k))"

definition VerifyAt :: "receipt_env \<Rightarrow> KeyRing \<Rightarrow> string \<Rightarrow> time \<Rightarrow> string \<Rightarrow> string \<Rightarrow> chain_reason option" where
  "VerifyAt env k kid ts msg sig =
     (case ring_record kid k of
        None \<Rightarrow> Some UnknownKey
      | Some rec \<Rightarrow>
          if length sig \<noteq> SignatureSize \<or> \<not> signed_by env k kid msg sig then Some SignatureInvalid
          else key_window rec ts)"

section \<open>The verifier\<close>

record Segment =
  sm_After :: int
  sm_PrevHash :: string

definition whole_chain :: Segment where
  "whole_chain = \<lparr>sm_After = 0, sm_PrevHash = []\<rparr>"

record chainVerifier =
  cv_ring :: KeyRing
  cv_seg :: Segment
  cv_prevHash :: string
  cv_heads :: "string list"
  cv_recs :: "(Receipt \<times> string) list"
  cv_attempts :: "string list"
  cv_total :: nat
  cv_v1 :: nat
  cv_seenV2 :: bool

definition newChainVerifier :: "KeyRing \<Rightarrow> Segment \<Rightarrow> chainVerifier" where
  "newChainVerifier ring seg =
     \<lparr>cv_ring = ring, cv_seg = seg, cv_prevHash = sm_PrevHash seg, cv_heads = [], cv_recs = [], cv_attempts = [],
      cv_total = 0, cv_v1 = 0, cv_seenV2 = False\<rparr>"

text \<open>The legacy receipt: why it is refused.\<close>

definition step_v1 :: "receipt_env \<Rightarrow> Receipt \<Rightarrow> chainVerifier \<Rightarrow> chain_reason option" where
  "step_v1 env r v =
     (if cv_seenV2 v then Some LegacyAfterV2
      else if hasV2Fields r then Some UncoveredFields
      else if \<not> HasPrefix (rc_Signature r) sigV1Prefix then Some SignatureInvalid
      else ring_verify env (cv_ring v) r (canonicalV1 r) (drop (length sigV1Prefix) (rc_Signature r)))"

text \<open>The receipt of version two: why it is refused, or the attempts still without an outcome behind it.\<close>

definition step_phase :: "Receipt \<Rightarrow> chainVerifier \<Rightarrow> chain_reason + string list" where
  "step_phase r v =
     (if rc_Phase r = [] then Inr (cv_attempts v)
      else if rc_Phase r = ''attempt'' then Inr (List.insert (rc_ReceiptID r) (cv_attempts v))
      else if rc_Phase r = ''outcome'' then
        (if rc_AttemptID r \<notin> set (cv_attempts v) \<and> sm_After (cv_seg v) = 0 then Inl NoEarlierAttempt
         else Inr (removeAll (rc_AttemptID r) (cv_attempts v)))
      else Inl UnknownPhase)"

definition step_v2 :: "receipt_env \<Rightarrow> Receipt \<Rightarrow> chainVerifier \<Rightarrow> chain_reason + string list" where
  "step_v2 env r v =
     (if \<not> HasPrefix (rc_Signature r) sigV2Prefix then Inl SignatureInvalid
      else (case ring_verify env (cv_ring v) r (canonicalV2 r) (drop (length sigV2Prefix) (rc_Signature r)) of
              Some e \<Rightarrow> Inl e
            | None \<Rightarrow> step_phase r v))"

definition cv_accept :: "receipt_env \<Rightarrow> Receipt \<Rightarrow> string \<Rightarrow> chainVerifier \<Rightarrow> chainVerifier" where
  "cv_accept env r line v =
     v \<lparr>cv_prevHash := hashLine env line, cv_heads := cv_heads v @ [hashLine env line],
        cv_recs := cv_recs v @ [(r, line)], cv_total := Suc (cv_total v)\<rparr>"

definition cv_step :: "receipt_env \<Rightarrow> string \<Rightarrow> chainVerifier \<Rightarrow> chain_reason option \<times> chainVerifier" where
  "cv_step env line v =
     (case parseLine env line of
        Inl e \<Rightarrow> (Some e, v)
      | Inr r \<Rightarrow>
          if rc_PrevHash r \<noteq> cv_prevHash v then (Some LinkBroken, v)
          else if rc_V r = 0 then
            (case step_v1 env r v of
               Some e \<Rightarrow> (Some e, v)
             | None \<Rightarrow> (None, cv_accept env r line (v \<lparr>cv_v1 := Suc (cv_v1 v)\<rparr>)))
          else if rc_V r = 2 then
            (case step_v2 env r v of
               Inl e \<Rightarrow> (Some e, v \<lparr>cv_seenV2 := True\<rparr>)
             | Inr open_attempts \<Rightarrow>
                 (None, cv_accept env r line (v \<lparr>cv_seenV2 := True, cv_attempts := open_attempts\<rparr>)))
          else (Some (UnknownVersion (rc_V r)), v))"

fun cv_run :: "receipt_env \<Rightarrow> string list \<Rightarrow> chainVerifier \<Rightarrow> chain_reason option \<times> chainVerifier" where
  "cv_run env [] v = (None, v)"
| "cv_run env (line # lines) v =
     (case cv_step env line v of
        (Some e, v') \<Rightarrow> (Some e, v')
      | (None, v') \<Rightarrow> cv_run env lines v')"

record VerifyResult =
  vy_Total :: nat
  vy_Valid :: bool
  vy_FailAt :: int
  vy_Reason :: "chain_reason option"
  vy_Anchors :: nat
  vy_AnchorsValid :: bool
  vy_V1 :: nat

definition cv_result :: "chain_reason option \<times> chainVerifier \<Rightarrow> VerifyResult \<times> string list \<times> (Receipt \<times> string) list" where
  "cv_result out =
     (case out of (reason, v) \<Rightarrow>
       (\<lparr>vy_Total = cv_total v, vy_Valid = (reason = None),
         vy_FailAt = (if reason = None then 0 else int (cv_total v)), vy_Reason = reason,
         vy_Anchors = 0, vy_AnchorsValid = False, vy_V1 = cv_v1 v\<rparr>, cv_heads v, cv_recs v))"

text \<open>\<open>verifyData\<close> cuts the bytes at newlines and skips empty lines.\<close>

definition chain_lines :: "string \<Rightarrow> string list" where
  "chain_lines data = filter (\<lambda>l. l \<noteq> []) (SplitByte (CHR 0x0A) data)"

definition verifyData ::
  "receipt_env \<Rightarrow> string \<Rightarrow> KeyRing \<Rightarrow> Segment \<Rightarrow> VerifyResult \<times> string list \<times> (Receipt \<times> string) list" where
  "verifyData env data ring seg = cv_result (cv_run env (chain_lines data) (newChainVerifier ring seg))"

end
