(* ===== verification/Receipt_Log.thy ===== *)
theory Receipt_Log
  imports Receipt_Chain
begin

text \<open>
  Component: the files of the receipt chain (\<^verbatim>\<open>proxy/internal/receipts\<close>: \<^verbatim>\<open>chain.go\<close>, \<^verbatim>\<open>segments.go\<close>, \<^verbatim>\<open>anchor.go\<close>,
  \<^verbatim>\<open>keys.go\<close>). The disk holds the compressed segments by number, the current file with the bytes of it that are
  on stable storage, and what was anchored. A segment is its uncompressed bytes, or unreadable. An operation takes a
  record that says how the system calls it makes end.
\<close>

section \<open>The disk\<close>

record Anchor =
  an_Seq :: int
  an_Head :: string
  an_Time :: time

record chain_disk =
  dk_segs :: "(nat \<times> string option) list"
  dk_cur :: "string option"
  dk_flushed :: nat
  dk_anchors :: "Anchor list"
  dk_posted :: "Anchor list"

definition empty_disk :: chain_disk where
  "empty_disk = \<lparr>dk_segs = [], dk_cur = None, dk_flushed = 0, dk_anchors = [], dk_posted = []\<rparr>"

text \<open>A segment's name has six digits.\<close>

definition segmentsOf :: "chain_disk \<Rightarrow> (nat \<times> string option) list" where
  "segmentsOf d = sort_key fst (filter (\<lambda>s. fst s \<le> 999999) (dk_segs d))"

fun missing_from :: "nat \<Rightarrow> (nat \<times> string option) list \<Rightarrow> nat" where
  "missing_from i [] = 0"
| "missing_from i (s # segs) = (if fst s \<noteq> Suc i then Suc i else missing_from (Suc i) segs)"

definition missingSegment :: "(nat \<times> string option) list \<Rightarrow> nat" where
  "missingSegment segs = missing_from 0 segs"

section \<open>Walking the lines\<close>

datatype 'e walk_err = WalkIO string | WalkStop 'e

text \<open>
  \<^verbatim>\<open>bufio.ScanLines\<close>: what is between newlines, a carriage return at its end dropped; an empty rest at the end is no
  line. A line that does not fit the buffer of 8 MiB ends the scan.
\<close>

definition dropCR :: "string \<Rightarrow> string" where
  "dropCR l = (if l \<noteq> [] \<and> last l = CHR 0x0D then butlast l else l)"

definition scan_tokens :: "string \<Rightarrow> string list" where
  "scan_tokens data =
     (let ls = SplitByte (CHR 0x0A) data in if last ls = [] then butlast ls else ls)"

fun scan :: "(string \<Rightarrow> 's \<Rightarrow> 'e option \<times> 's) \<Rightarrow> string list \<Rightarrow> 's \<Rightarrow> 'e walk_err option \<times> 's" where
  "scan f [] s = (None, s)"
| "scan f (raw # raws) s =
     (if 8388608 \<le> length raw then (Some (WalkIO ''bufio.Scanner: token too long''), s)
      else if dropCR raw = [] then scan f raws s
      else (case f (dropCR raw) s of
              (Some e, s') \<Rightarrow> (Some (WalkStop e), s')
            | (None, s') \<Rightarrow> scan f raws s'))"

definition eachLineOf ::
  "(string \<Rightarrow> 's \<Rightarrow> 'e option \<times> 's) \<Rightarrow> string option \<Rightarrow> 's \<Rightarrow> 'e walk_err option \<times> 's" where
  "eachLineOf f content s =
     (case content of
        None \<Rightarrow> (Some (WalkIO ''gzip: invalid header''), s)
      | Some data \<Rightarrow> scan f (scan_tokens data) s)"

fun walk_segments ::
  "(string \<Rightarrow> 's \<Rightarrow> 'e option \<times> 's) \<Rightarrow> (nat \<times> string option) list \<Rightarrow> 's \<Rightarrow> 'e walk_err option \<times> 's" where
  "walk_segments f [] s = (None, s)"
| "walk_segments f (seg # segs) s =
     (case eachLineOf f (snd seg) s of
        (Some e, s') \<Rightarrow> (Some e, s')
      | (None, s') \<Rightarrow> walk_segments f segs s')"

definition ForEachLine ::
  "(string \<Rightarrow> 's \<Rightarrow> 'e option \<times> 's) \<Rightarrow> chain_disk \<Rightarrow> 's \<Rightarrow> 'e walk_err option \<times> 's" where
  "ForEachLine f d s =
     (case walk_segments f (segmentsOf d) s of
        (Some e, s') \<Rightarrow> (Some e, s')
      | (None, s') \<Rightarrow>
          (case dk_cur d of
             None \<Rightarrow> (None, s')
           | Some data \<Rightarrow> scan f (scan_tokens data) s'))"

definition count_line :: "string \<Rightarrow> nat \<Rightarrow> unit option \<times> nat" where
  "count_line l n = (None, Suc n)"

definition keep_line :: "string \<Rightarrow> string list \<Rightarrow> unit option \<times> string list" where
  "keep_line l ls = (None, ls @ [l])"

definition countLines :: "(nat \<times> string option) list \<Rightarrow> nat" where
  "countLines segs = sum_list (map (\<lambda>s. snd (eachLineOf count_line (snd s) 0)) segs)"

definition Count :: "chain_disk \<Rightarrow> nat" where
  "Count d = snd (ForEachLine count_line d 0)"

definition lastLineOf :: "string option \<Rightarrow> string + string" where
  "lastLineOf content =
     (case eachLineOf keep_line content [] of
        (Some (WalkIO e), _) \<Rightarrow> Inl e
      | (Some (WalkStop _), _) \<Rightarrow> Inl []
      | (None, ls) \<Rightarrow> if ls = [] then Inl ''empty segment'' else Inr (last ls))"

definition verifySegment ::
  "receipt_env \<Rightarrow> chain_disk \<Rightarrow> KeyRing \<Rightarrow> Segment \<Rightarrow> VerifyResult \<times> string list \<times> (Receipt \<times> string) list" where
  "verifySegment env d ring seg =
     (let segs = segmentsOf d in
      if missingSegment segs \<noteq> 0 then
        (\<lparr>vy_Total = 0, vy_Valid = False, vy_FailAt = 0, vy_Reason = Some (SegmentMissing (missingSegment segs)),
          vy_Anchors = 0, vy_AnchorsValid = False, vy_V1 = 0\<rparr>, [], [])
      else if segs = [] then
        (case dk_cur d of
           None \<Rightarrow>
             (\<lparr>vy_Total = 0, vy_Valid = False, vy_FailAt = 0, vy_Reason = Some (ReadFailure ''no such file or directory''),
               vy_Anchors = 0, vy_AnchorsValid = False, vy_V1 = 0\<rparr>, [], [])
         | Some data \<Rightarrow> verifyData env data ring seg)
      else
        (case ForEachLine (cv_step env) d (newChainVerifier ring seg) of
           (Some (WalkIO e), v) \<Rightarrow> cv_result (Some (ReadFailure e), v)
         | (Some (WalkStop e), v) \<Rightarrow> cv_result (Some e, v)
         | (None, v) \<Rightarrow> cv_result (None, v)))"

definition VerifyFileKeys :: "receipt_env \<Rightarrow> chain_disk \<Rightarrow> KeyRing \<Rightarrow> VerifyResult" where
  "VerifyFileKeys env d ring = fst (verifySegment env d ring whole_chain)"

section \<open>The chain\<close>

text \<open>
  The open file is a handle with a number of its own; \<open>ch_gen\<close> is the number the next handle gets. A handle that
  was closed is not the chain's any more.
\<close>

record Chain =
  ch_key :: string
  ch_keyID :: string
  ch_sessionID :: string
  ch_prevHash :: string
  ch_seq :: nat
  ch_f :: "nat option"
  ch_gen :: nat
  ch_size :: nat
  ch_segmentBytes :: int
  ch_rotatedThrough :: nat
  ch_synced :: nat
  ch_anchorFile :: string
  ch_anchorURL :: string
  ch_anchorEvery :: nat

definition new_chain :: "receipt_env \<Rightarrow> string \<Rightarrow> string \<Rightarrow> Chain" where
  "new_chain env key session =
     \<lparr>ch_key = key, ch_keyID = KeyID env (re_public env key), ch_sessionID = session, ch_prevHash = [], ch_seq = 0,
      ch_f = None, ch_gen = 0, ch_size = 0, ch_segmentBytes = 0, ch_rotatedThrough = 0, ch_synced = 0,
      ch_anchorFile = [], ch_anchorURL = [], ch_anchorEvery = 0\<rparr>"

record Entry =
  ey_Method :: string
  ey_URL :: string
  ey_Decision :: string
  ey_Status :: int
  ey_ApprovalID :: string
  ey_Phase :: string
  ey_Outcome :: string
  ey_AttemptID :: string
  ey_Agent :: string
  ey_Rule :: string
  ey_PolicyHash :: string
  ey_Approver :: string
  ey_ReqBytes :: int
  ey_RespBytes :: int
  ey_BodySHA256 :: string
  ey_Reasons :: "string list"

datatype rotation_end = RotWorks | RotSyncFails | RotCopyFails | RotCloseFails | RotTruncateFails

text \<open>
  How the calls of one append end: the random id and the clock, whether the file opens, how many bytes a write
  takes and whether it reports an error, whether cutting a partial line back off works, whether the sync works, where a
  rotation fails, whether removing a segment again works, and whether the anchor file can be written.
\<close>

record chain_io =
  io_id :: string
  io_now :: stamp
  io_open :: bool
  io_taken :: nat
  io_fault :: bool
  io_cut :: bool
  io_sync :: bool
  io_rotate :: rotation_end
  io_remove :: bool
  io_anchor :: bool

definition openLocked :: "chain_io \<Rightarrow> Chain \<Rightarrow> chain_disk \<Rightarrow> bool \<times> Chain \<times> chain_disk" where
  "openLocked io c d =
     (if ch_f c \<noteq> None then (True, c, d)
      else if \<not> io_open io then (False, c, d)
      else (let data = (case dk_cur d of None \<Rightarrow> [] | Some data \<Rightarrow> data) in
            (True, c \<lparr>ch_f := Some (ch_gen c), ch_gen := Suc (ch_gen c), ch_size := length data\<rparr>,
             d \<lparr>dk_cur := Some data\<rparr>)))"

definition rotateLocked :: "chain_io \<Rightarrow> Chain \<Rightarrow> chain_disk \<Rightarrow> bool \<times> Chain \<times> chain_disk" where
  "rotateLocked io c d =
     (if io_rotate io = RotSyncFails then (False, c, d)
      else
        let data = (case dk_cur d of None \<Rightarrow> [] | Some data \<Rightarrow> data);
            d1 = d \<lparr>dk_flushed := length data\<rparr>;
            segs = segmentsOf d1;
            seg_no = (if segs = [] then 1 else Suc (fst (last segs))) in
        if seg_no \<in> set (map fst (dk_segs d1)) \<or> io_rotate io = RotCopyFails then (False, c, d1)
        else
          let d2 = d1 \<lparr>dk_segs := dk_segs d1 @ [(seg_no, Some data)]\<rparr>;
              c2 = c \<lparr>ch_f := None\<rparr> in
          if io_rotate io = RotCloseFails \<or> io_rotate io = RotTruncateFails
          then (False, c2, if io_remove io then d1 else d2)
          else (True, c2 \<lparr>ch_size := 0, ch_rotatedThrough := ch_seq c\<rparr>, d2 \<lparr>dk_cur := Some [], dk_flushed := 0\<rparr>))"

definition rotateIfFullLocked :: "chain_io \<Rightarrow> Chain \<Rightarrow> chain_disk \<Rightarrow> Chain \<times> chain_disk" where
  "rotateIfFullLocked io c d =
     (if ch_segmentBytes c \<le> 0 then (c, d)
      else (case openLocked io c d of
              (False, c', d') \<Rightarrow> (c', d')
            | (True, c', d') \<Rightarrow>
                if int (ch_size c') < ch_segmentBytes c' then (c', d') else snd (rotateLocked io c' d')))"

definition writeLocked :: "chain_io \<Rightarrow> string \<Rightarrow> Chain \<Rightarrow> chain_disk \<Rightarrow> bool \<times> Chain \<times> chain_disk" where
  "writeLocked io line c d =
     (case openLocked io c d of
        (False, c', d') \<Rightarrow> (False, c', d')
      | (True, c', d') \<Rightarrow>
          (let data = (case dk_cur d' of None \<Rightarrow> [] | Some data \<Rightarrow> data);
               written = data @ take (io_taken io) line in
           if \<not> io_fault io \<and> length line \<le> io_taken io
           then (True, c' \<lparr>ch_size := ch_size c' + length line\<rparr>, d' \<lparr>dk_cur := Some written\<rparr>)
           else (False, c', d' \<lparr>dk_cur := Some (if io_cut io then take (ch_size c') written else written)\<rparr>)))"

text \<open>\<open>SetAnchoring\<close> and \<open>emitAnchor\<close>.\<close>

definition SetAnchoring :: "string \<Rightarrow> string \<Rightarrow> int \<Rightarrow> Chain \<Rightarrow> Chain" where
  "SetAnchoring afile url every c =
     c \<lparr>ch_anchorFile := afile, ch_anchorURL := url, ch_anchorEvery := (if every < 1 then 1 else nat every)\<rparr>"

definition SetRotation :: "int \<Rightarrow> Chain \<Rightarrow> Chain" where
  "SetRotation maxBytes c = c \<lparr>ch_segmentBytes := maxBytes\<rparr>"

definition emitAnchor :: "chain_io \<Rightarrow> Chain \<Rightarrow> chain_disk \<Rightarrow> chain_disk" where
  "emitAnchor io c d =
     (if ch_anchorFile c = [] \<and> ch_anchorURL c = [] then d
      else if ch_seq c mod ch_anchorEvery c \<noteq> 0 then d
      else
        let a = \<lparr>an_Seq = int (ch_seq c), an_Head = ch_prevHash c, an_Time = sp_at (io_now io)\<rparr> in
        d \<lparr>dk_anchors := dk_anchors d @ (if ch_anchorFile c \<noteq> [] \<and> io_anchor io then [a] else []),
           dk_posted := dk_posted d @ (if ch_anchorURL c \<noteq> [] then [a] else [])\<rparr>)"

section \<open>Group commit\<close>

text \<open>
  \<open>syncThrough\<close> reads the state under the lock, releases it, syncs the handle it saw and notes what that covered.
  Between the two sections other appends may run, and close the handle.
\<close>

datatype sync_choice = SyncCovered | SyncRotated nat | SyncNotOpen | SyncFile nat nat

definition sync_plan :: "Chain \<Rightarrow> nat \<Rightarrow> sync_choice" where
  "sync_plan c seq =
     (if seq \<le> ch_synced c then SyncCovered
      else (case ch_f c of
              None \<Rightarrow> if seq \<le> ch_rotatedThrough c then SyncRotated (ch_rotatedThrough c) else SyncNotOpen
            | Some h \<Rightarrow> SyncFile (ch_seq c) h))"

definition sync_finish :: "sync_choice \<Rightarrow> bool \<Rightarrow> Chain \<Rightarrow> chain_disk \<Rightarrow> bool \<times> Chain \<times> chain_disk" where
  "sync_finish plan works c d =
     (case plan of
        SyncCovered \<Rightarrow> (True, c, d)
      | SyncRotated n \<Rightarrow> (True, c \<lparr>ch_synced := max n (ch_synced c)\<rparr>, d)
      | SyncNotOpen \<Rightarrow> (False, c, d)
      | SyncFile covered h \<Rightarrow>
          if ch_f c = Some h \<and> works
          then (True, c \<lparr>ch_synced := covered\<rparr>, d \<lparr>dk_flushed := length (the (dk_cur d))\<rparr>)
          else (False, c, d))"

definition syncThrough :: "bool \<Rightarrow> nat \<Rightarrow> Chain \<Rightarrow> chain_disk \<Rightarrow> bool \<times> Chain \<times> chain_disk" where
  "syncThrough works seq c d = sync_finish (sync_plan c seq) works c d"

section \<open>Append\<close>

text \<open>\<^verbatim>\<open>strings.ToValidUTF8\<close>: a run of invalid bytes becomes one replacement.\<close>

function valid_from :: "string \<Rightarrow> bool \<Rightarrow> string \<Rightarrow> string" where
  "valid_from replacement invalid s =
     (if s = [] then []
      else case DecodeRune s of
        (r, n) \<Rightarrow>
          if r = RuneError \<and> n = 1
          then (if invalid then [] else replacement) @ valid_from replacement True (drop 1 s)
          else take n s @ valid_from replacement False (drop n s))"
  by pat_completeness auto
termination
proof (relation "measure (\<lambda>(replacement, invalid, s). length s)", goal_cases)
  case (3 replacement invalid s r n)
  then show ?case using DecodeRune_drop [of s r n] by simp
qed auto

declare valid_from.simps [simp del]

definition clean :: "string \<Rightarrow> string" where
  "clean s = valid_from [CHR 0xEF, CHR 0xBF, CHR 0xBD] False s"

datatype append_result = AppendFailed string | WrittenNotSynced Receipt | Appended Receipt

definition unsigned_receipt :: "chain_io \<Rightarrow> Entry \<Rightarrow> Chain \<Rightarrow> Receipt" where
  "unsigned_receipt io e c =
     \<lparr>rc_V = 2, rc_ReceiptID = ''rcpt_'' @ io_id io, rc_SessionID = ch_sessionID c, rc_Timestamp = io_now io,
      rc_Method = clean (ey_Method e), rc_URL = clean (ey_URL e), rc_Decision = clean (ey_Decision e),
      rc_Status = ey_Status e, rc_ApprovalID = clean (ey_ApprovalID e), rc_Phase = ey_Phase e,
      rc_Outcome = ey_Outcome e, rc_AttemptID = ey_AttemptID e, rc_Agent = clean (ey_Agent e),
      rc_Rule = clean (ey_Rule e), rc_PolicyHash = clean (ey_PolicyHash e), rc_Approver = clean (ey_Approver e),
      rc_ReqBytes = ey_ReqBytes e, rc_RespBytes = ey_RespBytes e, rc_BodySHA256 = ey_BodySHA256 e,
      rc_Reasons = map clean (ey_Reasons e), rc_KeyID = ch_keyID c, rc_PrevHash = ch_prevHash c, rc_Signature = []\<rparr>"

definition signed_receipt :: "receipt_env \<Rightarrow> chain_io \<Rightarrow> Entry \<Rightarrow> Chain \<Rightarrow> Receipt" where
  "signed_receipt env io e c =
     (let r = unsigned_receipt io e c in
      r \<lparr>rc_Signature := sigV2Prefix @ hex_EncodeToString (re_sign env (ch_key c) (canonicalV2 r))\<rparr>)"

text \<open>The section under the lock: the line is on its way to the file, or the chain is as before.\<close>

definition append_section ::
  "receipt_env \<Rightarrow> chain_io \<Rightarrow> Entry \<Rightarrow> Chain \<Rightarrow> chain_disk \<Rightarrow> (string + Receipt) \<times> Chain \<times> chain_disk" where
  "append_section env io e c d =
     (let r = signed_receipt env io e c in
      case re_marshal env r of
        None \<Rightarrow> (Inl ''json: error calling MarshalJSON'', c, d)
      | Some line \<Rightarrow>
          (case rotateIfFullLocked io c d of
             (c1, d1) \<Rightarrow>
               (case writeLocked io (line @ [CHR 0x0A]) c1 d1 of
                  (False, c2, d2) \<Rightarrow> (Inl ''write failed'', c2, d2)
                | (True, c2, d2) \<Rightarrow>
                    (let c3 = c2 \<lparr>ch_prevHash := hashLine env line, ch_seq := Suc (ch_seq c2)\<rparr> in
                     (Inr r, c3, emitAnchor io c3 d2)))))"

definition chain_Append ::
  "receipt_env \<Rightarrow> chain_io \<Rightarrow> Entry \<Rightarrow> bool \<Rightarrow> Chain \<Rightarrow> chain_disk \<Rightarrow> append_result \<times> Chain \<times> chain_disk" where
  "chain_Append env io e durable c d =
     (case append_section env io e c d of
        (Inl err, c1, d1) \<Rightarrow> (AppendFailed err, c1, d1)
      | (Inr r, c1, d1) \<Rightarrow>
          if \<not> durable then (Appended r, c1, d1)
          else (case syncThrough (io_sync io) (ch_seq c1) c1 d1 of
                  (True, c2, d2) \<Rightarrow> (Appended r, c2, d2)
                | (False, c2, d2) \<Rightarrow> (WrittenNotSynced r, c2, d2)))"

definition Close :: "Chain \<Rightarrow> Chain" where
  "Close c = (if ch_f c = None then c else c \<lparr>ch_f := None\<rparr>)"

end
