(* ===== verification/Receipt_Properties.thy ===== *)
theory Receipt_Properties
  imports Receipt_Chain
begin

text \<open>
  What a verified receipt chain establishes: the signed payload identifies the receipt, and the last hash of a
  chain fixes every line of it.
\<close>

section \<open>The signed payload\<close>

definition digits_value :: "string \<Rightarrow> nat" where
  "digits_value s = foldl (\<lambda>n c. 10 * n + (of_char c - 48)) 0 s"

lemma digits_value_digits: "digits_value (digits n) = n"
proof (induction n rule: digits.induct)
  case (1 n)
  show ?case
  proof (cases "n < 10")
    case True
    then show ?thesis by (simp add: digits.simps [of n] digits_value_def)
  next
    case False
    then show ?thesis using 1 by (simp add: digits.simps [of n] digits_value_def)
  qed
qed

lemma digits_inj: "digits m = digits n \<longleftrightarrow> m = n"
  by (metis digits_value_digits)

lemma digits_chars: "c \<in> set (digits n) \<Longrightarrow> 48 \<le> (of_char c :: nat) \<and> of_char c \<le> (57 :: nat)"
proof (induction n rule: digits.induct)
  case (1 n)
  then show ?case by (cases "n < 10") (auto simp: digits.simps [of n])
qed

lemma digits_no_minus: "digits n \<noteq> CHR ''-'' # s"
  using digits_chars [of "CHR ''-''" n] by fastforce

lemma Itoa_inj: "Itoa a = Itoa b \<longleftrightarrow> a = b"
  by (auto simp: Itoa_def digits_inj digits_no_minus [symmetric] digits_no_minus)

definition encodable :: "Receipt \<Rightarrow> bool" where
  "encodable r \<longleftrightarrow> list_all short (canonical_fields r)"

lemma canonical_fields_inj:
  assumes "canonical_fields r = canonical_fields s"
  shows "r = s \<lparr>rc_Timestamp := rc_Timestamp r, rc_Signature := rc_Signature r\<rparr>"
    and "UnixNano (rc_Timestamp r) = UnixNano (rc_Timestamp s)"
proof -
  have "length (rc_Reasons r) = length (rc_Reasons s)"
    using assms by (simp add: canonical_fields_def Itoa_inj)
  then have "rc_Reasons r = rc_Reasons s \<and> rc_KeyID r = rc_KeyID s \<and> rc_PrevHash r = rc_PrevHash s"
    using assms by (simp add: canonical_fields_def)
  then show "r = s \<lparr>rc_Timestamp := rc_Timestamp r, rc_Signature := rc_Signature r\<rparr>"
    using assms by (cases r; cases s) (simp add: canonical_fields_def Itoa_inj)
  show "UnixNano (rc_Timestamp r) = UnixNano (rc_Timestamp s)"
    using assms by (simp add: canonical_fields_def Itoa_inj)
qed

text \<open>
  The payload a version-two receipt is signed over identifies it: two receipts with the same payload agree in every
  field but the signature, and their times are the same number of nanoseconds. Fields shorter than 4 GiB are assumed,
  the range of the 32-bit length prefix.
\<close>

theorem receipt_payload_identifies:
  assumes "encodable r" "encodable s" "canonicalV2 r = canonicalV2 s"
  shows "r = s \<lparr>rc_Timestamp := rc_Timestamp r, rc_Signature := rc_Signature r\<rparr> \<and>
    UnixNano (rc_Timestamp r) = UnixNano (rc_Timestamp s)"
proof -
  have "canonical_fields r = canonical_fields s"
    using assms lp_fields_inj by (simp add: encodable_def canonicalV2_def)
  then show ?thesis using canonical_fields_inj by blast
qed

definition sample_receipt :: Receipt where
  "sample_receipt =
     \<lparr>rc_V = 2, rc_ReceiptID = ''rcpt_1'', rc_SessionID = ''s'', rc_Timestamp = \<lparr>sp_at = 62135596800000000000, sp_zone = ''Z''\<rparr>,
      rc_Method = ''GET'', rc_URL = ''https://h.io/a'', rc_Decision = ''allow'', rc_Status = 200, rc_ApprovalID = [],
      rc_Phase = [], rc_Outcome = [], rc_AttemptID = [], rc_Agent = [], rc_Rule = [], rc_PolicyHash = [],
      rc_Approver = [], rc_ReqBytes = 0, rc_RespBytes = 0, rc_BodySHA256 = [], rc_Reasons = [''r''], rc_KeyID = ''k'',
      rc_PrevHash = [], rc_Signature = []\<rparr>"

text \<open>The zone a time is written in is not part of the payload.\<close>

lemma zone_not_signed:
  "canonicalV2 (r \<lparr>rc_Timestamp := \<lparr>sp_at = sp_at (rc_Timestamp r), sp_zone = z\<rparr>\<rparr>) = canonicalV2 r"
  by (simp add: canonicalV2_def canonical_fields_def UnixNano_def)

lemma sample_encodable: "encodable sample_receipt"
proof -
  have "Itoa 0 = ''0''" "Itoa 1 = ''1''" "Itoa 2 = ''2''" "Itoa 200 = ''200''" by code_simp+
  moreover have "UnixNano (rc_Timestamp sample_receipt) = 0"
    by (simp add: UnixNano_def sample_receipt_def i64_def)
  ultimately show ?thesis by (simp add: encodable_def canonical_fields_def short_def sample_receipt_def)
qed

theorem receipt_payload_identifies_witness:
  "sample_receipt = (sample_receipt \<lparr>rc_Timestamp := \<lparr>sp_at = 62135596800000000000, sp_zone = ''+02:00''\<rparr>\<rparr>)
     \<lparr>rc_Timestamp := rc_Timestamp sample_receipt, rc_Signature := rc_Signature sample_receipt\<rparr>"
proof -
  let ?other = "sample_receipt \<lparr>rc_Timestamp := \<lparr>sp_at = 62135596800000000000, sp_zone = ''+02:00''\<rparr>\<rparr>"
  have "canonical_fields ?other = canonical_fields sample_receipt"
    by (simp add: canonical_fields_def sample_receipt_def UnixNano_def)
  moreover have "encodable sample_receipt" by (rule sample_encodable)
  moreover have "canonicalV2 sample_receipt = canonicalV2 ?other"
    using zone_not_signed [of sample_receipt "''+02:00''"] by (simp add: sample_receipt_def)
  ultimately show ?thesis
    using receipt_payload_identifies [of sample_receipt ?other] by (simp add: encodable_def)
qed

section \<open>What the verifier establishes\<close>

text \<open>The signature of a receipt that was accepted: a key of the ring, in its window when the receipt was made.\<close>

definition authentic :: "receipt_env \<Rightarrow> KeyRing \<Rightarrow> Receipt \<Rightarrow> bool" where
  "authentic env ring r \<longleftrightarrow>
     list_ex (\<lambda>rec. key_window rec (sp_at (rc_Timestamp r)) = None \<and>
       (rc_V r = 2 \<longrightarrow> ky_KeyID rec = rc_KeyID r) \<and>
       (case hex_DecodeString (drop 7 (rc_Signature r)) of
          Some sig \<Rightarrow> signed_by env ring (ky_KeyID rec) (if rc_V r = 2 then canonicalV2 r else canonicalV1 r) sig
        | None \<Rightarrow> False)) (kg_recs ring)"

lemma try_keys_None:
  "try_keys env k ts msg sig cands = None \<Longrightarrow>
     \<exists>rec\<in>set cands. signed_by env k (ky_KeyID rec) msg sig \<and> key_window rec ts = None"
  by (induction cands) (auto split: if_splits)

lemma ring_record_Some: "ring_record kid k = Some rec \<Longrightarrow> rec \<in> set (kg_recs k) \<and> ky_KeyID rec = kid"
  by (auto simp: ring_record_def find_Some_iff)

lemma ring_verify_None:
  assumes "ring_verify env k r msg sigHex = None"
  shows "\<exists>sig. hex_DecodeString sigHex = Some sig \<and>
    (\<exists>rec\<in>set (kg_recs k). signed_by env k (ky_KeyID rec) msg sig \<and>
       key_window rec (sp_at (rc_Timestamp r)) = None \<and> (rc_V r = 2 \<longrightarrow> ky_KeyID rec = rc_KeyID r))"
proof -
  obtain sig where sig: "hex_DecodeString sigHex = Some sig"
    using assms by (cases "hex_DecodeString sigHex") (simp_all add: ring_verify_def)
  have rest: "(if 2 \<le> rc_V r then
      (case ring_record (rc_KeyID r) k of
         None \<Rightarrow> Some UnknownKey
       | Some rec \<Rightarrow> try_keys env k (sp_at (rc_Timestamp r)) msg sig [rec])
      else try_keys env k (sp_at (rc_Timestamp r)) msg sig (kg_recs k)) = None"
    using assms by (simp add: ring_verify_def sig split: if_split_asm)
  show ?thesis
  proof (cases "2 \<le> rc_V r")
    case True
    then obtain rec where rec: "ring_record (rc_KeyID r) k = Some rec"
      and "try_keys env k (sp_at (rc_Timestamp r)) msg sig [rec] = None"
      using rest by (cases "ring_record (rc_KeyID r) k") simp_all
    then have "signed_by env k (ky_KeyID rec) msg sig \<and> key_window rec (sp_at (rc_Timestamp r)) = None"
      by (simp split: if_split_asm)
    then show ?thesis using sig ring_record_Some [OF rec] by blast
  next
    case False
    then have "try_keys env k (sp_at (rc_Timestamp r)) msg sig (kg_recs k) = None" using rest by simp
    then show ?thesis using sig try_keys_None False by fastforce
  qed
qed

lemma length_sigPrefix [simp]: "length sigV1Prefix = 7" "length sigV2Prefix = 7"
  by (simp_all add: sigV1Prefix_def sigV2Prefix_def)

lemma step_v1_authentic:
  assumes "step_v1 env r v = None" "rc_V r = 0"
  shows "authentic env (cv_ring v) r"
proof -
  have "ring_verify env (cv_ring v) r (canonicalV1 r) (drop 7 (rc_Signature r)) = None"
    using assms(1) by (simp add: step_v1_def split: if_split_asm)
  from ring_verify_None [OF this] show ?thesis using assms(2) by (auto simp: authentic_def list_ex_iff)
qed

lemma step_v2_authentic:
  assumes "step_v2 env r v = Inr opens" "rc_V r = 2"
  shows "authentic env (cv_ring v) r"
proof -
  have "ring_verify env (cv_ring v) r (canonicalV2 r) (drop 7 (rc_Signature r)) = None"
    using assms(1) by (simp add: step_v2_def split: if_split_asm option.splits)
  from ring_verify_None [OF this] show ?thesis using assms(2) by (auto simp: authentic_def list_ex_iff)
qed

lemma cv_step_None:
  assumes "cv_step env line v = (None, v')"
  obtains r where "parseLine env line = Inr r" "rc_PrevHash r = cv_prevHash v" "authentic env (cv_ring v) r"
    "cv_prevHash v' = hashLine env line" "cv_heads v' = cv_heads v @ [hashLine env line]"
    "cv_recs v' = cv_recs v @ [(r, line)]" "cv_total v' = Suc (cv_total v)" "cv_ring v' = cv_ring v"
proof -
  obtain r where r: "parseLine env line = Inr r" "rc_PrevHash r = cv_prevHash v" "rc_V r = 0 \<or> rc_V r = 2"
    using assms by (auto simp: cv_step_def split: sum.splits if_split_asm)
  show thesis
  proof (cases "rc_V r = 0")
    case True
    then show thesis
      using assms r by (auto simp: cv_step_def cv_accept_def intro!: that step_v1_authentic split: option.splits)
  next
    case False
    then show thesis
      using assms r by (auto simp: cv_step_def cv_accept_def intro!: that step_v2_authentic split: sum.splits)
  qed
qed

lemma cv_run_append:
  "cv_run env (xs @ ys) v =
     (case cv_run env xs v of (Some e, v') \<Rightarrow> (Some e, v') | (None, v') \<Rightarrow> cv_run env ys v')"
  by (induction xs arbitrary: v) (auto split: prod.splits option.splits)

text \<open>Each line names the hash of the line before.\<close>

fun linked :: "receipt_env \<Rightarrow> string \<Rightarrow> string list \<Rightarrow> bool" where
  "linked env prev [] = True"
| "linked env prev (l # ls) =
     ((case parseLine env l of Inr r \<Rightarrow> rc_PrevHash r = prev | Inl _ \<Rightarrow> False) \<and> linked env (hashLine env l) ls)"

definition head_of :: "receipt_env \<Rightarrow> string \<Rightarrow> string list \<Rightarrow> string" where
  "head_of env prev ls = (if ls = [] then prev else hashLine env (last ls))"

lemma head_of_simps [simp]:
  "head_of env prev [] = prev" "head_of env prev (ls @ [l]) = hashLine env l"
  by (simp_all add: head_of_def)

lemma linked_append: "linked env prev (xs @ ys) \<longleftrightarrow> linked env prev xs \<and> linked env (head_of env prev xs) ys"
  by (induction xs arbitrary: prev) (auto simp: head_of_def)

lemma cv_run_None:
  assumes "cv_run env ls v = (None, v')"
  shows "linked env (cv_prevHash v) ls \<and> cv_prevHash v' = head_of env (cv_prevHash v) ls \<and>
    cv_heads v' = cv_heads v @ map (hashLine env) ls \<and> cv_total v' = cv_total v + length ls \<and>
    map snd (cv_recs v') = map snd (cv_recs v) @ ls \<and> cv_ring v' = cv_ring v \<and>
    (\<forall>r\<in>fst ` set (cv_recs v'). r \<in> fst ` set (cv_recs v) \<or> authentic env (cv_ring v) r)"
  using assms
proof (induction ls arbitrary: v)
  case (Cons l ls)
  then obtain w where w: "cv_step env l v = (None, w)" "cv_run env ls w = (None, v')"
    by (auto split: prod.splits option.splits)
  from w(1) show ?case
    by (rule cv_step_None) (use Cons.IH [OF w(2)] in \<open>auto simp: head_of_def\<close>)
qed simp

text \<open>No two of the lines have the same digest, and no digest is empty.\<close>

definition no_collision :: "receipt_env \<Rightarrow> string list \<Rightarrow> bool" where
  "no_collision env ls \<longleftrightarrow> inj_on (re_sha env) (set ls) \<and> [] \<notin> re_sha env ` set ls"

lemma hashLine_inj: "no_collision env ls \<Longrightarrow> a \<in> set ls \<Longrightarrow> b \<in> set ls \<Longrightarrow> hashLine env a = hashLine env b \<longleftrightarrow> a = b"
  by (auto simp: no_collision_def hashLine_def hex_EncodeToString_inj inj_on_eq_iff)

lemma hashLine_not_Nil: "no_collision env ls \<Longrightarrow> a \<in> set ls \<Longrightarrow> hashLine env a \<noteq> []"
  using hex_EncodeToString_inj [of "re_sha env a" "[]"] image_eqI [of "[]" "re_sha env" a "set ls"]
  by (auto simp: no_collision_def hashLine_def hex_EncodeToString_def)

lemma head_fixes_lines:
  assumes "no_collision env (xs @ ys)" "linked env [] xs" "linked env [] ys" "head_of env [] xs = head_of env [] ys"
  shows "xs = ys"
  using assms
proof (induction xs arbitrary: ys rule: rev_induct)
  case Nil
  then show ?case using hashLine_not_Nil [of env ys "last ys"] by (auto simp: head_of_def split: if_split_asm)
next
  case (snoc x xs)
  then have "ys \<noteq> []" using hashLine_not_Nil [of env "xs @ [x]" x] by (auto simp: no_collision_def)
  then obtain y ys' where ys: "ys = ys' @ [y]" by (cases ys rule: rev_cases) auto
  have "x = y" using hashLine_inj [OF snoc.prems(1), of x y] snoc.prems(4) by (simp add: ys)
  moreover have "head_of env [] xs = head_of env [] ys'"
    using snoc.prems(2,3) \<open>x = y\<close> by (auto simp: ys linked_append split: sum.splits)
  moreover have "no_collision env (xs @ ys')"
    using snoc.prems(1) by (auto simp: no_collision_def ys inj_on_def)
  ultimately show ?case using snoc.IH [of ys'] snoc.prems(2,3) by (simp add: ys linked_append)
qed

end
