(* ===== verification/Receipt_Lines.thy ===== *)
theory Receipt_Lines
  imports Receipt_Log Receipt_Properties
begin

text \<open>
  The lines of a receipt chain across its files: how segments and current file read as one list of lines, what the
  verifier makes of them, and what opening, rotating and writing do to the list whatever system call fails.
\<close>

section \<open>Valid UTF-8\<close>

lemma valid_from_valid: "utf8_Valid replacement \<Longrightarrow> utf8_Valid (valid_from replacement invalid s)"
proof (induction replacement invalid s rule: valid_from.induct)
  case (1 replacement invalid s)
  show ?case
  proof (cases "s = []")
    case False
    obtain r n where rn: "DecodeRune s = (r, n)" by fastforce
    show ?thesis
    proof (cases "r = RuneError \<and> n = 1")
      case True
      have "utf8_Valid (valid_from replacement True (drop 1 s))" using 1(1) [OF False rn [symmetric] True 1(3)] .
      then show ?thesis using False True rn 1(3)
        by (subst valid_from.simps) (simp add: utf8_Valid_append del: drop_Suc One_nat_def)
    next
      case ok: False
      have "utf8_Valid (valid_from replacement False (drop n s))" using 1(2) [OF False rn [symmetric] ok 1(3)] .
      then show ?thesis using False ok rn utf8_Valid_rune [OF rn False ok]
        by (subst valid_from.simps) auto
    qed
  qed (simp add: valid_from.simps)
qed

lemma clean_valid [simp]: "utf8_Valid (clean s)"
proof -
  have "utf8_Valid [CHR 0xEF, CHR 0xBF, CHR 0xBD]" by code_simp
  then show ?thesis by (simp add: clean_def valid_from_valid)
qed


section \<open>Lines on disk\<close>

definition render :: "string list \<Rightarrow> string" where
  "render ls = concat (map (\<lambda>l. l @ [CHR 0x0A]) ls)"

lemma render_simps [simp]:
  "render [] = []" "render (xs @ ys) = render xs @ render ys" "render (l # ls) = l @ CHR 0x0A # render ls"
  by (simp_all add: render_def)

definition good_line :: "string \<Rightarrow> bool" where
  "good_line l \<longleftrightarrow> l \<noteq> [] \<and> CHR 0x0A \<notin> set l \<and> \<not> ascii_space (last l) \<and> length l < 8388608"

lemma SplitByte_render: "list_all good_line ls \<Longrightarrow> SplitByte (CHR 0x0A) (render ls) = ls @ [[]]"
  by (induction ls) (simp_all add: good_line_def SplitByte_append)

lemma chain_lines_render: "list_all good_line ls \<Longrightarrow> chain_lines (render ls) = ls"
  by (simp add: chain_lines_def SplitByte_render) (induction ls; simp add: good_line_def)

lemma scan_tokens_render: "list_all good_line ls \<Longrightarrow> scan_tokens (render ls) = ls"
  by (simp add: scan_tokens_def SplitByte_render Let_def)

lemma dropCR_good: "good_line l \<Longrightarrow> dropCR l = l"
  by (auto simp: dropCR_def good_line_def ascii_space_def)

lemma scan_verifier:
  "list_all good_line ls \<Longrightarrow>
     scan (cv_step env) ls v = (case cv_run env ls v of (e, v') \<Rightarrow> (map_option WalkStop e, v'))"
proof (induction ls arbitrary: v)
  case (Cons l ls)
  then have "dropCR l = l" "l \<noteq> []" "length l < 8388608" by (simp_all add: dropCR_good good_line_def)
  with Cons show ?case by (auto split: prod.splits option.splits)
qed simp

text \<open>The segments are numbered from one and hold whole lines; so does the current file.\<close>

fun numbered :: "nat \<Rightarrow> string list list \<Rightarrow> (nat \<times> string option) list" where
  "numbered i [] = []"
| "numbered i (ls # parts) = (Suc i, Some (render ls)) # numbered (Suc i) parts"

lemma numbered_append: "numbered i (ps @ qs) = numbered i ps @ numbered (i + length ps) qs"
  by (induction i ps rule: numbered.induct) simp_all

lemma numbered_eq_Nil [simp]: "numbered i parts = [] \<longleftrightarrow> parts = []"
  by (cases parts) simp_all

lemma numbered_bounds: "s \<in> set (numbered i parts) \<Longrightarrow> i < fst s \<and> fst s \<le> i + length parts"
  by (induction i parts rule: numbered.induct) auto

lemma sorted_numbered: "sorted (map fst (numbered i parts))"
  by (induction i parts rule: numbered.induct) (auto dest!: numbered_bounds)

lemma missing_from_numbered [simp]: "missing_from i (numbered i parts) = 0"
  by (induction i parts rule: numbered.induct) simp_all

lemma fst_last_numbered: "parts \<noteq> [] \<Longrightarrow> fst (last (numbered i parts)) = i + length parts"
  by (cases parts rule: rev_cases) (simp_all add: numbered_append)

definition holds :: "chain_disk \<Rightarrow> string list list \<Rightarrow> string list \<Rightarrow> bool" where
  "holds d parts ls \<longleftrightarrow>
     dk_segs d = numbered 0 parts \<and> length parts \<le> 999999 \<and> [] \<notin> set parts \<and> list_all (list_all good_line) parts \<and>
     list_all good_line ls \<and> (dk_cur d = Some (render ls) \<or> dk_cur d = None \<and> ls = [])"

lemma segmentsOf_holds:
  assumes "holds d parts ls"
  shows "segmentsOf d = numbered 0 parts"
proof -
  have "filter (\<lambda>s. fst s \<le> 999999) (numbered 0 parts) = numbered 0 parts"
    using assms numbered_bounds by (fastforce simp: filter_id_conv holds_def)
  then show ?thesis
    using assms sorted_numbered [of 0 parts] by (simp add: segmentsOf_def holds_def sort_key_id_if_sorted)
qed

lemma walk_verifier:
  "list_all (list_all good_line) parts \<Longrightarrow>
     walk_segments (cv_step env) (numbered i parts) v =
       (case cv_run env (concat parts) v of (e, v') \<Rightarrow> (map_option WalkStop e, v'))"
  by (induction i parts arbitrary: v rule: numbered.induct)
     (auto simp: eachLineOf_def scan_tokens_render scan_verifier cv_run_append split: prod.splits option.splits)

lemma verifySegment_holds:
  assumes "holds d parts ls" "dk_cur d \<noteq> None"
  shows "verifySegment env d ring seg = cv_result (cv_run env (concat parts @ ls) (newChainVerifier ring seg))"
proof -
  have cur: "dk_cur d = Some (render ls)" and good: "list_all good_line ls" "list_all (list_all good_line) parts"
    using assms by (auto simp: holds_def)
  show ?thesis
    using good cur
    by (auto simp: verifySegment_def segmentsOf_holds [OF assms(1)] Let_def verifyData_def chain_lines_render
        ForEachLine_def walk_verifier missingSegment_def scan_tokens_render scan_verifier cv_run_append split: prod.splits option.splits)
qed


section \<open>What an append does to the lines\<close>

definition fits :: "Chain \<Rightarrow> chain_disk \<Rightarrow> string list list \<Rightarrow> string list \<Rightarrow> bool" where
  "fits c d parts ls \<longleftrightarrow>
     holds d parts ls \<and> (ch_f c \<noteq> None \<longrightarrow> dk_cur d \<noteq> None \<and> ch_size c = length (render ls)) \<and>
     ch_rotatedThrough c \<le> length (concat parts)"

text \<open>What opening, rotating and writing leave alone.\<close>

definition same_chain :: "Chain \<Rightarrow> Chain \<Rightarrow> bool" where
  "same_chain c c' \<longleftrightarrow>
     ch_key c' = ch_key c \<and> ch_keyID c' = ch_keyID c \<and> ch_sessionID c' = ch_sessionID c \<and>
     ch_prevHash c' = ch_prevHash c \<and> ch_seq c' = ch_seq c \<and> ch_synced c' = ch_synced c \<and>
     ch_segmentBytes c' = ch_segmentBytes c \<and>
     ch_anchorFile c' = ch_anchorFile c \<and> ch_anchorURL c' = ch_anchorURL c \<and> ch_anchorEvery c' = ch_anchorEvery c \<and>
     ch_rotatedThrough c \<le> ch_rotatedThrough c' \<and> ch_gen c \<le> ch_gen c'"

lemma same_chain_refl [simp]: "same_chain c c"
  by (simp add: same_chain_def)

lemma same_chain_trans: "same_chain a b \<Longrightarrow> same_chain b c \<Longrightarrow> same_chain a c"
  by (auto simp: same_chain_def)

lemma openLocked_fits:
  assumes "openLocked io c d = (b, c', d')" "fits c d parts ls"
  shows "fits c' d' parts ls \<and> same_chain c c' \<and> (b \<longrightarrow> ch_f c' \<noteq> None) \<and> dk_anchors d' = dk_anchors d \<and>
    dk_flushed d' = dk_flushed d \<and> (\<not> b \<longrightarrow> c' = c \<and> d' = d)"
  using assms
  by (auto simp: openLocked_def Let_def fits_def holds_def same_chain_def split: if_split_asm)

lemma rotateLocked_fits:
  assumes "rotateLocked io c d = (b, c', d')" "fits c d parts ls" "ch_f c \<noteq> None" "io_remove io"
    and "length parts < 999999" "ch_seq c = length (concat parts @ ls)" "ls \<noteq> []"
  shows "same_chain c c' \<and> dk_anchors d' = dk_anchors d \<and>
    (fits c' d' parts ls \<and> dk_flushed d' \<in> {dk_flushed d, length (render ls)} \<or> fits c' d' (parts @ [ls]) [])"
proof -
  have segs: "segmentsOf (d \<lparr>dk_flushed := n\<rparr>) = numbered 0 parts" for n
    using assms(2) segmentsOf_holds [of "d \<lparr>dk_flushed := n\<rparr>" parts ls] by (simp add: fits_def holds_def)
  have cur: "dk_cur d = Some (render ls)" and dk: "dk_segs d = numbered 0 parts"
    using assms(2,3) by (auto simp: fits_def holds_def)
  have fresh: "Suc (length parts) \<notin> set (map fst (numbered 0 parts))"
    using numbered_bounds [of _ 0 parts] by fastforce
  have step: "rotateLocked io c d =
      (if io_rotate io = RotSyncFails then (False, c, d)
       else if io_rotate io = RotCopyFails then (False, c, d \<lparr>dk_flushed := length (render ls)\<rparr>)
       else if io_rotate io = RotCloseFails \<or> io_rotate io = RotTruncateFails
       then (False, c \<lparr>ch_f := None\<rparr>, d \<lparr>dk_flushed := length (render ls)\<rparr>)
       else (True, c \<lparr>ch_f := None, ch_size := 0, ch_rotatedThrough := ch_seq c\<rparr>,
             d \<lparr>dk_flushed := 0, dk_segs := numbered 0 (parts @ [ls]), dk_cur := Some []\<rparr>))"
    using fresh by (simp add: rotateLocked_def cur dk segs fst_last_numbered Let_def assms(4) numbered_append del: set_map)
  show ?thesis
    using assms(1,2,5,6,7) cur
    by (auto simp: step fits_def holds_def same_chain_def numbered_append split: if_split_asm)
qed

lemma rotateIfFullLocked_fits:
  assumes "rotateIfFullLocked io c d = (c', d')" "fits c d parts ls" "io_remove io"
    and "length parts < 999999" "ch_seq c = length (concat parts @ ls)"
  shows "same_chain c c' \<and> dk_anchors d' = dk_anchors d \<and>
    (fits c' d' parts ls \<and> dk_flushed d' \<in> {dk_flushed d, length (render ls)} \<or> fits c' d' (parts @ [ls]) [])"
proof (cases "ch_segmentBytes c \<le> 0")
  case False
  obtain b c1 d1 where open_: "openLocked io c d = (b, c1, d1)" by (metis prod_cases3)
  note o = openLocked_fits [OF open_ assms(2)]
  show ?thesis
  proof (cases "b \<and> \<not> int (ch_size c1) < ch_segmentBytes c1")
    case True
    obtain b2 c2 d2 where rot: "rotateLocked io c1 d1 = (b2, c2, d2)" by (metis prod_cases3)
    have "c' = c2" "d' = d2" using assms(1) False True by (simp_all add: rotateIfFullLocked_def open_ rot)
    moreover have "ls \<noteq> []" using o True False by (auto simp: fits_def same_chain_def)
    ultimately show ?thesis
      using rotateLocked_fits [OF rot, of parts ls] o True assms(3,4,5) same_chain_trans [of c c1 c2]
      by (auto simp: same_chain_def)
  next
    case no: False
    have "c' = c1" "d' = d1"
      using assms(1) False no by (cases b; simp add: rotateIfFullLocked_def open_)+
    then show ?thesis using o by simp
  qed
qed (use assms in \<open>simp add: rotateIfFullLocked_def\<close>)

lemma writeLocked_fits:
  assumes "writeLocked io (line @ [CHR 0x0A]) c d = (b, c', d')" "fits c d parts ls" "io_cut io" "good_line line"
  shows "same_chain c c' \<and> dk_anchors d' = dk_anchors d \<and> dk_flushed d' = dk_flushed d \<and>
    (b \<longrightarrow> ch_f c' \<noteq> None) \<and> fits c' d' parts (ls @ (if b then [line] else []))"
proof -
  obtain b1 c1 d1 where open_: "openLocked io c d = (b1, c1, d1)" by (metis prod_cases3)
  note o = openLocked_fits [OF open_ assms(2)]
  show ?thesis
  proof (cases b1)
    case True
    then have cur: "dk_cur d1 = Some (render ls)" "ch_size c1 = length (render ls)"
      using o by (auto simp: fits_def holds_def)
    show ?thesis
    proof (cases "\<not> io_fault io \<and> Suc (length line) \<le> io_taken io")
      case ok: True
      then have "b" "c' = c1 \<lparr>ch_size := ch_size c1 + Suc (length line)\<rparr>"
        "d' = d1 \<lparr>dk_cur := Some (render ls @ line @ [CHR 0x0A])\<rparr>"
        using assms(1) True take_all [of "line @ [CHR 0x0A]" "io_taken io"]
        by (simp_all add: writeLocked_def open_ cur del: take_append)
      then show ?thesis using o True assms(4) by (simp add: fits_def holds_def same_chain_def cur)
    next
      case False
      then have "\<not> b" "c' = c1" "d' = d1 \<lparr>dk_cur := Some (render ls)\<rparr>"
        using assms(1,3) True by (simp_all add: writeLocked_def open_ cur Let_def split: if_split_asm)
      then show ?thesis using o True by (simp add: fits_def holds_def)
    qed
  next
    case False
    then show ?thesis using assms(1,2) o by (auto simp: writeLocked_def open_)
  qed
qed

end
