(* ===== verification/Receipt_Runs.thy ===== *)
theory Receipt_Runs
  imports Receipt_Lines
begin

text \<open>
  Runs of a receipt chain: appends, syncs of the group commit, configuration and closing, in any order and with any
  system call failing. The invariant of such runs: what is on disk verifies, the counter and the head are those of
  the lines, anchors name heads of the chain, and what was reported as synced is on stable storage.
\<close>

section \<open>What the chain relies on\<close>

definition utf8_receipt :: "Receipt \<Rightarrow> bool" where
  "utf8_receipt r \<longleftrightarrow>
     list_all utf8_Valid
       ([rc_ReceiptID r, rc_SessionID r, rc_Method r, rc_URL r, rc_Decision r, rc_ApprovalID r, rc_Phase r, rc_Outcome r,
         rc_AttemptID r, rc_Agent r, rc_Rule r, rc_PolicyHash r, rc_Approver r, rc_BodySHA256 r, rc_KeyID r,
         rc_PrevHash r, rc_Signature r] @ rc_Reasons r)"

text \<open>
  Signatures have 64 bytes and verify; a receipt of valid UTF-8 is encoded as one object on one line, which decodes
  to it.
\<close>

definition env_laws :: "receipt_env \<Rightarrow> string \<Rightarrow> bool" where
  "env_laws env key \<longleftrightarrow>
     length (re_public env key) = ReceiptKeySize \<and>
     (\<forall>msg. length (re_sign env key msg) = SignatureSize \<and> re_verify env (re_public env key) msg (re_sign env key msg)) \<and>
     (\<forall>r line. re_marshal env r = Some line \<and> utf8_receipt r \<longrightarrow>
        re_decode env line = Inr (r, False) \<and> line \<noteq> [] \<and> CHR 0x0A \<notin> set line \<and> last line = CHR ''}'')"

lemma ascii_hex_digit: "n < 16 \<Longrightarrow> (of_char (hex_digit n) :: nat) < 128"
  by (simp add: hex_digit_def)

lemma ascii_hex: "ascii (hex_EncodeToString s)"
proof -
  have "(of_char c div 16 :: nat) < 16" for c :: char
  proof -
    have "of_char c < (256 :: nat)" by simp
    then show ?thesis by (simp add: div_less_iff_less_mult)
  qed
  then show ?thesis
    by (auto simp: ascii_def hex_EncodeToString_def list_all_iff ascii_hex_digit)
qed

lemma hex_utf8 [simp]: "utf8_Valid (hex_EncodeToString s)"
  by (rule ascii_utf8_Valid [OF ascii_hex])

lemma take_hex_utf8: "utf8_Valid (take n (hex_EncodeToString s))"
proof -
  have "ascii (take n (hex_EncodeToString s))"
    using ascii_hex [of s] by (auto simp: ascii_def list_all_iff dest: in_set_takeD)
  then show ?thesis by (rule ascii_utf8_Valid)
qed

section \<open>Steps\<close>

definition entry_ok :: "receipt_env \<Rightarrow> chain_io \<Rightarrow> Entry \<Rightarrow> Chain \<Rightarrow> string list \<Rightarrow> bool" where
  "entry_ok env io e c opens \<longleftrightarrow>
     (ey_Phase e = [] \<or> ey_Phase e = ''attempt'' \<or> ey_Phase e = ''outcome'' \<and> ey_AttemptID e \<in> set opens) \<and>
     list_all utf8_Valid [ey_Outcome e, ey_AttemptID e, ey_BodySHA256 e, io_id io] \<and>
     (case re_marshal env (signed_receipt env io e c) of Some line \<Rightarrow> length line < 8388608 | None \<Rightarrow> True)"

text \<open>A partial line can be cut off again, a segment whose rotation failed can be removed, and names are not used up.\<close>

definition io_ok :: "chain_io \<Rightarrow> chain_disk \<Rightarrow> bool" where
  "io_ok io d \<longleftrightarrow> io_cut io \<and> io_remove io \<and> length (dk_segs d) < 999999"

definition attempts_after :: "Receipt \<Rightarrow> string list \<Rightarrow> string list" where
  "attempts_after r opens =
     (if rc_Phase r = ''attempt'' then List.insert (rc_ReceiptID r) opens
      else if rc_Phase r = ''outcome'' then removeAll (rc_AttemptID r) opens
      else opens)"

inductive receipt_run :: "receipt_env \<Rightarrow> Chain \<Rightarrow> chain_disk \<Rightarrow> string list \<Rightarrow> sync_choice set \<Rightarrow> bool" for env where
  start: "utf8_Valid session \<Longrightarrow> receipt_run env (new_chain env key session) empty_disk [] {}"
| append: "receipt_run env c d opens plans \<Longrightarrow> entry_ok env io e c opens \<Longrightarrow> io_ok io d \<Longrightarrow>
    append_section env io e c d = (res, c', d') \<Longrightarrow>
    receipt_run env c' d' (case res of Inl _ \<Rightarrow> opens | Inr r \<Rightarrow> attempts_after r opens) plans"
| plan: "receipt_run env c d opens plans \<Longrightarrow> seq \<le> ch_seq c \<Longrightarrow> receipt_run env c d opens (insert (sync_plan c seq) plans)"
| finish: "receipt_run env c d opens plans \<Longrightarrow> p \<in> plans \<Longrightarrow> sync_finish p works c d = (b, c', d') \<Longrightarrow>
    receipt_run env c' d' opens plans"
| close: "receipt_run env c d opens plans \<Longrightarrow> receipt_run env (Close c) d opens plans"
| anchoring: "receipt_run env c d opens plans \<Longrightarrow> receipt_run env (SetAnchoring afile url every c) d opens plans"
| rotation: "receipt_run env c d opens plans \<Longrightarrow> receipt_run env (SetRotation maxBytes c) d opens plans"

section \<open>A receipt the chain wrote is accepted\<close>

lemma SingleKey_record:
  assumes "length pub = ReceiptKeySize"
  shows "ring_record (KeyID env pub) (SingleKey env pub) = Some (plain_record env pub)"
    and "signed_by env (SingleKey env pub) (KeyID env pub) msg sig = re_verify env pub msg sig"
  using assms by (simp_all add: SingleKey_def ring_record_def ring_add_def empty_ring_def signed_by_def plain_record_def)

lemma signed_receipt_simps [simp]:
  "rc_V (signed_receipt env io e c) = 2" "rc_PrevHash (signed_receipt env io e c) = ch_prevHash c"
  "rc_KeyID (signed_receipt env io e c) = ch_keyID c" "rc_Phase (signed_receipt env io e c) = ey_Phase e"
  "rc_AttemptID (signed_receipt env io e c) = ey_AttemptID e"
  by (simp_all add: signed_receipt_def unsigned_receipt_def Let_def)

lemma canonicalV2_signature [simp]: "canonicalV2 (r \<lparr>rc_Signature := sig\<rparr>) = canonicalV2 r"
  by (simp add: canonicalV2_def canonical_fields_def)

lemma signed_receipt_signature:
  "rc_Signature (signed_receipt env io e c) =
     sigV2Prefix @ hex_EncodeToString (re_sign env (ch_key c) (canonicalV2 (signed_receipt env io e c)))"
  by (simp add: signed_receipt_def Let_def)

lemma prefix_utf8:
  "utf8_Valid (sigV2Prefix @ hex_EncodeToString s)" "utf8_Valid t \<Longrightarrow> utf8_Valid (''rcpt_'' @ t)"
proof -
  have "utf8_Valid sigV2Prefix" "utf8_Valid ''rcpt_''" by code_simp+
  then show "utf8_Valid (sigV2Prefix @ hex_EncodeToString s)" "utf8_Valid t \<Longrightarrow> utf8_Valid (''rcpt_'' @ t)"
    by (simp_all add: utf8_Valid_append del: append_Cons)
qed

lemma phase_utf8: "utf8_Valid ''attempt''" "utf8_Valid ''outcome''"
  by code_simp+

lemma signed_receipt_utf8:
  assumes "entry_ok env io e c opens" "utf8_Valid (ch_sessionID c)" "utf8_Valid (ch_keyID c)" "utf8_Valid (ch_prevHash c)"
  shows "utf8_receipt (signed_receipt env io e c)"
proof -
  have "utf8_Valid (ey_Phase e)" using assms(1) phase_utf8 by (auto simp: entry_ok_def)
  then show ?thesis using assms prefix_utf8
    by (simp add: utf8_receipt_def signed_receipt_def unsigned_receipt_def Let_def entry_ok_def list_all_iff
        del: append_Cons)
qed

lemma signed_receipt_accepted:
  assumes laws: "env_laws env (ch_key c)" and marshal: "re_marshal env (signed_receipt env io e c) = Some line"
    and "entry_ok env io e c (cv_attempts v)" "utf8_Valid (ch_sessionID c)" "utf8_Valid (ch_prevHash c)"
    and key: "ch_keyID c = KeyID env (re_public env (ch_key c))" "cv_ring v = SingleKey env (re_public env (ch_key c))"
    and "cv_prevHash v = ch_prevHash c"
  shows "cv_step env line v = (None, cv_accept env (signed_receipt env io e c) line
      (v \<lparr>cv_seenV2 := True, cv_attempts := attempts_after (signed_receipt env io e c) (cv_attempts v)\<rparr>))"
    and "good_line line"
proof -
  let ?r = "signed_receipt env io e c" and ?pub = "re_public env (ch_key c)"
  have "utf8_Valid (ch_keyID c)" by (simp add: key KeyID_def take_hex_utf8)
  then have utf8: "utf8_receipt ?r" using signed_receipt_utf8 assms by blast
  then have line: "re_decode env line = Inr (?r, False)" "line \<noteq> []" "CHR 0x0A \<notin> set line" "last line = CHR ''}''"
    using laws marshal by (auto simp: env_laws_def)
  show "good_line line" using line assms(3) marshal by (simp add: good_line_def entry_ok_def ascii_space_def)
  have len: "length ?pub = ReceiptKeySize" using laws by (simp add: env_laws_def)
  have "drop 7 (rc_Signature ?r) = hex_EncodeToString (re_sign env (ch_key c) (canonicalV2 ?r))"
    by (simp add: signed_receipt_signature)
  moreover have "key_window (plain_record env ?pub) ts = None" "ky_KeyID (plain_record env ?pub) = KeyID env ?pub" for ts
    by (simp_all add: key_window_def plain_record_def)
  ultimately have "ring_verify env (cv_ring v) ?r (canonicalV2 ?r) (drop 7 (rc_Signature ?r)) = None"
    using laws by (simp add: ring_verify_def key SingleKey_record [OF len] env_laws_def)
  moreover have "HasPrefix (rc_Signature ?r) sigV2Prefix"
    by (simp add: signed_receipt_signature HasPrefix_def)
  moreover have "step_phase ?r v = Inr (attempts_after ?r (cv_attempts v))"
    using assms(3) by (auto simp: step_phase_def attempts_after_def entry_ok_def)
  ultimately have "step_v2 env ?r v = Inr (attempts_after ?r (cv_attempts v))" by (simp add: step_v2_def)
  then show "cv_step env line v = (None, cv_accept env ?r line
      (v \<lparr>cv_seenV2 := True, cv_attempts := attempts_after ?r (cv_attempts v)\<rparr>))"
    using assms(8) by (simp add: cv_step_def parseLine_def line(1) marshal)
qed

section \<open>The invariant\<close>

text \<open>The first \<open>n\<close> lines are in segments or in the part of the current file that is on stable storage.\<close>

definition durable :: "chain_disk \<Rightarrow> string list list \<Rightarrow> string list \<Rightarrow> nat \<Rightarrow> bool" where
  "durable d parts ls n \<longleftrightarrow>
     (\<exists>m \<le> length ls. n \<le> length (concat parts) + m \<and> length (render (take m ls)) \<le> dk_flushed d)"

definition plan_ok :: "Chain \<Rightarrow> sync_choice \<Rightarrow> bool" where
  "plan_ok c p \<longleftrightarrow>
     (case p of SyncFile n h \<Rightarrow> n \<le> ch_seq c | SyncRotated n \<Rightarrow> n \<le> ch_rotatedThrough c | _ \<Rightarrow> True)"

definition anchor_ok :: "receipt_env \<Rightarrow> string list \<Rightarrow> Anchor \<Rightarrow> bool" where
  "anchor_ok env lines a \<longleftrightarrow>
     1 \<le> an_Seq a \<and> an_Seq a \<le> int (length lines) \<and> an_Head a = head_of env [] (take (nat (an_Seq a)) lines)"

definition chain_verifier :: "receipt_env \<Rightarrow> Chain \<Rightarrow> chainVerifier" where
  "chain_verifier env c = newChainVerifier (SingleKey env (re_public env (ch_key c))) whole_chain"

definition accounted :: "receipt_env \<Rightarrow> Chain \<Rightarrow> string list \<Rightarrow> string list \<Rightarrow> bool" where
  "accounted env c opens lines \<longleftrightarrow>
     ch_seq c = length lines \<and> ch_prevHash c = head_of env [] lines \<and> utf8_Valid (ch_sessionID c) \<and>
     ch_keyID c = KeyID env (re_public env (ch_key c)) \<and>
     (\<exists>v. cv_run env lines (chain_verifier env c) = (None, v) \<and> cv_attempts v = opens)"

definition run_inv ::
  "receipt_env \<Rightarrow> Chain \<Rightarrow> chain_disk \<Rightarrow> string list \<Rightarrow> sync_choice set \<Rightarrow> string list list \<Rightarrow> string list \<Rightarrow> bool" where
  "run_inv env c d opens plans parts ls \<longleftrightarrow>
     fits c d parts ls \<and> accounted env c opens (concat parts @ ls) \<and> durable d parts ls (ch_synced c) \<and>
     (\<forall>p\<in>plans. plan_ok c p) \<and> list_all (anchor_ok env (concat parts @ ls)) (dk_anchors d)"

lemma durable_flush: "durable d parts ls n \<Longrightarrow> dk_flushed d \<le> dk_flushed d' \<Longrightarrow> durable d' parts ls n"
  unfolding durable_def using le_trans by blast

lemma durable_all: "n \<le> length (concat parts @ ls) \<Longrightarrow> length (render ls) \<le> dk_flushed d \<Longrightarrow> durable d parts ls n"
  unfolding durable_def by (rule exI [of _ "length ls"]) simp

lemma durable_rotated: "n \<le> length (concat parts) \<Longrightarrow> durable d parts ls n"
  unfolding durable_def by (rule exI [of _ 0]) simp

lemma durable_le: "durable d parts ls n \<Longrightarrow> n \<le> length (concat parts @ ls)"
  by (auto simp: durable_def)

lemma durable_append: "durable d parts ls n \<Longrightarrow> dk_flushed d' = dk_flushed d \<Longrightarrow> durable d' parts (ls @ ls') n"
proof -
  assume "durable d parts ls n" and eq: "dk_flushed d' = dk_flushed d"
  then obtain m where "m \<le> length ls" "n \<le> length (concat parts) + m" "length (render (take m ls)) \<le> dk_flushed d"
    by (auto simp: durable_def)
  then show "durable d' parts (ls @ ls') n" unfolding durable_def eq by (intro exI [of _ m]) simp
qed

text \<open>Rotating moves the lines into a segment or leaves them, and never loses what was synced.\<close>

lemma durable_rotate:
  assumes "durable d parts ls n" "dk_flushed d' \<in> {dk_flushed d, length (render ls)}"
  shows "durable d' parts ls n"
proof (cases "dk_flushed d' = dk_flushed d")
  case True
  then show ?thesis using durable_flush assms(1) by simp
next
  case False
  then show ?thesis using durable_all [OF durable_le [OF assms(1)]] assms(2) by simp
qed

lemma accounted_same: "same_chain c c' \<Longrightarrow> accounted env c opens lines \<Longrightarrow> accounted env c' opens lines"
  by (simp add: accounted_def same_chain_def chain_verifier_def)

lemma plan_ok_same: "same_chain c c' \<Longrightarrow> plan_ok c p \<Longrightarrow> plan_ok c' p"
  by (auto simp: plan_ok_def same_chain_def split: sync_choice.splits)

lemma anchor_ok_append: "anchor_ok env lines a \<Longrightarrow> anchor_ok env (lines @ more_lines) a"
  by (auto simp: anchor_ok_def nat_le_iff)

lemma anchor_ok_new:
  "an_Seq a = int (length lines) \<Longrightarrow> an_Head a = head_of env [] lines \<Longrightarrow> lines \<noteq> [] \<Longrightarrow> anchor_ok env lines a"
  by (cases lines) (simp_all add: anchor_ok_def)

lemma rotation_keeps_lines:
  assumes "rotateIfFullLocked io c d = (c', d')" "run_inv env c d opens plans parts ls" "io_ok io d"
  obtains parts' ls' where "fits c' d' parts' ls'" "concat parts' @ ls' = concat parts @ ls" "same_chain c c'"
    "dk_anchors d' = dk_anchors d" "durable d' parts' ls' (ch_synced c)"
proof -
  have inv: "fits c d parts ls" "ch_seq c = length (concat parts @ ls)" "durable d parts ls (ch_synced c)"
    using assms(2) by (auto simp: run_inv_def accounted_def)
  have "length (numbered 0 parts) = length parts" for parts
    by (induction parts rule: rev_induct) (simp_all add: numbered_append)
  then have "length parts < 999999" using assms(3) inv(1) by (simp add: io_ok_def fits_def holds_def)
  with rotateIfFullLocked_fits [OF assms(1) inv(1) _ _ inv(2)] assms(3)
  have same: "same_chain c c'" "dk_anchors d' = dk_anchors d"
    and moved: "fits c' d' parts ls \<and> dk_flushed d' \<in> {dk_flushed d, length (render ls)} \<or> fits c' d' (parts @ [ls]) []"
    by (auto simp: io_ok_def)
  from moved show thesis
  proof
    assume "fits c' d' parts ls \<and> dk_flushed d' \<in> {dk_flushed d, length (render ls)}"
    then show thesis using that [of parts ls] same inv(3) durable_rotate by blast
  next
    assume "fits c' d' (parts @ [ls]) []"
    then show thesis
      using that [of "parts @ [ls]" "[]"] same durable_rotated [of "ch_synced c" "parts @ [ls]"] durable_le [OF inv(3)] by simp
  qed
qed

lemma emitAnchor_disk [simp]:
  "dk_segs (emitAnchor io c d) = dk_segs d" "dk_cur (emitAnchor io c d) = dk_cur d"
  "dk_flushed (emitAnchor io c d) = dk_flushed d"
  by (simp_all add: emitAnchor_def Let_def)

lemma emitAnchor_anchors:
  "a \<in> set (dk_anchors (emitAnchor io c d)) \<Longrightarrow>
     a \<in> set (dk_anchors d) \<or> an_Seq a = int (ch_seq c) \<and> an_Head a = ch_prevHash c"
  by (auto simp: emitAnchor_def Let_def split: if_split_asm)

lemma accounted_snoc:
  assumes "env_laws env (ch_key c)" "accounted env c opens lines" "entry_ok env io e c opens"
    and "re_marshal env (signed_receipt env io e c) = Some line"
  shows "accounted env (c \<lparr>ch_prevHash := hashLine env line, ch_seq := Suc (ch_seq c)\<rparr>)
      (attempts_after (signed_receipt env io e c) opens) (lines @ [line])"
    and "good_line line"
proof -
  obtain v where v: "cv_run env lines (chain_verifier env c) = (None, v)" "cv_attempts v = opens"
    using assms(2) by (auto simp: accounted_def)
  note facts = cv_run_None [OF v(1)]
  have "utf8_Valid (ch_prevHash c)"
    using assms(2) by (auto simp: accounted_def head_of_def hashLine_def)
  moreover have "cv_ring v = SingleKey env (re_public env (ch_key c))" "cv_prevHash v = ch_prevHash c"
    using facts assms(2) by (auto simp: chain_verifier_def newChainVerifier_def whole_chain_def accounted_def)
  ultimately have step: "cv_step env line v = (None, cv_accept env (signed_receipt env io e c) line
      (v \<lparr>cv_seenV2 := True, cv_attempts := attempts_after (signed_receipt env io e c) opens\<rparr>))" "good_line line"
    using signed_receipt_accepted [OF assms(1,4), of v] assms(2,3) v(2) by (simp_all add: accounted_def)
  then show "accounted env (c \<lparr>ch_prevHash := hashLine env line, ch_seq := Suc (ch_seq c)\<rparr>)
      (attempts_after (signed_receipt env io e c) opens) (lines @ [line])" "good_line line"
    using assms(2) v by (simp_all add: accounted_def chain_verifier_def cv_run_append cv_accept_def)
qed

text \<open>One append: either nothing is added to the lines, or the receipt's line is.\<close>

lemma run_inv_append:
  assumes laws: "env_laws env (ch_key c)" and inv: "run_inv env c d opens plans parts ls"
    and ok: "entry_ok env io e c opens" "io_ok io d" and sec: "append_section env io e c d = (res, c', d')"
  shows "\<exists>parts' ls'.
    run_inv env c' d' (case res of Inl _ \<Rightarrow> opens | Inr r \<Rightarrow> attempts_after r opens) plans parts' ls' \<and>
    concat parts' @ ls' = (concat parts @ ls) @ (case res of Inl _ \<Rightarrow> [] | Inr r \<Rightarrow> [the (re_marshal env r)]) \<and>
    (\<forall>r. res = Inr r \<longrightarrow> ch_seq c' = Suc (ch_seq c) \<and> ch_f c' \<noteq> None \<and> ch_synced c' = ch_synced c)"
proof (cases "re_marshal env (signed_receipt env io e c)")
  case None
  then have "res = Inl ''json: error calling MarshalJSON''" "c' = c" "d' = d"
    using sec by (auto simp: append_section_def)
  then show ?thesis using inv by (intro exI [of _ parts] exI [of _ ls]) simp
next
  case (Some line)
  note inv' = inv [unfolded run_inv_def]
  obtain c1 d1 where rot: "rotateIfFullLocked io c d = (c1, d1)" by fastforce
  obtain b c2 d2 where wr: "writeLocked io (line @ [CHR 0x0A]) c1 d1 = (b, c2, d2)" by (metis prod_cases3)
  obtain parts1 ls1 where one: "fits c1 d1 parts1 ls1" "concat parts1 @ ls1 = concat parts @ ls" "same_chain c c1"
    "dk_anchors d1 = dk_anchors d" "durable d1 parts1 ls1 (ch_synced c)"
    using rotation_keeps_lines [OF rot inv ok(2)] by metis
  have acc: "accounted env c opens (concat parts1 @ ls1)" using inv' one(2) by simp
  note snoc = accounted_snoc [OF laws acc ok(1) Some]
  have two: "same_chain c1 c2" "dk_anchors d2 = dk_anchors d1" "dk_flushed d2 = dk_flushed d1"
    "fits c2 d2 parts1 (ls1 @ (if b then [line] else []))" "b \<Longrightarrow> ch_f c2 \<noteq> None"
    using writeLocked_fits [OF wr one(1) _ snoc(2)] ok(2) by (auto simp: io_ok_def)
  have same: "same_chain c c2" using same_chain_trans one(3) two(1) by blast
  have dur: "durable d2 parts1 (ls1 @ (if b then [line] else [])) (ch_synced c)"
    using durable_append [OF one(5)] two(3) by metis
  show ?thesis
  proof (cases b)
    case False
    then have "res = Inl ''write failed''" "c' = c2" "d' = d2"
      using sec by (simp_all add: append_section_def Some rot wr)
    moreover have "run_inv env c2 d2 opens plans parts1 ls1"
      using inv' one(2,4) two False dur accounted_same [OF same acc] plan_ok_same [OF same] same
      by (auto simp: run_inv_def same_chain_def)
    ultimately show ?thesis using one(2) by (intro exI [of _ parts1] exI [of _ ls1]) simp
  next
    case True
    let ?c3 = "c2 \<lparr>ch_prevHash := hashLine env line, ch_seq := Suc (ch_seq c2)\<rparr>"
    have res: "res = Inr (signed_receipt env io e c)" "c' = ?c3" "d' = emitAnchor io ?c3 d2"
      using sec True by (auto simp: append_section_def Some rot wr Let_def)
    have "same_chain (c \<lparr>ch_prevHash := hashLine env line, ch_seq := Suc (ch_seq c)\<rparr>) ?c3"
      using same by (simp add: same_chain_def)
    then have acc3: "accounted env ?c3 (attempts_after (signed_receipt env io e c) opens) (concat parts1 @ ls1 @ [line])"
      using accounted_same snoc(1) by fastforce
    have "anchor_ok env (concat parts1 @ ls1 @ [line]) a" if "a \<in> set (dk_anchors d')" for a
    proof -
      have "a \<in> set (dk_anchors d) \<or> an_Seq a = int (ch_seq ?c3) \<and> an_Head a = ch_prevHash ?c3"
        using emitAnchor_anchors that res(3) two(2) one(4) by metis
      moreover have "anchor_ok env (concat parts1 @ ls1) a" if "a \<in> set (dk_anchors d)"
        using inv' that one(2) by (simp add: list_all_iff)
      moreover have "anchor_ok env (concat parts1 @ ls1 @ [line]) a"
        if "an_Seq a = int (ch_seq ?c3)" "an_Head a = ch_prevHash ?c3"
        using that acc3 by (intro anchor_ok_new) (simp_all add: accounted_def)
      ultimately show ?thesis using anchor_ok_append [of env "concat parts1 @ ls1" a "[line]"] by auto
    qed
    moreover have "plan_ok ?c3 p" if "p \<in> plans" for p
    proof -
      have "plan_ok c2 p" using inv' that plan_ok_same [OF same] by blast
      then show ?thesis by (auto simp: plan_ok_def split: sync_choice.splits)
    qed
    moreover have "durable d' parts1 (ls1 @ [line]) (ch_synced ?c3)"
      using dur True same durable_flush [of d2 parts1 "ls1 @ [line]" "ch_synced c" d'] by (simp add: res(3) same_chain_def)
    moreover have "fits ?c3 d' parts1 (ls1 @ [line])"
      using two(4) True by (simp add: fits_def holds_def res(3))
    ultimately have "run_inv env c' d' (attempts_after (signed_receipt env io e c) opens) plans parts1 (ls1 @ [line])"
      using acc3 by (simp add: run_inv_def list_all_iff res(2))
    moreover have "concat parts1 @ ls1 @ [line] = (concat parts @ ls) @ [line]" using one(2) by (metis append_assoc)
    moreover have "ch_seq c' = Suc (ch_seq c)" "ch_synced c' = ch_synced c" "ch_f c' \<noteq> None"
      using same two(5) True by (simp_all add: res(2) same_chain_def)
    ultimately show ?thesis
      by (intro exI [of _ parts1] exI [of _ "ls1 @ [line]"]) (simp add: res(1) Some)
  qed
qed

lemma run_inv_start: "utf8_Valid session \<Longrightarrow> run_inv env (new_chain env key session) empty_disk [] {} [] []"
  by (simp add: run_inv_def new_chain_def empty_disk_def fits_def holds_def accounted_def durable_def chain_verifier_def
      newChainVerifier_def)

lemma run_inv_plan:
  "run_inv env c d opens plans parts ls \<Longrightarrow> seq \<le> ch_seq c \<Longrightarrow> run_inv env c d opens (insert (sync_plan c seq) plans) parts ls"
  by (auto simp: run_inv_def plan_ok_def sync_plan_def split: option.splits)

lemma run_inv_finish:
  assumes inv: "run_inv env c d opens plans parts ls" and "p \<in> plans" and fin: "sync_finish p works c d = (b, c', d')"
  shows "run_inv env c' d' opens plans parts ls"
proof (cases p)
  case (SyncRotated n)
  then have "n \<le> length (concat parts)"
    using inv assms(2) by (auto simp: run_inv_def plan_ok_def fits_def)
  then have "durable d parts ls (max n (ch_synced c))"
    using inv durable_rotated [of n parts d ls] by (auto simp: run_inv_def max_def)
  then show ?thesis using inv fin SyncRotated
    by (auto simp: sync_finish_def run_inv_def fits_def accounted_def chain_verifier_def plan_ok_def split: sync_choice.splits)
next
  case (SyncFile n h)
  then have n: "n \<le> length (concat parts @ ls)"
    using inv assms(2) by (auto simp: run_inv_def plan_ok_def accounted_def)
  show ?thesis
  proof (cases "ch_f c = Some h \<and> works")
    case True
    then have "dk_cur d = Some (render ls)" using inv by (auto simp: run_inv_def fits_def holds_def)
    then have "c' = c \<lparr>ch_synced := n\<rparr>" "d' = d \<lparr>dk_flushed := length (render ls)\<rparr>"
      using fin SyncFile True by (auto simp: sync_finish_def)
    then show ?thesis using inv durable_all [OF n, of "d \<lparr>dk_flushed := length (render ls)\<rparr>"]
      by (auto simp: run_inv_def fits_def holds_def accounted_def chain_verifier_def plan_ok_def split: sync_choice.splits)
  next
    case False
    then show ?thesis using inv fin SyncFile by (auto simp: sync_finish_def)
  qed
qed (use inv fin in \<open>auto simp: sync_finish_def\<close>)

lemma run_inv_other:
  assumes "run_inv env c d opens plans parts ls"
  shows "run_inv env (Close c) d opens plans parts ls"
    "run_inv env (SetAnchoring afile url every c) d opens plans parts ls"
    "run_inv env (SetRotation maxBytes c) d opens plans parts ls"
  using assms
  by (auto simp: run_inv_def Close_def SetAnchoring_def SetRotation_def fits_def accounted_def chain_verifier_def
      plan_ok_def split: sync_choice.splits)

lemma sync_finish_key: "sync_finish p works c d = (b, c', d') \<Longrightarrow> ch_key c' = ch_key c"
  by (auto simp: sync_finish_def split: sync_choice.splits if_split_asm)

lemma openLocked_key: "openLocked io c d = (b, c', d') \<Longrightarrow> ch_key c' = ch_key c"
  by (auto simp: openLocked_def Let_def split: if_split_asm)

lemma rotateLocked_key: "ch_key (fst (snd (rotateLocked io c d))) = ch_key c"
  by (simp add: rotateLocked_def Let_def)

lemma rotateIfFullLocked_key:
  assumes "rotateIfFullLocked io c d = (c', d')"
  shows "ch_key c' = ch_key c"
proof -
  obtain b c1 d1 where o: "openLocked io c d = (b, c1, d1)" by (metis prod_cases3)
  show ?thesis
    using assms openLocked_key [OF o] rotateLocked_key [of io c1 d1]
    by (cases b) (auto simp: rotateIfFullLocked_def o split: if_split_asm)
qed

lemma writeLocked_key:
  assumes "writeLocked io l c d = (b, c', d')"
  shows "ch_key c' = ch_key c"
proof -
  obtain b1 c1 d1 where o: "openLocked io c d = (b1, c1, d1)" by (metis prod_cases3)
  show ?thesis
    using assms openLocked_key [OF o] by (cases b1) (auto simp: writeLocked_def o Let_def split: if_split_asm)
qed

lemma append_section_key:
  assumes "append_section env io e c d = (res, c', d')"
  shows "ch_key c' = ch_key c"
proof (cases "re_marshal env (signed_receipt env io e c)")
  case None
  then show ?thesis using assms by (simp add: append_section_def)
next
  case (Some line)
  obtain c1 d1 where rot: "rotateIfFullLocked io c d = (c1, d1)" by fastforce
  obtain b c2 d2 where wr: "writeLocked io (line @ [CHR 0x0A]) c1 d1 = (b, c2, d2)" by (metis prod_cases3)
  show ?thesis
    using assms rotateIfFullLocked_key [OF rot] writeLocked_key [OF wr]
    by (cases b) (auto simp: append_section_def Some rot wr Let_def)
qed

lemma other_key: "ch_key (Close c) = ch_key c" "ch_key (SetAnchoring afile url every c) = ch_key c"
  "ch_key (SetRotation maxBytes c) = ch_key c"
  by (simp_all add: Close_def SetAnchoring_def SetRotation_def)

theorem receipt_run_inv:
  assumes "receipt_run env c d opens plans" "env_laws env (ch_key c)"
  shows "\<exists>parts ls. run_inv env c d opens plans parts ls"
  using assms
proof (induction rule: receipt_run.induct)
  case (append c d opens plans io e res c' d')
  note key = append_section_key [OF append.hyps(4)]
  then obtain parts ls where "run_inv env c d opens plans parts ls" using append.IH append.prems by auto
  then show ?case using run_inv_append append.hyps(2,3,4) append.prems key by metis
next
  case (finish c d opens plans p works b c' d')
  then show ?case using run_inv_finish sync_finish_key by metis
qed (metis run_inv_start run_inv_plan run_inv_other other_key)+

section \<open>What is written verifies\<close>

text \<open>C36: 
  Whatever the chain writes verifies. After any run of appends, syncs, rotations, configuration and closing, with
  writes, syncs and rotations failing at will, the offline verifier accepts the files under the chain's public key
  and counts as many receipts as the chain does. An outcome names an attempt that has none yet; a partial line can be
  cut off again and a half-made segment removed.
\<close>

theorem written_chain_verifies:
  assumes "receipt_run env c d opens plans" "env_laws env (ch_key c)" "dk_cur d \<noteq> None"
  shows "vy_Valid (VerifyFileKeys env d (SingleKey env (re_public env (ch_key c)))) \<and>
    vy_Total (VerifyFileKeys env d (SingleKey env (re_public env (ch_key c)))) = ch_seq c"
proof -
  obtain parts ls where inv: "run_inv env c d opens plans parts ls" using receipt_run_inv assms(1,2) by blast
  then obtain v where v: "cv_run env (concat parts @ ls) (chain_verifier env c) = (None, v)" "ch_seq c = length (concat parts @ ls)"
    by (auto simp: run_inv_def accounted_def)
  have "verifySegment env d (SingleKey env (re_public env (ch_key c))) whole_chain = cv_result (None, v)"
    using inv v(1) verifySegment_holds [OF _ assms(3)] by (auto simp: run_inv_def fits_def chain_verifier_def)
  moreover have "cv_total v = length (concat parts @ ls)"
    using cv_run_None [OF v(1)] by (simp add: chain_verifier_def newChainVerifier_def)
  ultimately show ?thesis using v(2) by (simp add: VerifyFileKeys_def cv_result_def)
qed

section \<open>Crashes\<close>

text \<open>The lines of the files, and a crash: of the current file at least what was flushed is left.\<close>

definition log_lines :: "chain_disk \<Rightarrow> string list" where
  "log_lines d =
     concat (map (\<lambda>s. case snd s of Some data \<Rightarrow> chain_lines data | None \<Rightarrow> []) (segmentsOf d)) @
     (case dk_cur d of Some data \<Rightarrow> chain_lines data | None \<Rightarrow> [])"

definition crash :: "nat \<Rightarrow> chain_disk \<Rightarrow> chain_disk" where
  "crash k d = d \<lparr>dk_cur := map_option (take (max k (dk_flushed d))) (dk_cur d)\<rparr>"

lemma chain_lines_simps [simp]: "chain_lines [] = []" "good_line l \<Longrightarrow> chain_lines (l @ CHR 0x0A # s) = l # chain_lines s"
  by (simp_all add: chain_lines_def good_line_def SplitByte_append)

lemma chain_lines_render_append: "list_all good_line ls \<Longrightarrow> chain_lines (render ls @ s) = ls @ chain_lines s"
  by (induction ls) simp_all

lemma segment_lines:
  "list_all (list_all good_line) parts \<Longrightarrow>
     concat (map (\<lambda>s. case snd s of Some data \<Rightarrow> chain_lines data | None \<Rightarrow> []) (numbered i parts)) = concat parts"
  by (induction i parts rule: numbered.induct) (simp_all add: chain_lines_render)

lemma log_lines_holds: "holds d parts ls \<Longrightarrow> log_lines d = concat parts @ ls"
  using segmentsOf_holds [of d parts ls]
  by (auto simp: log_lines_def holds_def segment_lines chain_lines_render)

lemma log_lines_crash:
  assumes "holds d parts ls" "durable d parts ls n"
  shows "take n (log_lines (crash k d)) = take n (log_lines d)"
proof -
  obtain m where m: "m \<le> length ls" "n \<le> length (concat parts) + m" "length (render (take m ls)) \<le> dk_flushed d"
    using assms(2) by (auto simp: durable_def)
  have good: "list_all good_line ls" "list_all good_line (take m ls)" "list_all (list_all good_line) parts"
    using assms(1) by (auto simp: holds_def list_all_iff dest: in_set_takeD)
  have segs: "segmentsOf (crash k d) = numbered 0 parts"
    using segmentsOf_holds [OF assms(1)] by (simp add: segmentsOf_def crash_def)
  have "\<exists>rest. (case dk_cur (crash k d) of Some data \<Rightarrow> chain_lines data | None \<Rightarrow> []) = take m ls @ rest"
  proof (cases "dk_cur d")
    case None
    then show ?thesis using assms(1) by (auto simp: holds_def crash_def)
  next
    case (Some data)
    then have "data = render (take m ls) @ render (drop m ls)"
      using assms(1) render_simps(2) [of "take m ls" "drop m ls"] by (auto simp: holds_def simp del: render_simps(2))
    then have "take (max k (dk_flushed d)) data =
        render (take m ls) @ take (max k (dk_flushed d) - length (render (take m ls))) (render (drop m ls))"
      using m(3) by simp
    then show ?thesis using Some good(2) by (simp add: crash_def chain_lines_render_append)
  qed
  then obtain rest where "log_lines (crash k d) = concat parts @ take m ls @ rest"
    using segs segment_lines [OF good(3), of 0] by (auto simp: log_lines_def)
  moreover have "log_lines d = concat parts @ take m ls @ drop m ls"
    using log_lines_holds [OF assms(1)] by simp
  moreover have "n \<le> length (concat parts @ take m ls)" using m by simp
  ultimately show ?thesis by (metis append_assoc take_append diff_is_0_eq take0 append_Nil2)
qed

text \<open>C38: 
  A durable append survives a crash. When an append that asked for durability reports success, in any state a
  run of the chain reaches, its line is the last one of the files, and whatever part of the unflushed bytes a crash
  takes, the lines up to and with it are read back unchanged.
\<close>

theorem durable_receipt_survives:
  assumes "receipt_run env c d opens plans" "env_laws env (ch_key c)" "entry_ok env io e c opens" "io_ok io d"
    and "chain_Append env io e True c d = (Appended r, c', d')"
  shows "log_lines d' = log_lines d @ [the (re_marshal env r)] \<and> log_lines (crash k d') = log_lines d'"
proof -
  obtain parts ls where inv: "run_inv env c d opens plans parts ls" using receipt_run_inv assms(1,2) by blast
  obtain res c1 d1 where sec: "append_section env io e c d = (res, c1, d1)" by (metis prod_cases3)
  from assms(5) sec have res: "res = Inr r" "syncThrough (io_sync io) (ch_seq c1) c1 d1 = (True, c', d')"
    by (auto simp: chain_Append_def split: sum.splits prod.splits bool.splits)
  from run_inv_append [OF assms(2) inv assms(3,4) sec] obtain parts1 ls1 where one:
    "run_inv env c1 d1 (attempts_after r opens) plans parts1 ls1"
    "concat parts1 @ ls1 = (concat parts @ ls) @ [the (re_marshal env r)]"
    "ch_seq c1 = Suc (ch_seq c)" "ch_f c1 \<noteq> None" "ch_synced c1 = ch_synced c"
    using res(1) by auto
  have "ch_synced c \<le> ch_seq c" using inv durable_le by (auto simp: run_inv_def accounted_def)
  then obtain h where plan: "sync_plan c1 (ch_seq c1) = SyncFile (ch_seq c1) h" "ch_f c1 = Some h"
    using one(3,4,5) by (auto simp: sync_plan_def)
  then have cur: "dk_cur d1 = Some (render ls1)" "d' = d1 \<lparr>dk_flushed := length (render ls1)\<rparr>"
    using res(2) one(1) by (auto simp: syncThrough_def sync_finish_def run_inv_def fits_def holds_def split: if_split_asm)
  have h1: "holds d1 parts1 ls1" and h: "holds d parts ls" using one(1) inv by (auto simp: run_inv_def fits_def)
  then have "holds d' parts1 ls1" by (simp add: cur(2) holds_def)
  moreover have "crash k d' = d'" by (simp add: crash_def cur)
  ultimately show ?thesis using one(2) log_lines_holds h by simp
qed

end
