(* ===== verification/Receipt_Keys.thy ===== *)
theory Receipt_Keys
  imports Receipt_Log
begin

text \<open>
  Component: opening a receipt chain, its key history and its anchors (\<^verbatim>\<open>proxy/internal/receipts\<close>: \<^verbatim>\<open>chain.go\<close>,
  \<^verbatim>\<open>segments.go\<close>, \<^verbatim>\<open>keys.go\<close>, \<^verbatim>\<open>anchor.go\<close>). The key history is its decoded lines, or unreadable; a file that is not
  there is an empty history. The anchor file is its lines, decoded by a parameter.
\<close>

section \<open>Key files\<close>

record key_files =
  kf_key :: "string option"
  kf_pub :: "string option"
  kf_hist :: "KeyRecord list option"

datatype key_err =
    KeyMissing
  | KeyBad
  | PubMissing
  | PubBad
  | HistoryUnreadable
  | HistoryBadEntry string
  | KeyNotFound string
  | KeyWriteFailed
  | KeyLost
  | KeyRetired
  | TailUnparseable
  | SegmentUnreadable string
  | RotationStuck
  | ChainUnreadable

definition loadKey :: "string option \<Rightarrow> key_err + string" where
  "loadKey content =
     (case content of
        None \<Rightarrow> Inl KeyMissing
      | Some text_ \<Rightarrow>
          (case hex_DecodeString (TrimSpace text_) of
             None \<Rightarrow> Inl KeyBad
           | Some raw \<Rightarrow> if length raw \<noteq> PrivateKeySize then Inl KeyBad else Inr raw))"

fun ring_of :: "receipt_env \<Rightarrow> KeyRecord list \<Rightarrow> KeyRing \<Rightarrow> key_err + KeyRing" where
  "ring_of env [] k = Inr k"
| "ring_of env (rec # recs) k =
     (case hex_DecodeString (ky_Pub rec) of
        None \<Rightarrow> Inl (HistoryBadEntry (ky_KeyID rec))
      | Some pub \<Rightarrow>
          if length pub \<noteq> ReceiptKeySize \<or> KeyID env pub \<noteq> ky_KeyID rec then Inl (HistoryBadEntry (ky_KeyID rec))
          else ring_of env recs (ring_add rec pub k))"

definition LoadKeyRing :: "receipt_env \<Rightarrow> key_files \<Rightarrow> key_err + KeyRing" where
  "LoadKeyRing env kf =
     (case kf_pub kf of
        None \<Rightarrow> Inl PubMissing
      | Some text_ \<Rightarrow>
          (case hex_DecodeString (TrimSpace text_) of
             None \<Rightarrow> Inl PubBad
           | Some cur \<Rightarrow>
               if length cur \<noteq> ReceiptKeySize then Inl PubBad
               else (case kf_hist kf of
                       None \<Rightarrow> Inl HistoryUnreadable
                     | Some hist \<Rightarrow>
                         (case ring_of env hist empty_ring of
                            Inl e \<Rightarrow> Inl e
                          | Inr k \<Rightarrow>
                              Inr (if ring_record (KeyID env cur) k = None
                                   then ring_add (plain_record env cur) cur k else k)))))"

text \<open>A time that is only moved forward to an earlier one.\<close>

definition earliest :: "time \<Rightarrow> time option \<Rightarrow> time option" where
  "earliest t old = (case old of None \<Rightarrow> Some t | Some u \<Rightarrow> if t < u then Some t else Some u)"

definition close_window :: "string \<Rightarrow> time \<Rightarrow> KeyRecord \<Rightarrow> KeyRecord" where
  "close_window kid now rec =
     (if ky_KeyID rec = kid then rec \<lparr>ky_NotAfter := earliest now (ky_NotAfter rec)\<rparr> else rec)"

definition mark_revoked :: "string \<Rightarrow> time \<Rightarrow> KeyRecord \<Rightarrow> KeyRecord" where
  "mark_revoked kid t rec =
     (if ky_KeyID rec = kid then rec \<lparr>ky_RevokedAt := earliest t (ky_RevokedAt rec)\<rparr> else rec)"

text \<open>
  \<open>RotateKey\<close>: the history is written first, then the key, then its public half. The three flags say which of the
  writes work; a write replaces its file at once or leaves it.
\<close>

definition rotated_history :: "receipt_env \<Rightarrow> string \<Rightarrow> string \<Rightarrow> time \<Rightarrow> KeyRecord list \<Rightarrow> KeyRecord list" where
  "rotated_history env oldPub newPub now hist =
     (let oldID = KeyID env oldPub in
      (if list_ex (\<lambda>rec. ky_KeyID rec = oldID) hist then map (close_window oldID now) hist
       else hist @ [(plain_record env oldPub) \<lparr>ky_NotAfter := Some now\<rparr>]) @
      [(plain_record env newPub) \<lparr>ky_NotBefore := Some now\<rparr>])"

definition RotateKey ::
  "receipt_env \<Rightarrow> bool \<times> bool \<times> bool \<Rightarrow> string \<Rightarrow> time \<Rightarrow> key_files \<Rightarrow> (key_err + string \<times> string) \<times> key_files" where
  "RotateKey env works newKey now kf =
     (case loadKey (kf_key kf) of
        Inl e \<Rightarrow> (Inl e, kf)
      | Inr old \<Rightarrow>
          (case kf_hist kf of
             None \<Rightarrow> (Inl HistoryUnreadable, kf)
           | Some hist \<Rightarrow>
               (let oldPub = re_public env old; newPub = re_public env newKey;
                    kf1 = kf \<lparr>kf_hist := Some (rotated_history env oldPub newPub now hist)\<rparr>;
                    kf2 = kf1 \<lparr>kf_key := Some (hex_EncodeToString newKey)\<rparr>;
                    kf3 = kf2 \<lparr>kf_pub := Some (hex_EncodeToString newPub)\<rparr> in
                if \<not> fst works then (Inl KeyWriteFailed, kf)
                else if \<not> fst (snd works) then (Inl KeyWriteFailed, kf1)
                else if \<not> snd (snd works) then (Inl KeyWriteFailed, kf2)
                else (Inr (KeyID env oldPub, KeyID env newPub), kf3))))"

text \<open>\<open>RevokeKey\<close>: the last record of the ring that is named by its id or its public key.\<close>

definition RevokeKey ::
  "receipt_env \<Rightarrow> bool \<Rightarrow> string \<Rightarrow> time \<Rightarrow> key_files \<Rightarrow> (key_err + string) \<times> key_files" where
  "RevokeKey env works which t kf =
     (case LoadKeyRing env kf of
        Inl e \<Rightarrow> (Inl e, kf)
      | Inr ring \<Rightarrow>
          (case find (\<lambda>rec. ky_KeyID rec = which \<or> ky_Pub rec = ToLower which) (rev (kg_recs ring)) of
             None \<Rightarrow> (Inl (KeyNotFound which), kf)
           | Some target \<Rightarrow>
               (case kf_hist kf of
                  None \<Rightarrow> (Inl HistoryUnreadable, kf)
                | Some hist \<Rightarrow>
                    (let hist' =
                       (if list_ex (\<lambda>rec. ky_KeyID rec = ky_KeyID target) hist
                        then map (mark_revoked (ky_KeyID target) t) hist
                        else hist @ [target \<lparr>ky_RevokedAt := Some t\<rparr>]) in
                     if works then (Inr (ky_KeyID target), kf \<lparr>kf_hist := Some hist'\<rparr>)
                     else (Inl KeyWriteFailed, kf)))))"

section \<open>Opening a chain\<close>

definition lastNonEmptyLine :: "string \<Rightarrow> string" where
  "lastNonEmptyLine data =
     (let body = TrimRightByte data (CHR 0x0A) in
      case LastIndexByte body (CHR 0x0A) of
        Some i \<Rightarrow> drop (Suc i) body
      | None \<Rightarrow> body)"

text \<open>
  \<open>repairInterruptedRotation\<close>: the current file is emptied when it starts and ends like the newest segment; the flag
  says whether the truncation works.
\<close>

definition repairInterruptedRotation :: "bool \<Rightarrow> chain_disk \<Rightarrow> bool \<times> chain_disk" where
  "repairInterruptedRotation works d =
     (let segs = segmentsOf d in
      if segs = [] then (True, d)
      else (case dk_cur d of
              None \<Rightarrow> (True, d)
            | Some data \<Rightarrow>
                if TrimSpace data = [] then (True, d)
                else (case eachLineOf keep_line (snd (last segs)) [] of
                        (Some _, _) \<Rightarrow> (True, d)
                      | (None, ls) \<Rightarrow>
                          if ls = [] \<or> hd (SplitByte (CHR 0x0A) (TrimLeftByte data (CHR 0x0A))) \<noteq> hd ls \<or>
                             lastNonEmptyLine data \<noteq> last ls
                          then (True, d)
                          else if works then (True, d \<lparr>dk_cur := Some [], dk_flushed := 0\<rparr>) else (False, d))))"

text \<open>The head and the length a chain resumes from.\<close>

definition resume :: "receipt_env \<Rightarrow> chain_disk \<Rightarrow> key_err + string \<times> nat" where
  "resume env d =
     (let data = (case dk_cur d of None \<Rightarrow> [] | Some data \<Rightarrow> data); segs = segmentsOf d in
      if data \<noteq> [] then
        (case parseLine env (lastNonEmptyLine data) of
           Inl _ \<Rightarrow> Inl TailUnparseable
         | Inr _ \<Rightarrow>
             Inr (hashLine env (lastNonEmptyLine data),
                  CountByte data (CHR 0x0A) + (if last data \<noteq> CHR 0x0A then 1 else 0) + countLines segs))
      else if segs \<noteq> [] then
        (case lastLineOf (snd (last segs)) of
           Inl e \<Rightarrow> Inl (SegmentUnreadable e)
         | Inr line \<Rightarrow>
             (case parseLine env line of
                Inl _ \<Rightarrow> Inl TailUnparseable
              | Inr _ \<Rightarrow> Inr (hashLine env line, countLines segs)))
      else Inr ([], 0))"

text \<open>
  \<open>LoadOrCreate\<close>: the flags say whether the repair's truncation, the reading of the current file and the writing of a
  fresh key work; \<open>fresh\<close> is the key generated when there is none.
\<close>

definition use_key :: "receipt_env \<Rightarrow> bool \<Rightarrow> string \<Rightarrow> key_files \<Rightarrow> chain_disk \<Rightarrow> key_err + string \<times> key_files" where
  "use_key env works fresh kf d =
     (case loadKey (kf_key kf) of
        Inr key \<Rightarrow> Inr (key, kf)
      | Inl KeyMissing \<Rightarrow>
          if TrimSpace (case dk_cur d of None \<Rightarrow> [] | Some data \<Rightarrow> data) \<noteq> [] \<or> segmentsOf d \<noteq> [] then Inl KeyLost
          else if \<not> works then Inl KeyWriteFailed
          else Inr (fresh, kf \<lparr>kf_key := Some (hex_EncodeToString fresh),
                               kf_pub := Some (hex_EncodeToString (re_public env fresh))\<rparr>)
      | Inl e \<Rightarrow> Inl e)"

definition key_retired :: "receipt_env \<Rightarrow> string \<Rightarrow> key_files \<Rightarrow> bool" where
  "key_retired env key kf =
     (case LoadKeyRing env kf of
        Inl _ \<Rightarrow> False
      | Inr ring \<Rightarrow>
          (case ring_record (KeyID env (re_public env key)) ring of
             None \<Rightarrow> False
           | Some rec \<Rightarrow> ky_NotAfter rec \<noteq> None \<or> ky_RevokedAt rec \<noteq> None))"

definition LoadOrCreate ::
  "receipt_env \<Rightarrow> bool \<times> bool \<times> bool \<Rightarrow> string \<Rightarrow> string \<Rightarrow> key_files \<Rightarrow> chain_disk \<Rightarrow>
   key_err + Chain \<times> key_files \<times> chain_disk" where
  "LoadOrCreate env works fresh session kf d =
     (case repairInterruptedRotation (fst works) d of
        (False, _) \<Rightarrow> Inl RotationStuck
      | (True, d1) \<Rightarrow>
          if \<not> fst (snd works) then Inl ChainUnreadable
          else (case use_key env (snd (snd works)) fresh kf d1 of
                  Inl e \<Rightarrow> Inl e
                | Inr (key, kf1) \<Rightarrow>
                    if key_retired env key kf1 then Inl KeyRetired
                    else (case resume env d1 of
                            Inl e \<Rightarrow> Inl e
                          | Inr (head, seq) \<Rightarrow>
                              Inr ((new_chain env key session) \<lparr>ch_prevHash := head, ch_seq := seq\<rparr>, kf1, d1))))"

section \<open>Anchors\<close>

datatype anchor_file = AnchorsAbsent | AnchorsUnreadable string | AnchorBytes string

fun check_anchors ::
  "(string \<Rightarrow> Anchor option) \<Rightarrow> string list \<Rightarrow> string list \<Rightarrow> VerifyResult \<Rightarrow> VerifyResult" where
  "check_anchors dec heads [] res = (if 0 < vy_Anchors res then res \<lparr>vy_AnchorsValid := True\<rparr> else res)"
| "check_anchors dec heads (line # lines) res =
     (case dec line of
        None \<Rightarrow> res \<lparr>vy_Valid := False, vy_Reason := Some (AnchorUnparseable (vy_Anchors res))\<rparr>
      | Some a \<Rightarrow>
          if an_Seq a < 1 \<or> int (length heads) < an_Seq a \<or> heads ! nat (an_Seq a - 1) \<noteq> an_Head a
          then res \<lparr>vy_Anchors := Suc (vy_Anchors res), vy_Valid := False, vy_AnchorsValid := False,
                    vy_FailAt := an_Seq a, vy_Reason := Some (AnchorMismatch (vy_Anchors res) (an_Seq a))\<rparr>
          else check_anchors dec heads lines (res \<lparr>vy_Anchors := Suc (vy_Anchors res)\<rparr>))"

definition VerifyAnchorFileKeys ::
  "receipt_env \<Rightarrow> (string \<Rightarrow> Anchor option) \<Rightarrow> anchor_file \<Rightarrow> chain_disk \<Rightarrow> KeyRing \<Rightarrow> VerifyResult" where
  "VerifyAnchorFileKeys env dec af d ring =
     (case verifySegment env d ring whole_chain of
        (res, heads, _) \<Rightarrow>
          if \<not> vy_Valid res then res
          else (case af of
                  AnchorsAbsent \<Rightarrow> res \<lparr>vy_Reason := Some (ReadFailure ''no such file or directory'')\<rparr>
                | AnchorsUnreadable e \<Rightarrow> res \<lparr>vy_Reason := Some (ReadFailure e)\<rparr>
                | AnchorBytes data \<Rightarrow> check_anchors dec heads (chain_lines data) res))"

definition VerifyWithAnchorsKeys ::
  "receipt_env \<Rightarrow> (string \<Rightarrow> Anchor option) \<Rightarrow> anchor_file \<Rightarrow> chain_disk \<Rightarrow> KeyRing \<Rightarrow> VerifyResult \<times> bool" where
  "VerifyWithAnchorsKeys env dec af d ring =
     (if af = AnchorsAbsent then (VerifyFileKeys env d ring, False)
      else let res = VerifyAnchorFileKeys env dec af d ring in (res, 0 < vy_Anchors res))"

text \<open>\<open>readAnchors\<close> and \<open>VerifySegmentWithAnchors\<close>: the anchors of the whole chain against a cut of it.\<close>

fun read_anchor_lines :: "(string \<Rightarrow> Anchor option) \<Rightarrow> string list \<Rightarrow> Anchor list option" where
  "read_anchor_lines dec [] = Some []"
| "read_anchor_lines dec (line # lines) =
     (if TrimSpace line = [] then read_anchor_lines dec lines
      else (case dec line of
              None \<Rightarrow> None
            | Some a \<Rightarrow> map_option ((#) a) (read_anchor_lines dec lines)))"

fun segment_anchors ::
  "Segment \<Rightarrow> string list \<Rightarrow> nat \<Rightarrow> Anchor list \<Rightarrow> VerifyResult \<Rightarrow> VerifyResult \<times> bool" where
  "segment_anchors seg heads i [] res = (res \<lparr>vy_AnchorsValid := 0 < vy_Anchors res\<rparr>, 0 < vy_Anchors res)"
| "segment_anchors seg heads i (a # as) res =
     (let res' = res \<lparr>vy_Anchors := Suc (vy_Anchors res)\<rparr>; pos = an_Seq a - sm_After seg in
      if pos < 0 then segment_anchors seg heads (Suc i) as res'
      else if pos = 0 then
        (if 0 < sm_After seg \<and> an_Head a \<noteq> sm_PrevHash seg
         then (res' \<lparr>vy_Valid := False, vy_Reason := Some (AnchorStartMismatch i)\<rparr>, True)
         else segment_anchors seg heads (Suc i) as res')
      else if int (length heads) < pos \<or> heads ! nat (pos - 1) \<noteq> an_Head a
      then (res' \<lparr>vy_Valid := False, vy_FailAt := an_Seq a, vy_Reason := Some (AnchorMismatch i (an_Seq a))\<rparr>, True)
      else segment_anchors seg heads (Suc i) as res')"

definition VerifySegmentWithAnchors ::
  "receipt_env \<Rightarrow> (string \<Rightarrow> Anchor option) \<Rightarrow> anchor_file \<Rightarrow> chain_disk \<Rightarrow> KeyRing \<Rightarrow> Segment \<Rightarrow> VerifyResult \<times> bool" where
  "VerifySegmentWithAnchors env dec af d ring seg =
     (case verifySegment env d ring seg of
        (res, heads, _) \<Rightarrow>
          if \<not> vy_Valid res then (res, False)
          else (case af of
                  AnchorsAbsent \<Rightarrow> (res, False)
                | AnchorsUnreadable e \<Rightarrow> (res \<lparr>vy_Valid := False, vy_Reason := Some (ReadFailure e)\<rparr>, False)
                | AnchorBytes data \<Rightarrow>
                    (case read_anchor_lines dec (SplitByte (CHR 0x0A) data) of
                       None \<Rightarrow> (res \<lparr>vy_Valid := False, vy_Reason := Some (ReadFailure ''unparseable anchor'')\<rparr>, False)
                     | Some as \<Rightarrow> segment_anchors seg heads 0 as res)))"

text \<open>\<open>CheckBeforeResume\<close>: nothing is checked when the anchor file is not there or empty.\<close>

definition CheckBeforeResume ::
  "receipt_env \<Rightarrow> (string \<Rightarrow> Anchor option) \<Rightarrow> anchor_file \<Rightarrow> chain_disk \<Rightarrow> key_files \<Rightarrow> bool" where
  "CheckBeforeResume env dec af d kf =
     (if af = AnchorsAbsent \<or> af = AnchorBytes [] then True
      else (case LoadKeyRing env kf of
              Inl _ \<Rightarrow> False
            | Inr ring \<Rightarrow> vy_Valid (fst (VerifyWithAnchorsKeys env dec af d ring))))"

end
