(* ===== verification/Receipt_Anchors.thy ===== *)
theory Receipt_Anchors
  imports Receipt_Runs Receipt_Keys
begin

text \<open>
  What anchors establish of a receipt chain, a concrete run, and four places where the code and what is said of it
  come apart: an unreadable anchor file, the zone of a time, a carriage return in a rotated chain, and a sync that
  meets a rotation.
\<close>

section \<open>What a valid result means, whatever is on disk\<close>

lemma scan_accepted:
  "scan (cv_step env) raws v = (None, v') \<Longrightarrow>
     cv_run env (filter (\<lambda>l. l \<noteq> []) (map dropCR raws)) v = (None, v')"
proof (induction raws arbitrary: v)
  case (Cons raw raws)
  then show ?case by (auto split: if_split_asm prod.splits option.splits)
qed simp

lemma walk_accepted:
  "walk_segments (cv_step env) segs v = (None, v') \<Longrightarrow> \<exists>ls. cv_run env ls v = (None, v')"
proof (induction segs arbitrary: v)
  case Nil
  then show ?case by (intro exI [of _ "[]"]) simp
next
  case (Cons seg segs)
  obtain o1 v1 where one: "eachLineOf (cv_step env) (snd seg) v = (o1, v1)" by fastforce
  with Cons.prems have "o1 = None" "walk_segments (cv_step env) segs v1 = (None, v')"
    by (auto split: option.splits)
  moreover obtain ls where "cv_run env ls v = (None, v1)"
    using one \<open>o1 = None\<close> scan_accepted by (fastforce simp: eachLineOf_def split: option.splits)
  moreover obtain ls' where "cv_run env ls' v1 = (None, v')"
    using Cons.IH calculation(2) by blast
  ultimately show ?case by (intro exI [of _ "ls @ ls'"]) (simp add: cv_run_append)
qed

lemma walk_all_accepted:
  assumes "ForEachLine (cv_step env) d v = (None, v')"
  shows "\<exists>ls. cv_run env ls v = (None, v')"
proof -
  obtain o1 v1 where one: "walk_segments (cv_step env) (segmentsOf d) v = (o1, v1)" by fastforce
  with assms have "o1 = None" by (auto simp: ForEachLine_def split: option.splits)
  then obtain ls where ls: "cv_run env ls v = (None, v1)" using walk_accepted one by blast
  show ?thesis
  proof (cases "dk_cur d")
    case None
    then show ?thesis using assms one ls \<open>o1 = None\<close> by (auto simp: ForEachLine_def)
  next
    case (Some data)
    then have "scan (cv_step env) (scan_tokens data) v1 = (None, v')"
      using assms one \<open>o1 = None\<close> by (simp add: ForEachLine_def)
    from scan_accepted [OF this] ls show ?thesis
      by (intro exI [of _ "ls @ _"]) (simp add: cv_run_append)
  qed
qed

lemma cv_result_valid: "vy_Valid (fst (cv_result (e, v))) \<longleftrightarrow> e = None" "snd (cv_result (e, v)) = (cv_heads v, cv_recs v)"
  by (simp_all add: cv_result_def)

definition verified_lines :: "receipt_env \<Rightarrow> chain_disk \<Rightarrow> KeyRing \<Rightarrow> string list" where
  "verified_lines env d ring = map snd (snd (snd (verifySegment env d ring whole_chain)))"

lemma linked_take: "linked env prev ls \<Longrightarrow> linked env prev (take n ls)"
  by (metis append_take_drop_id linked_append)

lemma verifySegment_runs:
  assumes "vy_Valid (fst (verifySegment env d ring seg))"
  shows "\<exists>ls v. cv_run env ls (newChainVerifier ring seg) = (None, v) \<and>
    snd (verifySegment env d ring seg) = (cv_heads v, cv_recs v)"
proof -
  have nothing_missing: "missingSegment (segmentsOf d) = 0"
    using assms by (simp add: verifySegment_def Let_def split: if_split_asm)
  show ?thesis
  proof (cases "segmentsOf d = []")
    case True
    then obtain data where "dk_cur d = Some data"
      using assms nothing_missing by (cases "dk_cur d") (simp_all add: verifySegment_def)
    then have eq: "verifySegment env d ring seg = verifyData env data ring seg"
      using True nothing_missing by (simp add: verifySegment_def)
    obtain e v where run: "cv_run env (chain_lines data) (newChainVerifier ring seg) = (e, v)" by fastforce
    then show ?thesis using assms cv_result_valid [of e v] by (auto simp: eq verifyData_def)
  next
    case False
    obtain o1 v where walk: "ForEachLine (cv_step env) d (newChainVerifier ring seg) = (o1, v)" by fastforce
    have eq: "verifySegment env d ring seg =
        cv_result (case o1 of None \<Rightarrow> None | Some (WalkIO e) \<Rightarrow> Some (ReadFailure e) | Some (WalkStop e) \<Rightarrow> Some e, v)"
      using False nothing_missing by (simp add: verifySegment_def walk split: option.splits walk_err.splits)
    then have "o1 = None" using assms by (auto simp: cv_result_valid split: option.splits walk_err.splits)
    then obtain ls where "cv_run env ls (newChainVerifier ring seg) = (None, v)"
      using walk_all_accepted walk by blast
    then show ?thesis using \<open>o1 = None\<close> by (auto simp: eq cv_result_valid)
  qed
qed

lemma verifySegment_valid:
  assumes "verifySegment env d ring whole_chain = (res, heads, recs)" "vy_Valid res"
  shows "linked env [] (map snd recs) \<and> heads = map (hashLine env) (map snd recs) \<and>
    (\<forall>r\<in>fst ` set recs. authentic env ring r)"
proof -
  obtain ls v where run: "cv_run env ls (newChainVerifier ring whole_chain) = (None, v)"
    and "heads = cv_heads v" "recs = cv_recs v"
    using verifySegment_runs [of env d ring whole_chain] assms by auto
  then show ?thesis using cv_run_None [OF run] by (simp add: newChainVerifier_def whole_chain_def)
qed

lemma check_anchors_valid:
  "vy_Valid (check_anchors dec heads lines res) \<Longrightarrow> line \<in> set lines \<Longrightarrow>
     \<exists>a. dec line = Some a \<and> 1 \<le> an_Seq a \<and> an_Seq a \<le> int (length heads) \<and> heads ! nat (an_Seq a - 1) = an_Head a"
  by (induction dec heads lines res rule: check_anchors.induct) (auto split: option.splits if_split_asm)

text \<open>C37: 
  An anchored history cannot be rewritten. Take an anchor the chain wrote while it grew, and any files that verify
  against an anchor file with that anchor in it, under any keys: up to the anchored position they hold exactly the
  lines the chain had written. So a log that was cut short, had entries removed, or was cut and continued does not
  verify. The lines compared are assumed to have no hash collision.
\<close>

theorem anchored_history_fixed:
  assumes "receipt_run env c d opens plans" "env_laws env (ch_key c)" "a \<in> set (dk_anchors d)"
    and "line \<in> set (chain_lines data)" "dec line = Some a"
    and "vy_Valid (VerifyAnchorFileKeys env dec (AnchorBytes data) d' ring)"
    and "no_collision env (log_lines d @ verified_lines env d' ring)"
  shows "take (nat (an_Seq a)) (verified_lines env d' ring) = take (nat (an_Seq a)) (log_lines d) \<and>
    nat (an_Seq a) \<le> length (verified_lines env d' ring)"
proof -
  obtain parts ls where inv: "run_inv env c d opens plans parts ls" using receipt_run_inv assms(1,2) by blast
  then have log: "log_lines d = concat parts @ ls" "anchor_ok env (log_lines d) a" "linked env [] (log_lines d)"
    using log_lines_holds [of d parts ls] assms(3) cv_run_None
    by (fastforce simp: run_inv_def fits_def list_all_iff accounted_def chain_verifier_def newChainVerifier_def
        whole_chain_def)+
  obtain res heads recs where seg: "verifySegment env d' ring whole_chain = (res, heads, recs)" by (metis prod_cases3)
  have valid: "vy_Valid res" "vy_Valid (check_anchors dec heads (chain_lines data) res)"
    using assms(6) by (auto simp: VerifyAnchorFileKeys_def seg split: if_split_asm)
  define ls' n where "ls' = verified_lines env d' ring" and "n = nat (an_Seq a)"
  have ls': "linked env [] ls'" "heads = map (hashLine env) ls'"
    using verifySegment_valid [OF seg valid(1)] by (simp_all add: ls'_def verified_lines_def seg)
  have n: "1 \<le> n" "n \<le> length ls'" "n \<le> length (log_lines d)" "heads ! (n - 1) = an_Head a"
    using check_anchors_valid [OF valid(2) assms(4)] assms(5) log(2) ls'(2)
    by (auto simp: n_def anchor_ok_def nat_diff_distrib)
  have "head_of env [] (take n ls') = hashLine env (ls' ! (n - 1))"
    using n by (auto simp: head_of_def last_conv_nth min_def)
  also have "\<dots> = head_of env [] (take n (log_lines d))"
    using n log(2) ls'(2) by (simp add: anchor_ok_def n_def)
  finally have same: "head_of env [] (take n ls') = head_of env [] (take n (log_lines d))" .
  have "linked env [] (take n ls')" "linked env [] (take n (log_lines d))"
    using ls'(1) log(3) linked_take by simp_all
  moreover have "no_collision env (take n ls' @ take n (log_lines d))"
    using assms(7) unfolding no_collision_def ls'_def [symmetric]
    by (auto dest: in_set_takeD elim!: inj_on_subset)
  ultimately have "take n ls' = take n (log_lines d)" using head_fixes_lines same by blast
  then show ?thesis using n by (simp add: ls'_def n_def)
qed

section \<open>Where the checks are looser than described\<close>

text \<open>
  An anchor file that is there but cannot be read leaves the result valid, so \<open>CheckBeforeResume\<close> lets a run continue
  on it; the check of a cut of the chain refuses in the same place.
\<close>

theorem unreadable_anchors_pass:
  "vy_Valid (fst (VerifyWithAnchorsKeys env dec (AnchorsUnreadable e) d ring)) = vy_Valid (VerifyFileKeys env d ring) \<and>
   \<not> vy_Valid (fst (VerifySegmentWithAnchors env dec (AnchorsUnreadable e) d ring seg))"
  by (auto simp: VerifyWithAnchorsKeys_def VerifyAnchorFileKeys_def VerifyFileKeys_def VerifySegmentWithAnchors_def Let_def
      split: prod.splits)

lemma ring_verify_cong:
  "rc_V r = rc_V s \<Longrightarrow> rc_KeyID r = rc_KeyID s \<Longrightarrow> sp_at (rc_Timestamp r) = sp_at (rc_Timestamp s) \<Longrightarrow>
     ring_verify env k r msg sigHex = ring_verify env k s msg sigHex"
  by (cases "hex_DecodeString sigHex"; cases "ring_record (rc_KeyID s) k") (simp_all add: ring_verify_def)

text \<open>
  The zone a receipt's time is written in is covered by no signature, so until a later line covers it the last line can
  be respelled in another zone: the verifier accepts it.
\<close>

theorem zone_respelling_accepted:
  assumes "cv_step env line v = (None, v')" "parseLine env line = Inr r" "rc_V r = 2"
    and "parseLine env line2 = Inr (r \<lparr>rc_Timestamp := \<lparr>sp_at = sp_at (rc_Timestamp r), sp_zone = z\<rparr>\<rparr>)"
  shows "fst (cv_step env line2 v) = None"
proof -
  let ?r = "r \<lparr>rc_Timestamp := \<lparr>sp_at = sp_at (rc_Timestamp r), sp_zone = z\<rparr>\<rparr>"
  have "rc_PrevHash r = cv_prevHash v" using assms(1,2) by (auto simp: cv_step_def split: if_split_asm)
  moreover obtain opens where "step_v2 env r v = Inr opens"
    using assms(1,2,3) by (auto simp: cv_step_def split: if_split_asm sum.splits)
  moreover have "step_v2 env ?r v = step_v2 env r v"
  proof -
    have "ring_verify env (cv_ring v) ?r msg s = ring_verify env (cv_ring v) r msg s" for msg s
      by (intro ring_verify_cong) simp_all
    moreover have "step_phase ?r v = step_phase r v" by (simp add: step_phase_def)
    ultimately show ?thesis using zone_not_signed [of r z]
      by (simp add: step_v2_def cong: option.case_cong)
  qed
  ultimately show ?thesis using assms(3,4) by (simp add: cv_step_def)
qed

text \<open>
  In a chain with segments a carriage return behind a line is dropped before the line is checked, so a byte that
  nothing covers can be added to each line; a chain of one file is refused for it.
\<close>

theorem carriage_return_accepted:
  assumes "good_line l" "Suc (length l) < 8388608"
  shows "scan (cv_step env) ((l @ [CHR 0x0D]) # raws) v = scan (cv_step env) (l # raws) v \<and>
    chain_lines (l @ [CHR 0x0D, CHR 0x0A]) = [l @ [CHR 0x0D]]"
proof -
  have "dropCR (l @ [CHR 0x0D]) = l" by (simp add: dropCR_def)
  moreover have "SplitByte (CHR 0x0A) ((l @ [CHR 0x0D]) @ CHR 0x0A # []) = (l @ [CHR 0x0D]) # SplitByte (CHR 0x0A) []"
    using assms(1) by (intro SplitByte_append) (simp add: good_line_def)
  ultimately show ?thesis
    using assms dropCR_good [OF assms(1)] by (simp add: chain_lines_def good_line_def)
qed

text \<open>
  A durable append whose sync meets a rotation fails although its line is on disk: the file it was about to sync
  has been closed, and the error is returned without looking at how far the rotation synced.
\<close>

theorem sync_meets_rotation:
  assumes "sync_plan c seq = SyncFile n h" "seq \<le> ch_rotatedThrough c'" "ch_f c' \<noteq> Some h"
  shows "fst (sync_finish (sync_plan c seq) works c' d) = False \<and> sync_plan (c' \<lparr>ch_f := None\<rparr>) seq \<noteq> SyncNotOpen"
  using assms by (simp add: sync_finish_def sync_plan_def)

section \<open>A concrete chain\<close>

text \<open>An environment that knows one receipt: its encoding is a single line.\<close>

definition sample_base :: receipt_env where
  "sample_base =
     \<lparr>re_sha = (\<lambda>s. CHR ''h'' # s), re_verify = (\<lambda>pub msg sig. True), re_sign = (\<lambda>key msg. replicate 64 (CHR ''s'')),
      re_public = (\<lambda>key. replicate 32 (CHR ''p'')), re_decode = (\<lambda>line. Inl ''unknown''), re_marshal = (\<lambda>r. None)\<rparr>"

definition sample_entry :: Entry where
  "sample_entry =
     \<lparr>ey_Method = ''GET'', ey_URL = ''https://h.io/'', ey_Decision = ''allow'', ey_Status = 0, ey_ApprovalID = [],
      ey_Phase = ''attempt'', ey_Outcome = ''sent'', ey_AttemptID = [], ey_Agent = [], ey_Rule = [], ey_PolicyHash = [],
      ey_Approver = [], ey_ReqBytes = 0, ey_RespBytes = 0, ey_BodySHA256 = [], ey_Reasons = []\<rparr>"

definition sample_io :: chain_io where
  "sample_io =
     \<lparr>io_id = ''1'', io_now = \<lparr>sp_at = 0, sp_zone = ''Z''\<rparr>, io_open = True, io_taken = 100, io_fault = False, io_cut = True,
      io_sync = True, io_rotate = RotWorks, io_remove = True, io_anchor = True\<rparr>"

definition sample_key :: string where "sample_key = replicate 64 (CHR ''k'')"

definition sample_start :: Chain where
  "sample_start = SetAnchoring ''anchors'' [] 1 (new_chain sample_base sample_key ''s'')"

definition sample_written :: Receipt where
  "sample_written = signed_receipt sample_base sample_io sample_entry sample_start"

definition sample_env :: receipt_env where
  "sample_env = sample_base
     \<lparr>re_decode := (\<lambda>line. if line = ''{1}'' then Inr (sample_written, False) else Inl ''unknown''),
      re_marshal := (\<lambda>r. if r = sample_written then Some ''{1}'' else None)\<rparr>"

lemma sample_laws: "env_laws sample_env key"
  by (auto simp: env_laws_def sample_env_def sample_base_def ReceiptKeySize_def SignatureSize_def split: if_split_asm)

lemma sample_signed: "signed_receipt sample_env sample_io sample_entry sample_start = sample_written"
  by (simp add: sample_written_def signed_receipt_def sample_env_def sample_base_def Let_def)

lemma sample_marshal: "re_marshal sample_env sample_written = Some ''{1}''"
  by (simp add: sample_env_def)

lemma sample_entry_ok: "entry_ok sample_env sample_io sample_entry sample_start []"
proof -
  have "utf8_Valid ''sent''" "utf8_Valid ''1''" by code_simp+
  then show ?thesis
    by (simp add: entry_ok_def sample_signed sample_marshal) (simp add: sample_entry_def sample_io_def)
qed

lemma sample_io_ok: "io_ok sample_io empty_disk"
  by (simp add: io_ok_def sample_io_def empty_disk_def)

lemma sample_run: "receipt_run sample_env sample_start empty_disk [] {}"
proof -
  have "utf8_Valid ''s''" by code_simp
  moreover have "sample_start = SetAnchoring ''anchors'' [] 1 (new_chain sample_env sample_key ''s'')"
    by (simp add: sample_start_def new_chain_def KeyID_def sample_env_def sample_base_def)
  ultimately show ?thesis using receipt_run.start receipt_run.anchoring by metis
qed

definition sample_chain :: Chain where
  "sample_chain = sample_start
     \<lparr>ch_f := Some 0, ch_gen := 1, ch_size := 4, ch_prevHash := hashLine sample_env ''{1}'', ch_seq := 1\<rparr>"

definition sample_disk :: chain_disk where
  "sample_disk =
     \<lparr>dk_segs = [], dk_cur = Some (''{1}'' @ [CHR 0x0A]), dk_flushed = 0,
      dk_anchors = [\<lparr>an_Seq = 1, an_Head = hashLine sample_env ''{1}'', an_Time = 0\<rparr>], dk_posted = []\<rparr>"

lemma sample_section:
  "append_section sample_env sample_io sample_entry sample_start empty_disk = (Inr sample_written, sample_chain, sample_disk)"
  by (simp add: append_section_def sample_signed sample_marshal Let_def)
     (simp add: rotateIfFullLocked_def writeLocked_def openLocked_def sample_start_def SetAnchoring_def new_chain_def
      sample_io_def empty_disk_def emitAnchor_def sample_chain_def sample_disk_def Let_def)

lemma sample_reached: "receipt_run sample_env sample_chain sample_disk [''rcpt_1''] {}"
proof -
  have "attempts_after sample_written [] = [''rcpt_1'']"
    by (simp add: attempts_after_def sample_written_def signed_receipt_def unsigned_receipt_def sample_entry_def
        sample_io_def Let_def)
  then show ?thesis
    using receipt_run.append [OF sample_run sample_entry_ok sample_io_ok sample_section] by simp
qed

theorem written_chain_verifies_witness:
  "vy_Valid (VerifyFileKeys sample_env sample_disk (SingleKey sample_env (re_public sample_env (ch_key sample_chain)))) \<and>
   vy_Total (VerifyFileKeys sample_env sample_disk (SingleKey sample_env (re_public sample_env (ch_key sample_chain)))) = 1"
  using written_chain_verifies [OF sample_reached sample_laws] by (simp add: sample_disk_def sample_chain_def)

theorem durable_receipt_survives_witness:
  "log_lines (crash 0 (sample_disk \<lparr>dk_flushed := 4\<rparr>)) = log_lines (sample_disk \<lparr>dk_flushed := 4\<rparr>)"
proof -
  have "syncThrough (io_sync sample_io) (ch_seq sample_chain) sample_chain sample_disk =
      (True, sample_chain \<lparr>ch_synced := 1\<rparr>, sample_disk \<lparr>dk_flushed := 4\<rparr>)"
    by (simp add: syncThrough_def sync_plan_def sync_finish_def sample_chain_def sample_disk_def sample_io_def
        sample_start_def SetAnchoring_def new_chain_def)
  then have "chain_Append sample_env sample_io sample_entry True sample_start empty_disk =
      (Appended sample_written, sample_chain \<lparr>ch_synced := 1\<rparr>, sample_disk \<lparr>dk_flushed := 4\<rparr>)"
    by (simp add: chain_Append_def sample_section)
  then show ?thesis
    using durable_receipt_survives [OF sample_run sample_laws sample_entry_ok sample_io_ok] by blast
qed

theorem anchored_history_fixed_witness:
  "take 1 (verified_lines sample_env sample_disk (SingleKey sample_env (replicate 32 (CHR ''p'')))) = take 1 (log_lines sample_disk)"
proof -
  let ?a = "\<lparr>an_Seq = 1, an_Head = hashLine sample_env ''{1}'', an_Time = 0\<rparr>"
    and ?ring = "SingleKey sample_env (replicate 32 (CHR ''p''))"
  have pub: "re_public sample_env (ch_key sample_chain) = replicate 32 (CHR ''p'')"
    by (simp add: sample_env_def sample_base_def)
  obtain parts ls where inv: "run_inv sample_env sample_chain sample_disk [''rcpt_1''] {} parts ls"
    using receipt_run_inv [OF sample_reached sample_laws] by blast
  then obtain v where v: "cv_run sample_env (log_lines sample_disk) (newChainVerifier ?ring whole_chain) = (None, v)"
    "verifySegment sample_env sample_disk ?ring whole_chain = cv_result (None, v)"
    using log_lines_holds [of sample_disk parts ls] verifySegment_holds [of sample_disk parts ls sample_env ?ring whole_chain]
    by (auto simp: run_inv_def accounted_def fits_def chain_verifier_def pub sample_disk_def)
  have log: "log_lines sample_disk = [''{1}'']"
    by (simp add: log_lines_def sample_disk_def segmentsOf_def chain_lines_def)
  have heads: "cv_heads v = [hashLine sample_env ''{1}'']" "map snd (cv_recs v) = [''{1}'']"
    using cv_run_None [OF v(1)] by (simp_all add: log newChainVerifier_def)
  have "vy_Valid (VerifyAnchorFileKeys sample_env (\<lambda>line. Some ?a) (AnchorBytes ''x'') sample_disk ?ring)"
    by (simp add: VerifyAnchorFileKeys_def v(2) cv_result_def heads chain_lines_def)
  moreover have "no_collision sample_env (log_lines sample_disk @ verified_lines sample_env sample_disk ?ring)"
  proof -
    have "verified_lines sample_env sample_disk ?ring = [''{1}'']"
      by (simp add: verified_lines_def v(2) cv_result_def heads)
    then show ?thesis by (simp add: no_collision_def log) (simp add: sample_env_def sample_base_def)
  qed
  moreover have "?a \<in> set (dk_anchors sample_disk)" "''x'' \<in> set (chain_lines ''x'')"
    by (simp_all add: sample_disk_def chain_lines_def)
  ultimately show ?thesis
    using anchored_history_fixed [OF sample_reached sample_laws, of ?a "''x''" "''x''" "\<lambda>line. Some ?a" sample_disk ?ring] by simp
qed

end
