(* ===== verification/Receipt_Restart.thy ===== *)
theory Receipt_Restart
  imports Receipt_Anchors
begin

text \<open>
  Opening a receipt chain again: after any run, and after a crash between the two halves of a rotation, the chain
  that is opened has the head and the length of the one before, and the files hold the same lines.
\<close>

section \<open>Lines of a linked chain are distinct\<close>

lemma linked_distinct:
  assumes "linked env [] ls" "no_collision env ls"
  shows "distinct ls"
proof -
  have "i = j" if "i < length ls" "j < length ls" "ls ! i = ls ! j" for i j
  proof -
    have "head_of env [] (take (Suc k) ls) = hashLine env (ls ! k)" if "k < length ls" for k
      using that by (simp add: take_Suc_conv_app_nth)
    moreover have "no_collision env (take (Suc i) ls @ take (Suc j) ls)"
      using assms(2) by (auto simp: no_collision_def dest: in_set_takeD elim!: inj_on_subset)
    ultimately have "take (Suc i) ls = take (Suc j) ls"
      using head_fixes_lines [of env "take (Suc i) ls" "take (Suc j) ls"] linked_take assms(1) that by metis
    moreover have "length (take (Suc i) ls) = Suc i" "length (take (Suc j) ls) = Suc j" using that by simp_all
    ultimately show "i = j" by simp
  qed
  then show ?thesis by (simp add: distinct_conv_nth) blast
qed

section \<open>Reading rendered lines\<close>

lemma render_eq_Nil [simp]: "render ls = [] \<longleftrightarrow> ls = []"
  by (cases ls) simp_all

lemma last_render: "ls \<noteq> [] \<Longrightarrow> last (render ls) = CHR 0x0A"
  by (cases ls rule: rev_cases) simp_all

lemma CountByte_render: "list_all good_line ls \<Longrightarrow> CountByte (render ls) (CHR 0x0A) = length ls"
  using SplitByte_render [of ls] length_SplitByte [of "CHR 0x0A" "render ls"] by simp

lemma LastIndexByte_append:
  "b \<notin> set s \<Longrightarrow> LastIndexByte (p @ b # s) b = Some (length p)"
  "b \<notin> set s \<Longrightarrow> LastIndexByte s b = None"
proof -
  show none: "b \<notin> set s \<Longrightarrow> LastIndexByte s b = None" by (induction s) auto
  then show "b \<notin> set s \<Longrightarrow> LastIndexByte (p @ b # s) b = Some (length p)" by (induction p) auto
qed

lemma lastNonEmptyLine_render:
  assumes "list_all good_line ls" "ls \<noteq> []"
  shows "lastNonEmptyLine (render ls) = last ls"
proof -
  obtain xs l where ls: "ls = xs @ [l]" using assms(2) by (cases ls rule: rev_cases) auto
  then have l: "l \<noteq> []" "CHR 0x0A \<notin> set l" using assms(1) by (simp_all add: good_line_def)
  have "hd (rev (render xs @ l)) \<noteq> CHR 0x0A" using l by (simp add: hd_rev) (metis last_in_set)
  moreover have "rev (render xs @ l) \<noteq> []" using l by simp
  ultimately have "dropWhile (\<lambda>c. c = CHR 0x0A) (rev (render xs @ l)) = rev (render xs @ l)"
    by (metis dropWhile_eq_self_iff)
  then have trim: "TrimRightByte (render ls) (CHR 0x0A) = render xs @ l" by (simp add: TrimRightByte_def ls)
  show ?thesis
  proof (cases "xs = []")
    case True
    then show ?thesis using trim l by (simp add: lastNonEmptyLine_def ls LastIndexByte_append Let_def)
  next
    case False
    then obtain p where "render xs = p @ [CHR 0x0A]" using last_render append_butlast_last_id by (metis render_eq_Nil)
    then show ?thesis using trim l by (simp add: lastNonEmptyLine_def ls LastIndexByte_append Let_def)
  qed
qed

lemma first_line_render:
  assumes "list_all good_line ls" "ls \<noteq> []"
  shows "hd (SplitByte (CHR 0x0A) (TrimLeftByte (render ls) (CHR 0x0A))) = hd ls"
proof -
  obtain l xs where ls: "ls = l # xs" using assms(2) by (cases ls) auto
  then have "l \<noteq> []" "CHR 0x0A \<notin> set l" using assms(1) by (simp_all add: good_line_def)
  then have "TrimLeftByte (render ls) (CHR 0x0A) = render ls" by (cases l) (auto simp: TrimLeftByte_def ls)
  then show ?thesis using SplitByte_render [OF assms(1)] by (simp add: ls)
qed

lemma scan_keep: "list_all good_line ls \<Longrightarrow> scan keep_line ls acc = (None, acc @ ls)"
  by (induction ls arbitrary: acc) (simp_all add: keep_line_def dropCR_good good_line_def)

lemma scan_count: "list_all good_line ls \<Longrightarrow> scan count_line ls n = (None, n + length ls)"
  by (induction ls arbitrary: n) (simp_all add: count_line_def dropCR_good good_line_def)

lemma countLines_numbered:
  "list_all (list_all good_line) parts \<Longrightarrow> countLines (numbered i parts) = length (concat parts)"
  by (induction i parts rule: numbered.induct)
     (simp_all add: countLines_def eachLineOf_def scan_tokens_render scan_count)

lemma last_part: "[] \<notin> set parts \<Longrightarrow> parts \<noteq> [] \<Longrightarrow> last parts \<noteq> []"
  by (metis last_in_set)

lemma snd_last_numbered: "parts \<noteq> [] \<Longrightarrow> snd (last (numbered i parts)) = Some (render (last parts))"
  by (cases parts rule: rev_cases) (simp_all add: numbered_append)

section \<open>Resuming\<close>

lemma accounted_parses:
  assumes "accounted env c opens lines" "l \<in> set lines"
  shows "\<exists>r. parseLine env l = Inr r"
proof -
  have "linked env [] lines"
    using assms(1) cv_run_None by (fastforce simp: accounted_def chain_verifier_def newChainVerifier_def whole_chain_def)
  moreover obtain xs ys where "lines = xs @ l # ys" using split_list [OF assms(2)] by blast
  ultimately show ?thesis by (auto simp: linked_append split: sum.splits)
qed

lemma resume_holds:
  assumes "holds d parts ls" "accounted env c opens (concat parts @ ls)"
  shows "resume env d = Inr (ch_prevHash c, ch_seq c)"
proof -
  have good: "list_all good_line ls" "list_all (list_all good_line) parts" "[] \<notin> set parts"
    and cur: "(case dk_cur d of None \<Rightarrow> [] | Some data \<Rightarrow> data) = render ls"
    using assms(1) by (auto simp: holds_def)
  have acc: "ch_seq c = length (concat parts @ ls)" "ch_prevHash c = head_of env [] (concat parts @ ls)"
    using assms(2) by (auto simp: accounted_def)
  note parses = accounted_parses [OF assms(2)]
  show ?thesis
  proof (cases "ls = []")
    case False
    then obtain r where "parseLine env (last ls) = Inr r" using parses [of "last ls"] by auto
    then show ?thesis
      using False good acc
      by (simp add: resume_def cur segmentsOf_holds [OF assms(1)] lastNonEmptyLine_render CountByte_render last_render
          countLines_numbered head_of_def Let_def)
  next
    case empty: True
    show ?thesis
    proof (cases "parts = []")
      case True
      then show ?thesis using empty acc by (simp add: resume_def cur segmentsOf_holds [OF assms(1)])
    next
      case False
      then have lp: "last parts \<noteq> []" "list_all good_line (last parts)"
        using good(2,3) last_part [OF _ False] last_in_set [OF False] by (auto simp: list_all_iff)
      have concat: "concat parts \<noteq> []" "last (concat parts) = last (last parts)"
        using False lp(1) by (cases parts rule: rev_cases; simp)+
      have "last (last parts) \<in> set (concat parts)" using concat by (metis last_in_set)
      then obtain r where "parseLine env (last (last parts)) = Inr r"
        using parses [of "last (last parts)"] empty by auto
      moreover have "lastLineOf (Some (render (last parts))) = Inr (last (last parts))"
        using lp by (simp add: lastLineOf_def eachLineOf_def scan_tokens_render scan_keep)
      ultimately show ?thesis
        using empty False acc concat good
        by (auto simp: resume_def cur segmentsOf_holds [OF assms(1)] snd_last_numbered countLines_numbered head_of_def)
    qed
  qed
qed

section \<open>An interrupted rotation\<close>

text \<open>The segment is in place and the current file not emptied yet.\<close>

definition interrupted :: "chain_disk \<Rightarrow> chain_disk" where
  "interrupted d = d \<lparr>dk_segs := dk_segs d @ [(Suc (length (dk_segs d)), dk_cur d)]\<rparr>"

lemma length_numbered [simp]: "length (numbered i parts) = length parts"
  by (induction i parts rule: numbered.induct) simp_all

lemma good_not_blank:
  assumes "list_all good_line ls" "ls \<noteq> []"
  shows "TrimSpace (render ls) \<noteq> []"
proof -
  obtain l xs where "ls = l # xs" using assms(2) by (cases ls) auto
  then have "last l \<in> set (render ls)" "\<not> ascii_space (last l)" using assms(1) by (auto simp: good_line_def)
  then have some: "dropWhile ascii_space (render ls) \<noteq> []" by (auto simp: dropWhile_eq_Nil_conv)
  then have "\<not> ascii_space (hd (dropWhile ascii_space (render ls)))" by (rule hd_dropWhile)
  then have "dropWhile ascii_space (rev (dropWhile ascii_space (render ls))) \<noteq> []"
    using some by (metis dropWhile_eq_Nil_conv hd_in_set set_rev)
  then show ?thesis by (simp add: TrimSpace_def)
qed

text \<open>A repair leaves a chain that was not interrupted alone: its lines are distinct.\<close>

lemma repair_whole:
  assumes "holds d parts ls" "distinct (concat parts @ ls)"
  shows "repairInterruptedRotation works d = (True, d)"
proof (cases "parts = [] \<or> ls = []")
  case True
  then show ?thesis
    using assms(1) segmentsOf_holds [OF assms(1)]
    by (auto simp: repairInterruptedRotation_def holds_def TrimSpace_def Let_def split: option.splits)
next
  case False
  then have good: "list_all good_line ls" "list_all good_line (last parts)" "last parts \<noteq> []" "dk_cur d = Some (render ls)"
    using assms(1) last_part [of parts] last_in_set [of parts] by (auto simp: holds_def list_all_iff)
  have "hd (last parts) \<in> set (concat parts)" using False good(3) last_in_set [of parts] by fastforce
  then have "hd ls \<noteq> hd (last parts)" using assms(2) False by (metis disjoint_iff distinct_append hd_in_set)
  then show ?thesis
    using False good
    by (simp add: repairInterruptedRotation_def segmentsOf_holds [OF assms(1)] snd_last_numbered eachLineOf_def
        scan_tokens_render scan_keep first_line_render Let_def)
qed

text \<open>A repair finishes an interrupted rotation.\<close>

lemma repair_interrupted:
  assumes "holds d parts ls" "ls \<noteq> []" "length parts < 999999"
  obtains d' where "repairInterruptedRotation True (interrupted d) = (True, d')" "holds d' (parts @ [ls]) []"
proof -
  have good: "list_all good_line ls" "list_all (list_all good_line) parts" "dk_cur d = Some (render ls)"
    "dk_segs d = numbered 0 parts" "[] \<notin> set parts"
    using assms(1,2) by (auto simp: holds_def)
  let ?d = "(interrupted d) \<lparr>dk_cur := Some []\<rparr>"
  have h: "holds ?d (parts @ [ls]) []"
    using good assms(2,3) by (simp add: holds_def interrupted_def numbered_append)
  have "segmentsOf (interrupted d) = numbered 0 (parts @ [ls])"
    using segmentsOf_holds [OF h] by (simp add: segmentsOf_def)
  then have "repairInterruptedRotation True (interrupted d) = (True, (interrupted d) \<lparr>dk_cur := Some [], dk_flushed := 0\<rparr>)"
    using good assms(2) good_not_blank [OF good(1) assms(2)]
    by (simp add: repairInterruptedRotation_def interrupted_def snd_last_numbered eachLineOf_def scan_tokens_render scan_keep
        first_line_render lastNonEmptyLine_render Let_def)
  moreover have "holds ((interrupted d) \<lparr>dk_cur := Some [], dk_flushed := 0\<rparr>) (parts @ [ls]) []"
    using h by (simp add: holds_def)
  ultimately show thesis using that by blast
qed

text \<open>C39: 
  Opening the chain again continues it. After any run of appends, syncs and rotations, and after a crash between the
  two halves of a rotation, opening the files with the same key gives a chain with the same head, length and key id as
  the one before, over the same lines. The key is not retired, and the lines have no hash collision.
\<close>

theorem reopened_chain_continues:
  assumes "receipt_run env c d opens plans" "env_laws env (ch_key c)" "no_collision env (log_lines d)"
    and "length (dk_segs d) < 999999" "d0 = d \<or> dk_cur d \<noteq> None \<and> dk_cur d \<noteq> Some [] \<and> d0 = interrupted d"
    and "loadKey (kf_key kf) = Inr (ch_key c)" "\<not> key_retired env (ch_key c) kf"
  shows "\<exists>c' d'. LoadOrCreate env (True, True, True) fresh session kf d0 = Inr (c', kf, d') \<and>
    ch_prevHash c' = ch_prevHash c \<and> ch_seq c' = ch_seq c \<and> ch_key c' = ch_key c \<and> ch_keyID c' = ch_keyID c \<and>
    log_lines d' = log_lines d"
proof -
  obtain parts ls where inv: "run_inv env c d opens plans parts ls" using receipt_run_inv assms(1,2) by blast
  then have h: "holds d parts ls" and acc: "accounted env c opens (concat parts @ ls)"
    by (auto simp: run_inv_def fits_def)
  note log = log_lines_holds [OF h]
  obtain d' parts' ls' where repair: "repairInterruptedRotation True d0 = (True, d')" "holds d' parts' ls'"
    "concat parts' @ ls' = concat parts @ ls"
  proof (cases "d0 = d")
    case True
    have "linked env [] (concat parts @ ls)"
      using acc cv_run_None by (fastforce simp: accounted_def chain_verifier_def newChainVerifier_def whole_chain_def)
    then show thesis
      using that [of d parts ls] repair_whole [OF h linked_distinct] assms(3) h True by (simp add: log)
  next
    case False
    then have "ls \<noteq> []" "d0 = interrupted d" using assms(5) h by (auto simp: holds_def)
    moreover have "length parts < 999999" using assms(4) h by (simp add: holds_def)
    ultimately show thesis using repair_interrupted [OF h] that [of _ "parts @ [ls]" "[]"] by fastforce
  qed
  have "resume env d' = Inr (ch_prevHash c, ch_seq c)" using resume_holds repair(2,3) acc by metis
  then show ?thesis
    using repair(1) assms(6,7) acc log log_lines_holds [OF repair(2)] repair(3)
    by (simp add: LoadOrCreate_def use_key_def new_chain_def accounted_def)
qed

definition sample_keys :: key_files where
  "sample_keys = \<lparr>kf_key = Some (hex_EncodeToString sample_key), kf_pub = None, kf_hist = Some []\<rparr>"

theorem reopened_chain_continues_witness:
  "\<exists>c' d'. LoadOrCreate sample_env (True, True, True) [] ''s2'' sample_keys (interrupted sample_disk) = Inr (c', sample_keys, d') \<and>
     ch_prevHash c' = hashLine sample_env ''{1}'' \<and> ch_seq c' = 1 \<and> log_lines d' = [''{1}'']"
proof -
  have log: "log_lines sample_disk = [''{1}'']"
    by (simp add: log_lines_def sample_disk_def segmentsOf_def chain_lines_def)
  then have "no_collision sample_env (log_lines sample_disk)"
    by (simp add: no_collision_def) (simp add: sample_env_def sample_base_def)
  moreover have "TrimSpace (hex_EncodeToString sample_key) = hex_EncodeToString sample_key" by code_simp
  then have "loadKey (kf_key sample_keys) = Inr (ch_key sample_chain)"
    by (simp add: loadKey_def sample_keys_def sample_chain_def sample_start_def SetAnchoring_def new_chain_def
        sample_key_def PrivateKeySize_def)
  moreover have "\<not> key_retired sample_env (ch_key sample_chain) sample_keys"
    by (simp add: key_retired_def LoadKeyRing_def sample_keys_def)
  ultimately show ?thesis
    using reopened_chain_continues [OF sample_reached sample_laws, of "interrupted sample_disk" sample_keys "[]" "''s2''"]
    by (auto simp: log) (auto simp: sample_disk_def sample_chain_def)
qed

end
