(* ===== verification/Receipt_Key_Properties.thy ===== *)
theory Receipt_Key_Properties
  imports Receipt_Keys Receipt_Properties
begin

text \<open>
  The key history: what revoking and rotating a receipt key change for the receipts the verifier sees. Both edit
  records in place without touching their names and keys, so the ring that is loaded afterwards is the edited ring.
\<close>

section \<open>Editing a ring\<close>

definition keeps_keys :: "(KeyRecord \<Rightarrow> KeyRecord) \<Rightarrow> bool" where
  "keeps_keys m \<longleftrightarrow> (\<forall>rec. ky_KeyID (m rec) = ky_KeyID rec \<and> ky_Pub (m rec) = ky_Pub rec)"

definition map_ring :: "(KeyRecord \<Rightarrow> KeyRecord) \<Rightarrow> KeyRing \<Rightarrow> KeyRing" where
  "map_ring m k = k \<lparr>kg_recs := map m (kg_recs k)\<rparr>"

lemma keeps_keys_edits [simp]: "keeps_keys (mark_revoked kid t)" "keeps_keys (close_window kid t)"
  by (simp_all add: keeps_keys_def mark_revoked_def close_window_def)

lemma map_ring_empty [simp]: "map_ring m empty_ring = empty_ring"
  by (simp add: map_ring_def empty_ring_def)

lemma ring_add_map: "keeps_keys m \<Longrightarrow> ring_add (m rec) pub (map_ring m k) = map_ring m (ring_add rec pub k)"
  by (simp add: keeps_keys_def ring_add_def map_ring_def)

lemma ring_of_map:
  "keeps_keys m \<Longrightarrow> ring_of env (map m recs) (map_ring m k) = map_sum id (map_ring m) (ring_of env recs k)"
  by (induction env recs k rule: ring_of.induct)
     (auto simp: ring_add_map keeps_keys_def split: option.splits)

lemma ring_of_append:
  "ring_of env (xs @ ys) k = (case ring_of env xs k of Inl e \<Rightarrow> Inl e | Inr k' \<Rightarrow> ring_of env ys k')"
  by (induction env xs k rule: ring_of.induct) (auto split: option.splits)

lemma ring_of_recs: "ring_of env recs k = Inr k' \<Longrightarrow> kg_recs k' = kg_recs k @ recs"
  by (induction env recs k rule: ring_of.induct) (auto simp: ring_add_def split: option.splits if_split_asm)

lemma ring_record_map: "keeps_keys m \<Longrightarrow> ring_record kid (map_ring m k) = map_option m (ring_record kid k)"
proof -
  assume m: "keeps_keys m"
  have "find (\<lambda>rec. ky_KeyID rec = kid) (map m recs) = map_option m (find (\<lambda>rec. ky_KeyID rec = kid) recs)" for recs
    using m by (induction recs) (simp_all add: keeps_keys_def)
  then show ?thesis by (simp add: ring_record_def map_ring_def)
qed

lemma ring_record_None: "ring_record kid k = None \<longleftrightarrow> \<not> list_ex (\<lambda>rec. ky_KeyID rec = kid) (kg_recs k)"
  by (auto simp: ring_record_def find_None_iff list_ex_iff)

lemma ring_record_snoc:
  "ring_record kid (k \<lparr>kg_recs := kg_recs k @ [rec], kg_pubs := ps\<rparr>) =
     (case ring_record kid k of Some r \<Rightarrow> Some r | None \<Rightarrow> if ky_KeyID rec = kid then Some rec else None)"
proof -
  have "find P (xs @ [x]) = (case find P xs of Some y \<Rightarrow> Some y | None \<Rightarrow> if P x then Some x else None)" for P xs and x :: KeyRecord
    by (induction xs) auto
  then show ?thesis by (simp add: ring_record_def)
qed

lemma signed_by_map [simp]: "signed_by env (map_ring m k) = signed_by env k"
  by (simp add: fun_eq_iff signed_by_def map_ring_def)

lemma ring_verify_V2:
  assumes "rc_V r = 2"
  shows "ring_verify env k r msg sigHex =
    (case hex_DecodeString sigHex of
       None \<Rightarrow> Some SignatureInvalid
     | Some sig \<Rightarrow>
         if length sig \<noteq> SignatureSize \<or> hex_EncodeToString sig \<noteq> sigHex then Some SignatureInvalid
         else (case ring_record (rc_KeyID r) k of
                 None \<Rightarrow> Some UnknownKey
               | Some rec \<Rightarrow>
                   if signed_by env k (ky_KeyID rec) msg sig then key_window rec (sp_at (rc_Timestamp r))
                   else Some SignatureInvalid))"
  using assms by (auto simp: ring_verify_def split: option.splits)

text \<open>An edit of the window of a key that leaves a moment as it was leaves the receipts of that moment as they were.\<close>

lemma ring_verify_map:
  assumes "rc_V r = 2" "keeps_keys m"
    and "\<And>rec. ky_KeyID rec = rc_KeyID r \<Longrightarrow> key_window (m rec) (sp_at (rc_Timestamp r)) = key_window rec (sp_at (rc_Timestamp r))"
  shows "ring_verify env (map_ring m k) r msg sigHex = ring_verify env k r msg sigHex"
proof (cases "ring_record (rc_KeyID r) k")
  case None
  then show ?thesis
    by (cases "hex_DecodeString sigHex") (simp_all add: ring_verify_V2 [OF assms(1)] ring_record_map [OF assms(2)])
next
  case (Some rec)
  then have "key_window (m rec) (sp_at (rc_Timestamp r)) = key_window rec (sp_at (rc_Timestamp r))"
    "ky_KeyID (m rec) = ky_KeyID rec"
    using assms(2,3) ring_record_Some by (auto simp: keeps_keys_def)
  then show ?thesis
    using Some by (cases "hex_DecodeString sigHex") (simp_all add: ring_verify_V2 [OF assms(1)] ring_record_map [OF assms(2)])
qed

section \<open>Revocation\<close>

lemma key_window_revoked:
  "ky_KeyID rec \<noteq> kid \<or> ts < t \<Longrightarrow> key_window (mark_revoked kid t rec) ts = key_window rec ts"
  "ky_KeyID rec = kid \<Longrightarrow> t \<le> ts \<Longrightarrow> key_window (mark_revoked kid t rec) ts \<noteq> None"
  by (auto simp: mark_revoked_def key_window_def earliest_def Let_def split: option.splits)

lemma find_set: "find P xs = Some x \<Longrightarrow> x \<in> set xs"
  by (auto simp: find_Some_iff)

lemma LoadKeyRing_Inr:
  assumes "LoadKeyRing env kf = Inr ring"
  obtains cur pub hist k where "kf_pub kf = Some cur" "hex_DecodeString (TrimSpace cur) = Some pub"
    "length pub = ReceiptKeySize" "kf_hist kf = Some hist" "ring_of env hist empty_ring = Inr k"
    "ring = (if ring_record (KeyID env pub) k = None then ring_add (plain_record env pub) pub k else k)"
proof -
  obtain cur where cur: "kf_pub kf = Some cur" using assms by (cases "kf_pub kf") (simp_all add: LoadKeyRing_def)
  obtain pub where pub: "hex_DecodeString (TrimSpace cur) = Some pub"
    using assms by (cases "hex_DecodeString (TrimSpace cur)") (simp_all add: LoadKeyRing_def cur)
  have len: "length pub = ReceiptKeySize" using assms by (simp add: LoadKeyRing_def cur pub split: if_split_asm)
  obtain hist where hist: "kf_hist kf = Some hist"
    using assms by (cases "kf_hist kf") (simp_all add: LoadKeyRing_def cur pub len)
  obtain k where k: "ring_of env hist empty_ring = Inr k"
    using assms by (cases "ring_of env hist empty_ring") (simp_all add: LoadKeyRing_def cur pub len hist)
  show thesis using that [OF cur pub len hist k] assms by (simp add: LoadKeyRing_def cur pub len hist k)
qed

lemma ring_add_plain_simps [simp]:
  "kg_recs (ring_add rec pub k) = kg_recs k @ [rec]" "ky_KeyID (plain_record env pub) = KeyID env pub"
  "ky_Pub (plain_record env pub) = hex_EncodeToString pub"
  by (simp_all add: ring_add_def plain_record_def)

lemma ring_of_one:
  "keeps_keys m \<Longrightarrow> length pub = ReceiptKeySize \<Longrightarrow>
     ring_of env [m (plain_record env pub)] k = Inr (ring_add (m (plain_record env pub)) pub k)"
  by (simp add: keeps_keys_def)

text \<open>
  An edit \<open>m\<close> of the record named \<open>kid\<close>, or of the record of the current key added for it: the ring that is loaded
  is the edited ring.
\<close>

definition edited :: "receipt_env \<Rightarrow> (KeyRecord \<Rightarrow> KeyRecord) \<Rightarrow> string \<Rightarrow> KeyRecord list \<Rightarrow> string \<Rightarrow> KeyRecord list" where
  "edited env m kid hist pub =
     (if list_ex (\<lambda>rec. ky_KeyID rec = kid) hist then map m hist else hist @ [m (plain_record env pub)])"

lemma edited_ring:
  assumes "ring_of env hist empty_ring = Inr k" "length pub = ReceiptKeySize" and m: "keeps_keys m"
    and others: "\<And>rec. ky_KeyID rec \<noteq> kid \<Longrightarrow> m rec = rec"
    and current: "\<not> list_ex (\<lambda>rec. ky_KeyID rec = kid) hist \<Longrightarrow> kid = KeyID env pub"
  shows "\<exists>k'. ring_of env (edited env m kid hist pub) empty_ring = Inr k' \<and>
    (if ring_record (KeyID env pub) k' = None then ring_add (plain_record env pub) pub k' else k') =
    map_ring m (if ring_record (KeyID env pub) k = None then ring_add (plain_record env pub) pub k else k)"
proof (cases "list_ex (\<lambda>rec. ky_KeyID rec = kid) hist")
  case True
  have "ring_record (KeyID env pub) (map_ring m k) = None \<longleftrightarrow> ring_record (KeyID env pub) k = None"
    by (simp add: ring_record_map [OF m])
  moreover have "m (plain_record env pub) = plain_record env pub" if "ring_record (KeyID env pub) k = None"
    using that True others [of "plain_record env pub"] ring_of_recs [OF assms(1)]
    by (auto simp: ring_record_None empty_ring_def)
  ultimately show ?thesis
    using True assms(1) ring_of_map [OF m, of env hist empty_ring] ring_add_map [OF m, of "plain_record env pub" pub k]
    by (auto simp: edited_def)
next
  case False
  then have kid: "kid = KeyID env pub" using current by blast
  have recs: "kg_recs k = hist" using ring_of_recs [OF assms(1)] by (simp add: empty_ring_def)
  have none: "ring_record (KeyID env pub) k = None" using False kid recs by (simp add: ring_record_None)
  have "map m hist = hist" using False others by (auto simp: list_ex_iff intro!: map_idI)
  then have "map_ring m k = k" using recs by (simp add: map_ring_def)
  then have eq: "ring_add (m (plain_record env pub)) pub k = map_ring m (ring_add (plain_record env pub) pub k)"
    using ring_add_map [OF m, of "plain_record env pub" pub k] by simp
  have "ring_record (KeyID env pub) (ring_add (m (plain_record env pub)) pub k) \<noteq> None"
    using m by (simp add: ring_record_None keeps_keys_def)
  then show ?thesis
    using False none eq ring_of_one [OF m assms(2), of env k] by (auto simp: edited_def ring_of_append assms(1))
qed

text \<open>The ring loaded after a revocation is the ring before with the record marked.\<close>

lemma RevokeKey_ring:
  assumes "RevokeKey env True which t kf = (Inr kid, kf')" "LoadKeyRing env kf = Inr ring"
  shows "LoadKeyRing env kf' = Inr (map_ring (mark_revoked kid t) ring)"
proof -
  obtain cur pub hist k where load: "kf_pub kf = Some cur" "hex_DecodeString (TrimSpace cur) = Some pub"
    "length pub = ReceiptKeySize" "kf_hist kf = Some hist" "ring_of env hist empty_ring = Inr k"
    and ring: "ring = (if ring_record (KeyID env pub) k = None then ring_add (plain_record env pub) pub k else k)"
    using LoadKeyRing_Inr [OF assms(2)] by metis
  let ?m = "mark_revoked kid t"
  obtain target where target: "find (\<lambda>rec. ky_KeyID rec = which \<or> ky_Pub rec = ToLower which) (rev (kg_recs ring)) = Some target"
    using assms(1)
    by (cases "find (\<lambda>rec. ky_KeyID rec = which \<or> ky_Pub rec = ToLower which) (rev (kg_recs ring))")
      (simp_all add: RevokeKey_def assms(2))
  have "RevokeKey env True which t kf = (Inr (ky_KeyID target), kf \<lparr>kf_hist := Some
      (if list_ex (\<lambda>rec. ky_KeyID rec = ky_KeyID target) hist then map (mark_revoked (ky_KeyID target) t) hist
       else hist @ [target \<lparr>ky_RevokedAt := Some t\<rparr>])\<rparr>)"
    by (simp add: RevokeKey_def assms(2) target load(4) Let_def)
  then have kid: "kid = ky_KeyID target" and kf': "kf' = kf \<lparr>kf_hist := Some
      (if list_ex (\<lambda>rec. ky_KeyID rec = kid) hist then map ?m hist else hist @ [target \<lparr>ky_RevokedAt := Some t\<rparr>])\<rparr>"
    using assms(1) by simp_all
  have recs: "kg_recs k = hist" using ring_of_recs [OF load(5)] by (simp add: empty_ring_def)
  have "target \<in> set (kg_recs ring)" using target find_set [of _ "rev (kg_recs ring)"] by simp
  then have new: "target = plain_record env pub" if "\<not> list_ex (\<lambda>rec. ky_KeyID rec = kid) hist"
    using that recs by (auto simp: ring kid list_ex_iff split: if_split_asm)
  then have "(if list_ex (\<lambda>rec. ky_KeyID rec = kid) hist then map ?m hist else hist @ [target \<lparr>ky_RevokedAt := Some t\<rparr>]) =
      edited env ?m kid hist pub"
    by (auto simp: edited_def mark_revoked_def kid earliest_def plain_record_def)
  moreover have "kid = KeyID env pub" if "\<not> list_ex (\<lambda>rec. ky_KeyID rec = kid) hist" using new [OF that] kid by simp
  then obtain k' where "ring_of env (edited env ?m kid hist pub) empty_ring = Inr k'"
    "(if ring_record (KeyID env pub) k' = None then ring_add (plain_record env pub) pub k' else k') = map_ring ?m ring"
    using edited_ring [OF load(5,3) keeps_keys_edits(1), of kid kid t] ring by (auto simp: mark_revoked_def)
  ultimately show ?thesis by (simp add: LoadKeyRing_def load kf')
qed

text \<open>C40: 
  Revoking a receipt key as of a time does exactly that: afterwards the ring loads, no receipt of that key dated at or
  after the time verifies, whatever its signature, and every other receipt of version two verifies as before. The key
  may be in the history already, closed or revoked, or be the current one.
\<close>

theorem revocation_exact:
  assumes "RevokeKey env True which t kf = (Inr kid, kf')" "LoadKeyRing env kf = Inr ring" "rc_V r = 2"
  shows "\<exists>ring'. LoadKeyRing env kf' = Inr ring' \<and>
    (if rc_KeyID r = kid \<and> t \<le> sp_at (rc_Timestamp r) then ring_verify env ring' r msg sigHex \<noteq> None
     else ring_verify env ring' r msg sigHex = ring_verify env ring r msg sigHex)"
proof (intro exI conjI)
  let ?ring = "map_ring (mark_revoked kid t) ring"
  show "LoadKeyRing env kf' = Inr ?ring" by (rule RevokeKey_ring [OF assms(1,2)])
  show "if rc_KeyID r = kid \<and> t \<le> sp_at (rc_Timestamp r) then ring_verify env ?ring r msg sigHex \<noteq> None
     else ring_verify env ?ring r msg sigHex = ring_verify env ring r msg sigHex"
  proof (cases "rc_KeyID r = kid \<and> t \<le> sp_at (rc_Timestamp r)")
    case True
    have "key_window rec (sp_at (rc_Timestamp r)) \<noteq> None" if "ring_record kid ?ring = Some rec" for rec
      using that True key_window_revoked(2) [of _ kid t] ring_record_Some [of kid ring]
      by (auto simp: ring_record_map)
    then show ?thesis using True by (auto simp: ring_verify_V2 [OF assms(3)] split: option.splits)
  next
    case False
    then show ?thesis using key_window_revoked(1) [of _ kid] by (auto intro!: ring_verify_map [OF assms(3)])
  qed
qed

section \<open>Rotation\<close>

lemma key_window_closed:
  "ky_KeyID rec \<noteq> kid \<or> ts \<le> t \<Longrightarrow> key_window (close_window kid t rec) ts = key_window rec ts"
  "ky_KeyID rec = kid \<Longrightarrow> t < ts \<Longrightarrow> key_window (close_window kid t rec) ts \<noteq> None"
  by (auto simp: close_window_def key_window_def earliest_def Let_def split: option.splits)

lemma TrimSpace_hex: "TrimSpace (hex_EncodeToString s) = hex_EncodeToString s"
proof -
  have digit: "\<not> ascii_space (hex_digit n)" if "n < 16" for n using that by (auto simp: ascii_space_def hex_digit_def)
  have "(of_char c div 16 :: nat) < 16" for c :: char
  proof -
    have "of_char c < (256 :: nat)" by simp
    then show ?thesis by (simp add: div_less_iff_less_mult)
  qed
  then have "\<forall>c\<in>set (hex_EncodeToString s). \<not> ascii_space c"
    by (auto simp: hex_EncodeToString_def digit)
  then have "dropWhile ascii_space t = t" if "set t \<subseteq> set (hex_EncodeToString s)" for t
    using that by (cases t) auto
  then show ?thesis by (simp add: TrimSpace_def)
qed

lemma RotateKey_ring:
  assumes "RotateKey env (True, True, True) newKey now kf = (Inr (oldID, newID), kf')" "LoadKeyRing env kf = Inr ring"
    and "loadKey (kf_key kf) = Inr old" "kf_pub kf = Some (hex_EncodeToString (re_public env old))"
    and "length (re_public env newKey) = ReceiptKeySize" "ring_record newID ring = None"
  shows "oldID = KeyID env (re_public env old)" "newID = KeyID env (re_public env newKey)"
    and "LoadKeyRing env kf' = Inr (ring_add ((plain_record env (re_public env newKey)) \<lparr>ky_NotBefore := Some now\<rparr>)
      (re_public env newKey) (map_ring (close_window oldID now) ring))"
proof -
  let ?pub = "re_public env old" and ?new = "re_public env newKey" and ?m = "close_window (KeyID env (re_public env old)) now"
  obtain hist k where load: "length ?pub = ReceiptKeySize" "kf_hist kf = Some hist" "ring_of env hist empty_ring = Inr k"
    and ring: "ring = (if ring_record (KeyID env ?pub) k = None then ring_add (plain_record env ?pub) ?pub k else k)"
    using LoadKeyRing_Inr [OF assms(2)] assms(4) by (metis TrimSpace_hex hex_Decode_Encode option.inject)
  have run: "RotateKey env (True, True, True) newKey now kf = (Inr (KeyID env ?pub, KeyID env ?new),
      kf \<lparr>kf_hist := Some (rotated_history env ?pub ?new now hist), kf_key := Some (hex_EncodeToString newKey),
          kf_pub := Some (hex_EncodeToString ?new)\<rparr>)"
    by (simp add: RotateKey_def assms(3) load(2) Let_def)
  then show ids: "oldID = KeyID env ?pub" "newID = KeyID env ?new" using assms(1) by simp_all
  have kf': "kf' = kf \<lparr>kf_hist := Some (rotated_history env ?pub ?new now hist), kf_key := Some (hex_EncodeToString newKey),
      kf_pub := Some (hex_EncodeToString ?new)\<rparr>" using run assms(1) by simp
  have hist: "rotated_history env ?pub ?new now hist =
      edited env ?m (KeyID env ?pub) hist ?pub @ [(plain_record env ?new) \<lparr>ky_NotBefore := Some now\<rparr>]"
    by (simp add: rotated_history_def edited_def Let_def close_window_def earliest_def plain_record_def)
  obtain k' where k': "ring_of env (edited env ?m (KeyID env ?pub) hist ?pub) empty_ring = Inr k'"
    "(if ring_record (KeyID env ?pub) k' = None then ring_add (plain_record env ?pub) ?pub k' else k') = map_ring ?m ring"
    using edited_ring [OF load(3,1) keeps_keys_edits(2), of "KeyID env ?pub" "KeyID env ?pub" now] ring
    by (auto simp: close_window_def)
  have "ky_KeyID (?m rec) = ky_KeyID rec" for rec by (simp add: close_window_def)
  then have "list_ex (\<lambda>rec. ky_KeyID rec = KeyID env ?pub) (edited env ?m (KeyID env ?pub) hist ?pub)"
    by (auto simp: edited_def list_ex_iff)
  then have "ring_record (KeyID env ?pub) k' \<noteq> None"
    using ring_of_recs [OF k'(1)] by (simp add: ring_record_None empty_ring_def)
  then have "k' = map_ring ?m ring" using k'(2) by (metis (no_types))
  then have "ring_of env (rotated_history env ?pub ?new now hist) empty_ring =
      Inr (ring_add ((plain_record env ?new) \<lparr>ky_NotBefore := Some now\<rparr>) ?new (map_ring ?m ring))"
    using assms(5) by (simp add: hist ring_of_append k'(1))
  then show "LoadKeyRing env kf' = Inr (ring_add ((plain_record env ?new) \<lparr>ky_NotBefore := Some now\<rparr>) ?new
      (map_ring (close_window oldID now) ring))"
    using assms(5) by (simp add: LoadKeyRing_def kf' TrimSpace_hex ids ring_record_None)
qed

text \<open>
  Rotating the receipt key keeps the past and moves the future. Afterwards the ring loads; receipts of the old key dated
  up to the rotation, and those of every key before it, verify as they did; the old key signs nothing dated later; and
  the new key's receipts dated from the rotation on verify exactly when the signature does. The new key's id is
  assumed to be new.
\<close>

theorem rotation_exact:
  assumes "RotateKey env (True, True, True) newKey now kf = (Inr (oldID, newID), kf')" "LoadKeyRing env kf = Inr ring"
    and "loadKey (kf_key kf) = Inr old" "kf_pub kf = Some (hex_EncodeToString (re_public env old))"
    and "length (re_public env newKey) = ReceiptKeySize" "ring_record newID ring = None" "rc_V r = 2"
  shows "\<exists>ring'. LoadKeyRing env kf' = Inr ring' \<and>
    (if rc_KeyID r = newID then now \<le> sp_at (rc_Timestamp r) \<and> length sig = SignatureSize \<longrightarrow>
        (ring_verify env ring' r msg (hex_EncodeToString sig) = None \<longleftrightarrow> re_verify env (re_public env newKey) msg sig)
     else if rc_KeyID r = oldID \<and> now < sp_at (rc_Timestamp r) then ring_verify env ring' r msg sigHex \<noteq> None
     else ring_verify env ring' r msg sigHex = ring_verify env ring r msg sigHex)"
proof (intro exI conjI)
  note rot = RotateKey_ring [OF assms(1-6)]
  let ?new = "re_public env newKey" and ?edited = "map_ring (close_window oldID now) ring"
  let ?rec = "(plain_record env (re_public env newKey)) \<lparr>ky_NotBefore := Some now\<rparr>"
  let ?ring = "ring_add ?rec ?new ?edited"
  show "LoadKeyRing env kf' = Inr ?ring" by (rule rot(3))
  have none: "ring_record newID ?edited = None" using assms(6) by (simp add: ring_record_map)
  have found: "ring_record kid ?ring = (if kid = newID then Some ?rec else ring_record kid ?edited)" for kid
    using none ring_record_snoc [of kid _ ?edited ?rec]
    by (auto simp: ring_add_def rot(2) split: option.splits)
  have signed: "signed_by env ?ring kid m s = (if kid = newID then re_verify env ?new m s else signed_by env ?edited kid m s)"
    for kid m s by (simp add: signed_by_def ring_add_def map_ring_def rot(2) update_conv)
  have other: "ring_verify env ?ring r msg sigHex = ring_verify env ?edited r msg sigHex" if "rc_KeyID r \<noteq> newID"
    using that ring_record_Some [of "rc_KeyID r" ?edited]
    by (auto simp: ring_verify_V2 [OF assms(7)] found signed split: option.splits)
  show "if rc_KeyID r = newID then now \<le> sp_at (rc_Timestamp r) \<and> length sig = SignatureSize \<longrightarrow>
        (ring_verify env ?ring r msg (hex_EncodeToString sig) = None \<longleftrightarrow> re_verify env ?new msg sig)
     else if rc_KeyID r = oldID \<and> now < sp_at (rc_Timestamp r) then ring_verify env ?ring r msg sigHex \<noteq> None
     else ring_verify env ?ring r msg sigHex = ring_verify env ring r msg sigHex"
  proof (cases "rc_KeyID r = newID")
    case True
    have "key_window ?rec ts = None" if "now \<le> ts" for ts using that by (simp add: key_window_def plain_record_def)
    then show ?thesis using True by (simp add: ring_verify_V2 [OF assms(7)] found signed rot(2))
  next
    case False
    show ?thesis
    proof (cases "rc_KeyID r = oldID \<and> now < sp_at (rc_Timestamp r)")
      case True
      have "key_window rec (sp_at (rc_Timestamp r)) \<noteq> None" if "ring_record oldID ?edited = Some rec" for rec
        using that True key_window_closed(2) [of _ oldID now] ring_record_Some [of oldID ring] by (auto simp: ring_record_map)
      then have "ring_verify env ?edited r msg sigHex \<noteq> None"
        using True by (auto simp: ring_verify_V2 [OF assms(7)] split: option.splits)
      then show ?thesis using True False other by simp
    next
      case same: False
      have "ring_verify env ?edited r msg sigHex = ring_verify env ring r msg sigHex"
        using same key_window_closed(1) [of _ oldID] by (auto intro!: ring_verify_map [OF assms(7)])
      then show ?thesis using same False other by auto
    qed
  qed
qed

section \<open>A concrete history\<close>

definition key_env :: receipt_env where
  "key_env =
     \<lparr>re_sha = (\<lambda>s. take 8 s), re_verify = (\<lambda>pub msg sig. True), re_sign = (\<lambda>key msg. []),
      re_public = (\<lambda>key. take 32 key), re_decode = (\<lambda>line. Inl ''unknown''), re_marshal = (\<lambda>r. None)\<rparr>"

definition old_key :: string where "old_key = replicate 64 (CHR ''a'')"
definition new_key :: string where "new_key = replicate 64 (CHR ''b'')"

definition key_start :: key_files where
  "key_start = \<lparr>kf_key = Some (hex_EncodeToString old_key), kf_pub = Some (hex_EncodeToString (take 32 old_key)), kf_hist = Some []\<rparr>"

definition old_id :: string where "old_id = ''6161616161616161''"

definition new_id :: string where "new_id = ''6262626262626262''"

definition signed_at :: "time \<Rightarrow> Receipt" where
  "signed_at t = sample_receipt \<lparr>rc_KeyID := old_id, rc_Timestamp := \<lparr>sp_at = t, sp_zone = ''Z''\<rparr>\<rparr>"

definition old_ring :: KeyRing where
  "old_ring = ring_add (plain_record key_env (take 32 old_key)) (take 32 old_key) empty_ring"

lemma key_start_ring: "LoadKeyRing key_env key_start = Inr old_ring"
  by code_simp

definition key_revoked :: key_files where
  "key_revoked = key_start \<lparr>kf_hist := Some [(plain_record key_env (take 32 old_key)) \<lparr>ky_RevokedAt := Some 5\<rparr>]\<rparr>"

lemma sample_ids: "KeyID key_env (take 32 old_key) = old_id" "KeyID key_env (take 32 new_key) = new_id"
  by code_simp+

lemma revoke_sample: "RevokeKey key_env True old_id 5 key_start = (Inr old_id, key_revoked)"
  by (simp add: RevokeKey_def key_start_ring old_ring_def sample_ids Let_def empty_ring_def key_revoked_def)
     (simp add: key_start_def sample_ids)

theorem revocation_exact_witness:
  "\<exists>ring'. LoadKeyRing key_env key_revoked = Inr ring' \<and>
     ring_verify key_env ring' (signed_at 7) ''m'' (hex_EncodeToString (replicate 64 (CHR ''s''))) \<noteq> None"
  using revocation_exact [OF revoke_sample key_start_ring, of "signed_at 7" "''m''" "hex_EncodeToString (replicate 64 (CHR ''s''))"]
  by (simp add: signed_at_def sample_receipt_def)

definition key_rotated :: key_files where
  "key_rotated =
     \<lparr>kf_key = Some (hex_EncodeToString new_key), kf_pub = Some (hex_EncodeToString (take 32 new_key)),
      kf_hist = Some [(plain_record key_env (take 32 old_key)) \<lparr>ky_NotAfter := Some 5\<rparr>,
        (plain_record key_env (take 32 new_key)) \<lparr>ky_NotBefore := Some 5\<rparr>]\<rparr>"

lemma load_sample: "loadKey (kf_key key_start) = Inr old_key"
  by code_simp

lemma rotate_sample: "RotateKey key_env (True, True, True) new_key 5 key_start = (Inr (old_id, new_id), key_rotated)"
proof -
  have pub: "re_public key_env key = take 32 key" for key by (simp add: key_env_def)
  show ?thesis
    by (simp add: RotateKey_def load_sample)
       (simp add: key_start_def key_rotated_def pub sample_ids rotated_history_def Let_def)
qed

theorem rotation_exact_witness:
  "\<exists>ring'. LoadKeyRing key_env key_rotated = Inr ring' \<and>
     ring_verify key_env ring' (signed_at 7) ''m'' (hex_EncodeToString (replicate 64 (CHR ''s''))) \<noteq> None"
proof -
  have "length (re_public key_env new_key) = ReceiptKeySize"
    "ring_record new_id old_ring = None" "old_id \<noteq> new_id"
    by code_simp+
  moreover have "kf_pub key_start = Some (hex_EncodeToString (re_public key_env old_key))"
    by (simp add: key_start_def key_env_def)
  ultimately show ?thesis
    using rotation_exact [OF rotate_sample key_start_ring load_sample, of "signed_at 7" "[]" "''m''"
        "hex_EncodeToString (replicate 64 (CHR ''s''))"]
    by (simp add: signed_at_def sample_receipt_def)
qed

end
