(* ===== verification/Proxy_Scrub.thy ===== *)
theory Proxy_Scrub
  imports Go_Stream Go_Regexp
begin

text \<open>
  Component: what a credentialed response goes through on its way to the agent
  (\<^verbatim>\<open>proxy/internal/proxy/scrub.go\<close>). A \<open>secretSet\<close> finds the spellings of the injected
  values, \<open>scrubReader\<close> and \<open>signedParamReader\<close> redact a body read in pieces, and
  \<open>copyScrubbedHeader\<close> redacts headers. The two readers share their fields and the loop of
  \<open>Read\<close>, so they extend one record.
\<close>

section \<open>The set of secrets\<close>

definition redactedMark :: string where
  "redactedMark = ''[REDACTED]''"

record secretSet =
  ss_targets :: "string list"
  ss_first :: "char \<Rightarrow> bool"
  ss_maxLen :: nat

definition lowerByte :: "char \<Rightarrow> char" where
  "lowerByte c = to_lower c"

definition asciiLower :: "string \<Rightarrow> string" where
  "asciiLower b = map lowerByte b"

fun newSecretSet_loop :: "string list \<Rightarrow> string list \<Rightarrow> secretSet \<Rightarrow> secretSet" where
  "newSecretSet_loop [] seen m = m"
| "newSecretSet_loop (s # ss) seen m =
     (if length s = 0 then newSecretSet_loop ss seen m
      else
        let l = asciiLower s in
        if l \<in> set seen then newSecretSet_loop ss seen m
        else newSecretSet_loop ss (l # seen)
          \<lparr>ss_targets = ss_targets m @ [l], ss_first = (ss_first m)(hd l := True),
           ss_maxLen = (if ss_maxLen m < length l then length l else ss_maxLen m)\<rparr>)"

text \<open>\<open>sort.SliceStable\<close> with the longest first.\<close>

definition newSecretSet :: "string list \<Rightarrow> secretSet" where
  "newSecretSet secrets =
     (let m = newSecretSet_loop secrets [] \<lparr>ss_targets = [], ss_first = (\<lambda>_. False), ss_maxLen = 0\<rparr> in
      m \<lparr>ss_targets := sort_key (\<lambda>t. - int (length t)) (ss_targets m)\<rparr>)"

fun hasPrefixFold :: "string \<Rightarrow> string \<Rightarrow> bool" where
  "hasPrefixFold b [] \<longleftrightarrow> True"
| "hasPrefixFold [] (c # t) \<longleftrightarrow> False"
| "hasPrefixFold (x # b) (c # t) \<longleftrightarrow> lowerByte x = c \<and> hasPrefixFold b t"

definition secret_match :: "secretSet \<Rightarrow> string \<Rightarrow> nat" where
  "secret_match m b =
     (if b = [] \<or> \<not> ss_first m (lowerByte (hd b)) then 0
      else (case find (hasPrefixFold b) (ss_targets m) of Some t \<Rightarrow> length t | None \<Rightarrow> 0))"

function replace_loop :: "secretSet \<Rightarrow> string \<Rightarrow> string" where
  "replace_loop m [] = []"
| "replace_loop m (c # b) =
     (case secret_match m (c # b) of
        0 \<Rightarrow> c # replace_loop m b
      | Suc n \<Rightarrow> redactedMark @ replace_loop m (drop n b))"
  by pat_completeness auto
termination
  by (relation "measure (\<lambda>(m, b). length b)") auto

text \<open>A nil set is \<^const>\<open>None\<close>.\<close>

definition secret_replace :: "secretSet option \<Rightarrow> string \<Rightarrow> string" where
  "secret_replace sset b =
     (case sset of None \<Rightarrow> b | Some m \<Rightarrow> if ss_targets m = [] then b else replace_loop m b)"

fun contains_loop :: "secretSet \<Rightarrow> string \<Rightarrow> bool" where
  "contains_loop m [] \<longleftrightarrow> False"
| "contains_loop m (c # s) \<longleftrightarrow> 0 < secret_match m (c # s) \<or> contains_loop m s"

definition secret_contains :: "secretSet option \<Rightarrow> string \<Rightarrow> bool" where
  "secret_contains sset s = (case sset of None \<Rightarrow> False | Some m \<Rightarrow> contains_loop m s)"

definition is_head :: "secretSet \<Rightarrow> string \<Rightarrow> bool" where
  "is_head m tail = list_ex (\<lambda>t. length tail < length t \<and> hasPrefixFold tail (take (length tail) t)) (ss_targets m)"

fun holdBack_loop :: "secretSet \<Rightarrow> string \<Rightarrow> nat \<Rightarrow> nat" where
  "holdBack_loop m data 0 = 0"
| "holdBack_loop m data (Suc l) =
     (if is_head m (drop (length data - Suc l) data) then Suc l else holdBack_loop m data l)"

definition holdBack :: "secretSet \<Rightarrow> string \<Rightarrow> nat" where
  "holdBack m data = holdBack_loop m data (min (ss_maxLen m - 1) (length data))"

section \<open>Injected values in a body\<close>

record scrubReader = filler +
  sr_set :: secretSet
  sr_eof :: bool

definition newScrubReader :: "(string \<times> src_end) list \<Rightarrow> string list \<Rightarrow> scrubReader" where
  "newScrubReader src secrets =
     \<lparr>fl_src = src, fl_carry = [], fl_pending = [], fl_err = More, sr_set = newSecretSet secrets, sr_eof = False\<rparr>"

definition scrub_take :: "string \<Rightarrow> src_end \<Rightarrow> scrubReader \<Rightarrow> scrubReader" where
  "scrub_take buf e s =
     (let data = secret_replace (Some (sr_set s)) (fl_carry s @ buf) in
      if e = EndOfBody then s \<lparr>sr_eof := True, fl_pending := data, fl_carry := []\<rparr>
      else let hold = holdBack (sr_set s) data in
        s \<lparr>fl_pending := take (length data - hold) data, fl_carry := drop (length data - hold) data\<rparr>)"

definition scrub_end :: "src_end \<Rightarrow> scrubReader \<Rightarrow> scrubReader" where
  "scrub_end e s =
     (let s1 = (if e = EndOfBody \<and> \<not> sr_eof s
                then s \<lparr>sr_eof := True, fl_pending := fl_pending s @ secret_replace (Some (sr_set s)) (fl_carry s), fl_carry := []\<rparr>
                else s) in
      s1 \<lparr>fl_err := e\<rparr>)"

definition scrub_fill :: "scrubReader \<Rightarrow> scrubReader" where
  "scrub_fill s0 =
     (case src_read (fl_src s0) of
        (buf, e, rest) \<Rightarrow>
          let s = s0 \<lparr>fl_src := rest\<rparr>;
              s1 = (if buf \<noteq> [] then scrub_take buf e s else s) in
          if e \<noteq> More then scrub_end e s1 else s1)"

definition scrub_Read :: "nat \<Rightarrow> scrubReader \<Rightarrow> string \<times> src_end \<times> scrubReader" where
  "scrub_Read n s0 =
     (let s = fill_up scrub_fill s0; b = take n (fl_pending s); s1 = s \<lparr>fl_pending := drop n (fl_pending s)\<rparr> in
      if fl_pending s1 = [] \<and> length b < n then
        (if fl_err s1 \<noteq> More then (b, fl_err s1, s1) else (b, More, s1))
      else (b, More, s1))"

section \<open>Signed URL parameters\<close>

text \<open>
  The expression \<open>signedParam\<close>: a separator, a key and an equals sign (the group that is kept), then a value
  of at least one byte. \<open>[?&]\<close> is written as two alternatives; alternatives are tried in the order of the
  expression. The class of the value excludes what \<open>\s\<close> matches, which in Go does not include the vertical tab.
\<close>

definition signed_keys :: "string list" where
  "signed_keys = [''x-amz-signature'', ''x-amz-credential'', ''x-amz-security-token'', ''x-goog-signature'',
     ''x-goog-credential'', ''sig'', ''signature'', ''token'', ''access_token'', ''jwt'']"

definition signed_separators :: "string list" where
  "signed_separators = [''?'', ''&'', CHR 0x5C # ''u0026'', ''&amp;'']"

definition signed_words :: "string list" where
  "signed_words = concat (map (\<lambda>sep. map (\<lambda>key. sep @ key @ ''='') signed_keys) signed_separators)"

definition signed_value :: "char \<Rightarrow> bool" where
  "signed_value c \<longleftrightarrow> \<not> (c \<in> set [CHR ''&'', CHR 0x22, CHR 0x27, CHR ''<'', CHR ''>'', CHR 0x5C] \<or> rx_space c)"

fun signed_try :: "string list \<Rightarrow> string \<Rightarrow> nat option" where
  "signed_try [] s = None"
| "signed_try (w # ws) s =
     (case rx_seq (fold_word w) s of
        Some h \<Rightarrow> if h < length s \<and> signed_value (s ! h) then Some h else signed_try ws s
      | None \<Rightarrow> signed_try ws s)"

text \<open>A match at the start of a string: where its kept group ends, and where it ends.\<close>

definition signed_head :: "string \<Rightarrow> nat option" where
  "signed_head s = signed_try signed_words s"

definition signed_end :: "nat \<Rightarrow> string \<Rightarrow> nat" where
  "signed_end h s = h + length (takeWhile signed_value (drop h s))"

lemma signed_head_less: "signed_head s = Some h \<Longrightarrow> h < length s \<and> signed_value (s ! h)"
proof -
  have "signed_try ws s = Some h \<Longrightarrow> h < length s \<and> signed_value (s ! h)" for ws
    by (induction ws s rule: signed_try.induct) (auto split: option.splits if_splits)
  then show "signed_head s = Some h \<Longrightarrow> h < length s \<and> signed_value (s ! h)" by (simp add: signed_head_def)
qed

lemma signed_end_bounds:
  assumes "signed_head s = Some h"
  shows "h < signed_end h s" "signed_end h s \<le> length s"
proof -
  have h: "h < length s" "signed_value (s ! h)" using signed_head_less [OF assms] by simp_all
  then have "drop h s = s ! h # drop (Suc h) s" by (simp add: Cons_nth_drop_Suc)
  then show "h < signed_end h s" using h(2) by (simp add: signed_end_def)
  have "length (takeWhile signed_value (drop h s)) \<le> length s - h"
    using length_takeWhile_le [of signed_value "drop h s"] by simp
  then show "signed_end h s \<le> length s" using h(1) by (simp add: signed_end_def)
qed

text \<open>\<open>ReplaceAll\<close> with the group and the mark, and \<open>FindAllIndex\<close> from a position on.\<close>

function scrubSignedParams :: "string \<Rightarrow> string" where
  "scrubSignedParams [] = []"
| "scrubSignedParams (c # s) =
     (case signed_head (c # s) of
        None \<Rightarrow> c # scrubSignedParams s
      | Some h \<Rightarrow> take h (c # s) @ redactedMark @ scrubSignedParams (drop (signed_end h (c # s)) (c # s)))"
  by pat_completeness auto
termination
proof (relation "measure length", goal_cases)
  case (3 c s h)
  then show ?case using signed_end_bounds [of "c # s" h] by (cases "signed_end h (c # s)") auto
qed auto

function FindAllIndex :: "nat \<Rightarrow> string \<Rightarrow> (nat \<times> nat) list" where
  "FindAllIndex i [] = []"
| "FindAllIndex i (c # s) =
     (case signed_head (c # s) of
        None \<Rightarrow> FindAllIndex (Suc i) s
      | Some h \<Rightarrow> (i, i + signed_end h (c # s)) #
          FindAllIndex (i + signed_end h (c # s)) (drop (signed_end h (c # s)) (c # s)))"
  by pat_completeness auto
termination
proof (relation "measure (\<lambda>(i, s). length s)", goal_cases)
  case (3 i c s h)
  then show ?case using signed_end_bounds [of "c # s" h] by (cases "signed_end h (c # s)") auto
qed auto

definition signedParamKeyMax :: nat where "signedParamKeyMax = 32"

definition isSignedParamValueByte :: "char \<Rightarrow> bool" where
  "isSignedParamValueByte c \<longleftrightarrow>
     c \<notin> set [CHR ''&'', CHR 0x22, CHR 0x27, CHR ''<'', CHR ''>'', CHR 0x5C, CHR '' '', CHR 0x09, CHR 0x0A, CHR 0x0D, CHR 0x0C, CHR 0x0B]"

record signedParamReader = filler +
  sp_inValue :: bool

definition newSignedParamReader :: "(string \<times> src_end) list \<Rightarrow> signedParamReader" where
  "newSignedParamReader src =
     \<lparr>fl_src = src, fl_carry = [], fl_pending = [], fl_err = More, sp_inValue = False\<rparr>"

definition signed_cut :: "string \<Rightarrow> (nat \<times> nat) list \<Rightarrow> nat" where
  "signed_cut data locs =
     foldl (\<lambda>cut l. if fst l < cut \<and> cut < snd l then snd l else cut) (length data - signedParamKeyMax) locs"

definition signed_emit :: "string \<Rightarrow> signedParamReader \<Rightarrow> signedParamReader" where
  "signed_emit data s =
     (let locs = FindAllIndex 0 data; to_end = (locs \<noteq> [] \<and> snd (last locs) = length data);
          cut = (if to_end then length data else signed_cut data locs) in
      s \<lparr>sp_inValue := to_end \<or> sp_inValue s, fl_pending := scrubSignedParams (take cut data), fl_carry := drop cut data\<rparr>)"

definition signed_fill :: "signedParamReader \<Rightarrow> signedParamReader" where
  "signed_fill s0 =
     (case src_read (fl_src s0) of
        (buf, e, rest) \<Rightarrow>
          let data0 = fl_carry s0 @ buf;
              data = (if sp_inValue s0 then dropWhile isSignedParamValueByte data0 else data0);
              s = s0 \<lparr>fl_src := rest, fl_carry := [],
                sp_inValue := sp_inValue s0 \<and> \<not> (data \<noteq> [] \<or> e \<noteq> More)\<rparr> in
          if e \<noteq> More then s \<lparr>fl_pending := scrubSignedParams data, fl_err := e\<rparr>
          else signed_emit data s)"

definition signed_Read :: "nat \<Rightarrow> signedParamReader \<Rightarrow> string \<times> src_end \<times> signedParamReader" where
  "signed_Read n s0 =
     (let s = fill_up signed_fill s0; b = take n (fl_pending s); s1 = s \<lparr>fl_pending := drop n (fl_pending s)\<rparr> in
      if fl_pending s1 = [] \<and> fl_err s1 \<noteq> More then (b, fl_err s1, s1) else (b, More, s1))"

section \<open>Headers\<close>

text \<open>
  \<open>textualType\<close> on what \<open>mime.ParseMediaType\<close> makes of the header: the media type, or no value when it does not
  parse.
\<close>

definition textualType :: "string option \<Rightarrow> bool" where
  "textualType mt =
     (case mt of None \<Rightarrow> False
      | Some t \<Rightarrow> HasPrefix t ''text/'' \<or> t = ''application/json'' \<or> HasSuffix t ''+json'' \<or>
          t = ''application/xml'' \<or> HasSuffix t ''+xml'' \<or>
          t = ''application/javascript'' \<or> t = ''application/x-www-form-urlencoded'' \<or> t = ''application/x-ndjson'')"

text \<open>A header is a list of names with their values, in the order of the iteration.\<close>

definition scrub_value :: "secretSet option \<Rightarrow> string \<Rightarrow> string" where
  "scrub_value sset v = (if sset \<noteq> None then scrubSignedParams (secret_replace sset v) else v)"

fun header_append :: "(string \<times> string list) list \<Rightarrow> string \<Rightarrow> string \<Rightarrow> (string \<times> string list) list" where
  "header_append [] k v = [(k, [v])]"
| "header_append ((k', vs) # dst) k v = (if k' = k then (k', vs @ [v]) # dst else (k', vs) # header_append dst k v)"

fun copyScrubbedHeader ::
  "(string \<times> string list) list \<Rightarrow> (string \<times> string list) list \<Rightarrow> string \<Rightarrow> secretSet option \<Rightarrow> (string \<times> string list) list" where
  "copyScrubbedHeader dst [] pre sset = dst"
| "copyScrubbedHeader dst ((k, vv) # src) pre sset =
     (if sset \<noteq> None \<and> secret_contains sset k then copyScrubbedHeader dst src pre sset
      else copyScrubbedHeader (foldl (\<lambda>d v. header_append d (pre @ k) (scrub_value sset v)) dst vv) src pre sset)"

end
