(* ===== verification/Scrub_Signed.thy ===== *)
theory Scrub_Signed
  imports Proxy_Scrub
begin

text \<open>
  Redacting signed URL parameters in pieces is redacting them in the whole body: the streaming reader against
  \<open>scrubSignedParams\<close>, for every way the body is cut.
\<close>

section \<open>Heads\<close>

text \<open>Matching a word letter by letter does not depend on what follows it.\<close>

definition local_class :: "rx_class \<Rightarrow> bool" where
  "local_class k \<longleftrightarrow> (\<forall>a b. k a \<noteq> 0 \<longrightarrow> k a \<le> length a \<and> k (a @ b) = k a) \<and> (\<forall>a b. k (a @ b) \<noteq> 0 \<longrightarrow> k (a @ b) \<le> length a \<longrightarrow> k a = k (a @ b))"

lemma HasPrefix_local:
  "HasPrefix a p \<Longrightarrow> length p \<le> length a \<and> HasPrefix (a @ b) p"
  "HasPrefix (a @ b) p \<Longrightarrow> length p \<le> length a \<Longrightarrow> HasPrefix a p"
  by (auto simp: HasPrefix_iff prefix_length_le) (metis prefixI prefix_length_prefix)

lemma local_classI:
  assumes "\<And>a b. k a \<noteq> 0 \<Longrightarrow> k a \<le> length a \<and> k (a @ b) = k a"
    and "\<And>a b. k (a @ b) \<noteq> 0 \<Longrightarrow> k (a @ b) \<le> length a \<Longrightarrow> k a = k (a @ b)"
  shows "local_class k"
  using assms unfolding local_class_def by blast

lemma local_rx_byte: "local_class (rx_byte P)"
proof (rule local_classI)
  fix a b :: string
  show "rx_byte P a \<noteq> 0 \<Longrightarrow> rx_byte P a \<le> length a \<and> rx_byte P (a @ b) = rx_byte P a"
    by (cases a) (simp_all add: rx_byte_def)
  show "rx_byte P (a @ b) \<noteq> 0 \<Longrightarrow> rx_byte P (a @ b) \<le> length a \<Longrightarrow> rx_byte P a = rx_byte P (a @ b)"
    by (cases a; cases b) (simp_all add: rx_byte_def split: if_splits)
qed

lemma local_prefix:
  assumes "k = (\<lambda>s. if HasPrefix s p then n else 0)" "n = length p" "p \<noteq> []"
  shows "local_class k"
proof (rule local_classI)
  fix a b :: string
  have n: "n \<noteq> 0" using assms(2,3) by simp
  show "k a \<noteq> 0 \<Longrightarrow> k a \<le> length a \<and> k (a @ b) = k a"
    using HasPrefix_local(1) [of a p b] assms(2) by (simp add: assms(1) split: if_splits)
  show "k (a @ b) \<noteq> 0 \<Longrightarrow> k (a @ b) \<le> length a \<Longrightarrow> k a = k (a @ b)"
    using HasPrefix_local(2) [of a b p] assms(2) by (simp add: assms(1) split: if_splits)
qed

lemma local_or_byte:
  assumes "local_class l" "l [] = 0"
  shows "local_class (rx_or (rx_byte P) l)"
proof (rule local_classI)
  fix a b :: string
  let ?k = "rx_or (rx_byte P) l"
  have l: "l a \<noteq> 0 \<Longrightarrow> l a \<le> length a \<and> l (a @ b) = l a" "l (a @ b) \<noteq> 0 \<Longrightarrow> l (a @ b) \<le> length a \<Longrightarrow> l a = l (a @ b)"
    using assms(1) unfolding local_class_def by blast+
  show "?k a \<noteq> 0 \<Longrightarrow> ?k a \<le> length a \<and> ?k (a @ b) = ?k a"
    using l(1) assms(2) by (cases a) (simp_all add: rx_or_def rx_byte_def split: if_splits)
  show "?k (a @ b) \<noteq> 0 \<Longrightarrow> ?k (a @ b) \<le> length a \<Longrightarrow> ?k a = ?k (a @ b)"
    using l(2) by (cases a) (simp_all add: rx_or_def rx_byte_def split: if_splits)
qed

lemma local_fold_letter: "local_class (fold_letter c)"
proof -
  have "local_class kelvin_sign" by (rule local_prefix [OF ext [OF kelvin_sign_def]]) simp_all
  moreover have "local_class long_s" by (rule local_prefix [OF ext [OF long_s_def]]) simp_all
  moreover have "kelvin_sign [] = 0" "long_s [] = 0" by (simp_all add: kelvin_sign_def long_s_def)
  ultimately show ?thesis by (simp add: fold_letter_def Let_def local_rx_byte local_or_byte)
qed

lemma fold_letter_Nil: "fold_letter c [] = 0"
  by (cases "to_lower c = CHR ''k''"; cases "to_lower c = CHR ''s''")
    (simp_all add: fold_letter_def Let_def rx_or_def rx_byte_def kelvin_sign_def long_s_def)

lemma fold_word_Cons: "fold_word (c # w) = One (fold_letter c) # fold_word w"
  by (simp add: fold_word_def)

lemma fold_word_grows: "rx_seq (fold_word w) a = Some h \<Longrightarrow> h \<le> length a \<and> rx_seq (fold_word w) (a @ b) = Some h"
proof (induction w arbitrary: a h)
  case (Cons c w)
  let ?k = "fold_letter c"
  obtain n where k: "?k a \<noteq> 0" "?k a \<le> length a" and n: "rx_seq (fold_word w) (drop (?k a) a) = Some n" "h = ?k a + n"
    using Cons.prems by (auto simp: fold_word_Cons split: if_splits)
  have "?k (a @ b) = ?k a" using local_fold_letter [of c] k(1) unfolding local_class_def by blast
  moreover have "n \<le> length (drop (?k a) a)" "rx_seq (fold_word w) (drop (?k a) a @ b) = Some n" using Cons.IH [OF n(1)] by simp_all
  ultimately show ?case using k n(2) by (simp add: fold_word_Cons)
qed (simp add: fold_word_def)

lemma fold_word_shrinks: "rx_seq (fold_word w) (a @ b) = Some h \<Longrightarrow> h \<le> length a \<Longrightarrow> rx_seq (fold_word w) a = Some h"
proof (induction w arbitrary: a h)
  case (Cons c w)
  let ?k = "fold_letter c"
  obtain n where k: "?k (a @ b) \<noteq> 0" "?k (a @ b) \<le> length (a @ b)"
    and n: "rx_seq (fold_word w) (drop (?k (a @ b)) (a @ b)) = Some n" "h = ?k (a @ b) + n"
    using Cons.prems(1) by (auto simp: fold_word_Cons split: if_splits)
  have le: "?k (a @ b) \<le> length a" using n(2) Cons.prems(2) by simp
  have ka: "?k a = ?k (a @ b)" using local_fold_letter [of c] k(1) le unfolding local_class_def by blast
  have "drop (?k a) (a @ b) = drop (?k a) a @ b" using le ka by simp
  then have "rx_seq (fold_word w) (drop (?k a) a) = Some n"
    using Cons.IH [of "drop (?k a) a" n] n ka Cons.prems(2) by simp
  then show ?case using k le ka n(2) by (simp add: fold_word_Cons)
qed (simp add: fold_word_def)

text \<open>Two words of ASCII letters that match at the same place: one is the start of the other, in lower case.\<close>

lemma fold_letter_first:
  assumes "fold_letter e (y # s) \<noteq> 0"
  shows "to_lower y = to_lower e \<or> y = CHR 0xE2 \<and> to_lower e = CHR ''k'' \<or> y = CHR 0xC5 \<and> to_lower e = CHR ''s''"
proof (cases "to_lower y = to_lower e")
  case False
  then show ?thesis using assms
    by (simp add: fold_letter_def Let_def rx_or_def rx_byte_def kelvin_sign_def long_s_def split: if_splits)
qed simp

lemma to_lower_ascii: "(of_char c :: nat) < 128 \<Longrightarrow> (of_char (to_lower c) :: nat) < 128"
  by (simp add: to_lower_def is_upper_def)

lemma fold_letter_same:
  assumes "fold_letter c s \<noteq> 0" "fold_letter d s \<noteq> 0"
    and "(of_char c :: nat) < 128" "(of_char d :: nat) < 128"
  shows "to_lower c = to_lower d"
proof -
  obtain y s' where s: "s = y # s'"
    using assms(1) fold_letter_Nil by (cases s) auto
  have high: "to_lower (CHR 0xE2) = CHR 0xE2" "to_lower (CHR 0xC5) = CHR 0xC5" by code_simp+
  have "(of_char (to_lower c) :: nat) < 128" "(of_char (to_lower d) :: nat) < 128"
    using assms(3,4) by (simp_all only: to_lower_ascii)
  then have low: "to_lower c \<noteq> CHR 0xE2" "to_lower c \<noteq> CHR 0xC5" "to_lower d \<noteq> CHR 0xE2" "to_lower d \<noteq> CHR 0xC5"
    by auto
  note one = fold_letter_first [OF assms(1) [unfolded s]] fold_letter_first [OF assms(2) [unfolded s]]
  show ?thesis using one high low by (elim disjE) auto
qed

lemma fold_word_comparable:
  assumes "rx_seq (fold_word v) s = Some m" "rx_seq (fold_word w) s = Some n" "ascii v" "ascii w"
  shows "prefix (ToLower v) (ToLower w) \<or> prefix (ToLower w) (ToLower v)"
  using assms
proof (induction v arbitrary: w s m n)
  case (Cons c v)
  show ?case
  proof (cases w)
    case (Cons d w')
    have c: "fold_letter c s \<noteq> 0" "fold_letter d s \<noteq> 0"
      using Cons.prems(1,2) Cons by (auto simp: fold_word_Cons split: if_splits)
    have same: "to_lower c = to_lower d"
      using fold_letter_same [OF c] Cons.prems(3,4) Cons by (simp add: ascii_def)
    then have "fold_letter c = fold_letter d" by (simp add: fold_letter_def Let_def)
    then obtain m' n' where "rx_seq (fold_word v) (drop (fold_letter c s) s) = Some m'"
      "rx_seq (fold_word w') (drop (fold_letter c s) s) = Some n'"
      using Cons.prems(1,2) Cons by (auto simp: fold_word_Cons split: if_splits)
    then have "prefix (ToLower v) (ToLower w') \<or> prefix (ToLower w') (ToLower v)"
      using Cons.IH Cons.prems(3,4) Cons by (simp add: ascii_def)
    then show ?thesis using Cons same by (simp add: ToLower_def)
  qed (simp add: ToLower_def)
qed (simp add: ToLower_def)

text \<open>A word ends in its only equals sign, is short, and no two words match at the same place.\<close>

definition word_bytes :: "string \<Rightarrow> nat" where
  "word_bytes w = sum_list (map (\<lambda>c. if to_lower c = CHR ''k'' then 3 else if to_lower c = CHR ''s'' then 2 else 1) w)"

lemma signed_words_shape:
  "list_all (\<lambda>w. ascii w \<and> w \<noteq> [] \<and> last w = CHR ''='' \<and> CHR ''='' \<notin> set (butlast w) \<and> ToLower w = w \<and> word_bytes w \<le> 30) signed_words"
  by code_simp

lemma fold_letter_bytes:
  "fold_letter c s \<le> (if to_lower c = CHR ''k'' then 3 else if to_lower c = CHR ''s'' then 2 else 1)"
  by (cases "to_lower c = CHR ''k''"; cases "to_lower c = CHR ''s''")
    (simp_all add: fold_letter_def Let_def rx_or_def rx_byte_def kelvin_sign_def long_s_def split: list.splits)

lemma fold_word_bytes: "rx_seq (fold_word w) s = Some h \<Longrightarrow> h \<le> word_bytes w"
proof (induction w arbitrary: s h)
  case (Cons c w)
  obtain n where "rx_seq (fold_word w) (drop (fold_letter c s) s) = Some n" "h = fold_letter c s + n"
    using Cons.prems by (auto simp: fold_word_Cons split: if_splits)
  then show ?case using Cons.IH fold_letter_bytes [of c s] by (fastforce simp: word_bytes_def)
qed (simp add: fold_word_def word_bytes_def)

lemma signed_word_unique:
  assumes "v \<in> set signed_words" "w \<in> set signed_words"
    and "rx_seq (fold_word v) s = Some m" "rx_seq (fold_word w) s = Some n"
  shows "v = w"
proof -
  have v: "ascii v" "v \<noteq> []" "last v = CHR ''=''" "CHR ''='' \<notin> set (butlast v)" "ToLower v = v"
    and w: "ascii w" "w \<noteq> []" "last w = CHR ''=''" "CHR ''='' \<notin> set (butlast w)" "ToLower w = w"
    using signed_words_shape assms(1,2) by (auto simp: list_all_iff)
  have whole: "x = y" if "prefix x y" "x \<noteq> []" "last x = CHR ''=''" "CHR ''='' \<notin> set (butlast y)" for x y
  proof -
    obtain z where z: "y = x @ z" using \<open>prefix x y\<close> by (auto simp: prefix_def)
    have "CHR ''='' \<in> set x" using that(2,3) by (metis last_in_set)
    then show ?thesis using z that(4) by (cases z) (auto simp: butlast_append)
  qed
  show ?thesis
    using fold_word_comparable [OF assms(3,4) v(1) w(1)] whole [of v w] whole [of w v] v w by auto
qed

lemma signed_try_iff:
  assumes "set ws \<subseteq> set signed_words"
  shows "signed_try ws s = Some h \<longleftrightarrow>
    (\<exists>w\<in>set ws. rx_seq (fold_word w) s = Some h) \<and> h < length s \<and> signed_value (s ! h)"
  using assms
proof (induction ws)
  case (Cons w ws)
  show ?case
  proof (cases "rx_seq (fold_word w) s")
    case (Some n)
    have "rx_seq (fold_word v) s = Some n" if "v \<in> set ws" "rx_seq (fold_word v) s = Some m" for v m
      using signed_word_unique [of v w s m n] that Some Cons.prems by auto
    then show ?thesis using Some Cons by auto
  qed (use Cons in auto)
qed simp

lemma signed_head_iff:
  "signed_head s = Some h \<longleftrightarrow>
     (\<exists>w\<in>set signed_words. rx_seq (fold_word w) s = Some h) \<and> h < length s \<and> signed_value (s ! h)"
  unfolding signed_head_def by (rule signed_try_iff) simp

lemma signed_head_grows: "signed_head a = Some h \<Longrightarrow> signed_head (a @ b) = Some h"
  unfolding signed_head_iff using fold_word_grows [of _ a h b] by (auto simp: nth_append)

lemma signed_head_shrinks: "signed_head (a @ b) = Some h \<Longrightarrow> h < length a \<Longrightarrow> signed_head a = Some h"
  unfolding signed_head_iff by (auto simp: nth_append intro: fold_word_shrinks less_imp_le)

lemma signed_head_bytes: "signed_head s = Some h \<Longrightarrow> h \<le> 30"
  using signed_words_shape fold_word_bytes by (fastforce simp: signed_head_iff list_all_iff)

lemma signed_head_long: "31 \<le> length a \<Longrightarrow> signed_head (a @ b) = signed_head a"
  using signed_head_grows signed_head_shrinks signed_head_bytes
  by (metis Suc_le_lessD eval_nat_numeral(3) le_trans not_less_eq_eq option.exhaust)

section \<open>The equals sign of a head\<close>

lemma to_lower_equals: "to_lower y = CHR ''='' \<longleftrightarrow> y = CHR ''=''"
proof (cases "is_upper y")
  case True
  then have "97 \<le> (of_char (to_lower y) :: nat)" by (simp add: to_lower_def is_upper_def)
  moreover have "\<not> is_upper (CHR ''='')" by code_simp
  ultimately show ?thesis using True by fastforce
qed (simp add: to_lower_def)

lemma fold_letter_no_equals: "to_lower c \<noteq> CHR ''='' \<Longrightarrow> CHR ''='' \<notin> set (take (fold_letter c s) s)"
proof (cases s)
  case (Cons y s')
  assume c: "to_lower c \<noteq> CHR ''=''"
  let ?b = "rx_byte (\<lambda>x. to_lower x = to_lower c) s"
  have byte: "CHR ''='' \<notin> set (take ?b s)"
    using c Cons to_lower_equals [of y] by (auto simp: rx_byte_def split: if_splits)
  have long: "CHR ''='' \<notin> set (take (kelvin_sign s) s)" "CHR ''='' \<notin> set (take (long_s s) s)"
    by (auto simp: kelvin_sign_def long_s_def HasPrefix_def numeral_3_eq_3 numeral_2_eq_2 split: if_splits)
  have "fold_letter c s = ?b \<or> fold_letter c s = kelvin_sign s \<or> fold_letter c s = long_s s"
    by (simp add: fold_letter_def Let_def rx_or_def)
  then show ?thesis using byte long by (elim disjE) (simp_all only: simp_thms)
qed simp

lemma fold_letter_equals:
  assumes "fold_letter (CHR ''='') s \<noteq> 0"
  shows "fold_letter (CHR ''='') s = 1" "s \<noteq> []" "hd s = CHR ''=''"
proof -
  have "fold_letter (CHR ''='') = rx_byte (\<lambda>x. to_lower x = CHR ''='')"
    using to_lower_equals [of "CHR ''=''"] by (simp add: fold_letter_def Let_def)
  then show "fold_letter (CHR ''='') s = 1" "s \<noteq> []" "hd s = CHR ''=''"
    using assms by (auto simp: rx_byte_def to_lower_equals split: list.splits if_splits)
qed

lemma fold_word_snoc:
  "rx_seq (fold_word (u @ [d])) s = Some h \<Longrightarrow>
   \<exists>n. rx_seq (fold_word u) s = Some n \<and> fold_letter d (drop n s) \<noteq> 0 \<and> h = n + fold_letter d (drop n s)"
proof (induction u arbitrary: s h)
  case (Cons c u)
  obtain m where c: "fold_letter c s \<noteq> 0" "fold_letter c s \<le> length s"
    and m: "rx_seq (fold_word (u @ [d])) (drop (fold_letter c s) s) = Some m" "h = fold_letter c s + m"
    using Cons.prems by (auto simp: fold_word_Cons split: if_splits)
  show ?case using Cons.IH [OF m(1)] c m(2) by (auto simp: fold_word_Cons add.commute)
qed (auto simp: fold_word_def split: if_splits)

lemma fold_word_no_equals:
  "rx_seq (fold_word u) s = Some n \<Longrightarrow> CHR ''='' \<notin> set (ToLower u) \<Longrightarrow> CHR ''='' \<notin> set (take n s)"
proof (induction u arbitrary: s n)
  case (Cons c u)
  obtain m where m: "rx_seq (fold_word u) (drop (fold_letter c s) s) = Some m" "n = fold_letter c s + m"
    using Cons.prems(1) by (auto simp: fold_word_Cons split: if_splits)
  have "CHR ''='' \<notin> set (take m (drop (fold_letter c s) s))" "CHR ''='' \<notin> set (take (fold_letter c s) s)"
    using Cons.IH [OF m(1)] Cons.prems(2) fold_letter_no_equals [of c s] by (auto simp: ToLower_def)
  then show ?case using m(2) by (simp add: take_add)
qed (simp add: fold_word_def)

lemma signed_head_equals:
  assumes "signed_head s = Some h"
  shows "0 < h" "s ! (h - 1) = CHR ''=''" "CHR ''='' \<notin> set (take (h - 1) s)"
proof -
  obtain w where w: "w \<in> set signed_words" "rx_seq (fold_word w) s = Some h" using assms by (auto simp: signed_head_iff)
  have shape: "w \<noteq> []" "last w = CHR ''=''" "CHR ''='' \<notin> set (butlast w)" "ToLower w = w"
    using signed_words_shape w(1) by (auto simp: list_all_iff)
  have u: "w = butlast w @ [CHR ''='']" using shape(1,2) by (metis append_butlast_last_id)
  have low: "ToLower (butlast w) = butlast w" using shape(4) by (metis ToLower_def map_butlast)
  obtain n where n: "rx_seq (fold_word (butlast w)) s = Some n" "fold_letter (CHR ''='') (drop n s) \<noteq> 0"
    "h = n + fold_letter (CHR ''='') (drop n s)"
    using fold_word_snoc [of "butlast w" "CHR ''=''" s h] w(2) u by metis
  have h: "h = Suc n" "drop n s \<noteq> []" "hd (drop n s) = CHR ''=''" using n(3) fold_letter_equals [OF n(2)] by simp_all
  show "0 < h" using h(1) by simp
  show "s ! (h - 1) = CHR ''=''" using h by (simp add: hd_drop_conv_nth)
  show "CHR ''='' \<notin> set (take (h - 1) s)" using fold_word_no_equals [OF n(1)] low shape(3) h(1) by simp
qed

section \<open>Matches in a piece and in the whole\<close>

lemma signed_end_stop: "h \<le> length a \<Longrightarrow> signed_end h a < length a \<Longrightarrow> signed_end h (a @ b) = signed_end h a"
proof -
  assume h: "h \<le> length a" "signed_end h a < length a"
  have "\<not> (\<forall>x\<in>set (drop h a). signed_value x)"
  proof
    assume "\<forall>x\<in>set (drop h a). signed_value x"
    then have "takeWhile signed_value (drop h a) = drop h a" unfolding takeWhile_eq_all_conv .
    then have "length (takeWhile signed_value (drop h a)) = length a - h" by (simp only: length_drop)
    then show False using h by (simp add: signed_end_def)
  qed
  then show ?thesis using h(1) by (auto simp: signed_end_def takeWhile_append)
qed

lemma signed_end_full:
  assumes "h \<le> length a" "signed_end h a = length a"
  shows "signed_end h (a @ b) = length a + length (takeWhile signed_value b)"
proof -
  have "length (takeWhile signed_value (drop h a)) = length (drop h a)" using assms by (simp add: signed_end_def)
  then have "takeWhile signed_value (drop h a) = drop h a" by (metis takeWhile_eq_take take_all order_refl)
  then have "\<forall>x\<in>set (drop h a). signed_value x" by (metis set_takeWhileD)
  then show ?thesis using assms(1) by (simp add: signed_end_def takeWhile_append)
qed

lemma signed_end_cases:
  assumes "signed_head a = Some h"
  obtains (stops) "\<And>b. signed_end h (a @ b) = signed_end h a" "signed_end h a < length a"
    | (runs) "signed_end h a = length a" "\<And>b. signed_end h (a @ b) = length a + length (takeWhile signed_value b)"
proof (cases "signed_end h a = length a")
  case True
  then show ?thesis using runs signed_end_full signed_head_less [OF assms] by simp
next
  case False
  then have "signed_end h a < length a" using signed_end_bounds [OF assms] by simp
  then show ?thesis using stops signed_end_stop signed_head_less [OF assms] by simp
qed

lemma FindAllIndex_Some:
  "signed_head s = Some h \<Longrightarrow>
   FindAllIndex i s = (i, i + signed_end h s) # FindAllIndex (i + signed_end h s) (drop (signed_end h s) s)"
  using signed_head_less [of s h] by (cases s) auto

lemma scrubSignedParams_Some:
  "signed_head s = Some h \<Longrightarrow>
   scrubSignedParams s = take h s @ redactedMark @ scrubSignedParams (drop (signed_end h s) s)"
  using signed_head_less [of s h] by (cases s) auto

lemma FindAllIndex_bounds:
  "l \<in> set (FindAllIndex i s) \<Longrightarrow> i \<le> fst l \<and> fst l < snd l \<and> snd l \<le> i + length s"
proof (induction i s rule: FindAllIndex.induct)
  case (2 i c s)
  show ?case
  proof (cases "signed_head (c # s)")
    case None
    then show ?thesis using 2 by auto
  next
    case (Some h)
    have n: "0 < signed_end h (c # s)" "signed_end h (c # s) \<le> length (c # s)" using signed_end_bounds [OF Some] by auto
    consider "l = (i, i + signed_end h (c # s))"
      | "l \<in> set (FindAllIndex (i + signed_end h (c # s)) (drop (signed_end h (c # s)) (c # s)))"
      using 2(3) Some by auto
    then show ?thesis
    proof cases
      case 2
      then show ?thesis using "2.IH"(2) [OF Some 2] n by auto
    qed (use n in auto)
  qed
qed simp

lemma FindAllIndex_sorted: "sorted_wrt (\<lambda>l l'. snd l \<le> fst l') (FindAllIndex i s)"
proof (induction i s rule: FindAllIndex.induct)
  case (2 i c s)
  then show ?case by (cases "signed_head (c # s)") (auto dest!: FindAllIndex_bounds)
qed simp

lemma scrubSignedParams_split:
  "\<forall>l\<in>set (FindAllIndex i (a @ b)). fst l < i + length a \<longrightarrow> snd l \<le> i + length a \<Longrightarrow>
   scrubSignedParams (a @ b) = scrubSignedParams a @ scrubSignedParams b"
proof (induction "length a" arbitrary: a i rule: less_induct)
  case less
  show ?case
  proof (cases a)
    case (Cons c a')
    then have "0 < length a" by simp
    show ?thesis
    proof (cases "signed_head (a @ b)")
      case None
      then have "signed_head a = None" using signed_head_grows [of a _ b] by (cases "signed_head a") auto
      moreover have "scrubSignedParams (a' @ b) = scrubSignedParams a' @ scrubSignedParams b"
        using less.hyps [of a' "Suc i"] less.prems None Cons by simp
      ultimately show ?thesis using None Cons by simp
    next
      case (Some h)
      let ?n = "signed_end h (a @ b)"
      have n: "h < ?n" "?n \<le> length a" using less.prems \<open>0 < length a\<close> signed_end_bounds [OF Some]
        by (simp_all add: FindAllIndex_Some [OF Some])
      then have ha: "signed_head a = Some h" using signed_head_shrinks [OF Some] by simp
      have na: "signed_end h a = ?n" using n(2) by (cases rule: signed_end_cases [OF ha]) auto
      have "drop ?n (a @ b) = drop ?n a @ b" using n by simp
      then have "\<forall>l\<in>set (FindAllIndex (i + ?n) (drop ?n a @ b)).
          fst l < i + ?n + length (drop ?n a) \<longrightarrow> snd l \<le> i + ?n + length (drop ?n a)"
        using less.prems n by (simp add: FindAllIndex_Some [OF Some])
      then have "scrubSignedParams (drop ?n a @ b) = scrubSignedParams (drop ?n a) @ scrubSignedParams b"
        using less.hyps [of "drop ?n a" "i + ?n"] Cons n by simp
      then show ?thesis using na n by (simp add: scrubSignedParams_Some [OF Some] scrubSignedParams_Some [OF ha])
    qed
  qed simp
qed

text \<open>When the last match of a piece runs to its end, what follows of the value goes with it.\<close>

lemma FindAllIndex_equals: "FindAllIndex i d \<noteq> [] \<Longrightarrow> CHR ''='' \<in> set (butlast d)"
proof (induction i d rule: FindAllIndex.induct)
  case (2 i c d)
  show ?case
  proof (cases "signed_head (c # d)")
    case None
    then show ?thesis using 2 by (cases d) auto
  next
    case (Some h)
    have "h - 1 < length (butlast (c # d))"
      using signed_head_less [OF Some] signed_head_equals(1) [OF Some] by (simp only: length_butlast) arith
    then have "butlast (c # d) ! (h - 1) = CHR ''=''" "h - 1 < length (butlast (c # d))"
      using signed_head_equals(2) [OF Some] by (simp_all only: nth_butlast)
    then show ?thesis by (metis nth_mem)
  qed
qed simp

lemma no_head_before_match:
  assumes "FindAllIndex i d \<noteq> []" "signed_head d = None"
  shows "signed_head (d @ r) = None"
proof (rule ccontr)
  assume "signed_head (d @ r) \<noteq> None"
  then obtain h where h: "signed_head (d @ r) = Some h" by blast
  have len: "length d \<le> h"
  proof (rule ccontr)
    assume "\<not> length d \<le> h"
    then show False using signed_head_shrinks [OF h] assms(2) by simp
  qed
  then have "set (take (length d - 1) (d @ r)) \<subseteq> set (take (h - 1) (d @ r))"
    by (intro set_take_subset_set_take) (rule diff_le_mono)
  moreover have "CHR ''='' \<in> set (take (length d - 1) (d @ r))"
    using FindAllIndex_equals [OF assms(1)] by (simp add: butlast_conv_take)
  ultimately show False using signed_head_equals(3) [OF h] by blast
qed

lemma scrubSignedParams_to_end:
  "FindAllIndex i d \<noteq> [] \<Longrightarrow> snd (last (FindAllIndex i d)) = i + length d \<Longrightarrow>
   scrubSignedParams (d @ r) = scrubSignedParams d @ scrubSignedParams (dropWhile signed_value r)"
proof (induction "length d" arbitrary: d i rule: less_induct)
  case less
  show ?case
  proof (cases "signed_head d")
    case None
    obtain c d' where d: "d = c # d'" using less.prems(1) by (cases d) auto
    have "scrubSignedParams (d' @ r) = scrubSignedParams d' @ scrubSignedParams (dropWhile signed_value r)"
      using less.hyps [of d' "Suc i"] less.prems None d by simp
    then show ?thesis using no_head_before_match [OF less.prems(1) None, of r] None d by simp
  next
    case (Some h)
    let ?n = "signed_end h d"
    have h: "h < length d" using signed_head_less [OF Some] by simp
    have whole: "signed_head (d @ r) = Some h" by (rule signed_head_grows [OF Some])
    show ?thesis
    proof (cases rule: signed_end_cases [OF Some])
      case 1
      have "FindAllIndex (i + ?n) (drop ?n d) \<noteq> []"
        using less.prems(2) 1(2) by (auto simp: FindAllIndex_Some [OF Some])
      moreover have "snd (last (FindAllIndex (i + ?n) (drop ?n d))) = i + ?n + length (drop ?n d)"
        using less.prems(2) 1(2) calculation by (simp add: FindAllIndex_Some [OF Some])
      moreover have "length (drop ?n d) < length d" using signed_end_bounds [OF Some] 1(2) by simp
      ultimately have "scrubSignedParams (drop ?n d @ r) =
          scrubSignedParams (drop ?n d) @ scrubSignedParams (dropWhile signed_value r)"
        using less.hyps by blast
      then show ?thesis using 1 h by (simp add: scrubSignedParams_Some [OF Some] scrubSignedParams_Some [OF whole])
    next
      case 2
      then show ?thesis using h
        by (simp add: scrubSignedParams_Some [OF Some] scrubSignedParams_Some [OF whole] dropWhile_eq_drop)
    qed
  qed
qed

text \<open>When none does, the matches that start far enough from the end are those of the whole.\<close>

lemma FindAllIndex_agree:
  "\<forall>l\<in>set (FindAllIndex i d). snd l \<noteq> i + length d \<Longrightarrow>
   filter (\<lambda>l. fst l + signedParamKeyMax \<le> i + length d) (FindAllIndex i (d @ r)) =
   filter (\<lambda>l. fst l + signedParamKeyMax \<le> i + length d) (FindAllIndex i d)"
proof (induction "length d" arbitrary: d i rule: less_induct)
  case less
  show ?case
  proof (cases "length d < signedParamKeyMax")
    case True
    have "fst l + signedParamKeyMax \<le> i + length d \<longleftrightarrow> False" if "l \<in> set (FindAllIndex i s)" for l s
      using FindAllIndex_bounds [OF that] True by simp
    then show ?thesis by (simp cong: filter_cong)
  next
    case False
    then have long: "31 \<le> length d" by (simp add: signedParamKeyMax_def)
    then have same: "signed_head (d @ r) = signed_head d" by (rule signed_head_long)
    show ?thesis
    proof (cases "signed_head d")
      case None
      obtain c d' where d: "d = c # d'" using long by (cases d) auto
      then show ?thesis using less.hyps [of d' "Suc i"] less.prems None same by simp
    next
      case (Some h)
      let ?n = "signed_end h d"
      have "?n \<noteq> length d" using less.prems by (simp add: FindAllIndex_Some [OF Some])
      then have n: "signed_end h (d @ r) = ?n" "0 < ?n" "?n < length d"
        using signed_end_bounds [OF Some] by (cases rule: signed_end_cases [OF Some]; simp)+
      have "\<forall>l\<in>set (FindAllIndex (i + ?n) (drop ?n d)). snd l \<noteq> i + ?n + length (drop ?n d)"
        using less.prems n by (simp add: FindAllIndex_Some [OF Some])
      then show ?thesis
        using less.hyps [of "drop ?n d" "i + ?n"] n same Some
        by (simp add: FindAllIndex_Some)
    qed
  qed
qed

section \<open>The reader\<close>

lemma foldl_cut:
  fixes ls :: "(nat \<times> nat) list"
  assumes "sorted_wrt (\<lambda>l l'. snd l \<le> fst l') ls"
  shows "(\<exists>l\<in>set ls. fst l < c \<and> c < snd l \<and>
       foldl (\<lambda>cut l. if fst l < cut \<and> cut < snd l then snd l else cut) c ls = snd l) \<or>
     (\<forall>l\<in>set ls. \<not> (fst l < c \<and> c < snd l)) \<and>
       foldl (\<lambda>cut l. if fst l < cut \<and> cut < snd l then snd l else cut) c ls = c"
  using assms
proof (induction ls)
  case (Cons x ls)
  let ?f = "\<lambda>cut l. if fst l < cut \<and> cut < snd l then snd l else cut"
  have stay: "foldl ?f c ls = c" if "\<forall>l\<in>set ls. c \<le> fst l" for c and ls :: "(nat \<times> nat) list"
    using that by (induction ls) simp_all
  show ?case
  proof (cases "fst x < c \<and> c < snd x")
    case True
    have "\<forall>l\<in>set ls. snd x \<le> fst l" using Cons.prems by simp
    from stay [OF this] show ?thesis using True by simp
  next
    case False
    then have "?f c x = c" by auto
    then have eq: "foldl ?f c (x # ls) = foldl ?f c ls" by (simp only: foldl_Cons)
    show ?thesis using Cons.IH Cons.prems False unfolding eq by auto
  qed
qed simp

lemma sorted_wrt_last: "sorted_wrt R xs \<Longrightarrow> x \<in> set xs \<Longrightarrow> x = last xs \<or> R x (last xs)"
  by (induction xs) auto

lemma sorted_wrt_pair:
  "sorted_wrt R xs \<Longrightarrow> x \<in> set xs \<Longrightarrow> y \<in> set xs \<Longrightarrow> x = y \<or> R x y \<or> R y x"
  by (induction xs) auto

lemma last_end_not_inner:
  assumes "FindAllIndex i d = [] \<or> snd (last (FindAllIndex i d)) \<noteq> i + length d" "l \<in> set (FindAllIndex i d)"
  shows "snd l \<noteq> i + length d"
proof
  assume e: "snd l = i + length d"
  have ne: "FindAllIndex i d \<noteq> []" using assms(2) by auto
  have "l = last (FindAllIndex i d) \<or> snd l \<le> fst (last (FindAllIndex i d))"
    by (rule sorted_wrt_last [OF FindAllIndex_sorted assms(2)])
  then show False
    using assms(1) ne e FindAllIndex_bounds [OF assms(2)] FindAllIndex_bounds [OF last_in_set [OF ne]]
    by (elim disjE) auto
qed

text \<open>Cutting where the reader cuts does not change what is redacted.\<close>

lemma signed_cut_split:
  assumes "FindAllIndex 0 d = [] \<or> snd (last (FindAllIndex 0 d)) \<noteq> length d"
  shows "signed_cut d (FindAllIndex 0 d) \<le> length d"
    and "scrubSignedParams (d @ r) =
      scrubSignedParams (take (signed_cut d (FindAllIndex 0 d)) d) @
      scrubSignedParams (drop (signed_cut d (FindAllIndex 0 d)) d @ r)"
proof -
  let ?L = "FindAllIndex 0 d" and ?L' = "FindAllIndex 0 (d @ r)"
  let ?c = "length d - signedParamKeyMax" and ?cut = "signed_cut d (FindAllIndex 0 d)"
  have inner: "\<forall>l\<in>set ?L. snd l \<noteq> 0 + length d" using last_end_not_inner [of 0 d] assms by auto
  have agree: "l \<in> set ?L' \<longleftrightarrow> l \<in> set ?L" if "fst l < ?c" for l
    using arg_cong [OF FindAllIndex_agree [OF inner, of r], of "\<lambda>x. l \<in> set x"] that by auto
  consider (straddle) x where "x \<in> set ?L" "fst x < ?c" "?c < snd x" "?cut = snd x"
    | (clear) "\<forall>l\<in>set ?L. \<not> (fst l < ?c \<and> ?c < snd l)" "?cut = ?c"
    using foldl_cut [OF FindAllIndex_sorted [of 0 d], of ?c] unfolding signed_cut_def by blast
  then have cut: "?cut \<le> length d \<and> (\<forall>l\<in>set ?L'. fst l < ?cut \<longrightarrow> snd l \<le> ?cut)"
  proof cases
    case straddle
    have "x \<in> set ?L'" using agree straddle(1,2) by blast
    then have "snd l \<le> snd x" if "l \<in> set ?L'" "fst l < snd x" for l
      using sorted_wrt_pair [OF FindAllIndex_sorted that(1), of x] that FindAllIndex_bounds [of x 0 "d @ r"] by fastforce
    then show ?thesis using straddle FindAllIndex_bounds [OF straddle(1)] by auto
  next
    case clear
    have "snd l \<le> ?c" if "l \<in> set ?L'" "fst l < ?c" for l
      using clear(1) agree that by (metis not_less)
    then show ?thesis using clear(2) by auto
  qed
  then show "?cut \<le> length d" by simp
  then have len: "length (take ?cut d) = ?cut" by simp
  have whole: "take ?cut d @ drop ?cut d @ r = d @ r" by simp
  have "\<forall>l\<in>set (FindAllIndex 0 (take ?cut d @ drop ?cut d @ r)). fst l < 0 + length (take ?cut d) \<longrightarrow> snd l \<le> 0 + length (take ?cut d)"
    unfolding whole len using cut by simp
  then show "scrubSignedParams (d @ r) = scrubSignedParams (take ?cut d) @ scrubSignedParams (drop ?cut d @ r)"
    using scrubSignedParams_split unfolding whole [symmetric] by blast
qed

text \<open>
  The invariant: what was handed out, what is ready, and the redaction of what is left make the redaction of the
  whole body. Inside a value, what is left starts after the rest of the value.
\<close>

definition signed_inv :: "string \<Rightarrow> string \<Rightarrow> signedParamReader \<Rightarrow> bool" where
  "signed_inv body got s \<longleftrightarrow>
     (if fl_err s = More then
        CHR 0x0B \<notin> set (fl_carry s @ body_of (fl_src s)) \<and> (sp_inValue s \<longrightarrow> fl_carry s = []) \<and>
        got @ fl_pending s @
          scrubSignedParams (if sp_inValue s then dropWhile signed_value (body_of (fl_src s)) else fl_carry s @ body_of (fl_src s)) =
        scrubSignedParams body
      else got @ fl_pending s = scrubSignedParams body)"

lemma value_bytes_agree: "c \<noteq> CHR 0x0B \<Longrightarrow> isSignedParamValueByte c \<longleftrightarrow> signed_value c"
  by (auto simp: isSignedParamValueByte_def signed_value_def rx_space_def)

lemma dropWhile_agree: "CHR 0x0B \<notin> set d \<Longrightarrow> dropWhile isSignedParamValueByte d = dropWhile signed_value d"
  by (induction d) (auto simp: value_bytes_agree)

lemma signed_emit_inv:
  assumes "fl_err s = More" "fl_carry s = []" "CHR 0x0B \<notin> set (d @ body_of (fl_src s))"
    and "sp_inValue s \<longrightarrow> d = []"
    and "got @ scrubSignedParams (if sp_inValue s then dropWhile signed_value (body_of (fl_src s)) else d @ body_of (fl_src s)) =
      scrubSignedParams body"
  shows "signed_inv body got (signed_emit d s)"
proof (cases "FindAllIndex 0 d \<noteq> [] \<and> snd (last (FindAllIndex 0 d)) = length d")
  case True
  then have ne: "d \<noteq> []" by auto
  then have "\<not> sp_inValue s" using assms(4) by blast
  then show ?thesis
    using True assms scrubSignedParams_to_end [of 0 d "body_of (fl_src s)"]
    by (simp add: signed_emit_def signed_inv_def Let_def)
next
  case False
  then have no: "FindAllIndex 0 d = [] \<or> snd (last (FindAllIndex 0 d)) \<noteq> length d" by blast
  have "set (drop (signed_cut d (FindAllIndex 0 d)) d) \<subseteq> set d" by (rule set_drop_subset)
  then show ?thesis
    using no assms signed_cut_split(2) [OF no, of "body_of (fl_src s)"]
    by (auto simp: signed_emit_def signed_inv_def Let_def)
qed

lemma signed_fill_inv:
  assumes "signed_inv body got s" "fl_pending s = []" "fl_err s = More"
  shows "signed_inv body got (signed_fill s)"
proof -
  obtain buf e rest where src: "src_read (fl_src s) = (buf, e, rest)" by (cases "src_read (fl_src s)")
  let ?left = "if e = More then body_of rest else []"
  let ?d = "if sp_inValue s then dropWhile isSignedParamValueByte (fl_carry s @ buf) else fl_carry s @ buf"
  have body: "body_of (fl_src s) = buf @ ?left" by (rule body_of_src_read [OF src])
  have vt: "CHR 0x0B \<notin> set (fl_carry s @ buf @ ?left)" and carry: "sp_inValue s \<longrightarrow> fl_carry s = []"
    and eq: "got @ scrubSignedParams (if sp_inValue s then dropWhile signed_value (buf @ ?left) else fl_carry s @ buf @ ?left) =
      scrubSignedParams body"
    using assms unfolding signed_inv_def body by simp_all
  obtain d where d: "d = ?d" by blast
  have vtd: "CHR 0x0B \<notin> set (d @ ?left)" using vt set_dropWhileD by (fastforce simp: d split: if_splits)
  have drop: "dropWhile isSignedParamValueByte buf = dropWhile signed_value buf" using vt by (intro dropWhile_agree) simp
  have rest: "dropWhile signed_value (buf @ x) = (if d = [] then dropWhile signed_value x else d @ x)" if "sp_inValue s" for x
    using that carry drop by (auto simp: d dropWhile_append dropWhile_eq_Nil_conv)
  have plain: "d = fl_carry s @ buf" if "\<not> sp_inValue s" using that d by simp
  show ?thesis
  proof (cases "e = More")
    case True
    let ?s = "s\<lparr>fl_src := rest, fl_carry := [], sp_inValue := sp_inValue s \<and> \<not> (d \<noteq> [] \<or> e \<noteq> More)\<rparr>"
    have "signed_fill s = signed_emit d ?s" using src True by (simp add: signed_fill_def Let_def d)
    moreover have "signed_inv body got (signed_emit d ?s)"
    proof (rule signed_emit_inv)
      show "got @ scrubSignedParams (if sp_inValue ?s then dropWhile signed_value (body_of (fl_src ?s)) else d @ body_of (fl_src ?s)) =
          scrubSignedParams body"
        using eq True rest [of "body_of rest"] plain by (cases "sp_inValue s"; cases "d = []") simp_all
    qed (use assms True vtd in simp_all)
    ultimately show ?thesis by simp
  next
    case False
    have "got @ scrubSignedParams d = scrubSignedParams body"
    proof (cases "sp_inValue s")
      case True
      then have "dropWhile signed_value buf = d" using carry drop d by simp
      then show ?thesis using eq False True by (simp only: append_Nil2 if_True if_False)
    qed (use eq False plain in simp)
    then show ?thesis using False src by (simp add: signed_fill_def signed_inv_def Let_def d)
  qed
qed

interpretation signed_reader: buffered_reader signed_fill signed_Read
proof
  fix s :: signedParamReader and n
  show "fl_src (signed_fill s) = snd (snd (src_read (fl_src s)))"
    by (cases "src_read (fl_src s)") (simp add: signed_fill_def signed_emit_def Let_def)
  show "fl_err s = More \<Longrightarrow> fl_err (signed_fill s) = fst (snd (src_read (fl_src s)))"
    by (cases "src_read (fl_src s)") (simp add: signed_fill_def signed_emit_def Let_def)
  show "fst (signed_Read n s) = take n (fl_pending (fill_up signed_fill s))"
    by (simp add: signed_Read_def Let_def)
  show "snd (snd (signed_Read n s)) = fill_up signed_fill s\<lparr>fl_pending := drop n (fl_pending (fill_up signed_fill s))\<rparr>"
    by (simp add: signed_Read_def Let_def)
  show "fst (snd (signed_Read n s)) \<noteq> More \<Longrightarrow>
      fst (snd (signed_Read n s)) = fl_err (fill_up signed_fill s) \<and> drop n (fl_pending (fill_up signed_fill s)) = []"
    by (simp add: signed_Read_def Let_def split: if_splits)
  show "0 < n \<Longrightarrow> fl_pending (fill_up signed_fill s) = [] \<Longrightarrow> fst (snd (signed_Read n s)) = fl_err (fill_up signed_fill s)"
    by (simp add: signed_Read_def Let_def)
qed

interpretation signed_stream: stream_filter signed_fill signed_Read
  "\<lambda>got s. CHR 0x0B \<notin> set body \<longrightarrow> signed_inv body got s" for body
proof
  fix got s n
  show "CHR 0x0B \<notin> set body \<longrightarrow> signed_inv body got s \<Longrightarrow> fl_pending s = [] \<Longrightarrow> fl_err s = More \<Longrightarrow>
      CHR 0x0B \<notin> set body \<longrightarrow> signed_inv body got (signed_fill s)"
    using signed_fill_inv by blast
  have "signed_inv body got s \<Longrightarrow>
      signed_inv body (got @ take n (fl_pending s)) (s\<lparr>fl_pending := drop n (fl_pending s)\<rparr>)"
    by (cases "fl_err s = More"; cases "sp_inValue s") (simp_all add: signed_inv_def take_drop_append)
  then show "CHR 0x0B \<notin> set body \<longrightarrow> signed_inv body got s \<Longrightarrow>
      CHR 0x0B \<notin> set body \<longrightarrow> signed_inv body (got @ take n (fl_pending s)) (s\<lparr>fl_pending := drop n (fl_pending s)\<rparr>)"
    by blast
qed

text \<open>C35: Redacting signed URL parameters in pieces is redacting them in the whole body: with buffers that are not empty the
  reader comes to the end the body had, and for a body without a vertical tab (0x0B) what it handed out is \<open>ReplaceAll\<close>
  of everything the body delivered, wherever the reads cut it. A vertical tab is treated in two ways by the code:
  \<open>vertical_tab_ends_cut_value\<close> below.
\<close>

theorem signed_pieces_as_whole:
  "\<exists>k. \<forall>ns. k \<le> length ns \<and> (\<forall>n\<in>set ns. 0 < n) \<longrightarrow>
     (let out = reads signed_Read ns (newSignedParamReader src) in
      end_of out = src_ends src \<and>
      (CHR 0x0B \<notin> set (body_of src) \<longrightarrow> body_of out = scrubSignedParams (body_of src)))"
proof -
  let ?r = "newSignedParamReader src"
  obtain k where k: "\<And>ns. k \<le> length ns \<Longrightarrow> \<forall>n\<in>set ns. 0 < n \<Longrightarrow> end_of (reads signed_Read ns ?r) \<noteq> More"
    using signed_reader.reading_ends [of ?r] by blast
  have "let out = reads signed_Read ns ?r in
      end_of out = src_ends src \<and> (CHR 0x0B \<notin> set (body_of src) \<longrightarrow> body_of out = scrubSignedParams (body_of src))"
    if ns: "k \<le> length ns" "\<forall>n\<in>set ns. 0 < n" for ns
  proof -
    let ?out = "reads signed_Read ns ?r"
    have ends: "end_of ?out \<noteq> More" using k ns by blast
    then have outcome: "end_of ?out = src_ends src"
      using signed_reader.reads_outcome [OF ends] by (simp add: signed_reader.outcome_def newSignedParamReader_def)
    have "body_of ?out = scrubSignedParams (body_of src)" if "CHR 0x0B \<notin> set (body_of src)"
    proof -
      have start: "CHR 0x0B \<notin> set (body_of src) \<longrightarrow> signed_inv (body_of src) [] ?r"
        by (simp add: signed_inv_def newSignedParamReader_def)
      show ?thesis
        using signed_stream.reads_inv [OF start, of ns] that ends by (auto simp: signed_inv_def)
    qed
    then show ?thesis using outcome unfolding Let_def by blast
  qed
  then show ?thesis by blast
qed

text \<open>A key and a value cut by a read: what is handed out is what one replacement makes of it all.\<close>

theorem signed_pieces_as_whole_witness:
  "\<exists>k. \<forall>ns. k \<le> length ns \<and> (\<forall>n\<in>set ns. 0 < n) \<longrightarrow>
     body_of (reads signed_Read ns (newSignedParamReader [(''a?S'', More), (''ig=0'', More), (''1&b'', EndOfBody)])) =
       ''a?Sig=[REDACTED]&b''"
proof -
  have "CHR 0x0B \<notin> set (body_of [(''a?S'', More), (''ig=0'', More), (''1&b'', EndOfBody)])"
    "scrubSignedParams (body_of [(''a?S'', More), (''ig=0'', More), (''1&b'', EndOfBody)]) = ''a?Sig=[REDACTED]&b''"
    by code_simp+
  then show ?thesis
    using signed_pieces_as_whole [of "[(''a?S'', More), (''ig=0'', More), (''1&b'', EndOfBody)]"] unfolding Let_def by metis
qed

text \<open>
  A vertical tab is a byte of the value for the expression and ends it for the reader: cut before it, the rest of
  the value is delivered.
\<close>

theorem vertical_tab_ends_cut_value:
  "body_of (reads signed_Read [64, 64, 64] (newSignedParamReader [(''?sig=a'', More), (CHR 0x0B # ''b'', EndOfBody)])) =
     ''?sig=[REDACTED]'' @ CHR 0x0B # ''b'' \<and>
   body_of (reads signed_Read [64, 64, 64] (newSignedParamReader [(''?sig=a'' @ CHR 0x0B # ''b'', EndOfBody)])) =
     ''?sig=[REDACTED]''"
  by code_simp

end
