(* ===== verification/Proxy_Spellings.thy ===== *)
theory Proxy_Spellings
  imports Proxy_Creds Go_URL Go_Regexp
begin

text \<open>
  Component: the spellings of an injected value that are redacted (\<open>secretTargets\<close> and \<open>base64Spellings\<close> of
  \<^verbatim>\<open>proxy/internal/proxy/hardening.go\<close>), with what they use of packages \<^verbatim>\<open>encoding/base64\<close>, \<^verbatim>\<open>net/url\<close> and
  \<^verbatim>\<open>encoding/json\<close>.
\<close>

section \<open>Package encoding/base64\<close>

text \<open>The sextets of a text: four for three bytes, two or three for what is left.\<close>

fun sextets :: "nat list \<Rightarrow> nat list" where
  "sextets [] = []"
| "sextets [a] = [a div 4, (a mod 4) * 16]"
| "sextets [a, b] = [a div 4, (a mod 4) * 16 + b div 16, (b mod 16) * 4]"
| "sextets (a # b # c # s) = [a div 4, (a mod 4) * 16 + b div 16, (b mod 16) * 4 + c div 64, c mod 64] @ sextets s"

definition std_digit :: "nat \<Rightarrow> char" where
  "std_digit n =
     (if n < 26 then char_of (n + 65) else if n < 52 then char_of (n + 71) else if n < 62 then char_of (n - 4)
      else if n = 62 then CHR ''+'' else CHR ''/'')"

definition url_digit :: "nat \<Rightarrow> char" where
  "url_digit n = (if n = 62 then CHR ''-'' else if n = 63 then CHR ''_'' else std_digit n)"

definition byte_values :: "string \<Rightarrow> nat list" where
  "byte_values s = map of_char s"

definition b64_padding :: "string \<Rightarrow> string" where
  "b64_padding s = replicate ((3 - length s mod 3) mod 3) (CHR ''='')"

definition RawStdEncoding :: "string \<Rightarrow> string" where
  "RawStdEncoding s = map std_digit (sextets (byte_values s))"

definition StdEncoding :: "string \<Rightarrow> string" where
  "StdEncoding s = RawStdEncoding s @ b64_padding s"

definition RawURLEncoding :: "string \<Rightarrow> string" where
  "RawURLEncoding s = map url_digit (sextets (byte_values s))"

definition URLEncoding :: "string \<Rightarrow> string" where
  "URLEncoding s = RawURLEncoding s @ b64_padding s"

section \<open>Packages net/url and encoding/json\<close>

definition query_byte :: "char \<Rightarrow> string" where
  "query_byte c =
     (if is_alnum c \<or> c \<in> set ''-_.~'' then [c]
      else if c = CHR '' '' then ''+''
      else [CHR ''%'', upperhex (of_char c div 16), upperhex (of_char c mod 16)])"

definition QueryEscape :: "string \<Rightarrow> string" where
  "QueryEscape s = concat (map query_byte s)"

text \<open>A string as \<open>json.Marshal\<close> writes it between the quotes, HTML escaped.\<close>

definition json_byte :: "char \<Rightarrow> string" where
  "json_byte c =
     (let n = (of_char c :: nat) in
      if c = CHR 0x5C \<or> c = CHR 0x22 then [CHR 0x5C, c]
      else if n = 8 then [CHR 0x5C, CHR ''b'']
      else if n = 12 then [CHR 0x5C, CHR ''f'']
      else if n = 10 then [CHR 0x5C, CHR ''n'']
      else if n = 13 then [CHR 0x5C, CHR ''r'']
      else if n = 9 then [CHR 0x5C, CHR ''t'']
      else if n < 32 \<or> c \<in> set ''<>&'' then CHR 0x5C # ''u00'' @ [hex_digit (n div 16), hex_digit (n mod 16)]
      else [c])"

function json_escape :: "string \<Rightarrow> string" where
  "json_escape [] = []"
| "json_escape (c # s) =
     (if byte c < 0x80 then json_byte c @ json_escape s
      else (case DecodeRune (c # s) of
              (r, n) \<Rightarrow>
                if r = RuneError \<and> n = 1 then CHR 0x5C # ''ufffd'' @ json_escape s
                else if r = 0x2028 \<or> r = 0x2029 then CHR 0x5C # ''u202'' @ [hex_digit (nat (r mod 16))] @ json_escape (drop (n - 1) s)
                else c # take (n - 1) s @ json_escape (drop (n - 1) s)))"
  by pat_completeness auto
termination
  by (relation "measure length") auto

section \<open>What is redacted for one header\<close>

definition toURLBase64 :: "string \<Rightarrow> string" where
  "toURLBase64 s = map (\<lambda>c. if c = CHR ''+'' then CHR ''-'' else if c = CHR ''/'' then CHR ''_'' else c) s"

definition base64_core :: "string \<Rightarrow> nat \<Rightarrow> string list" where
  "base64_core secret k =
     (let src = replicate k (CHR 0x00) @ secret; enc = RawStdEncoding src; lead = [0, 2, 3] ! k;
          trail = (if length src mod 3 \<noteq> 0 then 1 else 0) in
      if length enc - trail \<le> lead then []
      else let core = drop lead (take (length enc - trail) enc) in [core, toURLBase64 core])"

definition base64Spellings :: "string \<Rightarrow> string list" where
  "base64Spellings secret =
     concat (map (base64_core secret) [0, 1, 2]) @ [StdEncoding secret, toURLBase64 (StdEncoding secret)]"

definition add_target :: "string list \<Rightarrow> string \<Rightarrow> string list" where
  "add_target out s = (if MinSecretLen \<le> length s \<and> s \<notin> set out then out @ [s] else out)"

definition spellings :: "string \<Rightarrow> string list" where
  "spellings s =
     [QueryEscape s] @ (if json_escape s \<noteq> [] then [json_escape s] else []) @ [hex_EncodeToString s] @ base64Spellings s"

text \<open>The order of the plain values stands for the order in which the source iterates over its map.\<close>

definition secretTargets :: "string \<Rightarrow> string \<Rightarrow> string list" where
  "secretTargets name value =
     (if value = [] \<or> NonSecretHeader name then []
      else
        let out0 = add_target [] value;
            out1 = (if CHR '' '' \<in> set value then add_target out0 (snd (CutByte value (CHR '' ''))) else out0) in
        foldl add_target out1 (concat (map spellings out1)))"

end
