(* ===== verification/Scrub_Properties.thy ===== *)
theory Scrub_Properties
  imports Proxy_Scrub
begin

text \<open>
  What the scrubbing of a body promises: no injected value gets through however the body is cut into reads, and
  a body with no injected value in it arrives as it is.
\<close>

section \<open>Matching\<close>

named_theorems scrub \<open>reading rules for the secret set\<close>

lemma asciiLower_append [simp]: "asciiLower (a @ b) = asciiLower a @ asciiLower b"
  by (simp add: asciiLower_def)

lemma asciiLower_Nil [simp]: "asciiLower b = [] \<longleftrightarrow> b = []"
  by (simp add: asciiLower_def)

lemma asciiLower_Cons [simp]: "asciiLower (c # b) = lowerByte c # asciiLower b"
  by (simp add: asciiLower_def)

lemma asciiLower_empty [simp]: "asciiLower [] = []"
  by (simp add: asciiLower_def)

lemma length_asciiLower [simp]: "length (asciiLower b) = length b"
  by (simp add: asciiLower_def)

lemma asciiLower_take: "asciiLower (take n b) = take n (asciiLower b)"
  and asciiLower_drop: "asciiLower (drop n b) = drop n (asciiLower b)"
  by (simp_all add: asciiLower_def take_map drop_map)

lemma asciiLower_split [simp]:
  "asciiLower (take n b) @ asciiLower (drop n b) = asciiLower b"
  "asciiLower (take n b) @ asciiLower (drop n b) @ x = asciiLower b @ x"
  by (metis append_take_drop_id asciiLower_append append.assoc)+

lemma hasPrefixFold_iff [scrub]: "hasPrefixFold b t \<longleftrightarrow> prefix t (asciiLower b)"
  by (induction b t rule: hasPrefixFold.induct) auto

definition set_ok :: "secretSet \<Rightarrow> bool" where
  "set_ok m \<longleftrightarrow> (\<forall>t\<in>set (ss_targets m). t \<noteq> [] \<and> ss_first m (hd t) \<and> length t \<le> ss_maxLen m)"

lemma set_ok_add:
  assumes "set_ok m" "l \<noteq> []"
  shows "set_ok \<lparr>ss_targets = ss_targets m @ [l], ss_first = (ss_first m)(hd l := True),
    ss_maxLen = (if ss_maxLen m < length l then length l else ss_maxLen m)\<rparr>"
  unfolding set_ok_def
proof
  fix t
  assume "t \<in> set (ss_targets \<lparr>ss_targets = ss_targets m @ [l], ss_first = (ss_first m)(hd l := True),
    ss_maxLen = (if ss_maxLen m < length l then length l else ss_maxLen m)\<rparr>)"
  then consider "t = l" | "t \<noteq> [] \<and> ss_first m (hd t) \<and> length t \<le> ss_maxLen m"
    using assms(1) by (auto simp: set_ok_def)
  then show "t \<noteq> [] \<and> ss_first \<lparr>ss_targets = ss_targets m @ [l], ss_first = (ss_first m)(hd l := True),
      ss_maxLen = (if ss_maxLen m < length l then length l else ss_maxLen m)\<rparr> (hd t) \<and>
    length t \<le> ss_maxLen \<lparr>ss_targets = ss_targets m @ [l], ss_first = (ss_first m)(hd l := True),
      ss_maxLen = (if ss_maxLen m < length l then length l else ss_maxLen m)\<rparr>"
    using assms(2) by cases auto
qed

lemma newSecretSet_loop_inv:
  "set_ok m \<Longrightarrow> set seen = set (ss_targets m) \<Longrightarrow>
   set_ok (newSecretSet_loop ss seen m) \<and>
   set (ss_targets (newSecretSet_loop ss seen m)) = set (ss_targets m) \<union> asciiLower ` {s \<in> set ss. s \<noteq> []}"
proof (induction ss seen m rule: newSecretSet_loop.induct)
  case (2 s ss seen m)
  show ?case
  proof (cases "s = [] \<or> asciiLower s \<in> set seen")
    case True
    then show ?thesis using 2 by (auto simp: Let_def)
  next
    case False
    let ?l = "asciiLower s"
    let ?m = "\<lparr>ss_targets = ss_targets m @ [?l], ss_first = (ss_first m)(hd ?l := True),
      ss_maxLen = (if ss_maxLen m < length ?l then length ?l else ss_maxLen m)\<rparr>"
    have ok: "set_ok ?m" using "2.prems"(1) False by (intro set_ok_add) simp_all
    have seen: "set (?l # seen) = set (ss_targets ?m)" using "2.prems"(2) by simp
    have loop: "newSecretSet_loop (s # ss) seen m = newSecretSet_loop ss (?l # seen) ?m"
      using False by (simp add: Let_def)
    have "set_ok (newSecretSet_loop ss (?l # seen) ?m) \<and>
      set (ss_targets (newSecretSet_loop ss (?l # seen) ?m)) = set (ss_targets ?m) \<union> asciiLower ` {s \<in> set ss. s \<noteq> []}"
      by (rule "2.IH"(3) [OF _ refl _ ok seen]) (use False in simp_all)
    moreover have "{x \<in> set (s # ss). x \<noteq> []} = insert s {x \<in> set ss. x \<noteq> []}"
      using False by auto
    ultimately show ?thesis unfolding loop by simp
  qed
qed auto

lemma set_ok_sorted: "set_ok (m\<lparr>ss_targets := sort_key f (ss_targets m)\<rparr>) \<longleftrightarrow> set_ok m"
  by (simp add: set_ok_def)

lemma newSecretSet_ok: "set_ok (newSecretSet secrets)"
  and newSecretSet_targets [scrub]: "set (ss_targets (newSecretSet secrets)) = asciiLower ` {s \<in> set secrets. s \<noteq> []}"
proof -
  let ?m = "\<lparr>ss_targets = [], ss_first = \<lambda>_. False, ss_maxLen = 0\<rparr>"
  have "set_ok ?m" by (simp add: set_ok_def)
  then have "set_ok (newSecretSet_loop secrets [] ?m) \<and>
      set (ss_targets (newSecretSet_loop secrets [] ?m)) = set (ss_targets ?m) \<union> asciiLower ` {s \<in> set secrets. s \<noteq> []}"
    by (rule newSecretSet_loop_inv) simp
  then show "set_ok (newSecretSet secrets)"
    "set (ss_targets (newSecretSet secrets)) = asciiLower ` {s \<in> set secrets. s \<noteq> []}"
    unfolding newSecretSet_def Let_def set_ok_sorted by simp_all
qed

lemma secret_match_zero_iff:
  assumes "set_ok m"
  shows "secret_match m b = 0 \<longleftrightarrow> \<not> (\<exists>t\<in>set (ss_targets m). prefix t (asciiLower b))"
proof (cases "b = [] \<or> \<not> ss_first m (lowerByte (hd b))")
  case True
  have "\<not> prefix t (asciiLower b)" if t: "t \<in> set (ss_targets m)" for t
  proof
    assume p: "prefix t (asciiLower b)"
    have "t \<noteq> []" "ss_first m (hd t)" using assms t by (auto simp: set_ok_def)
    then have "b \<noteq> []" "hd t = lowerByte (hd b)" using p by (cases t; cases b; simp)+
    then show False using True \<open>ss_first m (hd t)\<close> by simp
  qed
  then show ?thesis using True by (auto simp: secret_match_def)
next
  case False
  then show ?thesis
    using assms by (fastforce simp: secret_match_def set_ok_def scrub find_None_iff find_Some_iff dest: nth_mem split: option.splits)
qed

lemma secret_match_Suc:
  assumes "secret_match m b = Suc n"
  shows "\<exists>t\<in>set (ss_targets m). prefix t (asciiLower b) \<and> length t = Suc n"
  using assms by (force simp: secret_match_def scrub find_Some_iff split: if_splits option.splits)

lemma secret_replace_loop [simp]: "secret_replace (Some m) b = replace_loop m b"
proof -
  have "ss_targets m = [] \<Longrightarrow> replace_loop m b = b"
    by (induction m b rule: replace_loop.induct) (auto simp: secret_match_def split: nat.splits)
  then show ?thesis by (simp add: secret_replace_def)
qed

section \<open>What a replaced piece holds\<close>

definition no_bracket :: "string \<Rightarrow> bool" where
  "no_bracket t \<longleftrightarrow> CHR ''['' \<notin> set t \<and> CHR '']'' \<notin> set t"

text \<open>A spelling that the mark itself cannot contain or complete.\<close>

definition apart :: "string \<Rightarrow> bool" where
  "apart t \<longleftrightarrow> no_bracket t \<and> \<not> sublist t ''redacted''"

lemma lower_mark: "asciiLower redactedMark = CHR ''['' # ''redacted'' @ [CHR '']'']"
  by code_simp

lemma prefix_replace_loop:
  "CHR ''['' \<notin> set t \<Longrightarrow> prefix t (asciiLower (replace_loop m b)) \<Longrightarrow> prefix t (asciiLower b)"
proof (induction m b arbitrary: t rule: replace_loop.induct)
  case (2 m c b)
  show ?case
  proof (cases "secret_match m (c # b)")
    case 0
    then show ?thesis using 2 by (cases t) auto
  next
    case (Suc n)
    then have "t = []" using 2(3,4) by (cases t) (auto simp: lower_mark)
    then show ?thesis by simp
  qed
qed simp

lemma replace_loop_plain: "CHR ''['' \<notin> set (replace_loop m b) \<Longrightarrow> replace_loop m b = b"
  by (induction m b rule: replace_loop.induct) (auto simp: redactedMark_def split: nat.splits)

lemma lowerByte_bracket: "lowerByte c = CHR ''['' \<longleftrightarrow> c = CHR ''[''"
proof
  assume eq: "lowerByte c = CHR ''[''"
  show "c = CHR ''[''"
  proof (cases "is_upper c")
    case True
    have "of_char (lowerByte c) = (91::nat)" unfolding eq by simp
    then show ?thesis using True by (simp add: lowerByte_def to_lower_def is_upper_def)
  next
    case False
    then show ?thesis using eq by (simp add: lowerByte_def to_lower_def)
  qed
qed (simp add: lowerByte_def to_lower_def is_upper_def)

lemma lowerByte_closing: "lowerByte c = CHR '']'' \<longleftrightarrow> c = CHR '']''"
proof
  assume eq: "lowerByte c = CHR '']''"
  show "c = CHR '']''"
  proof (cases "is_upper c")
    case True
    have "of_char (lowerByte c) = (93::nat)" unfolding eq by simp
    then show ?thesis using True by (simp add: lowerByte_def to_lower_def is_upper_def)
  next
    case False
    then show ?thesis using eq by (simp add: lowerByte_def to_lower_def)
  qed
qed (simp add: lowerByte_def to_lower_def is_upper_def)

lemma closing_asciiLower [simp]: "CHR '']'' \<in> set (asciiLower b) \<longleftrightarrow> CHR '']'' \<in> set b"
proof (induction b)
  case (Cons c b)
  have "CHR '']'' = lowerByte c \<longleftrightarrow> CHR '']'' = c" using lowerByte_closing [of c] by metis
  then show ?case using Cons by simp
qed simp

lemma bracket_asciiLower [simp]: "CHR ''['' \<in> set (asciiLower b) \<longleftrightarrow> CHR ''['' \<in> set b"
proof (induction b)
  case (Cons c b)
  have "CHR ''['' = lowerByte c \<longleftrightarrow> CHR ''['' = c" using lowerByte_bracket [of c] by metis
  then show ?case using Cons by simp
qed simp

lemma sublist_separated:
  assumes "c \<notin> set t" "sublist t (x @ c # y)"
  shows "sublist t x \<or> sublist t y"
proof -
  have "v = []" if "prefix v (c # y)" "set v \<subseteq> set t" for v
    using that assms(1) by (cases v) auto
  note none = this
  consider "sublist t x" | "prefix t (c # y)" | "sublist t y"
    | u v where "t = u @ v" "suffix u x" "prefix v (c # y)"
    using assms(2) unfolding sublist_append sublist_Cons_right by blast
  then show ?thesis
  proof cases
    case 2
    then have "t = []" using none by simp
    then show ?thesis by simp
  next
    case 4
    then have "v = []" using none by simp
    then show ?thesis using 4 by simp
  qed blast+
qed

lemma apart_mark:
  assumes "apart t"
  shows "\<not> sublist t (asciiLower redactedMark)" "suffix u (asciiLower redactedMark) \<Longrightarrow> set u \<subseteq> set t \<Longrightarrow> u = []"
proof -
  have t: "t \<noteq> []" "CHR ''['' \<notin> set t" "CHR '']'' \<notin> set t" "\<not> sublist t ''redacted''"
    using assms by (auto simp: apart_def no_bracket_def)
  show "\<not> sublist t (asciiLower redactedMark)"
  proof
    assume "sublist t (asciiLower redactedMark)"
    then have "sublist t ([] @ CHR ''['' # (''redacted'' @ [CHR '']'']))" unfolding lower_mark append_Nil .
    then have "sublist t (''redacted'' @ CHR '']'' # [])" using sublist_separated t(1,2) by fastforce
    then show False using sublist_separated [OF t(3)] t(1,4) by fastforce
  qed
  show "u = []" if u_in: "suffix u (asciiLower redactedMark)" "set u \<subseteq> set t"
  proof (rule ccontr)
    assume u: "u \<noteq> []"
    obtain w where "asciiLower redactedMark = w @ u" using u_in(1) by (auto simp: suffix_def)
    then have "last u = last (asciiLower redactedMark)" using u by simp
    then have "last u = CHR '']''" by (simp add: lower_mark)
    then show False using u u_in(2) t(3) last_in_set [OF u] by auto
  qed
qed

lemma replaced_has_no_target:
  assumes "set_ok m" "t \<in> set (ss_targets m)" "apart t"
  shows "\<not> sublist t (asciiLower (replace_loop m b))"
  using assms
proof (induction m b rule: replace_loop.induct)
  case (1 m)
  then show ?case by (auto simp: set_ok_def)
next
  case (2 m c b)
  show ?case
  proof (cases "secret_match m (c # b)")
    case 0
    then have "\<not> prefix t (asciiLower (c # b))" using 2(3,4) by (simp add: secret_match_zero_iff)
    then have "\<not> prefix t (asciiLower (replace_loop m (c # b)))"
      using prefix_replace_loop 2(5) unfolding apart_def no_bracket_def by blast
    then show ?thesis using 2 0 by (simp add: sublist_Cons_right)
  next
    case (Suc n)
    then have "\<not> sublist t (asciiLower (replace_loop m (drop n b)))" using 2 by simp
    moreover have "\<not> prefix v (asciiLower (replace_loop m (drop n b)))"
      if "t = u @ v" "suffix u (asciiLower redactedMark)" for u v
      using apart_mark(2) [OF 2(5) that(2)] that(1) calculation by auto
    ultimately show ?thesis
      using apart_mark(1) [OF 2(5)] Suc by (auto simp: sublist_append)
  qed
qed

lemma clean_replace_loop:
  "set_ok m \<Longrightarrow> \<forall>t\<in>set (ss_targets m). \<not> sublist t (asciiLower b) \<Longrightarrow> replace_loop m b = b"
proof (induction m b rule: replace_loop.induct)
  case (2 m c b)
  then have "secret_match m (c # b) = 0"
    by (auto simp: secret_match_zero_iff sublist_Cons_right)
  then show ?case using 2 by (simp add: sublist_Cons_right)
qed simp

section \<open>What is held back\<close>

lemma is_head_iff [scrub]:
  "is_head m u \<longleftrightarrow> (\<exists>t\<in>set (ss_targets m). length u < length t \<and> prefix (asciiLower u) t)"
proof -
  have "prefix (take (length u) t) (asciiLower u) \<longleftrightarrow> prefix (asciiLower u) t" if "length u < length t" for t
  proof
    assume "prefix (take (length u) t) (asciiLower u)"
    then have "take (length u) t = asciiLower u" using that by (metis length_asciiLower length_take min.absorb4 not_equal_is_parallel parallelE prefix_order.order_refl)
    then show "prefix (asciiLower u) t" by (metis take_is_prefix)
  next
    assume "prefix (asciiLower u) t"
    then show "prefix (take (length u) t) (asciiLower u)"
      by (metis append_eq_conv_conj length_asciiLower prefix_def prefix_order.order_refl)
  qed
  then show ?thesis by (auto simp: is_head_def list_ex_iff scrub)
qed

lemma holdBack_loop_le: "holdBack_loop m data l \<le> l"
  by (induction m data l rule: holdBack_loop.induct) auto

lemma holdBack_loop_max:
  "k \<le> l \<Longrightarrow> 0 < k \<Longrightarrow> is_head m (drop (length data - k) data) \<Longrightarrow> k \<le> holdBack_loop m data l"
proof (induction m data l rule: holdBack_loop.induct)
  case (2 m data l)
  then show ?case by (cases "k = Suc l") auto
qed simp

lemma holdBack_le: "holdBack m data \<le> length data"
  using holdBack_loop_le [of m data "min (ss_maxLen m - 1) (length data)"] by (simp add: holdBack_def)

lemma holdBack_short: "holdBack m data \<le> ss_maxLen m - 1"
  using holdBack_loop_le [of m data "min (ss_maxLen m - 1) (length data)"] by (simp add: holdBack_def)

lemma holdBack_max:
  assumes "set_ok m" "t \<in> set (ss_targets m)" "suffix u (asciiLower data)" "prefix u t" "length u < length t"
  shows "length u \<le> holdBack m data"
proof (cases "u = []")
  case False
  have le: "length u \<le> length data" using suffix_length_le [OF assms(3)] by simp
  obtain w where w: "asciiLower data = w @ u" using assms(3) by (auto simp: suffix_def)
  then have "length data = length w + length u" using length_asciiLower [of data] by simp
  then have "u = asciiLower (drop (length data - length u) data)" using w by (simp add: asciiLower_drop)
  then have "is_head m (drop (length data - length u) data)"
    unfolding is_head_iff using assms(2,4,5) le by (metis length_asciiLower)
  moreover have "length u \<le> ss_maxLen m - 1" using assms(1,2,5) by (fastforce simp: set_ok_def)
  ultimately show ?thesis using False le unfolding holdBack_def by (intro holdBack_loop_max) auto
qed simp

section \<open>Injected values never get through\<close>

text \<open>
  \<open>E\<close> is what was emitted, \<open>C\<close> what is carried over, both lower-cased. No spelling is in them together, and an end
  of them that may be the head of a spelling lies in what is carried over.
\<close>

definition heads_carried :: "string \<Rightarrow> string \<Rightarrow> string \<Rightarrow> bool" where
  "heads_carried t E C \<longleftrightarrow> (\<forall>u. suffix u (E @ C) \<longrightarrow> strict_prefix u t \<longrightarrow> length u \<le> length C)"

lemma suffix_grown: "suffix u x \<Longrightarrow> suffix (u @ y) (x @ y)"
  by (auto simp: suffix_def)

lemma next_piece_has_no_target:
  assumes "set_ok m" "t \<in> set (ss_targets m)" "apart t"
    and none: "\<not> sublist t (E @ asciiLower c)" and heads: "heads_carried t E (asciiLower c)"
  shows "\<not> sublist t (E @ asciiLower (replace_loop m (c @ buf)))"
proof
  let ?D = "asciiLower (replace_loop m (c @ buf))"
  assume "sublist t (E @ ?D)"
  then consider "sublist t E" | "sublist t ?D" | u v where "t = u @ v" "suffix u E" "prefix v ?D"
    by (auto simp: sublist_append)
  then show False
  proof cases
    case 1
    then show ?thesis using none by (metis sublist_append)
  next
    case 2
    then show ?thesis using replaced_has_no_target assms(1-3) by blast
  next
    case 3
    have "CHR ''['' \<notin> set v" using assms(3) 3(1) by (auto simp: apart_def no_bracket_def)
    then have v: "prefix v (asciiLower c @ asciiLower buf)" using prefix_replace_loop 3(3) by fastforce
    show ?thesis
    proof (cases "length v \<le> length c")
      case True
      then have "prefix v (asciiLower c)" using prefix_length_prefix [OF v prefixI [OF refl]] by simp
      then have "sublist t (E @ asciiLower c)" using 3(1,2) by (auto simp: sublist_append)
      then show ?thesis using none by blast
    next
      case False
      then have "prefix (asciiLower c) v" using prefix_length_prefix [OF prefixI [OF refl] v] by simp
      moreover have "asciiLower c \<noteq> v" using False by auto
      ultimately have sp: "strict_prefix (asciiLower c) v" by (simp add: strict_prefix_def)
      have "suffix (u @ asciiLower c) (E @ asciiLower c)" using 3(2) by (rule suffix_grown)
      moreover have "strict_prefix (u @ asciiLower c) t" using sp 3(1) by (auto simp: strict_prefix_def)
      ultimately have "length (u @ asciiLower c) \<le> length (asciiLower c)" using heads unfolding heads_carried_def by blast
      then have "u = []" by simp
      then show ?thesis using 3 replaced_has_no_target [OF assms(1-3)] prefix_imp_sublist by fastforce
    qed
  qed
qed

lemma next_piece_heads:
  assumes "apart t" and heads: "heads_carried t E (asciiLower c)"
    and u: "suffix u (E @ asciiLower (replace_loop m (c @ buf)))" "strict_prefix u t"
  shows "suffix u (asciiLower (replace_loop m (c @ buf)))"
proof (rule ccontr)
  let ?D = "asciiLower (replace_loop m (c @ buf))"
  assume "\<not> suffix u ?D"
  then obtain u' where u': "u = u' @ ?D" "suffix u' E"
    using u(1) unfolding suffix_append by blast
  then have "u' \<noteq> []" using \<open>\<not> suffix u ?D\<close> by (cases u') simp_all
  have "CHR ''['' \<notin> set t" "set u \<subseteq> set t"
    using assms(1) set_mono_prefix [of u t] u(2) by (simp_all add: apart_def no_bracket_def strict_prefix_def)
  moreover have "set ?D \<subseteq> set u" using u'(1) by auto
  ultimately have "CHR ''['' \<notin> set ?D" by blast
  then have "replace_loop m (c @ buf) = c @ buf" by (intro replace_loop_plain) simp
  then have "u = (u' @ asciiLower c) @ asciiLower buf" using u'(1) by simp
  then have "prefix (u' @ asciiLower c) u" by (rule prefixI)
  then have "strict_prefix (u' @ asciiLower c) t" using u(2) by (rule prefix_order.le_less_trans)
  moreover have "suffix (u' @ asciiLower c) (E @ asciiLower c)" using u'(2) by (rule suffix_grown)
  ultimately have "length (u' @ asciiLower c) \<le> length (asciiLower c)" using heads unfolding heads_carried_def by blast
  then show False using \<open>u' \<noteq> []\<close> by simp
qed

text \<open>The invariant of the reader: \<open>got\<close> are the bytes handed out.\<close>

definition scrub_inv :: "secretSet \<Rightarrow> string \<Rightarrow> scrubReader \<Rightarrow> bool" where
  "scrub_inv m got s \<longleftrightarrow> sr_set s = m \<and>
     (\<forall>t\<in>set (ss_targets m). apart t \<longrightarrow>
        \<not> sublist t (asciiLower (got @ fl_pending s @ fl_carry s)) \<and>
        (fl_err s = More \<longrightarrow> heads_carried t (asciiLower (got @ fl_pending s)) (asciiLower (fl_carry s))))"

lemma scrub_take_inv:
  assumes "set_ok m" "scrub_inv m got s" "fl_pending s = []" "fl_err s = More"
  shows "scrub_inv m got (if e \<noteq> More then scrub_end e (scrub_take buf e s) else scrub_take buf e s)"
proof -
  let ?D = "replace_loop m (fl_carry s @ buf)"
  let ?k = "length ?D - holdBack m ?D"
  have m: "sr_set s = m" using assms(2) by (simp add: scrub_inv_def)
  have none: "\<not> sublist t (asciiLower got @ asciiLower ?D)"
    and heads: "heads_carried t (asciiLower (got @ take ?k ?D)) (asciiLower (drop ?k ?D))"
    if t: "t \<in> set (ss_targets m)" "apart t" for t
  proof -
    have old: "\<not> sublist t (asciiLower got @ asciiLower (fl_carry s))"
      "heads_carried t (asciiLower got) (asciiLower (fl_carry s))"
      using assms(2-4) t by (simp_all add: scrub_inv_def)
    show "\<not> sublist t (asciiLower got @ asciiLower ?D)"
      by (rule next_piece_has_no_target [OF assms(1) t old])
    show "heads_carried t (asciiLower (got @ take ?k ?D)) (asciiLower (drop ?k ?D))"
      unfolding heads_carried_def
    proof (intro allI impI)
      fix u
      assume u: "suffix u (asciiLower (got @ take ?k ?D) @ asciiLower (drop ?k ?D))" "strict_prefix u t"
      have whole: "asciiLower (got @ take ?k ?D) @ asciiLower (drop ?k ?D) = asciiLower got @ asciiLower ?D"
        by simp
      have "suffix u (asciiLower ?D)"
        by (rule next_piece_heads [OF t(2) old(2) u(1) [unfolded whole] u(2)])
      then have "length u \<le> holdBack m ?D"
        using u(2) prefix_length_less [OF u(2)] by (intro holdBack_max [OF assms(1) t(1)]) (simp_all add: strict_prefix_def)
      then show "length u \<le> length (asciiLower (drop ?k ?D))" using holdBack_le [of m ?D] by simp
    qed
  qed
  show ?thesis
  proof (cases "e = EndOfBody")
    case True
    then show ?thesis using none m by (simp add: scrub_inv_def scrub_take_def scrub_end_def Let_def)
  next
    case False
    have whole: "asciiLower (take ?k ?D) @ asciiLower (drop ?k ?D) = asciiLower ?D"
      by simp
    have "scrub_take buf e s = s\<lparr>fl_pending := take ?k ?D, fl_carry := drop ?k ?D\<rparr>"
      using False m by (simp add: scrub_take_def Let_def)
    then show ?thesis using False none heads m whole by (auto simp: scrub_inv_def scrub_end_def)
  qed
qed

lemma scrub_fill_inv:
  assumes "set_ok m" "scrub_inv m got s" "fl_pending s = []" "fl_err s = More"
  shows "scrub_inv m got (scrub_fill s)"
proof -
  obtain buf e rest where src: "src_read (fl_src s) = (buf, e, rest)" by (cases "src_read (fl_src s)")
  let ?s = "s\<lparr>fl_src := rest\<rparr>"
  have inv: "scrub_inv m got ?s" using assms(2) by (simp add: scrub_inv_def)
  show ?thesis
  proof (cases "buf = []")
    case False
    then show ?thesis
      using scrub_take_inv [OF assms(1) inv, of e buf] assms(3,4) src
      by (simp add: scrub_fill_def Let_def split: if_splits)
  next
    case True
    have "\<not> sublist t (asciiLower got @ asciiLower (replace_loop m (fl_carry s @ [])))"
      if t: "t \<in> set (ss_targets m)" "apart t" for t
      using assms t by (intro next_piece_has_no_target) (auto simp: scrub_inv_def)
    then show ?thesis using True assms inv src
      by (cases e) (auto simp: scrub_fill_def scrub_end_def scrub_inv_def Let_def)
  qed
qed

lemma scrub_start_inv: "scrub_inv (newSecretSet secrets) [] (newScrubReader src secrets)"
  using newSecretSet_ok [of secrets]
  by (auto simp: scrub_inv_def newScrubReader_def heads_carried_def set_ok_def)

interpretation scrub_reader: buffered_reader scrub_fill scrub_Read
proof
  fix s :: scrubReader and n
  show "fl_src (scrub_fill s) = snd (snd (src_read (fl_src s)))"
    by (cases "src_read (fl_src s)") (simp add: scrub_fill_def scrub_take_def scrub_end_def Let_def)
  show "fl_err s = More \<Longrightarrow> fl_err (scrub_fill s) = fst (snd (src_read (fl_src s)))"
    by (cases "src_read (fl_src s)") (simp add: scrub_fill_def scrub_take_def scrub_end_def Let_def)
  show "fst (scrub_Read n s) = take n (fl_pending (fill_up scrub_fill s))"
    by (simp add: scrub_Read_def Let_def)
  show "snd (snd (scrub_Read n s)) = fill_up scrub_fill s\<lparr>fl_pending := drop n (fl_pending (fill_up scrub_fill s))\<rparr>"
    by (simp add: scrub_Read_def Let_def)
  show "fst (snd (scrub_Read n s)) \<noteq> More \<Longrightarrow>
      fst (snd (scrub_Read n s)) = fl_err (fill_up scrub_fill s) \<and> drop n (fl_pending (fill_up scrub_fill s)) = []"
    by (simp add: scrub_Read_def Let_def split: if_splits)
  show "0 < n \<Longrightarrow> fl_pending (fill_up scrub_fill s) = [] \<Longrightarrow> fst (snd (scrub_Read n s)) = fl_err (fill_up scrub_fill s)"
    by (simp add: scrub_Read_def Let_def)
qed

interpretation scrub_safe: stream_filter scrub_fill scrub_Read "scrub_inv (newSecretSet secrets)" for secrets
proof
  fix got s n
  show "scrub_inv (newSecretSet secrets) got s \<Longrightarrow> fl_pending s = [] \<Longrightarrow> fl_err s = More \<Longrightarrow>
      scrub_inv (newSecretSet secrets) got (scrub_fill s)"
    by (rule scrub_fill_inv [OF newSecretSet_ok])
  show "scrub_inv (newSecretSet secrets) got s \<Longrightarrow>
      scrub_inv (newSecretSet secrets) (got @ take n (fl_pending s)) (s\<lparr>fl_pending := drop n (fl_pending s)\<rparr>)"
    by (simp add: scrub_inv_def)
qed

text \<open>
  A value the mark cannot be part of: no square bracket in it, and not a piece of the word in the mark.
\<close>

definition apart_from_mark :: "string \<Rightarrow> bool" where
  "apart_from_mark secret \<longleftrightarrow> secret \<noteq> [] \<and> apart (asciiLower secret)"

lemma injected_apart:
  assumes "secret \<in> set secrets" "apart_from_mark secret"
  shows "\<not> sublist (asciiLower secret) (asciiLower (body_of (reads scrub_Read ns (newScrubReader src secrets))))"
proof -
  have t: "asciiLower secret \<in> set (ss_targets (newSecretSet secrets))" "apart (asciiLower secret)"
    using assms by (auto simp: scrub apart_from_mark_def)
  obtain s where "scrub_inv (newSecretSet secrets) (body_of (reads scrub_Read ns (newScrubReader src secrets))) s"
    using scrub_safe.reads_inv [OF scrub_start_inv, of secrets ns src] by auto
  then show ?thesis using t by (auto simp: scrub_inv_def sublist_append)
qed

text \<open>An injected value never reaches the agent: however the body of the response is cut into reads and however it is
  read, what is handed out contains no spelling it was told to redact, in upper or lower case, unless the mark
  itself may spell it.
\<close>

theorem injected_value_never_delivered:
  assumes "secret \<in> set secrets" "apart_from_mark secret"
  shows "\<not> sublist (asciiLower secret) (asciiLower (body_of (reads scrub_Read ns (newScrubReader src secrets))))"
  using assms by (rule injected_apart)

text \<open>The value in capitals and cut by a read of the source: it is redacted.\<close>

theorem injected_value_never_delivered_witness:
  "apart_from_mark ''tok12345'' \<and>
   reads scrub_Read [4, 64] (newScrubReader [(''a TOK1'', More), (''2345 b'', EndOfBody)] [''tok12345'']) =
     [(''a '', More), (''[REDACTED] b'', EndOfBody)] \<and>
   \<not> sublist (asciiLower ''tok12345'') (asciiLower (body_of (reads scrub_Read [4, 64]
     (newScrubReader [(''a TOK1'', More), (''2345 b'', EndOfBody)] [''tok12345'']))))"
proof -
  have a: "apart_from_mark ''tok12345''" by code_simp
  have b: "reads scrub_Read [4, 64] (newScrubReader [(''a TOK1'', More), (''2345 b'', EndOfBody)] [''tok12345'']) =
     [(''a '', More), (''[REDACTED] b'', EndOfBody)]" by code_simp
  have c: "''tok12345'' \<in> set [''tok12345'']" by simp
  show ?thesis by (intro conjI a b injected_value_never_delivered [OF c a])
qed

text \<open>
  A spelling that starts with a shorter one is not always redacted in one piece: when a read ends with the shorter
  one, that is what is replaced, and the rest of the longer is delivered.
\<close>

theorem longer_spelling_cut:
  "body_of (reads scrub_Read [64, 64] (newScrubReader [(''token12345'', EndOfBody)] [''token123'', ''token12345''])) =
     ''[REDACTED]'' \<and>
   body_of (reads scrub_Read [64, 64, 64] (newScrubReader [(''token123'', More), (''45'', EndOfBody)] [''token123'', ''token12345''])) =
     ''[REDACTED]45''"
  by code_simp

section \<open>A body with no injected value\<close>

definition target_free :: "secretSet \<Rightarrow> string \<Rightarrow> bool" where
  "target_free m body \<longleftrightarrow> (\<forall>t\<in>set (ss_targets m). \<not> sublist t (asciiLower body))"

definition pass_inv :: "secretSet \<Rightarrow> string \<Rightarrow> string \<Rightarrow> scrubReader \<Rightarrow> bool" where
  "pass_inv m body got s \<longleftrightarrow> sr_set s = m \<and> length (fl_carry s) \<le> ss_maxLen m - 1 \<and>
     (case fl_err s of
        More \<Rightarrow> \<not> sr_eof s \<and> got @ fl_pending s @ fl_carry s @ body_of (fl_src s) = body
      | EndOfBody \<Rightarrow> got @ fl_pending s = body
      | BodyFailed \<Rightarrow> got @ fl_pending s @ fl_carry s = body)"

lemma clean_piece: "set_ok m \<Longrightarrow> target_free m (a @ b @ c) \<Longrightarrow> replace_loop m b = b"
  by (intro clean_replace_loop) (auto simp: target_free_def sublist_append)

lemma scrub_fill_pass:
  assumes "set_ok m" "target_free m body" "pass_inv m body got s" "fl_pending s = []" "fl_err s = More"
  shows "pass_inv m body got (scrub_fill s)"
proof -
  obtain buf e rest where src: "src_read (fl_src s) = (buf, e, rest)" by (cases "src_read (fl_src s)")
  let ?D = "fl_carry s @ buf"
  let ?k = "length ?D - holdBack m ?D"
  have s: "sr_set s = m" "\<not> sr_eof s" "length (fl_carry s) \<le> ss_maxLen m - 1"
    and body: "body = got @ ?D @ (if e = More then body_of rest else [])"
    using assms(3-5) body_of_src_read [OF src] by (auto simp: pass_inv_def)
  have same: "replace_loop m ?D = ?D" using clean_piece assms(1,2) unfolding body by blast
  have hold: "length (drop ?k ?D) \<le> ss_maxLen m - 1"
    using holdBack_short [of m ?D] holdBack_le [of m ?D] by simp
  have split: "take ?k ?D @ drop ?k ?D @ x = ?D @ x" for x by (rule take_drop_append)
  show ?thesis
  proof (cases "buf = []")
    case True
    then show ?thesis using s body assms(4,5) same src
      by (cases e) (simp_all add: scrub_fill_def scrub_end_def pass_inv_def)
  next
    case False
    then show ?thesis using s body assms(4,5) same src hold split
      by (cases e) (simp_all add: scrub_fill_def scrub_take_def scrub_end_def pass_inv_def Let_def)
  qed
qed

interpretation scrub_pass: stream_filter scrub_fill scrub_Read
  "\<lambda>got s. target_free (newSecretSet secrets) body \<longrightarrow> pass_inv (newSecretSet secrets) body got s" for secrets body
proof
  fix got s n
  show "target_free (newSecretSet secrets) body \<longrightarrow> pass_inv (newSecretSet secrets) body got s \<Longrightarrow>
      fl_pending s = [] \<Longrightarrow> fl_err s = More \<Longrightarrow>
      target_free (newSecretSet secrets) body \<longrightarrow> pass_inv (newSecretSet secrets) body got (scrub_fill s)"
    using scrub_fill_pass newSecretSet_ok by blast
  have "pass_inv (newSecretSet secrets) body got s \<Longrightarrow>
      pass_inv (newSecretSet secrets) body (got @ take n (fl_pending s)) (s\<lparr>fl_pending := drop n (fl_pending s)\<rparr>)"
    by (cases "fl_err s") (simp_all add: pass_inv_def take_drop_append)
  then show "target_free (newSecretSet secrets) body \<longrightarrow> pass_inv (newSecretSet secrets) body got s \<Longrightarrow>
      target_free (newSecretSet secrets) body \<longrightarrow>
      pass_inv (newSecretSet secrets) body (got @ take n (fl_pending s)) (s\<lparr>fl_pending := drop n (fl_pending s)\<rparr>)"
    by blast
qed

lemma pass_start_inv: "pass_inv (newSecretSet secrets) (body_of src) [] (newScrubReader src secrets)"
  by (simp add: pass_inv_def newScrubReader_def)

text \<open>C34: Scrubbing takes nothing else and always finishes: reading with buffers that are not empty reports the end the
  body had after finitely many reads; and when no spelling of an injected value occurs in the body, the whole body
  is delivered unchanged if it ended, and all but fewer bytes than the longest spelling if it failed.
\<close>

theorem clean_body_arrives:
  "\<exists>k. \<forall>ns. k \<le> length ns \<and> (\<forall>n\<in>set ns. 0 < n) \<longrightarrow>
     (let out = reads scrub_Read ns (newScrubReader src secrets) in
      end_of out = src_ends src \<and>
      ((\<forall>s\<in>set secrets. s = [] \<or> \<not> sublist (asciiLower s) (asciiLower (body_of src))) \<longrightarrow>
         prefix (body_of out) (body_of src) \<and>
         (if src_ends src = EndOfBody then body_of out = body_of src
          else length (body_of src) \<le> length (body_of out) + (ss_maxLen (newSecretSet secrets) - 1))))"
proof -
  let ?r = "newScrubReader src secrets"
  obtain k where k: "\<And>ns. k \<le> length ns \<Longrightarrow> \<forall>n\<in>set ns. 0 < n \<Longrightarrow> end_of (reads scrub_Read ns ?r) \<noteq> More"
    using scrub_reader.reading_ends [of ?r] by blast
  have "let out = reads scrub_Read ns ?r in
      end_of out = src_ends src \<and>
      ((\<forall>s\<in>set secrets. s = [] \<or> \<not> sublist (asciiLower s) (asciiLower (body_of src))) \<longrightarrow>
         prefix (body_of out) (body_of src) \<and>
         (if src_ends src = EndOfBody then body_of out = body_of src
          else length (body_of src) \<le> length (body_of out) + (ss_maxLen (newSecretSet secrets) - 1)))"
    if ns: "k \<le> length ns" "\<forall>n\<in>set ns. 0 < n" for ns
  proof -
    let ?out = "reads scrub_Read ns ?r"
    have ends: "end_of ?out \<noteq> More" using k ns by blast
    then have outcome: "end_of ?out = src_ends src"
      using scrub_reader.reads_outcome [OF ends] by (simp add: scrub_reader.outcome_def newScrubReader_def)
    have "prefix (body_of ?out) (body_of src) \<and>
         (if src_ends src = EndOfBody then body_of ?out = body_of src
          else length (body_of src) \<le> length (body_of ?out) + (ss_maxLen (newSecretSet secrets) - 1))"
      if clean: "\<forall>s\<in>set secrets. s = [] \<or> \<not> sublist (asciiLower s) (asciiLower (body_of src))"
    proof -
      have c: "target_free (newSecretSet secrets) (body_of src)" using clean by (auto simp: target_free_def scrub)
      obtain s where "pass_inv (newSecretSet secrets) (body_of src) (body_of ?out) s"
        "fl_err s = src_ends src" "fl_pending s = []"
        using scrub_pass.reads_inv [of secrets "body_of src" "[]" ?r ns] pass_start_inv c ends outcome by auto
      then have s: "length (fl_carry s) \<le> ss_maxLen (newSecretSet secrets) - 1"
        "body_of src = body_of ?out @ (if src_ends src = EndOfBody then [] else fl_carry s)"
        by (cases "src_ends src"; simp add: pass_inv_def)+
      show ?thesis using s(1) unfolding s(2) by simp
    qed
    then show ?thesis using outcome unfolding Let_def by blast
  qed
  then show ?thesis by blast
qed

text \<open>Two bytes at a time, a body without the value: it arrives whole after enough reads.\<close>

definition sample_pieces :: "(string \<times> src_end) list" where
  "sample_pieces = [(''a TOK1'', More), (''2345 b'', EndOfBody)]"

theorem clean_body_arrives_witness:
  "\<exists>k. \<forall>ns. k \<le> length ns \<and> (\<forall>n\<in>set ns. 0 < n) \<longrightarrow>
     body_of (reads scrub_Read ns (newScrubReader sample_pieces [''tok99999''])) = ''a TOK12345 b''"
proof -
  have "\<forall>s\<in>set [''tok99999'']. s = [] \<or> \<not> sublist (asciiLower s) (asciiLower (body_of sample_pieces))"
    "src_ends sample_pieces = EndOfBody" "body_of sample_pieces = ''a TOK12345 b''"
    by code_simp+
  then show ?thesis
    using clean_body_arrives [of sample_pieces "[''tok99999'']"] unfolding Let_def by metis
qed

end
