(* ===== verification/Spelling_Properties.thy ===== *)
theory Spelling_Properties
  imports Proxy_Spellings Scrub_Properties
begin

text \<open>
  The spellings cover what they are for: whatever a reflector puts around an injected value before it encodes the
  whole, the encoding contains one of the spellings that are redacted, so none of it reaches the agent.
\<close>

section \<open>Base64 inside a longer text\<close>

lemma mod3_step: "Suc (Suc (Suc n)) mod 3 = n mod 3"
  by presburger

lemma sextets_append: "length x mod 3 = 0 \<Longrightarrow> sextets (x @ y) = sextets x @ sextets y"
proof (induction x rule: sextets.induct)
  case (4 a b c s)
  then show ?case by (simp add: mod3_step)
qed simp_all

lemma sextets_Nil: "sextets x = [] \<longleftrightarrow> x = []"
  by (cases x rule: sextets.cases) simp_all

text \<open>All but the last sextet of a text that does not fill its group is the same whatever follows.\<close>

definition settled :: "nat list \<Rightarrow> nat list" where
  "settled x = take (length (sextets x) - (if length x mod 3 \<noteq> 0 then 1 else 0)) (sextets x)"

lemma settled_step: "settled (a # b # c # s) = take 4 (sextets [a, b, c]) @ settled s"
proof -
  have "1 \<le> length (sextets s)" if "length s mod 3 \<noteq> 0"
    using that sextets_Nil [of s] by (cases "sextets s") auto
  then show ?thesis by (simp add: settled_def mod3_step Suc_diff_le)
qed

lemma settled_prefix: "prefix (settled x) (sextets (x @ y))"
proof (induction x rule: sextets.induct)
  case (2 a)
  show ?case by (cases y rule: sextets.cases) (simp_all add: settled_def)
next
  case (3 a b)
  show ?case by (cases y) (simp_all add: settled_def)
next
  case (4 a b c s)
  then show ?case by (simp add: settled_step)
qed (simp add: settled_def)

text \<open>After the sextets that the bytes before it take part in, the text does not depend on those bytes.\<close>

definition lead :: "nat \<Rightarrow> nat" where
  "lead k = [0, 2, 3] ! k"

lemma lead_simps [simp]: "lead 0 = 0" "lead (Suc 0) = 2" "lead 2 = 3" "lead (Suc (Suc 0)) = 3"
  by (simp_all add: lead_def)

lemma drop_lead:
  assumes "length x = k" "length y = k" "k < 3"
  shows "drop (lead k) (sextets (x @ s)) = drop (lead k) (sextets (y @ s))"
proof -
  consider "k = 0" | "k = 1" | "k = 2" using assms(3) by linarith
  then show ?thesis
  proof cases
    case 2
    then obtain a b where "x = [a]" "y = [b]" using assms(1,2) by (auto simp: length_Suc_conv)
    then show ?thesis using 2 by (cases s rule: sextets.cases) simp_all
  next
    case 3
    then obtain a b c d where "x = [a, b]" "y = [c, d]" using assms(1,2) by (auto simp: length_Suc_conv numeral_2_eq_2)
    then show ?thesis using 3 by (cases s) simp_all
  qed (use assms in simp)
qed

lemma length_sextets_cong: "length x = length y \<Longrightarrow> length (sextets x) = length (sextets y)"
proof (induction x arbitrary: y rule: sextets.induct)
  case (4 a b c s)
  then obtain d e f t where "y = d # e # f # t" "length s = length t"
    by (cases y rule: sextets.cases) auto
  then show ?case using 4(1) [of t] by simp
next
  case (2 a)
  then show ?case by (cases y rule: sextets.cases) auto
next
  case (3 a b)
  then show ?case by (cases y rule: sextets.cases) auto
qed simp

lemma core_in_sextets:
  assumes "length z = k" "k = length p mod 3"
  shows "sublist (drop (lead k) (settled (z @ s))) (sextets (p @ s @ q))"
proof -
  let ?p1 = "take (length p - k) p" and ?p2 = "drop (length p - k) p"
  have p: "p = ?p1 @ ?p2" by simp
  have k: "k \<le> length p" "k < 3" using assms(2) by (simp_all add: le_less_trans [OF mod_le_divisor])
  have len: "length ?p2 = k" "length ?p1 mod 3 = 0" using assms(2) k by (simp_all add: mod_eq_0_iff_dvd minus_mod_eq_mult_div [symmetric])
  have same: "drop (lead k) (settled (z @ s)) = drop (lead k) (settled (?p2 @ s))"
    using drop_lead [of z k ?p2 s] length_sextets_cong [of "z @ s" "?p2 @ s"] assms(1) len(1) k(2)
    by (simp add: settled_def drop_take)
  have "sextets (p @ s @ q) = sextets ?p1 @ sextets (?p2 @ s @ q)"
    using sextets_append [OF len(2), of "?p2 @ s @ q"] by (simp add: take_drop_append)
  moreover have "prefix (settled (?p2 @ s)) (sextets (?p2 @ s @ q))" using settled_prefix [of "?p2 @ s" q] by simp
  then obtain r where "sextets (?p2 @ s @ q) = settled (?p2 @ s) @ r" by (auto simp: prefix_def)
  moreover have "settled (?p2 @ s) = take (lead k) (settled (?p2 @ s)) @ drop (lead k) (settled (?p2 @ s))" by simp
  ultimately show ?thesis unfolding same sublist_def by (metis append.assoc)
qed

lemma sextets_less: "\<forall>a\<in>set x. a < 256 \<Longrightarrow> \<forall>n\<in>set (sextets x). n < 64"
  by (induction x rule: sextets.induct) (auto simp: less_mult_imp_div_less)

section \<open>The spellings as strings\<close>

lemma byte_values_append [simp]: "byte_values (a @ b) = byte_values a @ byte_values b"
  by (simp add: byte_values_def)

lemma length_byte_values [simp]: "length (byte_values s) = length s"
  by (simp add: byte_values_def)

lemma sextets_bytes: "n \<in> set (sextets (byte_values s)) \<Longrightarrow> n < 64"
  using sextets_less [of "byte_values s"] by (auto simp: byte_values_def)

lemma of_std_digit:
  "n < 64 \<Longrightarrow> (of_char (std_digit n) :: nat) =
     (if n < 26 then n + 65 else if n < 52 then n + 71 else if n < 62 then n - 4 else if n = 62 then 43 else 47)"
  by (auto simp: std_digit_def)

lemma std_digit_eq_iff: "n < 64 \<Longrightarrow> std_digit n = c \<longleftrightarrow> (of_char (std_digit n) :: nat) = of_char c"
  by (simp add: of_char_eq_iff)

lemma digit_plain:
  assumes "n < 64"
  shows "std_digit n \<notin> set ''[]''" "url_digit n \<notin> set ''[]''"
    "url_digit n = (if std_digit n = CHR ''+'' then CHR ''-'' else if std_digit n = CHR ''/'' then CHR ''_'' else std_digit n)"
proof -
  show std: "std_digit n \<notin> set ''[]''"
    using assms by (auto simp: std_digit_eq_iff of_std_digit split: if_splits)
  have "std_digit n = CHR ''+'' \<longleftrightarrow> n = 62" "std_digit n = CHR ''/'' \<longleftrightarrow> n = 63"
    using assms by (auto simp: std_digit_eq_iff of_std_digit split: if_splits)
  then show "url_digit n = (if std_digit n = CHR ''+'' then CHR ''-'' else if std_digit n = CHR ''/'' then CHR ''_'' else std_digit n)"
    by (simp add: url_digit_def)
  then show "url_digit n \<notin> set ''[]''" using std by (simp split: if_splits)
qed

definition core_sextets :: "nat \<Rightarrow> string \<Rightarrow> nat list" where
  "core_sextets k s = drop (lead k) (settled (byte_values (replicate k (CHR 0x00) @ s)))"

lemma core_sextets_less: "n \<in> set (core_sextets k s) \<Longrightarrow> n < 64"
  unfolding core_sextets_def settled_def by (meson in_set_dropD in_set_takeD sextets_bytes)

lemma length_sextets: "length (sextets x) = (4 * length x + 2) div 3"
  by (induction x rule: sextets.induct) auto

lemma core_sextets_long:
  assumes "k < 3" "8 \<le> length s"
  shows "9 \<le> length (core_sextets k s)"
proof -
  have len: "length (core_sextets k s) =
      (4 * (k + length s) + 2) div 3 - (if (k + length s) mod 3 \<noteq> 0 then 1 else 0) - lead k"
    by (simp add: core_sextets_def settled_def length_sextets)
  have mono: "m \<le> 4 * (k + length s) + 2 \<Longrightarrow> m div 3 \<le> (4 * (k + length s) + 2) div 3" for m
    by (rule div_le_mono)
  have "10 + lead k \<le> (4 * (k + length s) + 2) div 3"
  proof -
    consider "k = 0" | "k = 1" | "k = 2" using assms(1) by linarith
    then show ?thesis
    proof cases
      case 1
      then show ?thesis using mono [of 34] assms(2) by simp
    next
      case 2
      then show ?thesis using mono [of 38] assms(2) by simp
    next
      case 3
      then show ?thesis using mono [of 42] assms(2) by simp
    qed
  qed
  moreover have "(if (k + length s) mod 3 \<noteq> 0 then 1 else 0 :: nat) \<le> 1" by simp
  ultimately show ?thesis unfolding len by linarith
qed

lemma base64_core_eq:
  assumes "k < 3" "8 \<le> length s"
  shows "base64_core s k = [map std_digit (core_sextets k s), map url_digit (core_sextets k s)]"
proof -
  let ?src = "replicate k (CHR 0x00) @ s"
  let ?t = "if length ?src mod 3 \<noteq> 0 then 1 else 0 :: nat"
  have core: "drop (lead k) (take (length (RawStdEncoding ?src) - ?t) (RawStdEncoding ?src)) = map std_digit (core_sextets k s)"
    by (simp add: core_sextets_def settled_def RawStdEncoding_def take_map drop_map)
  have "toURLBase64 (map std_digit (core_sextets k s)) = map url_digit (core_sextets k s)"
    unfolding toURLBase64_def list.map_comp by (rule map_cong) (use digit_plain(3) core_sextets_less in simp_all)
  moreover have "\<not> length (RawStdEncoding ?src) - ?t \<le> lead k"
    using arg_cong [OF core, of length] core_sextets_long [OF assms] by auto
  ultimately show ?thesis
    using core unfolding base64_core_def Let_def lead_def [symmetric] by simp
qed

lemma sublist_map: "sublist x y \<Longrightarrow> sublist (map f x) (map f y)"
  unfolding sublist_def by (metis map_append)

lemma core_in_encoding:
  "sublist (map d (core_sextets (length p mod 3) s)) (map d (sextets (byte_values (p @ s @ q))))"
proof (rule sublist_map)
  have "length (byte_values (replicate (length p mod 3) (CHR 0x00))) = length p mod 3"
    "length p mod 3 = length (byte_values p) mod 3" by simp_all
  then have "sublist (drop (lead (length p mod 3)) (settled (byte_values (replicate (length p mod 3) (CHR 0x00)) @ byte_values s)))
      (sextets (byte_values p @ byte_values s @ byte_values q))"
    by (rule core_in_sextets)
  then show "sublist (core_sextets (length p mod 3) s) (sextets (byte_values (p @ s @ q)))"
    unfolding core_sextets_def byte_values_append .
qed

lemma add_targets: "s \<in> set (foldl add_target out xs) \<longleftrightarrow> s \<in> set out \<or> s \<in> set xs \<and> MinSecretLen \<le> length s"
  by (induction xs arbitrary: out) (auto simp: add_target_def)

lemma spelling_is_target:
  assumes "\<not> NonSecretHeader name" "MinSecretLen \<le> length value" "s \<in> set (spellings value)" "MinSecretLen \<le> length s"
  shows "s \<in> set (secretTargets name value)"
proof -
  have "value \<noteq> []" using assms(2) by (auto simp: MinSecretLen_def)
  moreover have "value \<in> set (if CHR '' '' \<in> set value then add_target (add_target [] value) (snd (CutByte value (CHR '' ''))) else add_target [] value)"
    using assms(2) by (auto simp: add_target_def)
  ultimately show ?thesis
    using assms by (auto simp: secretTargets_def Let_def add_targets)
qed

section \<open>Encodings of a longer text\<close>

lemma length_query_byte: "1 \<le> length (query_byte c)"
  by (simp add: query_byte_def)

lemma length_QueryEscape: "length s \<le> length (QueryEscape s)"
proof (induction s)
  case (Cons c s)
  have "length (QueryEscape (c # s)) = length (query_byte c) + length (QueryEscape s)" by (simp add: QueryEscape_def)
  then show ?case using length_query_byte [of c] Cons by (simp only: list.size)
qed simp

lemma upperhex_plain: "n < 16 \<Longrightarrow> upperhex n \<notin> set ''[]''"
  by (auto simp: upperhex_def dest: arg_cong [where f = "of_char :: char \<Rightarrow> nat"])

lemma hex_digit_plain: "n < 16 \<Longrightarrow> hex_digit n \<notin> set ''[]''"
  by (auto simp: hex_digit_def dest: arg_cong [where f = "of_char :: char \<Rightarrow> nat"])

lemma of_char_div_16: "(of_char c :: nat) div 16 < 16"
proof -
  have "of_char c < (256 :: nat)" by simp
  then show ?thesis by (simp add: div_less_iff_less_mult)
qed

lemma bracket_not_alnum: "\<not> is_alnum (CHR ''['')" "\<not> is_alnum (CHR '']'')"
  by code_simp+

lemma query_byte_plain: "no_bracket (query_byte c)"
  using upperhex_plain [OF of_char_div_16 [of c]] upperhex_plain [of "of_char c mod 16"] bracket_not_alnum
  by (auto simp: no_bracket_def query_byte_def)

lemma QueryEscape_plain: "no_bracket (QueryEscape s)"
  using query_byte_plain by (auto simp: QueryEscape_def no_bracket_def)

lemma hex_byte_plain: "no_bracket [hex_digit (of_char c div 16), hex_digit (of_char c mod 16)]"
  using hex_digit_plain [OF of_char_div_16 [of c]] hex_digit_plain [of "of_char c mod 16"]
  by (auto simp: no_bracket_def)

lemma hex_plain: "no_bracket (hex_EncodeToString s)"
proof (induction s)
  case (Cons c s)
  have "hex_EncodeToString (c # s) = [hex_digit (of_char c div 16), hex_digit (of_char c mod 16)] @ hex_EncodeToString s"
    by (simp add: hex_EncodeToString_def)
  then show ?case using Cons hex_byte_plain [of c] by (simp only: no_bracket_def set_append Un_iff) blast
qed (simp add: hex_EncodeToString_def no_bracket_def)

lemma length_hex: "length (hex_EncodeToString s) = 2 * length s"
  by (induction s) (simp_all add: hex_EncodeToString_def)

lemma map_plain:
  assumes "\<And>n. n \<in> set xs \<Longrightarrow> d n \<notin> set ''[]''"
  shows "no_bracket (map d xs)"
  unfolding no_bracket_def
proof
  show "CHR ''['' \<notin> set (map d xs)"
  proof
    assume "CHR ''['' \<in> set (map d xs)"
    then obtain n where "n \<in> set xs" "d n = CHR ''[''" by auto
    then show False using assms [of n] by simp
  qed
  show "CHR '']'' \<notin> set (map d xs)"
  proof
    assume "CHR '']'' \<in> set (map d xs)"
    then obtain n where "n \<in> set xs" "d n = CHR '']''" by auto
    then show False using assms [of n] by simp
  qed
qed

lemma core_plain: "no_bracket (map std_digit (core_sextets k s))" "no_bracket (map url_digit (core_sextets k s))"
  by (intro map_plain digit_plain core_sextets_less; assumption)+

lemma long_apart:
  assumes "no_bracket t" "9 \<le> length t"
  shows "apart_from_mark t"
proof -
  have "\<not> sublist (asciiLower t) ''redacted''" using assms(2) by (auto dest: sublist_length_le)
  then show ?thesis using assms by (auto simp: apart_from_mark_def apart_def no_bracket_def)
qed

lemma QueryEscape_same: "CHR ''%'' \<notin> set (QueryEscape s) \<Longrightarrow> CHR ''+'' \<notin> set (QueryEscape s) \<Longrightarrow> QueryEscape s = s"
proof (induction s)
  case (Cons c s)
  have "CHR ''%'' \<notin> set (query_byte c)" "CHR ''+'' \<notin> set (query_byte c)" "QueryEscape s = s"
    using Cons by (simp_all add: QueryEscape_def)
  moreover have "query_byte c = [c] \<or> CHR ''%'' \<in> set (query_byte c) \<or> CHR ''+'' \<in> set (query_byte c)"
    by (simp add: query_byte_def)
  ultimately have "query_byte c = [c]" "QueryEscape s = s" by blast+
  then show ?case by (simp add: QueryEscape_def)
qed (simp add: QueryEscape_def)

lemma asciiLower_mem: "c \<in> set b \<Longrightarrow> lowerByte c \<in> set (asciiLower b)"
  by (simp add: asciiLower_def)

lemma QueryEscape_apart:
  assumes "8 \<le> length v" "asciiLower v \<noteq> ''redacted''"
  shows "apart_from_mark (QueryEscape v)"
proof -
  let ?q = "QueryEscape v"
  have len: "8 \<le> length ?q" using assms(1) length_QueryEscape [of v] by simp
  have "\<not> sublist (asciiLower ?q) ''redacted''"
  proof
    assume sub: "sublist (asciiLower ?q) ''redacted''"
    then obtain a b where ab: "''redacted'' = a @ asciiLower ?q @ b" by (auto simp: sublist_def)
    have "length a + length ?q + length b = 8" using arg_cong [OF ab, of length] by simp
    then have "length a = 0 \<and> length b = 0" using len by linarith
    then have "a = []" "b = []" by simp_all
    then have eq: "asciiLower ?q = ''redacted''" using ab by simp
    have "lowerByte (CHR ''%'') \<notin> set ''redacted''" "lowerByte (CHR ''+'') \<notin> set ''redacted''" by code_simp+
    then have "?q = v" using asciiLower_mem [of _ ?q] unfolding eq by (intro QueryEscape_same) blast+
    then show False using eq assms(2) by simp
  qed
  moreover have "?q \<noteq> []" using len by auto
  ultimately show ?thesis using QueryEscape_plain [of v] by (simp add: apart_from_mark_def apart_def no_bracket_def)
qed

lemma covered:
  assumes "t \<in> set injected" "apart_from_mark t" "sublist t text"
  shows "\<not> sublist (asciiLower text) (asciiLower (body_of (reads scrub_Read ns (newScrubReader src injected))))"
proof
  assume "sublist (asciiLower text) (asciiLower (body_of (reads scrub_Read ns (newScrubReader src injected))))"
  moreover have "sublist (asciiLower t) (asciiLower text)" unfolding asciiLower_def by (rule sublist_map [OF assms(3)])
  ultimately show False
    using injected_apart [OF assms(1,2)] sublist_order.order_trans by blast
qed

text \<open>C33: A value cannot be carried out in an encoding: for an injected header whose value has the minimum length, no base64
  (standard or URL alphabet, padded or not), hex or URL-escaped form of any text that contains the value, whatever is
  around it, is in what the agent receives, in upper or lower case and however the body is cut into reads.
\<close>

theorem encoded_value_never_delivered:
  assumes "\<not> NonSecretHeader name" "MinSecretLen \<le> length v" "set (secretTargets name v) \<subseteq> set injected"
    and "enc \<in> {StdEncoding, RawStdEncoding, URLEncoding, RawURLEncoding, hex_EncodeToString} \<or>
      enc = QueryEscape \<and> asciiLower v \<noteq> ''redacted''"
  shows "\<not> sublist (asciiLower (enc (before @ v @ after)))
    (asciiLower (body_of (reads scrub_Read ns (newScrubReader src injected))))"
proof -
  let ?text = "before @ v @ after" and ?k = "length before mod 3"
  have len: "8 \<le> length v" using assms(2) by (simp add: MinSecretLen_def)
  have target: "t \<in> set injected" if "t \<in> set (spellings v)" "9 \<le> length t \<or> t = QueryEscape v" for t
    using spelling_is_target [OF assms(1,2) that(1)] that(2) assms(3) len length_QueryEscape [of v]
    by (auto simp: MinSecretLen_def)
  have k: "?k < 3" by simp
  then have "?k \<in> set [0, 1, 2]" by auto
  then have "set (base64_core v ?k) \<subseteq> set (spellings v)" unfolding spellings_def base64Spellings_def by auto
  then have cores: "map std_digit (core_sextets ?k v) \<in> set injected" "map url_digit (core_sextets ?k v) \<in> set injected"
    using target base64_core_eq [OF k len] core_sextets_long [OF k len] by auto
  have core_apart: "apart_from_mark (map std_digit (core_sextets ?k v))" "apart_from_mark (map url_digit (core_sextets ?k v))"
    using core_sextets_long [OF k len] core_plain by (auto intro: long_apart)
  have in_std: "sublist (map std_digit (core_sextets ?k v)) (RawStdEncoding ?text)"
    and in_url: "sublist (map url_digit (core_sextets ?k v)) (RawURLEncoding ?text)"
    unfolding RawStdEncoding_def RawURLEncoding_def by (rule core_in_encoding)+
  have hex: "hex_EncodeToString v \<in> set injected" "apart_from_mark (hex_EncodeToString v)"
    using len by (auto intro: target long_apart simp: hex_plain length_hex spellings_def)
  have in_hex: "sublist (hex_EncodeToString v) (hex_EncodeToString ?text)"
    by (auto simp: hex_EncodeToString_def sublist_def)
  have query: "QueryEscape v \<in> set injected" by (rule target) (simp_all add: spellings_def)
  have in_query: "sublist (QueryEscape v) (QueryEscape ?text)" by (auto simp: QueryEscape_def sublist_def)
  consider "enc = StdEncoding" | "enc = RawStdEncoding" | "enc = URLEncoding" | "enc = RawURLEncoding"
    | "enc = hex_EncodeToString" | "enc = QueryEscape \<and> asciiLower v \<noteq> ''redacted''"
    using assms(4) by blast
  then show ?thesis
  proof cases
    case 1
    show ?thesis unfolding 1 by (rule covered [OF cores(1) core_apart(1)]) (simp add: StdEncoding_def sublist_append in_std)
  next
    case 2
    show ?thesis unfolding 2 by (rule covered [OF cores(1) core_apart(1) in_std])
  next
    case 3
    show ?thesis unfolding 3 by (rule covered [OF cores(2) core_apart(2)]) (simp add: URLEncoding_def sublist_append in_url)
  next
    case 4
    show ?thesis unfolding 4 by (rule covered [OF cores(2) core_apart(2) in_url])
  next
    case 5
    show ?thesis unfolding 5 by (rule covered [OF hex in_hex])
  next
    case 6
    then have "apart_from_mark (QueryEscape v)" using QueryEscape_apart len by blast
    from covered [OF query this in_query] show ?thesis using 6 by blast
  qed
qed

text \<open>A basic-auth password, in the base64 of a longer text.\<close>

theorem encoded_value_never_delivered_witness:
  "\<not> sublist (asciiLower (StdEncoding (''u:'' @ ''hunter22pw'' @ ''!'')))
     (asciiLower (body_of (reads scrub_Read [64, 64] (newScrubReader [(''x '' @ StdEncoding ''u:hunter22pw!'', EndOfBody)]
        (secretTargets ''Authorization'' ''hunter22pw'')))))"
proof -
  have "\<not> NonSecretHeader ''Authorization''" by code_simp
  moreover have "MinSecretLen \<le> length ''hunter22pw''" by (simp add: MinSecretLen_def)
  ultimately show ?thesis by (rule encoded_value_never_delivered) simp_all
qed

end
