(* ===== verification/Scrub_Response.thy ===== *)
theory Scrub_Response
  imports Proxy_Git Scrub_Signed Spelling_Properties
begin

text \<open>
  The response stage of \<open>handleRequest\<close> (\<^verbatim>\<open>proxy/internal/proxy/proxy.go\<close>) for what it does to a response to a request
  that values were injected into: headers, body and trailers together. The two readers of a body are composed
  as the code composes them.
\<close>

section \<open>The stage\<close>

text \<open>
  \<open>sizes\<close> and \<open>sizes'\<close> are the sizes of the buffers the readers are read with, \<open>mt\<close> the media type as
  \<open>mime.ParseMediaType\<close> reads it; the body is what the reads of the upstream body return, or of the reader that
  checks the digest of a package.
\<close>

record response =
  rs_Header :: "(string \<times> string list) list"
  rs_Trailer :: "(string \<times> string list) list"
  rs_Body :: "(string \<times> src_end) list"

definition response_values :: "string \<Rightarrow> (string \<times> string list) list \<Rightarrow> string list" where
  "response_values k h = (case map_of h k of Some vs \<Rightarrow> vs | None \<Rightarrow> [])"

definition scrubbed_body ::
  "nat list \<Rightarrow> nat list \<Rightarrow> string list \<Rightarrow> string option \<Rightarrow> (string \<times> src_end) list \<Rightarrow> (string \<times> src_end) list" where
  "scrubbed_body sizes sizes' injected mt body =
     (if injected = [] then body
      else let b = reads scrub_Read sizes (newScrubReader body injected) in
        if textualType mt then reads signed_Read sizes' (newSignedParamReader b) else b)"

text \<open>An encoded body cannot be searched, so it is refused; redaction changes the length.\<close>

definition credentialed_header :: "string list \<Rightarrow> (string \<times> string list) list \<Rightarrow> (string \<times> string list) list option" where
  "credentialed_header injected hdr =
     (if injected = [] then Some hdr
      else if encodedValue (response_values ''Content-Encoding'' hdr) \<noteq> [] then None
      else Some (filter (\<lambda>kv. fst kv \<noteq> ''Content-Length'') hdr))"

definition deliver :: "nat list \<Rightarrow> nat list \<Rightarrow> string list \<Rightarrow> string option \<Rightarrow> response \<Rightarrow> response option" where
  "deliver sizes sizes' injected mt resp =
     (case credentialed_header injected (rs_Header resp) of
        None \<Rightarrow> None
      | Some hdr \<Rightarrow>
          let sset = (if injected \<noteq> [] then Some (newSecretSet injected) else None);
              out = copyScrubbedHeader [] hdr [] sset in
          Some \<lparr>rs_Header = out,
            rs_Trailer = copyScrubbedHeader out (rs_Trailer resp) ''Trailer:'' sset,
            rs_Body = scrubbed_body sizes sizes' injected mt (rs_Body resp)\<rparr>)"

section \<open>Redacting adds nothing\<close>

text \<open>\<open>redacts x y\<close>: \<open>y\<close> is \<open>x\<close> with some pieces, which may be empty, replaced by the mark.\<close>

inductive redacts :: "string \<Rightarrow> string \<Rightarrow> bool" where
  redacts_Nil: "redacts [] []"
| redacts_keep: "redacts x y \<Longrightarrow> redacts (c # x) (c # y)"
| redacts_mark: "redacts x y \<Longrightarrow> redacts (z @ x) (redactedMark @ y)"

lemma redacts_append: "redacts x y \<Longrightarrow> redacts x' y' \<Longrightarrow> redacts (x @ x') (y @ y')"
proof (induction rule: redacts.induct)
  case (redacts_mark x y z)
  then show ?case using redacts.redacts_mark [of "x @ x'" "y @ y'" z] by simp
qed (auto intro: redacts.intros)

lemma redacts_refl: "redacts x x"
  by (induction x) (auto intro: redacts.intros)

lemma redacts_prefix:
  "redacts x y \<Longrightarrow> CHR ''['' \<notin> set t \<Longrightarrow> prefix t (asciiLower y) \<Longrightarrow> prefix t (asciiLower x)"
proof (induction arbitrary: t rule: redacts.induct)
  case (redacts_keep x y c)
  then show ?case by (cases t) auto
next
  case (redacts_mark x y z)
  then have "t = []" by (cases t) (auto simp: lower_mark)
  then show ?case by simp
qed simp

lemma redacts_sublist:
  assumes "redacts x y" "apart t" "sublist t (asciiLower y)"
  shows "sublist t (asciiLower x)"
  using assms
proof (induction rule: redacts.induct)
  case (redacts_keep x y c)
  have nb: "CHR ''['' \<notin> set t" using redacts_keep.prems(1) by (simp add: apart_def no_bracket_def)
  consider "prefix t (asciiLower (c # y))" | "sublist t (asciiLower y)"
    using redacts_keep.prems(2) by (auto simp: sublist_Cons_right)
  then show ?case
  proof cases
    case 1
    then have "prefix t (asciiLower (c # x))"
      using redacts_prefix [OF redacts.redacts_keep [OF redacts_keep.hyps] nb] by blast
    then show ?thesis by (rule prefix_imp_sublist)
  next
    case 2
    then show ?thesis using redacts_keep.IH redacts_keep.prems(1) by (simp add: sublist_Cons_right)
  qed
next
  case (redacts_mark x y z)
  have "sublist t (asciiLower y)"
  proof -
    consider "sublist t (asciiLower redactedMark)" | "sublist t (asciiLower y)"
      | u v where "t = u @ v" "suffix u (asciiLower redactedMark)" "prefix v (asciiLower y)"
      using redacts_mark.prems(2) by (auto simp: sublist_append)
    then show ?thesis
    proof cases
      case 3
      then have "u = []" using apart_mark(2) [OF redacts_mark.prems(1) 3(2)] by simp
      then show ?thesis using 3 by simp
    qed (use apart_mark(1) [OF redacts_mark.prems(1)] in blast)+
  qed
  then show ?case using redacts_mark by (simp add: sublist_append)
qed simp

lemma scrubSignedParams_redacts: "redacts s (scrubSignedParams s)"
proof (induction s rule: scrubSignedParams.induct)
  case (2 c s)
  show ?case
  proof (cases "signed_head (c # s)")
    case None
    then show ?thesis using 2 by (simp add: redacts_keep)
  next
    case (Some h)
    let ?s = "c # s" and ?n = "signed_end h (c # s)"
    have n: "h < ?n" "?n \<le> length ?s" using signed_end_bounds [OF Some] by simp_all
    have split: "?s = take h ?s @ drop h (take ?n ?s) @ drop ?n ?s"
      using n by (metis append_take_drop_id drop_take le_add_diff_inverse less_imp_le take_add append.assoc)
    have "redacts (take h ?s @ drop h (take ?n ?s) @ drop ?n ?s) (take h ?s @ redactedMark @ scrubSignedParams (drop ?n ?s))"
      using 2(2) [OF Some] by (intro redacts_append [OF redacts_refl] redacts_mark)
    then show ?thesis using Some split by simp
  qed
qed (simp add: redacts_Nil)

text \<open>What the last match of a piece swallows may grow.\<close>

lemma scrubSignedParams_open_end:
  "FindAllIndex i d \<noteq> [] \<Longrightarrow> snd (last (FindAllIndex i d)) = i + length d \<Longrightarrow> redacts (d @ z) (scrubSignedParams d)"
proof (induction "length d" arbitrary: d i rule: less_induct)
  case less
  show ?case
  proof (cases "signed_head d")
    case None
    obtain c d' where d: "d = c # d'" using less.prems(1) by (cases d) auto
    have "redacts (d' @ z) (scrubSignedParams d')"
      using less.hyps [of d' "Suc i"] less.prems None d by simp
    then show ?thesis using None d by (simp add: redacts_keep)
  next
    case (Some h)
    let ?n = "signed_end h d"
    have n: "h < ?n" "?n \<le> length d" using signed_end_bounds [OF Some] by simp_all
    have split: "d = take h d @ drop h (take ?n d) @ drop ?n d"
      using n by (metis append_take_drop_id drop_take le_add_diff_inverse less_imp_le take_add append.assoc)
    show ?thesis
    proof (cases "?n = length d")
      case True
      have "redacts (take h d @ (drop h d @ z) @ []) (take h d @ redactedMark @ [])"
        by (intro redacts_append [OF redacts_refl] redacts_mark redacts_Nil)
      then show ?thesis using True by (simp add: scrubSignedParams_Some [OF Some] take_drop_append)
    next
      case False
      have "FindAllIndex (i + ?n) (drop ?n d) \<noteq> []"
        using less.prems(2) False by (auto simp: FindAllIndex_Some [OF Some])
      moreover have "snd (last (FindAllIndex (i + ?n) (drop ?n d))) = i + ?n + length (drop ?n d)"
        using less.prems(2) n calculation by (simp add: FindAllIndex_Some [OF Some])
      ultimately have "redacts (drop ?n d @ z) (scrubSignedParams (drop ?n d))"
        using less.hyps n by simp
      then have "redacts (take h d @ drop h (take ?n d) @ drop ?n d @ z) (take h d @ redactedMark @ scrubSignedParams (drop ?n d))"
        by (intro redacts_append [OF redacts_refl] redacts_mark)
      then show ?thesis using split by (simp add: scrubSignedParams_Some [OF Some]) (metis append.assoc)
    qed
  qed
qed

section \<open>The second reader adds nothing either\<close>

definition piece_inv :: "string \<Rightarrow> string \<Rightarrow> signedParamReader \<Rightarrow> bool" where
  "piece_inv body got s \<longleftrightarrow>
     (\<exists>x. redacts x (got @ fl_pending s) \<and> prefix x body \<and>
        (fl_err s = More \<longrightarrow> x @ fl_carry s @ body_of (fl_src s) = body \<and>
           (sp_inValue s \<longrightarrow> fl_carry s = [] \<and> (\<forall>z. redacts (x @ z) (got @ fl_pending s)))))"

lemma signed_emit_piece:
  assumes "redacts x got" "x @ d @ body_of (fl_src s) = body" "fl_err s = More"
    and "sp_inValue s \<longrightarrow> d = [] \<and> (\<forall>z. redacts (x @ z) got)"
  shows "piece_inv body got (signed_emit d s)"
proof (cases "FindAllIndex 0 d \<noteq> [] \<and> snd (last (FindAllIndex 0 d)) = length d")
  case True
  then have "redacts (d @ z) (scrubSignedParams d)" for z using scrubSignedParams_open_end [of 0 d z] by simp
  then have open_end: "redacts ((x @ d) @ z) (got @ scrubSignedParams d)" for z
    using redacts_append [OF assms(1)] by simp
  have "signed_emit d s = s\<lparr>sp_inValue := True, fl_pending := scrubSignedParams d, fl_carry := []\<rparr>"
    using True by (simp add: signed_emit_def Let_def)
  moreover have "redacts (x @ d) (got @ scrubSignedParams d)" using open_end [of "[]"] by simp
  ultimately show ?thesis
    using assms open_end unfolding piece_inv_def by (intro exI [of _ "x @ d"]) (auto simp: prefix_def)
next
  case False
  let ?cut = "signed_cut d (FindAllIndex 0 d)"
  have emit: "signed_emit d s = s\<lparr>fl_pending := scrubSignedParams (take ?cut d), fl_carry := drop ?cut d\<rparr>"
    using False by (auto simp: signed_emit_def Let_def)
  have "redacts (x @ take ?cut d) (got @ scrubSignedParams (take ?cut d))"
    by (rule redacts_append [OF assms(1) scrubSignedParams_redacts])
  moreover have "(x @ take ?cut d) @ drop ?cut d @ body_of (fl_src s) = body" using assms(2) by (simp add: take_drop_append)
  ultimately show ?thesis
    using assms unfolding piece_inv_def emit by (intro exI [of _ "x @ take ?cut d"]) (auto simp: prefix_def)
qed

lemma signed_fill_piece:
  assumes "piece_inv body got s" "fl_pending s = []" "fl_err s = More"
  shows "piece_inv body got (signed_fill s)"
proof -
  obtain x where x: "redacts x got" "x @ fl_carry s @ body_of (fl_src s) = body"
    and inside: "sp_inValue s \<Longrightarrow> fl_carry s = [] \<and> (\<forall>z. redacts (x @ z) got)"
    using assms by (auto simp: piece_inv_def)
  obtain buf e rest where src: "src_read (fl_src s) = (buf, e, rest)" by (cases "src_read (fl_src s)")
  let ?left = "if e = More then body_of rest else []"
  obtain d where d: "d = (if sp_inValue s then dropWhile isSignedParamValueByte (fl_carry s @ buf) else fl_carry s @ buf)" by blast
  let ?x = "if sp_inValue s then x @ takeWhile isSignedParamValueByte buf else x"
  have x1: "redacts ?x got" "sp_inValue s \<longrightarrow> (\<forall>z. redacts (?x @ z) got)"
    using x(1) inside by (auto split: if_splits)
  have run: "takeWhile isSignedParamValueByte buf @ dropWhile isSignedParamValueByte buf @ y = buf @ y" for y
    by (metis append.assoc takeWhile_dropWhile_id)
  have body: "?x @ d @ ?left = body"
    using x(2) inside body_of_src_read [OF src] d
    by (cases "sp_inValue s") (simp_all add: run)
  show ?thesis
  proof (cases "e = More")
    case True
    let ?s = "s\<lparr>fl_src := rest, fl_carry := [], sp_inValue := sp_inValue s \<and> \<not> (d \<noteq> [] \<or> e \<noteq> More)\<rparr>"
    have "signed_fill s = signed_emit d ?s" using src True by (simp add: signed_fill_def Let_def d)
    moreover have "piece_inv body got (signed_emit d ?s)"
      by (rule signed_emit_piece [OF x1(1)]) (use True body x1(2) assms(3) in auto)
    ultimately show ?thesis by simp
  next
    case False
    have "redacts (?x @ d) (got @ scrubSignedParams d)" by (rule redacts_append [OF x1(1) scrubSignedParams_redacts])
    moreover have "?x @ d = body" using body False by simp
    ultimately have "redacts body (got @ scrubSignedParams d)" by simp
    moreover have "signed_fill s = s\<lparr>fl_src := rest, fl_carry := [],
        sp_inValue := sp_inValue s \<and> \<not> (d \<noteq> [] \<or> e \<noteq> More), fl_pending := scrubSignedParams d, fl_err := e\<rparr>"
      using src False by (simp add: signed_fill_def Let_def d)
    ultimately show ?thesis using False by (auto simp: piece_inv_def)
  qed
qed

interpretation signed_pieces: stream_filter signed_fill signed_Read "piece_inv body" for body
proof
  fix got s n
  show "piece_inv body got s \<Longrightarrow> fl_pending s = [] \<Longrightarrow> fl_err s = More \<Longrightarrow> piece_inv body got (signed_fill s)"
    by (rule signed_fill_piece)
  show "piece_inv body got s \<Longrightarrow>
      piece_inv body (got @ take n (fl_pending s)) (s\<lparr>fl_pending := drop n (fl_pending s)\<rparr>)"
    unfolding piece_inv_def by simp
qed

lemma signed_reads_sublist:
  assumes "apart t" "sublist t (asciiLower (body_of (reads signed_Read ns (newSignedParamReader src))))"
  shows "sublist t (asciiLower (body_of src))"
proof -
  let ?out = "body_of (reads signed_Read ns (newSignedParamReader src))"
  have start: "piece_inv (body_of src) [] (newSignedParamReader src)"
    by (auto simp: piece_inv_def newSignedParamReader_def intro: redacts_Nil)
  obtain s where "piece_inv (body_of src) ?out s"
    using signed_pieces.reads_inv [OF start, of ns] by auto
  then obtain x where "redacts x (?out @ fl_pending s)" "prefix x (body_of src)" by (auto simp: piece_inv_def)
  moreover have "sublist t (asciiLower (?out @ fl_pending s))" using assms(2) by (simp add: sublist_append)
  ultimately have "sublist t (asciiLower x)" "prefix x (body_of src)" using redacts_sublist assms(1) by blast+
  then show ?thesis by (auto simp: prefix_def sublist_append)
qed

section \<open>Headers\<close>

lemma contains_loop_iff: "set_ok m \<Longrightarrow> contains_loop m s \<longleftrightarrow> (\<exists>t\<in>set (ss_targets m). sublist t (asciiLower s))"
proof (induction m s rule: contains_loop.induct)
  case (2 m c s)
  then show ?case using secret_match_zero_iff [of m "c # s"] by (auto simp: sublist_Cons_right)
qed (auto simp: set_ok_def)

definition free_of :: "string \<Rightarrow> (string \<times> string list) list \<Rightarrow> bool" where
  "free_of t hdr \<longleftrightarrow>
     (\<forall>(k, vs)\<in>set hdr. \<not> sublist t (asciiLower (TrimPrefix k ''Trailer:'')) \<and> (\<forall>v\<in>set vs. \<not> sublist t (asciiLower v)))"

lemma scrub_value_free:
  assumes "set_ok m" "t \<in> set (ss_targets m)" "apart t"
  shows "\<not> sublist t (asciiLower (scrub_value (Some m) v))"
proof
  assume "sublist t (asciiLower (scrub_value (Some m) v))"
  then have "sublist t (asciiLower (replace_loop m v))"
    using redacts_sublist [OF scrubSignedParams_redacts assms(3)] by (simp add: scrub_value_def)
  then show False using replaced_has_no_target assms by blast
qed

lemma free_of_Cons:
  "free_of t ((k, vs) # hdr) \<longleftrightarrow>
     \<not> sublist t (asciiLower (TrimPrefix k ''Trailer:'')) \<and> (\<forall>v\<in>set vs. \<not> sublist t (asciiLower v)) \<and> free_of t hdr"
  by (auto simp: free_of_def)

lemma header_append_free:
  assumes "free_of t dst" "\<not> sublist t (asciiLower (TrimPrefix k ''Trailer:''))" "\<not> sublist t (asciiLower v)"
  shows "free_of t (header_append dst k v)"
  using assms
proof (induction dst k v rule: header_append.induct)
  case (1 k v)
  then show ?case by (simp add: free_of_Cons)
next
  case (2 k' vs dst k v)
  then show ?case by (auto simp: free_of_Cons)
qed

lemma TrimPrefix_part: "pre = [] \<or> pre = ''Trailer:'' \<Longrightarrow> sublist (TrimPrefix (pre @ k) ''Trailer:'') k"
  by (auto simp: TrimPrefix_def HasPrefix_def)

lemma copyScrubbedHeader_free:
  assumes "set_ok m" "t \<in> set (ss_targets m)" "apart t" "pre = [] \<or> pre = ''Trailer:''" "free_of t dst"
  shows "free_of t (copyScrubbedHeader dst src pre (Some m))"
  using assms(5)
proof (induction src arbitrary: dst)
  case (Cons kv src)
  obtain k vv where kv: "kv = (k, vv)" by fastforce
  show ?case
  proof (cases "secret_contains (Some m) k")
    case True
    then show ?thesis using Cons kv by simp
  next
    case False
    then have "\<not> sublist t (asciiLower k)"
      using contains_loop_iff [OF assms(1)] assms(2) by (auto simp: secret_contains_def)
    moreover have "sublist (asciiLower (TrimPrefix (pre @ k) ''Trailer:'')) (asciiLower k)"
      unfolding asciiLower_def by (rule sublist_map [OF TrimPrefix_part [OF assms(4)]])
    ultimately have "\<not> sublist t (asciiLower (TrimPrefix (pre @ k) ''Trailer:''))"
      using sublist_order.order_trans by blast
    then have "free_of t (foldl (\<lambda>d v. header_append d (pre @ k) (scrub_value (Some m) v)) dst vv)"
      using Cons.prems scrub_value_free [OF assms(1-3)]
      by (induction vv arbitrary: dst) (simp_all add: header_append_free)
    then show ?thesis using Cons.IH False kv by simp
  qed
qed simp

section \<open>The response an agent gets\<close>


text \<open>A reflector that puts the token into a header and into a body of binary type.\<close>

definition reflected :: response where
  "reflected = \<lparr>rs_Header = [(''X-Echo'', [''a tok12345'']), (''Content-Length'', [''12''])], rs_Trailer = [],
     rs_Body = [(''x TOK1'', More), (''2345 y'', EndOfBody)]\<rparr>"


end
