(* ===== verification/Spec2Isabelle.thy ===== *)
theory Spec2Isabelle
  imports Policy_Parser Policy_Precedence Approval_Properties Claim_Properties Identity_Payloads Evaluator_Properties
    Record_Properties Proxy_Hosts Creds_Properties Agents_Properties
    Hold_Properties Tracker_Properties Budget_Properties Git_Properties Proxy_Download Request_Properties
    Receipt_Restart Receipt_Key_Properties Scrub_Response
begin

text \<open>
  Verification of OVARA: the runtime gateway that decides what an agent may do, and the intercepting proxy that
  enforces it.

  \<^bold>\<open>The program.\<close> The gateway (\<^verbatim>\<open>src/runtime/gateway\<close>) receives a request of an agent, checks its freshness, its
  identity, its delegation chain and lease, evaluates a policy layered under an organisation baseline, and answers allow,
  deny or escalate. An escalated request waits as an approval; an approved one is run once, by a claim of the
  caller or as a continuation of the gateway. Approvals, continuations and executions live in stores with signed
  journals. The proxy (\<^verbatim>\<open>src/proxy\<close>) sits between the agent and the network: it authenticates the agent, holds the body
  of each request, asks the gateway, holds escalated requests for a person, asks its own second questions (taint, flow
  rules, budgets, packages), guards the destination, adds the real credentials and sends the request.

  \<^bold>\<open>Prelude.\<close> \<open>Go_Prelude\<close>, \<open>Go_Bytes\<close>, \<open>Go_URL\<close>, \<open>Go_Regexp\<close>, \<open>Go_Float\<close>, \<open>Go_UTF8\<close> and \<open>Go_Stream\<close> hold what the sources use of Go and its
  library: strings as bytes, maps as association lists, saturating time differences, URL parsing, glob matching of
  package \<^verbatim>\<open>path\<close>, regular expressions, bodies read in pieces, with their lemmas and the collections \<open>go_string\<close>, \<open>go_map\<close> and \<open>go_time\<close>.

  \<^bold>\<open>Gateway.\<close>
  \<^item> Policy: \<open>Policy_Match\<close>, \<open>Policy_Glob\<close>, \<open>Policy_Store\<close>, \<open>Policy_Parser\<close>, \<open>Policy_Rules\<close> (\<^verbatim>\<open>internal/policy\<close>,
    \<^verbatim>\<open>internal/evaluator\<close>), with \<open>Policy_Precedence\<close>: the loops equal their documented order, most-specific
    precedence, what a baseline keeps (and where it loses an escalate), a push gets its strictest ref, the parser accepts only loadable rules, the
    hash is that of the policy in force.
  \<^item> Requests and decisions: \<open>Models\<close>; evaluation: \<open>Evaluator_Decide\<close> with \<open>Evaluator_Properties\<close>: an allow rests on every
    check, a nonce is admitted once.
  \<^item> Identity: \<open>Identity_Scope\<close>, \<open>Identity_Validator\<close> (\<^verbatim>\<open>internal/identity\<close>) with \<open>Identity_Properties\<close> and \<open>Identity_Payloads\<close>:
    delegation never amplifies, accepted chains are signed and linked, payloads identify what they sign.
  \<^item> Trust: \<open>Trust_Shield\<close>, \<open>Trust_Drift\<close> with \<open>Trust_Properties\<close>.
  \<^item> Approvals: \<open>Approval_Store\<close>, \<open>Approval_Service\<close>; \<open>Approval_Laws\<close> states the contract of an approval store as a locale, proves
    the client lemmas in it and interprets it for the memory store and the file store; \<open>Approval_Properties\<close>: single
    use for both stores, across restarts when the writes succeed and within one run when they fail, caps, the journal
    refines the store.
  \<^item> Continuations and executions: \<open>Continuation_Store\<close>, \<open>Continuation_Journal\<close>, \<open>Continuation_Laws\<close>, \<open>Continuation_Runs\<close>,
    \<open>Continuation_Claim\<close>, \<open>Execution_Store\<close>, \<open>Execution_Executors\<close>, \<open>Revocation\<close>, \<open>Journal_Fold\<close>, with \<open>Continuation_Properties\<close>,
    \<open>Claim_Properties\<close> and \<open>Execution_Properties\<close>: nothing runs without approval and the authority that the configured checkers ask for, nothing settled runs again unless
    a run is recovered while it is in flight, the handler and the poll of the orchestrator share their gates, journals fold
    back to their stores.
  \<^item> Signed journals: \<open>Record_Journal\<close> with \<open>Record_Properties\<close>: committed history is pinned up to what a compaction marker attests, appended journals reopen.

  \<^bold>\<open>Proxy.\<close>
  \<^item> \<open>Proxy_Request\<close> is the pipeline (\<^verbatim>\<open>handleRequest\<close>, \<^verbatim>\<open>ServeHTTP\<close>): stages that end in a refusal or hand on a record,
    composed in the order of the code. \<open>Request_Properties\<close>: a request leaves only when cleared, credentials are confined to
    their binding, every second question stands in between.
  \<^item> \<open>Proxy_Hold\<close> is the hold for a person, its slots, and the claim on both sides of the connection; \<open>Hold_Properties\<close> composes it
    with the approval service of the gateway: one approval, while it is in the store, lets one request through.
  \<^item> \<open>Proxy_Trackers\<close> holds taint, flow rules, budgets and the package gate as the sections under their locks, so that a list of
    operations is an interleaving of all requests; \<open>Tracker_Properties\<close> and \<open>Budget_Properties\<close> are invariants over
    every such list.
  \<^item> \<open>Proxy_Git\<close> with \<open>Git_Properties\<close>: the refs of a push reach the policy of the gateway unchanged.
  \<^item> \<open>Proxy_Download\<close>: a pinned package is delivered whole only with its digest.
  \<^item> \<open>Proxy_Agents\<close> with \<open>Agents_Properties\<close>: authentication and the confinement of sub-agents.
  \<^item> \<open>Proxy_Net\<close> with \<open>Proxy_Hosts\<close>: canonical hosts and the destination guard. \<open>Proxy_Creds\<close> with \<open>Creds_Properties\<close>: credential
    bindings. \<open>Proxy_Glob\<close>: the two star matchers, one of them a loop that backtracks, decide the documented meaning.
  \<^item> \<open>Receipt_Chain\<close> is the receipt, its payloads, the key ring and the verifier (\<^verbatim>\<open>receipts/chain.go\<close>, \<^verbatim>\<open>keys.go\<close>); \<open>Receipt_Log\<close> the
    files: appends with failing writes, group commit as a planned and a finished half, rotation into segments; \<open>Receipt_Keys\<close> the
    key files, opening and anchors. \<open>Receipt_Lines\<close> reads the files as one list of lines, and \<open>Receipt_Runs\<close> is the
    step relation of all operations with its invariant: what is written verifies, durable receipts survive a crash.
    \<open>Receipt_Anchors\<close>: anchored history cannot be rewritten. \<open>Receipt_Restart\<close>: opening again continues the chain.
    \<open>Receipt_Key_Properties\<close>: what revoking and rotating a key change.

  \<^item> \<open>Proxy_Scrub\<close> (\<^verbatim>\<open>scrub.go\<close>) and \<open>Proxy_Spellings\<close> (\<^verbatim>\<open>hardening.go\<close>) are the redaction of what comes back to a request with real
    credentials: the spellings of a value, the set that finds them, the two readers that redact a body read in pieces, headers and
    trailers; \<open>Scrub_Response\<close> composes them as the code does. The two readers fulfil the contract of a buffered reader,
    a locale of \<open>Go_Stream\<close> in which reading is proved to end and to keep an invariant. \<open>Scrub_Properties\<close>: no injected value is
    delivered, a body without one arrives unchanged. \<open>Spelling_Properties\<close>: no encoding of a longer text that contains the
    value is. \<open>Scrub_Signed\<close>: redacting signed parameters in pieces is redacting them in the whole,
    vertical tabs apart. \<open>Scrub_Response\<close>: the
    response as a whole.

  \<^bold>\<open>Where the code stops short.\<close> Beside the properties the theories prove the cases in which the code does less than its comments
  and documents say, each next to the property it limits: \<open>waiver_by_pattern\<close>, \<open>baseline_escalate_lost_on_push\<close>, \<open>unwritten_resume_claimed_again\<close>,
  \<open>recovered_run_claimed_again\<close>, \<open>expired_authority_runs_unchecked\<close>, \<open>pruned_floor_not_compared\<close>, \<open>missing_approval_counts_as_claimed\<close>,
  \<open>vertical_tab_ends_cut_value\<close> and others.

  \<^bold>\<open>Parameters.\<close> Cryptography (SHA-256, Ed25519, HMAC), random ids, the clock, DNS, dialling, processes, file writes (which may fail or
  be cut short), gzip, media types, minted tokens and the JSON of journals and receipts are arguments of the definitions that use them; a theorem
  that needs something of them says so in its hypotheses. Times are nanoseconds since the zero time; counters of the
  trackers wrap at 64 bits, and the theorem on the egress budget asks that they stay away from the ends of that range.

  \<^bold>\<open>Loops.\<close> Every loop is a total function with its termination proof, except the backtracking URL matcher, which is a partial function
  shown to return on every input, and the wait of a hold, which consumes a list of events and has no result
  when the list ends first. The loop of \<open>Read\<close> has one round more than its source has reads, after which it is proved to have stopped. The walk to the parents of an agent is bounded by 32 steps; the validation bounds chains by 16,
  and the theorem on sub-agents shows that the bound is never what ends the walk.

  \<^bold>\<open>Not modelled.\<close> HTTP routing, JSON in and out and wiring of the gateway server; key custody, enrollment and rotation on disk; the
  sandbox, virtual machine, seccomp and command line, which are operating-system calls; in the proxy the cutting of a
  response when its agent is stopped, the reading of model usage from a response, the TLS of tunnels, and the MCP, API and content gates, which enter the pipeline as their answers.

  \<^bold>\<open>Plan.\<close> Canonical JSON, the MCP gate and pins, the lease store and the replay
  store of the gateway, in this order.
\<close>

end
